(* ===== verification/Prelude.thy ===== *)
theory Prelude
  imports Main "HOL-Library.Word"
begin

text \<open>
  Shared vocabulary of the development: bytes, JavaScript exceptions as values of a sum type,
  the 32-bit operators that JavaScript applies to numbers, ASCII case mapping, string prefixes
  and the hexadecimal codec of Node's \<open>Buffer\<close>.  A JavaScript string is represented by the list
  of its UTF-8 bytes (\<open>string\<close> is \<open>char list\<close>, a \<open>char\<close> is a byte), so \<open>utf8\<close> only changes
  the type.  Case mapping is the ASCII one; the code applies it to hexadecimal text.
\<close>

unbundle bit_operations_syntax

named_theorems js_simps \<open>evaluation rules for the JavaScript primitives\<close>

type_synonym byte = "8 word"
type_synonym bytes = "byte list"

subsection \<open>Exceptions\<close>

text \<open>
  What a call can do instead of returning: throw a \<open>RangeError\<close>, throw a plain \<open>Error\<close> with a
  message, throw a \<open>TypeError\<close>, or never return.  The texts interpolated into range errors are
  not modelled.
\<close>

datatype js_exn = RangeError | TypeError | PlainError string | Diverges

type_synonym 'a js = "js_exn + 'a"

definition bindE :: "'e + 'a \<Rightarrow> ('a \<Rightarrow> 'e + 'b) \<Rightarrow> 'e + 'b" where
  "bindE m f = (case m of Inl e \<Rightarrow> Inl e | Inr x \<Rightarrow> f x)"

lemma bindE_simps [simp]:
  "bindE (Inl e) f = Inl e"
  "bindE (Inr x) f = f x"
  by (simp_all add: bindE_def)

lemma bindE_Inr_iff: "bindE m f = Inr y \<longleftrightarrow> (\<exists>x. m = Inr x \<and> f x = Inr y)"
  by (cases m) auto

lemma bindE_Inl_iff: "bindE m f = Inl e \<longleftrightarrow> m = Inl e \<or> (\<exists>x. m = Inr x \<and> f x = Inl e)"
  by (cases m) auto

fun mapE :: "('a \<Rightarrow> 'e + 'b) \<Rightarrow> 'a list \<Rightarrow> 'e + 'b list" where
  "mapE f [] = Inr []"
| "mapE f (x # xs) = bindE (f x) (\<lambda>y. bindE (mapE f xs) (\<lambda>ys. Inr (y # ys)))"

lemma mapE_Inr_map: "(\<And>x. x \<in> set xs \<Longrightarrow> f x = Inr (g x)) \<Longrightarrow> mapE f xs = Inr (map g xs)"
  by (induction xs) simp_all

lemma mapE_length: "mapE f xs = Inr ys \<Longrightarrow> length ys = length xs"
  by (induction xs arbitrary: ys) (auto simp: bindE_Inr_iff)

text \<open>A loop over a list whose body may throw.\<close>

fun foldE :: "('s \<Rightarrow> 'a \<Rightarrow> 'e + 's) \<Rightarrow> 's \<Rightarrow> 'a list \<Rightarrow> 'e + 's" where
  "foldE f s [] = Inr s"
| "foldE f s (x # xs) = bindE (f s x) (\<lambda>s'. foldE f s' xs)"

lemma foldE_append: "foldE f s (xs @ ys) = bindE (foldE f s xs) (\<lambda>s'. foldE f s' ys)"
  by (induction xs arbitrary: s) (auto simp: bindE_def split: sum.splits)

lemma foldE_Inr:
  "(\<And>s x. x \<in> set xs \<Longrightarrow> f s x = Inr (g s x)) \<Longrightarrow> foldE f s xs = Inr (foldl g s xs)"
  by (induction xs arbitrary: s) simp_all

text \<open>\<open>x ?? d\<close>.\<close>

definition default_to :: "'a \<Rightarrow> 'a option \<Rightarrow> 'a" where
  "default_to d x = (case x of None \<Rightarrow> d | Some v \<Rightarrow> v)"

subsection \<open>Numbers and the 32-bit operators\<close>

text \<open>
  A JavaScript number that is an integer is an \<open>int\<close>.  The bitwise operators first reduce their
  operands to 32 bits: \<open>&\<close>, \<open><<\<close> and \<open>>>\<close> give a signed result, \<open>>>>\<close> an unsigned one.
\<close>

definition js_and :: "int \<Rightarrow> int \<Rightarrow> int" where
  "js_and a b = sint ((word_of_int a :: 32 word) AND word_of_int b)"

definition js_shl1 :: "int \<Rightarrow> int" where
  "js_shl1 a = sint (push_bit 1 (word_of_int a :: 32 word))"

definition js_sar1 :: "int \<Rightarrow> int" where
  "js_sar1 a = sint (signed_drop_bit 1 (word_of_int a :: 32 word))"

definition js_shr1 :: "int \<Rightarrow> int" where
  "js_shr1 a = uint (drop_bit 1 (word_of_int a :: 32 word))"

lemma word_and_one: "(word_of_int a :: 32 word) AND 1 = word_of_int (a mod 2)"
  by (metis and_one_eq of_int_and_eq of_int_1)

lemma js_and_one [js_simps]: "js_and a 1 = a mod 2"
  by (simp add: js_and_def word_and_one int_word_sint)

lemma js_sar1_div [js_simps]: "-(2^31) \<le> a \<Longrightarrow> a < 2^31 \<Longrightarrow> js_sar1 a = a div 2"
  by (simp add: js_sar1_def sint_signed_drop_bit_eq int_word_sint drop_bit_eq_div)

lemma js_shr1_div [js_simps]: "0 \<le> a \<Longrightarrow> a < 2^32 \<Longrightarrow> js_shr1 a = a div 2"
  by (simp only: js_shr1_def unsigned_drop_bit_eq)
    (simp add: drop_bit_eq_div take_bit_int_eq_self uint_word_of_int_eq)

lemma push_bit_word_of_int: "push_bit 1 (word_of_int a :: 32 word) = word_of_int (2 * a)"
  by (simp add: push_bit_eq_mult mult.commute)

lemma js_shl1_eq: "js_shl1 a = (2 * a + 2^31) mod 2^32 - 2^31"
  by (simp only: js_shl1_def push_bit_word_of_int int_word_sint) simp

lemma js_shl1_double [js_simps]: "0 \<le> a \<Longrightarrow> a < 2^30 \<Longrightarrow> js_shl1 a = 2 * a"
  by (simp add: js_shl1_eq)

lemma js_shl1_overflow: "js_shl1 (2^30) = -(2^31)" "js_shl1 (-(2^31)) = 0" "js_shl1 0 = 0"
  by (simp_all add: js_shl1_eq)

subsection \<open>Strings and bytes\<close>

definition byte_of_char :: "char \<Rightarrow> byte" where
  "byte_of_char c = word_of_nat (of_char c)"

definition char_of_byte :: "byte \<Rightarrow> char" where
  "char_of_byte b = char_of (unat b)"

lemma of_char_less: "(of_char c :: nat) < 256"
  by (metis of_char_of char_of_char mod_less_divisor zero_less_numeral)

lemma char_of_byte_of_char [simp]: "char_of_byte (byte_of_char c) = c"
  using of_char_less[of c] by (simp add: char_of_byte_def byte_of_char_def unat_of_nat)

lemma byte_of_char_inject [simp]: "byte_of_char c = byte_of_char d \<longleftrightarrow> c = d"
  by (metis char_of_byte_of_char)

definition utf8 :: "string \<Rightarrow> bytes" where
  "utf8 s = map byte_of_char s"

lemma utf8_inject [simp]: "utf8 s = utf8 t \<longleftrightarrow> s = t"
  by (simp add: utf8_def inj_map_eq_map inj_on_def)

lemma length_utf8 [simp]: "length (utf8 s) = length s"
  by (simp add: utf8_def)

definition starts_with :: "string \<Rightarrow> string \<Rightarrow> bool" where
  "starts_with p s \<longleftrightarrow> take (length p) s = p"

lemma starts_with_append [simp]: "starts_with p (p @ s)"
  by (simp add: starts_with_def)

definition lower_char :: "char \<Rightarrow> char" where
  "lower_char c = (let n = (of_char c :: nat) in if 65 \<le> n \<and> n \<le> 90 then char_of (n + 32) else c)"

definition to_lower :: "string \<Rightarrow> string" where
  "to_lower s = map lower_char s"

lemma to_lower_simps [simp]:
  "to_lower [] = []" "to_lower (c # s) = lower_char c # to_lower s"
  "to_lower (s @ t) = to_lower s @ to_lower t"
  by (simp_all add: to_lower_def)

lemma length_to_lower [simp]: "length (to_lower s) = length s"
  by (simp add: to_lower_def)

lemma lower_char_idem [simp]: "lower_char (lower_char c) = lower_char c"
  by (auto simp: lower_char_def Let_def of_char_of)

lemma to_lower_idem [simp]: "to_lower (to_lower s) = to_lower s"
  by (simp add: to_lower_def o_def)

text \<open>\<open>Array.prototype.join\<close>, and when it can be undone.\<close>

fun join :: "string \<Rightarrow> string list \<Rightarrow> string" where
  "join sep [] = []"
| "join sep [x] = x"
| "join sep (x # y # ys) = x @ sep @ join sep (y # ys)"

lemma append_sep_inject:
  assumes "c \<notin> set a" "c \<notin> set b"
  shows "a @ c # x = b @ c # y \<longleftrightarrow> a = b \<and> x = y"
  using assms by (induction a arbitrary: b) (case_tac b; auto)+

lemma join_inject:
  assumes "length xs = length ys" "\<forall>x\<in>set xs. c \<notin> set x" "\<forall>y\<in>set ys. c \<notin> set y"
    and "join [c] xs = join [c] ys"
  shows "xs = ys"
  using assms
proof (induction "[c]" xs arbitrary: ys rule: join.induct)
  case 1
  then show ?case by simp
next
  case (2 x)
  then show ?case by (cases ys) auto
next
  case (3 x y zs)
  then obtain u v ws where ys: "ys = u # v # ws"
    by (auto simp: length_Suc_conv Suc_length_conv)
  with "3.prems" have eq: "x = u" "join [c] (y # zs) = join [c] (v # ws)"
    by (simp_all add: append_sep_inject)
  have "y # zs = v # ws"
    by (rule "3.hyps") (use "3.prems" ys eq in auto)
  with ys eq show ?case by simp
qed

text \<open>The decimal text of a non-negative number.\<close>

fun js_num :: "nat \<Rightarrow> string" where
  "js_num n = (if n < 10 then [char_of (48 + n)] else js_num (n div 10) @ [char_of (48 + n mod 10)])"

declare js_num.simps [simp del]

definition js_int :: "int \<Rightarrow> string" where
  "js_int v = (if v < 0 then CHR ''-'' # js_num (nat (- v)) else js_num (nat v))"

subsection \<open>Hexadecimal\<close>

definition hex_digit :: "nat \<Rightarrow> char" where
  "hex_digit n = ''0123456789abcdef'' ! n"

definition hex_val :: "char \<Rightarrow> nat option" where
  "hex_val c = (let n = of_char c in
     if 48 \<le> n \<and> n \<le> 57 then Some (n - 48)
     else if 97 \<le> n \<and> n \<le> 102 then Some (n - 87)
     else if 65 \<le> n \<and> n \<le> 70 then Some (n - 55) else None)"

lemma hex_digit_table:
  "\<forall>n\<in>set [0..<16]. hex_val (hex_digit n) = Some n \<and> lower_char (hex_digit n) = hex_digit n
     \<and> hex_digit n \<noteq> CHR ''x''"
  by code_simp

lemma hex_val_digit [simp]: "n < 16 \<Longrightarrow> hex_val (hex_digit n) = Some n"
  and lower_hex_digit [simp]: "n < 16 \<Longrightarrow> lower_char (hex_digit n) = hex_digit n"
  using hex_digit_table by simp_all

lemma hex_val_less: "hex_val c = Some n \<Longrightarrow> n < 16"
  by (auto simp: hex_val_def Let_def split: if_splits)

text \<open>\<open>Buffer.from(b).toString("hex")\<close>.\<close>

fun hex_of :: "bytes \<Rightarrow> string" where
  "hex_of [] = []"
| "hex_of (b # bs) = hex_digit (unat b div 16) # hex_digit (unat b mod 16) # hex_of bs"

text \<open>\<open>Buffer.from(s, "hex")\<close>: decoding stops silently at the first pair that is not hexadecimal.\<close>

fun buffer_from_hex :: "string \<Rightarrow> bytes" where
  "buffer_from_hex (a # b # s) =
     (case hex_val a of None \<Rightarrow> []
      | Some x \<Rightarrow> (case hex_val b of None \<Rightarrow> []
         | Some y \<Rightarrow> word_of_nat (16 * x + y) # buffer_from_hex s))"
| "buffer_from_hex s = []"

lemma unat_byte_less: "unat (b :: byte) < 256"
  using unsigned_less[of b, where 'a = nat] by simp

lemma byte_nibbles [simp]:
  "unat (b :: byte) div 16 < 16" "16 * (unat b div 16) + unat b mod 16 = unat b"
  using unat_byte_less[of b] by auto

lemma buffer_from_hex_of [simp]: "buffer_from_hex (hex_of bs) = bs"
  by (induction bs) simp_all

lemma length_hex_of [simp]: "length (hex_of bs) = 2 * length bs"
  by (induction bs) simp_all

lemma to_lower_hex_of [simp]: "to_lower (hex_of bs) = hex_of bs"
  by (induction bs) (simp_all add: to_lower_def)

lemma length_buffer_from_hex: "length (buffer_from_hex s) \<le> length s div 2"
  by (induction s rule: buffer_from_hex.induct) (auto split: option.splits)

text \<open>Big-endian fixed-width integers, as \<open>writeUInt16BE\<close> and \<open>writeBigUInt64BE\<close> lay them out.\<close>

fun be_bytes :: "nat \<Rightarrow> nat \<Rightarrow> bytes" where
  "be_bytes 0 v = []"
| "be_bytes (Suc n) v = be_bytes n (v div 256) @ [word_of_nat (v mod 256)]"

lemma length_be_bytes [simp]: "length (be_bytes n v) = n"
  by (induction n arbitrary: v) simp_all

lemma be_bytes_inject:
  "v < 256 ^ n \<Longrightarrow> w < 256 ^ n \<Longrightarrow> be_bytes n v = be_bytes n w \<longleftrightarrow> v = w"
proof (induction n arbitrary: v w)
  case 0
  then show ?case by simp
next
  case (Suc n)
  have d: "v div 256 < 256 ^ n" "w div 256 < 256 ^ n"
    using Suc.prems by (simp_all add: less_mult_imp_div_less mult.commute)
  have m: "(word_of_nat (v mod 256) :: byte) = word_of_nat (w mod 256) \<longleftrightarrow> v mod 256 = w mod 256"
    by (simp add: word_of_nat_eq_iff take_bit_nat_eq_self)
  show ?case
    using Suc.IH[OF d] m by simp (metis div_mult_mod_eq)
qed

subsection \<open>Numbers in text\<close>

text \<open>\<open>Number.parseInt(s, 16)\<close>: skip white space, an optional sign, an optional \<open>0x\<close>, then the longest
  run of hexadecimal digits; \<open>None\<close> is NaN.\<close>

definition is_js_space :: "char \<Rightarrow> bool" where
  "is_js_space c = (let n = (of_char c :: nat) in n = 32 \<or> 9 \<le> n \<and> n \<le> 13)"

definition strip_0x :: "string \<Rightarrow> string" where
  "strip_0x s = (if starts_with ''0x'' s \<or> starts_with ''0X'' s then drop 2 s else s)"

fun hex_run :: "nat \<Rightarrow> string \<Rightarrow> nat" where
  "hex_run v [] = v"
| "hex_run v (c # s) = (case hex_val c of None \<Rightarrow> v | Some d \<Rightarrow> hex_run (16 * v + d) s)"

definition parse_unsigned16 :: "string \<Rightarrow> int option" where
  "parse_unsigned16 s = (case strip_0x s of [] \<Rightarrow> None
     | c # s' \<Rightarrow> (case hex_val c of None \<Rightarrow> None | Some d \<Rightarrow> Some (int (hex_run d s'))))"

definition parseInt16 :: "string \<Rightarrow> int option" where
  "parseInt16 s = (case dropWhile is_js_space s of [] \<Rightarrow> None
     | c # s' \<Rightarrow> (if c = CHR ''-'' then map_option uminus (parse_unsigned16 s')
                 else if c = CHR ''+'' then parse_unsigned16 s'
                 else parse_unsigned16 (c # s')))"

text \<open>\<open>n.toString(16)\<close> and \<open>padStart\<close>.\<close>

fun toString16 :: "nat \<Rightarrow> string" where
  "toString16 n = (if n < 16 then [hex_digit n] else toString16 (n div 16) @ [hex_digit (n mod 16)])"

declare toString16.simps [simp del]

definition padStart :: "nat \<Rightarrow> char \<Rightarrow> string \<Rightarrow> string" where
  "padStart n c s = replicate (n - length s) c @ s"

text \<open>\<open>BigInt(s)\<close> on a string: surrounding white space is dropped, the empty string is 0, the radix
  prefixes take no sign.  \<open>None\<close> is a \<open>SyntaxError\<close>.\<close>

fun digits_value :: "nat \<Rightarrow> nat \<Rightarrow> string \<Rightarrow> nat option" where
  "digits_value r v [] = Some v"
| "digits_value r v (c # s) = (case hex_val c of None \<Rightarrow> None
     | Some d \<Rightarrow> if d < r then digits_value r (r * v + d) s else None)"

definition radix_digits :: "nat \<Rightarrow> string \<Rightarrow> int option" where
  "radix_digits r s = (if s = [] then None else map_option int (digits_value r 0 s))"

definition js_trim :: "string \<Rightarrow> string" where
  "js_trim s = rev (dropWhile is_js_space (rev (dropWhile is_js_space s)))"

definition BigInt :: "string \<Rightarrow> int option" where
  "BigInt str = (let s = js_trim str; p = to_lower (take 2 s) in
     if s = [] then Some 0
     else if p = ''0x'' then radix_digits 16 (drop 2 s)
     else if p = ''0o'' then radix_digits 8 (drop 2 s)
     else if p = ''0b'' then radix_digits 2 (drop 2 s)
     else if hd s = CHR ''-'' then map_option uminus (radix_digits 10 (tl s))
     else if hd s = CHR ''+'' then radix_digits 10 (tl s)
     else radix_digits 10 s)"

lemma digit_table:
  "\<forall>n\<in>set [0..<16]. \<not> is_js_space (hex_digit n) \<and> hex_digit n \<noteq> CHR ''-'' \<and> hex_digit n \<noteq> CHR ''+''
     \<and> hex_digit n \<noteq> CHR ''x'' \<and> hex_digit n \<noteq> CHR ''X''"
  by code_simp

lemma hex_digit_plain [simp]:
  assumes "n < 16"
  shows "\<not> is_js_space (hex_digit n)" "hex_digit n \<noteq> CHR ''-''" "hex_digit n \<noteq> CHR ''+''"
    "hex_digit n \<noteq> CHR ''x''" "hex_digit n \<noteq> CHR ''X''"
  using digit_table assms by auto

lemma parse_byte [simp]: "parseInt16 [hex_digit (unat (b::byte) div 16), hex_digit (unat b mod 16)] = Some (uint b)"
proof -
  have "int (16 * (unat b div 16) + unat b mod 16) = uint b" by simp
  then show ?thesis
    by (simp add: parseInt16_def parse_unsigned16_def strip_0x_def starts_with_def numeral_2_eq_2
        del: byte_nibbles(2))
qed

lemma strip_0x_hex_of [simp]: "strip_0x (hex_of bs) = hex_of bs"
  by (cases bs) (simp_all add: strip_0x_def starts_with_def numeral_2_eq_2)

lemma pad_byte: "padStart 2 CHR ''0'' (toString16 (unat (b::byte))) = [hex_digit (unat b div 16), hex_digit (unat b mod 16)]"
  using unat_byte_less[of b]
  by (cases "unat b < 16") (simp_all add: padStart_def toString16.simps hex_digit_def)

text \<open>\<open>k\<close> hexadecimal digits of a number.\<close>

fun hexpad :: "nat \<Rightarrow> nat \<Rightarrow> string" where
  "hexpad 0 v = []"
| "hexpad (Suc k) v = hexpad k (v div 16) @ [hex_digit (v mod 16)]"

lemma length_hexpad [simp]: "length (hexpad k v) = k"
  by (induction k arbitrary: v) simp_all

lemma hexpad_zero: "hexpad k 0 = replicate k CHR ''0''"
  by (induction k) (simp_all add: hex_digit_def replicate_append_same)

lemma hexpad_padStart: "v < 16 ^ Suc k \<Longrightarrow> padStart (Suc k) CHR ''0'' (toString16 v) = hexpad (Suc k) v"
proof (induction k arbitrary: v)
  case 0
  then show ?case by (simp add: padStart_def toString16.simps)
next
  case (Suc k)
  show ?case
  proof (cases "v < 16")
    case True
    then have "v div 16 = 0" "v mod 16 = v" by simp_all
    then show ?thesis
      using True hexpad_zero[of "Suc k"] by (simp only: hexpad.simps(2)[of "Suc k"])
        (simp add: padStart_def toString16.simps)
  next
    case False
    have "v div 16 < 16 ^ Suc k" using Suc.prems by (simp add: less_mult_imp_div_less mult.commute)
    from Suc.IH[OF this] show ?thesis
      using False by (simp only: hexpad.simps(2)[of "Suc k"])
        (simp add: padStart_def toString16.simps[of v])
  qed
qed

lemma hex_of_append: "hex_of (a @ b) = hex_of a @ hex_of b"
  by (induction a) simp_all

lemma hexpad_be_bytes: "hexpad (2 * n) v = hex_of (be_bytes n v)"
proof (induction n arbitrary: v)
  case (Suc n)
  have "v mod 256 = 16 * (v div 16 mod 16) + v mod 16" using mod_mult2_eq[of v 16 16] by simp
  then have "v div 16 mod 16 = v mod 256 div 16" "v mod 16 = v mod 256 mod 16" by simp_all
  moreover have "v div 16 div 16 = v div 256" by (simp add: div_mult2_eq[symmetric])
  ultimately have "hexpad (2 * Suc n) v =
      hexpad (2 * n) (v div 256) @ [hex_digit (v mod 256 div 16), hex_digit (v mod 256 mod 16)]"
    by simp
  then show ?case using Suc by (simp add: hex_of_append unat_of_nat)
qed simp

lemma digits_value_append:
  "digits_value r v (s @ t) = Option.bind (digits_value r v s) (\<lambda>v'. digits_value r v' t)"
  by (induction r v s rule: digits_value.induct) (auto split: option.splits)

lemma digits_value_hexpad: "v < 16 ^ k \<Longrightarrow> digits_value 16 a (hexpad k v) = Some (a * 16 ^ k + v)"
proof (induction k arbitrary: v)
  case (Suc k)
  have "v div 16 < 16 ^ k" using Suc.prems by (simp add: less_mult_imp_div_less mult.commute)
  from Suc.IH[OF this] show ?case by (simp add: digits_value_append algebra_simps)
qed simp

lemma BigInt_hexpad:
  assumes "v < 16 ^ Suc k"
  shows "BigInt (''0x'' @ hexpad (Suc k) v) = Some (int v)"
proof -
  have "js_trim (''0x'' @ hexpad (Suc k) v) = ''0x'' @ hexpad (Suc k) v"
    by (simp add: js_trim_def is_js_space_def[of "CHR ''0''"])
  with digits_value_hexpad[OF assms, of 0] show ?thesis
    by (simp add: BigInt_def radix_digits_def Let_def numeral_2_eq_2 lower_char_def)
qed


end
