(* ===== verification/Merkle_Spec.thy ===== *)
theory Merkle_Spec
  imports Prelude
begin

text \<open>
  The abstract specification: RFC 6962 section 2.1 over lists of leaves (tree hash, audit path,
  consistency proof), and the left/right decisions of the RFC 9162 verification walk as plain
  arithmetic on the pair \<open>(fn, sn)\<close>.  The code's index-based functions refine the former, its
  verification loops the latter.  The hash function \<open>H\<close> is a parameter throughout.
\<close>

subsection \<open>The split point\<close>

fun kpow :: "nat \<Rightarrow> nat" where
  "kpow n = (if n \<le> 2 then 1 else 2 * kpow ((n + 1) div 2))"

declare kpow.simps [simp del]

lemma kpow_pow2: "2 \<le> n \<Longrightarrow> \<exists>j. kpow n = 2 ^ j \<and> 2 ^ j < n \<and> n \<le> 2 * 2 ^ j"
proof (induction n rule: kpow.induct)
  case (1 n)
  show ?case
  proof (cases "n \<le> 2")
    case True
    with 1 have "n = 2" by simp
    then show ?thesis by (intro exI[of _ 0]) (simp add: kpow.simps)
  next
    case False
    then obtain j where j: "kpow ((n + 1) div 2) = 2 ^ j" "2 ^ j < (n + 1) div 2"
        "(n + 1) div 2 \<le> 2 * 2 ^ j"
      using 1 by fastforce
    have "kpow n = 2 ^ Suc j" using False j(1) by (simp add: kpow.simps[of n])
    moreover have "2 ^ Suc j < n" "n \<le> 2 * 2 ^ Suc j" using j(2,3) by simp_all
    ultimately show ?thesis by blast
  qed
qed

lemma pow2_between_unique:
  assumes "2 ^ i < (n::nat)" "n \<le> 2 * 2 ^ i" "2 ^ j < n" "n \<le> 2 * 2 ^ j"
  shows "i = j"
proof -
  have "(2::nat) ^ i < 2 ^ Suc j" "(2::nat) ^ j < 2 ^ Suc i" using assms by simp_all
  then have "i < Suc j" "j < Suc i"
    by (simp_all only: power_strict_increasing_iff one_less_numeral_iff semiring_norm)
  then show ?thesis by simp
qed

lemma kpow_unique: "2 ^ j < n \<Longrightarrow> n \<le> 2 * 2 ^ j \<Longrightarrow> kpow n = 2 ^ j"
proof -
  assume a: "2 ^ j < n" "n \<le> 2 * 2 ^ j"
  have "1 \<le> (2::nat) ^ j" by simp
  with a have "2 \<le> n" by linarith
  then obtain i where "kpow n = 2 ^ i" "2 ^ i < n" "n \<le> 2 * 2 ^ i"
    using kpow_pow2 by blast
  with a show "kpow n = 2 ^ j" using pow2_between_unique by metis
qed

lemma kpow_bounds:
  assumes "2 \<le> n"
  shows "0 < kpow n" "kpow n < n" "n \<le> 2 * kpow n"
proof -
  from kpow_pow2[OF assms] obtain j where "kpow n = 2 ^ j" "2 ^ j < n" "n \<le> 2 * 2 ^ j" by blast
  then show "0 < kpow n" "kpow n < n" "n \<le> 2 * kpow n" by simp_all
qed

lemma kpow_decr:
  assumes "\<not> n \<le> Suc 0"
  shows "min n (kpow n) < n" "n - kpow n < n"
  using kpow_bounds[of n] assms by auto

lemma kpow_decr_list:
  assumes "D \<noteq> []" "length D \<noteq> Suc 0"
  shows "min (length D) (kpow (length D)) < length D" "length D - kpow (length D) < length D"
  using kpow_bounds[of "length D"] assms by (cases D; cases "tl D"; auto)+

subsection \<open>RFC 6962 over lists\<close>

definition leaf_in :: "bytes \<Rightarrow> bytes" where "leaf_in l = 0 # l"

definition node_in :: "bytes \<Rightarrow> bytes \<Rightarrow> bytes" where "node_in l r = 1 # l @ r"

lemma node_in_inject:
  "length l = length l' \<or> length r = length r' \<Longrightarrow> node_in l r = node_in l' r' \<longleftrightarrow> l = l' \<and> r = r'"
  by (auto simp: node_in_def)

function MTH :: "(bytes \<Rightarrow> bytes) \<Rightarrow> bytes list \<Rightarrow> bytes" where
  "MTH H D =
     (if length D = 0 then H []
      else if length D = 1 then H (leaf_in (hd D))
      else let k = kpow (length D) in H (node_in (MTH H (take k D)) (MTH H (drop k D))))"
  by pat_completeness auto
termination
  by (relation "measure (\<lambda>(H, D). length D)") (auto simp: kpow_decr kpow_decr_list)

function PATH :: "(bytes \<Rightarrow> bytes) \<Rightarrow> nat \<Rightarrow> bytes list \<Rightarrow> bytes list" where
  "PATH H m D =
     (if length D \<le> 1 then []
      else let k = kpow (length D) in
        if m < k then PATH H m (take k D) @ [MTH H (drop k D)]
        else PATH H (m - k) (drop k D) @ [MTH H (take k D)])"
  by pat_completeness auto
termination
  by (relation "measure (\<lambda>(H, m, D). length D)") (auto simp: kpow_decr kpow_decr_list)

function SUBPROOF :: "(bytes \<Rightarrow> bytes) \<Rightarrow> nat \<Rightarrow> bytes list \<Rightarrow> bool \<Rightarrow> bytes list" where
  "SUBPROOF H m D b =
     (if m = length D then (if b then [] else [MTH H D])
      else if length D \<le> 1 then []
      else let k = kpow (length D) in
        if m \<le> k then SUBPROOF H m (take k D) b @ [MTH H (drop k D)]
        else SUBPROOF H (m - k) (drop k D) False @ [MTH H (take k D)])"
  by pat_completeness auto
termination
  by (relation "measure (\<lambda>(H, m, D, b). length D)") (auto simp: kpow_decr kpow_decr_list)

declare MTH.simps [simp del] PATH.simps [simp del] SUBPROOF.simps [simp del]

lemma MTH_Nil [simp]: "MTH H [] = H []"
  and MTH_single [simp]: "MTH H [x] = H (leaf_in x)"
  by (simp_all add: MTH.simps)

lemma MTH_split:
  "2 \<le> length D \<Longrightarrow> MTH H D =
     H (node_in (MTH H (take (kpow (length D)) D)) (MTH H (drop (kpow (length D)) D)))"
  by (subst MTH.simps) (auto simp: Let_def)

lemma PATH_left:
  "2 \<le> length D \<Longrightarrow> m < kpow (length D) \<Longrightarrow>
     PATH H m D = PATH H m (take (kpow (length D)) D) @ [MTH H (drop (kpow (length D)) D)]"
  and PATH_right:
  "2 \<le> length D \<Longrightarrow> kpow (length D) \<le> m \<Longrightarrow>
     PATH H m D = PATH H (m - kpow (length D)) (drop (kpow (length D)) D)
       @ [MTH H (take (kpow (length D)) D)]"
  by (subst PATH.simps; simp add: Let_def)+

lemma SUBPROOF_self: "SUBPROOF H (length D) D b = (if b then [] else [MTH H D])"
  by (subst SUBPROOF.simps) simp

lemma SUBPROOF_left:
  "2 \<le> length D \<Longrightarrow> m \<le> kpow (length D) \<Longrightarrow>
     SUBPROOF H m D b = SUBPROOF H m (take (kpow (length D)) D) b
       @ [MTH H (drop (kpow (length D)) D)]"
  using kpow_bounds(2)[of "length D"] by (subst SUBPROOF.simps) (auto simp: Let_def)

lemma SUBPROOF_right:
  "2 \<le> length D \<Longrightarrow> kpow (length D) < m \<Longrightarrow> m < length D \<Longrightarrow>
     SUBPROOF H m D b = SUBPROOF H (m - kpow (length D)) (drop (kpow (length D)) D) False
       @ [MTH H (take (kpow (length D)) D)]"
  by (subst SUBPROOF.simps) (auto simp: Let_def)

text \<open>Every tree hash is an output of \<open>H\<close>.\<close>

lemma MTH_is_hash: "\<exists>x. MTH H D = H x"
  by (subst MTH.simps) (auto simp: Let_def)

subsection \<open>The verification walk as arithmetic\<close>

function strip :: "nat \<Rightarrow> nat \<Rightarrow> nat \<times> nat" where
  "strip fn sn = (if fn \<noteq> 0 \<and> even fn then strip (fn div 2) (sn div 2) else (fn, sn))"
  by pat_completeness auto
termination
  by (relation "measure fst") auto

function strip1 :: "nat \<Rightarrow> nat \<Rightarrow> nat \<times> nat" where
  "strip1 fn sn = (if odd fn then strip1 (fn div 2) (sn div 2) else (fn, sn))"
  by pat_completeness auto
termination
  by (relation "measure fst") (auto elim: oddE)

declare strip.simps [simp del] strip1.simps [simp del]

lemma strip_odd [simp]: "odd fn \<Longrightarrow> strip fn sn = (fn, sn)"
  by (simp add: strip.simps)

lemma strip_even: "fn \<noteq> 0 \<Longrightarrow> even fn \<Longrightarrow> strip fn sn = strip (fn div 2) (sn div 2)"
  by (simp add: strip.simps[of fn])

lemma snd_strip_le: "snd (strip fn sn) \<le> sn"
proof (induction fn sn rule: strip.induct)
  case (1 fn sn)
  then show ?case by (subst strip.simps) (auto intro: order_trans)
qed

lemma strip1_even [simp]: "even fn \<Longrightarrow> strip1 fn sn = (fn, sn)"
  by (simp add: strip1.simps)

lemma strip1_odd: "odd fn \<Longrightarrow> strip1 fn sn = strip1 (fn div 2) (sn div 2)"
  by (simp add: strip1.simps[of fn])

function dirs_loop :: "nat \<Rightarrow> nat \<Rightarrow> bool list" where
  "dirs_loop fn sn =
     (if sn = 0 then []
      else if odd fn \<or> fn = sn then
        True # dirs_loop (fst (strip fn sn) div 2) (snd (strip fn sn) div 2)
      else False # dirs_loop (fn div 2) (sn div 2))"
  by pat_completeness auto
termination
proof (relation "measure snd"; simp)
  fix fn sn :: nat
  assume "0 < sn"
  then show "snd (strip fn sn) div 2 < sn" using snd_strip_le[of fn sn] by linarith
qed

declare dirs_loop.simps [simp del]

lemma dirs_loop_0 [simp]: "dirs_loop fn 0 = []"
  by (simp add: dirs_loop.simps)

lemma dirs_loop_odd:
  "odd fn \<Longrightarrow> sn \<noteq> 0 \<Longrightarrow> dirs_loop fn sn = True # dirs_loop (fn div 2) (sn div 2)"
  by (simp add: dirs_loop.simps[of fn sn])

lemma dirs_loop_eq:
  "n \<noteq> 0 \<Longrightarrow> dirs_loop n n = True # dirs_loop (fst (strip n n) div 2) (snd (strip n n) div 2)"
  by (simp add: dirs_loop.simps[of n n])

lemma dirs_loop_even:
  "even fn \<Longrightarrow> fn \<noteq> sn \<Longrightarrow> sn \<noteq> 0 \<Longrightarrow> dirs_loop fn sn = False # dirs_loop (fn div 2) (sn div 2)"
  by (simp add: dirs_loop.simps[of fn sn])

lemma pow_pred_div: "(2 ^ Suc j - Suc 0) div 2 = 2 ^ j - Suc 0"
  by (induction j) auto

text \<open>Below a set top bit of \<open>sn\<close> the walk is the one of the full left subtree.\<close>

lemma dirs_loop_left:
  "fn < 2 ^ j \<Longrightarrow> 2 ^ j \<le> sn \<Longrightarrow> sn < 2 * 2 ^ j \<Longrightarrow>
     dirs_loop fn sn = dirs_loop fn (2 ^ j - 1) @ [False]"
proof (induction j arbitrary: fn sn)
  case 0
  then have "fn = 0" "sn = 1" by auto
  then show ?case by (simp add: dirs_loop_even)
next
  case (Suc j)
  have IH: "dirs_loop (fn div 2) (sn div 2) = dirs_loop (fn div 2) (2 ^ j - 1) @ [False]"
    by (rule Suc.IH) (use Suc.prems in auto)
  have "\<not> 2 * 2 ^ j \<le> Suc 0" using one_le_power[of "2::nat" j] by linarith
  with Suc.prems have nz: "sn \<noteq> 0" "(2 ^ Suc j - 1 :: nat) \<noteq> 0" "fn \<noteq> sn"
      "odd (2 ^ Suc j - 1 :: nat)"
    by (auto simp: dvd_diff_nat)
  show ?case
  proof (cases "odd fn")
    case True
    then show ?thesis
      using nz IH by (simp add: dirs_loop_odd pow_pred_div del: power_Suc)
  next
    case False
    then have "fn \<noteq> 2 ^ Suc j - 1" using nz(4) by metis
    with False show ?thesis
      using nz IH by (simp add: dirs_loop_even pow_pred_div del: power_Suc)
  qed
qed

lemma strip_add_pow:
  "0 < f \<Longrightarrow> f < 2 ^ j \<Longrightarrow> \<exists>g i. strip f f = (g, g) \<and>
     strip (f + 2 ^ j) (f + 2 ^ j) = (g + 2 ^ i, g + 2 ^ i) \<and> odd g \<and> g < 2 ^ i \<and> g \<le> f"
proof (induction j arbitrary: f)
  case 0
  then show ?case by simp
next
  case (Suc j)
  show ?case
  proof (cases "odd f")
    case True
    with Suc.prems show ?thesis by (intro exI[of _ f] exI[of _ "Suc j"]) auto
  next
    case False
    with Suc.prems have "0 < f div 2" "f div 2 < 2 ^ j" by auto
    from Suc.IH[OF this] obtain g i where gi: "strip (f div 2) (f div 2) = (g, g)"
      "strip (f div 2 + 2 ^ j) (f div 2 + 2 ^ j) = (g + 2 ^ i, g + 2 ^ i)"
      "odd g" "g < 2 ^ i" "g \<le> f div 2" by blast
    have "strip f f = (g, g)" using False Suc.prems gi(1) by (simp add: strip_even)
    moreover have "strip (f + 2 ^ Suc j) (f + 2 ^ Suc j) = (g + 2 ^ i, g + 2 ^ i)"
      using False Suc.prems gi(2) by (simp add: strip_even)
    ultimately show ?thesis using gi(3-5) by (intro exI[of _ g] exI[of _ i]) auto
  qed
qed

lemma strip_pow: "strip (2 ^ j) (2 ^ j) = (1, 1)"
proof (induction j)
  case 0
  then show ?case by simp
next
  case (Suc j)
  then show ?case by (simp add: strip_even)
qed

text \<open>A common top bit only adds the final left-hand combination.\<close>

lemma dirs_loop_right:
  "fn \<le> sn \<Longrightarrow> sn < 2 ^ j \<Longrightarrow> dirs_loop (fn + 2 ^ j) (sn + 2 ^ j) = dirs_loop fn sn @ [True]"
proof (induction sn arbitrary: fn j rule: less_induct)
  case (less sn)
  consider (zero) "sn = 0" | (eq) "sn \<noteq> 0" "fn = sn" | (odd) "sn \<noteq> 0" "fn \<noteq> sn" "odd fn"
    | (even) "sn \<noteq> 0" "fn \<noteq> sn" "even fn" by blast
  then show ?case
  proof cases
    case zero
    with less.prems show ?thesis by (simp add: dirs_loop_eq strip_pow)
  next
    case eq
    with less.prems obtain g i where g: "strip sn sn = (g, g)"
      "strip (sn + 2 ^ j) (sn + 2 ^ j) = (g + 2 ^ i, g + 2 ^ i)" "odd g" "g < 2 ^ i" "g \<le> sn"
      using strip_add_pow[of sn j] by auto
    then obtain i' where i: "i = Suc i'" by (cases i) auto
    have "dirs_loop (g div 2 + 2 ^ i') (g div 2 + 2 ^ i') = dirs_loop (g div 2) (g div 2) @ [True]"
      by (rule less.IH) (use g i eq in auto)
    moreover have "dirs_loop sn sn = True # dirs_loop (g div 2) (g div 2)"
      using dirs_loop_eq[of sn] eq g(1) by simp
    moreover have "dirs_loop (sn + 2 ^ j) (sn + 2 ^ j) =
        True # dirs_loop ((g + 2 ^ i) div 2) ((g + 2 ^ i) div 2)"
      using dirs_loop_eq[of "sn + 2 ^ j"] eq g(2) by simp
    moreover have "(g + 2 ^ i) div 2 = g div 2 + 2 ^ i'" by (simp add: i add.commute)
    ultimately show ?thesis using eq(2) by simp
  next
    case odd
    with less.prems obtain i where i: "j = Suc i" by (cases j) auto
    have "dirs_loop (fn div 2 + 2 ^ i) (sn div 2 + 2 ^ i) = dirs_loop (fn div 2) (sn div 2) @ [True]"
      by (rule less.IH) (use less.prems odd i in auto)
    then show ?thesis using odd i by (simp add: dirs_loop_odd add.commute)
  next
    case even
    with less.prems obtain i where i: "j = Suc i" by (cases j) auto
    have "dirs_loop (fn div 2 + 2 ^ i) (sn div 2 + 2 ^ i) = dirs_loop (fn div 2) (sn div 2) @ [True]"
      by (rule less.IH) (use less.prems even i in auto)
    then show ?thesis using even i by (simp add: dirs_loop_even add.commute)
  qed
qed

text \<open>The decisions read off the tree shape: from the leaf up to the root.\<close>

function dirs :: "nat \<Rightarrow> nat \<Rightarrow> bool list" where
  "dirs m n =
     (if n \<le> 1 then []
      else if m < kpow n then dirs m (kpow n) @ [False]
      else dirs (m - kpow n) (n - kpow n) @ [True])"
  by pat_completeness auto
termination
  by (relation "measure snd") (use kpow_bounds in \<open>auto simp: kpow_decr\<close>)

function cdirs :: "nat \<Rightarrow> nat \<Rightarrow> bool list" where
  "cdirs m n =
     (if m = n \<or> n \<le> 1 then []
      else if m \<le> kpow n then cdirs m (kpow n) @ [False]
      else cdirs (m - kpow n) (n - kpow n) @ [True])"
  by pat_completeness auto
termination
  by (relation "measure snd") (use kpow_bounds in \<open>auto simp: kpow_decr\<close>)

declare dirs.simps [simp del] cdirs.simps [simp del]

lemma dirs_loop_dirs: "m < n \<Longrightarrow> dirs_loop m (n - 1) = dirs m n"
proof (induction n arbitrary: m rule: less_induct)
  case (less n)
  show ?case
  proof (cases "n \<le> 1")
    case True
    with less.prems show ?thesis by (simp add: dirs.simps)
  next
    case False
    then obtain j where j: "kpow n = 2 ^ j" "2 ^ j < n" "n \<le> 2 * 2 ^ j"
      using kpow_pow2[of n] by auto
    show ?thesis
    proof (cases "m < 2 ^ j")
      case True
      have "dirs_loop m (n - 1) = dirs_loop m (2 ^ j - 1) @ [False]"
        by (rule dirs_loop_left) (use True j in auto)
      then show ?thesis using True False j less.IH[OF j(2) True] by (simp add: dirs.simps[of m n])
    next
      case right: False
      have "dirs_loop (m - 2 ^ j + 2 ^ j) (n - 1 - 2 ^ j + 2 ^ j) =
          dirs_loop (m - 2 ^ j) (n - 1 - 2 ^ j) @ [True]"
        by (rule dirs_loop_right) (use right j less.prems in auto)
      moreover have "dirs_loop (m - 2 ^ j) (n - 2 ^ j - 1) = dirs (m - 2 ^ j) (n - 2 ^ j)"
        by (rule less.IH) (use right j less.prems in auto)
      ultimately show ?thesis
        using right False j less.prems by (simp add: dirs.simps[of m n] diff_commute)
    qed
  qed
qed

definition walk1 :: "nat \<Rightarrow> nat \<Rightarrow> bool list" where
  "walk1 fn sn = (case strip1 fn sn of (f, s) \<Rightarrow> dirs_loop f s)"

lemma walk1_even: "even fn \<Longrightarrow> walk1 fn sn = dirs_loop fn sn"
  and walk1_odd: "odd fn \<Longrightarrow> walk1 fn sn = walk1 (fn div 2) (sn div 2)"
  by (simp_all add: walk1_def strip1_odd)

lemma walk1_left:
  "fn < 2 ^ j \<Longrightarrow> 2 ^ j \<le> sn \<Longrightarrow> sn < 2 * 2 ^ j \<Longrightarrow>
     walk1 fn sn = walk1 fn (2 ^ j - 1) @ [False]"
proof (induction j arbitrary: fn sn)
  case 0
  then show ?case using dirs_loop_left[of fn 0 sn] by (simp add: walk1_even)
next
  case (Suc j)
  show ?case
  proof (cases "odd fn")
    case True
    have "walk1 (fn div 2) (sn div 2) =
        walk1 (fn div 2) (2 ^ j - 1) @ [False]"
      by (rule Suc.IH) (use Suc.prems in auto)
    with True show ?thesis by (simp add: walk1_odd pow_pred_div del: power_Suc)
  next
    case False
    then show ?thesis using dirs_loop_left[OF Suc.prems] by (simp add: walk1_even)
  qed
qed

lemma walk1_right:
  "fn < sn \<Longrightarrow> sn < 2 ^ j \<Longrightarrow>
     walk1 (fn + 2 ^ j) (sn + 2 ^ j) =
       walk1 fn sn @ [True]"
proof (induction j arbitrary: fn sn)
  case 0
  then show ?case by simp
next
  case (Suc j)
  show ?case
  proof (cases "odd fn")
    case True
    with Suc.prems have "fn div 2 < sn div 2" by (auto elim!: oddE)
    then have "walk1 (fn div 2 + 2 ^ j) (sn div 2 + 2 ^ j) =
        walk1 (fn div 2) (sn div 2) @ [True]"
      by (rule Suc.IH) (use Suc.prems in auto)
    with True show ?thesis by (simp add: walk1_odd add.commute)
  next
    case False
    with Suc.prems show ?thesis using dirs_loop_right[of fn sn "Suc j"] by (simp add: walk1_even)
  qed
qed

lemma walk1_ones: "walk1 (2 ^ j - 1) (2 ^ j - 1) = []"
proof (induction j)
  case 0
  then show ?case by (simp add: walk1_even)
next
  case (Suc j)
  have "odd (2 ^ Suc j - 1 :: nat)" by (simp add: dvd_diff_nat)
  with Suc show ?case by (simp add: walk1_odd pow_pred_div del: power_Suc)
qed

lemma walk1_cdirs:
  "0 < m \<Longrightarrow> m \<le> n \<Longrightarrow> (m = n \<Longrightarrow> \<exists>j. n = 2 ^ j) \<Longrightarrow>
     walk1 (m - 1) (n - 1) = cdirs m n"
proof (induction n arbitrary: m rule: less_induct)
  case (less n)
  show ?case
  proof (cases "m = n")
    case True
    with less.prems obtain j where "n = 2 ^ j" by blast
    with True show ?thesis using walk1_ones[of j] by (simp add: cdirs.simps)
  next
    case False
    with less.prems have n: "2 \<le> n" by simp
    then obtain j where j: "kpow n = 2 ^ j" "2 ^ j < n" "n \<le> 2 * 2 ^ j"
      using kpow_pow2[of n] by auto
    show ?thesis
    proof (cases "m \<le> 2 ^ j")
      case True
      have "walk1 (m - 1) (n - 1) =
          walk1 (m - 1) (2 ^ j - 1) @ [False]"
        by (rule walk1_left) (use True j less.prems in auto)
      moreover have "walk1 (m - 1) (2 ^ j - 1) = cdirs m (2 ^ j)"
        by (rule less.IH) (use True j less.prems in auto)
      ultimately show ?thesis using True False n j by (simp add: cdirs.simps[of m n])
    next
      case right: False
      have "walk1 (m - 2 ^ j - 1 + 2 ^ j) (n - 2 ^ j - 1 + 2 ^ j) =
          walk1 (m - 2 ^ j - 1) (n - 2 ^ j - 1) @ [True]"
        by (rule walk1_right) (use right False j less.prems in auto)
      moreover have "walk1 (m - 2 ^ j - 1) (n - 2 ^ j - 1) =
          cdirs (m - 2 ^ j) (n - 2 ^ j)"
        by (rule less.IH) (use right False j less.prems in auto)
      ultimately show ?thesis
        using right False n j less.prems by (simp add: cdirs.simps[of m n])
    qed
  qed
qed

subsection \<open>Recomputing roots\<close>

text \<open>
  \<open>pre d r p\<close> is the byte string hashed when the running hash \<open>r\<close> meets the path element \<open>p\<close>
  with decision \<open>d\<close> (\<open>True\<close>: the sibling is on the left).  \<open>recompute\<close> folds a path,
  \<open>rinputs\<close> lists every string the fold hashes, \<open>tree_inputs\<close> every string hashed for a tree:
  collision-freedom is only ever assumed on those finite lists.
\<close>

definition pre :: "bool \<Rightarrow> bytes \<Rightarrow> bytes \<Rightarrow> bytes" where
  "pre d r p = (if d then node_in p r else node_in r p)"

fun recompute :: "(bytes \<Rightarrow> bytes) \<Rightarrow> bytes \<Rightarrow> (bool \<times> bytes) list \<Rightarrow> bytes" where
  "recompute H r [] = r"
| "recompute H r ((d, p) # xs) = recompute H (H (pre d r p)) xs"

fun rinputs :: "(bytes \<Rightarrow> bytes) \<Rightarrow> bytes \<Rightarrow> (bool \<times> bytes) list \<Rightarrow> bytes list" where
  "rinputs H r [] = []"
| "rinputs H r ((d, p) # xs) = pre d r p # rinputs H (H (pre d r p)) xs"

function tree_inputs :: "(bytes \<Rightarrow> bytes) \<Rightarrow> bytes list \<Rightarrow> bytes list" where
  "tree_inputs H D =
     (if length D = 0 then [[]]
      else if length D = 1 then [leaf_in (hd D)]
      else let k = kpow (length D) in
        node_in (MTH H (take k D)) (MTH H (drop k D))
          # tree_inputs H (take k D) @ tree_inputs H (drop k D))"
  by pat_completeness auto
termination
  by (relation "measure (\<lambda>(H, D). length D)") (auto simp: kpow_decr kpow_decr_list)

declare tree_inputs.simps [simp del]

lemma tree_inputs_split:
  "2 \<le> length D \<Longrightarrow> tree_inputs H D =
     node_in (MTH H (take (kpow (length D)) D)) (MTH H (drop (kpow (length D)) D))
       # tree_inputs H (take (kpow (length D)) D) @ tree_inputs H (drop (kpow (length D)) D)"
  by (subst tree_inputs.simps) (auto simp: Let_def)

lemma recompute_snoc: "recompute H r (xs @ [(d, p)]) = H (pre d (recompute H r xs) p)"
  by (induction H r xs rule: recompute.induct) auto

lemma rinputs_snoc: "rinputs H r (xs @ [(d, p)]) = rinputs H r xs @ [pre d (recompute H r xs) p]"
  by (induction H r xs rule: rinputs.induct) auto

lemma dirs_left: "2 \<le> n \<Longrightarrow> m < kpow n \<Longrightarrow> dirs m n = dirs m (kpow n) @ [False]"
  and dirs_right: "2 \<le> n \<Longrightarrow> kpow n \<le> m \<Longrightarrow> dirs m n = dirs (m - kpow n) (n - kpow n) @ [True]"
  by (simp_all add: dirs.simps[of m n])

lemma cdirs_left: "2 \<le> n \<Longrightarrow> m \<noteq> n \<Longrightarrow> m \<le> kpow n \<Longrightarrow> cdirs m n = cdirs m (kpow n) @ [False]"
  and cdirs_right: "2 \<le> n \<Longrightarrow> m \<noteq> n \<Longrightarrow> kpow n < m \<Longrightarrow>
    cdirs m n = cdirs (m - kpow n) (n - kpow n) @ [True]"
  and cdirs_self: "cdirs n n = []"
  by (simp_all add: cdirs.simps[of m n] cdirs.simps[of n n])

text \<open>An induction principle for leaf lists that follows the split point.\<close>

lemma split_induct [case_names small split]:
  assumes "\<And>D. length D \<le> 1 \<Longrightarrow> P D"
    and "\<And>D k. 2 \<le> length D \<Longrightarrow> k = kpow (length D) \<Longrightarrow> 0 < k \<Longrightarrow> k < length D \<Longrightarrow>
      length D \<le> 2 * k \<Longrightarrow> P (take k D) \<Longrightarrow> P (drop k D) \<Longrightarrow> P D"
  shows "P D"
proof (induction "length D" arbitrary: D rule: less_induct)
  case less
  show ?case
  proof (cases "length D \<le> 1")
    case True
    then show ?thesis by (rule assms(1))
  next
    case False
    then have n: "2 \<le> length D" by simp
    note k = kpow_bounds[OF n]
    have "P (take (kpow (length D)) D)" by (rule less) (use k in simp)
    moreover have "P (drop (kpow (length D)) D)" by (rule less) (use k n in simp)
    ultimately show ?thesis using assms(2)[OF n refl k(1,2,3)] by blast
  qed
qed

subsubsection \<open>Inclusion\<close>

lemma length_PATH: "m < length D \<Longrightarrow> length (PATH H m D) = length (dirs m (length D))"
proof (induction D arbitrary: m rule: split_induct)
  case (small D)
  then show ?case by (simp add: PATH.simps dirs.simps)
next
  case (split D k)
  then show ?case
    by (cases "m < k") (simp_all add: PATH_left PATH_right dirs_left dirs_right)
qed

lemma PATH_correct:
  "m < length D \<Longrightarrow>
     recompute H (H (leaf_in (D ! m))) (zip (dirs m (length D)) (PATH H m D)) = MTH H D"
proof (induction D arbitrary: m rule: split_induct)
  case (small D)
  then have "D = [D ! m]" "dirs m (length D) = []" by (cases D; simp add: dirs.simps)+
  then show ?case by (metis MTH_single recompute.simps(1) zip_Nil)
next
  case (split D k)
  show ?case
  proof (cases "m < k")
    case True
    have "length (PATH H m (take k D)) = length (dirs m k)"
      using length_PATH[of m "take k D" H] True split.hyps by simp
    then show ?thesis
      using split.hyps split.IH(1)[of m] True
      by (simp add: PATH_left dirs_left recompute_snoc pre_def MTH_split[of D])
  next
    case False
    have "length (PATH H (m - k) (drop k D)) = length (dirs (m - k) (length D - k))"
      using length_PATH[of "m - k" "drop k D" H] False split.prems by simp
    then show ?thesis
      using split.hyps split.IH(2)[of "m - k"] False split.prems
      by (simp add: PATH_right dirs_right recompute_snoc pre_def MTH_split[of D])
  qed
qed

text \<open>
  Soundness: over a collision-free set of hashed strings, a path of the right length that
  recomputes the tree hash starts at the true leaf hash and is the audit path itself.
\<close>

definition digest32 :: "(bytes \<Rightarrow> bytes) \<Rightarrow> bool" where
  "digest32 H \<longleftrightarrow> (\<forall>x. length (H x) = 32)"

lemma digest32_MTH: "digest32 H \<Longrightarrow> length (MTH H D) = 32"
  using MTH_is_hash[of H D] by (auto simp: digest32_def)

lemma digest32_recompute: "digest32 H \<Longrightarrow> length r = 32 \<Longrightarrow> length (recompute H r xs) = 32"
  by (induction H r xs rule: recompute.induct) (auto simp: digest32_def)

lemma snoc_of_length:
  assumes "length ps = length (xs @ [x])"
  obtains qs p where "ps = qs @ [p]" "length qs = length xs"
  using assms by (cases ps rule: rev_cases) auto

text \<open>One level of the tree: equal hashes give equal children.\<close>

lemma level_inject:
  assumes "digest32 H" "2 \<le> length D" "length r = 32"
    and "H (pre d r p) = MTH H D"
    and "inj_on H S" "pre d r p \<in> S" "set (tree_inputs H D) \<subseteq> S"
  shows "if d then p = MTH H (take (kpow (length D)) D) \<and> r = MTH H (drop (kpow (length D)) D)
    else r = MTH H (take (kpow (length D)) D) \<and> p = MTH H (drop (kpow (length D)) D)"
proof -
  let ?l = "MTH H (take (kpow (length D)) D)" and ?r = "MTH H (drop (kpow (length D)) D)"
  have "node_in ?l ?r \<in> S" using assms(2,7) tree_inputs_split[of D H] by auto
  moreover have "H (pre d r p) = H (node_in ?l ?r)" using assms(2,4) MTH_split[of D H] by simp
  ultimately have "pre d r p = node_in ?l ?r" using assms(5,6) by (auto dest: inj_onD)
  moreover have "length ?l = 32" "length ?r = 32" using assms(1) by (auto simp: digest32_MTH)
  ultimately show ?thesis using assms(3) by (auto simp: pre_def node_in_inject)
qed

lemma PATH_sound:
  assumes "digest32 H" "length r = 32" "m < length D"
    and "length ps = length (dirs m (length D))"
    and "recompute H r (zip (dirs m (length D)) ps) = MTH H D"
    and "inj_on H S" "set (rinputs H r (zip (dirs m (length D)) ps)) \<subseteq> S"
    and "set (tree_inputs H D) \<subseteq> S"
  shows "r = H (leaf_in (D ! m)) \<and> ps = PATH H m D"
  using assms
proof (induction D arbitrary: m ps rule: split_induct)
  case (small D)
  then obtain x where D: "D = [x]" "m = 0" by (cases D) auto
  have "dirs m (length D) = []" by (simp add: D dirs.simps)
  with small.prems(4,5) D show ?case by (simp add: PATH.simps)
next
  case (split D k)
  have sub: "set (tree_inputs H (take k D)) \<subseteq> S" "set (tree_inputs H (drop k D)) \<subseteq> S"
    using split.prems(8) split.hyps tree_inputs_split[of D H] by auto
  show ?case
  proof (cases "m < k")
    case True
    have ds: "dirs m (length D) = dirs m k @ [False]"
      using True split.hyps by (simp add: dirs_left)
    obtain qs p where ps: "ps = qs @ [p]" "length qs = length (dirs m k)"
      using split.prems(4) ds by (metis snoc_of_length)
    have len: "length (recompute H r (zip (dirs m k) qs)) = 32"
      using split.prems by (simp add: digest32_recompute)
    have "recompute H r (zip (dirs m k) qs) = MTH H (take k D) \<and> p = MTH H (drop k D)"
      using level_inject[OF split.prems(1) split.hyps(1) len, of False p S] split.prems ds ps
        split.hyps(2) by (simp add: recompute_snoc rinputs_snoc)
    with split.IH(1)[of m qs] show ?thesis
      using split.prems split.hyps ds ps True sub
      by (simp add: rinputs_snoc PATH_left)
  next
    case False
    have ds: "dirs m (length D) = dirs (m - k) (length D - k) @ [True]"
      using False split.hyps by (simp add: dirs_right)
    obtain qs p where ps: "ps = qs @ [p]" "length qs = length (dirs (m - k) (length D - k))"
      using split.prems(4) ds by (metis snoc_of_length)
    have len: "length (recompute H r (zip (dirs (m - k) (length D - k)) qs)) = 32"
      using split.prems by (simp add: digest32_recompute)
    have "recompute H r (zip (dirs (m - k) (length D - k)) qs) = MTH H (drop k D)
        \<and> p = MTH H (take k D)"
      using level_inject[OF split.prems(1) split.hyps(1) len, of True p S] split.prems ds ps
        split.hyps(2) by (simp add: recompute_snoc rinputs_snoc)
    with split.IH(2)[of "m - k" qs] show ?thesis
      using split.prems split.hyps ds ps False sub
      by (simp add: rinputs_snoc PATH_right)
  qed
qed

subsubsection \<open>Consistency\<close>

text \<open>
  The nodes a consistency verifier folds: the hash of the last complete subtree of the first tree
  followed by its path.  For a first tree whose size is a power of two that hash is the first
  root itself, which the proof leaves out.
\<close>

definition pow2 :: "nat \<Rightarrow> bool" where "pow2 m \<longleftrightarrow> (\<exists>j. m = 2 ^ j)"

abbreviation cons_range :: "nat \<Rightarrow> nat \<Rightarrow> bool" where
  "cons_range m n \<equiv> 0 < m \<and> m \<le> n \<and> (m = n \<longrightarrow> pow2 n)"

lemma cons_range_left: "cons_range m n \<Longrightarrow> 2 \<le> n \<Longrightarrow> m \<noteq> n \<Longrightarrow> m \<le> kpow n \<Longrightarrow> cons_range m (kpow n)"
  using kpow_pow2[of n] by (auto simp: pow2_def)

lemma cons_range_right: "cons_range m n \<Longrightarrow> m \<noteq> n \<Longrightarrow> kpow n < m \<Longrightarrow> cons_range (m - kpow n) (n - kpow n)"
  by auto

lemma pow2_right:
  assumes "2 \<le> n" "kpow n < m" "m < n"
  shows "\<not> pow2 m"
proof
  assume "pow2 m"
  then obtain i where i: "m = 2 ^ i" by (auto simp: pow2_def)
  obtain j where j: "kpow n = 2 ^ j" "n \<le> 2 * 2 ^ j" using kpow_pow2[OF assms(1)] by blast
  have a: "(2::nat) ^ j < 2 ^ i" using assms(2) unfolding i j(1) .
  have b: "(2::nat) ^ i < 2 ^ Suc j" using assms(3) j(2) unfolding i power_Suc by linarith
  have "j < i" using a by (rule power_less_imp_less_exp[rotated]) simp
  moreover have "i < Suc j" using b by (rule power_less_imp_less_exp[rotated]) simp
  ultimately show False by simp
qed

lemma SUBPROOF_not_Nil: "cons_range m (length D) \<Longrightarrow> SUBPROOF H m D False \<noteq> []"
proof (cases "m = length D")
  case True
  then show ?thesis by (simp add: SUBPROOF_self)
next
  case False
  moreover assume "cons_range m (length D)"
  ultimately have "2 \<le> length D" "m < length D" by auto
  then show ?thesis
    by (cases "m \<le> kpow (length D)") (subst SUBPROOF_left SUBPROOF_right; simp)+
qed

lemma length_SUBPROOF:
  "cons_range m (length D) \<Longrightarrow> length (tl (SUBPROOF H m D False)) = length (cdirs m (length D))"
proof (induction D arbitrary: m rule: split_induct)
  case (small D)
  then have "m = length D" by auto
  then show ?case by (simp add: SUBPROOF_self cdirs_self)
next
  case (split D k)
  show ?case
  proof (cases "m = length D")
    case True
    then show ?thesis by (simp add: SUBPROOF_self cdirs_self)
  next
    case ne: False
    show ?thesis
    proof (cases "m \<le> k")
      case True
      have c: "cons_range m k" using split.prems split.hyps ne True cons_range_left by blast
      then show ?thesis
        using split.IH(1)[of m] split.hyps True ne SUBPROOF_not_Nil[of m "take k D" H]
        by (simp add: SUBPROOF_left cdirs_left)
    next
      case False
      have c: "cons_range (m - k) (length D - k)"
        using split.prems split.hyps ne False by auto
      then show ?thesis
        using split.IH(2)[of "m - k"] split.hyps False ne split.prems
          SUBPROOF_not_Nil[of "m - k" "drop k D" H]
        by (simp add: SUBPROOF_right cdirs_right)
    qed
  qed
qed

lemma take_split_parts:
  assumes "2 \<le> length D" "kpow (length D) < m" "m < length D"
  shows "kpow m = kpow (length D)"
    and "take (kpow (length D)) (take m D) = take (kpow (length D)) D"
    and "drop (kpow (length D)) (take m D) = take (m - kpow (length D)) (drop (kpow (length D)) D)"
proof -
  obtain j where j: "kpow (length D) = 2 ^ j" "length D \<le> 2 * 2 ^ j"
    using kpow_pow2[OF assms(1)] by blast
  with assms show "kpow m = kpow (length D)" using kpow_unique[of j m] by simp
  show "take (kpow (length D)) (take m D) = take (kpow (length D)) D" using assms(2) by simp
  show "drop (kpow (length D)) (take m D) = take (m - kpow (length D)) (drop (kpow (length D)) D)"
    by (simp add: drop_take)
qed

lemma MTH_take_right:
  assumes "2 \<le> length D" "kpow (length D) < m" "m < length D"
  shows "MTH H (take m D) = H (node_in (MTH H (take (kpow (length D)) D))
    (MTH H (take (m - kpow (length D)) (drop (kpow (length D)) D))))"
proof -
  have "length (take m D) = m" "2 \<le> m" using assms kpow_bounds[OF assms(1)] by auto
  with MTH_split[of "take m D" H] take_split_parts[OF assms] show ?thesis by simp
qed

lemma hd_tl_snoc: "xs \<noteq> [] \<Longrightarrow> hd (xs @ [y]) = hd xs \<and> tl (xs @ [y]) = tl xs @ [y]"
  by simp

text \<open>The fold over all decisions gives the second root, over the left-hand ones the first.\<close>

lemma SUBPROOF_correct:
  fixes H D m
  defines "N \<equiv> SUBPROOF H m D False" and "ds \<equiv> cdirs m (length D)"
  assumes "cons_range m (length D)"
  shows "recompute H (hd N) (zip ds (tl N)) = MTH H D
    \<and> recompute H (hd N) (filter fst (zip ds (tl N))) = MTH H (take m D)"
  using assms(3) unfolding N_def ds_def
proof (induction D arbitrary: m rule: split_induct)
  case (small D)
  then have "m = length D" by auto
  then show ?case by (simp add: SUBPROOF_self cdirs_self)
next
  case (split D k)
  show ?case
  proof (cases "m = length D")
    case True
    then show ?thesis by (simp add: SUBPROOF_self cdirs_self)
  next
    case ne: False
    show ?thesis
    proof (cases "m \<le> k")
      case True
      let ?N = "SUBPROOF H m (take k D) False"
      have c: "cons_range m (length (take k D))"
        using cons_range_left[OF split.prems split.hyps(1) ne] True split.hyps by simp
      have N: "SUBPROOF H m D False = ?N @ [MTH H (drop k D)]"
        using SUBPROOF_left[of D m H False] True split.hyps by simp
      have ds: "cdirs m (length D) = cdirs m k @ [False]"
        using cdirs_left[of "length D" m] True ne split.hyps by simp
      have len: "length (tl ?N) = length (cdirs m k)"
        using length_SUBPROOF[OF c, of H] split.hyps by simp
      show ?thesis
        using split.IH(1)[OF c] SUBPROOF_not_Nil[OF c, of H] len True split.hyps
        by (simp add: N ds recompute_snoc pre_def MTH_split[of D] min_absorb1)
    next
      case False
      let ?N = "SUBPROOF H (m - k) (drop k D) False"
      have r: "2 \<le> length D" "kpow (length D) < m" "m < length D"
        using split.prems split.hyps ne False by auto
      have c: "cons_range (m - k) (length (drop k D))"
        using split.prems ne False by auto
      have N: "SUBPROOF H m D False = ?N @ [MTH H (take k D)]"
        using SUBPROOF_right[OF r, of H False] split.hyps by simp
      have ds: "cdirs m (length D) = cdirs (m - k) (length D - k) @ [True]"
        using cdirs_right[of "length D" m] r ne split.hyps by simp
      have len: "length (tl ?N) = length (cdirs (m - k) (length D - k))"
        using length_SUBPROOF[OF c, of H] by simp
      show ?thesis
        using split.IH(2)[OF c] SUBPROOF_not_Nil[OF c, of H] len MTH_take_right[OF r, of H] split.hyps
        by (simp add: N ds recompute_snoc pre_def MTH_split[of D])
    qed
  qed
qed

lemma SUBPROOF_True:
  "cons_range m (length D) \<Longrightarrow>
     (pow2 m \<longrightarrow> hd (SUBPROOF H m D False) = MTH H (take m D)
        \<and> SUBPROOF H m D True = tl (SUBPROOF H m D False))
     \<and> (\<not> pow2 m \<longrightarrow> SUBPROOF H m D True = SUBPROOF H m D False)"
proof (induction D arbitrary: m rule: split_induct)
  case (small D)
  then have "m = length D" by auto
  with small show ?case by (simp add: SUBPROOF_self)
next
  case (split D k)
  show ?case
  proof (cases "m = length D")
    case True
    with split.prems show ?thesis by (simp add: SUBPROOF_self)
  next
    case ne: False
    show ?thesis
    proof (cases "m \<le> k")
      case True
      have c: "cons_range m (length (take k D))"
        using cons_range_left[OF split.prems split.hyps(1) ne] True split.hyps by simp
      have N: "SUBPROOF H m D b = SUBPROOF H m (take k D) b @ [MTH H (drop k D)]" for b
        using SUBPROOF_left[of D m H b] True split.hyps by simp
      show ?thesis
        using split.IH(1)[OF c] SUBPROOF_not_Nil[OF c, of H] True by (auto simp: N min_absorb1)
    next
      case False
      have r: "2 \<le> length D" "kpow (length D) < m" "m < length D"
        using split.prems split.hyps ne False by auto
      show ?thesis
        using pow2_right[OF r] SUBPROOF_right[OF r, of H True] SUBPROOF_right[OF r, of H False]
        by simp
    qed
  qed
qed

lemma SUBPROOF_sound:
  assumes "digest32 H" "length s = 32" "cons_range m (length D)"
    and "length ps = length (cdirs m (length D))"
    and "recompute H s (zip (cdirs m (length D)) ps) = MTH H D"
    and "inj_on H S" "set (rinputs H s (zip (cdirs m (length D)) ps)) \<subseteq> S"
    and "set (tree_inputs H D) \<subseteq> S"
  shows "recompute H s (filter fst (zip (cdirs m (length D)) ps)) = MTH H (take m D)"
  using assms
proof (induction D arbitrary: m ps rule: split_induct)
  case (small D)
  then have "m = length D" by auto
  with small.prems show ?case by (simp add: cdirs_self)
next
  case (split D k)
  have sub: "set (tree_inputs H (take k D)) \<subseteq> S" "set (tree_inputs H (drop k D)) \<subseteq> S"
    using split.prems(8) split.hyps tree_inputs_split[of D H] by auto
  show ?case
  proof (cases "m = length D")
    case True
    with split.prems show ?thesis by (simp add: cdirs_self)
  next
    case ne: False
    show ?thesis
    proof (cases "m \<le> k")
      case True
      have c: "cons_range m (length (take k D))"
        using cons_range_left[OF split.prems(3) split.hyps(1) ne] True split.hyps by simp
      have ds: "cdirs m (length D) = cdirs m k @ [False]"
        using cdirs_left[of "length D" m] True ne split.hyps by simp
      obtain qs p where ps: "ps = qs @ [p]" "length qs = length (cdirs m k)"
        using split.prems(4) ds by (metis snoc_of_length)
      have len: "length (recompute H s (zip (cdirs m k) qs)) = 32"
        using split.prems by (simp add: digest32_recompute)
      have "recompute H s (zip (cdirs m k) qs) = MTH H (take k D) \<and> p = MTH H (drop k D)"
        using level_inject[OF split.prems(1) split.hyps(1) len, of False p S] split.prems ds ps
          split.hyps(2) by (simp add: recompute_snoc rinputs_snoc)
      with split.IH(1)[OF split.prems(1,2) c, of qs] show ?thesis
        using split.prems split.hyps ds ps True sub
        by (simp add: rinputs_snoc min_absorb1)
    next
      case False
      have r: "2 \<le> length D" "kpow (length D) < m" "m < length D"
        using split.prems split.hyps ne False by auto
      have c: "cons_range (m - k) (length (drop k D))"
        using split.prems(3) ne False by auto
      have ds: "cdirs m (length D) = cdirs (m - k) (length D - k) @ [True]"
        using cdirs_right[of "length D" m] r ne split.hyps by simp
      obtain qs p where ps: "ps = qs @ [p]" "length qs = length (cdirs (m - k) (length D - k))"
        using split.prems(4) ds by (metis snoc_of_length)
      have len: "length (recompute H s (zip (cdirs (m - k) (length D - k)) qs)) = 32"
        using split.prems by (simp add: digest32_recompute)
      have "recompute H s (zip (cdirs (m - k) (length D - k)) qs) = MTH H (drop k D)
          \<and> p = MTH H (take k D)"
        using level_inject[OF split.prems(1) split.hyps(1) len, of True p S] split.prems ds ps
          split.hyps(2) by (simp add: recompute_snoc rinputs_snoc)
      with split.IH(2)[OF split.prems(1,2) c, of qs] show ?thesis
        using split.prems split.hyps ds ps MTH_take_right[OF r, of H] sub
        by (simp add: rinputs_snoc recompute_snoc pre_def)
    qed
  qed
qed

text \<open>A path is never longer than the number of levels of its tree.\<close>

lemma length_dirs: "m < n \<Longrightarrow> n \<le> 2 ^ l \<Longrightarrow> length (dirs m n) \<le> l"
proof (induction l arbitrary: m n)
  case 0
  then show ?case by (simp add: dirs.simps)
next
  case (Suc l)
  show ?case
  proof (cases "n \<le> 1")
    case True
    then show ?thesis by (simp add: dirs.simps)
  next
    case False
    then have n: "2 \<le> n" by simp
    obtain j where j: "kpow n = 2 ^ j" "2 ^ j < n" "n \<le> 2 * 2 ^ j" using kpow_pow2[OF n] by blast
    have "(2::nat) ^ j < 2 ^ Suc l" using j(2) Suc.prems(2) by linarith
    then have "j < Suc l" by (rule power_less_imp_less_exp[rotated]) simp
    then have k: "kpow n \<le> 2 ^ l" using j(1) by simp
    then have "n - kpow n \<le> 2 ^ l" using j(1,3) by linarith
    with k show ?thesis
      using Suc.IH[of m "kpow n"] Suc.IH[of "m - kpow n" "n - kpow n"] Suc.prems n
      by (cases "m < kpow n") (simp_all add: dirs_left dirs_right)
  qed
qed

end
