(* ===== verification/TransparencyLog.thy ===== *)
theory TransparencyLog
  imports Merkle_Spec
begin

text \<open>
  \<open>services/registry-ledger/src/transparency-log.ts\<close>: the append-only RFC 6962 log of the Registry
  Ledger, its audit paths and consistency proofs, and the standalone verifiers.  SHA-256 of
  \<open>node:crypto\<close> is the parameter \<open>H\<close>.  Indices inside the tree are \<open>nat\<close> (the public methods
  check their ranges first); the verifiers run on JavaScript numbers with 32-bit operators.
\<close>

subsection \<open>Hashing\<close>

definition LEAF_PREFIX :: bytes where "LEAF_PREFIX = [0]"
definition NODE_PREFIX :: bytes where "NODE_PREFIX = [1]"

definition sha256 :: "(bytes \<Rightarrow> bytes) \<Rightarrow> bytes list \<Rightarrow> bytes" where
  "sha256 H parts = H (concat parts)"

definition hashLeaf :: "(bytes \<Rightarrow> bytes) \<Rightarrow> bytes \<Rightarrow> bytes" where
  "hashLeaf H leaf = sha256 H [LEAF_PREFIX, leaf]"

definition hashChildren :: "(bytes \<Rightarrow> bytes) \<Rightarrow> bytes \<Rightarrow> bytes \<Rightarrow> bytes" where
  "hashChildren H left right = sha256 H [NODE_PREFIX, left, right]"

lemma hashLeaf_spec: "hashLeaf H l = H (leaf_in l)"
  and hashChildren_spec: "hashChildren H l r = H (node_in l r)"
  by (simp_all add: hashLeaf_def hashChildren_def sha256_def LEAF_PREFIX_def NODE_PREFIX_def
      leaf_in_def node_in_def)

partial_function (option) lpot_loop :: "int \<Rightarrow> int \<Rightarrow> int option" where
  "lpot_loop n k = (if js_shl1 k < n then lpot_loop n (js_shl1 k) else Some k)"

definition largestPowerOfTwoSmallerThan :: "int \<Rightarrow> int js" where
  "largestPowerOfTwoSmallerThan n =
     (if n < 2 then Inl (PlainError ''k is only defined for n > 1'')
      else case lpot_loop n 1 of None \<Rightarrow> Inl Diverges | Some k \<Rightarrow> Inr k)"

text \<open>
  The loop variable runs through \<open>1, 2, 4, \<dots>, 2^30\<close>, then wraps to \<open>-2^31\<close> and sticks at \<open>0\<close>:
  it can only stop at a power of two below \<open>2^30\<close>.
\<close>

lemma lpot_loop_returns:
  assumes ret: "lpot_loop n k = Some r" and n: "2 \<le> n"
    and k: "k = 0 \<or> k = - (2 ^ 31) \<or> (\<exists>i\<le>30. k = 2 ^ i \<and> k < n)"
  shows "\<exists>i\<le>29. r = 2 ^ i \<and> r < n \<and> n \<le> 2 * r"
proof -
  have "2 \<le> n \<longrightarrow> k = 0 \<or> k = - (2 ^ 31) \<or> (\<exists>i\<le>30. k = 2 ^ i \<and> k < n) \<longrightarrow>
      (\<exists>i\<le>29. r = 2 ^ i \<and> r < n \<and> n \<le> 2 * r)"
  proof (rule lpot_loop.raw_induct[where P = "\<lambda>n k r. 2 \<le> n \<longrightarrow>
      k = 0 \<or> k = - (2 ^ 31) \<or> (\<exists>i\<le>30. k = 2 ^ i \<and> k < n) \<longrightarrow>
      (\<exists>i\<le>29. r = 2 ^ i \<and> r < n \<and> n \<le> 2 * r)", OF _ ret], intro impI)
    fix f :: "int \<Rightarrow> int \<Rightarrow> int option" and n k r :: int
    assume IH: "\<And>n k r. f n k = Some r \<Longrightarrow> 2 \<le> n \<longrightarrow>
        k = 0 \<or> k = - (2 ^ 31) \<or> (\<exists>i\<le>30. k = 2 ^ i \<and> k < n) \<longrightarrow>
        (\<exists>i\<le>29. r = 2 ^ i \<and> r < n \<and> n \<le> 2 * r)"
      and eq: "(if js_shl1 k < n then f n (js_shl1 k) else Some k) = Some r"
      and n: "2 \<le> n" and k: "k = 0 \<or> k = - (2 ^ 31) \<or> (\<exists>i\<le>30. k = 2 ^ i \<and> k < n)"
    consider (stuck) "js_shl1 k = 0" | (wrap) "js_shl1 k = - (2 ^ 31)"
      | (pow) i where "i \<le> 29" "k = 2 ^ i" "k < n"
    proof -
      from k consider "k = 0 \<or> k = - (2 ^ 31)" | i where "i \<le> 30" "k = 2 ^ i" "k < n" by blast
      then show thesis
      proof cases
        case 1
        then have "js_shl1 k = 0" by (elim disjE) (simp_all only: js_shl1_overflow)
        then show thesis by (rule that(1))
      next
        case (2 i)
        show thesis
        proof (cases "i = 30")
          case True
          then have "js_shl1 k = - (2 ^ 31)" by (simp only: 2(2) js_shl1_overflow)
          then show thesis by (rule that(2))
        next
          case False
          with 2 show thesis by (intro that(3)[of i]) auto
        qed
      qed
    qed
    then show "\<exists>i\<le>29. r = 2 ^ i \<and> r < n \<and> n \<le> 2 * r"
    proof cases
      case stuck
      with eq n IH[of n 0 r] show ?thesis by simp
    next
      case wrap
      with eq n IH[of n "- (2 ^ 31)" r] show ?thesis by simp
    next
      case (pow i)
      have "(2::int) ^ i \<le> 2 ^ 29" using pow(1) by (intro power_increasing) auto
      then have s: "js_shl1 k = 2 ^ Suc i" using pow(2) by (simp add: js_shl1_double)
      show ?thesis
      proof (cases "js_shl1 k < n")
        case True
        have "\<exists>i\<le>30. js_shl1 k = 2 ^ i \<and> js_shl1 k < n"
          using s pow(1) True by (intro exI[of _ "Suc i"]) simp
        with eq True IH[of n "js_shl1 k" r] n show ?thesis by simp
      next
        case False
        with eq pow s show ?thesis by auto
      qed
    qed
  qed
  with n k show ?thesis by blast
qed

lemma lpot_loop_1:
  assumes "lpot_loop n 1 = Some r" "2 \<le> n"
  shows "\<exists>i\<le>29. r = 2 ^ i \<and> r < n \<and> n \<le> 2 * r"
  using assms by (intro lpot_loop_returns[OF assms]) (auto intro!: exI[of _ "0::nat"])

lemma lpot_Inr_bounds:
  "largestPowerOfTwoSmallerThan n = Inr k \<Longrightarrow> 1 \<le> k \<and> k < n"
  using lpot_loop_1[of n k]
  by (auto simp: largestPowerOfTwoSmallerThan_def split: if_splits option.splits)

lemma lpot_nat_bounds:
  assumes "largestPowerOfTwoSmallerThan (int n) = Inr k"
  shows "0 < nat k" "nat k < n"
  using lpot_Inr_bounds[OF assms] by auto

lemma lpot_loop_steps:
  "d \<le> j \<Longrightarrow> j \<le> 29 \<Longrightarrow> 2 ^ j < n \<Longrightarrow> n \<le> 2 * 2 ^ j \<Longrightarrow> lpot_loop n (2 ^ (j - d)) = Some (2 ^ j)"
proof (induction d)
  case 0
  have "(2::int) ^ j \<le> 2 ^ 29" using 0 by (intro power_increasing) auto
  then have "js_shl1 (2 ^ j) = 2 * 2 ^ j" by (simp add: js_shl1_double)
  with 0 show ?case by (subst lpot_loop.simps) simp
next
  case (Suc d)
  then have j: "j - d = Suc (j - Suc d)" by simp
  have "(2::int) ^ (j - Suc d) \<le> 2 ^ 29" using Suc.prems by (intro power_increasing) auto
  then have s: "js_shl1 (2 ^ (j - Suc d)) = 2 ^ (j - d)" by (simp add: js_shl1_double j)
  have "(2::int) ^ (j - d) \<le> 2 ^ j" by (intro power_increasing) auto
  then have "(2::int) ^ (j - d) < n" using Suc.prems by linarith
  with s Suc show ?case by (subst lpot_loop.simps) simp
qed

text \<open>For every size a JavaScript engine can reach in practice the loop computes the split point.\<close>

lemma lpot_eq_kpow:
  assumes "2 \<le> n" "n \<le> 2 ^ 30"
  shows "largestPowerOfTwoSmallerThan (int n) = Inr (int (kpow n))"
proof -
  obtain j where j: "kpow n = 2 ^ j" "2 ^ j < n" "n \<le> 2 * 2 ^ j" using kpow_pow2[OF assms(1)] by blast
  have "(2::nat) ^ j < 2 ^ 30" using j(2) assms(2) by linarith
  then have "j < 30" by (rule power_less_imp_less_exp[rotated]) simp
  moreover have "int (2 ^ j) < int n" "int n \<le> int (2 * 2 ^ j)"
    using j(2,3) by (simp_all only: of_nat_less_iff of_nat_le_iff)
  then have "(2::int) ^ j < int n" "int n \<le> 2 * 2 ^ j" by simp_all
  ultimately have "lpot_loop (int n) 1 = Some (2 ^ j)" using lpot_loop_steps[of j j "int n"] by simp
  with assms(1) j(1) show ?thesis by (simp add: largestPowerOfTwoSmallerThan_def)
qed

lemma lpot_diverges:
  assumes "2 ^ 30 < n"
  shows "largestPowerOfTwoSmallerThan n = Inl Diverges"
proof -
  have "lpot_loop n 1 = None"
  proof (rule ccontr)
    assume "lpot_loop n 1 \<noteq> None"
    then obtain r i where "i \<le> 29" "r = 2 ^ i" "n \<le> 2 * r"
      using lpot_loop_1[of n] assms by auto
    moreover from \<open>i \<le> 29\<close> have "(2::int) ^ i \<le> 2 ^ 29" by (intro power_increasing) auto
    ultimately show False using assms by simp
  qed
  with assms show ?thesis by (simp add: largestPowerOfTwoSmallerThan_def)
qed

subsection \<open>Hexadecimal and proof shapes\<close>

definition toHex :: "bytes \<Rightarrow> string" where
  "toHex b = ''0x'' @ hex_of b"

definition fromHex :: "string \<Rightarrow> bytes js" where
  "fromHex hex = (let clean = (if starts_with ''0x'' hex then drop 2 hex else hex) in
     if odd (length clean) then Inl (PlainError ''hex length must be even'')
     else Inr (buffer_from_hex clean))"

definition lc :: "string \<Rightarrow> string" where
  "lc hex = to_lower hex"

lemma fromHex_toHex [simp]: "fromHex (toHex b) = Inr b"
  by (simp add: fromHex_def toHex_def starts_with_def Let_def)

lemma lc_toHex [simp]: "lc (toHex b) = toHex b"
  by (simp add: lc_def toHex_def lower_char_def)

lemma toHex_inject [simp]: "toHex a = toHex b \<longleftrightarrow> a = b"
  by (metis fromHex_toHex sum.inject(2))

record InclusionProof =
  leaf_index :: int
  tree_size :: int
  audit_path :: "string list"

record ConsistencyProof =
  first_size :: int
  second_size :: int
  consistency_path :: "string list"

subsection \<open>The tree over an index range\<close>

function mth :: "(bytes \<Rightarrow> bytes) \<Rightarrow> bytes list \<Rightarrow> nat \<Rightarrow> nat \<Rightarrow> bytes js" where
  "mth H leaves start end' =
     (let n = end' - start in
      if n = 0 then Inr (sha256 H [])
      else if n = 1 then Inr (hashLeaf H (leaves ! start))
      else case largestPowerOfTwoSmallerThan (int n) of Inl e \<Rightarrow> Inl e
        | Inr k \<Rightarrow> (case mth H leaves start (start + nat k) of Inl e \<Rightarrow> Inl e
        | Inr l \<Rightarrow> (case mth H leaves (start + nat k) end' of Inl e \<Rightarrow> Inl e
        | Inr r \<Rightarrow> Inr (hashChildren H l r))))"
  by pat_completeness auto
termination
proof (relation "measure (\<lambda>(H, ls, s, e). e - s)", goal_cases)
  case (2 H leaves start end' n k)
  then show ?case using lpot_nat_bounds[of n k] by auto
next
  case (3 H leaves start end' n k l)
  then show ?case using lpot_nat_bounds[of n k] by auto
qed simp

text \<open>\<open>path m\<close>: the leaf index \<open>m\<close> is absolute.\<close>

function path :: "(bytes \<Rightarrow> bytes) \<Rightarrow> bytes list \<Rightarrow> nat \<Rightarrow> nat \<Rightarrow> nat \<Rightarrow> bytes list js" where
  "path H leaves m start end' =
     (let n = end' - start in
      if n = 1 then Inr []
      else case largestPowerOfTwoSmallerThan (int n) of Inl e \<Rightarrow> Inl e
        | Inr k \<Rightarrow>
          if int m - int start < k then
            (case path H leaves m start (start + nat k) of Inl e \<Rightarrow> Inl e
             | Inr p \<Rightarrow> (case mth H leaves (start + nat k) end' of Inl e \<Rightarrow> Inl e
             | Inr h \<Rightarrow> Inr (p @ [h])))
          else
            (case path H leaves m (start + nat k) end' of Inl e \<Rightarrow> Inl e
             | Inr p \<Rightarrow> (case mth H leaves start (start + nat k) of Inl e \<Rightarrow> Inl e
             | Inr h \<Rightarrow> Inr (p @ [h]))))"
  by pat_completeness auto
termination
proof (relation "measure (\<lambda>(H, ls, m, s, e). e - s)", goal_cases)
  case (2 H leaves m start end' n k)
  then show ?case using lpot_nat_bounds[of n k] by auto
next
  case (3 H leaves m start end' n k)
  then show ?case using lpot_nat_bounds[of n k] by auto
qed simp

function subproof :: "(bytes \<Rightarrow> bytes) \<Rightarrow> bytes list \<Rightarrow> nat \<Rightarrow> nat \<Rightarrow> nat \<Rightarrow> bool \<Rightarrow> bytes list js" where
  "subproof H leaves m start end' b =
     (let n = end' - start in
      if m = n then
        (if b then Inr [] else case mth H leaves start end' of Inl e \<Rightarrow> Inl e | Inr h \<Rightarrow> Inr [h])
      else case largestPowerOfTwoSmallerThan (int n) of Inl e \<Rightarrow> Inl e
        | Inr k \<Rightarrow>
          if int m \<le> k then
            (case subproof H leaves m start (start + nat k) b of Inl e \<Rightarrow> Inl e
             | Inr p \<Rightarrow> (case mth H leaves (start + nat k) end' of Inl e \<Rightarrow> Inl e
             | Inr h \<Rightarrow> Inr (p @ [h])))
          else
            (case subproof H leaves (m - nat k) (start + nat k) end' False of Inl e \<Rightarrow> Inl e
             | Inr p \<Rightarrow> (case mth H leaves start (start + nat k) of Inl e \<Rightarrow> Inl e
             | Inr h \<Rightarrow> Inr (p @ [h]))))"
  by pat_completeness auto
termination
proof (relation "measure (\<lambda>(H, ls, m, s, e, b). e - s)", goal_cases)
  case (2 H leaves m start end' b n k)
  then show ?case using lpot_nat_bounds[of n k] by auto
next
  case (3 H leaves m start end' b n k)
  then show ?case using lpot_nat_bounds[of n k] by auto
qed simp

declare mth.simps [simp del] path.simps [simp del] subproof.simps [simp del]

text \<open>The leaves of an index range.\<close>

definition range_leaves :: "bytes list \<Rightarrow> nat \<Rightarrow> nat \<Rightarrow> bytes list" where
  "range_leaves leaves s e = take (e - s) (drop s leaves)"

lemma length_range_leaves [simp]: "e \<le> length ls \<Longrightarrow> length (range_leaves ls s e) = e - s"
  by (simp add: range_leaves_def)

lemma take_range_leaves [simp]: "s + k \<le> e \<Longrightarrow> take k (range_leaves ls s e) = range_leaves ls s (s + k)"
  by (simp add: range_leaves_def min_def)

lemma drop_range_leaves [simp]: "drop k (range_leaves ls s e) = range_leaves ls (s + k) e"
  by (simp add: range_leaves_def drop_take add.commute)

lemma range_leaves_single: "s < length ls \<Longrightarrow> range_leaves ls s (Suc s) = [ls ! s]"
  by (simp add: range_leaves_def take_Suc hd_drop_conv_nth)

lemma range_leaves_0 [simp]: "range_leaves ls 0 e = take e ls"
  by (simp add: range_leaves_def)

lemma range_split_facts:
  assumes "\<not> e - s \<le> 1" "e - s \<le> 2 ^ 30"
  obtains k where "largestPowerOfTwoSmallerThan (int (e - s)) = Inr (int k)" "kpow (e - s) = k"
    "0 < k" "s + k < e" "k \<le> 2 ^ 30"
proof -
  have n: "2 \<le> e - s" using assms(1) by simp
  show thesis
    using that[OF lpot_eq_kpow[OF n assms(2)] refl] kpow_bounds[OF n] assms(2) by simp
qed

lemma mth_refines:
  "s \<le> e \<Longrightarrow> e \<le> length ls \<Longrightarrow> e - s \<le> 2 ^ 30 \<Longrightarrow> mth H ls s e = Inr (MTH H (range_leaves ls s e))"
proof (induction "e - s" arbitrary: s e rule: less_induct)
  case less
  consider (empty) "e = s" | (single) "e = Suc s" | (many) "\<not> e - s \<le> 1"
    using less.prems(1) by linarith
  then show ?case
  proof cases
    case empty
    then show ?thesis by (simp add: mth.simps sha256_def range_leaves_def)
  next
    case single
    with less.prems show ?thesis by (simp add: mth.simps hashLeaf_spec range_leaves_single)
  next
    case many
    then obtain k where k: "largestPowerOfTwoSmallerThan (int (e - s)) = Inr (int k)"
      "kpow (e - s) = k" "0 < k" "s + k < e" "k \<le> 2 ^ 30"
      using range_split_facts less.prems(3) by blast
    have l: "mth H ls s (s + k) = Inr (MTH H (range_leaves ls s (s + k)))"
      by (rule less.hyps) (use less.prems k in auto)
    have r: "mth H ls (s + k) e = Inr (MTH H (range_leaves ls (s + k) e))"
      by (rule less.hyps) (use less.prems k in auto)
    have "MTH H (range_leaves ls s e) =
        H (node_in (MTH H (range_leaves ls s (s + k))) (MTH H (range_leaves ls (s + k) e)))"
      using MTH_split[of "range_leaves ls s e" H] many less.prems k by simp
    with many k(1) l r show ?thesis
      by (subst mth.simps) (auto simp: Let_def hashChildren_spec)
  qed
qed

lemma path_refines:
  "s \<le> m \<Longrightarrow> m < e \<Longrightarrow> e \<le> length ls \<Longrightarrow> e - s \<le> 2 ^ 30 \<Longrightarrow>
     path H ls m s e = Inr (PATH H (m - s) (range_leaves ls s e))"
proof (induction "e - s" arbitrary: s e rule: less_induct)
  case less
  show ?case
  proof (cases "e - s \<le> 1")
    case True
    with less.prems have "e = Suc s" by simp
    with less.prems show ?thesis by (simp add: path.simps PATH.simps range_leaves_single)
  next
    case many: False
    then obtain k where k: "largestPowerOfTwoSmallerThan (int (e - s)) = Inr (int k)"
      "kpow (e - s) = k" "0 < k" "s + k < e" "k \<le> 2 ^ 30"
      using range_split_facts less.prems(4) by blast
    have D: "length (range_leaves ls s e) = e - s" "2 \<le> length (range_leaves ls s e)"
      using less.prems many by simp_all
    show ?thesis
    proof (cases "m - s < k")
      case True
      have "path H ls m s (s + k) = Inr (PATH H (m - s) (range_leaves ls s (s + k)))"
        by (rule less.hyps) (use less.prems k True in auto)
      moreover have "mth H ls (s + k) e = Inr (MTH H (range_leaves ls (s + k) e))"
        by (rule mth_refines) (use less.prems k in auto)
      moreover have "PATH H (m - s) (range_leaves ls s e) =
          PATH H (m - s) (range_leaves ls s (s + k)) @ [MTH H (range_leaves ls (s + k) e)]"
        using PATH_left[OF D(2), of "m - s" H] True D(1) k by simp
      ultimately show ?thesis
        using many k(1) True less.prems by (subst path.simps) (auto simp: Let_def)
    next
      case False
      have "path H ls m (s + k) e = Inr (PATH H (m - (s + k)) (range_leaves ls (s + k) e))"
        by (rule less.hyps) (use less.prems k False in auto)
      moreover have "mth H ls s (s + k) = Inr (MTH H (range_leaves ls s (s + k)))"
        by (rule mth_refines) (use less.prems k in auto)
      moreover have "PATH H (m - s) (range_leaves ls s e) =
          PATH H (m - (s + k)) (range_leaves ls (s + k) e) @ [MTH H (range_leaves ls s (s + k))]"
        using PATH_right[OF D(2), of "m - s" H] False D(1) k by simp
      ultimately show ?thesis
        using many k(1) False less.prems by (subst path.simps) (auto simp: Let_def)
    qed
  qed
qed

lemma subproof_refines:
  "s \<le> e \<Longrightarrow> e \<le> length ls \<Longrightarrow> e - s \<le> 2 ^ 30 \<Longrightarrow> 0 < m \<Longrightarrow> m \<le> e - s \<Longrightarrow>
     subproof H ls m s e b = Inr (SUBPROOF H m (range_leaves ls s e) b)"
proof (induction "e - s" arbitrary: s e m b rule: less_induct)
  case less
  show ?case
  proof (cases "m = e - s")
    case True
    with less.prems show ?thesis
      using SUBPROOF_self[of H "range_leaves ls s e" b] mth_refines[of s e ls H]
      by (subst subproof.simps) (simp add: Let_def)
  next
    case ne: False
    with less.prems have many: "\<not> e - s \<le> 1" by simp
    then obtain k where k: "largestPowerOfTwoSmallerThan (int (e - s)) = Inr (int k)"
      "kpow (e - s) = k" "0 < k" "s + k < e" "k \<le> 2 ^ 30"
      using range_split_facts less.prems(3) by blast
    have D: "length (range_leaves ls s e) = e - s" "2 \<le> length (range_leaves ls s e)"
      using less.prems many by simp_all
    have l: "mth H ls s (s + k) = Inr (MTH H (range_leaves ls s (s + k)))"
      and r: "mth H ls (s + k) e = Inr (MTH H (range_leaves ls (s + k) e))"
      by (rule mth_refines; use less.prems k in auto)+
    show ?thesis
    proof (cases "m \<le> k")
      case True
      have "subproof H ls m s (s + k) b = Inr (SUBPROOF H m (range_leaves ls s (s + k)) b)"
        by (rule less.hyps) (use less.prems k True in auto)
      moreover have "SUBPROOF H m (range_leaves ls s e) b =
          SUBPROOF H m (range_leaves ls s (s + k)) b @ [MTH H (range_leaves ls (s + k) e)]"
        using SUBPROOF_left[OF D(2), of m H b] True D(1) k by simp
      ultimately show ?thesis
        using ne k(1) True r by (subst subproof.simps) (simp add: Let_def)
    next
      case False
      have "subproof H ls (m - k) (s + k) e False =
          Inr (SUBPROOF H (m - k) (range_leaves ls (s + k) e) False)"
        by (rule less.hyps) (use less.prems k False in auto)
      moreover have "SUBPROOF H m (range_leaves ls s e) b =
          SUBPROOF H (m - k) (range_leaves ls (s + k) e) False @ [MTH H (range_leaves ls s (s + k))]"
        using SUBPROOF_right[OF D(2), of m H b] False D(1) k ne less.prems by simp
      ultimately show ?thesis
        using ne k(1) False l by (subst subproof.simps) (simp add: Let_def)
    qed
  qed
qed

subsection \<open>The log object\<close>

record TransparencyLog =
  tl_logId :: string
  tl_leaves :: "bytes list"

definition newTransparencyLog :: "string \<Rightarrow> bytes list \<Rightarrow> TransparencyLog" where
  "newTransparencyLog logId initialLeaves = \<lparr>tl_logId = logId, tl_leaves = initialLeaves\<rparr>"

text \<open>\<open>append\<close> returns the new log and the 0-based index of the leaf.\<close>

definition tl_append :: "TransparencyLog \<Rightarrow> bytes \<Rightarrow> TransparencyLog \<times> nat" where
  "tl_append t leaf =
     (let t' = t\<lparr>tl_leaves := tl_leaves t @ [leaf]\<rparr> in (t', length (tl_leaves t') - 1))"

definition treeSize :: "TransparencyLog \<Rightarrow> nat" where
  "treeSize t = length (tl_leaves t)"

definition leafHashHex :: "(bytes \<Rightarrow> bytes) \<Rightarrow> TransparencyLog \<Rightarrow> int \<Rightarrow> string js" where
  "leafHashHex H t index =
     (if index < 0 \<or> index \<ge> int (length (tl_leaves t)) then Inl RangeError
      else Inr (toHex (hashLeaf H (tl_leaves t ! nat index))))"

definition currentRootHex :: "(bytes \<Rightarrow> bytes) \<Rightarrow> TransparencyLog \<Rightarrow> string js" where
  "currentRootHex H t =
     bindE (mth H (tl_leaves t) 0 (length (tl_leaves t))) (\<lambda>r. Inr (toHex r))"

definition rootAtHex :: "(bytes \<Rightarrow> bytes) \<Rightarrow> TransparencyLog \<Rightarrow> int \<Rightarrow> string js" where
  "rootAtHex H t size' =
     (if size' < 0 \<or> size' > int (length (tl_leaves t)) then Inl RangeError
      else bindE (mth H (tl_leaves t) 0 (nat size')) (\<lambda>r. Inr (toHex r)))"

definition inclusionProof ::
  "(bytes \<Rightarrow> bytes) \<Rightarrow> TransparencyLog \<Rightarrow> int \<Rightarrow> int \<Rightarrow> InclusionProof js" where
  "inclusionProof H t leafIndex size' =
     (if size' < 0 \<or> size' > int (length (tl_leaves t)) then Inl RangeError
      else if leafIndex < 0 \<or> leafIndex \<ge> size' then Inl RangeError
      else bindE (path H (tl_leaves t) (nat leafIndex) 0 (nat size')) (\<lambda>p.
        Inr \<lparr>leaf_index = leafIndex, tree_size = size', audit_path = map toHex p\<rparr>))"

definition consistencyProof ::
  "(bytes \<Rightarrow> bytes) \<Rightarrow> TransparencyLog \<Rightarrow> int \<Rightarrow> int \<Rightarrow> ConsistencyProof js" where
  "consistencyProof H t firstSize secondSize =
     (if firstSize < 0 \<or> secondSize > int (length (tl_leaves t)) \<or> firstSize > secondSize
      then Inl RangeError
      else if firstSize = 0 \<or> firstSize = secondSize
      then Inr \<lparr>first_size = firstSize, second_size = secondSize, consistency_path = []\<rparr>
      else bindE (subproof H (tl_leaves t) (nat firstSize) 0 (nat secondSize) True) (\<lambda>p.
        Inr \<lparr>first_size = firstSize, second_size = secondSize, consistency_path = map toHex p\<rparr>))"

text \<open>Results of the methods for every in-range argument, in terms of RFC 6962.\<close>

lemma rootAtHex_eq:
  assumes "0 \<le> n" "nat n \<le> length (tl_leaves t)" "n \<le> 2 ^ 30"
  shows "rootAtHex H t n = Inr (toHex (MTH H (take (nat n) (tl_leaves t))))"
  using assms mth_refines[of 0 "nat n" "tl_leaves t" H] by (simp add: rootAtHex_def)

lemma currentRootHex_eq:
  assumes "length (tl_leaves t) \<le> 2 ^ 30"
  shows "currentRootHex H t = Inr (toHex (MTH H (tl_leaves t)))"
  using assms mth_refines[of 0 "length (tl_leaves t)" "tl_leaves t" H]
  by (simp add: currentRootHex_def)

lemma inclusionProof_eq:
  assumes "0 \<le> m" "m < n" "nat n \<le> length (tl_leaves t)" "n \<le> 2 ^ 30"
  shows "inclusionProof H t m n = Inr \<lparr>leaf_index = m, tree_size = n,
    audit_path = map toHex (PATH H (nat m) (take (nat n) (tl_leaves t)))\<rparr>"
  using assms path_refines[of 0 "nat m" "nat n" "tl_leaves t" H] by (simp add: inclusionProof_def)

lemma consistencyProof_eq:
  assumes "0 < m" "m < n" "nat n \<le> length (tl_leaves t)" "n \<le> 2 ^ 30"
  shows "consistencyProof H t m n = Inr \<lparr>first_size = m, second_size = n,
    consistency_path = map toHex (SUBPROOF H (nat m) (take (nat n) (tl_leaves t)) True)\<rparr>"
  using assms subproof_refines[of 0 "nat n" "tl_leaves t" "nat m" H True]
  by (simp add: consistencyProof_def)

lemma leafHashHex_eq:
  "0 \<le> m \<Longrightarrow> nat m < length (tl_leaves t) \<Longrightarrow>
     leafHashHex H t m = Inr (toHex (H (leaf_in (tl_leaves t ! nat m))))"
  by (simp add: leafHashHex_def hashLeaf_spec)

lemmas log_method_eqs = rootAtHex_eq currentRootHex_eq inclusionProof_eq consistencyProof_eq
  leafHashHex_eq

subsection \<open>The standalone verifiers\<close>

text \<open>\<open>while (fn !== 0 && (fn & 1) === 0) { fn >>= 1; sn >>= 1; }\<close>\<close>

lemma js_sar1_range: "- (2 ^ 30) \<le> js_sar1 a" "js_sar1 a < 2 ^ 30"
proof -
  have "- (2 ^ 31) \<le> sint (word_of_int a :: 32 word)" "sint (word_of_int a :: 32 word) < 2 ^ 31"
    using sint_ge[of "word_of_int a :: 32 word"] sint_lt[of "word_of_int a :: 32 word"] by simp_all
  then show "- (2 ^ 30) \<le> js_sar1 a" "js_sar1 a < 2 ^ 30"
    by (simp_all add: js_sar1_def sint_signed_drop_bit_eq drop_bit_eq_div)
qed

function shift_while :: "int \<Rightarrow> int \<Rightarrow> int \<times> int" where
  "shift_while fn sn =
     (if fn \<noteq> 0 \<and> js_and fn 1 = 0 then shift_while (js_sar1 fn) (js_sar1 sn) else (fn, sn))"
  by pat_completeness auto
termination
proof (relation "measure (\<lambda>(fn, sn). if - (2 ^ 31) \<le> fn \<and> fn < 2 ^ 31 then nat \<bar>fn\<bar> else 2 ^ 32)",
    goal_cases)
  case (2 fn sn)
  have "nat \<bar>js_sar1 fn\<bar> \<le> 2 ^ 30" using js_sar1_range[of fn] by simp
  with 2 show ?case using js_sar1_range[of fn] by (auto simp: js_simps)
qed simp

text \<open>\<open>while ((fn & 1) === 1) { fn >>= 1; sn >>= 1; }\<close> may run for ever on negative numbers, so it
  is a partial function; sizes of at least one start it at a non-negative number.\<close>

partial_function (option) shift_ones :: "int \<Rightarrow> int \<Rightarrow> (int \<times> int) option" where
  "shift_ones fn sn =
     (if js_and fn 1 = 1 then shift_ones (js_sar1 fn) (js_sar1 sn) else Some (fn, sn))"

fun vi_loop ::
  "(bytes \<Rightarrow> bytes) \<Rightarrow> int \<Rightarrow> int \<Rightarrow> bytes \<Rightarrow> string list \<Rightarrow> string \<Rightarrow> bool js" where
  "vi_loop H fn sn r [] rootHex = Inr (sn = 0 \<and> toHex r = lc rootHex)"
| "vi_loop H fn sn r (pHex # audit) rootHex =
     (if sn = 0 then Inr False
      else bindE (fromHex pHex) (\<lambda>p.
        if js_and fn 1 = 1 \<or> fn = sn then
          (let r' = hashChildren H p r;
               (fn', sn') = (if js_and fn 1 = 0 then shift_while fn sn else (fn, sn))
           in vi_loop H (js_sar1 fn') (js_sar1 sn') r' audit rootHex)
        else vi_loop H (js_sar1 fn) (js_sar1 sn) (hashChildren H r p) audit rootHex))"

definition verifyInclusion ::
  "(bytes \<Rightarrow> bytes) \<Rightarrow> string \<Rightarrow> InclusionProof \<Rightarrow> string \<Rightarrow> bool js" where
  "verifyInclusion H leafHex pf rootHex =
     (if leaf_index pf \<ge> tree_size pf then Inr False
      else bindE (fromHex leafHex) (\<lambda>r.
        vi_loop H (leaf_index pf) (tree_size pf - 1) r (audit_path pf) rootHex))"

text \<open>The loop of the consistency verifier: its state is \<open>(fn, sn, fr, sr)\<close>.\<close>

fun vc_loop ::
  "(bytes \<Rightarrow> bytes) \<Rightarrow> int \<Rightarrow> int \<Rightarrow> bytes \<Rightarrow> bytes \<Rightarrow> bytes list \<Rightarrow> (int \<times> int \<times> bytes \<times> bytes) option" where
  "vc_loop H fn sn fr sr [] = Some (fn, sn, fr, sr)"
| "vc_loop H fn sn fr sr (c # nodes) =
     (if sn = 0 then None
      else if js_and fn 1 = 1 \<or> fn = sn then
        (let fr' = hashChildren H c fr; sr' = hashChildren H c sr;
             (fn', sn') = (if js_and fn 1 = 0 then shift_while fn sn else (fn, sn))
         in vc_loop H (js_sar1 fn') (js_sar1 sn') fr' sr' nodes)
      else vc_loop H (js_sar1 fn) (js_sar1 sn) fr (hashChildren H sr c) nodes)"

definition verifyConsistency ::
  "(bytes \<Rightarrow> bytes) \<Rightarrow> int \<Rightarrow> string \<Rightarrow> int \<Rightarrow> string \<Rightarrow> string list \<Rightarrow> bool js" where
  "verifyConsistency H firstSize firstRootHex secondSize secondRootHex pth =
     (if firstSize = 0 then Inr True
      else if firstSize = secondSize then Inr (pth = [] \<and> lc firstRootHex = lc secondRootHex)
      else if firstSize > secondSize then Inr False
      else bindE (mapE fromHex pth) (\<lambda>ns.
        bindE (if js_and firstSize (firstSize - 1) = 0
               then bindE (fromHex firstRootHex) (\<lambda>r. Inr (r # ns)) else Inr ns) (\<lambda>nodes.
        case nodes of [] \<Rightarrow> Inr False
        | n0 # rest \<Rightarrow>
          (case shift_ones (firstSize - 1) (secondSize - 1) of None \<Rightarrow> Inl Diverges
           | Some (fn, sn) \<Rightarrow>
             (case vc_loop H fn sn n0 n0 rest of None \<Rightarrow> Inr False
              | Some (fn', sn', fr, sr) \<Rightarrow>
                Inr (fn' = 0 \<and> toHex fr = lc firstRootHex \<and> toHex sr = lc secondRootHex))))))"

subsection \<open>The verifiers follow the RFC 9162 walk\<close>

lemma js_sar1_of_nat: "n < 2 ^ 31 \<Longrightarrow> js_sar1 (int n) = int (n div 2)"
  by (simp add: js_sar1_div zdiv_int)

lemma js_and_of_nat: "js_and (int n) 1 = int (n mod 2)"
  by (simp add: js_and_one zmod_int)

lemma js_odd: "js_and (int n) 1 = 1 \<longleftrightarrow> odd n" "js_and (int n) 1 = 0 \<longleftrightarrow> even n"
  by (simp_all add: js_and_of_nat odd_iff_mod_2_eq_one even_iff_mod_2_eq_zero)

lemmas js_nat_simps = js_sar1_of_nat js_odd

lemma strip_bounds: "fst (strip fn sn) \<le> fn" "fn \<le> sn \<Longrightarrow> fst (strip fn sn) \<le> snd (strip fn sn)"
proof (induction fn sn rule: strip.induct)
  case (1 fn sn)
  { case 1 then show ?case using "1.IH"(1) by (subst strip.simps) (auto intro: order_trans) }
  { case 2 then show ?case using "1.IH"(2) by (subst (1 2) strip.simps) (auto simp: div_le_mono) }
qed

declare shift_while.simps [simp del]

lemma shift_while_strip:
  "fn < 2 ^ 31 \<Longrightarrow> sn < 2 ^ 31 \<Longrightarrow>
     shift_while (int fn) (int sn) = (int (fst (strip fn sn)), int (snd (strip fn sn)))"
proof (induction fn sn rule: strip.induct)
  case (1 fn sn)
  show ?case
  proof (cases "fn \<noteq> 0 \<and> even fn")
    case True
    with 1 have "shift_while (int (fn div 2)) (int (sn div 2)) =
        (int (fst (strip (fn div 2) (sn div 2))), int (snd (strip (fn div 2) (sn div 2))))"
      by simp
    with True 1 show ?thesis
      by (subst shift_while.simps) (simp add: js_nat_simps strip_even)
  next
    case False
    then show ?thesis
      by (subst shift_while.simps, subst (1 2) strip.simps) (auto simp: js_nat_simps)
  qed
qed

lemma vi_loop_eq:
  "mapE fromHex ps = Inr bs \<Longrightarrow> fn < 2 ^ 31 \<Longrightarrow> sn < 2 ^ 31 \<Longrightarrow>
     vi_loop H (int fn) (int sn) r ps root =
       Inr (length bs = length (dirs_loop fn sn) \<and>
            toHex (recompute H r (zip (dirs_loop fn sn) bs)) = lc root)"
proof (induction ps arbitrary: bs fn sn r)
  case Nil
  then show ?case by (subst (1 2) dirs_loop.simps) auto
next
  case (Cons p ps)
  then obtain c cs where c: "fromHex p = Inr c" "mapE fromHex ps = Inr cs" "bs = c # cs"
    by (auto simp: bindE_Inr_iff)
  consider (zero) "sn = 0" | (left) "sn \<noteq> 0" "odd fn \<or> fn = sn" | (right) "sn \<noteq> 0" "even fn" "fn \<noteq> sn"
    by blast
  then show ?case
  proof cases
    case zero
    with c show ?thesis by simp
  next
    case left
    let ?f = "fst (strip fn sn)" and ?s = "snd (strip fn sn)"
    have b: "?f < 2 ^ 31" "?s < 2 ^ 31"
      using strip_bounds(1)[of fn sn] snd_strip_le[of fn sn] Cons.prems by linarith+
    have "(if js_and (int fn) 1 = 0 then shift_while (int fn) (int sn) else (int fn, int sn)) =
        (int ?f, int ?s)"
      using Cons.prems by (simp add: js_nat_simps shift_while_strip)
    moreover have "dirs_loop fn sn = True # dirs_loop (?f div 2) (?s div 2)"
      using left by (simp add: dirs_loop.simps[of fn sn])
    ultimately show ?thesis
      using left c b Cons.IH[OF c(2), of "?f div 2" "?s div 2" "hashChildren H c r"]
      by (simp add: js_nat_simps hashChildren_spec pre_def)
  next
    case right
    then show ?thesis
      using c Cons.prems Cons.IH[OF c(2), of "fn div 2" "sn div 2" "hashChildren H r c"]
      by (simp add: js_nat_simps hashChildren_spec pre_def dirs_loop_even)
  qed
qed

lemma vi_loop_parses:
  "vi_loop H fn sn r ps root = Inr True \<Longrightarrow> \<exists>bs. mapE fromHex ps = Inr bs"
proof (induction H fn sn r ps root rule: vi_loop.induct)
  case (1 H fn sn r root)
  then show ?case by simp
next
  case (2 H fn sn r p ps root)
  from "2.prems" obtain c where c: "sn \<noteq> 0" "fromHex p = Inr c"
    by (auto simp: bindE_Inr_iff split: if_splits)
  have "\<exists>bs. mapE fromHex ps = Inr bs"
  proof (cases "js_and fn 1 = 1 \<or> fn = sn")
    case True
    obtain fn' sn' where s: "(if js_and fn 1 = 0 then shift_while fn sn else (fn, sn)) = (fn', sn')"
      by (cases "if js_and fn 1 = 0 then shift_while fn sn else (fn, sn)") blast
    with True c "2.prems" have "vi_loop H (js_sar1 fn') (js_sar1 sn') (hashChildren H c r) ps root = Inr True"
      by simp
    with "2.IH"(1)[OF c(1) True refl s[symmetric] refl] show ?thesis by blast
  next
    case False
    with c "2.prems" have "vi_loop H (js_sar1 fn) (js_sar1 sn) (hashChildren H r c) ps root = Inr True"
      by simp
    with "2.IH"(2)[OF c(1) False] show ?thesis by blast
  qed
  with c show ?case by auto
qed

text \<open>What acceptance means, for sizes below \<open>2^31\<close>.\<close>

lemma verifyInclusion_iff:
  assumes "0 \<le> leaf_index pf" "leaf_index pf < tree_size pf" "tree_size pf \<le> 2 ^ 31"
  shows "verifyInclusion H leafHex pf root = Inr True \<longleftrightarrow>
    (\<exists>r bs. fromHex leafHex = Inr r \<and> mapE fromHex (audit_path pf) = Inr bs \<and>
       length bs = length (dirs (nat (leaf_index pf)) (nat (tree_size pf))) \<and>
       toHex (recompute H r (zip (dirs (nat (leaf_index pf)) (nat (tree_size pf))) bs)) = lc root)"
proof -
  let ?m = "nat (leaf_index pf)" and ?n = "nat (tree_size pf)"
  have b: "?m < 2 ^ 31" "?n - 1 < 2 ^ 31" "?m < ?n" using assms by auto
  have i: "int ?m = leaf_index pf" "int (?n - 1) = tree_size pf - 1" using assms by auto
  have e: "vi_loop H (leaf_index pf) (tree_size pf - 1) r (audit_path pf) root =
      Inr (length bs = length (dirs ?m ?n) \<and> toHex (recompute H r (zip (dirs ?m ?n) bs)) = lc root)"
    if "mapE fromHex (audit_path pf) = Inr bs" for r bs
    using vi_loop_eq[OF that b(1,2), of H r root] dirs_loop_dirs[OF b(3)] unfolding i by simp
  show ?thesis
    using assms(2) e vi_loop_parses by (auto simp: verifyInclusion_def bindE_Inr_iff) fastforce+
qed

lemma mapE_fromHex_toHex [simp]: "mapE fromHex (map toHex ps) = Inr ps"
  by (induction ps) simp_all

text \<open>The first-size test \<open>(n & (n - 1)) === 0\<close> recognises the powers of two.\<close>

lemma pow2_double: "0 < a \<Longrightarrow> pow2 (2 * a) \<longleftrightarrow> pow2 a"
proof
  assume a: "0 < a" and "pow2 (2 * a)"
  then obtain j where j: "2 * a = 2 ^ j" by (auto simp: pow2_def)
  with a show "pow2 a" by (cases j) (auto simp: pow2_def)
next
  assume "pow2 a"
  then obtain j where "a = 2 ^ j" by (auto simp: pow2_def)
  then show "pow2 (2 * a)" unfolding pow2_def by (intro exI[of _ "Suc j"]) simp
qed

lemma pow2_odd: "odd a \<Longrightarrow> pow2 a \<longleftrightarrow> a = 1"
proof
  assume "odd a" "pow2 a"
  then obtain j where "a = 2 ^ j" "odd ((2::nat) ^ j)" by (auto simp: pow2_def)
  then show "a = 1" by (cases j) auto
qed (auto simp: pow2_def intro: exI[of _ 0])

lemma and_pred_pow2: "0 < n \<Longrightarrow> n AND (n - 1) = 0 \<longleftrightarrow> pow2 (n::nat)"
proof (induction n rule: less_induct)
  case (less n)
  show ?case
  proof (cases "even n")
    case True
    then obtain a where a: "n = 2 * a" "0 < a" using less.prems by (auto elim: evenE)
    have "(2 * x) AND (2 * y + 1) = 2 * (x AND y)" for x y :: nat by (subst and_rec) simp
    moreover have "n - 1 = 2 * (a - 1) + 1" using a by simp
    ultimately have "n AND (n - 1) = 2 * (a AND (a - 1))" using a(1) by metis
    then show ?thesis using less.IH[of a] a by (simp add: pow2_double)
  next
    case False
    then obtain a where a: "n = 2 * a + 1" by (auto elim: oddE)
    have "n AND (n - 1) = 2 * a" using a by (subst and_rec) simp
    then show ?thesis using pow2_odd[OF False] a by simp
  qed
qed

lemma sint_small: "0 \<le> a \<Longrightarrow> a < 2 ^ 31 \<Longrightarrow> sint (word_of_int a :: 32 word) = a"
  by (simp add: int_word_sint)

lemma js_and_pow2:
  assumes "0 < n" "n < 2 ^ 31"
  shows "js_and (int n) (int n - 1) = 0 \<longleftrightarrow> pow2 n"
proof -
  let ?v = "n AND (n - 1)"
  have m: "int n - 1 = int (n - 1)" using assms by simp
  have w: "(word_of_int (int n) :: 32 word) AND word_of_int (int n - 1) = word_of_int (int ?v)"
    unfolding m by (metis of_int_and_eq of_nat_and_eq)
  have "int ?v \<le> int n" by (simp only: of_nat_and_eq) (rule AND_upper1, simp)
  then have "int ?v < 2 ^ 31" using assms(2) by simp
  then have "sint (word_of_int (int ?v) :: 32 word) = int ?v" by (intro sint_small) simp_all
  then have "js_and (int n) (int n - 1) = int ?v" unfolding js_and_def w .
  then show ?thesis using and_pred_pow2[OF assms(1)] by simp
qed

lemma shift_ones_strip1:
  "fn < 2 ^ 31 \<Longrightarrow> sn < 2 ^ 31 \<Longrightarrow>
     shift_ones (int fn) (int sn) = Some (int (fst (strip1 fn sn)), int (snd (strip1 fn sn)))"
proof (induction fn sn rule: strip1.induct)
  case (1 fn sn)
  then show ?case
    by (subst shift_ones.simps, cases "odd fn") (simp_all add: js_nat_simps strip1_odd)
qed

lemma strip1_bounds:
  "fst (strip1 fn sn) \<le> fn" "snd (strip1 fn sn) \<le> sn"
  "fn \<le> sn \<Longrightarrow> fst (strip1 fn sn) \<le> snd (strip1 fn sn)"
proof (induction fn sn rule: strip1.induct)
  case (1 fn sn)
  { case 1 then show ?case using "1.IH"(1) by (subst strip1.simps) (auto intro: order_trans) }
  { case 2 then show ?case using "1.IH"(2) by (subst strip1.simps) (auto intro: order_trans) }
  { case 3 then show ?case using "1.IH"(3) by (subst (1 2) strip1.simps) (auto simp: div_le_mono) }
qed

text \<open>
  The loop consumes one decision per node.  It reaches \<open>sn = 0\<close> exactly when all decisions are
  consumed; the folded hashes are the recomputed roots.
\<close>

fun walk_end :: "nat \<Rightarrow> nat \<Rightarrow> nat \<Rightarrow> nat \<times> nat" where
  "walk_end fn sn 0 = (fn, sn)"
| "walk_end fn sn (Suc k) =
     (if odd fn \<or> fn = sn then walk_end (fst (strip fn sn) div 2) (snd (strip fn sn) div 2) k
      else walk_end (fn div 2) (sn div 2) k)"

lemma walk_end_le: "fn \<le> sn \<Longrightarrow> fst (walk_end fn sn k) \<le> snd (walk_end fn sn k)"
  by (induction fn sn k rule: walk_end.induct) (simp_all add: strip_bounds div_le_mono)

lemma walk_end_zero_iff:
  "k \<le> length (dirs_loop fn sn) \<Longrightarrow> snd (walk_end fn sn k) = 0 \<longleftrightarrow> k = length (dirs_loop fn sn)"
proof (induction fn sn k rule: walk_end.induct)
  case (1 fn sn)
  then show ?case by (subst dirs_loop.simps) simp
next
  case (2 fn sn k)
  then have "sn \<noteq> 0" by (cases sn) auto
  with 2 show ?case by (cases "odd fn \<or> fn = sn") (simp_all add: dirs_loop.simps[of fn sn])
qed

lemma vc_loop_eq:
  "fn < 2 ^ 31 \<Longrightarrow> sn < 2 ^ 31 \<Longrightarrow>
     vc_loop H (int fn) (int sn) fr sr nodes =
       (if length nodes \<le> length (dirs_loop fn sn)
        then Some (int (fst (walk_end fn sn (length nodes))), int (snd (walk_end fn sn (length nodes))),
               recompute H fr (filter fst (zip (dirs_loop fn sn) nodes)),
               recompute H sr (zip (dirs_loop fn sn) nodes))
        else None)"
proof (induction nodes arbitrary: fn sn fr sr)
  case Nil
  then show ?case by simp
next
  case (Cons c nodes)
  consider (zero) "sn = 0" | (left) "sn \<noteq> 0" "odd fn \<or> fn = sn" | (right) "sn \<noteq> 0" "even fn" "fn \<noteq> sn"
    by blast
  then show ?case
  proof cases
    case zero
    then show ?thesis by simp
  next
    case left
    let ?f = "fst (strip fn sn)" and ?s = "snd (strip fn sn)"
    have b: "?f < 2 ^ 31" "?s < 2 ^ 31"
      using strip_bounds(1)[of fn sn] snd_strip_le[of fn sn] Cons.prems by linarith+
    have "(if js_and (int fn) 1 = 0 then shift_while (int fn) (int sn) else (int fn, int sn)) =
        (int ?f, int ?s)"
      using Cons.prems by (simp add: js_nat_simps shift_while_strip)
    moreover have "dirs_loop fn sn = True # dirs_loop (?f div 2) (?s div 2)"
      using left by (simp add: dirs_loop.simps[of fn sn])
    ultimately show ?thesis
      using left b Cons.IH[of "?f div 2" "?s div 2" "hashChildren H c fr" "hashChildren H c sr"]
      by (simp add: js_nat_simps hashChildren_spec pre_def)
  next
    case right
    then show ?thesis
      using Cons.prems Cons.IH[of "fn div 2" "sn div 2" fr "hashChildren H sr c"]
      by (simp add: js_nat_simps hashChildren_spec pre_def dirs_loop_even)
  qed
qed

subsection \<open>Correctness of the log and its verifiers\<close>

text \<open>
  The strings hashed while an inclusion proof is checked, and a small digest for concrete
  instances (it keeps the first 32 bytes, padded with zeros).
\<close>

definition audit_bytes :: "InclusionProof \<Rightarrow> bytes list" where
  "audit_bytes pf = (case mapE fromHex (audit_path pf) of Inl _ \<Rightarrow> [] | Inr bs \<Rightarrow> bs)"

definition inclusion_inputs :: "(bytes \<Rightarrow> bytes) \<Rightarrow> bytes \<Rightarrow> InclusionProof \<Rightarrow> bytes list" where
  "inclusion_inputs H r pf =
     rinputs H r (zip (dirs (nat (leaf_index pf)) (nat (tree_size pf))) (audit_bytes pf))"

definition pad32 :: "bytes \<Rightarrow> bytes" where
  "pad32 x = take 32 (x @ replicate 32 0)"

lemma length_pad32 [simp]: "length (pad32 x) = 32"
  by (simp add: pad32_def)

lemma digest32_pad32 [simp]: "digest32 pad32"
  by (simp add: digest32_def)

definition sample_log :: "nat \<Rightarrow> TransparencyLog" where
  "sample_log n = newTransparencyLog ''tenant:sample'' (map (\<lambda>i. [word_of_nat i]) [0..<n])"

lemma length_sample_log [simp]: "length (tl_leaves (sample_log n)) = n"
  by (simp add: sample_log_def newTransparencyLog_def)

text \<open>Library form of completeness, shared by the services that hand out proofs.\<close>

lemma audit_path_accepted:
  assumes "m < n" "n \<le> length ls" "n \<le> 2 ^ 30"
  shows "verifyInclusion H (toHex (H (leaf_in (ls ! m))))
    \<lparr>leaf_index = int m, tree_size = int n, audit_path = map toHex (PATH H m (take n ls))\<rparr>
    (toHex (MTH H (take n ls))) = Inr True"
proof -
  have "recompute H (H (leaf_in (ls ! m))) (zip (dirs m n) (PATH H m (take n ls))) = MTH H (take n ls)"
    using PATH_correct[of m "take n ls" H] assms by simp
  moreover have "length (PATH H m (take n ls)) = length (dirs m n)"
    using length_PATH[of m "take n ls" H] assms by simp
  ultimately show ?thesis using assms by (subst verifyInclusion_iff) simp_all
qed

lemma vc_full_walk:
  assumes "cons_range m n" "m \<noteq> n" "n \<le> 2 ^ 31" "length rest = length (cdirs m n)"
  obtains fn sn where "shift_ones (int m - 1) (int n - 1) = Some (int fn, int sn)"
    and "vc_loop H (int fn) (int sn) s s rest =
      Some (0, 0, recompute H s (filter fst (zip (cdirs m n) rest)), recompute H s (zip (cdirs m n) rest))"
proof -
  let ?fn = "fst (strip1 (m - 1) (n - 1))" and ?sn = "snd (strip1 (m - 1) (n - 1))"
  have i: "int m - 1 = int (m - 1)" "int n - 1 = int (n - 1)" using assms by auto
  have d: "dirs_loop ?fn ?sn = cdirs m n"
    using walk1_cdirs[of m n] assms(1) by (simp add: walk1_def pow2_def split_beta)
  have b: "?fn \<le> ?sn" "?fn < 2 ^ 31" "?sn < 2 ^ 31"
    using strip1_bounds[where fn = "m - 1" and sn = "n - 1"] assms by auto
  have "snd (walk_end ?fn ?sn (length rest)) = 0"
    using walk_end_zero_iff[of "length rest" ?fn ?sn] d assms(4) by simp
  then have "walk_end ?fn ?sn (length rest) = (0, 0)"
    using walk_end_le[OF b(1), of "length rest"] by (simp add: prod_eq_iff)
  with vc_loop_eq[OF b(2,3), of H s s rest] d assms(4)
  have "vc_loop H (int ?fn) (int ?sn) s s rest =
      Some (0, 0, recompute H s (filter fst (zip (cdirs m n) rest)), recompute H s (zip (cdirs m n) rest))"
    by simp
  moreover have "shift_ones (int m - 1) (int n - 1) = Some (int ?fn, int ?sn)"
    unfolding i by (rule shift_ones_strip1) (use assms in auto)
  ultimately show thesis using that by blast
qed

lemma consistency_path_accepted:
  assumes "0 < m" "m < n" "n \<le> length ls" "n \<le> 2 ^ 30"
  shows "verifyConsistency H (int m) (toHex (MTH H (take m ls))) (int n) (toHex (MTH H (take n ls)))
    (map toHex (SUBPROOF H m (take n ls) True)) = Inr True"
proof -
  let ?D = "take n ls" and ?N = "SUBPROOF H m (take n ls) False"
  have D: "length ?D = n" and c: "cons_range m (length ?D)" using assms by auto
  have N: "?N = hd ?N # tl ?N" using SUBPROOF_not_Nil[OF c, of H] by simp
  have len: "length (tl ?N) = length (cdirs m n)" using length_SUBPROOF[OF c, of H] D by simp
  have tk: "take m ?D = take m ls" using assms by (simp add: min_def)
  have rec: "recompute H (hd ?N) (zip (cdirs m n) (tl ?N)) = MTH H ?D"
      "recompute H (hd ?N) (filter fst (zip (cdirs m n) (tl ?N))) = MTH H (take m ls)"
    using SUBPROOF_correct[OF c, of H] D tk by simp_all
  obtain fn sn where w: "shift_ones (int m - 1) (int n - 1) = Some (int fn, int sn)"
    "vc_loop H (int fn) (int sn) (hd ?N) (hd ?N) (tl ?N) = Some (0, 0, MTH H (take m ls), MTH H ?D)"
    using vc_full_walk[of m n "tl ?N" H "hd ?N"] c D assms len rec by auto
  have p: "js_and (int m) (int m - 1) = 0 \<longleftrightarrow> pow2 m" using assms by (intro js_and_pow2) auto
  have T: "pow2 m \<Longrightarrow> hd ?N = MTH H (take m ls) \<and> SUBPROOF H m ?D True = tl ?N"
      "\<not> pow2 m \<Longrightarrow> SUBPROOF H m ?D True = ?N"
    using SUBPROOF_True[OF c, of H] tk by auto
  show ?thesis
  proof (cases "pow2 m")
    case True
    with T(1)[OF True] p w assms show ?thesis by (simp add: verifyConsistency_def)
  next
    case False
    obtain x xs where x: "SUBPROOF H m ?D True = x # xs" "hd ?N = x" "tl ?N = xs"
      using T(2)[OF False] N by (metis list.sel(1,3))
    with False p w assms show ?thesis by (simp add: verifyConsistency_def)
  qed
qed

text \<open>C1: Inclusion proofs are complete.  For every leaf index and tree size the log covers (up to
  2^30 leaves), the log hands out an inclusion proof, a leaf hash and a root without error, and the
  standalone verifier accepts them, whatever the hash function is.\<close>

theorem inclusion_complete:
  assumes "0 \<le> m" "m < n" "n \<le> int (treeSize t)" "n \<le> 2 ^ 30"
  shows "\<exists>pf lh root. inclusionProof H t m n = Inr pf \<and> leafHashHex H t m = Inr lh
    \<and> rootAtHex H t n = Inr root \<and> verifyInclusion H lh pf root = Inr True"
  using assms audit_path_accepted[of "nat m" "nat n" "tl_leaves t" H]
  by (simp add: log_method_eqs treeSize_def)

theorem inclusion_complete_witness:
  "\<exists>pf lh root. inclusionProof pad32 (sample_log 5) 2 5 = Inr pf
    \<and> leafHashHex pad32 (sample_log 5) 2 = Inr lh \<and> rootAtHex pad32 (sample_log 5) 5 = Inr root
    \<and> verifyInclusion pad32 lh pf root = Inr True"
  by (rule inclusion_complete) (simp_all add: treeSize_def)

text \<open>C2: Inclusion proofs are sound.  If the verifier accepts a 32-byte leaf hash and a proof
  against the root the log has at that size, and no two different strings hashed by the verifier
  and for the tree collide, then the leaf hash is the hash of the leaf at that index, and the
  audit path is the one the log itself computes.\<close>

theorem inclusion_sound:
  assumes "digest32 H"
    and "0 \<le> leaf_index pf" "tree_size pf \<le> int (treeSize t)" "tree_size pf \<le> 2 ^ 30"
    and "rootAtHex H t (tree_size pf) = Inr root"
    and "fromHex leafHex = Inr r" "length r = 32"
    and "verifyInclusion H leafHex pf root = Inr True"
    and "inj_on H (set (inclusion_inputs H r pf
           @ tree_inputs H (take (nat (tree_size pf)) (tl_leaves t))))"
  shows "leafHashHex H t (leaf_index pf) = Inr (toHex r)
    \<and> (\<exists>pf'. inclusionProof H t (leaf_index pf) (tree_size pf) = Inr pf'
        \<and> mapE fromHex (audit_path pf') = mapE fromHex (audit_path pf))"
proof -
  let ?m = "nat (leaf_index pf)" and ?n = "nat (tree_size pf)"
  let ?D = "take ?n (tl_leaves t)"
  have lt: "leaf_index pf < tree_size pf"
    using assms(8) by (auto simp: verifyInclusion_def split: if_splits)
  have D: "length ?D = ?n" "?m < length ?D" using assms(2,3) lt by (auto simp: treeSize_def)
  have root: "root = toHex (MTH H ?D)"
    using assms(2,3,4,5) lt by (simp add: rootAtHex_eq treeSize_def)
  obtain bs where bs: "mapE fromHex (audit_path pf) = Inr bs" "length bs = length (dirs ?m ?n)"
    "recompute H r (zip (dirs ?m ?n) bs) = MTH H ?D"
    using assms(2,4,6,8) lt root by (auto simp: verifyInclusion_iff)
  have "r = H (leaf_in (?D ! ?m)) \<and> bs = PATH H ?m ?D"
    using PATH_sound[OF assms(1,7) D(2), of bs, OF _ _ assms(9)] bs D
    by (simp add: inclusion_inputs_def audit_bytes_def)
  then show ?thesis
    using assms(2,3,4) lt D bs(1) by (simp add: log_method_eqs treeSize_def)
qed

theorem inclusion_sound_witness:
  "leafHashHex pad32 (sample_log 2) 0 = Inr (toHex (pad32 [0, 0]))
    \<and> (\<exists>pf'. inclusionProof pad32 (sample_log 2) 0 2 = Inr pf'
        \<and> mapE fromHex (audit_path pf') = Inr [pad32 [0, 1]])"
proof -
  let ?pf = "\<lparr>leaf_index = 0, tree_size = 2, audit_path = [toHex (pad32 [0, 1])]\<rparr>"
  have k: "kpow 2 = 1" by (simp add: kpow.simps)
  have d: "dirs 0 2 = [False]" by (simp add: dirs.simps k)
  have D: "tl_leaves (sample_log 2) = [[0], [1]]"
    by (simp add: sample_log_def newTransparencyLog_def upt_rec)
  have M: "MTH pad32 [[0], [1]] = pad32 (node_in (pad32 [0, 0]) (pad32 [0, 1]))"
    using MTH_split[of "[[0], [1]]" pad32] k by (simp add: leaf_in_def numeral_2_eq_2)
  have root: "rootAtHex pad32 (sample_log 2) 2 = Inr (toHex (MTH pad32 [[0], [1]]))"
    by (simp add: rootAtHex_eq D)
  have acc: "verifyInclusion pad32 (toHex (pad32 [0, 0])) ?pf (toHex (MTH pad32 [[0], [1]])) = Inr True"
    by (subst verifyInclusion_iff) (simp_all add: d M pre_def)
  have inputs: "inclusion_inputs pad32 (pad32 [0, 0]) ?pf = [node_in (pad32 [0, 0]) (pad32 [0, 1])]"
    by (simp add: inclusion_inputs_def audit_bytes_def d pre_def)
  have tree: "tree_inputs pad32 [[0], [1]] =
      [node_in (pad32 [0, 0]) (pad32 [0, 1]), [0, 0], [0, 1]]"
    using tree_inputs_split[of "[[0], [1]]" pad32] k
    by (simp add: leaf_in_def numeral_2_eq_2 tree_inputs.simps)
  have inj: "inj_on pad32 (set ([node_in (pad32 [0, 0]) (pad32 [0, 1])] @
      [node_in (pad32 [0, 0]) (pad32 [0, 1]), [0, 0], [0, 1]]))"
    by (simp add: inj_on_def pad32_def node_in_def)
  show ?thesis
    using inclusion_sound[of pad32 ?pf "sample_log 2" "toHex (MTH pad32 [[0], [1]])"
        "toHex (pad32 [0, 0])" "pad32 [0, 0]"] root acc inj inputs tree D
    by (simp add: treeSize_def)
qed

text \<open>C3: Consistency proofs are complete.  For every pair of tree sizes the log covers, the log hands
  out a consistency proof and both roots without error, and the standalone verifier accepts them.\<close>

theorem consistency_complete:
  assumes "0 < m" "m \<le> n" "n \<le> int (treeSize t)" "n \<le> 2 ^ 30"
  shows "\<exists>cp first second. consistencyProof H t m n = Inr cp \<and> rootAtHex H t m = Inr first
    \<and> rootAtHex H t n = Inr second
    \<and> verifyConsistency H m first n second (consistency_path cp) = Inr True"
proof (cases "m = n")
  case True
  with assms show ?thesis
    by (simp add: rootAtHex_eq treeSize_def consistencyProof_def verifyConsistency_def)
next
  case False
  with assms consistency_path_accepted[of "nat m" "nat n" "tl_leaves t" H] show ?thesis
    by (simp add: log_method_eqs treeSize_def)
qed

theorem consistency_complete_witness:
  "\<exists>cp first second. consistencyProof pad32 (sample_log 7) 3 7 = Inr cp
    \<and> rootAtHex pad32 (sample_log 7) 3 = Inr first \<and> rootAtHex pad32 (sample_log 7) 7 = Inr second
    \<and> verifyConsistency pad32 3 first 7 second (consistency_path cp) = Inr True"
  by (rule consistency_complete) (simp_all add: treeSize_def)

text \<open>C22: The standalone consistency verifier accepts a truncated proof.  For every log of at least
  eight leaves and every hash function, the root at size 4 is accepted as the root at size 2 of a
  prefix of the tree of size 8, with a proof of a single node: the final test looks at \<open>fn\<close>, which
  is already 0, instead of \<open>sn\<close>.\<close>

theorem verifyConsistency_accepts_truncated:
  assumes "8 \<le> treeSize t"
  shows "\<exists>r4 r8 p. rootAtHex H t 4 = Inr r4 \<and> rootAtHex H t 8 = Inr r8
    \<and> verifyConsistency H 2 r4 8 r8 [p] = Inr True"
proof -
  let ?l = "tl_leaves t"
  have k: "kpow 8 = 4" using kpow_unique[of 2 8] by simp
  have M: "MTH H (take 8 ?l) = H (node_in (MTH H (take 4 ?l)) (MTH H (drop 4 (take 8 ?l))))"
  proof -
    have "length (take 8 ?l) = 8" using assms by (simp add: treeSize_def)
    from MTH_split[of "take 8 ?l" H, unfolded this k] show ?thesis by simp
  qed
  have p: "js_and 2 1 = 0" "js_and 1 1 = 1" "js_and 0 1 = 0" "js_sar1 1 = 0" "js_sar1 7 = 3"
      "js_sar1 0 = 0" "js_sar1 3 = 1"
    by (simp_all add: js_and_one js_sar1_div)
  have s: "shift_ones 1 7 = Some (0, 3)"
    by (simp add: shift_ones.simps p)
  have "verifyConsistency H 2 (toHex (MTH H (take 4 ?l))) 8 (toHex (MTH H (take 8 ?l)))
      [toHex (MTH H (drop 4 (take 8 ?l)))] = Inr True"
    by (simp add: verifyConsistency_def p s M hashChildren_spec)
  with assms show ?thesis by (auto simp: rootAtHex_eq treeSize_def)
qed

theorem verifyConsistency_accepts_truncated_witness:
  "\<exists>r4 r8 p. rootAtHex pad32 (sample_log 8) 4 = Inr r4 \<and> rootAtHex pad32 (sample_log 8) 8 = Inr r8
    \<and> verifyConsistency pad32 2 r4 8 r8 [p] = Inr True"
  by (rule verifyConsistency_accepts_truncated) (simp add: treeSize_def)

text \<open>The verifier does not check the length of the leaf hash.  Against every root of a two-leaf
  log it accepts a 31-byte string that is the hash of no leaf, with the remaining 33 bytes of the
  two children as the audit path.\<close>

theorem verifyInclusion_accepts_short_hash:
  assumes "digest32 H" "tl_leaves t = [a, b]"
  shows "\<exists>short rest root. fromHex short = Inr (take 31 (hashLeaf H a))
    \<and> rootAtHex H t 2 = Inr root
    \<and> verifyInclusion H short \<lparr>leaf_index = 0, tree_size = 2, audit_path = [rest]\<rparr> root = Inr True"
proof -
  let ?c = "hashLeaf H a @ hashLeaf H b"
  have l: "length (hashLeaf H a) = 32" using assms(1) by (simp add: hashLeaf_spec digest32_def)
  have k: "kpow 2 = 1" by (simp add: kpow.simps)
  have d: "dirs 0 2 = [False]" by (simp add: dirs.simps k)
  have M: "MTH H [a, b] = H (1 # ?c)"
    using MTH_split[of "[a, b]" H] k by (simp add: numeral_2_eq_2 hashLeaf_spec node_in_def)
  have "verifyInclusion H (toHex (take 31 ?c))
      \<lparr>leaf_index = 0, tree_size = 2, audit_path = [toHex (drop 31 ?c)]\<rparr> (toHex (H (1 # ?c))) = Inr True"
    by (subst verifyInclusion_iff) (simp_all add: d pre_def node_in_def flip: append_assoc take_append drop_append)
  then show ?thesis
    using assms(2) M l
    by (intro exI[of _ "toHex (take 31 ?c)"] exI[of _ "toHex (drop 31 ?c)"] exI[of _ "toHex (H (1 # ?c))"])
      (simp add: rootAtHex_eq)
qed

theorem verifyInclusion_accepts_short_hash_witness:
  "\<exists>short rest root. fromHex short = Inr (take 31 (hashLeaf pad32 [0]))
    \<and> rootAtHex pad32 (sample_log 2) 2 = Inr root
    \<and> verifyInclusion pad32 short \<lparr>leaf_index = 0, tree_size = 2, audit_path = [rest]\<rparr> root = Inr True"
  by (rule verifyInclusion_accepts_short_hash[of _ _ _ "[1]"])
    (simp_all add: sample_log_def newTransparencyLog_def upt_rec)

text \<open>Appending never changes the past.  After an append the new leaf has the old size as its
  index, and every root, leaf hash, inclusion proof and consistency proof for sizes up to the old
  one is what it was before.\<close>

theorem append_preserves_history:
  assumes "treeSize t \<le> 2 ^ 30" "tl_append t leaf = (t', i)"
  shows "i = treeSize t \<and> treeSize t' = Suc (treeSize t)
    \<and> (\<forall>n. n \<le> int (treeSize t) \<longrightarrow> rootAtHex H t' n = rootAtHex H t n)
    \<and> (\<forall>m n. n \<le> int (treeSize t) \<longrightarrow> inclusionProof H t' m n = inclusionProof H t m n)
    \<and> (\<forall>m n. n \<le> int (treeSize t) \<longrightarrow> consistencyProof H t' m n = consistencyProof H t m n)"
proof -
  have l: "tl_leaves t' = tl_leaves t @ [leaf]" "i = treeSize t"
    using assms(2) by (auto simp: tl_append_def treeSize_def Let_def)
  have "rootAtHex H t' n = rootAtHex H t n" if "n \<le> int (treeSize t)" for n
  proof (cases "n < 0")
    case False
    with that assms(1) l show ?thesis by (simp add: rootAtHex_eq treeSize_def)
  qed (simp add: rootAtHex_def)
  moreover have "inclusionProof H t' m n = inclusionProof H t m n" if "n \<le> int (treeSize t)" for m n
  proof (cases "0 \<le> m \<and> m < n")
    case True
    with that assms(1) l show ?thesis by (simp add: inclusionProof_eq treeSize_def)
  next
    case False
    with that l show ?thesis by (auto simp: inclusionProof_def treeSize_def)
  qed
  moreover have "consistencyProof H t' m n = consistencyProof H t m n" if "n \<le> int (treeSize t)" for m n
  proof (cases "0 < m \<and> m < n")
    case True
    with that assms(1) l show ?thesis by (simp add: consistencyProof_eq treeSize_def)
  next
    case False
    with that l show ?thesis by (auto simp: consistencyProof_def treeSize_def)
  qed
  ultimately show ?thesis using l by (simp add: treeSize_def)
qed

theorem append_preserves_history_witness:
  "rootAtHex pad32 (fst (tl_append (sample_log 3) [9])) 2 = rootAtHex pad32 (sample_log 3) 2"
  using append_preserves_history[of "sample_log 3" "[9]" "fst (tl_append (sample_log 3) [9])"
      "snd (tl_append (sample_log 3) [9])" pad32]
  by (simp add: treeSize_def)

text \<open>C26: The split-point loop is right up to 2^30 leaves and does not end beyond.  For sizes from 2 to
  2^30 \<open>largestPowerOfTwoSmallerThan\<close> returns the unique power of two with k < n and n <= 2k; for a
  larger tree \<open>k << 1\<close> overflows 32 bits and the root computation never returns.\<close>

theorem split_point_and_overflow:
  "(2 \<le> n \<and> n \<le> 2 ^ 30 \<longrightarrow> (\<exists>j. largestPowerOfTwoSmallerThan (int n) = Inr (2 ^ j)
      \<and> 2 ^ j < n \<and> n \<le> 2 * 2 ^ j))
   \<and> (2 ^ 30 < n \<and> n \<le> treeSize t \<longrightarrow> rootAtHex H t (int n) = Inl Diverges)"
proof (intro conjI impI)
  assume n: "2 \<le> n \<and> n \<le> 2 ^ 30"
  then obtain j where "kpow n = 2 ^ j" "2 ^ j < n" "n \<le> 2 * 2 ^ j" using kpow_pow2[of n] by blast
  with n lpot_eq_kpow[of n] show "\<exists>j. largestPowerOfTwoSmallerThan (int n) = Inr (2 ^ j)
      \<and> 2 ^ j < n \<and> n \<le> 2 * 2 ^ j" by (intro exI[of _ j]) simp
next
  assume n: "2 ^ 30 < n \<and> n \<le> treeSize t"
  then have "largestPowerOfTwoSmallerThan (int n) = Inl Diverges" by (intro lpot_diverges) simp
  with n show "rootAtHex H t (int n) = Inl Diverges"
    by (simp add: rootAtHex_def treeSize_def mth.simps[of H "tl_leaves t" 0 n] Let_def)
qed

theorem split_point_and_overflow_witness:
  "(\<exists>j. largestPowerOfTwoSmallerThan 7 = Inr (2 ^ j) \<and> 2 ^ j < (7::nat) \<and> (7::nat) \<le> 2 * 2 ^ j)
   \<and> rootAtHex pad32 (sample_log (2 ^ 30 + 1)) (int (2 ^ 30 + 1)) = Inl Diverges"
  using split_point_and_overflow[of 7 "sample_log 0" pad32]
    split_point_and_overflow[of "2 ^ 30 + 1" "sample_log (2 ^ 30 + 1)" pad32]
  by (simp add: treeSize_def del: of_nat_add of_nat_power)

text \<open>Inclusion proofs are logarithmic.  In a tree of at most 2^l leaves an audit path has at most
  l hashes.\<close>

theorem audit_path_length:
  assumes "inclusionProof H t m n = Inr pf" "n \<le> 2 ^ l" "n \<le> 2 ^ 30"
  shows "length (audit_path pf) \<le> l"
proof -
  have r: "0 \<le> m" "m < n" "n \<le> int (length (tl_leaves t))"
    using assms(1) by (auto simp: inclusionProof_def split: if_splits)
  have "nat n \<le> 2 ^ l" using assms(2) by (simp add: nat_le_iff)
  moreover have "length (PATH H (nat m) (take (nat n) (tl_leaves t))) = length (dirs (nat m) (nat n))"
    using length_PATH[of "nat m" "take (nat n) (tl_leaves t)" H] r by simp
  ultimately show ?thesis
    using assms(1,3) r length_dirs[of "nat m" "nat n" l] by (auto simp: inclusionProof_eq)
qed

theorem audit_path_length_witness:
  "\<exists>pf. inclusionProof pad32 (sample_log 6) 4 6 = Inr pf \<and> length (audit_path pf) \<le> 3"
proof -
  obtain pf where "inclusionProof pad32 (sample_log 6) 4 6 = Inr pf"
    by (simp add: inclusionProof_eq)
  with audit_path_length[of pad32 "sample_log 6" 4 6 pf 3] show ?thesis by simp
qed

subsection \<open>The built-in self test\<close>

record SelfTestResult =
  ok :: bool
  checks :: nat
  failures :: "string list"

text \<open>One check: count it, and record the message when it fails.\<close>

definition self_check :: "bool \<Rightarrow> string \<Rightarrow> nat \<times> string list \<Rightarrow> nat \<times> string list" where
  "self_check good msg = (\<lambda>(c, fs). (Suc c, if good then fs else fs @ [msg]))"

definition self_leaf :: "nat \<Rightarrow> bytes" where
  "self_leaf i = utf8 (''leaf-'' @ js_num i)"

definition self_inclusion ::
  "(bytes \<Rightarrow> bytes) \<Rightarrow> TransparencyLog \<times> nat \<times> string list \<Rightarrow> nat \<Rightarrow>
     (TransparencyLog \<times> nat \<times> string list) js" where
  "self_inclusion H = (\<lambda>(lg, st) size'.
     let lg' = fst (tl_append lg (self_leaf (size' - 1))) in
     bindE (currentRootHex H lg') (\<lambda>root.
     bindE (foldE (\<lambda>st idx.
         bindE (inclusionProof H lg' (int idx) (int size')) (\<lambda>pf.
         bindE (leafHashHex H lg' (int idx)) (\<lambda>lh.
         bindE (verifyInclusion H lh pf root) (\<lambda>good.
         Inr (self_check good (''inclusion FAIL idx='' @ js_num idx @ '' size='' @ js_num size') st)))))
       st [0..<size']) (\<lambda>st'.
     Inr (lg', st'))))"

definition self_consistency ::
  "(bytes \<Rightarrow> bytes) \<Rightarrow> TransparencyLog \<Rightarrow> nat \<Rightarrow> nat \<times> string list \<Rightarrow> nat \<Rightarrow> (nat \<times> string list) js" where
  "self_consistency H lg maxSize st first = foldE (\<lambda>st second.
     bindE (rootAtHex H lg (int first)) (\<lambda>fRoot.
     bindE (rootAtHex H lg (int second)) (\<lambda>sRoot.
     bindE (consistencyProof H lg (int first) (int second)) (\<lambda>cp.
     bindE (verifyConsistency H (int first) fRoot (int second) sRoot (consistency_path cp)) (\<lambda>good.
     Inr (self_check good (''consistency FAIL first='' @ js_num first @ '' second='' @ js_num second) st))))))
   st [first..<Suc maxSize]"

definition selfTest :: "(bytes \<Rightarrow> bytes) \<Rightarrow> nat \<Rightarrow> SelfTestResult js" where
  "selfTest H maxSize =
     bindE (currentRootHex H (newTransparencyLog ''t'' [])) (\<lambda>empty'.
     let st = self_check (empty' = toHex (sha256 H [])) ''empty-tree root mismatch'' (0, []) in
     bindE (currentRootHex H (newTransparencyLog ''t'' [self_leaf 0])) (\<lambda>single.
     let st = self_check (single = toHex (hashLeaf H (self_leaf 0))) ''single-leaf root mismatch'' st in
     bindE (foldE (self_inclusion H) (newTransparencyLog ''t'' [], st) [1..<Suc maxSize]) (\<lambda>(lg, st).
     bindE (foldE (self_consistency H lg maxSize) st [1..<Suc maxSize]) (\<lambda>st.
     bindE (inclusionProof H lg 0 (int maxSize)) (\<lambda>badProof.
     bindE (rootAtHex H lg (int maxSize)) (\<lambda>root.
     bindE (verifyInclusion H (toHex (hashLeaf H (utf8 ''not-a-real-leaf''))) badProof root) (\<lambda>bad.
     let (c, fs) = self_check (\<not> bad) ''negative control FAIL: tampered leaf verified'' st
     in Inr \<lparr>ok = fs = [], checks = c, failures = fs\<rparr>)))))))"

lemma self_check_True [simp]: "self_check True msg (c, fs) = (Suc c, fs)"
  by (simp add: self_check_def)

definition self_log :: "nat \<Rightarrow> TransparencyLog" where
  "self_log n = newTransparencyLog ''t'' (map self_leaf [0..<n])"

lemma tl_leaves_self_log [simp]: "tl_leaves (self_log n) = map self_leaf [0..<n]"
  by (simp add: self_log_def newTransparencyLog_def)

lemma foldE_checks:
  assumes "\<And>c x. x \<in> set xs \<Longrightarrow> f (c, []) x = Inr (c + g x, [])"
  shows "foldE f (c, []) xs = Inr (c + sum_list (map g xs), [])"
  using assms by (induction xs arbitrary: c) (simp_all add: add.assoc)

lemma self_inclusion_passes:
  assumes "Suc n \<le> 2 ^ 30"
  shows "self_inclusion H (self_log n, c, []) (Suc n) = Inr (self_log (Suc n), c + Suc n, [])"
proof -
  have a: "fst (tl_append (self_log n) (self_leaf (Suc n - 1))) = self_log (Suc n)"
    by (simp add: tl_append_def self_log_def newTransparencyLog_def Let_def)
  have v: "verifyInclusion H (toHex (H (leaf_in (self_leaf i))))
      \<lparr>leaf_index = int i, tree_size = 1 + int n,
       audit_path = map toHex (PATH H i (map self_leaf [0..<Suc n]))\<rparr>
      (toHex (MTH H (map self_leaf [0..<Suc n]))) = Inr True" if "i < Suc n" for i
  proof -
    have "map self_leaf [0..<Suc n] ! i = self_leaf i"
      using that nth_upt[of 0 i "Suc n"] by (simp del: upt_Suc)
    then show ?thesis
      using audit_path_accepted[of i "Suc n" "map self_leaf [0..<Suc n]" H] that assms
      by (simp del: upt_Suc)
  qed
  let ?D = "map self_leaf [0..<Suc n]"
  have "foldE (\<lambda>st idx.
         bindE (inclusionProof H (self_log (Suc n)) (int idx) (int (Suc n))) (\<lambda>pf.
         bindE (leafHashHex H (self_log (Suc n)) (int idx)) (\<lambda>lh.
         bindE (verifyInclusion H lh pf (toHex (MTH H ?D))) (\<lambda>good.
         Inr (self_check good (''inclusion FAIL idx='' @ js_num idx @ '' size='' @ js_num (Suc n)) st)))))
       (c, []) [0..<Suc n] = Inr (c + sum_list (map (\<lambda>_. 1) [0..<Suc n]), [])"
    by (rule foldE_checks) (use assms v in \<open>auto simp: log_method_eqs simp del: upt_Suc\<close>)
  moreover have "currentRootHex H (self_log (Suc n)) = Inr (toHex (MTH H ?D))"
    using assms by (simp add: log_method_eqs del: upt_Suc)
  ultimately show ?thesis
    unfolding self_inclusion_def prod.case a Let_def
    by (simp add: sum_list_triv del: upt_Suc)
qed

lemma self_inclusions_pass:
  "n \<le> 2 ^ 30 \<Longrightarrow> foldE (self_inclusion H) (self_log 0, c, []) [1..<Suc n] =
     Inr (self_log n, c + sum_list [1..<Suc n], [])"
proof (induction n)
  case 0
  then show ?case by simp
next
  case (Suc n)
  have "[1..<Suc (Suc n)] = [1..<Suc n] @ [Suc n]" by simp
  with Suc show ?case
    using self_inclusion_passes[of n H "c + sum_list [1..<Suc n]"]
    by (simp add: foldE_append del: upt_Suc)
qed

lemma consistency_checked:
  assumes "0 < a" "a \<le> b" "b \<le> n" "n \<le> 2 ^ 30"
  shows "\<exists>fR sR cp. rootAtHex H (self_log n) (int a) = Inr fR \<and> rootAtHex H (self_log n) (int b) = Inr sR
    \<and> consistencyProof H (self_log n) (int a) (int b) = Inr cp
    \<and> verifyConsistency H (int a) fR (int b) sR (consistency_path cp) = Inr True"
proof (cases "a = b")
  case True
  with assms show ?thesis
    by (simp add: rootAtHex_eq consistencyProof_def verifyConsistency_def)
next
  case False
  with assms consistency_path_accepted[of a b "map self_leaf [0..<n]" H] show ?thesis
    by (simp add: log_method_eqs)
qed

lemma self_consistency_passes:
  assumes "0 < a" "a \<le> n" "n \<le> 2 ^ 30"
  shows "self_consistency H (self_log n) n (c, []) a = Inr (c + (Suc n - a), [])"
proof -
  have "foldE (\<lambda>st second.
     bindE (rootAtHex H (self_log n) (int a)) (\<lambda>fRoot.
     bindE (rootAtHex H (self_log n) (int second)) (\<lambda>sRoot.
     bindE (consistencyProof H (self_log n) (int a) (int second)) (\<lambda>cp.
     bindE (verifyConsistency H (int a) fRoot (int second) sRoot (consistency_path cp)) (\<lambda>good.
     Inr (self_check good (''consistency FAIL first='' @ js_num a @ '' second='' @ js_num second) st))))))
     (c, []) [a..<Suc n] = Inr (c + sum_list (map (\<lambda>_. 1) [a..<Suc n]), [])"
    by (rule foldE_checks) (use assms consistency_checked[of a _ n H] in \<open>auto simp del: upt_Suc\<close>, fastforce+)
  then show ?thesis
    using assms by (simp add: self_consistency_def sum_list_triv Suc_diff_le del: upt_Suc)
qed

lemma audit_path_forged:
  fixes H :: "bytes \<Rightarrow> bytes" and ls :: "bytes list" and r :: bytes
  defines "P \<equiv> zip (dirs 0 (length ls)) (PATH H 0 ls)"
  assumes "ls \<noteq> []" "length ls \<le> 2 ^ 30" "digest32 H" "length r = 32" "r \<noteq> H (leaf_in (hd ls))"
    and "inj_on H S" "set (rinputs H r P) \<subseteq> S" "set (tree_inputs H ls) \<subseteq> S"
  shows "verifyInclusion H (toHex r)
    \<lparr>leaf_index = 0, tree_size = int (length ls), audit_path = map toHex (PATH H 0 ls)\<rparr>
    (toHex (MTH H ls)) = Inr False"
proof -
  have b: "0 < length ls" "(0::nat) < 2 ^ 31" "length ls - 1 < 2 ^ 31" using assms(2,3) by auto
  have len: "length (PATH H 0 ls) = length (dirs 0 (length ls))"
    using length_PATH[of 0 ls H] b by simp
  have "recompute H r P \<noteq> MTH H ls"
  proof
    assume "recompute H r P = MTH H ls"
    then have "r = H (leaf_in (ls ! 0))"
      using PATH_sound[of H r 0 ls "PATH H 0 ls" S] assms(4-) b len unfolding P_def by blast
    with assms(2,6) show False by (simp add: hd_conv_nth)
  qed
  moreover have "verifyInclusion H (toHex r)
      \<lparr>leaf_index = 0, tree_size = int (length ls), audit_path = map toHex (PATH H 0 ls)\<rparr>
      (toHex (MTH H ls)) = Inr (recompute H r P = MTH H ls)"
    using vi_loop_eq[of "map toHex (PATH H 0 ls)" "PATH H 0 ls" 0 "length ls - 1" H r "toHex (MTH H ls)"]
      dirs_loop_dirs[OF b(1)] b len
    by (auto simp: verifyInclusion_def P_def int_ops of_nat_diff)
  ultimately show ?thesis by simp
qed

lemma sum_list_checks: "sum_list [1..<Suc n] + sum_list (map (\<lambda>a. Suc n - a) [1..<Suc n]) = n * Suc n"
proof -
  have "sum_list [1..<Suc n] + sum_list (map (\<lambda>a. Suc n - a) [1..<Suc n])
      = sum_list (map (\<lambda>a. a + (Suc n - a)) [1..<Suc n])"
    by (simp add: sum_list_addf del: upt_Suc)
  also have "\<dots> = sum_list (map (\<lambda>a. Suc n) [1..<Suc n])"
    by (intro arg_cong[where f = sum_list] map_cong) auto
  finally show ?thesis by (simp add: sum_list_triv)
qed

text \<open>The strings the negative control hashes.\<close>

definition tampered :: "(bytes \<Rightarrow> bytes) \<Rightarrow> bytes" where
  "tampered H = hashLeaf H (utf8 ''not-a-real-leaf'')"

definition self_inputs :: "(bytes \<Rightarrow> bytes) \<Rightarrow> nat \<Rightarrow> bytes list" where
  "self_inputs H n = (let D = map self_leaf [0..<n] in
     leaf_in (utf8 ''not-a-real-leaf'') # leaf_in (self_leaf 0)
       # rinputs H (tampered H) (zip (dirs 0 n) (PATH H 0 D)) @ tree_inputs H D)"

lemma tampered_rejected:
  assumes "0 < n" "n \<le> 2 ^ 30" "digest32 H" "inj_on H (set (self_inputs H n))"
  shows "verifyInclusion H (toHex (tampered H))
    \<lparr>leaf_index = 0, tree_size = int n, audit_path = map toHex (PATH H 0 (map self_leaf [0..<n]))\<rparr>
    (toHex (MTH H (map self_leaf [0..<n]))) = Inr False"
proof -
  let ?D = "map self_leaf [0..<n]"
  have hd: "hd ?D = self_leaf 0" using assms(1) by (simp add: hd_map upt_rec)
  have "leaf_in (utf8 ''not-a-real-leaf'') \<noteq> leaf_in (self_leaf 0)"
    by (simp add: leaf_in_def self_leaf_def)
  then have ne: "tampered H \<noteq> H (leaf_in (hd ?D))"
    using inj_onD[OF assms(4), of "leaf_in (utf8 ''not-a-real-leaf'')" "leaf_in (self_leaf 0)"] hd
    by (auto simp: tampered_def hashLeaf_spec self_inputs_def Let_def)
  show ?thesis
    using audit_path_forged[of ?D H "tampered H", OF _ _ assms(3) _ ne assms(4)] assms
    by (auto simp: self_inputs_def Let_def tampered_def hashLeaf_spec digest32_def)
qed

text \<open>The built-in self test passes.  For every tree size up to \<open>2^30\<close> it runs \<open>N * (N + 1) + 3\<close>
  checks and reports no failure, provided the digest is 32 bytes long and no two of the strings
  hashed for the tree and for the tampered proof collide (the negative control needs this).\<close>

theorem selfTest_passes:
  assumes "0 < n" "n \<le> 2 ^ 30" "digest32 H" "inj_on H (set (self_inputs H n))"
  shows "selfTest H n = Inr \<lparr>ok = True, checks = n * Suc n + 3, failures = []\<rparr>"
proof -
  let ?D = "map self_leaf [0..<n]"
  have l0: "newTransparencyLog ''t'' [] = self_log 0" by (simp add: self_log_def)
  have c: "foldE (self_consistency H (self_log n) n) (c, []) [Suc 0..<Suc n] =
      Inr (c + sum_list (map (\<lambda>a. Suc n - a) [Suc 0..<Suc n]), [])" for c
    by (rule foldE_checks) (use assms(2) self_consistency_passes[of _ n H] in auto)
  have b: "currentRootHex H (newTransparencyLog ''t'' [self_leaf 0]) = Inr (toHex (hashLeaf H (self_leaf 0)))"
    "currentRootHex H (self_log 0) = Inr (toHex (sha256 H []))"
    by (simp_all add: currentRootHex_eq newTransparencyLog_def hashLeaf_spec sha256_def)
  have p: "inclusionProof H (self_log n) 0 (int n) =
      Inr \<lparr>leaf_index = 0, tree_size = int n, audit_path = map toHex (PATH H 0 ?D)\<rparr>"
    "rootAtHex H (self_log n) (int n) = Inr (toHex (MTH H ?D))"
    using assms by (simp_all add: log_method_eqs)
  show ?thesis
    using assms(1) tampered_rejected[OF assms] sum_list_checks[of n]
      self_inclusions_pass[OF assms(2), of H "Suc (Suc 0)"]
    by (simp add: selfTest_def l0 b c p self_check_def[of True] tampered_def del: upt_Suc)
qed

theorem selfTest_passes_witness:
  "selfTest pad32 1 = Inr \<lparr>ok = True, checks = 5, failures = []\<rparr>"
proof -
  have d: "dirs 0 (Suc 0) = []" by (simp add: dirs.simps)
  have t: "tree_inputs pad32 [x] = [leaf_in x]" for x by (subst tree_inputs.simps) simp
  have "inj_on pad32 (set (self_inputs pad32 1))"
    by (simp add: self_inputs_def Let_def d t inj_on_def pad32_def leaf_in_def self_leaf_def[of 0]
        utf8_def js_num.simps byte_of_char_def)
  then show ?thesis using selfTest_passes[of 1 pad32] by (simp add: digest32_def)
qed

end
