(* ===== verification/AurumVerifier.thy ===== *)
theory AurumVerifier
  imports TransparencyLog
begin

text \<open>
  The offline verifier of the client SDK (\<open>sdk/aurum/typescript/src/verifier.ts\<close>): its own
  hexadecimal decoder, RFC 6962 hashing, the two RFC 9162 verification loops on unsigned 32-bit
  shifts, and the check that a tree head is the one anchored on chain.  Where the source catches
  an exception and answers \<open>false\<close>, the model does so too.  Tree sizes are \<open>int\<close>s, so the
  \<open>Number.isInteger\<close> guards hold by typing.  SHA-256 is the parameter \<open>H\<close>, the JSON-RPC endpoint a
  parameter \<open>rpc\<close>.  The results say that this verifier accepts what the log produces, that what it
  accepts is the log's own prefix, and how it differs from the verifier of the service.
\<close>

subsection \<open>Hexadecimal and bytes\<close>

text \<open>The loop of \<open>hexToBytes\<close>; storing into a \<open>Uint8Array\<close> reduces modulo 256.\<close>

fun hex_pairs :: "nat \<Rightarrow> string \<Rightarrow> bytes js" where
  "hex_pairs i (a # b # s) = (case parseInt16 [a, b] of
       None \<Rightarrow> Inl (PlainError (''hexToBytes: invalid hex at byte '' @ js_num i))
     | Some v \<Rightarrow> bindE (hex_pairs (Suc i) s) (\<lambda>bs. Inr (word_of_int v # bs)))"
| "hex_pairs i s = Inr []"

definition hexToBytes :: "string \<Rightarrow> bytes js" where
  "hexToBytes hex = (let h = strip_0x hex in
     if length h mod 2 \<noteq> 0
     then Inl (PlainError (''hexToBytes: odd-length hex string ('' @ js_num (length hex) @ '' chars)''))
     else hex_pairs 0 h)"

definition bytesToHex :: "bytes \<Rightarrow> string" where
  "bytesToHex bs = ''0x'' @ concat (map (\<lambda>b. padStart 2 CHR ''0'' (toString16 (unat b))) bs)"

datatype HashInput = HexIn string | BytesIn bytes

fun toBytes :: "HashInput \<Rightarrow> bytes js" where
  "toBytes (HexIn s) = hexToBytes s"
| "toBytes (BytesIn b) = Inr b"

definition bytesEqual :: "bytes \<Rightarrow> bytes \<Rightarrow> bool" where
  "bytesEqual a b \<longleftrightarrow>
     (if length a \<noteq> length b then False
      else foldl (\<lambda>diff (x, y). diff OR (x XOR y)) 0 (zip a b) = 0)"

lemma xor_zero_iff: "x XOR y = 0 \<longleftrightarrow> x = (y :: byte)"
  by (metis xor.assoc xor.left_neutral xor.right_neutral xor_self_eq)

lemma or_fold_zero:
  "foldl (\<lambda>diff (x, y). diff OR (x XOR y)) d zs = (0 :: byte) \<longleftrightarrow>
     d = 0 \<and> (\<forall>z\<in>set zs. fst z = snd z)"
proof (induction zs arbitrary: d)
  case (Cons z zs)
  then show ?case by (cases z) (simp add: or_eq_0_iff xor_zero_iff)
qed simp

lemma bytesEqual_iff [simp]: "bytesEqual a b \<longleftrightarrow> a = b"
proof (cases "length a = length b")
  case True
  then show ?thesis
    by (auto simp: bytesEqual_def or_fold_zero set_zip list_eq_iff_nth_eq)
qed (auto simp: bytesEqual_def)

subsection \<open>Hashing\<close>

definition sdk_sha256 :: "(bytes \<Rightarrow> bytes) \<Rightarrow> bytes \<Rightarrow> bytes" where
  "sdk_sha256 H data = H data"

definition leafHash :: "(bytes \<Rightarrow> bytes) \<Rightarrow> HashInput \<Rightarrow> bytes js" where
  "leafHash H leafData = bindE (toBytes leafData) (\<lambda>d. Inr (sdk_sha256 H (0 # d)))"

text \<open>\<open>nodeHash\<close> is only called on bytes inside the verifier; on bytes its \<open>toBytes\<close> calls return
  their argument.\<close>

definition nodeHash :: "(bytes \<Rightarrow> bytes) \<Rightarrow> HashInput \<Rightarrow> HashInput \<Rightarrow> bytes js" where
  "nodeHash H left right =
     bindE (toBytes left) (\<lambda>l. bindE (toBytes right) (\<lambda>r. Inr (sdk_sha256 H (1 # l @ r))))"

lemma nodeHash_bytes [simp]: "nodeHash H (BytesIn l) (BytesIn r) = Inr (H (node_in l r))"
  by (simp add: nodeHash_def sdk_sha256_def node_in_def)

subsection \<open>Inclusion\<close>

lemma js_shr1_range: "0 \<le> js_shr1 a" "js_shr1 a < 2 ^ 31"
proof -
  let ?u = "uint (word_of_int a :: 32 word)"
  have e: "js_shr1 a = js_shr1 ?u" by (simp only: js_shr1_def word_of_int_uint)
  have "0 \<le> ?u" "?u < 2 ^ 32" using uint_lt2p[of "word_of_int a :: 32 word"] by simp_all
  then show "0 \<le> js_shr1 a" "js_shr1 a < 2 ^ 31" unfolding e by (simp_all add: js_shr1_div)
qed

text \<open>\<open>do { fn >>>= 1; sn >>>= 1; } while ((fn & 1) === 0 && fn !== 0);\<close>\<close>

function shr_until :: "int \<Rightarrow> int \<Rightarrow> int \<times> int" where
  "shr_until fn sn = (let fn' = js_shr1 fn; sn' = js_shr1 sn in
     if js_and fn' 1 = 0 \<and> fn' \<noteq> 0 then shr_until fn' sn' else (fn', sn'))"
  by pat_completeness auto
termination
proof (relation "measure (\<lambda>(fn, sn). if 0 \<le> fn \<and> fn < 2 ^ 32 then nat fn else 2 ^ 33)", goal_cases)
  case (2 fn sn x xa)
  then show ?case using js_shr1_range[of fn] by (auto simp: js_shr1_div)
qed simp

text \<open>\<open>while ((fn & 1) === 1) { fn >>>= 1; sn >>>= 1; }\<close>\<close>

function shr_ones :: "int \<Rightarrow> int \<Rightarrow> int \<times> int" where
  "shr_ones fn sn = (if js_and fn 1 = 1 then shr_ones (js_shr1 fn) (js_shr1 sn) else (fn, sn))"
  by pat_completeness auto
termination
proof (relation "measure (\<lambda>(fn, sn). if 0 \<le> fn \<and> fn < 2 ^ 32 then nat fn else 2 ^ 33)", goal_cases)
  case (2 fn sn)
  then show ?case using js_shr1_range[of fn] by (cases "fn = 0") (auto simp: js_shr1_div js_and_one)
qed simp

declare shr_until.simps [simp del] shr_ones.simps [simp del]

text \<open>The \<open>for\<close> loop over the audit path, then the final comparison.\<close>

fun audit_loop ::
  "(bytes \<Rightarrow> bytes) \<Rightarrow> int \<Rightarrow> int \<Rightarrow> bytes \<Rightarrow> HashInput list \<Rightarrow> HashInput \<Rightarrow> bool js" where
  "audit_loop H fn sn r [] root =
     (if sn = 0 then bindE (toBytes root) (\<lambda>b. Inr (bytesEqual r b)) else Inr False)"
| "audit_loop H fn sn r (p # ps) root =
     bindE (toBytes p) (\<lambda>pb.
       if sn = 0 then Inr False
       else if js_and fn 1 = 1 \<or> fn = sn then
         bindE (nodeHash H (BytesIn pb) (BytesIn r)) (\<lambda>r'.
           let (fn', sn') = (if js_and fn 1 = 0 then shr_until fn sn else (fn, sn))
           in audit_loop H (js_shr1 fn') (js_shr1 sn') r' ps root)
       else
         bindE (nodeHash H (BytesIn r) (BytesIn pb)) (\<lambda>r'.
           audit_loop H (js_shr1 fn) (js_shr1 sn) r' ps root))"

definition catch_false :: "bool js \<Rightarrow> bool" where
  "catch_false m = (case m of Inl _ \<Rightarrow> False | Inr b \<Rightarrow> b)"

lemma catch_false_simps [simp]: "catch_false (Inl e) = False" "catch_false (Inr b) = b"
  by (simp_all add: catch_false_def)

definition sdk_verifyInclusion ::
  "(bytes \<Rightarrow> bytes) \<Rightarrow> HashInput \<Rightarrow> InclusionProof \<Rightarrow> HashInput \<Rightarrow> bool" where
  "sdk_verifyInclusion H leafHashInput pf root =
     (if tree_size pf \<le> 0 \<or> leaf_index pf < 0 \<or> leaf_index pf \<ge> tree_size pf then False
      else catch_false (bindE (toBytes leafHashInput) (\<lambda>r.
        audit_loop H (leaf_index pf) (tree_size pf - 1) r (map HexIn (audit_path pf)) root)))"

subsection \<open>Consistency\<close>

definition isPowerOfTwo :: "int \<Rightarrow> bool" where
  "isPowerOfTwo n = (n > 0 \<and> js_and n (n - 1) = 0)"

fun nodes_loop ::
  "(bytes \<Rightarrow> bytes) \<Rightarrow> int \<Rightarrow> int \<Rightarrow> bytes \<Rightarrow> bytes \<Rightarrow> bytes list \<Rightarrow> (int \<times> bytes \<times> bytes) option" where
  "nodes_loop H fn sn fr sr [] = Some (sn, fr, sr)"
| "nodes_loop H fn sn fr sr (c # nodes) =
     (if sn = 0 then None
      else if js_and fn 1 = 1 \<or> fn = sn then
        (let fr' = sdk_sha256 H (1 # c @ fr); sr' = sdk_sha256 H (1 # c @ sr);
             (fn', sn') = (if js_and fn 1 = 0 then shr_until fn sn else (fn, sn))
         in nodes_loop H (js_shr1 fn') (js_shr1 sn') fr' sr' nodes)
      else nodes_loop H (js_shr1 fn) (js_shr1 sn) fr (sdk_sha256 H (1 # sr @ c)) nodes)"

record TreeHead =
  th_size :: int
  th_root :: HashInput

definition sdk_verifyConsistency ::
  "(bytes \<Rightarrow> bytes) \<Rightarrow> TreeHead \<Rightarrow> TreeHead \<Rightarrow> HashInput list \<Rightarrow> bool" where
  "sdk_verifyConsistency H first second pth =
     (let firstSize = th_size first; secondSize = th_size second in
      if firstSize < 0 \<or> firstSize > secondSize then False
      else case bindE (toBytes (th_root first)) (\<lambda>f. bindE (toBytes (th_root second)) (\<lambda>s. Inr (f, s))) of
        Inl _ \<Rightarrow> False
      | Inr (firstHash, secondHash) \<Rightarrow>
        if firstSize = secondSize then pth = [] \<and> bytesEqual firstHash secondHash
        else if firstSize = 0 then False
        else case mapE toBytes pth of
          Inl _ \<Rightarrow> False
        | Inr ns \<Rightarrow>
          (case (if isPowerOfTwo firstSize then firstHash # ns else ns) of
             [] \<Rightarrow> False
           | n0 # rest \<Rightarrow>
             (let (fn, sn) = shr_ones (firstSize - 1) (secondSize - 1) in
              case nodes_loop H fn sn n0 n0 rest of
                None \<Rightarrow> False
              | Some (sn', fr, sr) \<Rightarrow> sn' = 0 \<and> bytesEqual fr firstHash \<and> bytesEqual sr secondHash)))"

subsection \<open>The on-chain anchor check\<close>

definition ANCHORS_SELECTOR :: string where "ANCHORS_SELECTOR = ''0x368b733e''"
definition WORD_MERKLE_ROOT :: nat where "WORD_MERKLE_ROOT = 0"
definition WORD_EVENT_COUNT :: nat where "WORD_EVENT_COUNT = 4"

record SdkAnchor =
  an_chainId :: "int option"
  an_txHash :: "string option"
  an_onChainId :: "string option"
  an_contract :: "string option"

record SdkSTH =
  st_log_id :: "string option"
  st_tree_size :: int
  st_root_hash :: string
  st_timestamp :: "string option"
  st_anchor :: "SdkAnchor option"

text \<open>
  The outcome of the one \<open>fetch\<close>: it rejects, the status is not 2xx, the body is no JSON, the body
  is the JSON value \<open>null\<close>, or it is another value with its truthiness of \<open>error\<close> and its \<open>result\<close>
  when that is a string.
\<close>

datatype RpcReply = FetchRejects | HttpNotOk | BodyNotJson | BodyNull
  | Body (body_error: bool) (body_result: "string option")

definition bigint_toString16 :: "int \<Rightarrow> string" where
  "bigint_toString16 v = (if v < 0 then CHR ''-'' # toString16 (nat (- v)) else toString16 (nat v))"

definition toWord :: "int \<Rightarrow> string" where
  "toWord v = padStart 64 CHR ''0'' (bigint_toString16 v)"

definition wordAt :: "string \<Rightarrow> nat \<Rightarrow> string" where
  "wordAt hexResult index =
     (let body = (if starts_with ''0x'' hexResult then drop 2 hexResult else hexResult)
      in take 64 (drop (index * 64) body))"

text \<open>The comparison of the two words with the tree head; \<open>false\<close> for every decoding failure.\<close>

definition words_match :: "SdkSTH \<Rightarrow> string \<Rightarrow> bool" where
  "words_match sth res =
     (let merkleRootWord = wordAt res WORD_MERKLE_ROOT; eventCountWord = wordAt res WORD_EVENT_COUNT in
      if length merkleRootWord \<noteq> 64 \<or> length eventCountWord \<noteq> 64 then False
      else if list_all (\<lambda>c. c = CHR ''0'') merkleRootWord then False
      else case bindE (hexToBytes merkleRootWord) (\<lambda>a.
                bindE (toBytes (HexIn (st_root_hash sth))) (\<lambda>b. Inr (a, b))) of
        Inl _ \<Rightarrow> False
      | Inr (onChainRoot, expectedRoot) \<Rightarrow>
        if \<not> bytesEqual onChainRoot expectedRoot then False
        else (case BigInt (''0x'' @ eventCountWord) of None \<Rightarrow> False
              | Some onChainEventCount \<Rightarrow> onChainEventCount = st_tree_size sth))"

text \<open>\<open>rpc url contract data\<close> is the reply to the \<open>eth_call\<close>; \<open>None\<close> when there is no \<open>fetch\<close>.\<close>

definition verifySthAnchored ::
  "(string \<Rightarrow> string \<Rightarrow> string \<Rightarrow> RpcReply) option \<Rightarrow> string \<Rightarrow> SdkSTH \<Rightarrow> bool js" where
  "verifySthAnchored fetchImpl rpcReadUrl sth =
     (case Option.bind (st_anchor sth) an_contract of None \<Rightarrow> Inr False | Some contract \<Rightarrow>
      case Option.bind (st_anchor sth) an_onChainId of None \<Rightarrow> Inr False | Some onChainId \<Rightarrow>
      if contract = [] then Inr False
      else case fetchImpl of
        None \<Rightarrow> Inl (PlainError ''verifySthAnchored: no fetch available (Node 18+ or pass opts.fetch)'')
      | Some rpc \<Rightarrow>
        (case BigInt onChainId of None \<Rightarrow> Inr False | Some anchorId \<Rightarrow>
         (case rpc rpcReadUrl contract (ANCHORS_SELECTOR @ toWord anchorId) of
            FetchRejects \<Rightarrow> Inr False
          | HttpNotOk \<Rightarrow> Inr False
          | BodyNotJson \<Rightarrow> Inr False
          | BodyNull \<Rightarrow> Inl TypeError
          | Body err res \<Rightarrow>
            if err then Inr False
            else (case res of None \<Rightarrow> Inr False | Some r \<Rightarrow> Inr (words_match sth r)))))"

subsection \<open>Decoding what the service encodes\<close>

lemma hex_pairs_hex_of [simp]: "hex_pairs i (hex_of bs) = Inr bs"
  by (induction bs arbitrary: i) simp_all

lemma bytesToHex_eq: "bytesToHex bs = ''0x'' @ hex_of bs"
  unfolding bytesToHex_def by (induction bs) (simp_all add: pad_byte)

lemma hexToBytes_toHex [simp]: "hexToBytes (toHex bs) = Inr bs"
  by (simp add: hexToBytes_def toHex_def strip_0x_def starts_with_def Let_def)

lemma hexToBytes_bytesToHex [simp]: "hexToBytes (bytesToHex bs) = Inr bs"
  using hexToBytes_toHex[of bs] by (simp add: bytesToHex_eq toHex_def)

lemma mapE_toBytes_toHex [simp]: "mapE toBytes (map (\<lambda>b. HexIn (toHex b)) bs) = Inr bs"
  by (induction bs) simp_all

subsection \<open>The loops follow the RFC 9162 walk\<close>

lemma js_shr1_of_nat: "n < 2 ^ 32 \<Longrightarrow> js_shr1 (int n) = int (n div 2)"
  by (simp add: js_shr1_div zdiv_int)

lemmas shr_nat_simps = js_shr1_of_nat js_odd

lemma shr_until_strip:
  "fn < 2 ^ 32 \<Longrightarrow> sn < 2 ^ 32 \<Longrightarrow> shr_until (int fn) (int sn) =
     (int (fst (strip (fn div 2) (sn div 2))), int (snd (strip (fn div 2) (sn div 2))))"
proof (induction fn arbitrary: sn rule: less_induct)
  case (less fn)
  show ?case
  proof (cases "even (fn div 2) \<and> fn div 2 \<noteq> 0")
    case True
    then have "fn div 2 < fn" by auto
    with True less.prems less.IH[of "fn div 2" "sn div 2"] show ?thesis
      by (subst shr_until.simps) (simp add: shr_nat_simps strip_even)
  next
    case False
    then show ?thesis
      using less.prems
      by (subst shr_until.simps, subst (1 2) strip.simps) (auto simp: shr_nat_simps)
  qed
qed

lemma shr_ones_strip1:
  "fn < 2 ^ 32 \<Longrightarrow> sn < 2 ^ 32 \<Longrightarrow>
     shr_ones (int fn) (int sn) = (int (fst (strip1 fn sn)), int (snd (strip1 fn sn)))"
proof (induction fn sn rule: strip1.induct)
  case (1 fn sn)
  then show ?case
    by (subst shr_ones.simps, cases "odd fn") (simp_all add: shr_nat_simps strip1_odd)
qed

text \<open>One left-hand step of either loop.\<close>

lemma shr_left_step:
  assumes "fn < 2 ^ 32" "sn < 2 ^ 32" "odd fn \<or> fn = sn" "sn \<noteq> 0"
  shows "(if js_and (int fn) 1 = 0 then shr_until (int fn) (int sn) else (int fn, int sn)) =
      (int (fst (strip fn sn)), int (snd (strip fn sn)))"
    and "fst (strip fn sn) < 2 ^ 32" "snd (strip fn sn) < 2 ^ 32"
    and "dirs_loop fn sn = True # dirs_loop (fst (strip fn sn) div 2) (snd (strip fn sn) div 2)"
proof -
  show "(if js_and (int fn) 1 = 0 then shr_until (int fn) (int sn) else (int fn, int sn)) =
      (int (fst (strip fn sn)), int (snd (strip fn sn)))"
  proof (cases "odd fn")
    case False
    with assms have "strip fn sn = strip (fn div 2) (sn div 2)" by (intro strip_even) auto
    with False assms show ?thesis by (simp add: js_odd shr_until_strip)
  qed (simp add: js_odd)
  show "fst (strip fn sn) < 2 ^ 32" "snd (strip fn sn) < 2 ^ 32"
    using strip_bounds(1)[of fn sn] snd_strip_le[of fn sn] assms by linarith+
  show "dirs_loop fn sn = True # dirs_loop (fst (strip fn sn) div 2) (snd (strip fn sn) div 2)"
    using assms by (simp add: dirs_loop.simps[of fn sn])
qed

lemma audit_loop_eq:
  "mapE toBytes ps = Inr bs \<Longrightarrow> fn < 2 ^ 32 \<Longrightarrow> sn < 2 ^ 32 \<Longrightarrow>
     audit_loop H (int fn) (int sn) r ps root =
       (if length bs = length (dirs_loop fn sn)
        then bindE (toBytes root) (\<lambda>b. Inr (recompute H r (zip (dirs_loop fn sn) bs) = b)) else Inr False)"
proof (induction ps arbitrary: bs fn sn r)
  case Nil
  then show ?case by (subst (1 2) dirs_loop.simps) auto
next
  case (Cons p ps)
  then obtain c cs where c: "toBytes p = Inr c" "mapE toBytes ps = Inr cs" "bs = c # cs"
    by (auto simp: bindE_Inr_iff)
  consider (zero) "sn = 0" | (left) "sn \<noteq> 0" "odd fn \<or> fn = sn" | (right) "sn \<noteq> 0" "even fn" "fn \<noteq> sn"
    by blast
  then show ?case
  proof cases
    case zero
    with c show ?thesis by simp
  next
    case left
    note s = shr_left_step[OF Cons.prems(2,3) left(2,1)]
    show ?thesis
      using left c s Cons.IH[OF c(2), of "fst (strip fn sn) div 2" "snd (strip fn sn) div 2" "H (node_in c r)"]
      by (simp add: shr_nat_simps pre_def)
  next
    case right
    then show ?thesis
      using c Cons.prems Cons.IH[OF c(2), of "fn div 2" "sn div 2" "H (node_in r c)"]
      by (simp add: shr_nat_simps pre_def dirs_loop_even)
  qed
qed

lemma audit_loop_parses:
  "audit_loop H fn sn r ps root = Inr True \<Longrightarrow> \<exists>bs. mapE toBytes ps = Inr bs"
proof (induction H fn sn r ps root rule: audit_loop.induct)
  case (2 H fn sn r p ps root)
  from "2.prems" obtain c where c: "sn \<noteq> 0" "toBytes p = Inr c"
    by (auto simp: bindE_Inr_iff split: if_splits)
  have "\<exists>bs. mapE toBytes ps = Inr bs"
  proof (cases "js_and fn 1 = 1 \<or> fn = sn")
    case True
    obtain fn' sn' where s: "(if js_and fn 1 = 0 then shr_until fn sn else (fn, sn)) = (fn', sn')"
      by (cases "if js_and fn 1 = 0 then shr_until fn sn else (fn, sn)") blast
    with True c "2.prems" show ?thesis using "2.IH"(1)[OF c(1) True s[symmetric] refl] by simp
  next
    case False
    with c "2.prems" show ?thesis using "2.IH"(2)[OF c(1) False] by simp
  qed
  with c show ?case by auto
qed simp

lemma sdk_verifyInclusion_iff:
  assumes "0 \<le> leaf_index pf" "leaf_index pf < tree_size pf" "tree_size pf \<le> 2 ^ 32"
  shows "sdk_verifyInclusion H leafIn pf root \<longleftrightarrow>
    (\<exists>r bs b. toBytes leafIn = Inr r \<and> mapE toBytes (map HexIn (audit_path pf)) = Inr bs \<and>
       toBytes root = Inr b \<and>
       length bs = length (dirs (nat (leaf_index pf)) (nat (tree_size pf))) \<and>
       recompute H r (zip (dirs (nat (leaf_index pf)) (nat (tree_size pf))) bs) = b)"
proof -
  let ?m = "nat (leaf_index pf)" and ?n = "nat (tree_size pf)"
  have b: "?m < 2 ^ 32" "?n - 1 < 2 ^ 32" "?m < ?n" using assms by auto
  have i: "int ?m = leaf_index pf" "int (?n - 1) = tree_size pf - 1" using assms by auto
  have e: "audit_loop H (leaf_index pf) (tree_size pf - 1) r (map HexIn (audit_path pf)) root =
       (if length bs = length (dirs ?m ?n)
        then bindE (toBytes root) (\<lambda>b. Inr (recompute H r (zip (dirs ?m ?n) bs) = b)) else Inr False)"
    if "mapE toBytes (map HexIn (audit_path pf)) = Inr bs" for r bs
    using audit_loop_eq[OF that b(1,2), of H r root] dirs_loop_dirs[OF b(3)] unfolding i by simp
  have c: "catch_false x \<longleftrightarrow> x = Inr True" for x by (cases x) auto
  show ?thesis
  proof
    assume "sdk_verifyInclusion H leafIn pf root"
    then obtain r where r: "toBytes leafIn = Inr r"
      "audit_loop H (leaf_index pf) (tree_size pf - 1) r (map HexIn (audit_path pf)) root = Inr True"
      using assms by (auto simp: sdk_verifyInclusion_def c bindE_Inr_iff)
    from audit_loop_parses[OF r(2)] obtain bs where "mapE toBytes (map HexIn (audit_path pf)) = Inr bs" ..
    with e[OF this] r show "\<exists>r bs b. toBytes leafIn = Inr r \<and> mapE toBytes (map HexIn (audit_path pf)) = Inr bs \<and>
       toBytes root = Inr b \<and> length bs = length (dirs ?m ?n) \<and> recompute H r (zip (dirs ?m ?n) bs) = b"
      by (auto simp: bindE_Inr_iff split: if_splits)
  next
    assume "\<exists>r bs b. toBytes leafIn = Inr r \<and> mapE toBytes (map HexIn (audit_path pf)) = Inr bs \<and>
       toBytes root = Inr b \<and> length bs = length (dirs ?m ?n) \<and> recompute H r (zip (dirs ?m ?n) bs) = b"
    with e assms show "sdk_verifyInclusion H leafIn pf root"
      by (auto simp: sdk_verifyInclusion_def)
  qed
qed

lemma nodes_loop_eq:
  "fn < 2 ^ 32 \<Longrightarrow> sn < 2 ^ 32 \<Longrightarrow>
     nodes_loop H (int fn) (int sn) fr sr nodes =
       (if length nodes \<le> length (dirs_loop fn sn)
        then Some (int (snd (walk_end fn sn (length nodes))),
               recompute H fr (filter fst (zip (dirs_loop fn sn) nodes)),
               recompute H sr (zip (dirs_loop fn sn) nodes))
        else None)"
proof (induction nodes arbitrary: fn sn fr sr)
  case (Cons c nodes)
  consider (zero) "sn = 0" | (left) "sn \<noteq> 0" "odd fn \<or> fn = sn" | (right) "sn \<noteq> 0" "even fn" "fn \<noteq> sn"
    by blast
  then show ?case
  proof cases
    case left
    note s = shr_left_step[OF Cons.prems left(2,1)]
    show ?thesis
      using left s Cons.IH[of "fst (strip fn sn) div 2" "snd (strip fn sn) div 2"
          "H (node_in c fr)" "H (node_in c sr)"]
      by (simp add: shr_nat_simps pre_def sdk_sha256_def node_in_def)
  next
    case right
    then show ?thesis
      using Cons.prems Cons.IH[of "fn div 2" "sn div 2" fr "H (node_in sr c)"]
      by (simp add: shr_nat_simps pre_def dirs_loop_even sdk_sha256_def node_in_def)
  qed simp
qed simp

text \<open>What acceptance of a consistency proof means.\<close>

definition sdk_nodes :: "nat \<Rightarrow> bytes \<Rightarrow> bytes list \<Rightarrow> bytes list" where
  "sdk_nodes m f bs = (if pow2 m then f # bs else bs)"

lemma sdk_verifyConsistency_iff:
  assumes "0 < m" "m < n" "n \<le> 2 ^ 31"
    and "toBytes f = Inr fb" "toBytes s = Inr sb"
  shows "sdk_verifyConsistency H \<lparr>th_size = int m, th_root = f\<rparr> \<lparr>th_size = int n, th_root = s\<rparr> pth \<longleftrightarrow>
    (\<exists>bs n0 rest. mapE toBytes pth = Inr bs \<and> sdk_nodes m fb bs = n0 # rest
       \<and> length rest = length (cdirs m n)
       \<and> recompute H n0 (filter fst (zip (cdirs m n) rest)) = fb
       \<and> recompute H n0 (zip (cdirs m n) rest) = sb)"
proof -
  obtain fn sn where st: "strip1 (m - 1) (n - 1) = (fn, sn)" by (cases "strip1 (m - 1) (n - 1)") blast
  have i: "int m - 1 = int (m - 1)" "int n - 1 = int (n - 1)" using assms by auto
  have w: "shr_ones (int m - 1) (int n - 1) = (int fn, int sn)"
    unfolding i using shr_ones_strip1[of "m - 1" "n - 1"] st assms by simp
  have d: "dirs_loop fn sn = cdirs m n"
    using walk1_cdirs[of m n] assms st by (simp add: walk1_def pow2_def)
  have b: "fn < 2 ^ 32" "sn < 2 ^ 32"
    using strip1_bounds[where fn = "m - 1" and sn = "n - 1"] st assms by auto
  have p: "isPowerOfTwo (int m) \<longleftrightarrow> pow2 m" using assms js_and_pow2[of m] by (auto simp: isPowerOfTwo_def)
  have z: "(case nodes_loop H (int fn) (int sn) n0 n0 rest of None \<Rightarrow> False
       | Some (sn', fr, sr) \<Rightarrow> sn' = 0 \<and> fr = fb \<and> sr = sb) \<longleftrightarrow>
      length rest = length (cdirs m n) \<and> recompute H n0 (filter fst (zip (cdirs m n) rest)) = fb
      \<and> recompute H n0 (zip (cdirs m n) rest) = sb" for n0 rest
    using walk_end_zero_iff[of "length rest" fn sn]
    by (auto simp: nodes_loop_eq[OF b] d)
  have e: "sdk_verifyConsistency H \<lparr>th_size = int m, th_root = f\<rparr> \<lparr>th_size = int n, th_root = s\<rparr> pth =
      (case mapE toBytes pth of Inl _ \<Rightarrow> False
       | Inr ns \<Rightarrow> (case (if isPowerOfTwo (int m) then fb # ns else ns) of [] \<Rightarrow> False
          | n0 # rest \<Rightarrow> (let (fn, sn) = shr_ones (int m - 1) (int n - 1) in
              case nodes_loop H fn sn n0 n0 rest of None \<Rightarrow> False
              | Some (sn', fr, sr) \<Rightarrow> sn' = 0 \<and> bytesEqual fr fb \<and> bytesEqual sr sb)))"
    using assms(1,2) by (simp add: sdk_verifyConsistency_def assms(4,5) Let_def split del: if_split)
  show ?thesis
  proof (cases "mapE toBytes pth")
    case (Inr ns)
    with p z w show ?thesis
      by (cases "sdk_nodes m fb ns") (simp_all add: e[unfolded bytesEqual_iff] sdk_nodes_def split del: if_split)
  qed (simp add: e)
qed

subsection \<open>The two verifiers compared\<close>

lemma hexToBytes_lenient:
  "hexToBytes ''1g'' = Inr [1]" "hexToBytes ''0x-1'' = Inr [255]" "buffer_from_hex ''1g'' = []"
  by code_simp+

lemma empty_tree_disagreement:
  "verifyConsistency H 0 f n s pth = Inr True"
  "0 < th_size second \<Longrightarrow> \<not> sdk_verifyConsistency H \<lparr>th_size = 0, th_root = r\<rparr> second pth'"
  by (auto simp: verifyConsistency_def sdk_verifyConsistency_def Let_def split: sum.splits)

lemma sdk_nodes_Cons: "cons_range m (length D) \<Longrightarrow>
    sdk_nodes m (MTH H (take m D)) (SUBPROOF H m D True) = SUBPROOF H m D False"
  using SUBPROOF_True[of m D H] SUBPROOF_not_Nil[of m D H]
  by (cases "SUBPROOF H m D False"; cases "pow2 m") (simp_all add: sdk_nodes_def)

lemma mapE_fromHex_HexIn: "mapE toBytes (map HexIn (map toHex bs)) = Inr bs"
  by (induction bs) simp_all

lemma sdk_path_accepted:
  assumes "0 < m" "m < n" "n \<le> length ls" "n \<le> 2 ^ 31"
  shows "sdk_verifyConsistency H
    \<lparr>th_size = int m, th_root = HexIn (toHex (MTH H (take m ls)))\<rparr>
    \<lparr>th_size = int n, th_root = HexIn (toHex (MTH H (take n ls)))\<rparr>
    (map HexIn (map toHex (SUBPROOF H m (take n ls) True)))"
proof -
  let ?D = "take n ls"
  have c: "cons_range m (length ?D)" and D: "length ?D = n" and tk: "take m ?D = take m ls"
    using assms by (auto simp: min_def)
  obtain x xs where N: "SUBPROOF H m ?D False = x # xs"
    using SUBPROOF_not_Nil[OF c, of H] by (cases "SUBPROOF H m ?D False") auto
  show ?thesis
    using SUBPROOF_correct[OF c, of H] length_SUBPROOF[OF c, of H] sdk_nodes_Cons[OF c, of H] N D tk assms
    by (subst sdk_verifyConsistency_iff) (auto simp: mapE_fromHex_HexIn simp del: list.map_comp map_map)
qed

text \<open>The two hexadecimal codecs agree on what either of them writes.  The text the SDK writes for a
  byte string is the text the service writes, and both decoders read the byte string back.\<close>

theorem hex_codecs_roundtrip:
  "bytesToHex b = toHex b \<and> hexToBytes (bytesToHex b) = Inr b \<and> fromHex (bytesToHex b) = Inr b"
  proof -
  have "bytesToHex b = toHex b" unfolding bytesToHex_eq toHex_def ..
  then show ?thesis by simp
qed

text \<open>The two inclusion verifiers agree.  For tree sizes up to \<open>2^31\<close> the SDK accepts a leaf hash, an
  audit path and a root exactly when the verifier of the service does.\<close>

theorem inclusion_verifiers_agree:
  assumes "0 \<le> m" "m < n" "n \<le> 2 ^ 31"
  shows "sdk_verifyInclusion H (HexIn (toHex r)) \<lparr>leaf_index = m, tree_size = n, audit_path = map toHex bs\<rparr>
      (HexIn (toHex root)) \<longleftrightarrow>
    verifyInclusion H (toHex r) \<lparr>leaf_index = m, tree_size = n, audit_path = map toHex bs\<rparr> (toHex root)
      = Inr True"
  using assms
  by (simp add: sdk_verifyInclusion_iff verifyInclusion_iff mapE_fromHex_HexIn del: map_map)

theorem inclusion_verifiers_agree_witness:
  "sdk_verifyInclusion pad32 (HexIn (toHex [7])) \<lparr>leaf_index = 2, tree_size = 5, audit_path = map toHex [[1], [2], [3]]\<rparr>
      (HexIn (toHex [9])) \<longleftrightarrow>
    verifyInclusion pad32 (toHex [7]) \<lparr>leaf_index = 2, tree_size = 5, audit_path = map toHex [[1], [2], [3]]\<rparr> (toHex [9])
      = Inr True"
  by (rule inclusion_verifiers_agree) simp_all

text \<open>The SDK's consistency verifier is the service's with the missing length test.  For sizes
  \<open>0 < m < n \<le> 2^31\<close> it accepts exactly the proofs the service accepts that also have the full
  length RFC 6962 prescribes, so everything the SDK accepts the service accepts.\<close>

theorem consistency_verifiers_compared:
  assumes "0 < m" "m < n" "n \<le> 2 ^ 31"
  shows "sdk_verifyConsistency H \<lparr>th_size = int m, th_root = HexIn (toHex f)\<rparr>
      \<lparr>th_size = int n, th_root = HexIn (toHex s)\<rparr> (map HexIn (map toHex bs)) \<longleftrightarrow>
    verifyConsistency H (int m) (toHex f) (int n) (toHex s) (map toHex bs) = Inr True
      \<and> length (sdk_nodes m f bs) = Suc (length (cdirs m n))"
proof (cases "length (sdk_nodes m f bs) = Suc (length (cdirs m n))")
  case True
  then obtain n0 rest where N: "sdk_nodes m f bs = n0 # rest" "length rest = length (cdirs m n)"
    by (cases "sdk_nodes m f bs") auto
  have c: "cons_range m n" "m \<noteq> n" using assms by auto
  have p: "js_and (int m) (int m - 1) = 0 \<longleftrightarrow> pow2 m" using assms by (intro js_and_pow2) auto
  obtain fn sn where w: "shift_ones (int m - 1) (int n - 1) = Some (int fn, int sn)"
    "vc_loop H (int fn) (int sn) n0 n0 rest = Some (0, 0,
       recompute H n0 (filter fst (zip (cdirs m n) rest)), recompute H n0 (zip (cdirs m n) rest))"
    using vc_full_walk[OF c assms(3) N(2), of H n0] by blast
  have "verifyConsistency H (int m) (toHex f) (int n) (toHex s) (map toHex bs) =
      Inr (recompute H n0 (filter fst (zip (cdirs m n) rest)) = f \<and> recompute H n0 (zip (cdirs m n) rest) = s)"
    using assms p w N by (cases "pow2 m") (simp_all add: verifyConsistency_def sdk_nodes_def)
  then show ?thesis
    using True N assms by (simp add: sdk_verifyConsistency_iff mapE_fromHex_HexIn del: map_map)
next
  case False
  then show ?thesis
    using assms by (auto simp: sdk_verifyConsistency_iff mapE_fromHex_HexIn simp del: map_map)
qed

theorem consistency_verifiers_compared_witness:
  "sdk_verifyConsistency pad32 \<lparr>th_size = int 2, th_root = HexIn (toHex [5])\<rparr>
      \<lparr>th_size = int 8, th_root = HexIn (toHex [6])\<rparr> (map HexIn (map toHex [[1]])) \<longleftrightarrow>
    verifyConsistency pad32 (int 2) (toHex [5]) (int 8) (toHex [6]) (map toHex [[1]]) = Inr True
      \<and> length (sdk_nodes 2 [5] [[1]]) = Suc (length (cdirs 2 8))"
  by (rule consistency_verifiers_compared) simp_all

text \<open>What the log hands out is accepted.\<close>

lemma sdk_inclusion_accepted:
  assumes "inclusionProof H t i n = Inr pf" "leafHashHex H t i = Inr lh" "rootAtHex H t n = Inr root" "n \<le> 2 ^ 30"
  shows "sdk_verifyInclusion H (HexIn lh) pf (HexIn root)"
proof -
  let ?D = "take (nat n) (tl_leaves t)"
  have r: "0 \<le> i" "i < n" "n \<le> int (length (tl_leaves t))"
    using assms(1) by (auto simp: inclusionProof_def split: if_splits)
  then have b: "nat i < length ?D" "length ?D = nat n" by auto
  have "sdk_verifyInclusion H (HexIn (toHex (H (leaf_in (?D ! nat i)))))
      \<lparr>leaf_index = i, tree_size = n, audit_path = map toHex (PATH H (nat i) ?D)\<rparr> (HexIn (toHex (MTH H ?D)))"
    using r assms(4) PATH_correct[of "nat i" ?D H] length_PATH[of "nat i" ?D H] b
    by (subst sdk_verifyInclusion_iff) (simp_all add: mapE_fromHex_HexIn del: map_map)
  then show ?thesis
    using assms r b by (simp add: log_method_eqs treeSize_def)
qed

lemma sdk_consistency_accepted:
  assumes "consistencyProof H t m n = Inr cp" "rootAtHex H t m = Inr first" "rootAtHex H t n = Inr second"
    and "0 < m" "m \<le> n" "n \<le> int (treeSize t)" "n \<le> 2 ^ 30"
  shows "sdk_verifyConsistency H \<lparr>th_size = m, th_root = HexIn first\<rparr>
      \<lparr>th_size = n, th_root = HexIn second\<rparr> (map HexIn (consistency_path cp))"
proof (cases "m = n")
  case True
  with assms show ?thesis
    by (auto simp: rootAtHex_eq consistencyProof_def sdk_verifyConsistency_def treeSize_def)
next
  case False
  with sdk_path_accepted[of "nat m" "nat n" "tl_leaves t" H] assms show ?thesis
    by (auto simp: log_method_eqs treeSize_def simp del: map_map)
qed

text \<open>The SDK accepts what the log produces.  For every pair of sizes the log covers (up to
  \<open>2^30\<close> leaves) it accepts the log's consistency proof between the log's two roots, and for every
  leaf the log's inclusion proof.\<close>

theorem sdk_accepts_log:
  assumes "0 < m" "m \<le> n" "n \<le> int (treeSize t)" "n \<le> 2 ^ 30" "0 \<le> i" "i < n"
  shows "\<exists>cp pf lh first second. consistencyProof H t m n = Inr cp \<and> inclusionProof H t i n = Inr pf
    \<and> leafHashHex H t i = Inr lh \<and> rootAtHex H t m = Inr first \<and> rootAtHex H t n = Inr second
    \<and> sdk_verifyConsistency H \<lparr>th_size = m, th_root = HexIn first\<rparr> \<lparr>th_size = n, th_root = HexIn second\<rparr>
        (map HexIn (consistency_path cp))
    \<and> sdk_verifyInclusion H (HexIn lh) pf (HexIn second)"
proof -
  obtain cp where cp: "consistencyProof H t m n = Inr cp"
    using assms consistencyProof_eq[of m n t H] by (cases "m = n") (auto simp: consistencyProof_def treeSize_def)
  obtain pf lh first second where "inclusionProof H t i n = Inr pf" "leafHashHex H t i = Inr lh"
    "rootAtHex H t m = Inr first" "rootAtHex H t n = Inr second"
    using assms by (simp add: log_method_eqs treeSize_def)
  with cp sdk_inclusion_accepted[of H t i n pf lh second] sdk_consistency_accepted[of H t m n cp first second] assms
  show ?thesis by simp
qed

theorem sdk_accepts_log_witness:
  "\<exists>cp pf lh first second. consistencyProof pad32 (sample_log 7) 3 7 = Inr cp
    \<and> inclusionProof pad32 (sample_log 7) 6 7 = Inr pf \<and> leafHashHex pad32 (sample_log 7) 6 = Inr lh
    \<and> rootAtHex pad32 (sample_log 7) 3 = Inr first \<and> rootAtHex pad32 (sample_log 7) 7 = Inr second
    \<and> sdk_verifyConsistency pad32 \<lparr>th_size = 3, th_root = HexIn first\<rparr> \<lparr>th_size = 7, th_root = HexIn second\<rparr>
        (map HexIn (consistency_path cp))
    \<and> sdk_verifyInclusion pad32 (HexIn lh) pf (HexIn second)"
  by (rule sdk_accepts_log) (simp_all add: treeSize_def)

text \<open>The strings hashed while a consistency proof is checked.\<close>

definition consistency_inputs :: "(bytes \<Rightarrow> bytes) \<Rightarrow> nat \<Rightarrow> nat \<Rightarrow> bytes \<Rightarrow> bytes list \<Rightarrow> bytes list" where
  "consistency_inputs H m n f bs =
     (case sdk_nodes m f bs of [] \<Rightarrow> [] | n0 # rest \<Rightarrow> rinputs H n0 (zip (cdirs m n) rest))"

text \<open>C4: A consistency proof the SDK accepts proves the prefix.  If the SDK accepts a path of 32-byte
  nodes from a 32-byte root at size \<open>m\<close> to the root the log has at size \<open>n\<close>, and no two different
  strings hashed by the verifier and for the tree collide, then the old root is the root the log had
  at size \<open>m\<close>: a log that rewrites or drops a leaf cannot produce an accepted proof.\<close>

theorem sdk_consistency_sound:
  assumes "digest32 H" "0 < m" "m < n" "n \<le> treeSize t" "n \<le> 2 ^ 30"
    and "rootAtHex H t (int n) = Inr second" "length f = 32" "\<forall>b\<in>set bs. length b = 32"
    and "sdk_verifyConsistency H \<lparr>th_size = int m, th_root = HexIn (toHex f)\<rparr>
           \<lparr>th_size = int n, th_root = HexIn second\<rparr> (map HexIn (map toHex bs))"
    and "inj_on H (set (consistency_inputs H m n f bs @ tree_inputs H (take n (tl_leaves t))))"
  shows "rootAtHex H t (int m) = Inr (toHex f)"
proof -
  let ?D = "take n (tl_leaves t)"
  have D: "length ?D = n" "cons_range m (length ?D)" "take m ?D = take m (tl_leaves t)"
    using assms(2-4) by (auto simp: treeSize_def min_def)
  have sec: "second = toHex (MTH H ?D)" using assms(2-6) by (simp add: rootAtHex_eq treeSize_def)
  obtain n0 rest where N: "sdk_nodes m f bs = n0 # rest" "length rest = length (cdirs m n)"
    "recompute H n0 (filter fst (zip (cdirs m n) rest)) = f"
    "recompute H n0 (zip (cdirs m n) rest) = MTH H ?D"
    using assms(2,3,5,9) sec by (auto simp: sdk_verifyConsistency_iff mapE_fromHex_HexIn simp del: map_map)
  have l: "length n0 = 32" using N(1) assms(7,8) by (auto simp: sdk_nodes_def split: if_splits)
  have "MTH H (take m ?D) = f"
    using SUBPROOF_sound[OF assms(1) l D(2) _ _ assms(10), of rest] N D(1)
    by (simp add: consistency_inputs_def)
  then show ?thesis using assms(2-5) D(3) by (simp add: rootAtHex_eq treeSize_def)
qed

theorem sdk_consistency_sound_witness:
  "rootAtHex pad32 (sample_log 2) 1 = Inr (toHex (pad32 [0, 0]))"
proof -
  have k: "kpow 2 = 1" by (simp add: kpow.simps)
  have p: "pow2 1" unfolding pow2_def by (rule exI[of _ 0]) simp
  have d: "cdirs 1 2 = [False]" by (simp add: cdirs.simps k)
  have D: "tl_leaves (sample_log 2) = [[0], [1]]"
    by (simp add: sample_log_def newTransparencyLog_def upt_rec)
  have M: "MTH pad32 [[0], [1]] = pad32 (node_in (pad32 [0, 0]) (pad32 [0, 1]))"
    using MTH_split[of "[[0], [1]]" pad32] k by (simp add: leaf_in_def numeral_2_eq_2)
  have n: "sdk_nodes 1 (pad32 [0, 0]) [pad32 [0, 1]] = [pad32 [0, 0], pad32 [0, 1]]"
    using p by (simp add: sdk_nodes_def)
  have root: "rootAtHex pad32 (sample_log 2) (int 2) = Inr (toHex (MTH pad32 [[0], [1]]))"
    using D by (simp add: rootAtHex_eq)
  have acc: "sdk_verifyConsistency pad32 \<lparr>th_size = int 1, th_root = HexIn (toHex (pad32 [0, 0]))\<rparr>
      \<lparr>th_size = int 2, th_root = HexIn (toHex (MTH pad32 [[0], [1]]))\<rparr> (map HexIn (map toHex [pad32 [0, 1]]))"
    using n d M by (subst sdk_verifyConsistency_iff) (auto simp: pre_def)
  have tree: "tree_inputs pad32 [[0], [1]] = [node_in (pad32 [0, 0]) (pad32 [0, 1]), [0, 0], [0, 1]]"
    using tree_inputs_split[of "[[0], [1]]" pad32] k
    by (simp add: numeral_2_eq_2 leaf_in_def tree_inputs.simps[of _ "[_]"])
  have inputs: "consistency_inputs pad32 1 2 (pad32 [0, 0]) [pad32 [0, 1]] =
      [node_in (pad32 [0, 0]) (pad32 [0, 1])]"
    using n d by (simp add: consistency_inputs_def pre_def)
  have inj: "inj_on pad32 (set (consistency_inputs pad32 1 2 (pad32 [0, 0]) [pad32 [0, 1]] @
      tree_inputs pad32 (take 2 (tl_leaves (sample_log 2)))))"
    unfolding inputs D by (simp add: tree inj_on_def pad32_def node_in_def)
  show ?thesis
    using sdk_consistency_sound[of pad32 1 2 "sample_log 2" _ "pad32 [0, 0]" "[pad32 [0, 1]]",
        OF _ _ _ _ _ root _ _ acc inj]
    by (simp add: digest32_def treeSize_def)
qed

text \<open>The reply of a chain that stores the anchor: the ten words of the ABI-encoded struct.\<close>

definition anchor_reply :: "nat list \<Rightarrow> RpcReply" where
  "anchor_reply ws = Body False (Some (''0x'' @ concat (map (hexpad 64) ws)))"

lemma take_drop_blocks:
  "i < length xs \<Longrightarrow> \<forall>x\<in>set xs. length x = k \<Longrightarrow> take k (drop (i * k) (concat xs)) = xs ! i"
proof (induction xs arbitrary: i)
  case (Cons x xs)
  then show ?case by (cases i) simp_all
qed simp

lemma wordAt_words:
  assumes "i < length ws"
  shows "wordAt (''0x'' @ concat (map (hexpad 64) ws)) i = hexpad 64 (ws ! i)"
proof -
  have "wordAt (''0x'' @ concat (map (hexpad 64) ws)) i = take 64 (drop (i * 64) (concat (map (hexpad 64) ws)))"
    by (simp add: wordAt_def starts_with_def)
  also have "\<dots> = hexpad 64 (ws ! i)"
    using take_drop_blocks[of i "map (hexpad 64) ws" 64] assms by simp
  finally show ?thesis .
qed

lemma hexpad_inject:
  assumes "v < 16 ^ k" "w < 16 ^ k" "hexpad k v = hexpad k w"
  shows "v = w"
proof -
  have "Some v = digits_value 16 0 (hexpad k v)" using digits_value_hexpad[OF assms(1), of 0] by simp
  also have "\<dots> = Some w" unfolding assms(3) using digits_value_hexpad[OF assms(2), of 0] by simp
  finally show ?thesis by simp
qed

lemma hexpad_zeros:
  assumes "v < 16 ^ k"
  shows "list_all (\<lambda>c. c = CHR ''0'') (hexpad k v) \<longleftrightarrow> v = 0"
proof
  assume "list_all (\<lambda>c. c = CHR ''0'') (hexpad k v)"
  then have "\<And>c. c \<in> set (hexpad k v) \<Longrightarrow> c = CHR ''0''" by (simp only: list_all_iff)
  then have "hexpad k v = replicate k CHR ''0''" by (rule replicate_eqI[rotated]) simp_all
  then have "hexpad k v = hexpad k 0" by (simp only: hexpad_zero)
  with assms show "v = 0" by (intro hexpad_inject) simp_all
next
  assume "v = 0"
  then show "list_all (\<lambda>c. c = CHR ''0'') (hexpad k v)" by (simp only: hexpad_zero) (simp add: list_all_iff)
qed

text \<open>The anchor check compares the right words.  Against a chain whose getter returns the
  ABI-encoded anchor (ten 256-bit words) the check succeeds exactly when the stored Merkle root is not zero and is the tree
  head's root, and the stored event count is the tree size.\<close>

theorem verifySthAnchored_compares:
  assumes "contract \<noteq> []" "BigInt onChainId = Some aid" "length ws = 10" "\<forall>w\<in>set ws. w < 2 ^ 256"
    and "rpc url contract (ANCHORS_SELECTOR @ toWord aid) = anchor_reply ws"
  shows "verifySthAnchored (Some rpc) url
      \<lparr>st_log_id = lid, st_tree_size = n, st_root_hash = toHex root, st_timestamp = ts,
       st_anchor = Some \<lparr>an_chainId = c, an_txHash = tx, an_onChainId = Some onChainId, an_contract = Some contract\<rparr>\<rparr>
    = Inr (ws ! 0 \<noteq> 0 \<and> be_bytes 32 (ws ! 0) = root \<and> int (ws ! 4) = n)"
proof -
  have w: "ws ! 0 < 16 ^ 64" "ws ! 4 < 16 ^ 64" using assms(3,4) by auto
  have h: "hexToBytes (hexpad 64 v) = Inr (be_bytes 32 v)" for v
    using hexpad_be_bytes[of 32 v] length_hexpad[of 64 v] hex_pairs_hex_of[of 0 "be_bytes 32 v"]
      strip_0x_hex_of[of "be_bytes 32 v"]
    by (simp add: hexToBytes_def)
  have b: "BigInt (''0x'' @ hexpad 64 (ws ! 4)) = Some (int (ws ! 4))"
    using BigInt_hexpad[of "ws ! 4" 63] w by simp
  show ?thesis
    using assms(1,2,5) wordAt_words[of 0 ws] wordAt_words[of 4 ws] assms(3) w b
    by (simp add: verifySthAnchored_def anchor_reply_def words_match_def WORD_MERKLE_ROOT_def
        WORD_EVENT_COUNT_def Let_def h hexpad_zeros)
qed

theorem verifySthAnchored_compares_witness:
  "verifySthAnchored (Some (\<lambda>url c d. anchor_reply [258, 0, 0, 0, 7, 0, 0, 0, 0, 0])) ''url''
      \<lparr>st_log_id = None, st_tree_size = 7, st_root_hash = toHex (be_bytes 32 258), st_timestamp = None,
       st_anchor = Some \<lparr>an_chainId = None, an_txHash = None, an_onChainId = Some ''3'', an_contract = Some ''0xab''\<rparr>\<rparr>
    = Inr True"
proof -
  have "BigInt ''3'' = Some 3" by code_simp
  then show ?thesis
    using verifySthAnchored_compares[of "''0xab''" "''3''" 3 "[258, 0, 0, 0, 7, 0, 0, 0, 0, 0]"
        "\<lambda>url c d. anchor_reply [258, 0, 0, 0, 7, 0, 0, 0, 0, 0]" "''url''" None 7 "be_bytes 32 258"]
    by simp
qed

text \<open>The check does throw when the endpoint answers with the JSON value \<open>null\<close>.\<close>

lemma verifySthAnchored_throws_on_null:
  "verifySthAnchored (Some (\<lambda>_ _ _. BodyNull)) url
     \<lparr>st_log_id = None, st_tree_size = n, st_root_hash = r, st_timestamp = None,
      st_anchor = Some \<lparr>an_chainId = None, an_txHash = None, an_onChainId = Some ''3'', an_contract = Some ''0xab''\<rparr>\<rparr>
   = Inl TypeError"
proof -
  have "BigInt ''3'' = Some 3" by code_simp
  then show ?thesis by (simp add: verifySthAnchored_def)
qed

end
