(* ===== verification/LedgerTypes.thy ===== *)
theory LedgerTypes
  imports TransparencyLog "HOL-Library.Stream"
begin

text \<open>
  The data of the Registry Ledger (\<open>services/registry-ledger/src/types.ts\<close>), its problem codes and
  their HTTP form (\<open>errors.ts\<close>), the state-and-exception monad its methods run in, and the parts
  of \<open>Date\<close> they use.  A method is a function from a state to a result and a new state; a thrown
  \<open>ProblemError\<close> or any other exception is a \<open>fault\<close>, and the state changes made before the throw
  stay.  Union types are datatypes, interfaces are records (field names carry a prefix because
  HOL record fields share one name space), an optional field is an \<open>option\<close>.
\<close>

subsection \<open>JSON and maps\<close>

text \<open>A number that is not an integer is kept by its text.\<close>

datatype json = JNull | JBool bool | JNum int | JFrac string | JStr string | JArr "json list"
  | JObj "(string \<times> json) list"

type_synonym json_object = "(string \<times> json) list"

subsection \<open>Data transfer objects\<close>

datatype RecordStatus = Active | Superseded | Revoked

fun status_text :: "RecordStatus \<Rightarrow> string" where
  "status_text Active = ''active''"
| "status_text Superseded = ''superseded''"
| "status_text Revoked = ''revoked''"

lemma status_text_inject [simp]: "status_text a = status_text b \<longleftrightarrow> a = b"
  by (cases a; cases b) simp_all

definition RECORD_TYPES :: "string list" where
  "RECORD_TYPES = [''surveyor-report'', ''assay'', ''gate-decision'', ''custody-event'', ''other'']"

record Anchor =
  anc_chainId :: int
  anc_txHash :: "string option"
  anc_onChainId :: "string option"
  anc_contract :: "string option"

record STH =
  sth_log_id :: string
  sth_tree_size :: int
  sth_root_hash :: string
  sth_timestamp :: string
  sth_anchor :: "Anchor option"

record AttestationRequest =
  rq_subject :: string
  rq_issuer :: string
  rq_recordType :: string
  rq_contentHash :: string
  rq_hashAlg :: "string option"
  rq_issuedAt :: "string option"
  rq_vcProof :: "json_object option"
  rq_links :: "json_object option"

record LogRef =
  lr_log_id :: string
  lr_leaf_index :: nat
  lr_leaf_hash :: string

record Attestation =
  at_registry_id :: string
  at_subject :: string
  at_issuer :: string
  at_recordType :: string
  at_status :: RecordStatus
  at_anchored_at :: string
  at_log :: LogRef
  at_inclusion_proof :: InclusionProof
  at_sth :: STH

record InclusionResponse =
  ir_registry_id :: string
  ir_inclusion_proof :: InclusionProof
  ir_sth :: STH

record StatusRecord =
  sr_registry_id :: string
  sr_status :: RecordStatus
  sr_since :: string
  sr_reason :: "string option"
  sr_supersededBy :: "string option"
  sr_actor :: string
  sr_proof :: InclusionProof
  sr_sth :: STH

datatype StatusAction = Revoke | Supersede

record Checkpoint =
  cp_checkpoint_id :: string
  cp_sth :: STH

record ConsistencyResponse =
  cr_log_id :: string
  cr_first :: STH
  cr_second :: STH
  cr_consistency_path :: "string list"

record Retention =
  rt_until :: string
  rt_basis :: string
  rt_legalHold :: bool
  rt_deletable :: bool

record EvidenceRequest =
  er_contentHash :: string
  er_hashAlg :: "string option"
  er_until :: string
  er_basis :: string
  er_legalHold :: "bool option"
  er_links :: "json_object option"

record Evidence =
  ev_evidence_id :: string
  ev_contentHash :: string
  ev_anchored :: bool
  ev_retention :: Retention
  ev_sth :: STH

record VerifyBundleAttestation =
  vba_registry_id :: string
  vba_recordType :: string
  vba_status :: RecordStatus
  vba_subject :: string
  vba_issuer :: string
  vba_inclusion_proof :: InclusionProof
  vba_sth :: STH

record VerifyBundleCheckpoint =
  vbc_log_id :: string
  vbc_sth :: STH

record VerifyBundle =
  vb_subject :: string
  vb_generated_at :: string
  vb_attestations :: "VerifyBundleAttestation list"
  vb_checkpoints :: "VerifyBundleCheckpoint list"
  vb_evidence :: "Evidence list"

subsection \<open>Problems\<close>

datatype ProblemCode = Invalid_hash | Invalid_did | Invalid_request | Unauthenticated
  | Forbidden_tenant | Not_found | Retention_locked | Status_conflict | Proof_unavailable
  | Rate_limited | Chain_unavailable | Internal_error

fun code_text :: "ProblemCode \<Rightarrow> string" where
  "code_text Invalid_hash = ''invalid_hash''"
| "code_text Invalid_did = ''invalid_did''"
| "code_text Invalid_request = ''invalid_request''"
| "code_text Unauthenticated = ''unauthenticated''"
| "code_text Forbidden_tenant = ''forbidden_tenant''"
| "code_text Not_found = ''not_found''"
| "code_text Retention_locked = ''retention_locked''"
| "code_text Status_conflict = ''status_conflict''"
| "code_text Proof_unavailable = ''proof_unavailable''"
| "code_text Rate_limited = ''rate_limited''"
| "code_text Chain_unavailable = ''chain_unavailable''"
| "code_text Internal_error = ''internal_error''"

fun CODE_META :: "ProblemCode \<Rightarrow> nat \<times> string" where
  "CODE_META Invalid_hash = (400, ''Invalid hash'')"
| "CODE_META Invalid_did = (400, ''Invalid DID'')"
| "CODE_META Invalid_request = (400, ''Invalid request'')"
| "CODE_META Unauthenticated = (401, ''Unauthenticated'')"
| "CODE_META Forbidden_tenant = (403, ''Forbidden tenant'')"
| "CODE_META Not_found = (404, ''Not found'')"
| "CODE_META Status_conflict = (409, ''Status conflict'')"
| "CODE_META Retention_locked = (409, ''Retention locked'')"
| "CODE_META Proof_unavailable = (422, ''Proof unavailable'')"
| "CODE_META Rate_limited = (429, ''Rate limited'')"
| "CODE_META Chain_unavailable = (503, ''Chain unavailable'')"
| "CODE_META Internal_error = (500, ''Internal error'')"

record Problem =
  pb_type :: string
  pb_title :: string
  pb_status :: nat
  pb_code :: ProblemCode
  pb_detail :: "string option"
  pb_instance :: "string option"
  pb_traceId :: "string option"

definition ERROR_BASE :: string where
  "ERROR_BASE = ''https://attest.ledger.haratrust.io/errors/''"

definition buildProblem ::
  "ProblemCode \<Rightarrow> string option \<Rightarrow> string option \<Rightarrow> string option \<Rightarrow> Problem" where
  "buildProblem code detail inst traceId =
     (let (status, title) = CODE_META code in
      \<lparr>pb_type = ERROR_BASE @ code_text code, pb_title = title, pb_status = status, pb_code = code,
       pb_detail = detail, pb_instance = inst, pb_traceId = traceId\<rparr>)"

text \<open>What a method can throw: a \<open>ProblemError\<close>, or an exception the error handler turns into a 500.\<close>

datatype fault = ProblemError ProblemCode "string option" | Uncaught js_exn

text \<open>The global error handler: the status line and the body for a thrown error.  \<open>validation\<close> is the
  message of a Fastify validation error.\<close>

datatype thrown = Thrown fault | Validation string

definition errorHandler :: "string option \<Rightarrow> string option \<Rightarrow> thrown \<Rightarrow> nat \<times> Problem" where
  "errorHandler url reqId err = (case err of
     Thrown (ProblemError code detail) \<Rightarrow>
       (fst (CODE_META code), buildProblem code detail url reqId)
   | Validation msg \<Rightarrow> (400, buildProblem Invalid_request (Some msg) url reqId)
   | Thrown (Uncaught _) \<Rightarrow> (500, buildProblem Internal_error (Some ''unexpected error'') url reqId))"

definition notFoundHandler :: "string \<Rightarrow> string \<Rightarrow> string option \<Rightarrow> nat \<times> Problem" where
  "notFoundHandler verb url reqId =
     (404, buildProblem Not_found (Some (''no route '' @ verb @ '' '' @ url)) (Some url) reqId)"

subsection \<open>The state and exception monad\<close>

text \<open>\<open>xop\<close> leaves open what can be thrown; the services other than the ledger throw values of their own.\<close>

type_synonym ('s, 'e, 'a) xop = "'s \<Rightarrow> ('e + 'a) \<times> 's"

type_synonym ('s, 'a) op = "('s, fault, 'a) xop"

definition ret :: "'a \<Rightarrow> ('s, 'e, 'a) xop" where "ret x = (\<lambda>s. (Inr x, s))"

definition throw :: "'e \<Rightarrow> ('s, 'e, 'a) xop" where "throw e = (\<lambda>s. (Inl e, s))"

definition bindS :: "('s, 'e, 'a) xop \<Rightarrow> ('a \<Rightarrow> ('s, 'e, 'b) xop) \<Rightarrow> ('s, 'e, 'b) xop" where
  "bindS m f = (\<lambda>s. case m s of (Inl e, s') \<Rightarrow> (Inl e, s') | (Inr x, s') \<Rightarrow> f x s')"

definition problem :: "ProblemCode \<Rightarrow> string \<Rightarrow> ('s, 'a) op" where
  "problem code detail = throw (ProblemError code (Some detail))"

text \<open>A call that may throw but changes no state; a read of the state.\<close>

definition liftJ :: "'a js \<Rightarrow> ('s, 'a) op" where
  "liftJ m = (\<lambda>s. (case m of Inl e \<Rightarrow> Inl (Uncaught e) | Inr x \<Rightarrow> Inr x, s))"

fun mapS :: "('a \<Rightarrow> ('s, 'e, 'b) xop) \<Rightarrow> 'a list \<Rightarrow> ('s, 'e, 'b list) xop" where
  "mapS f [] = ret []"
| "mapS f (x # xs) = bindS (f x) (\<lambda>y. bindS (mapS f xs) (\<lambda>ys. ret (y # ys)))"

lemma ret_apply [simp]: "ret x s = (Inr x, s)"
  and throw_apply [simp]: "throw e s = (Inl e, s)"
  and problem_apply [simp]: "problem c d s = (Inl (ProblemError c (Some d)), s)"
  by (simp_all add: ret_def throw_def problem_def)

lemma liftJ_apply [simp]: "liftJ (Inr x) s = (Inr x, s)" "liftJ (Inl e) s = (Inl (Uncaught e), s)"
  by (simp_all add: liftJ_def)

lemma bindS_apply: "bindS m f s = (case m s of (Inl e, s') \<Rightarrow> (Inl e, s') | (Inr x, s') \<Rightarrow> f x s')"
  by (simp add: bindS_def)

lemma bindS_simps [simp]:
  "m s = (Inr x, s') \<Longrightarrow> bindS m f s = f x s'"
  "m s = (Inl e, s') \<Longrightarrow> bindS m f s = (Inl e, s')"
  by (simp_all add: bindS_def)

lemma bindS_ret [simp]: "bindS (ret x) f = f x"
  and bindS_throw [simp]: "bindS (throw e) f = throw e"
  by (simp_all add: bindS_def ret_def throw_def fun_eq_iff)

lemma bindS_Inr:
  assumes "bindS m f s = (Inr y, t)"
  obtains x s' where "m s = (Inr x, s')" "f x s' = (Inr y, t)"
  using assms by (auto simp: bindS_def split: prod.splits sum.splits)

text \<open>The condition under which a call ends in \<open>P\<close>; calls are deterministic, so it distributes over \<open>bindS\<close>.\<close>

definition wp :: "('s, 'e, 'a) xop \<Rightarrow> ('e + 'a \<Rightarrow> 's \<Rightarrow> bool) \<Rightarrow> 's \<Rightarrow> bool" where
  "wp m P s = (case m s of (r, s') \<Rightarrow> P r s')"

named_theorems wp_simps \<open>how \<open>wp\<close> goes through the monad\<close>

lemma wpD: "wp m P s \<Longrightarrow> m s = (r, s') \<Longrightarrow> P r s'"
  by (simp add: wp_def)

lemma wpI: "(\<And>r s'. m s = (r, s') \<Longrightarrow> P r s') \<Longrightarrow> wp m P s"
  by (simp add: wp_def split: prod.splits)

lemma wp_mono: "wp m P s \<Longrightarrow> (\<And>r s'. P r s' \<Longrightarrow> Q r s') \<Longrightarrow> wp m Q s"
  by (auto simp: wp_def split: prod.splits)

lemma wp_conj: "wp m P s \<Longrightarrow> wp m Q s \<Longrightarrow> wp m (\<lambda>r s'. P r s' \<and> Q r s') s"
  by (auto simp: wp_def split: prod.splits)

lemma wp_ret [wp_simps]: "wp (ret x) P s = P (Inr x) s"
  and wp_throw [wp_simps]: "wp (throw e) P s = P (Inl e) s"
  by (simp_all add: wp_def)

lemma wp_problem [wp_simps]: "wp (problem c d) P s = P (Inl (ProblemError c (Some d))) s"
  by (simp add: wp_def)

lemma wp_Pair [wp_simps]: "wp (Pair r) P s = P r s"
  by (simp add: wp_def)

lemma wp_liftJ [wp_simps]:
  "wp (liftJ m) P s = (case m of Inl e \<Rightarrow> P (Inl (Uncaught e)) s | Inr x \<Rightarrow> P (Inr x) s)"
  by (simp add: wp_def liftJ_def split: sum.splits)

lemma wp_bindS [wp_simps]:
  "wp (bindS m f) P s = wp m (\<lambda>r s'. case r of Inl e \<Rightarrow> P (Inl e) s' | Inr x \<Rightarrow> wp (f x) P s') s"
  by (auto simp: wp_def bindS_def split: prod.splits sum.splits)

lemma wp_if [wp_simps]: "wp (if b then m else n) P s = (if b then wp m P s else wp n P s)"
  by simp

text \<open>Sequencing with a known postcondition of the first call.\<close>

lemma wp_seq:
  assumes "wp m R s" "\<And>e s'. R (Inl e) s' \<Longrightarrow> P (Inl e) s'" "\<And>x s'. R (Inr x) s' \<Longrightarrow> wp (f x) P s'"
  shows "wp (bindS m f) P s"
  unfolding wp_bindS by (rule wp_mono[OF assms(1)]) (use assms(2,3) in \<open>auto split: sum.splits\<close>)

text \<open>A loop with an invariant on the states, and a fact about each result that later calls keep.\<close>

lemma wp_mapS:
  assumes "I s" "\<And>x s. x \<in> set xs \<Longrightarrow> I s \<Longrightarrow> wp (f x) (\<lambda>r s'. I s' \<and> (\<forall>y. r = Inr y \<longrightarrow> G x y)) s"
  shows "wp (mapS f xs) (\<lambda>r s'. I s' \<and> (\<forall>ys. r = Inr ys \<longrightarrow> list_all2 G xs ys)) s"
  using assms
proof (induction xs arbitrary: s)
  case Nil
  then show ?case by (simp add: wp_simps)
next
  case (Cons x xs)
  have f: "wp (f x) (\<lambda>r s'. I s' \<and> (\<forall>y. r = Inr y \<longrightarrow> G x y)) s" using Cons.prems by simp
  show ?case
    unfolding mapS.simps
  proof (rule wp_seq[OF f], goal_cases)
    case (2 y s')
    then have y: "I s'" "G x y" by simp_all
    have "wp (mapS f xs) (\<lambda>r s'. I s' \<and> (\<forall>ys. r = Inr ys \<longrightarrow> list_all2 G xs ys)) s'"
      using y Cons.prems by (intro Cons.IH) auto
    then show ?case
      by (rule wp_seq) (use y in \<open>simp_all add: wp_simps\<close>)
  qed simp
qed

subsection \<open>Dates\<close>

text \<open>Days since 1970-01-01 in the proleptic Gregorian calendar, and back.\<close>

definition days_from_civil :: "int \<Rightarrow> int \<Rightarrow> int \<Rightarrow> int" where
  "days_from_civil y m d =
     (let y' = (if m \<le> 2 then y - 1 else y); era = y' div 400; yoe = y' mod 400;
          doy = (153 * ((m + 9) mod 12) + 2) div 5 + d - 1;
          doe = yoe * 365 + yoe div 4 - yoe div 100 + doy
      in era * 146097 + doe - 719468)"

definition civil_from_days :: "int \<Rightarrow> int \<times> int \<times> int" where
  "civil_from_days days =
     (let z = days + 719468; era = z div 146097; doe = z mod 146097;
          yoe = (doe - doe div 1460 + doe div 36524 - doe div 146096) div 365;
          doy = doe - (365 * yoe + yoe div 4 - yoe div 100); mp = (5 * doy + 2) div 153;
          d = doy - (153 * mp + 2) div 5 + 1; m = (if mp < 10 then mp + 3 else mp - 9);
          y = yoe + era * 400 + (if m \<le> 2 then 1 else 0)
      in (y, m, d))"

definition pad_num :: "nat \<Rightarrow> nat \<Rightarrow> string" where
  "pad_num w n = replicate (w - length (js_num n)) CHR ''0'' @ js_num n"

text \<open>\<open>Date.prototype.toISOString\<close>.\<close>

definition toISOString :: "int \<Rightarrow> string" where
  "toISOString ms =
     (let (y, m, d) = civil_from_days (ms div 86400000); t = nat (ms mod 86400000);
          year = (if 0 \<le> y \<and> y \<le> 9999 then pad_num 4 (nat y)
                  else (if y < 0 then ''-'' else ''+'') @ pad_num 6 (nat \<bar>y\<bar>))
      in year @ ''-'' @ pad_num 2 (nat m) @ ''-'' @ pad_num 2 (nat d) @ ''T''
         @ pad_num 2 (t div 3600000) @ '':'' @ pad_num 2 (t div 60000 mod 60) @ '':''
         @ pad_num 2 (t div 1000 mod 60) @ ''.'' @ pad_num 3 (t mod 1000) @ ''Z'')"

text \<open>The regular expression \<open>/^\d{4}-\d{2}-\d{2}$/\<close> of the routes.\<close>

definition is_digit :: "char \<Rightarrow> bool" where
  "is_digit c = (let n = (of_char c :: nat) in 48 \<le> n \<and> n \<le> 57)"

definition digit_val :: "char \<Rightarrow> int" where "digit_val c = of_char c - 48"

fun DATE_RE :: "string \<Rightarrow> bool" where
  "DATE_RE [y1, y2, y3, y4, a, m1, m2, b, d1, d2] =
     (list_all is_digit [y1, y2, y3, y4, m1, m2, d1, d2] \<and> a = CHR ''-'' \<and> b = CHR ''-'')"
| "DATE_RE _ = False"

fun date_fields :: "string \<Rightarrow> int \<times> int \<times> int" where
  "date_fields [y1, y2, y3, y4, a, m1, m2, b, d1, d2] =
     (1000 * digit_val y1 + 100 * digit_val y2 + 10 * digit_val y3 + digit_val y4,
      10 * digit_val m1 + digit_val m2, 10 * digit_val d1 + digit_val d2)"
| "date_fields _ = (0, 0, 0)"

text \<open>
  \<open>new Date(s + "T00:00:00Z").getTime()\<close> as V8 evaluates it: a month outside 1 to 12 or a day
  outside 1 to 31 gives NaN (\<open>None\<close>), a day past the end of its month rolls over into the next one.
  Only texts of the form \<open>YYYY-MM-DD\<close> reach it; for any other text the model answers NaN.
\<close>

definition dateMs :: "string \<Rightarrow> int option" where
  "dateMs s = (if DATE_RE s then
       (let (y, m, d) = date_fields s in
        if 1 \<le> m \<and> m \<le> 12 \<and> 1 \<le> d \<and> d \<le> 31 then Some (days_from_civil y m 1 * 86400000 + (d - 1) * 86400000)
        else None)
     else None)"

text \<open>\<open>a > b\<close> and \<open>a < b\<close> on numbers of which the first may be NaN.\<close>

definition num_greater :: "int option \<Rightarrow> int \<Rightarrow> bool" where
  "num_greater a b = (case a of None \<Rightarrow> False | Some x \<Rightarrow> x > b)"

definition num_less :: "int option \<Rightarrow> int option \<Rightarrow> bool" where
  "num_less a b = (case (a, b) of (Some x, Some y) \<Rightarrow> x < y | _ \<Rightarrow> False)"

end
