(* ===== verification/Store.thy ===== *)
theory Store
  imports LedgerTypes "HOL-Library.AList"
begin

text \<open>
  The store interface (\<open>services/registry-ledger/src/store/index.ts\<close>) as a record of operations, the
  contract the ledger relies on as a locale over it, and the in-memory store
  (\<open>store/memory.ts\<close>) as its first provider.  A reading operation may throw, a writing operation
  gives the new store or throws and then has changed nothing.

  The in-memory store keeps JavaScript objects in two maps at once and changes them in place, so
  its model is a heap: the maps hold references (positions in the lists of objects), and a change
  through one map is seen through the other.
\<close>

subsection \<open>Records\<close>

record AttestationRecord =
  ar_registryId :: string
  ar_subject :: string
  ar_issuer :: string
  ar_recordType :: string
  ar_contentHash :: string
  ar_hashAlg :: string
  ar_status :: RecordStatus
  ar_tenant :: string
  ar_logId :: string
  ar_leafIndex :: nat
  ar_leafHash :: string
  ar_passport :: "string option"
  ar_links :: "json_object option"
  ar_issuedAt :: "string option"
  ar_anchoredAt :: string

record StatusEntry =
  se_registryId :: string
  se_status :: RecordStatus
  se_since :: string
  se_reason :: "string option"
  se_supersededBy :: "string option"
  se_actor :: string
  se_logId :: string
  se_leafIndex :: nat
  se_leafHash :: string

record EvidenceRecord =
  er_evidenceId :: string
  er_contentHash' :: string
  er_hashAlg' :: string
  er_until' :: string
  er_basis' :: string
  er_legalHold' :: bool
  er_tenant :: string
  er_logId :: string
  er_leafIndex :: nat
  er_links' :: "json_object option"
  er_anchoredAt :: string
  er_deleted :: bool

record CheckpointRecord =
  ck_checkpointId :: string
  ck_logId :: string
  ck_treeSize :: int
  ck_rootHash :: string
  ck_timestamp :: string
  ck_txHash :: "string option"
  ck_onChainId :: "string option"

subsection \<open>The interface\<close>

record 's Store =
  getAttestationById :: "'s \<Rightarrow> string \<Rightarrow> AttestationRecord option js"
  getAttestationByContentHash :: "'s \<Rightarrow> string \<Rightarrow> string \<Rightarrow> AttestationRecord option js"
  putAttestation :: "'s \<Rightarrow> AttestationRecord \<Rightarrow> 's js"
  setAttestationStatus :: "'s \<Rightarrow> string \<Rightarrow> RecordStatus \<Rightarrow> 's js"
  listAttestationsBySubject :: "'s \<Rightarrow> string \<Rightarrow> AttestationRecord list js"
  appendStatus :: "'s \<Rightarrow> StatusEntry \<Rightarrow> 's js"
  getLatestStatus :: "'s \<Rightarrow> string \<Rightarrow> StatusEntry option js"
  getEvidenceById :: "'s \<Rightarrow> string \<Rightarrow> EvidenceRecord option js"
  getEvidenceByContentHash :: "'s \<Rightarrow> string \<Rightarrow> string \<Rightarrow> EvidenceRecord option js"
  putEvidence :: "'s \<Rightarrow> EvidenceRecord \<Rightarrow> 's js"
  updateEvidence :: "'s \<Rightarrow> EvidenceRecord \<Rightarrow> 's js"
  listEvidenceBySubject :: "'s \<Rightarrow> string \<Rightarrow> EvidenceRecord list js"
  putCheckpoint :: "'s \<Rightarrow> CheckpointRecord \<Rightarrow> 's js"
  getCheckpoint :: "'s \<Rightarrow> string \<Rightarrow> CheckpointRecord option js"
  latestCheckpoint :: "'s \<Rightarrow> string \<Rightarrow> CheckpointRecord option js"
  appendLeaf :: "'s \<Rightarrow> string \<Rightarrow> string \<Rightarrow> (nat \<times> 's) js"
  getLeaves :: "'s \<Rightarrow> string \<Rightarrow> string list js"

subsection \<open>The in-memory store\<close>

text \<open>A JavaScript \<open>Map\<close> iterates in the order of first insertion: an association list, where \<open>set\<close>
  replaces in place or appends.\<close>

type_synonym ('k, 'v) jsmap = "('k \<times> 'v) list"

abbreviation jsmap_get :: "('k, 'v) jsmap \<Rightarrow> 'k \<Rightarrow> 'v option" where "jsmap_get \<equiv> map_of"

abbreviation jsmap_set :: "('k, 'v) jsmap \<Rightarrow> 'k \<Rightarrow> 'v \<Rightarrow> ('k, 'v) jsmap" where
  "jsmap_set m k v \<equiv> AList.update k v m"

definition jsmap_list :: "('k, 'v list) jsmap \<Rightarrow> 'k \<Rightarrow> 'v list" where
  "jsmap_list m k = (case jsmap_get m k of None \<Rightarrow> [] | Some xs \<Rightarrow> xs)"

record MemoryStore =
  attObjs :: "AttestationRecord list"
  attById :: "(string, nat) jsmap"
  attByContent :: "(string, nat) jsmap"
  statusByRegistry :: "(string, StatusEntry list) jsmap"
  evObjs :: "EvidenceRecord list"
  evById :: "(string, nat) jsmap"
  evByContent :: "(string, nat) jsmap"
  checkpointsById :: "(string, CheckpointRecord) jsmap"
  checkpointsByLog :: "(string, CheckpointRecord list) jsmap"
  leavesByLog :: "(string, string list) jsmap"

definition newMemoryStore :: MemoryStore where
  "newMemoryStore = \<lparr>attObjs = [], attById = [], attByContent = [], statusByRegistry = [], evObjs = [],
     evById = [], evByContent = [], checkpointsById = [], checkpointsByLog = [], leavesByLog = []\<rparr>"

definition contentKey :: "string \<Rightarrow> string \<Rightarrow> string" where
  "contentKey tenant h = tenant @ ''|'' @ to_lower h"

definition mem_getAttestationById :: "MemoryStore \<Rightarrow> string \<Rightarrow> AttestationRecord option js" where
  "mem_getAttestationById s registryId = Inr (map_option ((!) (attObjs s)) (jsmap_get (attById s) registryId))"

definition mem_getAttestationByContentHash ::
  "MemoryStore \<Rightarrow> string \<Rightarrow> string \<Rightarrow> AttestationRecord option js" where
  "mem_getAttestationByContentHash s tenant h =
     Inr (map_option ((!) (attObjs s)) (jsmap_get (attByContent s) (contentKey tenant h)))"

definition mem_putAttestation :: "MemoryStore \<Rightarrow> AttestationRecord \<Rightarrow> MemoryStore js" where
  "mem_putAttestation s rec = (let r = length (attObjs s) in
     Inr (s\<lparr>attObjs := attObjs s @ [rec],
            attById := jsmap_set (attById s) (ar_registryId rec) r,
            attByContent := jsmap_set (attByContent s) (contentKey (ar_tenant rec) (ar_contentHash rec)) r\<rparr>))"

definition mem_setAttestationStatus :: "MemoryStore \<Rightarrow> string \<Rightarrow> RecordStatus \<Rightarrow> MemoryStore js" where
  "mem_setAttestationStatus s registryId status = Inr (case jsmap_get (attById s) registryId of
       None \<Rightarrow> s
     | Some r \<Rightarrow> s\<lparr>attObjs := (attObjs s)[r := (attObjs s ! r)\<lparr>ar_status := status\<rparr>]\<rparr>)"

definition mem_listAttestationsBySubject :: "MemoryStore \<Rightarrow> string \<Rightarrow> AttestationRecord list js" where
  "mem_listAttestationsBySubject s q =
     Inr (filter (\<lambda>rec. ar_subject rec = q \<or> ar_passport rec = Some q)
            (map (\<lambda>(k, r). attObjs s ! r) (attById s)))"

definition mem_appendStatus :: "MemoryStore \<Rightarrow> StatusEntry \<Rightarrow> MemoryStore js" where
  "mem_appendStatus s entry = Inr (s\<lparr>statusByRegistry := jsmap_set (statusByRegistry s) (se_registryId entry)
     (jsmap_list (statusByRegistry s) (se_registryId entry) @ [entry])\<rparr>)"

definition last_opt :: "'a list \<Rightarrow> 'a option" where
  "last_opt xs = (if xs = [] then None else Some (last xs))"

definition mem_getLatestStatus :: "MemoryStore \<Rightarrow> string \<Rightarrow> StatusEntry option js" where
  "mem_getLatestStatus s registryId = Inr (last_opt (jsmap_list (statusByRegistry s) registryId))"

definition mem_getEvidenceById :: "MemoryStore \<Rightarrow> string \<Rightarrow> EvidenceRecord option js" where
  "mem_getEvidenceById s evidenceId = Inr (map_option ((!) (evObjs s)) (jsmap_get (evById s) evidenceId))"

definition mem_getEvidenceByContentHash ::
  "MemoryStore \<Rightarrow> string \<Rightarrow> string \<Rightarrow> EvidenceRecord option js" where
  "mem_getEvidenceByContentHash s tenant h =
     Inr (map_option ((!) (evObjs s)) (jsmap_get (evByContent s) (contentKey tenant h)))"

text \<open>Storing an evidence object under its two keys.\<close>

definition set_evidence :: "MemoryStore \<Rightarrow> EvidenceRecord \<Rightarrow> nat \<Rightarrow> MemoryStore" where
  "set_evidence s rec r =
     s\<lparr>evById := jsmap_set (evById s) (er_evidenceId rec) r,
       evByContent := jsmap_set (evByContent s) (contentKey (er_tenant rec) (er_contentHash' rec)) r\<rparr>"

definition mem_putEvidence :: "MemoryStore \<Rightarrow> EvidenceRecord \<Rightarrow> MemoryStore js" where
  "mem_putEvidence s rec =
     Inr (set_evidence (s\<lparr>evObjs := evObjs s @ [rec]\<rparr>) rec (length (evObjs s)))"

text \<open>The ledger passes the very object \<open>getEvidenceById\<close> returned, after assigning to its fields: the
  object at that reference has the new fields.  An object the store does not know yet is new.\<close>

definition mem_updateEvidence :: "MemoryStore \<Rightarrow> EvidenceRecord \<Rightarrow> MemoryStore js" where
  "mem_updateEvidence s rec = (case jsmap_get (evById s) (er_evidenceId rec) of
       None \<Rightarrow> mem_putEvidence s rec
     | Some r \<Rightarrow> Inr (set_evidence (s\<lparr>evObjs := (evObjs s)[r := rec]\<rparr>) rec r))"

definition link_is :: "EvidenceRecord \<Rightarrow> string \<Rightarrow> string \<Rightarrow> bool" where
  "link_is rec field q \<longleftrightarrow>
     (case er_links' rec of None \<Rightarrow> False | Some links \<Rightarrow> map_of links field = Some (JStr q))"

definition mem_listEvidenceBySubject :: "MemoryStore \<Rightarrow> string \<Rightarrow> EvidenceRecord list js" where
  "mem_listEvidenceBySubject s q =
     Inr (filter (\<lambda>rec. \<not> er_deleted rec \<and> (link_is rec ''subject'' q \<or> link_is rec ''passport'' q))
            (map (\<lambda>(k, r). evObjs s ! r) (evById s)))"

definition mem_putCheckpoint :: "MemoryStore \<Rightarrow> CheckpointRecord \<Rightarrow> MemoryStore js" where
  "mem_putCheckpoint s rec = Inr (s\<lparr>checkpointsById := jsmap_set (checkpointsById s) (ck_checkpointId rec) rec,
     checkpointsByLog := jsmap_set (checkpointsByLog s) (ck_logId rec)
       (jsmap_list (checkpointsByLog s) (ck_logId rec) @ [rec])\<rparr>)"

definition mem_getCheckpoint :: "MemoryStore \<Rightarrow> string \<Rightarrow> CheckpointRecord option js" where
  "mem_getCheckpoint s checkpointId = Inr (jsmap_get (checkpointsById s) checkpointId)"

definition mem_latestCheckpoint :: "MemoryStore \<Rightarrow> string \<Rightarrow> CheckpointRecord option js" where
  "mem_latestCheckpoint s logId = Inr (last_opt (jsmap_list (checkpointsByLog s) logId))"

definition mem_appendLeaf :: "MemoryStore \<Rightarrow> string \<Rightarrow> string \<Rightarrow> (nat \<times> MemoryStore) js" where
  "mem_appendLeaf s logId leafHex = (let l = jsmap_list (leavesByLog s) logId @ [leafHex] in
     Inr (length l - 1, s\<lparr>leavesByLog := jsmap_set (leavesByLog s) logId l\<rparr>))"

definition mem_getLeaves :: "MemoryStore \<Rightarrow> string \<Rightarrow> string list js" where
  "mem_getLeaves s logId = Inr (jsmap_list (leavesByLog s) logId)"

definition memory_store :: "MemoryStore Store" where
  "memory_store = \<lparr>
     getAttestationById = mem_getAttestationById,
     getAttestationByContentHash = mem_getAttestationByContentHash,
     putAttestation = mem_putAttestation,
     setAttestationStatus = mem_setAttestationStatus,
     listAttestationsBySubject = mem_listAttestationsBySubject,
     appendStatus = mem_appendStatus,
     getLatestStatus = mem_getLatestStatus,
     getEvidenceById = mem_getEvidenceById,
     getEvidenceByContentHash = mem_getEvidenceByContentHash,
     putEvidence = mem_putEvidence,
     updateEvidence = mem_updateEvidence,
     listEvidenceBySubject = mem_listEvidenceBySubject,
     putCheckpoint = mem_putCheckpoint,
     getCheckpoint = mem_getCheckpoint,
     latestCheckpoint = mem_latestCheckpoint,
     appendLeaf = mem_appendLeaf,
     getLeaves = mem_getLeaves\<rparr>"

subsection \<open>The contract\<close>

text \<open>
  What a store holds, as the ledger sees it: leaves per log, records by identifier, the identifier
  under which a tenant's content hash is known, the history of each record, the checkpoints of each
  log.  Fields no response shows (\<open>issuedAt\<close>, the attestation's \<open>links\<close>) are left out, so that a
  store may normalise them.
\<close>

record AbsStore =
  as_leaves :: "string \<Rightarrow> string list"
  as_att :: "string \<Rightarrow> AttestationRecord option"
  as_attKey :: "string \<times> string \<Rightarrow> string option"
  as_status :: "string \<Rightarrow> StatusEntry list"
  as_ev :: "string \<Rightarrow> EvidenceRecord option"
  as_evKey :: "string \<times> string \<Rightarrow> string option"
  as_ckpts :: "string \<Rightarrow> CheckpointRecord list"

text \<open>A content hash usable as a key: lower case, and free of the separator of \<open>contentKey\<close>.\<close>

definition key_hash :: "string \<Rightarrow> bool" where
  "key_hash h \<longleftrightarrow> to_lower h = h \<and> CHR ''|'' \<notin> set h"

definition fresh_att :: "AbsStore \<Rightarrow> AttestationRecord \<Rightarrow> bool" where
  "fresh_att a rec \<longleftrightarrow> key_hash (ar_contentHash rec) \<and> as_att a (ar_registryId rec) = None
     \<and> as_attKey a (ar_tenant rec, ar_contentHash rec) = None"

definition fresh_ev :: "AbsStore \<Rightarrow> EvidenceRecord \<Rightarrow> bool" where
  "fresh_ev a rec \<longleftrightarrow> key_hash (er_contentHash' rec) \<and> as_ev a (er_evidenceId rec) = None
     \<and> as_evKey a (er_tenant rec, er_contentHash' rec) = None"

definition abs_putAttestation :: "AbsStore \<Rightarrow> AttestationRecord \<Rightarrow> AbsStore" where
  "abs_putAttestation a rec = a\<lparr>as_att := (as_att a)(ar_registryId rec \<mapsto> rec),
     as_attKey := (as_attKey a)((ar_tenant rec, ar_contentHash rec) \<mapsto> ar_registryId rec)\<rparr>"

definition abs_setAttestationStatus :: "AbsStore \<Rightarrow> string \<Rightarrow> RecordStatus \<Rightarrow> AbsStore" where
  "abs_setAttestationStatus a i st =
     a\<lparr>as_att := (as_att a)(i := map_option (\<lambda>rec. rec\<lparr>ar_status := st\<rparr>) (as_att a i))\<rparr>"

definition abs_appendStatus :: "AbsStore \<Rightarrow> StatusEntry \<Rightarrow> AbsStore" where
  "abs_appendStatus a e =
     a\<lparr>as_status := (as_status a)(se_registryId e := as_status a (se_registryId e) @ [e])\<rparr>"

definition abs_putEvidence :: "AbsStore \<Rightarrow> EvidenceRecord \<Rightarrow> AbsStore" where
  "abs_putEvidence a rec = a\<lparr>as_ev := (as_ev a)(er_evidenceId rec \<mapsto> rec),
     as_evKey := (as_evKey a)((er_tenant rec, er_contentHash' rec) \<mapsto> er_evidenceId rec)\<rparr>"

definition abs_updateEvidence :: "AbsStore \<Rightarrow> EvidenceRecord \<Rightarrow> AbsStore" where
  "abs_updateEvidence a rec = a\<lparr>as_ev := (as_ev a)(er_evidenceId rec \<mapsto> rec)\<rparr>"

definition abs_appendLeaf :: "AbsStore \<Rightarrow> string \<Rightarrow> string \<Rightarrow> AbsStore" where
  "abs_appendLeaf a l x = a\<lparr>as_leaves := (as_leaves a)(l := as_leaves a l @ [x])\<rparr>"

definition abs_putCheckpoint :: "AbsStore \<Rightarrow> CheckpointRecord \<Rightarrow> AbsStore" where
  "abs_putCheckpoint a c = a\<lparr>as_ckpts := (as_ckpts a)(ck_logId c := as_ckpts a (ck_logId c) @ [c])\<rparr>"

text \<open>An update may change the retention fields and the deletion flag only.\<close>

definition same_evidence :: "EvidenceRecord \<Rightarrow> EvidenceRecord \<Rightarrow> bool" where
  "same_evidence old rec \<longleftrightarrow> rec = old\<lparr>er_until' := er_until' rec, er_basis' := er_basis' rec,
     er_legalHold' := er_legalHold' rec, er_deleted := er_deleted rec\<rparr>"

definition about :: "string \<Rightarrow> AttestationRecord \<Rightarrow> bool" where
  "about q rec \<longleftrightarrow> ar_subject rec = q \<or> ar_passport rec = Some q"

locale store_contract =
  fixes S :: "'s Store" and view :: "'s \<Rightarrow> AbsStore" and ok :: "'s \<Rightarrow> bool"
  assumes get_att: "ok s \<Longrightarrow> getAttestationById S s i = Inr r \<Longrightarrow> r = as_att (view s) i"
    and get_att_content: "ok s \<Longrightarrow> key_hash h \<Longrightarrow> getAttestationByContentHash S s t h = Inr r \<Longrightarrow>
      r = Option.bind (as_attKey (view s) (t, h)) (as_att (view s))"
    and put_att: "ok s \<Longrightarrow> fresh_att (view s) rec \<Longrightarrow> putAttestation S s rec = Inr s' \<Longrightarrow>
      ok s' \<and> view s' = abs_putAttestation (view s) rec"
    and set_status: "ok s \<Longrightarrow> setAttestationStatus S s i st = Inr s' \<Longrightarrow>
      ok s' \<and> view s' = abs_setAttestationStatus (view s) i st"
    and list_att: "ok s \<Longrightarrow> listAttestationsBySubject S s q = Inr rs \<Longrightarrow>
      set rs = {rec. \<exists>i. as_att (view s) i = Some rec \<and> about q rec}"
    and append_status: "ok s \<Longrightarrow> as_att (view s) (se_registryId e) \<noteq> None \<Longrightarrow> appendStatus S s e = Inr s' \<Longrightarrow>
      ok s' \<and> view s' = abs_appendStatus (view s) e"
    and latest_status: "ok s \<Longrightarrow> getLatestStatus S s i = Inr st' \<Longrightarrow> st' = last_opt (as_status (view s) i)"
    and get_ev: "ok s \<Longrightarrow> getEvidenceById S s i = Inr eo \<Longrightarrow> eo = as_ev (view s) i"
    and get_ev_content: "ok s \<Longrightarrow> key_hash h \<Longrightarrow> getEvidenceByContentHash S s t h = Inr eo \<Longrightarrow>
      eo = Option.bind (as_evKey (view s) (t, h)) (as_ev (view s))"
    and put_ev: "ok s \<Longrightarrow> fresh_ev (view s) ev \<Longrightarrow> putEvidence S s ev = Inr s' \<Longrightarrow>
      ok s' \<and> view s' = abs_putEvidence (view s) ev"
    and update_ev: "ok s \<Longrightarrow> as_ev (view s) (er_evidenceId ev) = Some old \<Longrightarrow> same_evidence old ev \<Longrightarrow>
      updateEvidence S s ev = Inr s' \<Longrightarrow> ok s' \<and> view s' = abs_updateEvidence (view s) ev"
    and list_ev: "ok s \<Longrightarrow> listEvidenceBySubject S s q = Inr es \<Longrightarrow> e' \<in> set es \<Longrightarrow>
      as_ev (view s) (er_evidenceId e') = Some e' \<and> \<not> er_deleted e'"
    and put_ckpt: "ok s \<Longrightarrow> putCheckpoint S s c = Inr s' \<Longrightarrow> ok s' \<and> view s' = abs_putCheckpoint (view s) c"
    and latest_ckpt: "ok s \<Longrightarrow> latestCheckpoint S s l = Inr (Some c) \<Longrightarrow> c \<in> set (as_ckpts (view s) l)"
    and append_leaf: "ok s \<Longrightarrow> appendLeaf S s l x = Inr (n, s') \<Longrightarrow>
      ok s' \<and> n = length (as_leaves (view s) l) \<and> view s' = abs_appendLeaf (view s) l x"
    and get_leaves: "ok s \<Longrightarrow> getLeaves S s l = Inr ls \<Longrightarrow> ls = as_leaves (view s) l"

text \<open>A store none of whose operations throws.\<close>

locale total_store = store_contract +
  assumes reads_succeed: "ok s \<Longrightarrow> \<exists>r. getAttestationById S s i = Inr r"
    "ok s \<Longrightarrow> \<exists>r. getAttestationByContentHash S s t h = Inr r"
    "ok s \<Longrightarrow> \<exists>r. listAttestationsBySubject S s q = Inr r"
    "ok s \<Longrightarrow> \<exists>r. getLatestStatus S s i = Inr r"
    "ok s \<Longrightarrow> \<exists>r. getEvidenceById S s i = Inr r"
    "ok s \<Longrightarrow> \<exists>r. getEvidenceByContentHash S s t h = Inr r"
    "ok s \<Longrightarrow> \<exists>r. listEvidenceBySubject S s q = Inr r"
    "ok s \<Longrightarrow> \<exists>r. latestCheckpoint S s l = Inr r"
    "ok s \<Longrightarrow> \<exists>r. getLeaves S s l = Inr r"
    and writes_succeed: "ok s \<Longrightarrow> \<exists>s'. putAttestation S s rec = Inr s'"
    "ok s \<Longrightarrow> \<exists>s'. setAttestationStatus S s i st = Inr s'"
    "ok s \<Longrightarrow> \<exists>s'. appendStatus S s e = Inr s'"
    "ok s \<Longrightarrow> \<exists>s'. putEvidence S s ev = Inr s'"
    "ok s \<Longrightarrow> \<exists>s'. updateEvidence S s ev = Inr s'"
    "ok s \<Longrightarrow> \<exists>s'. putCheckpoint S s c = Inr s'"
    "ok s \<Longrightarrow> \<exists>n s'. appendLeaf S s l x = Inr (n, s')"

subsection \<open>Objects held in two maps\<close>

text \<open>References are valid, an object stored under an identifier or a content key has it, and both maps
  agree on which object that is.\<close>

definition table_ok ::
  "('r \<Rightarrow> string) \<Rightarrow> ('r \<Rightarrow> string) \<Rightarrow> 'r list \<Rightarrow> (string, nat) jsmap \<Rightarrow> (string, nat) jsmap \<Rightarrow> bool" where
  "table_ok idf keyf objs byId byKey \<longleftrightarrow> distinct (map fst byId)
     \<and> (\<forall>k r. map_of byId k = Some r \<longrightarrow> r < length objs \<and> idf (objs ! r) = k)
     \<and> (\<forall>k r. map_of byKey k = Some r \<longrightarrow>
          r < length objs \<and> keyf (objs ! r) = k \<and> map_of byId (idf (objs ! r)) = Some r)
     \<and> (\<forall>k r. map_of byId k = Some r \<longrightarrow> map_of byKey (keyf (objs ! r)) = Some r)"

definition table_get :: "'r list \<Rightarrow> (string, nat) jsmap \<Rightarrow> string \<Rightarrow> 'r option" where
  "table_get objs m k = map_option ((!) objs) (map_of m k)"

lemma table_ok_id:
  "table_ok idf keyf objs byId byKey \<Longrightarrow> map_of byId k = Some r \<Longrightarrow> r < length objs \<and> idf (objs ! r) = k"
  and table_ok_key:
  "table_ok idf keyf objs byId byKey \<Longrightarrow> map_of byKey k = Some r \<Longrightarrow>
    r < length objs \<and> keyf (objs ! r) = k \<and> map_of byId (idf (objs ! r)) = Some r"
  and table_ok_found:
  "table_ok idf keyf objs byId byKey \<Longrightarrow> map_of byId k = Some r \<Longrightarrow> map_of byKey (keyf (objs ! r)) = Some r"
  unfolding table_ok_def by blast+

lemma table_okI:
  assumes "distinct (map fst byId)"
    and "\<And>k r. map_of byId k = Some r \<Longrightarrow> r < length objs \<and> idf (objs ! r) = k"
    and "\<And>k r. map_of byKey k = Some r \<Longrightarrow>
      r < length objs \<and> keyf (objs ! r) = k \<and> map_of byId (idf (objs ! r)) = Some r"
    and "\<And>k r. map_of byId k = Some r \<Longrightarrow> map_of byKey (keyf (objs ! r)) = Some r"
  shows "table_ok idf keyf objs byId byKey"
  using assms unfolding table_ok_def by blast

lemma table_ok_put:
  assumes "table_ok idf keyf objs byId byKey" "map_of byId (idf x) = None" "map_of byKey (keyf x) = None"
  shows "table_ok idf keyf (objs @ [x]) (AList.update (idf x) (length objs) byId)
    (AList.update (keyf x) (length objs) byKey)"
proof (rule table_okI)
  show "distinct (map fst (AList.update (idf x) (length objs) byId))"
    using assms(1) by (simp add: table_ok_def distinct_update)
next
  fix k r assume "map_of (AList.update (idf x) (length objs) byId) k = Some r"
  then show "r < length (objs @ [x]) \<and> idf ((objs @ [x]) ! r) = k"
    using table_ok_id[OF assms(1), of k r] by (auto simp: update_conv' nth_append split: if_splits)
next
  fix k r assume "map_of (AList.update (keyf x) (length objs) byKey) k = Some r"
  then show "r < length (objs @ [x]) \<and> keyf ((objs @ [x]) ! r) = k
      \<and> map_of (AList.update (idf x) (length objs) byId) (idf ((objs @ [x]) ! r)) = Some r"
    using table_ok_key[OF assms(1), of k r] assms(2)
    by (auto simp: update_conv' nth_append split: if_splits)
next
  fix k r assume "map_of (AList.update (idf x) (length objs) byId) k = Some r"
  then show "map_of (AList.update (keyf x) (length objs) byKey) (keyf ((objs @ [x]) ! r)) = Some r"
    using table_ok_id[OF assms(1), of k r] table_ok_found[OF assms(1), of k r] assms(3)
    by (auto simp: update_conv' nth_append split: if_splits)
qed

lemma table_get_put:
  assumes "table_ok idf keyf objs byId byKey"
  shows "table_get (objs @ [x]) (AList.update (idf x) (length objs) byId) =
    (table_get objs byId)(idf x \<mapsto> x)"
proof
  fix k show "table_get (objs @ [x]) (AList.update (idf x) (length objs) byId) k =
    ((table_get objs byId)(idf x \<mapsto> x)) k"
    using table_ok_id[OF assms, of k]
    by (cases "map_of byId k") (auto simp: table_get_def update_conv' nth_append)
qed

lemma table_ok_set:
  assumes "table_ok idf keyf objs byId byKey" "map_of byId i = Some r"
    and "idf x = idf (objs ! r)" "keyf x = keyf (objs ! r)"
  shows "table_ok idf keyf (objs[r := x]) byId byKey"
proof (rule table_okI)
  show "distinct (map fst byId)" using assms(1) by (simp add: table_ok_def)
next
  fix k r' assume "map_of byId k = Some r'"
  then show "r' < length (objs[r := x]) \<and> idf (objs[r := x] ! r') = k"
    using table_ok_id[OF assms(1), of k r'] assms(3) by (cases "r' = r") auto
next
  fix k r' assume "map_of byKey k = Some r'"
  then show "r' < length (objs[r := x]) \<and> keyf (objs[r := x] ! r') = k
      \<and> map_of byId (idf (objs[r := x] ! r')) = Some r'"
    using table_ok_key[OF assms(1), of k r'] assms(3,4) by (cases "r' = r") auto
next
  fix k r' assume "map_of byId k = Some r'"
  then show "map_of byKey (keyf (objs[r := x] ! r')) = Some r'"
    using table_ok_found[OF assms(1), of k r'] assms(4) table_ok_id[OF assms(1,2)] by (cases "r' = r") auto
qed

lemma table_get_set:
  assumes "table_ok idf keyf objs byId byKey" "map_of byId i = Some r"
  shows "table_get (objs[r := x]) byId = (table_get objs byId)(i \<mapsto> x)"
proof
  fix k show "table_get (objs[r := x]) byId k = ((table_get objs byId)(i \<mapsto> x)) k"
    using table_ok_id[OF assms(1), of k] table_ok_id[OF assms] assms(2)
    by (cases "map_of byId k") (auto simp: table_get_def nth_list_update)
qed

lemma table_get_key:
  assumes "table_ok idf keyf objs byId byKey"
  shows "table_get objs byKey k = Option.bind (map_option idf (table_get objs byKey k)) (table_get objs byId)"
  using table_ok_key[OF assms, of k] by (cases "map_of byKey k") (auto simp: table_get_def)

lemma table_values:
  assumes "table_ok idf keyf objs byId byKey"
  shows "set (map (\<lambda>(k, r). objs ! r) byId) = {x. \<exists>k. table_get objs byId k = Some x}"
proof -
  have "distinct (map fst byId)" using assms by (simp add: table_ok_def)
  then show ?thesis by (force simp: table_get_def map_of_eq_Some_iff)
qed

subsection \<open>The in-memory store keeps the contract\<close>

definition att_key :: "AttestationRecord \<Rightarrow> string" where
  "att_key rec = contentKey (ar_tenant rec) (ar_contentHash rec)"

definition ev_key :: "EvidenceRecord \<Rightarrow> string" where
  "ev_key rec = contentKey (er_tenant rec) (er_contentHash' rec)"

text \<open>The well-formed states: both tables are, and the stored content hashes are usable as keys.\<close>

definition mem_ok :: "MemoryStore \<Rightarrow> bool" where
  "mem_ok s \<longleftrightarrow> table_ok ar_registryId att_key (attObjs s) (attById s) (attByContent s)
     \<and> table_ok er_evidenceId ev_key (evObjs s) (evById s) (evByContent s)"

definition table_keys ::
  "('r \<Rightarrow> string) \<Rightarrow> 'r list \<Rightarrow> (string, nat) jsmap \<Rightarrow> string \<times> string \<Rightarrow> string option" where
  "table_keys idf objs byKey = (\<lambda>(t, h).
     if key_hash h then map_option idf (table_get objs byKey (contentKey t h)) else None)"

definition mem_abs :: "MemoryStore \<Rightarrow> AbsStore" where
  "mem_abs s = \<lparr>
     as_leaves = jsmap_list (leavesByLog s),
     as_att = table_get (attObjs s) (attById s),
     as_attKey = table_keys ar_registryId (attObjs s) (attByContent s),
     as_status = jsmap_list (statusByRegistry s),
     as_ev = table_get (evObjs s) (evById s),
     as_evKey = table_keys er_evidenceId (evObjs s) (evByContent s),
     as_ckpts = jsmap_list (checkpointsByLog s)\<rparr>"

lemma contentKey_inject:
  assumes "key_hash h" "key_hash h'"
  shows "contentKey t h = contentKey t' h' \<longleftrightarrow> t = t' \<and> h = h'"
proof
  assume "contentKey t h = contentKey t' h'"
  then have "rev (t @ CHR ''|'' # h) = rev (t' @ CHR ''|'' # h')"
    using assms by (simp add: contentKey_def key_hash_def)
  then have "rev h @ CHR ''|'' # rev t = rev h' @ CHR ''|'' # rev t'" by simp
  then have "rev h = rev h' \<and> rev t = rev t'"
    using assms by (subst (asm) append_sep_inject) (auto simp: key_hash_def)
  then show "t = t' \<and> h = h'" by simp
qed simp

lemma jsmap_list_set: "jsmap_list (jsmap_set m k v) = (jsmap_list m)(k := v)"
  by (auto simp: fun_eq_iff jsmap_list_def update_conv')

lemma same_evidenceD:
  assumes "same_evidence old rec"
  shows "er_evidenceId rec = er_evidenceId old" "er_tenant rec = er_tenant old"
    "er_contentHash' rec = er_contentHash' old" "er_logId rec = er_logId old"
    "er_leafIndex rec = er_leafIndex old"
  using arg_cong[OF assms[unfolded same_evidence_def], of er_evidenceId]
    arg_cong[OF assms[unfolded same_evidence_def], of er_tenant]
    arg_cong[OF assms[unfolded same_evidence_def], of er_contentHash']
    arg_cong[OF assms[unfolded same_evidence_def], of er_logId]
    arg_cong[OF assms[unfolded same_evidence_def], of er_leafIndex]
  by simp_all

text \<open>Storing a new object under a fresh identifier and key, seen through the two lookups.\<close>

lemma table_keys_put:
  assumes "table_ok idf keyf objs byId byKey" "key_hash h" "keyf x = contentKey t h"
  shows "table_keys idf (objs @ [x]) (AList.update (keyf x) (length objs) byKey) =
    (table_keys idf objs byKey)((t, h) \<mapsto> idf x)"
proof (rule ext, clarify)
  fix t' h'
  show "table_keys idf (objs @ [x]) (AList.update (keyf x) (length objs) byKey) (t', h') =
    ((table_keys idf objs byKey)((t, h) \<mapsto> idf x)) (t', h')"
  proof (cases "(t', h') = (t, h)")
    case True
    then show ?thesis
      using assms(2) by (simp add: table_keys_def table_get_def update_conv' assms(3))
  next
    case False
    have "map_of (AList.update (keyf x) (length objs) byKey) (contentKey t' h') = map_of byKey (contentKey t' h')"
      if "key_hash h'"
      using False contentKey_inject[OF that assms(2), of t' t] by (auto simp: update_conv' assms(3))
    moreover have "r < length objs" if "map_of byKey (contentKey t' h') = Some r" for r
      using table_ok_key[OF assms(1) that] ..
    ultimately show ?thesis
      using False by (cases "map_of byKey (contentKey t' h')") (auto simp: table_keys_def table_get_def nth_append)
  qed
qed

lemma table_keys_set:
  assumes "r < length objs" "idf x = idf (objs ! r)"
  shows "table_keys idf (objs[r := x]) byKey = table_keys idf objs byKey"
proof -
  have "idf (objs[r := x] ! r') = idf (objs ! r')" for r'
    using assms by (cases "r' = r") auto
  then have "map_option idf (table_get (objs[r := x]) byKey k) = map_option idf (table_get objs byKey k)" for k
    by (cases "map_of byKey k") (simp_all add: table_get_def)
  then show ?thesis unfolding table_keys_def by (simp only:)
qed

lemma map_option_upd: "map_option f \<circ> m(k \<mapsto> v) = (map_option f \<circ> m)(k \<mapsto> f v)"
  by (simp add: fun_eq_iff)

lemma mem_get_eqs:
  "mem_getAttestationById s i = Inr (table_get (attObjs s) (attById s) i)"
  "mem_getAttestationByContentHash s t h = Inr (table_get (attObjs s) (attByContent s) (contentKey t h))"
  "mem_getEvidenceById s i = Inr (table_get (evObjs s) (evById s) i)"
  "mem_getEvidenceByContentHash s t h = Inr (table_get (evObjs s) (evByContent s) (contentKey t h))"
  by (simp_all add: mem_getAttestationById_def mem_getAttestationByContentHash_def
      mem_getEvidenceById_def mem_getEvidenceByContentHash_def table_get_def)

lemma mem_put_att:
  assumes "mem_ok s" "fresh_att (mem_abs s) rec" "mem_putAttestation s rec = Inr s'"
  shows "mem_ok s' \<and> mem_abs s' = abs_putAttestation (mem_abs s) rec"
proof -
  have t: "table_ok ar_registryId att_key (attObjs s) (attById s) (attByContent s)"
    using assms(1) by (simp add: mem_ok_def)
  have n: "map_of (attById s) (ar_registryId rec) = None" "map_of (attByContent s) (att_key rec) = None"
    and k: "key_hash (ar_contentHash rec)"
    using assms(2) by (auto simp: fresh_att_def mem_abs_def table_get_def table_keys_def att_key_def)
  have "s' = s\<lparr>attObjs := attObjs s @ [rec],
      attById := jsmap_set (attById s) (ar_registryId rec) (length (attObjs s)),
      attByContent := jsmap_set (attByContent s) (att_key rec) (length (attObjs s))\<rparr>"
    using assms(3) by (simp add: mem_putAttestation_def Let_def att_key_def)
  then show ?thesis
    using assms(1) table_ok_put[OF t n] table_get_put[OF t, of rec] table_keys_put[OF t k att_key_def]
    by (simp add: mem_ok_def mem_abs_def abs_putAttestation_def map_option_upd)
qed

lemma mem_set_status:
  assumes "mem_ok s" "mem_setAttestationStatus s i st = Inr s'"
  shows "mem_ok s' \<and> mem_abs s' = abs_setAttestationStatus (mem_abs s) i st"
proof (cases "map_of (attById s) i")
  case None
  then have "s' = s" "table_get (attObjs s) (attById s) i = None"
    using assms(2) by (simp_all add: mem_setAttestationStatus_def table_get_def)
  then show ?thesis
    using assms(1) by (simp add: abs_setAttestationStatus_def mem_abs_def fun_upd_idem)
next
  case (Some r)
  let ?x = "(attObjs s ! r)\<lparr>ar_status := st\<rparr>"
  have t: "table_ok ar_registryId att_key (attObjs s) (attById s) (attByContent s)"
    using assms(1) by (simp add: mem_ok_def)
  have k: "table_keys ar_registryId ((attObjs s)[r := ?x]) (attByContent s) =
      table_keys ar_registryId (attObjs s) (attByContent s)"
    by (rule table_keys_set) (use table_ok_id[OF t Some] in simp_all)
  have "s' = s\<lparr>attObjs := (attObjs s)[r := ?x]\<rparr>" "table_get (attObjs s) (attById s) i = Some (attObjs s ! r)"
    using assms(2) Some by (simp_all add: mem_setAttestationStatus_def table_get_def)
  then show ?thesis
    using assms(1) table_ok_set[OF t Some, of ?x] table_get_set[OF t Some, of ?x] k
    by (simp add: abs_setAttestationStatus_def mem_abs_def mem_ok_def att_key_def map_option_upd)
qed

lemma mem_put_ev:
  assumes "mem_ok s" "fresh_ev (mem_abs s) rec" "mem_putEvidence s rec = Inr s'"
  shows "mem_ok s' \<and> mem_abs s' = abs_putEvidence (mem_abs s) rec"
proof -
  have t: "table_ok er_evidenceId ev_key (evObjs s) (evById s) (evByContent s)"
    using assms(1) by (simp add: mem_ok_def)
  have n: "map_of (evById s) (er_evidenceId rec) = None" "map_of (evByContent s) (ev_key rec) = None"
    and k: "key_hash (er_contentHash' rec)"
    using assms(2) by (auto simp: fresh_ev_def mem_abs_def table_get_def table_keys_def ev_key_def)
  have "s' = s\<lparr>evObjs := evObjs s @ [rec],
      evById := jsmap_set (evById s) (er_evidenceId rec) (length (evObjs s)),
      evByContent := jsmap_set (evByContent s) (ev_key rec) (length (evObjs s))\<rparr>"
    using assms(3) by (simp add: mem_putEvidence_def set_evidence_def ev_key_def)
  then show ?thesis
    using assms(1) table_ok_put[OF t n] table_get_put[OF t, of rec] table_keys_put[OF t k ev_key_def]
    by (simp add: mem_ok_def mem_abs_def abs_putEvidence_def map_option_upd)
qed

lemma mem_update_ev:
  assumes "mem_ok s" "as_ev (mem_abs s) (er_evidenceId rec) = Some old" "same_evidence old rec"
    and "mem_updateEvidence s rec = Inr s'"
  shows "mem_ok s' \<and> mem_abs s' = abs_updateEvidence (mem_abs s) rec"
proof -
  obtain r where r: "map_of (evById s) (er_evidenceId rec) = Some r" "(evObjs s ! r) = old"
    using assms(2) by (auto simp: mem_abs_def table_get_def)
  have t: "table_ok er_evidenceId ev_key (evObjs s) (evById s) (evByContent s)"
    using assms(1) by (simp add: mem_ok_def)
  note i = table_ok_id[OF t r(1)]
  have key: "er_evidenceId rec = er_evidenceId (evObjs s ! r)" "ev_key rec = ev_key (evObjs s ! r)"
    using same_evidenceD[OF assms(3)] arg_cong[OF r(2), of er_tenant]
      arg_cong[OF r(2), of er_evidenceId]
      arg_cong[OF r(2), of er_contentHash']
    by (simp_all add: ev_key_def)
  let ?objs = "(evObjs s)[r := rec]" and ?id = "er_evidenceId rec" and ?k = "ev_key rec"
  let ?byId = "AList.update ?id r (evById s)" and ?byKey = "AList.update ?k r (evByContent s)"
  have s': "s' = s\<lparr>evObjs := ?objs, evById := ?byId, evByContent := ?byKey\<rparr>"
    using assms(4) r(1) by (simp add: mem_updateEvidence_def set_evidence_def ev_key_def)
  have maps: "map_of ?byId = map_of (evById s)" "map_of ?byKey = map_of (evByContent s)"
    using r(1) table_ok_found[OF t r(1)] key(2) by (auto simp: update_conv')
  have get: "table_get objs ?byId = table_get objs (evById s)"
    "table_get objs ?byKey = table_get objs (evByContent s)" for objs :: "EvidenceRecord list"
    by (simp_all add: table_get_def maps fun_eq_iff)
  have T: "table_ok er_evidenceId ev_key ?objs ?byId ?byKey"
    using table_ok_set[OF t r(1) key] by (simp add: table_ok_def maps distinct_update)
  have "table_keys er_evidenceId ?objs ?byKey = table_keys er_evidenceId (evObjs s) (evByContent s)"
    using table_keys_set[OF conjunct1[OF i] key(1), of "evByContent s"] unfolding table_keys_def get .
  then show ?thesis
    using assms(1) T table_get_set[OF t r(1), of rec]
    by (simp add: s' mem_ok_def mem_abs_def abs_updateEvidence_def map_option_upd get)
qed

lemma mem_get_content:
  assumes "table_ok idf keyf objs byId byKey" "key_hash h"
  shows "table_get objs byKey (contentKey t h) =
    Option.bind (table_keys idf objs byKey (t, h)) (table_get objs byId)"
proof (cases "table_get objs byKey (contentKey t h)")
  case None
  then show ?thesis by (simp add: table_keys_def)
next
  case (Some x)
  then have "table_get objs byId (idf x) = Some x"
    using table_get_key[OF assms(1), of "contentKey t h"] by simp
  with Some assms(2) show ?thesis by (simp add: table_keys_def)
qed

lemma mem_list_att:
  assumes "mem_ok s" "mem_listAttestationsBySubject s q = Inr rs"
  shows "set rs = {rec. \<exists>i. as_att (mem_abs s) i = Some rec \<and> about q rec}"
proof -
  have t: "table_ok ar_registryId att_key (attObjs s) (attById s) (attByContent s)"
    using assms(1) by (simp add: mem_ok_def)
  have "set rs = {x. (\<exists>k. table_get (attObjs s) (attById s) k = Some x) \<and> about q x}"
    using assms(2) table_values[OF t]
    by (auto simp: mem_listAttestationsBySubject_def about_def simp del: set_map)
  then show ?thesis by (force simp: mem_abs_def about_def image_iff)
qed

lemma mem_list_ev:
  assumes "mem_ok s" "mem_listEvidenceBySubject s q = Inr es" "e \<in> set es"
  shows "as_ev (mem_abs s) (er_evidenceId e) = Some e \<and> \<not> er_deleted e"
proof -
  have t: "table_ok er_evidenceId ev_key (evObjs s) (evById s) (evByContent s)"
    using assms(1) by (simp add: mem_ok_def)
  have "(\<exists>k. table_get (evObjs s) (evById s) k = Some e) \<and> \<not> er_deleted e"
    using assms(2,3) table_values[OF t] by (auto simp: mem_listEvidenceBySubject_def simp del: set_map)
  then obtain k r where "map_of (evById s) k = Some r" "e = evObjs s ! r" "\<not> er_deleted e"
    by (auto simp: table_get_def)
  with table_ok_id[OF t, of k r] show ?thesis by (auto simp: mem_abs_def table_get_def)
qed

lemmas memory_store_defs = memory_store_def mem_getLatestStatus_def mem_appendStatus_def
  mem_putCheckpoint_def mem_latestCheckpoint_def mem_appendLeaf_def mem_getLeaves_def
  mem_listAttestationsBySubject_def mem_listEvidenceBySubject_def mem_get_eqs

interpretation mem: total_store memory_store mem_abs mem_ok
proof (unfold_locales, goal_cases)
  case (1 s i r) then show ?case by (auto simp: memory_store_defs mem_abs_def)
next
  case (2 s h t r) then show ?case
    using mem_get_content[of ar_registryId att_key "attObjs s" "attById s" "attByContent s" h t]
    by (simp add: memory_store_defs mem_abs_def mem_ok_def)
next
  case (3 s rec s') then show ?case by (intro mem_put_att) (simp_all add: memory_store_def)
next
  case (4 s i st s') then show ?case by (intro mem_set_status) (simp_all add: memory_store_def)
next
  case (5 s q rs) then show ?case by (intro mem_list_att) (simp_all add: memory_store_def)
next
  case (6 s e s') then show ?case
    by (auto simp: memory_store_defs mem_abs_def mem_ok_def abs_appendStatus_def jsmap_list_set)
next
  case (7 s i st') then show ?case by (simp add: memory_store_defs mem_abs_def)
next
  case (8 s i eo) then show ?case by (auto simp: memory_store_defs mem_abs_def)
next
  case (9 s h t eo) then show ?case
    using mem_get_content[of er_evidenceId ev_key "evObjs s" "evById s" "evByContent s" h t]
    by (simp add: memory_store_defs mem_abs_def mem_ok_def)
next
  case (10 s ev s') then show ?case by (intro mem_put_ev) (simp_all add: memory_store_def)
next
  case (11 s ev old s') then show ?case by (intro mem_update_ev) (simp_all add: memory_store_def)
next
  case (12 s q es e') then show ?case by (intro mem_list_ev) (simp_all add: memory_store_def)
next
  case (13 s c s') then show ?case
    by (auto simp: memory_store_defs mem_abs_def mem_ok_def abs_putCheckpoint_def jsmap_list_set)
next
  case (14 s l c) then show ?case
    by (auto simp: memory_store_defs mem_abs_def last_opt_def split: if_splits)
next
  case (15 s l x n s') then show ?case
    by (auto simp: memory_store_defs mem_abs_def mem_ok_def abs_appendLeaf_def jsmap_list_set Let_def)
next
  case (16 s l ls) then show ?case by (simp add: memory_store_defs mem_abs_def)
qed (auto simp: memory_store_defs mem_putAttestation_def mem_setAttestationStatus_def mem_putEvidence_def
    mem_updateEvidence_def Let_def split: option.splits)

lemma newMemoryStore_ok [simp]: "mem_ok newMemoryStore"
  by (simp add: mem_ok_def table_ok_def newMemoryStore_def)

text \<open>A status change is seen through every lookup.  After a record with a fresh identifier and content
  hash is stored in a well-formed in-memory store and its status is set by identifier, both the lookup
  by identifier and the lookup by tenant and content hash (in any letter case) return the record with the new status, and
  every other record is as before.\<close>

theorem status_change_seen_by_content:
  assumes "mem_ok s" "fresh_att (mem_abs s) rec" "mem_putAttestation s rec = Inr s1"
    and "mem_setAttestationStatus s1 (ar_registryId rec) st = Inr s2" "to_lower h = ar_contentHash rec"
  shows "mem_ok s2
    \<and> mem_getAttestationById s2 (ar_registryId rec) = Inr (Some (rec\<lparr>ar_status := st\<rparr>))
    \<and> mem_getAttestationByContentHash s2 (ar_tenant rec) h = Inr (Some (rec\<lparr>ar_status := st\<rparr>))
    \<and> (\<forall>i. i \<noteq> ar_registryId rec \<longrightarrow> mem_getAttestationById s2 i = mem_getAttestationById s i)"
proof -
  have t: "table_ok ar_registryId att_key (attObjs s) (attById s) (attByContent s)"
    using assms(1) by (simp add: mem_ok_def)
  have n: "map_of (attById s) (ar_registryId rec) = None"
    using assms(2) by (auto simp: fresh_att_def mem_abs_def table_get_def)
  have k: "contentKey (ar_tenant rec) h = att_key rec"
    using assms(2,5) by (simp add: att_key_def contentKey_def fresh_att_def key_hash_def)
  have r: "\<And>i r. map_of (attById s) i = Some r \<Longrightarrow> r < length (attObjs s)" using table_ok_id[OF t] by blast
  have "mem_ok s1" using mem_put_att[OF assms(1-3)] ..
  from mem_set_status[OF this assms(4)] have "mem_ok s2" ..
  moreover have s2: "s2 = s\<lparr>attObjs := attObjs s @ [rec\<lparr>ar_status := st\<rparr>],
      attById := jsmap_set (attById s) (ar_registryId rec) (length (attObjs s)),
      attByContent := jsmap_set (attByContent s) (att_key rec) (length (attObjs s))\<rparr>"
    using assms(3,4) by (auto simp: mem_putAttestation_def mem_setAttestationStatus_def Let_def att_key_def update_conv')
  moreover have "table_get (attObjs s @ [x]) (attById s) i = table_get (attObjs s) (attById s) i" for x i
    using r[of i] by (cases "map_of (attById s) i") (simp_all add: table_get_def nth_append)
  ultimately show ?thesis
    by (simp add: mem_get_eqs k) (simp add: table_get_def update_conv')
qed

definition sample_att :: AttestationRecord where
  "sample_att = \<lparr>ar_registryId = ''reg:att:01'', ar_subject = ''did:hara:a'', ar_issuer = ''did:hara:tenant:b'',
     ar_recordType = ''assay'', ar_contentHash = ''0xab'', ar_hashAlg = ''sha256'', ar_status = Active,
     ar_tenant = ''did:hara:tenant:b'', ar_logId = ''tenant:b'', ar_leafIndex = 0, ar_leafHash = ''0xcd'',
     ar_passport = None, ar_links = None, ar_issuedAt = None, ar_anchoredAt = ''2024-01-01T00:00:00.000Z''\<rparr>"

theorem status_change_seen_by_content_witness:
  "\<exists>s1 s2. mem_putAttestation newMemoryStore sample_att = Inr s1
    \<and> mem_setAttestationStatus s1 ''reg:att:01'' Revoked = Inr s2
    \<and> mem_getAttestationByContentHash s2 ''did:hara:tenant:b'' ''0xAB'' = Inr (Some (sample_att\<lparr>ar_status := Revoked\<rparr>))"
proof -
  have f: "fresh_att (mem_abs newMemoryStore) sample_att"
    by (simp add: fresh_att_def mem_abs_def newMemoryStore_def sample_att_def key_hash_def lower_char_def
        table_get_def table_keys_def)
  obtain s1 where s1: "mem_putAttestation newMemoryStore sample_att = Inr s1"
    by (simp add: mem_putAttestation_def Let_def)
  obtain s2 where s2: "mem_setAttestationStatus s1 (ar_registryId sample_att) Revoked = Inr s2"
    by (simp add: mem_setAttestationStatus_def)
  have "to_lower ''0xAB'' = ar_contentHash sample_att"
    unfolding sample_att_def by code_simp
  from status_change_seen_by_content[OF newMemoryStore_ok f s1 s2 this] show ?thesis
    using s1 s2 by (auto simp: sample_att_def)
qed

end
