(* ===== verification/AnchorService.thy ===== *)
theory AnchorService
  imports LedgerTypes
begin

text \<open>
  Configuration (\<open>services/registry-ledger/src/config.ts\<close>), the post-quantum helpers and the canonical
  Signed Tree Head (\<open>services/pq.ts\<close>), and the service that signs a tree head and commits it on chain
  (\<open>services/anchor.ts\<close>).  ML-DSA-65 and Keccak-256 are parameters (the record \<open>Crypto\<close>).  What the
  service reads from outside, the clock and the answers of the chain, are streams in the \<open>World\<close>;
  the transactions it submits are appended to a trace there.
\<close>

subsection \<open>Configuration\<close>

text \<open>The regular expression \<open>/^0x[0-9a-fA-F]{n}$/\<close>.\<close>

definition hex_re :: "nat \<Rightarrow> string \<Rightarrow> bool" where
  "hex_re n s \<longleftrightarrow> starts_with ''0x'' s \<and> length s = n + 2 \<and> list_all (\<lambda>c. hex_val c \<noteq> None) (drop 2 s)"

type_synonym env = "string \<Rightarrow> string option"

definition env_str :: "env \<Rightarrow> string \<Rightarrow> string option \<Rightarrow> string js" where
  "env_str env name fallback = (case env name of
     Some v \<Rightarrow> if v = [] then (case fallback of Some f \<Rightarrow> Inr f
                 | None \<Rightarrow> Inl (PlainError (''env '' @ name @ '' is required''))) else Inr v
   | None \<Rightarrow> (case fallback of Some f \<Rightarrow> Inr f
                 | None \<Rightarrow> Inl (PlainError (''env '' @ name @ '' is required''))))"

definition env_optional :: "env \<Rightarrow> string \<Rightarrow> string option" where
  "env_optional env name = (case env name of None \<Rightarrow> None | Some v \<Rightarrow> if v = [] then None else Some v)"

definition isRealPrivateKey :: "string option \<Rightarrow> bool" where
  "isRealPrivateKey v = (case v of None \<Rightarrow> False | Some s \<Rightarrow> hex_re 64 s)"

definition isRealSeed :: "string option \<Rightarrow> bool" where
  "isRealSeed v = (case v of None \<Rightarrow> False | Some s \<Rightarrow> hex_re 64 s)"

definition SHARED_PLATFORM_PQ_ANCHOR_REGISTRY :: string where
  "SHARED_PLATFORM_PQ_ANCHOR_REGISTRY = ''0x8A791620dd6260079BF849Dc5567aDC3F2FdC318''"

definition ZERO_ADDRESS :: string where
  "ZERO_ADDRESS = ''0x0000000000000000000000000000000000000000''"

definition isLedgerScopedRegistry :: "string \<Rightarrow> bool" where
  "isLedgerScopedRegistry v \<longleftrightarrow> hex_re 40 v \<and> to_lower v \<noteq> to_lower ZERO_ADDRESS
     \<and> to_lower v \<noteq> to_lower SHARED_PLATFORM_PQ_ANCHOR_REGISTRY"

text \<open>The fields of \<open>config\<close> the services read; numbers are given already converted.\<close>

record Config =
  cf_jwksUrl :: "string option"
  cf_issuer :: "string option"
  cf_audience :: string
  cf_chainId :: int
  cf_pqAnchorRegistry :: string
  cf_anchorGasLimit :: int
  cf_pqAlgorithm :: string
  cf_anchorEcdsaKey :: "string option"
  cf_pqMldsaSeed :: "string option"
  cf_pgUrl :: "string option"

definition loadConfig :: "env \<Rightarrow> (string \<Rightarrow> int) \<Rightarrow> (string \<Rightarrow> int js) \<Rightarrow> Config js" where
  "loadConfig env toNumber toBigInt =
     bindE (env_str env ''NUMIRA_AUDIENCE'' (Some ''attest.ledger.haratrust.io'')) (\<lambda>audience.
     bindE (env_str env ''CHAIN_ID'' (Some ''131216'')) (\<lambda>chainId.
     bindE (env_str env ''PQ_ANCHOR_REGISTRY'' (Some ZERO_ADDRESS)) (\<lambda>registry.
     bindE (env_str env ''ANCHOR_GAS_LIMIT'' (Some ''500000'')) (\<lambda>gas.
     bindE (toBigInt gas) (\<lambda>gasLimit.
     bindE (env_str env ''PQ_ALGORITHM'' (Some ''ML-DSA-65'')) (\<lambda>algorithm.
     Inr \<lparr>cf_jwksUrl = env_optional env ''NUMIRA_JWKS_URL'', cf_issuer = env_optional env ''NUMIRA_ISSUER'',
       cf_audience = audience, cf_chainId = toNumber chainId, cf_pqAnchorRegistry = registry,
       cf_anchorGasLimit = gasLimit, cf_pqAlgorithm = algorithm,
       cf_anchorEcdsaKey = env_optional env ''ANCHOR_ECDSA_KEY'', cf_pqMldsaSeed = env_optional env ''PQ_MLDSA_SEED'',
       cf_pgUrl = env_optional env ''PG_URL''\<rparr>))))))"

subsection \<open>ML-DSA-65 and the canonical Signed Tree Head\<close>

record Crypto =
  cy_sha256 :: "bytes \<Rightarrow> bytes"
  cy_keccak :: "bytes \<Rightarrow> bytes"
  cy_keygen :: "bytes \<Rightarrow> bytes \<times> bytes"
  cy_sign :: "bytes \<Rightarrow> bytes \<Rightarrow> bytes"
  cy_verify :: "bytes \<Rightarrow> bytes \<Rightarrow> bytes \<Rightarrow> bool"

record PqKeypair =
  publicKey :: bytes
  secretKey :: bytes

definition PQ_SIGNATURE_BYTES :: nat where "PQ_SIGNATURE_BYTES = 3309"
definition PQ_PUBLIC_KEY_BYTES :: nat where "PQ_PUBLIC_KEY_BYTES = 1952"
definition PQ_SECRET_KEY_BYTES :: nat where "PQ_SECRET_KEY_BYTES = 4032"

definition keygenFromSeed :: "Crypto \<Rightarrow> bytes \<Rightarrow> PqKeypair js" where
  "keygenFromSeed cy seed =
     (if length seed \<noteq> 32 then Inl (PlainError ''seed must be 32 bytes'')
      else let (pub, sec) = cy_keygen cy seed in Inr \<lparr>publicKey = pub, secretKey = sec\<rparr>)"

definition publicKeyHash :: "Crypto \<Rightarrow> bytes \<Rightarrow> bytes js" where
  "publicKeyHash cy pub =
     (if length pub \<noteq> PQ_PUBLIC_KEY_BYTES
      then Inl (PlainError (''public key must be '' @ js_num PQ_PUBLIC_KEY_BYTES @ '' bytes''))
      else Inr (cy_keccak cy pub))"

definition pqSign :: "Crypto \<Rightarrow> bytes \<Rightarrow> bytes \<Rightarrow> bytes js" where
  "pqSign cy sec message =
     (if length sec \<noteq> PQ_SECRET_KEY_BYTES
      then Inl (PlainError (''secret key must be '' @ js_num PQ_SECRET_KEY_BYTES @ '' bytes''))
      else let sig = cy_sign cy sec message in
        if length sig \<noteq> PQ_SIGNATURE_BYTES
        then Inl (PlainError (''expected '' @ js_num PQ_SIGNATURE_BYTES @ ''-byte signature, got '' @ js_num (length sig)))
        else Inr sig)"

definition pqVerify :: "Crypto \<Rightarrow> bytes \<Rightarrow> bytes \<Rightarrow> bytes \<Rightarrow> bool" where
  "pqVerify cy pub message signature = cy_verify cy pub message signature"

text \<open>\<open>writeUInt16BE\<close> and \<open>writeBigUInt64BE\<close> throw a \<open>RangeError\<close> when the value does not fit.\<close>

definition u16 :: "nat \<Rightarrow> bytes js" where
  "u16 v = (if v < 2 ^ 16 then Inr (be_bytes 2 v) else Inl RangeError)"

definition u64 :: "int \<Rightarrow> bytes js" where
  "u64 v = (if 0 \<le> v \<and> v < 2 ^ 64 then Inr (be_bytes 8 (nat v)) else Inl RangeError)"

definition canonicalSTH :: "string \<Rightarrow> string \<Rightarrow> int \<Rightarrow> bytes \<Rightarrow> int \<Rightarrow> bytes js" where
  "canonicalSTH algorithm logId treeSz rootHash timestampMs =
     (let algoBytes = utf8 algorithm; logBytes = utf8 logId in
      bindE (u16 (length algoBytes)) (\<lambda>algoLen.
      bindE (u16 (length logBytes)) (\<lambda>logLen.
      if length rootHash \<noteq> 32 then Inl (PlainError ''rootHash must be 32 bytes'')
      else
        bindE (u64 treeSz) (\<lambda>size.
        bindE (u64 timestampMs) (\<lambda>time.
        Inr (algoLen @ algoBytes @ logLen @ logBytes @ size @ rootHash @ time))))))"

text \<open>The module's own \<open>fromHex\<close>: a pair that is no hexadecimal number becomes the byte 0 (NaN stored in a
  \<open>Uint8Array\<close>).\<close>

fun pq_pairs :: "string \<Rightarrow> bytes" where
  "pq_pairs (a # b # s) = word_of_int (case parseInt16 [a, b] of None \<Rightarrow> 0 | Some v \<Rightarrow> v) # pq_pairs s"
| "pq_pairs s = []"

definition pq_fromHex :: "string \<Rightarrow> bytes js" where
  "pq_fromHex hex = (let clean = (if starts_with ''0x'' hex then drop 2 hex else hex) in
     if length clean mod 2 \<noteq> 0 then Inl (PlainError ''hex length must be even'') else Inr (pq_pairs clean))"

definition pq_toHex :: "bytes \<Rightarrow> string" where
  "pq_toHex b = ''0x'' @ hex_of b"

subsection \<open>The anchor service\<close>

record Receipt =
  rc_success :: bool
  rc_blockNumber :: int
  rc_logs :: "(string \<times> string list) list"

text \<open>The arguments of one \<open>recordAnchor\<close> transaction.\<close>

record RecordAnchorTx =
  tx_to :: string
  tx_merkleRoot :: string
  tx_sha3Root :: string
  tx_blockFrom :: int
  tx_blockTo :: int
  tx_eventCount :: int
  tx_anchorChain :: bytes
  tx_pqSignatureHash :: bytes
  tx_gas :: int

text \<open>Everything outside the process: the clock (milliseconds), random bytes, and for each kind of call
  to the chain the answers to come (\<open>Inl\<close> is the message of a rejected call).\<close>

record World =
  wd_clock :: "int stream"
  wd_rand :: "bytes stream"
  wd_blockNumber :: "(string + int) stream"
  wd_submit :: "(string + string) stream"
  wd_receipt :: "(string + Receipt) stream"
  wd_sent :: "RecordAnchorTx list"

definition now :: "(World, int) op" where
  "now w = (Inr (shd (wd_clock w)), w\<lparr>wd_clock := stl (wd_clock w)\<rparr>)"

definition randomBytes :: "(World, bytes) op" where
  "randomBytes w = (Inr (shd (wd_rand w)), w\<lparr>wd_rand := stl (wd_rand w)\<rparr>)"

definition getBlockNumber :: "(World, string + int) op" where
  "getBlockNumber w = (Inr (shd (wd_blockNumber w)), w\<lparr>wd_blockNumber := stl (wd_blockNumber w)\<rparr>)"

definition writeContract :: "RecordAnchorTx \<Rightarrow> (World, string + string) op" where
  "writeContract tx w = (Inr (shd (wd_submit w)), w\<lparr>wd_submit := stl (wd_submit w), wd_sent := wd_sent w @ [tx]\<rparr>)"

definition waitForTransactionReceipt :: "(World, string + Receipt) op" where
  "waitForTransactionReceipt w = (Inr (shd (wd_receipt w)), w\<lparr>wd_receipt := stl (wd_receipt w)\<rparr>)"

record AnchorService =
  sv_config :: Config
  sv_account :: "string option"
  sv_pqKeypair :: "PqKeypair option"
  sv_pqKeyHashHex :: string

definition newAnchorService :: "Crypto \<Rightarrow> Config \<Rightarrow> AnchorService js" where
  "newAnchorService cy config =
     (let account = (if isRealPrivateKey (cf_anchorEcdsaKey config) then cf_anchorEcdsaKey config else None) in
      if isRealSeed (cf_pqMldsaSeed config) then
        bindE (pq_fromHex (case cf_pqMldsaSeed config of None \<Rightarrow> [] | Some s \<Rightarrow> s)) (\<lambda>seed.
        bindE (keygenFromSeed cy seed) (\<lambda>kp.
        bindE (publicKeyHash cy (publicKey kp)) (\<lambda>h.
        Inr \<lparr>sv_config = config, sv_account = account, sv_pqKeypair = Some kp, sv_pqKeyHashHex = pq_toHex h\<rparr>)))
      else Inr \<lparr>sv_config = config, sv_account = account, sv_pqKeypair = None,
             sv_pqKeyHashHex = ''0x'' @ replicate 64 CHR ''0''\<rparr>)"

definition writesEnabled :: "AnchorService \<Rightarrow> bool" where
  "writesEnabled sv \<longleftrightarrow> sv_account sv \<noteq> None \<and> sv_pqKeypair sv \<noteq> None
     \<and> isLedgerScopedRegistry (cf_pqAnchorRegistry (sv_config sv))"

text \<open>\<open>onChainId\<close>: the first log of the registry that has a topic; \<open>Inl\<close> when its second topic is no number.\<close>

fun find_onChainId :: "string \<Rightarrow> (string \<times> string list) list \<Rightarrow> string + string option" where
  "find_onChainId registry [] = Inr None"
| "find_onChainId registry ((address, topics) # logs) =
     (if to_lower address = to_lower registry \<and> topics \<noteq> [] \<and> hd topics \<noteq> [] then
        (case BigInt (if 1 < length topics then topics ! 1 else ''0x0'') of
           None \<Rightarrow> Inl ''Cannot convert to a BigInt''
         | Some v \<Rightarrow> Inr (Some (js_int v)))
      else find_onChainId registry logs)"

definition receipt_anchor :: "string \<Rightarrow> string + Receipt \<Rightarrow> (World, string option) op" where
  "receipt_anchor registry reply = (case reply of
     Inl msg \<Rightarrow> problem Chain_unavailable (''receipt wait failed: '' @ msg)
   | Inr receipt \<Rightarrow>
     if \<not> rc_success receipt
     then problem Chain_unavailable (''recordAnchor reverted in block '' @ js_int (rc_blockNumber receipt))
     else (case find_onChainId registry (rc_logs receipt) of
        Inl msg \<Rightarrow> problem Chain_unavailable (''receipt wait failed: '' @ msg)
      | Inr onChainId \<Rightarrow> ret onChainId))"

definition anchorSTH ::
  "Crypto \<Rightarrow> AnchorService \<Rightarrow> string \<Rightarrow> string \<Rightarrow> int \<Rightarrow> (World, STH) op" where
  "anchorSTH cy sv logId rootHex treeSz =
     (let config = sv_config sv in
      bindS now (\<lambda>timestamp.
      let sth = \<lparr>sth_log_id = logId, sth_tree_size = treeSz, sth_root_hash = rootHex,
                 sth_timestamp = toISOString timestamp, sth_anchor = None\<rparr> in
      bindS (liftJ (pq_fromHex rootHex)) (\<lambda>rootBytes.
      if length rootBytes \<noteq> 32 then problem Invalid_hash ''root_hash must be 32-byte 0x-prefixed hex''
      else
        bindS (case sv_pqKeypair sv of None \<Rightarrow> ret None
               | Some kp \<Rightarrow>
                 bindS (liftJ (canonicalSTH (cf_pqAlgorithm config) logId treeSz rootBytes timestamp)) (\<lambda>msg.
                 bindS (liftJ (pqSign cy (secretKey kp) msg)) (\<lambda>sig. ret (Some (cy_keccak cy sig))))) (\<lambda>pqSignatureHash.
        if \<not> writesEnabled sv then ret sth
        else (case pqSignatureHash of None \<Rightarrow> ret sth | Some sigHash \<Rightarrow>
          bindS getBlockNumber (\<lambda>reply.
          case reply of Inl msg \<Rightarrow> problem Chain_unavailable (''read RPC failed: '' @ msg) | Inr latest \<Rightarrow>
          (let safeHead = (if latest > 0 then latest - 1 else 0) in
           bindS (writeContract \<lparr>tx_to = cf_pqAnchorRegistry config, tx_merkleRoot = pq_toHex rootBytes,
               tx_sha3Root = pq_toHex rootBytes, tx_blockFrom = safeHead, tx_blockTo = safeHead,
               tx_eventCount = treeSz, tx_anchorChain = cy_keccak cy (utf8 logId),
               tx_pqSignatureHash = sigHash, tx_gas = cf_anchorGasLimit config\<rparr>) (\<lambda>submitted.
           case submitted of
             Inl msg \<Rightarrow> problem Chain_unavailable (''recordAnchor submit failed: '' @ msg)
           | Inr txHash \<Rightarrow>
             bindS waitForTransactionReceipt (\<lambda>reply.
             bindS (receipt_anchor (cf_pqAnchorRegistry config) reply) (\<lambda>onChainId.
             ret (sth\<lparr>sth_anchor := Some \<lparr>anc_chainId = cf_chainId config, anc_txHash = Some txHash,
               anc_onChainId = onChainId, anc_contract = Some (cf_pqAnchorRegistry config)\<rparr>\<rparr>)))))))))))"

subsection \<open>What a tree head message and an anchored tree head say\<close>

lemma u16_Inr_iff: "u16 v = Inr b \<longleftrightarrow> v < 2 ^ 16 \<and> b = be_bytes 2 v"
  by (auto simp: u16_def)

lemma u64_Inr_iff: "u64 v = Inr b \<longleftrightarrow> 0 \<le> v \<and> v < 2 ^ 64 \<and> b = be_bytes 8 (nat v)"
  by (auto simp: u64_def)

lemma u64_inject:
  assumes "u64 v = Inr b" "u64 w = Inr b"
  shows "v = w"
proof -
  have "nat v < 256 ^ 8" "nat w < 256 ^ 8" using assms by (auto simp: u64_Inr_iff)
  then have "nat v = nat w" using assms be_bytes_inject[of "nat v" 8 "nat w"] by (auto simp: u64_Inr_iff)
  then show ?thesis using assms by (auto simp: u64_Inr_iff)
qed

text \<open>A length-prefixed field can be read back from the front of a message.\<close>

lemma length_prefix_inject:
  assumes "u16 (length a) = Inr la" "u16 (length b) = Inr lb" "la @ a @ x = lb @ b @ y"
  shows "a = b \<and> x = y"
proof -
  have "be_bytes 2 (length a) = be_bytes 2 (length b)" "a @ x = b @ y"
    using assms by (auto simp: u16_Inr_iff)
  moreover have "length a < 256 ^ 2" "length b < 256 ^ 2" using assms by (auto simp: u16_Inr_iff)
  ultimately show ?thesis by (auto simp: be_bytes_inject)
qed

lemma canonicalSTH_Inr:
  assumes "canonicalSTH alg l n r t = Inr m"
  obtains la ll bn bt where "u16 (length (utf8 alg)) = Inr la" "u16 (length (utf8 l)) = Inr ll"
    "u64 n = Inr bn" "u64 t = Inr bt" "length r = 32"
    "m = la @ utf8 alg @ ll @ utf8 l @ bn @ r @ bt"
  using assms by (auto simp: canonicalSTH_def Let_def bindE_Inr_iff split: if_splits)

text \<open>C25: The canonical Signed Tree Head determines its fields.  Two messages are equal only when the
  algorithm, the log, the tree size, the root hash and the timestamp are, so a signature over one tree
  head is never a signature over another.\<close>

theorem canonicalSTH_inject:
  assumes "canonicalSTH alg l n r t = Inr m" "canonicalSTH alg' l' n' r' t' = Inr m"
  shows "alg = alg' \<and> l = l' \<and> n = n' \<and> r = r' \<and> t = t'"
proof -
  obtain la ll bn bt where 1: "u16 (length (utf8 alg)) = Inr la" "u16 (length (utf8 l)) = Inr ll"
    "u64 n = Inr bn" "u64 t = Inr bt" "length r = 32"
    "m = la @ utf8 alg @ ll @ utf8 l @ bn @ r @ bt"
    using assms(1) by (rule canonicalSTH_Inr)
  obtain la' ll' bn' bt' where 2: "u16 (length (utf8 alg')) = Inr la'" "u16 (length (utf8 l')) = Inr ll'"
    "u64 n' = Inr bn'" "u64 t' = Inr bt'" "length r' = 32"
    "m = la' @ utf8 alg' @ ll' @ utf8 l' @ bn' @ r' @ bt'"
    using assms(2) by (rule canonicalSTH_Inr)
  have a: "utf8 alg = utf8 alg' \<and> ll @ utf8 l @ bn @ r @ bt = ll' @ utf8 l' @ bn' @ r' @ bt'"
    using length_prefix_inject[OF 1(1) 2(1)] 1(6) 2(6) by blast
  have b: "utf8 l = utf8 l' \<and> bn @ r @ bt = bn' @ r' @ bt'"
    using length_prefix_inject[OF 1(2) 2(2)] a by blast
  have "length bn = length bn'" using 1(3) 2(3) by (auto simp: u64_Inr_iff)
  with b have "bn = bn'" "r = r'" "bt = bt'" using 1(5) 2(5) by auto
  with a b u64_inject[OF 1(3)] u64_inject[OF 1(4)] 2 show ?thesis by auto
qed

theorem canonicalSTH_inject_witness:
  "\<exists>m. canonicalSTH ''ML-DSA-65'' ''tenant:a'' 7 (pad32 [1]) 1700000000000 = Inr m
    \<and> (\<forall>n'. canonicalSTH ''ML-DSA-65'' ''tenant:a'' n' (pad32 [1]) 1700000000000 = Inr m \<longrightarrow> n' = 7)"
proof -
  obtain m where m: "canonicalSTH ''ML-DSA-65'' ''tenant:a'' 7 (pad32 [1]) 1700000000000 = Inr m"
    by (simp add: canonicalSTH_def u16_def u64_def Let_def)
  then show ?thesis using canonicalSTH_inject[OF _ m] by blast
qed

lemma pq_fromHex_toHex [simp]: "pq_fromHex (toHex b) = Inr b"
proof -
  have "pq_pairs (hex_of b) = b" by (induction b) simp_all
  then show ?thesis by (simp add: pq_fromHex_def toHex_def starts_with_def)
qed

text \<open>The interface the ledger relies on: a tree head is about the log, root and size it was asked for,
  and publishing one draws no random bytes.\<close>

locale anchor_contract =
  fixes A :: "string \<Rightarrow> string \<Rightarrow> int \<Rightarrow> (World, STH) op"
  assumes sth_fields: "A l r n w = (Inr sth, w') \<Longrightarrow>
      sth_log_id sth = l \<and> sth_tree_size sth = n \<and> sth_root_hash sth = r"
    and rand_kept: "A l r n w = (res, w') \<Longrightarrow> wd_rand w' = wd_rand w"

text \<open>The transaction \<open>anchorSTH\<close> submits, and the anchor it reports.\<close>

definition anchor_tx :: "Crypto \<Rightarrow> AnchorService \<Rightarrow> string \<Rightarrow> bytes \<Rightarrow> int \<Rightarrow> int \<Rightarrow> bytes \<Rightarrow> RecordAnchorTx" where
  "anchor_tx cy sv l root n latest sigHash =
     (let safeHead = (if latest > 0 then latest - 1 else 0) in
      \<lparr>tx_to = cf_pqAnchorRegistry (sv_config sv), tx_merkleRoot = pq_toHex root, tx_sha3Root = pq_toHex root,
       tx_blockFrom = safeHead, tx_blockTo = safeHead, tx_eventCount = n, tx_anchorChain = cy_keccak cy (utf8 l),
       tx_pqSignatureHash = sigHash, tx_gas = cf_anchorGasLimit (sv_config sv)\<rparr>)"

definition local_sth :: "string \<Rightarrow> string \<Rightarrow> int \<Rightarrow> int \<Rightarrow> STH" where
  "local_sth l r n t = \<lparr>sth_log_id = l, sth_tree_size = n, sth_root_hash = r, sth_timestamp = toISOString t,
     sth_anchor = None\<rparr>"

lemmas world_defs = now_def getBlockNumber_def writeContract_def waitForTransactionReceipt_def

lemma bindS_cases:
  assumes "bindS m f s = (r, t)"
  obtains (fail) e where "m s = (Inl e, t)" "r = Inl e" | (ok) x s' where "m s = (Inr x, s')" "f x s' = (r, t)"
  using assms by (auto simp: bindS_def split: prod.splits sum.splits)

text \<open>The outcomes of publishing a tree head: it is published without anchor when writes are disabled, and
  with the anchor of one successful transaction otherwise.\<close>

lemma anchorSTH_Inr:
  assumes "anchorSTH cy sv l r n w = (Inr sth, w')"
  shows "(\<not> writesEnabled sv \<and> sth = local_sth l r n (shd (wd_clock w)) \<and> wd_sent w' = wd_sent w)
    \<or> (writesEnabled sv \<and> (\<exists>root kp msg sig latest txHash receipt oid.
          pq_fromHex r = Inr root \<and> length root = 32 \<and> sv_pqKeypair sv = Some kp
          \<and> canonicalSTH (cf_pqAlgorithm (sv_config sv)) l n root (shd (wd_clock w)) = Inr msg
          \<and> pqSign cy (secretKey kp) msg = Inr sig
          \<and> wd_sent w' = wd_sent w @ [anchor_tx cy sv l root n latest (cy_keccak cy sig)]
          \<and> shd (wd_receipt w) = Inr receipt \<and> rc_success receipt
          \<and> sth = (local_sth l r n (shd (wd_clock w)))\<lparr>sth_anchor := Some \<lparr>anc_chainId = cf_chainId (sv_config sv),
               anc_txHash = Some txHash, anc_onChainId = oid, anc_contract = Some (cf_pqAnchorRegistry (sv_config sv))\<rparr>\<rparr>))"
  using assms
  by (auto simp: anchorSTH_def bindS_apply world_defs liftJ_def receipt_anchor_def Let_def local_sth_def
      anchor_tx_def writesEnabled_def split: prod.splits sum.splits if_splits option.splits)

lemma anchorSTH_rand: "anchorSTH cy sv l r n w = (res, w') \<Longrightarrow> wd_rand w' = wd_rand w"
  by (auto simp: anchorSTH_def bindS_apply world_defs liftJ_def receipt_anchor_def Let_def
      split: prod.splits sum.splits if_splits option.splits)

interpretation anchors: anchor_contract "anchorSTH cy sv" for cy sv
proof
  fix l r n w sth w' assume "anchorSTH cy sv l r n w = (Inr sth, w')"
  from anchorSTH_Inr[OF this]
  show "sth_log_id sth = l \<and> sth_tree_size sth = n \<and> sth_root_hash sth = r"
    by (auto simp: local_sth_def)
qed (rule anchorSTH_rand)


text \<open>A concrete service: toy cryptography of the right lengths, real-looking keys.\<close>

definition toy_crypto :: Crypto where
  "toy_crypto = \<lparr>cy_sha256 = pad32, cy_keccak = pad32, cy_keygen = (\<lambda>_. (replicate 1952 0, replicate 4032 0)),
     cy_sign = (\<lambda>_ _. replicate 3309 0), cy_verify = (\<lambda>_ _ _. True)\<rparr>"

definition toy_config :: Config where
  "toy_config = \<lparr>cf_jwksUrl = None, cf_issuer = None, cf_audience = ''a'', cf_chainId = 131216,
     cf_pqAnchorRegistry = ''0x'' @ replicate 40 CHR ''1'', cf_anchorGasLimit = 500000, cf_pqAlgorithm = ''ML-DSA-65'',
     cf_anchorEcdsaKey = Some (''0x'' @ replicate 64 CHR ''2''), cf_pqMldsaSeed = Some (''0x'' @ replicate 64 CHR ''3''),
     cf_pgUrl = None\<rparr>"

definition toy_service :: AnchorService where
  "toy_service = \<lparr>sv_config = toy_config, sv_account = cf_anchorEcdsaKey toy_config,
     sv_pqKeypair = Some \<lparr>publicKey = replicate 1952 0, secretKey = replicate 4032 0\<rparr>, sv_pqKeyHashHex = ''0x''\<rparr>"

definition toy_world :: World where
  "toy_world = \<lparr>wd_clock = sconst 1700000000000, wd_rand = sconst (replicate 8 7), wd_blockNumber = sconst (Inr 100),
     wd_submit = sconst (Inr ''0xabc''), wd_receipt = sconst (Inr \<lparr>rc_success = True, rc_blockNumber = 101, rc_logs = []\<rparr>),
     wd_sent = []\<rparr>"

lemma toy_registry: "isLedgerScopedRegistry (cf_pqAnchorRegistry toy_config)"
  by code_simp

lemma toy_writesEnabled: "writesEnabled toy_service"
  using toy_registry by (simp add: writesEnabled_def toy_service_def toy_config_def)

lemma toy_anchor:
  assumes "length l < 2 ^ 16" "0 \<le> n" "n < 2 ^ 64" "length root = 32"
  shows "\<exists>sth w'. anchorSTH toy_crypto toy_service l (toHex root) n toy_world = (Inr sth, w')"
proof -
  obtain m where "canonicalSTH ''ML-DSA-65'' l n root 1700000000000 = Inr m"
    using assms by (simp add: canonicalSTH_def u16_def u64_def Let_def)
  with assms toy_writesEnabled show ?thesis
    by (simp add: anchorSTH_def bindS_apply world_defs toy_world_def toy_service_def toy_config_def Let_def
        pqSign_def toy_crypto_def PQ_SECRET_KEY_BYTES_def PQ_SIGNATURE_BYTES_def receipt_anchor_def)
qed


end
