(* ===== verification/Ledger.thy ===== *)
theory Ledger
  imports Store AnchorService
begin

text \<open>
  The core of the Registry Ledger (\<open>services/registry-ledger/src/services/ledger.ts\<close>): leaf encodings,
  the registry of transparency logs, and every operation of \<open>LedgerService\<close>.  The service owns a store
  (the parameter \<open>S\<close>, any \<open>Store\<close>), an anchor service (the parameter \<open>A\<close>, the method \<open>anchorSTH\<close> of an
  instance) and the map of logs built so far; its methods run one after another.  A log object lives
  in that map and is changed in place, so an append puts the new log back under its name.
\<close>

subsection \<open>Identifiers and leaf encodings\<close>

definition TENANT_PREFIX :: string where "TENANT_PREFIX = ''did:hara:tenant:''"

definition tenantLogId :: "string \<Rightarrow> string" where
  "tenantLogId tenantDid =
     (let slug = (if starts_with TENANT_PREFIX tenantDid then drop (length TENANT_PREFIX) tenantDid else tenantDid)
      in ''tenant:'' @ slug)"

definition EM_DASH :: string where "EM_DASH = [CHR 0xE2, CHR 0x80, CHR 0x94]"

definition NL :: string where "NL = [CHR 0x0A]"

definition attestationLeaf :: "string \<Rightarrow> string \<Rightarrow> string \<Rightarrow> string \<Rightarrow> string \<Rightarrow> bytes" where
  "attestationLeaf registryId contentHash subject issuer recordType =
     utf8 (join NL [''att'', registryId, to_lower contentHash, subject, issuer, recordType])"

definition statusLeaf :: "string \<Rightarrow> RecordStatus \<Rightarrow> string \<Rightarrow> string \<Rightarrow> string option \<Rightarrow> bytes" where
  "statusLeaf registryId status since actor supersededBy =
     utf8 (join NL [''status'', registryId, status_text status, since, actor,
       case supersededBy of None \<Rightarrow> [] | Some x \<Rightarrow> x])"

definition bool_text :: "bool \<Rightarrow> string" where
  "bool_text b = (if b then ''true'' else ''false'')"

definition evidenceLeaf :: "string \<Rightarrow> string \<Rightarrow> string \<Rightarrow> string \<Rightarrow> bool \<Rightarrow> bytes" where
  "evidenceLeaf evidenceId contentHash until basis legalHold =
     utf8 (join NL [''evidence'', evidenceId, to_lower contentHash, until, basis, bool_text legalHold])"

definition deleteAttemptLeaf :: "string \<Rightarrow> string \<Rightarrow> string \<Rightarrow> bytes" where
  "deleteAttemptLeaf evidenceId at actor = utf8 (join NL [''evidence-delete-refused'', evidenceId, at, actor])"

subsection \<open>The service\<close>

record 's LedgerState =
  ls_store :: 's
  ls_logs :: "string \<Rightarrow> TransparencyLog option"
  ls_world :: World

definition newLedgerService :: "'s \<Rightarrow> World \<Rightarrow> 's LedgerState" where
  "newLedgerService st w = \<lparr>ls_store = st, ls_logs = (\<lambda>_. None), ls_world = w\<rparr>"

text \<open>Calls to the store and to the world outside.\<close>

definition storeRead :: "('s \<Rightarrow> 'a js) \<Rightarrow> ('s LedgerState, 'a) op" where
  "storeRead f = (\<lambda>s. liftJ (f (ls_store s)) s)"

definition storeWrite :: "('s \<Rightarrow> 's js) \<Rightarrow> ('s LedgerState, unit) op" where
  "storeWrite f = (\<lambda>s. case f (ls_store s) of Inl e \<Rightarrow> (Inl (Uncaught e), s) | Inr st \<Rightarrow> (Inr (), s\<lparr>ls_store := st\<rparr>))"

definition storeAppendLeaf :: "'s Store \<Rightarrow> string \<Rightarrow> string \<Rightarrow> ('s LedgerState, nat) op" where
  "storeAppendLeaf S logId leafHex = (\<lambda>s. case appendLeaf S (ls_store s) logId leafHex of
     Inl e \<Rightarrow> (Inl (Uncaught e), s) | Inr (n, st) \<Rightarrow> (Inr n, s\<lparr>ls_store := st\<rparr>))"

definition inWorld :: "(World, 'a) op \<Rightarrow> ('s LedgerState, 'a) op" where
  "inWorld m = (\<lambda>s. case m (ls_world s) of (r, w) \<Rightarrow> (r, s\<lparr>ls_world := w\<rparr>))"

definition setLog :: "string \<Rightarrow> TransparencyLog \<Rightarrow> ('s LedgerState, unit) op" where
  "setLog logId lg = (\<lambda>s. (Inr (), s\<lparr>ls_logs := (ls_logs s)(logId \<mapsto> lg)\<rparr>))"

definition newDate :: "('s LedgerState, int) op" where "newDate = inWorld now"

definition randId :: "string \<Rightarrow> ('s LedgerState, string) op" where
  "randId pfx = bindS (inWorld randomBytes) (\<lambda>b. ret (pfx @ hex_of b))"

definition getLog :: "'s Store \<Rightarrow> string \<Rightarrow> ('s LedgerState, TransparencyLog) op" where
  "getLog S logId = (\<lambda>s. case ls_logs s logId of
       Some lg \<Rightarrow> (Inr lg, s)
     | None \<Rightarrow> bindS (storeRead (\<lambda>st. getLeaves S st logId)) (\<lambda>leaves.
         bindS (liftJ (mapE fromHex leaves)) (\<lambda>ls.
         let lg = newTransparencyLog logId ls in bindS (setLog logId lg) (\<lambda>_. ret lg))) s)"

record AppendResult =
  ap_leafIndex :: nat
  ap_leafHash :: string
  ap_treeSize :: nat
  ap_root :: string
  ap_sth :: STH
  ap_tl :: TransparencyLog

type_synonym anchor_op = "string \<Rightarrow> string \<Rightarrow> int \<Rightarrow> (World, STH) op"

definition appendAndAnchor ::
  "(bytes \<Rightarrow> bytes) \<Rightarrow> 's Store \<Rightarrow> anchor_op \<Rightarrow> string \<Rightarrow> bytes \<Rightarrow> ('s LedgerState, AppendResult) op" where
  "appendAndAnchor H S A logId leaf =
     bindS (getLog S logId) (\<lambda>lg0.
     let (lg, leafIndex) = tl_append lg0 leaf in
     bindS (setLog logId lg) (\<lambda>_.
     bindS (storeAppendLeaf S logId (toHex leaf)) (\<lambda>_.
     bindS (liftJ (leafHashHex H lg (int leafIndex))) (\<lambda>leafHash.
     bindS (liftJ (currentRootHex H lg)) (\<lambda>root.
     bindS (inWorld (A logId root (int (treeSize lg)))) (\<lambda>sth.
     ret \<lparr>ap_leafIndex = leafIndex, ap_leafHash = leafHash, ap_treeSize = treeSize lg, ap_root = root,
          ap_sth = sth, ap_tl = lg\<rparr>))))))"

subsection \<open>Attestations\<close>

definition buildAttestationDto ::
  "(bytes \<Rightarrow> bytes) \<Rightarrow> 's Store \<Rightarrow> anchor_op \<Rightarrow> AttestationRecord \<Rightarrow> ('s LedgerState, Attestation) op" where
  "buildAttestationDto H S A rec =
     bindS (getLog S (ar_logId rec)) (\<lambda>lg.
     bindS (liftJ (inclusionProof H lg (int (ar_leafIndex rec)) (int (treeSize lg)))) (\<lambda>inclusion.
     bindS (liftJ (currentRootHex H lg)) (\<lambda>root.
     bindS (inWorld (A (ar_logId rec) root (int (treeSize lg)))) (\<lambda>sth.
     ret \<lparr>at_registry_id = ar_registryId rec, at_subject = ar_subject rec, at_issuer = ar_issuer rec,
          at_recordType = ar_recordType rec, at_status = ar_status rec, at_anchored_at = ar_anchoredAt rec,
          at_log = \<lparr>lr_log_id = ar_logId rec, lr_leaf_index = ar_leafIndex rec, lr_leaf_hash = ar_leafHash rec\<rparr>,
          at_inclusion_proof = inclusion, at_sth = sth\<rparr>))))"

definition links_passport :: "json_object option \<Rightarrow> string option" where
  "links_passport links = (case links of None \<Rightarrow> None
     | Some l \<Rightarrow> (case map_of l ''passport'' of Some (JStr p) \<Rightarrow> Some p | _ \<Rightarrow> None))"

definition anchorAttestation ::
  "(bytes \<Rightarrow> bytes) \<Rightarrow> 's Store \<Rightarrow> anchor_op \<Rightarrow> AttestationRequest \<Rightarrow> string \<Rightarrow>
     ('s LedgerState, Attestation \<times> bool) op" where
  "anchorAttestation H S A req tenant =
     (let contentHash = to_lower (rq_contentHash req) in
      bindS (storeRead (\<lambda>st. getAttestationByContentHash S st tenant contentHash)) (\<lambda>existing.
      case existing of
        Some rec \<Rightarrow> bindS (buildAttestationDto H S A rec) (\<lambda>dto. ret (dto, True))
      | None \<Rightarrow>
        (let logId = tenantLogId tenant in
         bindS (randId ''reg:att:'') (\<lambda>registryId.
         let leaf = attestationLeaf registryId contentHash (rq_subject req) (rq_issuer req) (rq_recordType req) in
         bindS (appendAndAnchor H S A logId leaf) (\<lambda>ap.
         bindS newDate (\<lambda>t.
         let anchoredAt = toISOString t; leafIndex = ap_leafIndex ap; leafHash = ap_leafHash ap in
         bindS (storeWrite (\<lambda>st. putAttestation S st
           \<lparr>ar_registryId = registryId, ar_subject = rq_subject req, ar_issuer = rq_issuer req,
            ar_recordType = rq_recordType req, ar_contentHash = contentHash,
            ar_hashAlg = default_to ''sha256'' (rq_hashAlg req), ar_status = Active, ar_tenant = tenant,
            ar_logId = logId, ar_leafIndex = leafIndex, ar_leafHash = leafHash,
            ar_passport = links_passport (rq_links req), ar_links = rq_links req, ar_issuedAt = rq_issuedAt req,
            ar_anchoredAt = anchoredAt\<rparr>)) (\<lambda>_.
         bindS (storeWrite (\<lambda>st. appendStatus S st
           \<lparr>se_registryId = registryId, se_status = Active, se_since = anchoredAt, se_reason = None,
            se_supersededBy = None, se_actor = rq_issuer req, se_logId = logId, se_leafIndex = leafIndex,
            se_leafHash = leafHash\<rparr>)) (\<lambda>_.
         bindS (getLog S logId) (\<lambda>lg.
         bindS (liftJ (inclusionProof H lg (int leafIndex) (int (treeSize lg)))) (\<lambda>inclusion.
         ret (\<lparr>at_registry_id = registryId, at_subject = rq_subject req, at_issuer = rq_issuer req,
               at_recordType = rq_recordType req, at_status = Active, at_anchored_at = anchoredAt,
               at_log = \<lparr>lr_log_id = logId, lr_leaf_index = leafIndex, lr_leaf_hash = leafHash\<rparr>,
               at_inclusion_proof = inclusion, at_sth = ap_sth ap\<rparr>, False))))))))))) "

text \<open>The record behind a public identifier, or the problem \<open>not_found\<close>.\<close>

definition attestation_or_404 :: "'s Store \<Rightarrow> string \<Rightarrow> ('s LedgerState, AttestationRecord) op" where
  "attestation_or_404 S registryId =
     bindS (storeRead (\<lambda>st. getAttestationById S st registryId)) (\<lambda>found.
     case found of None \<Rightarrow> problem Not_found registryId | Some rec \<Rightarrow> ret rec)"

definition getAttestation ::
  "(bytes \<Rightarrow> bytes) \<Rightarrow> 's Store \<Rightarrow> anchor_op \<Rightarrow> string \<Rightarrow> ('s LedgerState, Attestation) op" where
  "getAttestation H S A registryId =
     bindS (attestation_or_404 S registryId) (\<lambda>rec. buildAttestationDto H S A rec)"

definition getInclusion ::
  "(bytes \<Rightarrow> bytes) \<Rightarrow> 's Store \<Rightarrow> anchor_op \<Rightarrow> string \<Rightarrow> int option \<Rightarrow> ('s LedgerState, InclusionResponse) op" where
  "getInclusion H S A registryId treeSz =
     bindS (attestation_or_404 S registryId) (\<lambda>rec.
     bindS (getLog S (ar_logId rec)) (\<lambda>lg.
     let size' = default_to (int (treeSize lg)) treeSz in
     if size' < 1 \<or> size' > int (treeSize lg) \<or> int (ar_leafIndex rec) \<ge> size'
     then throw (ProblemError Proof_unavailable (Some (''no inclusion proof for leaf '' @ js_num (ar_leafIndex rec)
            @ '' at tree_size '' @ js_int size')))
     else
       bindS (liftJ (inclusionProof H lg (int (ar_leafIndex rec)) size')) (\<lambda>inclusion.
       bindS (liftJ (rootAtHex H lg size')) (\<lambda>root.
       bindS (inWorld (A (ar_logId rec) root size')) (\<lambda>sth.
       ret \<lparr>ir_registry_id = registryId, ir_inclusion_proof = inclusion, ir_sth = sth\<rparr>)))))"

definition getStatusRecord ::
  "(bytes \<Rightarrow> bytes) \<Rightarrow> 's Store \<Rightarrow> anchor_op \<Rightarrow> string \<Rightarrow> ('s LedgerState, StatusRecord) op" where
  "getStatusRecord H S A registryId =
     bindS (attestation_or_404 S registryId) (\<lambda>rec.
     bindS (storeRead (\<lambda>st. getLatestStatus S st registryId)) (\<lambda>latest.
     bindS (getLog S (ar_logId rec)) (\<lambda>lg.
     let leafIndex = (case latest of None \<Rightarrow> ar_leafIndex rec | Some e \<Rightarrow> se_leafIndex e) in
     bindS (liftJ (inclusionProof H lg (int leafIndex) (int (treeSize lg)))) (\<lambda>pf.
     bindS (liftJ (currentRootHex H lg)) (\<lambda>root.
     bindS (inWorld (A (ar_logId rec) root (int (treeSize lg)))) (\<lambda>sth.
     ret \<lparr>sr_registry_id = registryId, sr_status = ar_status rec,
          sr_since = (case latest of None \<Rightarrow> ar_anchoredAt rec | Some e \<Rightarrow> se_since e),
          sr_reason = Option.bind latest se_reason, sr_supersededBy = Option.bind latest se_supersededBy,
          sr_actor = (case latest of None \<Rightarrow> ar_issuer rec | Some e \<Rightarrow> se_actor e),
          sr_proof = pf, sr_sth = sth\<rparr>))))))"

definition setStatus ::
  "(bytes \<Rightarrow> bytes) \<Rightarrow> 's Store \<Rightarrow> anchor_op \<Rightarrow> string \<Rightarrow> StatusAction \<Rightarrow> string \<Rightarrow> string option \<Rightarrow> string \<Rightarrow>
     ('s LedgerState, StatusRecord) op" where
  "setStatus H S A registryId action reason supersededBy actorTenant =
     bindS (attestation_or_404 S registryId) (\<lambda>rec.
     if ar_tenant rec \<noteq> actorTenant then problem Forbidden_tenant ''attestation belongs to another tenant''
     else if ar_status rec = Revoked then problem Status_conflict ''attestation is already revoked''
     else
       (let newStatus = (if action = Revoke then Revoked else Superseded) in
        bindS newDate (\<lambda>t.
        let since = toISOString t; leaf = statusLeaf registryId newStatus since actorTenant supersededBy in
        bindS (appendAndAnchor H S A (ar_logId rec) leaf) (\<lambda>ap.
        bindS (storeWrite (\<lambda>st. appendStatus S st
          \<lparr>se_registryId = registryId, se_status = newStatus, se_since = since, se_reason = Some reason,
           se_supersededBy = supersededBy, se_actor = actorTenant, se_logId = ar_logId rec,
           se_leafIndex = ap_leafIndex ap, se_leafHash = ap_leafHash ap\<rparr>)) (\<lambda>_.
        bindS (storeWrite (\<lambda>st. setAttestationStatus S st registryId newStatus)) (\<lambda>_.
        bindS (getLog S (ar_logId rec)) (\<lambda>lg.
        bindS (liftJ (inclusionProof H lg (int (ap_leafIndex ap)) (int (treeSize lg)))) (\<lambda>pf.
        ret \<lparr>sr_registry_id = registryId, sr_status = newStatus, sr_since = since, sr_reason = Some reason,
             sr_supersededBy = supersededBy, sr_actor = actorTenant, sr_proof = pf, sr_sth = ap_sth ap\<rparr>))))))))"

subsection \<open>Checkpoints\<close>

definition submitCheckpoint ::
  "'s Store \<Rightarrow> anchor_op \<Rightarrow> string \<Rightarrow> int \<Rightarrow> string \<Rightarrow> ('s LedgerState, Checkpoint) op" where
  "submitCheckpoint S A logId treeSz rootHash =
     bindS (randId ''ckpt:'') (\<lambda>checkpointId.
     bindS (inWorld (A logId (to_lower rootHash) treeSz)) (\<lambda>sth.
     bindS (storeWrite (\<lambda>st. putCheckpoint S st
       \<lparr>ck_checkpointId = checkpointId, ck_logId = logId, ck_treeSize = treeSz, ck_rootHash = to_lower rootHash,
        ck_timestamp = sth_timestamp sth, ck_txHash = Option.bind (sth_anchor sth) anc_txHash,
        ck_onChainId = Option.bind (sth_anchor sth) anc_onChainId\<rparr>)) (\<lambda>_.
     ret \<lparr>cp_checkpoint_id = checkpointId, cp_sth = sth\<rparr>)))"

definition getConsistency ::
  "(bytes \<Rightarrow> bytes) \<Rightarrow> 's Store \<Rightarrow> anchor_op \<Rightarrow> string \<Rightarrow> int \<Rightarrow> int \<Rightarrow> ('s LedgerState, ConsistencyResponse) op" where
  "getConsistency H S A logId from' to' =
     bindS (storeRead (\<lambda>st. getLeaves S st logId)) (\<lambda>leaves.
     if length leaves = 0
     then problem Proof_unavailable (''log '' @ logId
            @ '' has no leaves on this Ledger (checkpoint-only) '' @ EM_DASH @ '' cannot derive a consistency path'')
     else
       bindS (getLog S logId) (\<lambda>lg.
       if from' < 1 \<or> to' > int (treeSize lg) \<or> from' > to'
       then problem Proof_unavailable (''invalid range from='' @ js_int from' @ '' to='' @ js_int to' @ '' size='' @ js_num (treeSize lg))
       else
         bindS (liftJ (consistencyProof H lg from' to')) (\<lambda>cp.
         bindS (liftJ (rootAtHex H lg from')) (\<lambda>root1.
         bindS (inWorld (A logId root1 from')) (\<lambda>first.
         bindS (liftJ (rootAtHex H lg to')) (\<lambda>root2.
         bindS (inWorld (A logId root2 to')) (\<lambda>second.
         ret \<lparr>cr_log_id = logId, cr_first = first, cr_second = second,
              cr_consistency_path = consistency_path cp\<rparr>)))))))"

subsection \<open>Evidence and retention\<close>

definition toRetention :: "string \<Rightarrow> string \<Rightarrow> bool \<Rightarrow> ('s LedgerState, Retention) op" where
  "toRetention until basis legalHold =
     bindS newDate (\<lambda>t.
     let inFuture = num_greater (dateMs until) t in
     ret \<lparr>rt_until = until, rt_basis = basis, rt_legalHold = legalHold,
          rt_deletable = (\<not> inFuture \<and> \<not> legalHold)\<rparr>)"

definition buildEvidenceDto ::
  "(bytes \<Rightarrow> bytes) \<Rightarrow> 's Store \<Rightarrow> anchor_op \<Rightarrow> EvidenceRecord \<Rightarrow> ('s LedgerState, Evidence) op" where
  "buildEvidenceDto H S A rec =
     bindS (getLog S (er_logId rec)) (\<lambda>lg.
     bindS (liftJ (currentRootHex H lg)) (\<lambda>root.
     bindS (inWorld (A (er_logId rec) root (int (treeSize lg)))) (\<lambda>sth.
     bindS (toRetention (er_until' rec) (er_basis' rec) (er_legalHold' rec)) (\<lambda>retention.
     ret \<lparr>ev_evidence_id = er_evidenceId rec, ev_contentHash = er_contentHash' rec,
          ev_anchored = (sth_anchor sth \<noteq> None), ev_retention = retention, ev_sth = sth\<rparr>))))"

definition registerEvidence ::
  "(bytes \<Rightarrow> bytes) \<Rightarrow> 's Store \<Rightarrow> anchor_op \<Rightarrow> EvidenceRequest \<Rightarrow> string \<Rightarrow> ('s LedgerState, Evidence \<times> bool) op" where
  "registerEvidence H S A req tenant =
     (let contentHash = to_lower (er_contentHash req) in
      bindS (storeRead (\<lambda>st. getEvidenceByContentHash S st tenant contentHash)) (\<lambda>existing.
      case existing of
        Some rec \<Rightarrow> bindS (buildEvidenceDto H S A rec) (\<lambda>dto. ret (dto, True))
      | None \<Rightarrow>
        (let logId = tenantLogId tenant in
         bindS (randId ''ev:'') (\<lambda>evidenceId.
         let legalHold = default_to False (er_legalHold req);
             leaf = evidenceLeaf evidenceId contentHash (er_until req) (er_basis req) legalHold in
         bindS (appendAndAnchor H S A logId leaf) (\<lambda>ap.
         bindS newDate (\<lambda>t.
         let rec = \<lparr>er_evidenceId = evidenceId, er_contentHash' = contentHash,
             er_hashAlg' = default_to ''sha256'' (er_hashAlg req), er_until' = er_until req,
             er_basis' = er_basis req, er_legalHold' = legalHold, er_tenant = tenant, er_logId = logId,
             er_leafIndex = ap_leafIndex ap, er_links' = er_links req, er_anchoredAt = toISOString t,
             er_deleted = False\<rparr> in
         bindS (storeWrite (\<lambda>st. putEvidence S st rec)) (\<lambda>_.
         bindS (toRetention (er_until req) (er_basis req) legalHold) (\<lambda>retention.
         ret (\<lparr>ev_evidence_id = evidenceId, ev_contentHash = contentHash,
               ev_anchored = (sth_anchor (ap_sth ap) \<noteq> None), ev_retention = retention,
               ev_sth = ap_sth ap\<rparr>, False))))))))) "

text \<open>A deleted record is as good as absent.\<close>

definition evidence_or_404 :: "'s Store \<Rightarrow> string \<Rightarrow> ('s LedgerState, EvidenceRecord) op" where
  "evidence_or_404 S evidenceId =
     bindS (storeRead (\<lambda>st. getEvidenceById S st evidenceId)) (\<lambda>found.
     case found of None \<Rightarrow> problem Not_found evidenceId
     | Some rec \<Rightarrow> if er_deleted rec then problem Not_found evidenceId else ret rec)"

definition getEvidence ::
  "(bytes \<Rightarrow> bytes) \<Rightarrow> 's Store \<Rightarrow> anchor_op \<Rightarrow> string \<Rightarrow> ('s LedgerState, Evidence) op" where
  "getEvidence H S A evidenceId =
     bindS (evidence_or_404 S evidenceId) (\<lambda>rec. buildEvidenceDto H S A rec)"

text \<open>The new expiry date, when the patch extends the retention.\<close>

definition extended_until :: "EvidenceRecord \<Rightarrow> string option \<Rightarrow> fault + string" where
  "extended_until rec extendUntil = (case extendUntil of
     None \<Rightarrow> Inr (er_until' rec)
   | Some new \<Rightarrow>
     (let current = dateMs (er_until' rec); next = dateMs new in
      if next = None then Inl (ProblemError Invalid_request (Some ''extendUntil must be YYYY-MM-DD''))
      else if num_less next current
      then Inl (ProblemError Status_conflict (Some ''retention can only be extended, never shortened''))
      else Inr new))"

definition updateRetention ::
  "(bytes \<Rightarrow> bytes) \<Rightarrow> 's Store \<Rightarrow> anchor_op \<Rightarrow> string \<Rightarrow> bool option \<Rightarrow> string option \<Rightarrow> string \<Rightarrow>
     ('s LedgerState, Evidence) op" where
  "updateRetention H S A evidenceId legalHold extendUntil tenant =
     bindS (evidence_or_404 S evidenceId) (\<lambda>rec.
     if er_tenant rec \<noteq> tenant then problem Forbidden_tenant ''evidence belongs to another tenant''
     else (case extended_until rec extendUntil of
       Inl e \<Rightarrow> throw e
     | Inr until \<Rightarrow>
       (let rec' = rec\<lparr>er_until' := until, er_legalHold' := default_to (er_legalHold' rec) legalHold\<rparr> in
        bindS (storeWrite (\<lambda>st. updateEvidence S st rec')) (\<lambda>_. buildEvidenceDto H S A rec'))))"

definition deleteEvidence ::
  "(bytes \<Rightarrow> bytes) \<Rightarrow> 's Store \<Rightarrow> anchor_op \<Rightarrow> string \<Rightarrow> string \<Rightarrow> ('s LedgerState, unit) op" where
  "deleteEvidence H S A evidenceId tenant =
     bindS (evidence_or_404 S evidenceId) (\<lambda>rec.
     if er_tenant rec \<noteq> tenant then problem Forbidden_tenant ''evidence belongs to another tenant''
     else
       bindS newDate (\<lambda>t.
       let locked = num_greater (dateMs (er_until' rec)) t \<or> er_legalHold' rec in
       if locked then
         bindS newDate (\<lambda>t2.
         bindS (appendAndAnchor H S A (er_logId rec) (deleteAttemptLeaf evidenceId (toISOString t2) tenant)) (\<lambda>_.
         problem Retention_locked (''refused: retention until '' @ er_until' rec
           @ (if er_legalHold' rec then '' + legal hold'' else []) @ ''; the attempt has been anchored'')))
       else storeWrite (\<lambda>st. updateEvidence S st (rec\<lparr>er_deleted := True\<rparr>))))"

subsection \<open>The verification bundle\<close>

definition bundle_attestation ::
  "(bytes \<Rightarrow> bytes) \<Rightarrow> 's Store \<Rightarrow> anchor_op \<Rightarrow> AttestationRecord \<Rightarrow> ('s LedgerState, VerifyBundleAttestation) op" where
  "bundle_attestation H S A rec =
     bindS (getLog S (ar_logId rec)) (\<lambda>lg.
     bindS (liftJ (inclusionProof H lg (int (ar_leafIndex rec)) (int (treeSize lg)))) (\<lambda>inclusion.
     bindS (liftJ (currentRootHex H lg)) (\<lambda>root.
     bindS (inWorld (A (ar_logId rec) root (int (treeSize lg)))) (\<lambda>sth.
     ret \<lparr>vba_registry_id = ar_registryId rec, vba_recordType = ar_recordType rec, vba_status = ar_status rec,
          vba_subject = ar_subject rec, vba_issuer = ar_issuer rec, vba_inclusion_proof = inclusion,
          vba_sth = sth\<rparr>))))"

definition bundle_checkpoint :: "'s Store \<Rightarrow> string \<Rightarrow> ('s LedgerState, VerifyBundleCheckpoint list) op" where
  "bundle_checkpoint S logId =
     bindS (storeRead (\<lambda>st. latestCheckpoint S st logId)) (\<lambda>latest.
     ret (case latest of None \<Rightarrow> []
       | Some c \<Rightarrow> [\<lparr>vbc_log_id = logId, vbc_sth = \<lparr>sth_log_id = logId, sth_tree_size = ck_treeSize c,
            sth_root_hash = ck_rootHash c, sth_timestamp = ck_timestamp c,
            sth_anchor = (case ck_txHash c of None \<Rightarrow> None
              | Some tx \<Rightarrow> if tx = [] then None else Some \<lparr>anc_chainId = 0, anc_txHash = Some tx,
                  anc_onChainId = ck_onChainId c, anc_contract = None\<rparr>)\<rparr>\<rparr>]))"

text \<open>A JavaScript \<open>Set\<close> iterates in the order of first insertion.\<close>

definition set_order :: "'a list \<Rightarrow> 'a list" where
  "set_order xs = fold (\<lambda>x acc. if x \<in> set acc then acc else acc @ [x]) xs []"

definition verifyBundle ::
  "(bytes \<Rightarrow> bytes) \<Rightarrow> 's Store \<Rightarrow> anchor_op \<Rightarrow> string \<Rightarrow> ('s LedgerState, VerifyBundle) op" where
  "verifyBundle H S A subject =
     bindS (storeRead (\<lambda>st. listAttestationsBySubject S st subject)) (\<lambda>atts.
     bindS (storeRead (\<lambda>st. listEvidenceBySubject S st subject)) (\<lambda>evs.
     bindS (mapS (bundle_attestation H S A) atts) (\<lambda>attestations.
     bindS (mapS (bundle_checkpoint S) (set_order (map ar_logId atts))) (\<lambda>checkpoints.
     bindS (mapS (buildEvidenceDto H S A) evs) (\<lambda>evidence.
     bindS newDate (\<lambda>t.
     ret \<lparr>vb_subject = subject, vb_generated_at = toISOString t, vb_attestations = attestations,
          vb_checkpoints = concat checkpoints, vb_evidence = evidence\<rparr>))))))"

end
