(* ===== verification/LedgerInv.thy ===== *)
theory LedgerInv
  imports Ledger
begin

text \<open>
  The invariant of the ledger and what every operation does to it.  The invariant ties the three
  places that hold a log together (the stored leaf texts, the cached tree, the positions recorded in
  attestations, status entries and evidence); the history relation says how the store may change:
  leaves are only added, records never disappear, a revoked record stays revoked, a retention date is
  never moved to an earlier day.  The lemmas are proved in the locale \<open>ledger\<close>, for every store that
  keeps the contract and every anchor service, and interpreted on the in-memory store and
  \<open>anchorSTH\<close>.
\<close>

subsection \<open>The invariant\<close>

definition hex_leaves :: "AbsStore \<Rightarrow> string \<Rightarrow> bytes list \<Rightarrow> bool" where
  "hex_leaves a l ls \<longleftrightarrow> as_leaves a l = map toHex ls"

definition the_leaves :: "AbsStore \<Rightarrow> string \<Rightarrow> bytes list" where
  "the_leaves a l = map (\<lambda>h. projr (fromHex h)) (as_leaves a l)"

definition log_of :: "AbsStore \<Rightarrow> string \<Rightarrow> TransparencyLog" where
  "log_of a l = newTransparencyLog l (the_leaves a l)"

text \<open>The stored leaves are hexadecimal texts, and a cached tree has exactly the stored leaves.\<close>

definition logs_ok :: "AbsStore \<Rightarrow> (string \<Rightarrow> TransparencyLog option) \<Rightarrow> bool" where
  "logs_ok a lgs \<longleftrightarrow> (\<forall>l. hex_leaves a l (the_leaves a l)) \<and> (\<forall>l lg. lgs l = Some lg \<longrightarrow> lg = log_of a l)"

definition leaf_at :: "(bytes \<Rightarrow> bytes) \<Rightarrow> AbsStore \<Rightarrow> string \<Rightarrow> nat \<Rightarrow> string \<Rightarrow> bool" where
  "leaf_at H a l i h \<longleftrightarrow> i < length (the_leaves a l) \<and> h = toHex (hashLeaf H (the_leaves a l ! i))"

definition status_ok :: "(bytes \<Rightarrow> bytes) \<Rightarrow> AbsStore \<Rightarrow> AttestationRecord \<Rightarrow> StatusEntry list \<Rightarrow> bool" where
  "status_ok H a r es \<longleftrightarrow> es \<noteq> [] \<and> se_status (last es) = ar_status r
     \<and> (\<forall>e\<in>set es. se_registryId e = ar_registryId r \<and> se_logId e = ar_logId r
          \<and> leaf_at H a (ar_logId r) (se_leafIndex e) (se_leafHash e))"

definition att_ok :: "(bytes \<Rightarrow> bytes) \<Rightarrow> AbsStore \<Rightarrow> string \<Rightarrow> AttestationRecord \<Rightarrow> bool" where
  "att_ok H a i r \<longleftrightarrow> ar_registryId r = i \<and> ar_logId r = tenantLogId (ar_tenant r)
     \<and> key_hash (ar_contentHash r) \<and> as_attKey a (ar_tenant r, ar_contentHash r) = Some i
     \<and> leaf_at H a (ar_logId r) (ar_leafIndex r) (ar_leafHash r) \<and> status_ok H a r (as_status a i)"

definition ev_ok :: "AbsStore \<Rightarrow> string \<Rightarrow> EvidenceRecord \<Rightarrow> bool" where
  "ev_ok a i e \<longleftrightarrow> er_evidenceId e = i \<and> er_logId e = tenantLogId (er_tenant e)
     \<and> key_hash (er_contentHash' e) \<and> as_evKey a (er_tenant e, er_contentHash' e) = Some i
     \<and> er_leafIndex e < length (the_leaves a (er_logId e))"

definition records_ok :: "(bytes \<Rightarrow> bytes) \<Rightarrow> AbsStore \<Rightarrow> bool" where
  "records_ok H a \<longleftrightarrow> (\<forall>i r. as_att a i = Some r \<longrightarrow> att_ok H a i r)
     \<and> (\<forall>i. as_att a i = None \<longrightarrow> as_status a i = [])
     \<and> (\<forall>t h i. as_attKey a (t, h) = Some i \<longrightarrow> (\<exists>r. as_att a i = Some r \<and> ar_tenant r = t \<and> ar_contentHash r = h))
     \<and> (\<forall>i e. as_ev a i = Some e \<longrightarrow> ev_ok a i e)
     \<and> (\<forall>t h i. as_evKey a (t, h) = Some i \<longrightarrow> (\<exists>e. as_ev a i = Some e \<and> er_tenant e = t \<and> er_contentHash' e = h))"

definition ledger_inv ::
  "(bytes \<Rightarrow> bytes) \<Rightarrow> ('s \<Rightarrow> AbsStore) \<Rightarrow> ('s \<Rightarrow> bool) \<Rightarrow> 's LedgerState \<Rightarrow> bool" where
  "ledger_inv H view valid s \<longleftrightarrow> valid (ls_store s) \<and> logs_ok (view (ls_store s)) (ls_logs s)
     \<and> records_ok H (view (ls_store s))"

subsection \<open>The history relation\<close>

text \<open>The expiry day, for texts that are dates.\<close>

definition not_earlier :: "string \<Rightarrow> string \<Rightarrow> bool" where
  "not_earlier old new \<longleftrightarrow> \<not> num_less (dateMs new) (dateMs old) \<and> (new = old \<or> dateMs new \<noteq> None)"

definition att_evolves :: "AttestationRecord \<Rightarrow> AttestationRecord \<Rightarrow> bool" where
  "att_evolves r r' \<longleftrightarrow> (\<exists>st. r' = r\<lparr>ar_status := st\<rparr> \<and> (ar_status r = Revoked \<longrightarrow> st = Revoked)
     \<and> (st = Active \<longrightarrow> ar_status r = Active))"

definition ev_evolves :: "EvidenceRecord \<Rightarrow> EvidenceRecord \<Rightarrow> bool" where
  "ev_evolves e e' \<longleftrightarrow> (\<exists>u h d. e' = e\<lparr>er_until' := u, er_legalHold' := h, er_deleted := d\<rparr>
     \<and> not_earlier (er_until' e) u \<and> (er_deleted e \<longrightarrow> e' = e))"

definition grows :: "AbsStore \<Rightarrow> AbsStore \<Rightarrow> bool" where
  "grows a a' \<longleftrightarrow> (\<forall>l. \<exists>xs. as_leaves a' l = as_leaves a l @ xs)
     \<and> (\<forall>i r. as_att a i = Some r \<longrightarrow> (\<exists>r'. as_att a' i = Some r' \<and> att_evolves r r'))
     \<and> (\<forall>i e. as_ev a i = Some e \<longrightarrow> (\<exists>e'. as_ev a' i = Some e' \<and> ev_evolves e e'))
     \<and> (\<forall>i. \<exists>es. as_status a' i = as_status a i @ es)"

lemma att_evolves_refl [simp]: "att_evolves r r"
  unfolding att_evolves_def by (intro exI[of _ "ar_status r"]) simp

lemma not_earlier_refl [simp]: "not_earlier d d"
  by (auto simp: not_earlier_def num_less_def split: option.splits)

lemma ev_evolves_refl [simp]: "ev_evolves e e"
  unfolding ev_evolves_def
  by (intro exI[of _ "er_until' e"] exI[of _ "er_legalHold' e"] exI[of _ "er_deleted e"]) simp

lemma att_evolves_trans: "att_evolves r r' \<Longrightarrow> att_evolves r' r'' \<Longrightarrow> att_evolves r r''"
  unfolding att_evolves_def by auto

lemma not_earlier_trans: "not_earlier a b \<Longrightarrow> not_earlier b c \<Longrightarrow> not_earlier a c"
  by (auto simp: not_earlier_def num_less_def split: option.splits)

lemma ev_evolves_trans:
  assumes "ev_evolves e e'" "ev_evolves e' e''"
  shows "ev_evolves e e''"
proof (cases "er_deleted e")
  case True
  then have "e' = e" using assms(1) by (auto simp: ev_evolves_def)
  with assms(2) show ?thesis by simp
next
  case False
  obtain u h d where 1: "e' = e\<lparr>er_until' := u, er_legalHold' := h, er_deleted := d\<rparr>" "not_earlier (er_until' e) u"
    using assms(1) by (auto simp: ev_evolves_def)
  obtain u' h' d' where 2: "e'' = e'\<lparr>er_until' := u', er_legalHold' := h', er_deleted := d'\<rparr>" "not_earlier (er_until' e') u'"
    using assms(2) by (auto simp: ev_evolves_def)
  have "e'' = e\<lparr>er_until' := u', er_legalHold' := h', er_deleted := d'\<rparr>" using 1(1) 2(1) by simp
  moreover have "not_earlier (er_until' e) u'" using 1 2(2) by (auto intro: not_earlier_trans)
  ultimately show ?thesis using False unfolding ev_evolves_def by blast
qed

lemma grows_refl [simp]: "grows a a"
  by (auto simp: grows_def)

lemma growsD:
  assumes "grows a a'"
  shows "\<exists>xs. as_leaves a' l = as_leaves a l @ xs"
    and "as_att a i = Some r \<Longrightarrow> \<exists>r'. as_att a' i = Some r' \<and> att_evolves r r'"
    and "as_ev a i = Some e \<Longrightarrow> \<exists>e'. as_ev a' i = Some e' \<and> ev_evolves e e'"
    and "\<exists>es. as_status a' i = as_status a i @ es"
  using assms unfolding grows_def by blast+

lemma grows_trans:
  assumes "grows a b" "grows b c"
  shows "grows a c"
  unfolding grows_def
proof (intro conjI allI impI)
  fix l show "\<exists>xs. as_leaves c l = as_leaves a l @ xs"
    using growsD(1)[OF assms(1), of l] growsD(1)[OF assms(2), of l] by auto
next
  fix i r assume "as_att a i = Some r"
  then show "\<exists>r'. as_att c i = Some r' \<and> att_evolves r r'"
    using growsD(2)[OF assms(1)] growsD(2)[OF assms(2)] att_evolves_trans by meson
next
  fix i e assume "as_ev a i = Some e"
  then show "\<exists>e'. as_ev c i = Some e' \<and> ev_evolves e e'"
    using growsD(3)[OF assms(1)] growsD(3)[OF assms(2)] ev_evolves_trans by meson
next
  fix i show "\<exists>es. as_status c i = as_status a i @ es"
    using growsD(4)[OF assms(1), of i] growsD(4)[OF assms(2), of i] by auto
qed

subsection \<open>How the elementary changes act on the invariant\<close>

lemma the_leaves_hex: "hex_leaves a l ls \<Longrightarrow> the_leaves a l = ls"
  by (simp add: hex_leaves_def the_leaves_def o_def)

lemma the_leaves_append [simp]:
  "the_leaves (abs_appendLeaf a l (toHex x)) k = (if k = l then the_leaves a l @ [x] else the_leaves a k)"
  by (simp add: the_leaves_def abs_appendLeaf_def)

lemma leaf_at_append: "leaf_at H a k i h \<Longrightarrow> leaf_at H (abs_appendLeaf a l (toHex x)) k i h"
  by (auto simp: leaf_at_def nth_append)

lemma the_leaves_cong: "as_leaves a' = as_leaves a \<Longrightarrow> the_leaves a' = the_leaves a"
  by (intro ext) (simp add: the_leaves_def)

lemma leaf_at_cong: "as_leaves a' = as_leaves a \<Longrightarrow> leaf_at H a' = leaf_at H a"
  using the_leaves_cong[of a' a] by (intro ext) (simp add: leaf_at_def)

lemma logs_ok_append:
  assumes "logs_ok a lgs"
  shows "logs_ok (abs_appendLeaf a l (toHex x)) (lgs(l \<mapsto> log_of (abs_appendLeaf a l (toHex x)) l))"
proof -
  have "hex_leaves (abs_appendLeaf a l (toHex x)) k (the_leaves (abs_appendLeaf a l (toHex x)) k)" for k
    using assms by (auto simp: logs_ok_def hex_leaves_def abs_appendLeaf_def the_leaves_def)
  moreover have "k \<noteq> l \<Longrightarrow> log_of (abs_appendLeaf a l (toHex x)) k = log_of a k" for k
    by (simp add: log_of_def)
  ultimately show ?thesis using assms by (auto simp: logs_ok_def)
qed

lemma logs_ok_cong: "as_leaves a' = as_leaves a \<Longrightarrow> logs_ok a lgs \<Longrightarrow> logs_ok a' lgs"
  using the_leaves_cong[of a' a] by (simp add: logs_ok_def hex_leaves_def log_of_def)

lemma status_ok_append:
  "status_ok H a r es \<Longrightarrow> status_ok H (abs_appendLeaf a l (toHex x)) r es"
  unfolding status_ok_def by (blast intro: leaf_at_append)

lemma records_ok_append:
  assumes "records_ok H a"
  shows "records_ok H (abs_appendLeaf a l (toHex x))"
proof -
  let ?a = "abs_appendLeaf a l (toHex x)"
  have s: "as_att ?a = as_att a" "as_attKey ?a = as_attKey a" "as_status ?a = as_status a"
    "as_ev ?a = as_ev a" "as_evKey ?a = as_evKey a" by (simp_all add: abs_appendLeaf_def)
  have "att_ok H ?a i r" if "as_att a i = Some r" for i r
  proof -
    have "att_ok H a i r" using assms that by (simp add: records_ok_def)
    then show ?thesis
      unfolding att_ok_def s by (blast intro: status_ok_append leaf_at_append)
  qed
  moreover have "ev_ok ?a i e" if "as_ev a i = Some e" for i e
  proof -
    have "ev_ok a i e" using assms that by (simp add: records_ok_def)
    then show ?thesis unfolding ev_ok_def s by auto
  qed
  ultimately show ?thesis using assms by (simp add: records_ok_def s)
qed

lemma grows_append [simp]: "grows a (abs_appendLeaf a l x)"
  unfolding grows_def by (auto simp: abs_appendLeaf_def)

text \<open>A fresh attestation whose leaf is in the log, a status entry, new and updated evidence.\<close>

lemma records_ok_putAttestation:
  assumes "records_ok H a" "fresh_att a r" "ar_logId r = tenantLogId (ar_tenant r)" "ar_status r = Active"
    and "leaf_at H a (ar_logId r) (ar_leafIndex r) (ar_leafHash r)"
    and "se_registryId e = ar_registryId r" "se_status e = Active" "se_logId e = ar_logId r"
    "se_leafIndex e = ar_leafIndex r" "se_leafHash e = ar_leafHash r"
  shows "records_ok H (abs_appendStatus (abs_putAttestation a r) e)"
proof -
  let ?a = "abs_appendStatus (abs_putAttestation a r) e" and ?i = "ar_registryId r"
  have s: "as_att ?a = (as_att a)(?i \<mapsto> r)"
    "as_attKey ?a = (as_attKey a)((ar_tenant r, ar_contentHash r) \<mapsto> ?i)"
    "as_status ?a = (as_status a)(?i := as_status a ?i @ [e])"
    "as_ev ?a = as_ev a" "as_evKey ?a = as_evKey a" "as_leaves ?a = as_leaves a"
    using assms(6) by (simp_all add: abs_appendStatus_def abs_putAttestation_def)
  note L = leaf_at_cong[OF s(6), of H] the_leaves_cong[OF s(6)]
  have new: "as_att a ?i = None" "as_status a ?i = []" "as_attKey a (ar_tenant r, ar_contentHash r) = None"
    using assms(1,2) by (auto simp: fresh_att_def records_ok_def)
  have "att_ok H ?a i r'" if "as_att ?a i = Some r'" for i r'
  proof (cases "i = ?i")
    case True
    with that have "r' = r" by (simp add: s)
    with True show ?thesis
      using assms(2-) new by (auto simp: att_ok_def s L status_ok_def fresh_att_def)
  next
    case False
    then have old: "att_ok H a i r'" "as_att a i = Some r'" using assms(1) that by (auto simp: s records_ok_def)
    then have "(ar_tenant r', ar_contentHash r') \<noteq> (ar_tenant r, ar_contentHash r)"
      using new(3) by (auto simp: att_ok_def)
    with old(1) False show ?thesis by (auto simp: att_ok_def s L status_ok_def)
  qed
  moreover have "ev_ok ?a i v" if "as_ev a i = Some v" for i v
  proof -
    have "ev_ok a i v" using assms(1) that by (simp add: records_ok_def)
    then show ?thesis unfolding ev_ok_def s L by auto
  qed
  moreover have "\<exists>r'. as_att ?a i = Some r' \<and> ar_tenant r' = t \<and> ar_contentHash r' = h"
    if "as_attKey ?a (t, h) = Some i" for t h i
  proof (cases "(t, h) = (ar_tenant r, ar_contentHash r)")
    case True
    with that show ?thesis by (simp add: s)
  next
    case False
    with that have "as_attKey a (t, h) = Some i" by (auto simp: s)
    then obtain r' where "as_att a i = Some r'" "ar_tenant r' = t" "ar_contentHash r' = h"
      using assms(1) unfolding records_ok_def by blast
    with new(1) show ?thesis by (auto simp: s)
  qed
  ultimately show ?thesis
    using assms(1) by (simp add: records_ok_def s)
qed

lemma att_ok_update:
  assumes "as_leaves a' = as_leaves a" "as_attKey a' = as_attKey a" "as_status a' i = as_status a i" "att_ok H a i r"
  shows "att_ok H a' i r"
  using assms leaf_at_cong[OF assms(1), of H] by (auto simp: att_ok_def status_ok_def)

lemma ev_ok_update:
  assumes "as_leaves a' = as_leaves a" "as_evKey a' = as_evKey a" "ev_ok a i r"
  shows "ev_ok a' i r"
  using assms the_leaves_cong[OF assms(1)] by (auto simp: ev_ok_def)

lemma records_ok_setStatus:
  assumes "records_ok H a" "as_att a i = Some r" "se_registryId e = i" "se_status e = st"
    and "se_logId e = ar_logId r" "leaf_at H a (ar_logId r) (se_leafIndex e) (se_leafHash e)"
  shows "records_ok H (abs_setAttestationStatus (abs_appendStatus a e) i st)"
proof -
  let ?a = "abs_setAttestationStatus (abs_appendStatus a e) i st"
  have s: "as_att ?a = (as_att a)(i \<mapsto> r\<lparr>ar_status := st\<rparr>)" "as_attKey ?a = as_attKey a"
    "as_status ?a = (as_status a)(i := as_status a i @ [e])"
    "as_ev ?a = as_ev a" "as_evKey ?a = as_evKey a" "as_leaves ?a = as_leaves a"
    using assms(2,3) by (simp_all add: abs_setAttestationStatus_def abs_appendStatus_def)
  have "att_ok H ?a k r'" if "as_att ?a k = Some r'" for k r'
  proof (cases "k = i")
    case True
    with that have "r' = r\<lparr>ar_status := st\<rparr>" by (simp add: s)
    moreover have "att_ok H a i r" using assms(1,2) by (simp add: records_ok_def)
    ultimately show ?thesis
      using True assms(3-) leaf_at_cong[OF s(6), of H] by (auto simp: att_ok_def s status_ok_def)
  next
    case False
    with that assms(1) have "att_ok H a k r'" by (simp add: s records_ok_def)
    with False show ?thesis by (intro att_ok_update[of ?a a]) (simp_all add: s)
  qed
  moreover have "ev_ok ?a k v" if "as_ev a k = Some v" for k v
    by (rule ev_ok_update[OF s(6,5)]) (use assms(1) that in \<open>simp add: records_ok_def\<close>)
  moreover have "\<exists>r'. as_att ?a k = Some r' \<and> ar_tenant r' = t \<and> ar_contentHash r' = h"
    if key: "as_attKey a (t, h) = Some k" for t h k
  proof -
    obtain r' where "as_att a k = Some r'" "ar_tenant r' = t" "ar_contentHash r' = h"
      using assms(1) key unfolding records_ok_def by blast
    then show ?thesis using assms(2) by (auto simp: s)
  qed
  ultimately show ?thesis
    using assms(1) by (simp add: records_ok_def s)
qed

lemma records_ok_putEvidence:
  assumes "records_ok H a" "fresh_ev a v" "er_logId v = tenantLogId (er_tenant v)"
    and "er_leafIndex v < length (the_leaves a (er_logId v))"
  shows "records_ok H (abs_putEvidence a v)"
proof -
  let ?a = "abs_putEvidence a v" and ?i = "er_evidenceId v"
  have s: "as_ev ?a = (as_ev a)(?i \<mapsto> v)"
    "as_evKey ?a = (as_evKey a)((er_tenant v, er_contentHash' v) \<mapsto> ?i)"
    "as_status ?a = as_status a" "as_att ?a = as_att a" "as_attKey ?a = as_attKey a" "as_leaves ?a = as_leaves a"
    by (simp_all add: abs_putEvidence_def)
  have new: "as_ev a ?i = None" "as_evKey a (er_tenant v, er_contentHash' v) = None"
    using assms(2) by (auto simp: fresh_ev_def)
  have "ev_ok ?a k w" if "as_ev ?a k = Some w" for k w
  proof (cases "k = ?i")
    case True
    with that have "w = v" by (simp add: s)
    with True show ?thesis
      using assms(2-) the_leaves_cong[OF s(6)] by (auto simp: ev_ok_def s fresh_ev_def)
  next
    case False
    then have old: "ev_ok a k w" using assms(1) that by (auto simp: s records_ok_def)
    then have "(er_tenant w, er_contentHash' w) \<noteq> (er_tenant v, er_contentHash' v)"
      using new(2) by (auto simp: ev_ok_def)
    with old show ?thesis using the_leaves_cong[OF s(6)] by (auto simp: ev_ok_def s)
  qed
  moreover have "att_ok H ?a k r" if "as_att a k = Some r" for k r
    by (rule att_ok_update[OF s(6,5)]) (use assms(1) that in \<open>simp_all add: s(3) records_ok_def\<close>)
  moreover have "\<exists>w. as_ev ?a k = Some w \<and> er_tenant w = t \<and> er_contentHash' w = h"
    if "as_evKey ?a (t, h) = Some k" for t h k
  proof (cases "(t, h) = (er_tenant v, er_contentHash' v)")
    case True
    with that show ?thesis by (simp add: s)
  next
    case False
    with that have "as_evKey a (t, h) = Some k" by (auto simp: s)
    then obtain w where "as_ev a k = Some w" "er_tenant w = t" "er_contentHash' w = h"
      using assms(1) unfolding records_ok_def by blast
    with new(1) show ?thesis by (auto simp: s)
  qed
  ultimately show ?thesis
    using assms(1) by (simp add: records_ok_def s)
qed

lemma records_ok_updateEvidence:
  assumes "records_ok H a" "as_ev a (er_evidenceId v) = Some w" "ev_evolves w v"
  shows "records_ok H (abs_updateEvidence a v)"
proof -
  let ?a = "abs_updateEvidence a v" and ?i = "er_evidenceId v"
  have s: "as_ev ?a = (as_ev a)(?i \<mapsto> v)" "as_evKey ?a = as_evKey a"
    "as_status ?a = as_status a" "as_att ?a = as_att a" "as_attKey ?a = as_attKey a" "as_leaves ?a = as_leaves a"
    by (simp_all add: abs_updateEvidence_def)
  have f: "er_tenant v = er_tenant w" "er_contentHash' v = er_contentHash' w"
    "er_logId v = er_logId w" "er_leafIndex v = er_leafIndex w"
    using assms(3) by (auto simp: ev_evolves_def)
  have "ev_ok ?a k x" if "as_ev ?a k = Some x" for k x
  proof (cases "k = ?i")
    case True
    with that have "x = v" by (simp add: s)
    moreover have "ev_ok a ?i w" using assms(1,2) by (simp add: records_ok_def)
    ultimately show ?thesis
      using True f the_leaves_cong[OF s(6)] by (auto simp: ev_ok_def s)
  next
    case False
    with that assms(1) have "ev_ok a k x" by (simp add: s records_ok_def)
    then show ?thesis by (rule ev_ok_update[OF s(6,2)])
  qed
  moreover have "att_ok H ?a k r" if "as_att a k = Some r" for k r
    by (rule att_ok_update[OF s(6,5)]) (use assms(1) that in \<open>simp_all add: s(3) records_ok_def\<close>)
  moreover have "\<exists>x. as_ev ?a k = Some x \<and> er_tenant x = t \<and> er_contentHash' x = h"
    if key: "as_evKey a (t, h) = Some k" for t h k
  proof -
    obtain x where "as_ev a k = Some x" "er_tenant x = t" "er_contentHash' x = h"
      using assms(1) key unfolding records_ok_def by blast
    then show ?thesis using assms(2) f by (auto simp: s)
  qed
  ultimately show ?thesis
    using assms(1) by (simp add: records_ok_def s)
qed

subsection \<open>The ledger over any store that keeps the contract\<close>

text \<open>The state after \<open>getLog\<close>: the log is cached.\<close>

definition cached :: "('s \<Rightarrow> AbsStore) \<Rightarrow> string \<Rightarrow> 's LedgerState \<Rightarrow> 's LedgerState" where
  "cached view l s = s\<lparr>ls_logs := (ls_logs s)(l \<mapsto> log_of (view (ls_store s)) l)\<rparr>"

lemma cached_simps [simp]:
  "ls_store (cached view l s) = ls_store s" "ls_world (cached view l s) = ls_world s"
  by (simp_all add: cached_def)

lemma cached_inv: "ledger_inv H view valid s \<Longrightarrow> ledger_inv H view valid (cached view l s)"
  by (auto simp: ledger_inv_def cached_def logs_ok_def)

text \<open>Calls that leave the store and the logs alone.\<close>

definition same_data :: "'s LedgerState \<Rightarrow> 's LedgerState \<Rightarrow> bool" where
  "same_data s s' \<longleftrightarrow> ls_store s' = ls_store s \<and> ls_logs s' = ls_logs s"

lemma same_data_inv: "same_data s s' \<Longrightarrow> ledger_inv H view valid s' = ledger_inv H view valid s"
  by (simp add: same_data_def ledger_inv_def)

lemma wp_newDate [wp_simps]:
  "wp newDate P s = P (Inr (shd (wd_clock (ls_world s))))
     (s\<lparr>ls_world := (ls_world s)\<lparr>wd_clock := stl (wd_clock (ls_world s))\<rparr>\<rparr>)"
  by (simp add: wp_def newDate_def inWorld_def now_def)

lemma wp_randId [wp_simps]:
  "wp (randId pfx) P s = P (Inr (pfx @ hex_of (shd (wd_rand (ls_world s)))))
     (s\<lparr>ls_world := (ls_world s)\<lparr>wd_rand := stl (wd_rand (ls_world s))\<rparr>\<rparr>)"
  by (simp add: wp_def randId_def inWorld_def randomBytes_def bindS_def)

lemma bindS_liftJ [simp]: "bindS (liftJ (Inr x)) f = f x" "bindS (liftJ (Inl e)) f = throw (Uncaught e)"
  by (simp_all add: bindS_def liftJ_def throw_def fun_eq_iff)

lemma wp_setLog [wp_simps]: "wp (setLog l lg) P s = P (Inr ()) (s\<lparr>ls_logs := (ls_logs s)(l \<mapsto> lg)\<rparr>)"
  by (simp add: wp_def setLog_def)

lemma wp_storeAppendLeaf:
  "appendLeaf S (ls_store s) l x = Inr (n, st) \<Longrightarrow> wp (storeAppendLeaf S l x) P s = P (Inr n) (s\<lparr>ls_store := st\<rparr>)"
  by (simp add: wp_def storeAppendLeaf_def)

lemma wp_storeRead: "f (ls_store s) = Inr x \<Longrightarrow> wp (storeRead f) P s = P (Inr x) s"
  by (simp add: wp_def storeRead_def)

lemma wp_storeWrite: "f (ls_store s) = Inr st \<Longrightarrow> wp (storeWrite f) P s = P (Inr ()) (s\<lparr>ls_store := st\<rparr>)"
  by (simp add: wp_def storeWrite_def)

lemma log_of_simps [simp]:
  "tl_leaves (log_of a l) = the_leaves a l" "treeSize (log_of a l) = length (the_leaves a l)"
  by (simp_all add: log_of_def newTransparencyLog_def treeSize_def)

text \<open>What an append reports.\<close>

definition append_result :: "(bytes \<Rightarrow> bytes) \<Rightarrow> string \<Rightarrow> bytes \<Rightarrow> AbsStore \<Rightarrow> AppendResult \<Rightarrow> bool" where
  "append_result H l leaf a ap \<longleftrightarrow> ap_leafIndex ap = length (the_leaves a l)
     \<and> ap_leafHash ap = toHex (hashLeaf H leaf) \<and> ap_treeSize ap = Suc (length (the_leaves a l))
     \<and> currentRootHex H (log_of (abs_appendLeaf a l (toHex leaf)) l) = Inr (ap_root ap)
     \<and> sth_log_id (ap_sth ap) = l \<and> sth_tree_size (ap_sth ap) = int (ap_treeSize ap)
     \<and> sth_root_hash (ap_sth ap) = ap_root ap"

locale ledger = total_store S view valid + anchor_contract A
  for S :: "'s Store" and view :: "'s \<Rightarrow> AbsStore" and valid :: "'s \<Rightarrow> bool" and A :: anchor_op +
  fixes H :: "bytes \<Rightarrow> bytes"
begin

abbreviation inv :: "'s LedgerState \<Rightarrow> bool" where "inv \<equiv> ledger_inv H view valid"

abbreviation data :: "'s LedgerState \<Rightarrow> AbsStore" where "data s \<equiv> view (ls_store s)"

lemma invD: "inv s \<Longrightarrow> valid (ls_store s)" "inv s \<Longrightarrow> logs_ok (data s) (ls_logs s)"
  "inv s \<Longrightarrow> records_ok H (data s)"
  by (simp_all add: ledger_inv_def)

lemma wp_anchor: "wp (inWorld (A l r n)) (\<lambda>res s'. same_data s s'
    \<and> wd_rand (ls_world s') = wd_rand (ls_world s)
    \<and> (\<forall>sth. res = Inr sth \<longrightarrow> sth_log_id sth = l \<and> sth_tree_size sth = n \<and> sth_root_hash sth = r)) s"
  by (cases "A l r n (ls_world s)")
    (auto simp: wp_def inWorld_def same_data_def dest: sth_fields rand_kept)

lemma wp_getLeaves [wp_simps]:
  "inv s \<Longrightarrow> wp (storeRead (\<lambda>st. getLeaves S st l)) P s = P (Inr (as_leaves (data s) l)) s"
proof -
  assume "inv s"
  then have "getLeaves S (ls_store s) l = Inr (as_leaves (data s) l)"
    using reads_succeed(9)[of "ls_store s" l] get_leaves[of "ls_store s" l] invD(1) by blast
  then show ?thesis by (simp add: wp_def storeRead_def)
qed

lemma getLog_logs_ok:
  assumes "valid (ls_store s)" "logs_ok (data s) (ls_logs s)"
  shows "getLog S l s = (Inr (log_of (data s) l), cached view l s)"
proof -
  have lv: "getLeaves S (ls_store s) l = Inr (map toHex (the_leaves (data s) l))"
    using reads_succeed(9)[of "ls_store s" l] get_leaves[of "ls_store s" l] assms
    by (auto simp: logs_ok_def hex_leaves_def)
  show ?thesis
  proof (cases "ls_logs s l")
    case None
    with lv show ?thesis
      by (simp add: getLog_def storeRead_def bindS_def Let_def setLog_def cached_def log_of_def)
  next
    case (Some lg)
    then have "lg = log_of (data s) l" using assms(2) by (auto simp: logs_ok_def)
    with Some show ?thesis by (simp add: getLog_def cached_def fun_upd_idem)
  qed
qed

lemma getLog_eq: "inv s \<Longrightarrow> getLog S l s = (Inr (log_of (data s) l), cached view l s)"
  by (intro getLog_logs_ok) (simp_all add: ledger_inv_def)

lemma wp_getLog [wp_simps]: "inv s \<Longrightarrow> wp (getLog S l) P s = P (Inr (log_of (data s) l)) (cached view l s)"
  by (simp add: wp_def getLog_eq)

text \<open>The one way leaves are added: the tree and the store grow together.\<close>

definition appended :: "string \<Rightarrow> bytes \<Rightarrow> 's LedgerState \<Rightarrow> 's LedgerState \<Rightarrow> bool" where
  "appended l leaf s s' \<longleftrightarrow> inv s' \<and> data s' = abs_appendLeaf (data s) l (toHex leaf)
     \<and> wd_rand (ls_world s') = wd_rand (ls_world s)"

lemma wp_appendAndAnchor:
  assumes "inv s"
  shows "wp (appendAndAnchor H S A l leaf) (\<lambda>r s'. appended l leaf s s'
    \<and> (\<forall>ap. r = Inr ap \<longrightarrow> append_result H l leaf (data s) ap)) s"
proof -
  let ?a' = "abs_appendLeaf (data s) l (toHex leaf)"
  have lg: "tl_append (log_of (data s) l) leaf = (log_of ?a' l, length (the_leaves (data s) l))"
    by (simp add: tl_append_def log_of_def newTransparencyLog_def Let_def)
  obtain n st where st: "appendLeaf S (ls_store s) l (toHex leaf) = Inr (n, st)" "valid st" "view st = ?a'"
    using writes_succeed(7)[of "ls_store s" l "toHex leaf"] append_leaf[of "ls_store s" l "toHex leaf"] invD(1)[OF assms]
    by blast
  define s2 where "s2 = (cached view l s)\<lparr>ls_logs := (ls_logs (cached view l s))(l \<mapsto> log_of ?a' l), ls_store := st\<rparr>"
  have i2: "inv s2"
    using assms st records_ok_append logs_ok_append[OF invD(2)[OF cached_inv[OF assms], of l], of l leaf]
    by (simp add: ledger_inv_def s2_def)
  have h: "leafHashHex H (log_of ?a' l) (int (length (the_leaves (data s) l))) = Inr (toHex (hashLeaf H leaf))"
    by (simp add: leafHashHex_def)
  let ?f = "\<lambda>root sth. \<lparr>ap_leafIndex = length (the_leaves (data s) l), ap_leafHash = toHex (hashLeaf H leaf),
      ap_treeSize = Suc (length (the_leaves (data s) l)), ap_root = root, ap_sth = sth, ap_tl = log_of ?a' l\<rparr>"
  have A: "wp (bindS (inWorld (A l root (int (Suc (length (the_leaves (data s) l)))))) (\<lambda>sth. ret (?f root sth)))
      (\<lambda>r s'. appended l leaf s s' \<and> (\<forall>ap. r = Inr ap \<longrightarrow> append_result H l leaf (data s) ap)) s2"
    if "currentRootHex H (log_of ?a' l) = Inr root" for root
    by (rule wp_seq[OF wp_anchor])
      (use that i2 st in \<open>auto simp: wp_simps appended_def same_data_def s2_def ledger_inv_def append_result_def\<close>)
  have "wp (bindS (liftJ (currentRootHex H (log_of ?a' l))) (\<lambda>root.
        bindS (inWorld (A l root (int (Suc (length (the_leaves (data s) l)))))) (\<lambda>sth. ret (?f root sth))))
      (\<lambda>r s'. appended l leaf s s' \<and> (\<forall>ap. r = Inr ap \<longrightarrow> append_result H l leaf (data s) ap)) s2"
    unfolding wp_bindS[of "liftJ _"] wp_liftJ using A i2 st
    by (auto simp: appended_def s2_def split: sum.splits)
  then show ?thesis
    unfolding appendAndAnchor_def
    by (simp add: wp_bindS[of "getLog _ _"] wp_getLog[OF assms] lg wp_bindS[of "setLog _ _"] wp_setLog
        wp_bindS[of "storeAppendLeaf _ _ _"] wp_storeAppendLeaf[of S _ _ _ n st] st h
        wp_bindS[of "liftJ (leafHashHex _ _ _)"] wp_liftJ del: of_nat_Suc flip: s2_def)
qed

end

end
