(* ===== verification/LedgerOps.thy ===== *)
theory LedgerOps
  imports LedgerInv
begin

text \<open>
  What each operation of the ledger service does, in the locale \<open>ledger\<close>: the answer on every branch,
  the store it leaves, the invariant kept.
\<close>

subsection \<open>Proofs handed out\<close>

text \<open>A proof and a tree head for leaf \<open>i\<close> of log \<open>l\<close>, computed from the stored leaves at the head's size.\<close>

definition proof_for ::
  "(bytes \<Rightarrow> bytes) \<Rightarrow> AbsStore \<Rightarrow> string \<Rightarrow> nat \<Rightarrow> InclusionProof \<Rightarrow> STH \<Rightarrow> bool" where
  "proof_for H a l i pf sth \<longleftrightarrow> sth_log_id sth = l
     \<and> inclusionProof H (log_of a l) (int i) (sth_tree_size sth) = Inr pf
     \<and> rootAtHex H (log_of a l) (sth_tree_size sth) = Inr (sth_root_hash sth)"

lemma currentRootHex_rootAt: "currentRootHex H t = rootAtHex H t (int (treeSize t))"
  by (simp add: currentRootHex_def rootAtHex_def treeSize_def)

lemma inclusionProof_range: "inclusionProof H t m n = Inr pf \<Longrightarrow> 0 \<le> m \<and> m < n \<and> n \<le> int (treeSize t)"
  by (auto simp: inclusionProof_def treeSize_def split: if_splits)

text \<open>Such a proof is accepted by the standalone verifier.\<close>

lemma proof_for_verifies:
  assumes "proof_for H a l i pf sth" "sth_tree_size sth \<le> 2 ^ 30" "leaf_at H a l i h"
  shows "verifyInclusion H h pf (sth_root_hash sth) = Inr True"
proof -
  let ?n = "sth_tree_size sth" and ?ls = "the_leaves a l"
  have p: "inclusionProof H (log_of a l) (int i) ?n = Inr pf" "rootAtHex H (log_of a l) ?n = Inr (sth_root_hash sth)"
    using assms(1) by (simp_all add: proof_for_def)
  then have r: "int i < ?n" "?n \<le> int (length ?ls)" using inclusionProof_range[OF p(1)] by simp_all
  have "verifyInclusion H (toHex (H (leaf_in (?ls ! i))))
      \<lparr>leaf_index = int i, tree_size = ?n, audit_path = map toHex (PATH H i (take (nat ?n) ?ls))\<rparr>
      (toHex (MTH H (take (nat ?n) ?ls))) = Inr True"
    using audit_path_accepted[of i "nat ?n" ?ls H] r assms(2) by simp
  then show ?thesis
    using p r assms(2,3) by (simp add: log_method_eqs leaf_at_def hashLeaf_spec)
qed

lemma proof_for_cong: "as_leaves a' = as_leaves a \<Longrightarrow> proof_for H a' = proof_for H a"
  using the_leaves_cong[of a' a] by (intro ext) (simp add: proof_for_def log_of_def)

context ledger
begin

text \<open>Reading operations keep the store and the invariant.\<close>

definition reads :: "'s LedgerState \<Rightarrow> 's LedgerState \<Rightarrow> bool" where
  "reads s s' \<longleftrightarrow> inv s' \<and> ls_store s' = ls_store s \<and> wd_rand (ls_world s') = wd_rand (ls_world s)"

lemma reads_refl [simp]: "inv s \<Longrightarrow> reads s s"
  by (simp add: reads_def)

lemma readsD: "reads s s' \<Longrightarrow> inv s'" "reads s s' \<Longrightarrow> data s' = data s"
  by (simp_all add: reads_def)

lemma cached_reads [simp]: "inv s \<Longrightarrow> reads s (cached view l s)"
  by (simp add: reads_def cached_inv)

lemma reads_trans: "reads s s' \<Longrightarrow> reads s' s'' \<Longrightarrow> reads s s''"
  by (simp add: reads_def)

lemma wp_anchor_reads:
  "inv s \<Longrightarrow> wp (inWorld (A l r n)) (\<lambda>res s'. reads s s'
    \<and> (\<forall>sth. res = Inr sth \<longrightarrow> sth_log_id sth = l \<and> sth_tree_size sth = n \<and> sth_root_hash sth = r)) s"
  by (rule wp_mono[OF wp_anchor]) (auto simp: reads_def same_data_def ledger_inv_def)

lemma clock_reads [simp]: "inv s \<Longrightarrow> reads s (s\<lparr>ls_world := (ls_world s)\<lparr>wd_clock := c\<rparr>\<rparr>)"
  by (simp add: reads_def ledger_inv_def)

text \<open>Publishing the head of a log at a size, with the proof of a leaf at that size.\<close>

lemma wp_publish:
  assumes "inv s" "\<And>e s'. reads s s' \<Longrightarrow> P (Inl e) s'"
    and "\<And>pf sth s'. reads s s' \<Longrightarrow> proof_for H (data s) l i pf sth \<Longrightarrow> sth_tree_size sth = k \<Longrightarrow> wp (F pf sth) P s'"
  shows "wp (bindS (liftJ (inclusionProof H (log_of (data s) l) (int i) k)) (\<lambda>pf.
     bindS (liftJ (rootAtHex H (log_of (data s) l) k)) (\<lambda>root.
     bindS (inWorld (A l root k)) (\<lambda>sth. F pf sth)))) P s"
proof (cases "inclusionProof H (log_of (data s) l) (int i) k")
  case (Inl e)
  then show ?thesis using assms(1,2) by (simp add: wp_simps)
next
  case pf: (Inr pf)
  show ?thesis
  proof (cases "rootAtHex H (log_of (data s) l) k")
    case (Inl e)
    then show ?thesis using assms(1,2) pf by (simp add: wp_simps)
  next
    case root: (Inr root)
    have "wp (bindS (inWorld (A l root k)) (\<lambda>sth. F pf sth)) P s"
      by (rule wp_seq[OF wp_anchor_reads[OF assms(1)]])
        (use assms(2,3) pf root in \<open>auto simp: proof_for_def\<close>)
    then show ?thesis by (simp add: pf root)
  qed
qed

lemma wp_publish_current:
  assumes "inv s" "\<And>e s'. reads s s' \<Longrightarrow> P (Inl e) s'"
    and "\<And>pf sth s'. reads s s' \<Longrightarrow> proof_for H (data s) l i pf sth \<Longrightarrow>
      sth_tree_size sth = int (length (the_leaves (data s) l)) \<Longrightarrow> wp (F pf sth) P s'"
  shows "wp (bindS (getLog S l) (\<lambda>lg.
     bindS (liftJ (inclusionProof H lg (int i) (int (treeSize lg)))) (\<lambda>pf.
     bindS (liftJ (currentRootHex H lg)) (\<lambda>root.
     bindS (inWorld (A l root (int (treeSize lg)))) (\<lambda>sth. F pf sth))))) P s"
proof -
  let ?s = "cached view l s"
  have r: "reads s s'" if "reads ?s s'" for s' by (rule reads_trans[OF cached_reads[OF assms(1)] that])
  have "wp (bindS (liftJ (inclusionProof H (log_of (data ?s) l) (int i) (int (length (the_leaves (data s) l))))) (\<lambda>pf.
     bindS (liftJ (rootAtHex H (log_of (data ?s) l) (int (length (the_leaves (data s) l))))) (\<lambda>root.
     bindS (inWorld (A l root (int (length (the_leaves (data s) l))))) (\<lambda>sth. F pf sth)))) P ?s"
    by (rule wp_publish[OF cached_inv[OF assms(1)]]) (use assms(2,3) r in auto)
  then show ?thesis
    by (simp add: wp_bindS[of "getLog _ _"] wp_getLog[OF assms(1)] currentRootHex_rootAt)
qed

text \<open>Finding a record.\<close>

lemma wp_attestation_or_404:
  assumes "inv s" "as_att (data s) i = None \<Longrightarrow> P (Inl (ProblemError Not_found (Some i))) s"
    and "\<And>rec. as_att (data s) i = Some rec \<Longrightarrow> P (Inr rec) s"
  shows "wp (attestation_or_404 S i) P s"
proof -
  obtain found where f: "getAttestationById S (ls_store s) i = Inr found" "found = as_att (data s) i"
    using reads_succeed(1)[OF invD(1)[OF assms(1)], of i] get_att[OF invD(1)[OF assms(1)]] by blast
  show ?thesis
    unfolding attestation_or_404_def wp_bindS
    by (subst wp_storeRead[where x = found])
      (use f assms(2,3) in \<open>auto simp: wp_simps split: option.splits\<close>)
qed

lemma wp_evidence_or_404:
  assumes "inv s" "(\<forall>e. as_ev (data s) i = Some e \<longrightarrow> er_deleted e) \<Longrightarrow> P (Inl (ProblemError Not_found (Some i))) s"
    and "\<And>rec. as_ev (data s) i = Some rec \<Longrightarrow> \<not> er_deleted rec \<Longrightarrow> P (Inr rec) s"
  shows "wp (evidence_or_404 S i) P s"
proof -
  obtain found where f: "getEvidenceById S (ls_store s) i = Inr found" "as_ev (data s) i = found"
    using reads_succeed(5)[OF invD(1)[OF assms(1)], of i] get_ev[OF invD(1)[OF assms(1)]] by metis
  show ?thesis
    unfolding evidence_or_404_def wp_bindS
    by (subst wp_storeRead[where x = found])
      (use f assms(2,3) in \<open>auto simp: wp_simps split: option.splits\<close>)
qed

text \<open>Attestations on record.\<close>

definition att_dto :: "AbsStore \<Rightarrow> AttestationRecord \<Rightarrow> Attestation \<Rightarrow> bool" where
  "att_dto a rec d \<longleftrightarrow> at_registry_id d = ar_registryId rec \<and> at_status d = ar_status rec
     \<and> at_log d = \<lparr>lr_log_id = ar_logId rec, lr_leaf_index = ar_leafIndex rec, lr_leaf_hash = ar_leafHash rec\<rparr>
     \<and> proof_for H a (ar_logId rec) (ar_leafIndex rec) (at_inclusion_proof d) (at_sth d)
     \<and> sth_tree_size (at_sth d) = int (length (the_leaves a (ar_logId rec)))"

lemma wp_buildAttestationDto:
  assumes "inv s"
  shows "wp (buildAttestationDto H S A rec) (\<lambda>r s'. reads s s' \<and> (\<forall>d. r = Inr d \<longrightarrow> att_dto (data s) rec d)) s"
  unfolding buildAttestationDto_def
  by (rule wp_publish_current[OF assms]) (auto simp: wp_simps att_dto_def)

lemma wp_getAttestation:
  assumes "inv s"
  shows "wp (getAttestation H S A i) (\<lambda>r s'. reads s s' \<and> (case as_att (data s) i of
      None \<Rightarrow> r = Inl (ProblemError Not_found (Some i))
    | Some rec \<Rightarrow> (\<forall>d. r = Inr d \<longrightarrow> att_dto (data s) rec d))) s"
  unfolding getAttestation_def wp_bindS
  by (rule wp_attestation_or_404[OF assms])
    (auto intro!: wp_mono[OF wp_buildAttestationDto[OF assms]] simp: assms att_dto_def)

lemma wp_getInclusion:
  assumes "inv s"
  shows "wp (getInclusion H S A i n) (\<lambda>r s'. reads s s' \<and> (case as_att (data s) i of
      None \<Rightarrow> r = Inl (ProblemError Not_found (Some i))
    | Some rec \<Rightarrow>
      (let size' = default_to (int (length (the_leaves (data s) (ar_logId rec)))) n in
       if size' < 1 \<or> size' > int (length (the_leaves (data s) (ar_logId rec))) \<or> int (ar_leafIndex rec) \<ge> size'
       then \<exists>msg. r = Inl (ProblemError Proof_unavailable (Some msg))
       else \<forall>d. r = Inr d \<longrightarrow> ir_registry_id d = i \<and> sth_tree_size (ir_sth d) = size'
         \<and> proof_for H (data s) (ar_logId rec) (ar_leafIndex rec) (ir_inclusion_proof d) (ir_sth d)))) s"
  unfolding getInclusion_def wp_bindS[of "attestation_or_404 _ _"]
proof (rule wp_attestation_or_404[OF assms], goal_cases)
  case (2 rec)
  let ?l = "ar_logId rec" and ?s = "cached view (ar_logId rec) s"
  let ?k = "default_to (int (length (the_leaves (data s) ?l))) n"
  have r: "reads s s'" if "reads ?s s'" for s' by (rule reads_trans[OF cached_reads[OF assms] that])
  have P: "wp (bindS (liftJ (inclusionProof H (log_of (data ?s) ?l) (int (ar_leafIndex rec)) ?k)) (\<lambda>inclusion.
       bindS (liftJ (rootAtHex H (log_of (data ?s) ?l) ?k)) (\<lambda>root.
       bindS (inWorld (A ?l root ?k)) (\<lambda>sth.
       ret \<lparr>ir_registry_id = i, ir_inclusion_proof = inclusion, ir_sth = sth\<rparr>))))
      (\<lambda>r s'. reads s s' \<and> (\<forall>d. r = Inr d \<longrightarrow> ir_registry_id d = i \<and> sth_tree_size (ir_sth d) = ?k
         \<and> proof_for H (data s) ?l (ar_leafIndex rec) (ir_inclusion_proof d) (ir_sth d))) ?s"
    by (rule wp_publish[OF cached_inv[OF assms]]) (use r in \<open>auto simp: wp_simps\<close>)
  show ?case
    using P 2 assms cached_reads[OF assms, of ?l]
    by (auto simp add: wp_bindS[of "getLog _ _"] wp_getLog[OF assms] Let_def wp_throw
        wp_if[of _ "throw _"] simp del: cached_reads elim!: wp_mono)
qed (simp add: assms)

end

lemma append_result_proof:
  assumes "append_result H l leaf a ap" "as_leaves a' = as_leaves (abs_appendLeaf a l (toHex leaf))"
    and "inclusionProof H (log_of a' l) (int (ap_leafIndex ap)) (int (treeSize (log_of a' l))) = Inr pf"
  shows "proof_for H a' l (ap_leafIndex ap) pf (ap_sth ap)"
    and "sth_tree_size (ap_sth ap) = int (Suc (length (the_leaves a l)))"
    and "leaf_at H a' l (ap_leafIndex ap) (ap_leafHash ap)"
proof -
  have "log_of a' l = log_of (abs_appendLeaf a l (toHex leaf)) l" "the_leaves a' = the_leaves (abs_appendLeaf a l (toHex leaf))"
    using the_leaves_cong[OF assms(2)] by (simp_all add: log_of_def)
  then show "proof_for H a' l (ap_leafIndex ap) pf (ap_sth ap)"
    "sth_tree_size (ap_sth ap) = int (Suc (length (the_leaves a l)))"
    "leaf_at H a' l (ap_leafIndex ap) (ap_leafHash ap)"
    using assms(1,3) by (auto simp: append_result_def proof_for_def currentRootHex_rootAt leaf_at_def)
qed

lemma abs_appendLeaf_fields [simp]:
  "as_att (abs_appendLeaf a l x) = as_att a" "as_attKey (abs_appendLeaf a l x) = as_attKey a"
  "as_status (abs_appendLeaf a l x) = as_status a" "as_ev (abs_appendLeaf a l x) = as_ev a"
  "as_evKey (abs_appendLeaf a l x) = as_evKey a" "as_ckpts (abs_appendLeaf a l x) = as_ckpts a"
  by (simp_all add: abs_appendLeaf_def)

lemma att_evolves_status: "ar_status r \<noteq> Revoked \<Longrightarrow> st \<noteq> Active \<Longrightarrow> att_evolves r (r\<lparr>ar_status := st\<rparr>)"
  unfolding att_evolves_def by blast

context ledger
begin

text \<open>Writing calls, by the change they make to the abstract store.\<close>

lemma wp_append_status:
  assumes "valid (ls_store s)" "as_att (data s) (se_registryId e) \<noteq> None"
    and "\<And>st. valid st \<Longrightarrow> view st = abs_appendStatus (data s) e \<Longrightarrow> P (Inr ()) (s\<lparr>ls_store := st\<rparr>)"
  shows "wp (storeWrite (\<lambda>st. appendStatus S st e)) P s"
  using writes_succeed(3)[OF assms(1), of e] append_status[OF assms(1,2)] assms(3)
  by (auto simp: wp_def storeWrite_def)

lemma wp_set_status:
  assumes "valid (ls_store s)"
    and "\<And>st'. valid st' \<Longrightarrow> view st' = abs_setAttestationStatus (data s) i st \<Longrightarrow> P (Inr ()) (s\<lparr>ls_store := st'\<rparr>)"
  shows "wp (storeWrite (\<lambda>x. setAttestationStatus S x i st)) P s"
  using writes_succeed(2)[OF assms(1), of i st] set_status[OF assms(1), of i st] assms(2)
  by (auto simp: wp_def storeWrite_def)

lemma wp_put_attestation:
  assumes "valid (ls_store s)" "fresh_att (data s) rec"
    and "\<And>st. valid st \<Longrightarrow> view st = abs_putAttestation (data s) rec \<Longrightarrow> P (Inr ()) (s\<lparr>ls_store := st\<rparr>)"
  shows "wp (storeWrite (\<lambda>st. putAttestation S st rec)) P s"
  using writes_succeed(1)[OF assms(1), of rec] put_att[OF assms(1,2)] assms(3)
  by (auto simp: wp_def storeWrite_def)

lemma wp_put_evidence:
  assumes "valid (ls_store s)" "fresh_ev (data s) ev"
    and "\<And>st. valid st \<Longrightarrow> view st = abs_putEvidence (data s) ev \<Longrightarrow> P (Inr ()) (s\<lparr>ls_store := st\<rparr>)"
  shows "wp (storeWrite (\<lambda>st. putEvidence S st ev)) P s"
  using writes_succeed(4)[OF assms(1), of ev] put_ev[OF assms(1,2)] assms(3)
  by (auto simp: wp_def storeWrite_def)

lemma wp_update_evidence:
  assumes "valid (ls_store s)" "as_ev (data s) (er_evidenceId ev) = Some old" "same_evidence old ev"
    and "\<And>st. valid st \<Longrightarrow> view st = abs_updateEvidence (data s) ev \<Longrightarrow> P (Inr ()) (s\<lparr>ls_store := st\<rparr>)"
  shows "wp (storeWrite (\<lambda>st. updateEvidence S st ev)) P s"
  using writes_succeed(5)[OF assms(1), of ev] update_ev[OF assms(1,2,3)] assms(4)
  by (auto simp: wp_def storeWrite_def)

lemma wp_put_checkpoint:
  assumes "valid (ls_store s)"
    and "\<And>st. valid st \<Longrightarrow> view st = abs_putCheckpoint (data s) c \<Longrightarrow> P (Inr ()) (s\<lparr>ls_store := st\<rparr>)"
  shows "wp (storeWrite (\<lambda>st. putCheckpoint S st c)) P s"
  using writes_succeed(6)[OF assms(1), of c] put_ckpt[OF assms(1)] assms(2)
  by (auto simp: wp_def storeWrite_def)

text \<open>The answer of an operation that has just added a leaf: proof of that leaf at the published head.\<close>

lemma wp_leaf_proof:
  assumes "inv s" "append_result H l leaf a ap" "as_leaves (data s) = as_leaves (abs_appendLeaf a l (toHex leaf))"
    and "\<And>e. Q (Inl e) (cached view l s)"
    and "\<And>pf. proof_for H (data s) l (ap_leafIndex ap) pf (ap_sth ap) \<Longrightarrow> Q (Inr (F pf)) (cached view l s)"
  shows "wp (bindS (getLog S l) (\<lambda>lg. bindS (liftJ (inclusionProof H lg (int (ap_leafIndex ap)) (int (treeSize lg))))
     (\<lambda>pf. ret (F pf)))) Q s"
proof (cases "inclusionProof H (log_of (data s) l) (int (ap_leafIndex ap)) (int (treeSize (log_of (data s) l)))")
  case (Inl e)
  then show ?thesis using assms(4) by (simp add: wp_bindS[of "getLog _ _"] wp_getLog[OF assms(1)] wp_throw)
next
  case (Inr pf)
  then show ?thesis
    using assms(5)[of pf] append_result_proof(1)[of H l leaf a ap "data s" pf] assms(2,3)
    by (simp add: wp_bindS[of "getLog _ _"] wp_getLog[OF assms(1)] wp_ret wp_Pair)
qed


text \<open>Changing a status.\<close>

lemma inv_appended: "appended l leaf s s' \<Longrightarrow> inv s' \<and> grows (data s) (data s')"
  by (simp add: appended_def)

lemma inv_store:
  "inv s \<Longrightarrow> valid st \<Longrightarrow> as_leaves (view st) = as_leaves (data s) \<Longrightarrow> records_ok H (view st) \<Longrightarrow>
    inv (s\<lparr>ls_store := st\<rparr>)"
  using logs_ok_cong[of "view st" "data s"] by (simp add: ledger_inv_def)

definition status_changed ::
  "string \<Rightarrow> RecordStatus \<Rightarrow> AttestationRecord \<Rightarrow> string \<Rightarrow> string \<Rightarrow> string option \<Rightarrow>
     AbsStore \<Rightarrow> AbsStore \<Rightarrow> bool" where
  "status_changed i st rec actor since by' a a' \<longleftrightarrow> (\<exists>leaf e.
     a' = abs_setAttestationStatus (abs_appendStatus (abs_appendLeaf a (ar_logId rec) (toHex leaf)) e) i st
     \<and> leaf = statusLeaf i st since actor by' \<and> se_since e = since \<and> se_supersededBy e = by'
     \<and> se_registryId e = i \<and> se_status e = st \<and> se_actor e = actor
     \<and> se_logId e = ar_logId rec \<and> se_leafIndex e = length (the_leaves a (ar_logId rec)))"

lemma status_changed_inv:
  assumes "records_ok H a" "as_att a i = Some rec" "se_registryId e = i" "se_status e = st" "se_logId e = ar_logId rec"
    and "se_leafIndex e = length (the_leaves a (ar_logId rec))" "se_leafHash e = toHex (hashLeaf H leaf)"
  shows "records_ok H (abs_setAttestationStatus (abs_appendStatus (abs_appendLeaf a (ar_logId rec) (toHex leaf)) e) i st)"
  by (rule records_ok_setStatus[OF records_ok_append[OF assms(1)], where r = rec])
    (use assms in \<open>simp_all add: leaf_at_def\<close>)

lemma grows_status:
  assumes "as_att a i = Some rec" "ar_status rec \<noteq> Revoked" "st \<noteq> Active"
  shows "grows a (abs_setAttestationStatus (abs_appendStatus (abs_appendLeaf a l x) e) i st)"
  using assms att_evolves_status[of rec st]
  by (auto simp: grows_def abs_setAttestationStatus_def abs_appendStatus_def abs_appendLeaf_def)


lemma wp_setStatus:
  assumes "inv s"
  shows "wp (setStatus H S A i action reason by' t) (\<lambda>r s'. case as_att (data s) i of
      None \<Rightarrow> r = Inl (ProblemError Not_found (Some i)) \<and> s' = s
    | Some rec \<Rightarrow>
      if ar_tenant rec \<noteq> t
      then r = Inl (ProblemError Forbidden_tenant (Some ''attestation belongs to another tenant'')) \<and> s' = s
      else if ar_status rec = Revoked
      then r = Inl (ProblemError Status_conflict (Some ''attestation is already revoked'')) \<and> s' = s
      else inv s' \<and> grows (data s) (data s') \<and> (\<forall>d. r = Inr d \<longrightarrow>
        status_changed i (if action = Revoke then Revoked else Superseded) rec t (sr_since d) by' (data s) (data s')
        \<and> sr_registry_id d = i \<and> sr_status d = (if action = Revoke then Revoked else Superseded)
        \<and> proof_for H (data s') (ar_logId rec) (length (the_leaves (data s) (ar_logId rec))) (sr_proof d) (sr_sth d))) s"
  unfolding setStatus_def wp_bindS[of "attestation_or_404 _ _"]
proof (rule wp_attestation_or_404[OF assms], goal_cases)
  case (2 rec)
  let ?l = "ar_logId rec"
  define st0 where "st0 = (if action = Revoke then Revoked else Superseded)"
  have na: "st0 \<noteq> Active" by (simp add: st0_def)
  let ?Q = "\<lambda>r s'. inv s' \<and> grows (data s) (data s') \<and> (\<forall>d. r = Inr d \<longrightarrow>
        status_changed i st0 rec t (sr_since d) by' (data s) (data s') \<and> sr_registry_id d = i \<and> sr_status d = st0
        \<and> proof_for H (data s') ?l (length (the_leaves (data s) ?l)) (sr_proof d) (sr_sth d))"
  have main: "wp (bindS (appendAndAnchor H S A ?l (statusLeaf i st0 since t by')) (\<lambda>ap.
        bindS (storeWrite (\<lambda>st. appendStatus S st
          \<lparr>se_registryId = i, se_status = st0, se_since = since, se_reason = Some reason,
           se_supersededBy = by', se_actor = t, se_logId = ?l,
           se_leafIndex = ap_leafIndex ap, se_leafHash = ap_leafHash ap\<rparr>)) (\<lambda>_.
        bindS (storeWrite (\<lambda>st. setAttestationStatus S st i st0)) (\<lambda>_.
        bindS (getLog S ?l) (\<lambda>lg.
        bindS (liftJ (inclusionProof H lg (int (ap_leafIndex ap)) (int (treeSize lg)))) (\<lambda>pf.
        ret \<lparr>sr_registry_id = i, sr_status = st0, sr_since = since, sr_reason = Some reason,
             sr_supersededBy = by', sr_actor = t, sr_proof = pf, sr_sth = ap_sth ap\<rparr>)))))) ?Q s1"
    (is "wp (?main since) _ _" is "wp (bindS _ ?rest) _ _")
    if s1: "inv s1" "data s1 = data s" and live: "ar_status rec \<noteq> Revoked" for s1 since
  proof (rule wp_seq[OF wp_appendAndAnchor[OF s1(1)]])
    let ?leaf = "statusLeaf i st0 since t by'"
    fix ap s2
    assume ap: "appended ?l ?leaf s1 s2 \<and> (\<forall>ap'. Inr ap = Inr ap' \<longrightarrow> append_result H ?l ?leaf (data s1) ap')"
    let ?e = "\<lparr>se_registryId = i, se_status = st0, se_since = since, se_reason = Some reason,
           se_supersededBy = by', se_actor = t, se_logId = ?l,
           se_leafIndex = ap_leafIndex ap, se_leafHash = ap_leafHash ap\<rparr>"
    let ?a = "abs_setAttestationStatus (abs_appendStatus (abs_appendLeaf (data s) ?l (toHex ?leaf)) ?e) i st0"
    have s2: "inv s2" "data s2 = abs_appendLeaf (data s) ?l (toHex ?leaf)" using ap s1 by (auto simp: appended_def)
    have r: "append_result H ?l ?leaf (data s) ap" using ap s1 by simp
    have ok: "records_ok H ?a"
      using status_changed_inv[OF invD(3)[OF assms] 2, of ?e st0 ?leaf] r by (simp add: append_result_def)
    have ch: "status_changed i st0 rec t since by' (data s) ?a"
      unfolding status_changed_def
      by (intro exI[of _ ?leaf] exI[of _ ?e]) (use r in \<open>simp add: append_result_def\<close>)
    have gr: "grows (data s) ?a" by (rule grows_status[OF 2]) (use live na in auto)
    have lv: "as_leaves ?a = as_leaves (abs_appendLeaf (data s) ?l (toHex ?leaf))"
      by (simp add: abs_setAttestationStatus_def abs_appendStatus_def)
    have i': "length (the_leaves (data s) ?l) = ap_leafIndex ap" using r by (simp add: append_result_def)
    show "wp (?rest ap) ?Q s2"
      unfolding wp_bindS[of "storeWrite _"]
    proof (rule wp_append_status[OF invD(1)[OF s2(1)]], goal_cases)
      case 1
      then show ?case using 2 s2(2) by simp
    next
      case (2 st)
      then have v: "valid st" "view st = abs_appendStatus (abs_appendLeaf (data s) ?l (toHex ?leaf)) ?e"
        using s2(2) by simp_all
      show ?case
        unfolding sum.case
      proof (rule wp_set_status, goal_cases)
        case (2 st')
        then have w: "valid st'" "view st' = ?a" using v(2) by simp_all
        have "inv (s2\<lparr>ls_store := st'\<rparr>)" by (rule inv_store[OF s2(1) w(1)]) (use w lv s2 ok in simp_all)
        then have i3: "inv (s2\<lparr>ls_store := st, ls_store := st'\<rparr>)" by simp
        show ?case
          unfolding sum.case
          by (rule wp_leaf_proof[OF i3, where a = "data s" and leaf = ?leaf])
            (use r w lv ch gr i3 i' in \<open>auto simp: cached_inv\<close>)
      qed (simp add: v)
    qed
  next
    fix e s2
    assume "appended ?l (statusLeaf i st0 since t by') s1 s2 \<and> (\<forall>ap. Inl e = Inr ap \<longrightarrow> append_result H ?l (statusLeaf i st0 since t by') (data s1) ap)"
    then show "?Q (Inl e) s2" using s1 by (auto simp: appended_def)
  qed
  have "wp (bindS newDate (\<lambda>u. ?main (toISOString u))) ?Q s" if "ar_status rec \<noteq> Revoked"
    unfolding wp_bindS[of newDate] wp_newDate sum.case
    by (rule main) (use assms that in \<open>simp_all add: ledger_inv_def\<close>)
  then show ?case
    using 2 assms unfolding Let_def st0_def[symmetric]
    by (cases "ar_tenant rec = t"; cases "ar_status rec = Revoked") (simp_all add: wp_problem ret_def)
qed simp

end

context ledger
begin

lemma wp_attestation_by_content:
  assumes "inv s" "key_hash h"
    and "\<And>found. found = Option.bind (as_attKey (data s) (t, h)) (as_att (data s)) \<Longrightarrow> P (Inr found) s"
  shows "wp (storeRead (\<lambda>st. getAttestationByContentHash S st t h)) P s"
proof -
  obtain found where "getAttestationByContentHash S (ls_store s) t h = Inr found"
    using reads_succeed(2)[OF invD(1)[OF assms(1)], of t h] by blast
  with get_att_content[OF invD(1)[OF assms(1)] assms(2) this] assms(3) show ?thesis
    by (subst wp_storeRead[where x = found]) auto
qed

lemma wp_evidence_by_content:
  assumes "inv s" "key_hash h"
    and "\<And>found. found = Option.bind (as_evKey (data s) (t, h)) (as_ev (data s)) \<Longrightarrow> P (Inr found) s"
  shows "wp (storeRead (\<lambda>st. getEvidenceByContentHash S st t h)) P s"
proof -
  obtain found where "getEvidenceByContentHash S (ls_store s) t h = Inr found"
    using reads_succeed(6)[OF invD(1)[OF assms(1)], of t h] by blast
  with get_ev_content[OF invD(1)[OF assms(1)] assms(2) this] assms(3) show ?thesis
    by (subst wp_storeRead[where x = found]) auto
qed

lemma attKey_None:
  "records_ok H a \<Longrightarrow> Option.bind (as_attKey a (t, h)) (as_att a) = None \<Longrightarrow> as_attKey a (t, h) = None"
  by (cases "as_attKey a (t, h)") (force simp: records_ok_def)+

lemma evKey_None:
  "records_ok H a \<Longrightarrow> Option.bind (as_evKey a (t, h)) (as_ev a) = None \<Longrightarrow> as_evKey a (t, h) = None"
  by (cases "as_evKey a (t, h)") (force simp: records_ok_def)+

text \<open>What anchoring a new attestation leaves behind.\<close>

definition anchored :: "string \<Rightarrow> AttestationRequest \<Rightarrow> AbsStore \<Rightarrow> AbsStore \<Rightarrow> Attestation \<Rightarrow> bool" where
  "anchored tenant req a a' d \<longleftrightarrow> (\<exists>rec e. let l = tenantLogId tenant;
       leaf = attestationLeaf (at_registry_id d) (to_lower (rq_contentHash req)) (rq_subject req) (rq_issuer req) (rq_recordType req) in
     a' = abs_appendStatus (abs_putAttestation (abs_appendLeaf a l (toHex leaf)) rec) e
     \<and> fresh_att a rec \<and> ar_tenant rec = tenant \<and> ar_contentHash rec = to_lower (rq_contentHash req)
     \<and> ar_status rec = Active \<and> ar_logId rec = l \<and> ar_leafIndex rec = length (the_leaves a l)
     \<and> ar_leafHash rec = toHex (hashLeaf H leaf) \<and> se_registryId e = ar_registryId rec \<and> se_status e = Active
     \<and> att_dto a' rec d)"

lemma fresh_att_appendLeaf [simp]: "fresh_att (abs_appendLeaf a l x) rec = fresh_att a rec"
  by (simp add: fresh_att_def)

lemma grows_put:
  assumes "fresh_att a rec"
  shows "grows a (abs_appendStatus (abs_putAttestation (abs_appendLeaf a l x) rec) e)"
  using assms
  by (auto simp: grows_def abs_putAttestation_def abs_appendStatus_def abs_appendLeaf_def fresh_att_def)

lemma wp_anchor_new:
  fixes req tenant registryId
  defines "h \<equiv> to_lower (rq_contentHash req)" and "l \<equiv> tenantLogId tenant"
  defines "leaf \<equiv> attestationLeaf registryId h (rq_subject req) (rq_issuer req) (rq_recordType req)"
  assumes "inv s" "key_hash h" "as_att (data s) registryId = None" "as_attKey (data s) (tenant, h) = None"
  shows "wp (bindS (appendAndAnchor H S A l leaf) (\<lambda>ap.
         bindS newDate (\<lambda>t.
         bindS (storeWrite (\<lambda>st. putAttestation S st
           \<lparr>ar_registryId = registryId, ar_subject = rq_subject req, ar_issuer = rq_issuer req,
            ar_recordType = rq_recordType req, ar_contentHash = h,
            ar_hashAlg = default_to ''sha256'' (rq_hashAlg req), ar_status = Active, ar_tenant = tenant,
            ar_logId = l, ar_leafIndex = ap_leafIndex ap, ar_leafHash = ap_leafHash ap,
            ar_passport = links_passport (rq_links req), ar_links = rq_links req, ar_issuedAt = rq_issuedAt req,
            ar_anchoredAt = toISOString t\<rparr>)) (\<lambda>_.
         bindS (storeWrite (\<lambda>st. appendStatus S st
           \<lparr>se_registryId = registryId, se_status = Active, se_since = toISOString t, se_reason = None,
            se_supersededBy = None, se_actor = rq_issuer req, se_logId = l, se_leafIndex = ap_leafIndex ap,
            se_leafHash = ap_leafHash ap\<rparr>)) (\<lambda>_.
         bindS (getLog S l) (\<lambda>lg.
         bindS (liftJ (inclusionProof H lg (int (ap_leafIndex ap)) (int (treeSize lg)))) (\<lambda>inclusion.
         ret (\<lparr>at_registry_id = registryId, at_subject = rq_subject req, at_issuer = rq_issuer req,
               at_recordType = rq_recordType req, at_status = Active, at_anchored_at = toISOString t,
               at_log = \<lparr>lr_log_id = l, lr_leaf_index = ap_leafIndex ap, lr_leaf_hash = ap_leafHash ap\<rparr>,
               at_inclusion_proof = inclusion, at_sth = ap_sth ap\<rparr>, False)))))))) (\<lambda>r s'. inv s' \<and> grows (data s) (data s')
      \<and> (\<forall>d fl. r = Inr (d, fl) \<longrightarrow> \<not> fl \<and> at_registry_id d = registryId \<and> anchored tenant req (data s) (data s') d)) s"
    (is "wp (bindS _ ?rest) ?Q s")
proof (rule wp_seq[OF wp_appendAndAnchor[OF assms(4)]])
  fix ap s2
  assume ap: "appended l leaf s s2 \<and> (\<forall>ap'. Inr ap = Inr ap' \<longrightarrow> append_result H l leaf (data s) ap')"
  have s2: "inv s2" "data s2 = abs_appendLeaf (data s) l (toHex leaf)" using ap by (auto simp: appended_def)
  have r: "append_result H l leaf (data s) ap" using ap by simp
  define rec where "rec t = \<lparr>ar_registryId = registryId, ar_subject = rq_subject req, ar_issuer = rq_issuer req,
            ar_recordType = rq_recordType req, ar_contentHash = h,
            ar_hashAlg = default_to ''sha256'' (rq_hashAlg req), ar_status = Active, ar_tenant = tenant,
            ar_logId = l, ar_leafIndex = ap_leafIndex ap, ar_leafHash = ap_leafHash ap,
            ar_passport = links_passport (rq_links req), ar_links = rq_links req, ar_issuedAt = rq_issuedAt req,
            ar_anchoredAt = toISOString t\<rparr>" for t
  define e where "e t = \<lparr>se_registryId = registryId, se_status = Active, se_since = toISOString t, se_reason = None,
            se_supersededBy = None, se_actor = rq_issuer req, se_logId = l, se_leafIndex = ap_leafIndex ap,
            se_leafHash = ap_leafHash ap\<rparr>" for t
  let ?a = "\<lambda>t. abs_appendStatus (abs_putAttestation (abs_appendLeaf (data s) l (toHex leaf)) (rec t)) (e t)"
  have fresh: "fresh_att (data s) (rec t)" for t using assms(4-) by (simp add: fresh_att_def rec_def)
  have idx: "ap_leafIndex ap = length (the_leaves (data s) l)" "ap_leafHash ap = toHex (hashLeaf H leaf)"
    using r by (simp_all add: append_result_def)
  have ok: "records_ok H (?a t)" for t
    by (rule records_ok_putAttestation[OF records_ok_append[OF invD(3)[OF assms(4)]]])
      (use fresh idx in \<open>simp_all add: rec_def e_def l_def leaf_at_def\<close>)
  have lv: "as_leaves (?a t) = as_leaves (abs_appendLeaf (data s) l (toHex leaf))" for t
    by (simp add: abs_putAttestation_def abs_appendStatus_def)
  have gr: "grows (data s) (?a t)" for t by (rule grows_put[OF fresh])
  show "wp (?rest ap) ?Q s2"
    unfolding wp_bindS[of newDate] wp_newDate sum.case wp_bindS[of "storeWrite _"] rec_def[symmetric] e_def[symmetric]
  proof (rule wp_put_attestation, goal_cases)
    case (3 st)
    then have v: "valid st" "view st = abs_putAttestation (abs_appendLeaf (data s) l (toHex leaf)) (rec (shd (wd_clock (ls_world s2))))"
      using s2(2) by simp_all
    show ?case
      unfolding sum.case
    proof (rule wp_append_status, goal_cases)
      case (3 st')
      let ?t = "shd (wd_clock (ls_world s2))"
      have w: "valid st'" "view st' = ?a ?t" using 3 v by simp_all
      have "inv (s2\<lparr>ls_store := st'\<rparr>)" by (rule inv_store[OF s2(1) w(1)]) (use w lv s2 ok in simp_all)
      then have i3: "inv (s2\<lparr>ls_world := (ls_world s2)\<lparr>wd_clock := stl (wd_clock (ls_world s2))\<rparr>,
          ls_store := st, ls_store := st'\<rparr>)" by (simp add: ledger_inv_def)
      have dto: "anchored tenant req (data s) (?a ?t) \<lparr>at_registry_id = registryId, at_subject = rq_subject req, at_issuer = rq_issuer req,
               at_recordType = rq_recordType req, at_status = Active, at_anchored_at = toISOString ?t,
               at_log = \<lparr>lr_log_id = l, lr_leaf_index = ap_leafIndex ap, lr_leaf_hash = ap_leafHash ap\<rparr>,
               at_inclusion_proof = pf, at_sth = ap_sth ap\<rparr>"
        if pf: "proof_for H (?a ?t) l (ap_leafIndex ap) pf (ap_sth ap)" for pf
        unfolding anchored_def Let_def
        by (intro exI[of _ "rec ?t"] exI[of _ "e ?t"])
          (use pf fresh[of ?t] idx r the_leaves_cong[OF lv[of ?t]] in
            \<open>simp add: att_dto_def append_result_def l_def[symmetric] h_def[symmetric] leaf_def[symmetric];
             simp add: rec_def e_def\<close>)
      show ?case
        unfolding sum.case
        by (rule wp_leaf_proof[OF i3, where a = "data s" and leaf = leaf])
          (use r w lv gr i3 dto in \<open>auto simp: cached_inv\<close>)
    qed (use v in \<open>simp_all add: abs_putAttestation_def rec_def e_def\<close>)
  qed (use s2 fresh in \<open>simp_all add: ledger_inv_def\<close>)
next
  fix x :: fault and s2
  assume "appended l leaf s s2 \<and> (\<forall>ap. Inl x = Inr ap \<longrightarrow> append_result H l leaf (data s) ap)"
  then show "?Q (Inl x) s2" by (auto simp: appended_def)
qed

end

lemma the_leaves_length: "hex_leaves a l (the_leaves a l) \<Longrightarrow> length (as_leaves a l) = length (the_leaves a l)"
  by (simp add: the_leaves_def)

text \<open>Two heads of one log and the path between them.\<close>

definition consistent_heads :: "(bytes \<Rightarrow> bytes) \<Rightarrow> AbsStore \<Rightarrow> string \<Rightarrow> int \<Rightarrow> int \<Rightarrow> ConsistencyResponse \<Rightarrow> bool" where
  "consistent_heads H a l m n d \<longleftrightarrow> cr_log_id d = l
     \<and> sth_log_id (cr_first d) = l \<and> sth_tree_size (cr_first d) = m
     \<and> rootAtHex H (log_of a l) m = Inr (sth_root_hash (cr_first d))
     \<and> sth_log_id (cr_second d) = l \<and> sth_tree_size (cr_second d) = n
     \<and> rootAtHex H (log_of a l) n = Inr (sth_root_hash (cr_second d))
     \<and> consistencyProof H (log_of a l) m n
         = Inr \<lparr>first_size = m, second_size = n, consistency_path = cr_consistency_path d\<rparr>"

lemma consistencyProof_sizes:
  "consistencyProof H t m n = Inr cp \<Longrightarrow> cp = \<lparr>first_size = m, second_size = n, consistency_path = consistency_path cp\<rparr>"
  by (auto simp: consistencyProof_def bindE_def split: if_splits sum.splits)

context ledger
begin

lemma wp_anchorAttestation:
  fixes req tenant
  defines "h \<equiv> to_lower (rq_contentHash req)"
  assumes "inv s" "key_hash h" "as_att (data s) (''reg:att:'' @ hex_of (shd (wd_rand (ls_world s)))) = None"
  shows "wp (anchorAttestation H S A req tenant) (\<lambda>r s'.
      case Option.bind (as_attKey (data s) (tenant, h)) (as_att (data s)) of
        Some rec \<Rightarrow> reads s s' \<and> (\<forall>d fl. r = Inr (d, fl) \<longrightarrow> fl \<and> att_dto (data s) rec d)
      | None \<Rightarrow> inv s' \<and> grows (data s) (data s')
          \<and> (\<forall>d fl. r = Inr (d, fl) \<longrightarrow> \<not> fl \<and> anchored tenant req (data s) (data s') d)) s"
  unfolding anchorAttestation_def Let_def wp_bindS[of "storeRead _"] h_def[symmetric]
proof (rule wp_attestation_by_content[OF assms(2,3)], goal_cases)
  case f: (1 found)
  let ?id = "''reg:att:'' @ hex_of (shd (wd_rand (ls_world s)))"
  let ?s = "s\<lparr>ls_world := (ls_world s)\<lparr>wd_rand := stl (wd_rand (ls_world s))\<rparr>\<rparr>"
  have i: "inv ?s" using assms(2) by (simp add: ledger_inv_def)
  show ?case
  proof (cases found)
    case None
    then have "as_attKey (data s) (tenant, h) = None" using f attKey_None[OF invD(3)[OF assms(2)], of tenant h] by simp
    with f show ?thesis
      unfolding None sum.case option.case wp_bindS[of "randId _"] wp_randId
      by (intro wp_mono[OF wp_anchor_new[OF i, where registryId = ?id and req = req and tenant = tenant, folded h_def]])
        (use assms(3,4) in auto)
  next
    case (Some rec)
    with f show ?thesis
      unfolding sum.case Some option.case
      by (intro wp_seq[OF wp_buildAttestationDto[OF assms(2)]])
        (auto simp: wp_simps att_dto_def split: option.splits)
  qed
qed

text \<open>Reading operations: the status of a record and the consistency of two heads.\<close>

lemma wp_getStatusRecord:
  assumes "inv s"
  shows "wp (getStatusRecord H S A i) (\<lambda>r s'. reads s s' \<and> (case as_att (data s) i of
      None \<Rightarrow> r = Inl (ProblemError Not_found (Some i))
    | Some rec \<Rightarrow> \<forall>d. r = Inr d \<longrightarrow> sr_registry_id d = i \<and> sr_status d = ar_status rec
        \<and> sr_status d = se_status (last (as_status (data s) i)) \<and> sr_since d = se_since (last (as_status (data s) i))
        \<and> proof_for H (data s) (ar_logId rec) (se_leafIndex (last (as_status (data s) i))) (sr_proof d) (sr_sth d)
        \<and> sth_tree_size (sr_sth d) = int (length (the_leaves (data s) (ar_logId rec))))) s"
  unfolding getStatusRecord_def wp_bindS[of "attestation_or_404 _ _"]
proof (rule wp_attestation_or_404[OF assms], goal_cases)
  case (2 rec)
  let ?e = "last (as_status (data s) i)"
  have ok: "status_ok H (data s) rec (as_status (data s) i)"
    using invD(3)[OF assms] 2 by (auto simp: records_ok_def att_ok_def)
  obtain latest where "getLatestStatus S (ls_store s) i = Inr latest"
    using reads_succeed(4)[OF invD(1)[OF assms]] by blast
  moreover from this have "latest = Some ?e"
    using latest_status[OF invD(1)[OF assms]] ok by (force simp: status_ok_def last_opt_def)
  ultimately have rd: "getLatestStatus S (ls_store s) i = Inr (Some ?e)" by simp
  have st: "se_status ?e = ar_status rec" using ok by (simp add: status_ok_def)
  show ?case
    unfolding sum.case wp_bindS[of "storeRead _"] wp_storeRead[where f = "\<lambda>st. getLatestStatus S st i", OF rd] Let_def option.case
    by (rule wp_publish_current[OF assms]) (use 2 st in \<open>auto simp: wp_simps\<close>)
qed (simp add: assms)

lemma wp_getConsistency:
  assumes "inv s"
  shows "wp (getConsistency H S A l m n) (\<lambda>r s'. reads s s'
    \<and> (if m < 1 \<or> n > int (length (the_leaves (data s) l)) \<or> m > n
       then \<exists>msg. r = Inl (ProblemError Proof_unavailable (Some msg))
       else \<forall>d. r = Inr d \<longrightarrow> consistent_heads H (data s) l m n d)) s"
proof -
  have len: "length (as_leaves (data s) l) = length (the_leaves (data s) l)"
    using invD(2)[OF assms] by (intro the_leaves_length) (simp add: logs_ok_def)
  let ?s = "cached view l s" and ?t = "log_of (data s) l"
  have i: "inv ?s" by (rule cached_inv[OF assms])
  have r: "reads s s'" if "reads ?s s'" for s' by (rule reads_trans[OF cached_reads[OF assms] that])
  have main: "wp (bindS (liftJ (consistencyProof H ?t m n)) (\<lambda>cp.
         bindS (liftJ (rootAtHex H ?t m)) (\<lambda>root1.
         bindS (inWorld (A l root1 m)) (\<lambda>first.
         bindS (liftJ (rootAtHex H ?t n)) (\<lambda>root2.
         bindS (inWorld (A l root2 n)) (\<lambda>second.
         ret \<lparr>cr_log_id = l, cr_first = first, cr_second = second,
              cr_consistency_path = consistency_path cp\<rparr>))))))
      (\<lambda>r s'. reads s s' \<and> (\<forall>d. r = Inr d \<longrightarrow> consistent_heads H (data s) l m n d)) ?s"
    (is "wp _ ?Q _")
  proof (cases "consistencyProof H ?t m n")
    case cp: (Inr cp)
    show ?thesis
    proof (cases "rootAtHex H ?t m")
      case r1: (Inr r1)
      have "wp (bindS (inWorld (A l r1 m)) (\<lambda>first. bindS (liftJ (rootAtHex H ?t n)) (\<lambda>root2.
         bindS (inWorld (A l root2 n)) (\<lambda>second. ret \<lparr>cr_log_id = l, cr_first = first, cr_second = second,
              cr_consistency_path = consistency_path cp\<rparr>)))) ?Q ?s"
      proof (rule wp_seq[OF wp_anchor_reads[OF i]])
        fix first :: STH and s2
        assume f: "reads ?s s2 \<and> (\<forall>sth. Inr first = Inr sth \<longrightarrow> sth_log_id sth = l \<and> sth_tree_size sth = m \<and> sth_root_hash sth = r1)"
        show "wp (bindS (liftJ (rootAtHex H ?t n)) (\<lambda>root2. bindS (inWorld (A l root2 n)) (\<lambda>second.
            ret \<lparr>cr_log_id = l, cr_first = first, cr_second = second, cr_consistency_path = consistency_path cp\<rparr>))) ?Q s2"
        proof (cases "rootAtHex H ?t n")
          case r2: (Inr r2)
          have j: "inv s2" "reads s s2" using f r by (auto dest: readsD)
          show ?thesis
            unfolding r2 bindS_liftJ
            by (rule wp_seq[OF wp_anchor_reads[OF j(1)]])
              (use j f cp r1 r2 consistencyProof_sizes[OF cp] in
                \<open>auto simp: wp_simps consistent_heads_def intro: reads_trans\<close>)
        qed (use f r in \<open>auto simp: wp_simps\<close>)
      qed (use r in auto)
      then show ?thesis unfolding cp r1 bindS_liftJ .
    qed (use r i in \<open>auto simp: cp wp_simps\<close>)
  qed (use r i in \<open>auto simp: wp_simps\<close>)
  show ?thesis
  proof (cases "as_leaves (data s) l = []")
    case True
    then show ?thesis
      using len assms
      by (auto simp: getConsistency_def wp_bindS[of "storeRead _"] wp_getLeaves[OF assms] wp_problem)
  next
    case False
    then show ?thesis
      using main len assms r[OF reads_refl[OF i]]
      by (simp add: getConsistency_def wp_bindS[of "storeRead _"] wp_getLeaves[OF assms] wp_problem
          wp_bindS[of "getLog _ _"] wp_getLog[OF assms] ret_def) 
  qed
qed

end

end
