(* ===== verification/LedgerEvidence.thy ===== *)
theory LedgerEvidence
  imports LedgerOps
begin

text \<open>
  The evidence operations, checkpoints and the verification bundle, in the locale \<open>ledger\<close>.
\<close>

lemma abs_updateEvidence_fields [simp]:
  "as_att (abs_updateEvidence a v) = as_att a" "as_leaves (abs_updateEvidence a v) = as_leaves a"
  "as_status (abs_updateEvidence a v) = as_status a" "as_evKey (abs_updateEvidence a v) = as_evKey a"
  "as_ev (abs_updateEvidence a v) = (as_ev a)(er_evidenceId v \<mapsto> v)"
  by (simp_all add: abs_updateEvidence_def)

lemma grows_update:
  assumes "as_ev a (er_evidenceId v) = Some w" "ev_evolves w v"
  shows "grows a (abs_updateEvidence a v)"
  using assms by (auto simp: grows_def)

lemma grows_put_evidence:
  "fresh_ev a v \<Longrightarrow> grows a (abs_putEvidence (abs_appendLeaf a l x) v)"
  by (auto simp: grows_def fresh_ev_def abs_putEvidence_def abs_appendLeaf_def)

lemma fresh_ev_appendLeaf [simp]: "fresh_ev (abs_appendLeaf a l x) v = fresh_ev a v"
  by (simp add: fresh_ev_def)

lemma extended_not_earlier: "extended_until rec ext = Inr u \<Longrightarrow> not_earlier (er_until' rec) u"
  by (auto simp: extended_until_def not_earlier_def num_less_def Let_def split: option.splits if_splits)

lemma ev_evolves_retention:
  "not_earlier (er_until' e) u \<Longrightarrow> \<not> er_deleted e \<Longrightarrow> ev_evolves e (e\<lparr>er_until' := u, er_legalHold' := h\<rparr>)"
  unfolding ev_evolves_def
  by (intro exI[of _ u] exI[of _ h] exI[of _ "er_deleted e"]) simp

lemma ev_evolves_delete: "\<not> er_deleted e \<Longrightarrow> ev_evolves e (e\<lparr>er_deleted := True\<rparr>)"
  unfolding ev_evolves_def
  by (intro exI[of _ "er_until' e"] exI[of _ "er_legalHold' e"] exI[of _ True]) simp

text \<open>The answer to a question about evidence: the record and the current head of its log.\<close>

definition ev_dto :: "(bytes \<Rightarrow> bytes) \<Rightarrow> AbsStore \<Rightarrow> EvidenceRecord \<Rightarrow> Evidence \<Rightarrow> bool" where
  "ev_dto H a rec d \<longleftrightarrow> ev_evidence_id d = er_evidenceId rec \<and> ev_contentHash d = er_contentHash' rec
     \<and> rt_until (ev_retention d) = er_until' rec \<and> rt_legalHold (ev_retention d) = er_legalHold' rec
     \<and> (er_legalHold' rec \<longrightarrow> \<not> rt_deletable (ev_retention d))
     \<and> sth_log_id (ev_sth d) = er_logId rec
     \<and> sth_tree_size (ev_sth d) = int (length (the_leaves a (er_logId rec)))
     \<and> rootAtHex H (log_of a (er_logId rec)) (sth_tree_size (ev_sth d)) = Inr (sth_root_hash (ev_sth d))
     \<and> (ev_anchored d \<longleftrightarrow> sth_anchor (ev_sth d) \<noteq> None)"

lemma ev_ids: "records_ok H a \<Longrightarrow> as_ev a i = Some e \<Longrightarrow> er_evidenceId e = i \<and> er_logId e = tenantLogId (er_tenant e)"
  by (simp add: records_ok_def ev_ok_def)

lemma att_ids: "records_ok H a \<Longrightarrow> as_att a i = Some r \<Longrightarrow> ar_registryId r = i \<and> ar_logId r = tenantLogId (ar_tenant r)"
  by (simp add: records_ok_def att_ok_def)

context ledger
begin

lemma wp_toRetention:
  "wp (toRetention u b h) P s = P (Inr \<lparr>rt_until = u, rt_basis = b, rt_legalHold = h,
      rt_deletable = (\<not> num_greater (dateMs u) (shd (wd_clock (ls_world s))) \<and> \<not> h)\<rparr>)
    (s\<lparr>ls_world := (ls_world s)\<lparr>wd_clock := stl (wd_clock (ls_world s))\<rparr>\<rparr>)"
  by (simp add: toRetention_def wp_simps Let_def)

lemma wp_buildEvidenceDto:
  assumes "inv s"
  shows "wp (buildEvidenceDto H S A rec) (\<lambda>r s'. reads s s' \<and> (\<forall>d. r = Inr d \<longrightarrow> ev_dto H (data s) rec d)) s"
proof -
  let ?l = "er_logId rec" and ?s = "cached view (er_logId rec) s"
  have i: "inv ?s" by (rule cached_inv[OF assms])
  have r: "reads s s'" if "reads ?s s'" for s' by (rule reads_trans[OF cached_reads[OF assms] that])
  show ?thesis
  proof (cases "currentRootHex H (log_of (data s) ?l)")
    case (Inl e)
    then show ?thesis
      using r[OF reads_refl[OF i]]
      by (simp add: buildEvidenceDto_def wp_bindS[of "getLog _ _"] wp_getLog[OF assms] wp_throw)
  next
    case (Inr root)
    have "wp (bindS (inWorld (A ?l root (int (length (the_leaves (data s) ?l))))) (\<lambda>sth.
       bindS (toRetention (er_until' rec) (er_basis' rec) (er_legalHold' rec)) (\<lambda>retention.
       ret \<lparr>ev_evidence_id = er_evidenceId rec, ev_contentHash = er_contentHash' rec,
          ev_anchored = (sth_anchor sth \<noteq> None), ev_retention = retention, ev_sth = sth\<rparr>)))
      (\<lambda>r s'. reads s s' \<and> (\<forall>d. r = Inr d \<longrightarrow> ev_dto H (data s) rec d)) ?s"
      by (rule wp_seq[OF wp_anchor_reads[OF i]])
        (use Inr r readsD(1) in \<open>auto simp: wp_simps wp_toRetention ev_dto_def currentRootHex_rootAt intro!: r intro: reads_trans\<close>)
    then show ?thesis
      using Inr by (simp add: buildEvidenceDto_def wp_bindS[of "getLog _ _"] wp_getLog[OF assms] ret_def)
  qed
qed

lemma wp_getEvidence:
  assumes "inv s"
  shows "wp (getEvidence H S A i) (\<lambda>r s'. reads s s' \<and> (case as_ev (data s) i of
      None \<Rightarrow> r = Inl (ProblemError Not_found (Some i))
    | Some rec \<Rightarrow> if er_deleted rec then r = Inl (ProblemError Not_found (Some i))
        else \<forall>d. r = Inr d \<longrightarrow> ev_dto H (data s) rec d)) s"
  unfolding getEvidence_def wp_bindS
  by (rule wp_evidence_or_404[OF assms])
    (auto intro!: wp_mono[OF wp_buildEvidenceDto[OF assms]] simp: assms ev_dto_def split: option.splits)

text \<open>Retention can only be extended.\<close>

lemma wp_updateRetention:
  assumes "inv s"
  shows "wp (updateRetention H S A i hold ext t) (\<lambda>r s'. inv s' \<and> grows (data s) (data s') \<and> (case as_ev (data s) i of
      None \<Rightarrow> r = Inl (ProblemError Not_found (Some i)) \<and> s' = s
    | Some e \<Rightarrow> if er_deleted e then r = Inl (ProblemError Not_found (Some i)) \<and> s' = s
        else if er_tenant e \<noteq> t
        then r = Inl (ProblemError Forbidden_tenant (Some ''evidence belongs to another tenant'')) \<and> s' = s
        else case extended_until e ext of Inl x \<Rightarrow> r = Inl x \<and> s' = s
        | Inr u \<Rightarrow> let e' = e\<lparr>er_until' := u, er_legalHold' := default_to (er_legalHold' e) hold\<rparr> in
            data s' = abs_updateEvidence (data s) e' \<and> (\<forall>d. r = Inr d \<longrightarrow> ev_dto H (data s') e' d))) s"
  unfolding updateRetention_def wp_bindS[of "evidence_or_404 _ _"]
proof (rule wp_evidence_or_404[OF assms], goal_cases)
  case 1
  then show ?case using assms by (auto split: option.splits)
next
  case (2 rec)
  show ?case
  proof (cases "er_tenant rec = t")
    case True
    show ?thesis
    proof (cases "extended_until rec ext")
      case (Inl x)
      then show ?thesis using 2 True assms by (simp add: wp_problem wp_throw)
    next
      case (Inr u)
      let ?r = "rec\<lparr>er_until' := u, er_legalHold' := default_to (er_legalHold' rec) hold\<rparr>"
      let ?e = "rec\<lparr>er_until' := u, er_legalHold' := default_to (er_legalHold' rec) hold\<rparr>"
      let ?a = "abs_updateEvidence (data s) ?r"
      have id: "er_evidenceId rec = i" using ev_ids[OF invD(3)[OF assms] 2(1)] by simp
      have a: "?a = abs_updateEvidence (data s) ?e"
        by (simp add: abs_updateEvidence_def)
      have ev: "ev_evolves rec ?r"
        by (rule ev_evolves_retention) (use extended_not_earlier[OF Inr] 2 in simp_all)
      have ok: "records_ok H ?a"
        by (rule records_ok_updateEvidence[OF invD(3)[OF assms] _ ev]) (use 2 id in simp)
      have gr: "grows (data s) ?a" by (rule grows_update[OF _ ev]) (use 2 id in simp)
      let ?Q = "\<lambda>r s'. inv s' \<and> grows (data s) (data s') \<and> data s' = abs_updateEvidence (data s) ?e
          \<and> (\<forall>d. r = Inr d \<longrightarrow> ev_dto H (data s') ?e d)"
      have "wp (bindS (storeWrite (\<lambda>st. updateEvidence S st ?r)) (\<lambda>_. buildEvidenceDto H S A ?r)) ?Q s"
        unfolding wp_bindS
      proof (rule wp_update_evidence[where old = rec], goal_cases)
        case (4 st)
        have "inv (s\<lparr>ls_store := st\<rparr>)" by (rule inv_store[OF assms 4(1)]) (use 4 ok in simp_all)
        from wp_buildEvidenceDto[OF this, of ?r] show ?case
          unfolding sum.case by (rule wp_mono) (use 4 a gr in \<open>auto simp: reads_def ev_dto_def\<close>)
      qed (use 2 id invD[OF assms] in \<open>simp_all add: same_evidence_def\<close>)
      then show ?thesis using 2 True Inr by (simp add: Let_def)
    qed
  qed (use 2 assms in \<open>simp add: wp_problem\<close>)
qed


text \<open>A deletion is refused under retention, and the refusal is a leaf.\<close>

lemma wp_deleteEvidence:
  assumes "inv s"
  shows "wp (deleteEvidence H S A i t) (\<lambda>r s'. inv s' \<and> grows (data s) (data s') \<and> (case as_ev (data s) i of
      None \<Rightarrow> r = Inl (ProblemError Not_found (Some i)) \<and> s' = s
    | Some e \<Rightarrow> if er_deleted e then r = Inl (ProblemError Not_found (Some i)) \<and> s' = s
        else if er_tenant e \<noteq> t
        then r = Inl (ProblemError Forbidden_tenant (Some ''evidence belongs to another tenant'')) \<and> s' = s
        else if num_greater (dateMs (er_until' e)) (shd (wd_clock (ls_world s))) \<or> er_legalHold' e
        then (\<exists>x. r = Inl x) \<and> data s' = abs_appendLeaf (data s) (er_logId e)
            (toHex (deleteAttemptLeaf i (toISOString (shd (stl (wd_clock (ls_world s))))) t))
        else r = Inr () \<and> data s' = abs_updateEvidence (data s) (e\<lparr>er_deleted := True\<rparr>))) s"
  unfolding deleteEvidence_def wp_bindS[of "evidence_or_404 _ _"]
proof (rule wp_evidence_or_404[OF assms], goal_cases)
  case 1
  then show ?case using assms by (auto split: option.splits)
next
  case (2 rec)
  have id: "er_evidenceId rec = i" using ev_ids[OF invD(3)[OF assms] 2(1)] by simp
  let ?w = "ls_world s"
  let ?locked = "num_greater (dateMs (er_until' rec)) (shd (wd_clock ?w)) \<or> er_legalHold' rec"
  let ?s1 = "s\<lparr>ls_world := ?w\<lparr>wd_clock := stl (wd_clock ?w)\<rparr>\<rparr>"
  let ?s2 = "s\<lparr>ls_world := ?w\<lparr>wd_clock := stl (stl (wd_clock ?w))\<rparr>\<rparr>"
  have i: "inv ?s1" "inv ?s2" using assms by (simp_all add: ledger_inv_def)
  let ?leaf = "deleteAttemptLeaf i (toISOString (shd (stl (wd_clock ?w)))) t"
  let ?R = "\<lambda>r s'. inv s' \<and> grows (data s) (data s') \<and> (\<exists>x. r = Inl x)
      \<and> data s' = abs_appendLeaf (data s) (er_logId rec) (toHex ?leaf)"
  have locked: "wp (bindS (appendAndAnchor H S A (er_logId rec) ?leaf) (\<lambda>_. problem c d)) ?R ?s2" for c d
    by (rule wp_seq[OF wp_appendAndAnchor[OF i(2)]]) (auto simp: appended_def wp_problem)
  let ?d = "rec\<lparr>er_deleted := True\<rparr>" and ?e = "rec\<lparr>er_deleted := True\<rparr>"
  have a: "abs_updateEvidence (data s) ?d = abs_updateEvidence (data s) ?e"
    by (simp add: abs_updateEvidence_def)
  have ev: "ev_evolves rec ?d"
    by (rule ev_evolves_delete) (use 2 in simp)
  have ok: "records_ok H (abs_updateEvidence (data s) ?d)"
    by (rule records_ok_updateEvidence[OF invD(3)[OF assms] _ ev]) (use 2 id in simp)
  have gr: "grows (data s) (abs_updateEvidence (data s) ?d)"
    by (rule grows_update[OF _ ev]) (use 2 id in simp)
  have free: "wp (storeWrite (\<lambda>st. updateEvidence S st ?d)) (\<lambda>r s'. inv s' \<and> grows (data s) (data s')
      \<and> r = Inr () \<and> data s' = abs_updateEvidence (data s) ?e) ?s1"
  proof (rule wp_update_evidence[where old = rec], goal_cases)
    case (4 st)
    have "inv (?s1\<lparr>ls_store := st\<rparr>)" by (rule inv_store[OF i(1) 4(1)]) (use 4 ok in simp_all)
    then show ?case using 4 a gr by simp
  qed (use 2 id invD[OF assms] in \<open>simp_all add: same_evidence_def\<close>)
  show ?case
  proof (cases "er_tenant rec = t")
    case True
    show ?thesis
    proof (cases ?locked)
      case L: True
      with 2 True show ?thesis
        by (simp add: wp_bindS[of newDate] wp_newDate Let_def) (intro conjI impI locked)
    next
      case False
      with 2 True free show ?thesis
        by (simp add: wp_bindS[of newDate] wp_newDate Let_def)
    qed
  qed (use 2 assms in \<open>simp add: wp_problem\<close>)
qed

lemma wp_submitCheckpoint:
  assumes "inv s"
  shows "wp (submitCheckpoint S A l n root) (\<lambda>r s'. inv s' \<and> grows (data s) (data s')
    \<and> (\<forall>d. r = Inr d \<longrightarrow> sth_log_id (cp_sth d) = l \<and> sth_tree_size (cp_sth d) = n
        \<and> sth_root_hash (cp_sth d) = to_lower root
        \<and> (\<exists>c. data s' = abs_putCheckpoint (data s) c \<and> ck_checkpointId c = cp_checkpoint_id d \<and> ck_logId c = l
            \<and> ck_treeSize c = n \<and> ck_rootHash c = to_lower root \<and> ck_timestamp c = sth_timestamp (cp_sth d)))) s"
  unfolding submitCheckpoint_def wp_bindS[of "randId _"] wp_randId sum.case
proof (rule wp_seq[OF wp_anchor_reads], goal_cases)
  case 1
  then show ?case using assms by (simp add: ledger_inv_def)
next
  case (2 e s')
  then show ?case by (auto simp: reads_def)
next
  case (3 sth s')
  then have s': "inv s'" "data s' = data s" by (auto simp: reads_def)
  show ?case
    unfolding wp_bindS[of "storeWrite _"]
  proof (rule wp_put_checkpoint, goal_cases)
    case (2 st)
    have "as_leaves (view st) = as_leaves (data s')" "records_ok H (view st)" "grows (data s) (view st)"
      using 2 s' invD(3)[OF s'(1)] att_ok_update[of "view st" "data s'"] ev_ok_update[of "view st" "data s'"]
      by (auto simp: abs_putCheckpoint_def records_ok_def grows_def)
    then show ?case
      using 2 3 s' inv_store[OF s'(1) 2(1)] by (auto simp: wp_ret wp_Pair)
  qed (use invD[OF s'(1)] in simp)
qed

lemma wp_register_new:
  fixes req tenant evidenceId
  defines "h \<equiv> to_lower (er_contentHash req)" and "l \<equiv> tenantLogId tenant" and "hold \<equiv> default_to False (er_legalHold req)"
  defines "leaf \<equiv> evidenceLeaf evidenceId h (er_until req) (er_basis req) hold"
  assumes "inv s" "key_hash h" "as_ev (data s) evidenceId = None" "as_evKey (data s) (tenant, h) = None"
  shows "wp (bindS (appendAndAnchor H S A l leaf) (\<lambda>ap.
         bindS newDate (\<lambda>t.
         let rec = \<lparr>er_evidenceId = evidenceId, er_contentHash' = h,
             er_hashAlg' = default_to ''sha256'' (er_hashAlg req), er_until' = er_until req,
             er_basis' = er_basis req, er_legalHold' = hold, er_tenant = tenant, er_logId = l,
             er_leafIndex = ap_leafIndex ap, er_links' = er_links req, er_anchoredAt = toISOString t,
             er_deleted = False\<rparr> in
         bindS (storeWrite (\<lambda>st. putEvidence S st rec)) (\<lambda>_.
         bindS (toRetention (er_until req) (er_basis req) hold) (\<lambda>retention.
         ret (\<lparr>ev_evidence_id = evidenceId, ev_contentHash = h,
               ev_anchored = (sth_anchor (ap_sth ap) \<noteq> None), ev_retention = retention,
               ev_sth = ap_sth ap\<rparr>, False)))))) (\<lambda>r s'. inv s' \<and> grows (data s) (data s')
      \<and> (\<forall>d fl. r = Inr (d, fl) \<longrightarrow> \<not> fl \<and> ev_evidence_id d = evidenceId
          \<and> (\<exists>rec. data s' = abs_putEvidence (abs_appendLeaf (data s) l (toHex leaf)) rec \<and> fresh_ev (data s) rec
             \<and> er_tenant rec = tenant \<and> er_until' rec = er_until req \<and> er_legalHold' rec = hold
             \<and> er_leafIndex rec = length (the_leaves (data s) l)
             \<and> \<not> er_deleted rec \<and> ev_dto H (data s') rec d))) s"
    (is "wp (bindS _ ?rest) ?Q s")
proof (rule wp_seq[OF wp_appendAndAnchor[OF assms(5)]])
  fix ap s2
  assume ap: "appended l leaf s s2 \<and> (\<forall>ap'. Inr ap = Inr ap' \<longrightarrow> append_result H l leaf (data s) ap')"
  have s2: "inv s2" "data s2 = abs_appendLeaf (data s) l (toHex leaf)" using ap by (auto simp: appended_def)
  have r: "append_result H l leaf (data s) ap" using ap by simp
  define rec where "rec t = \<lparr>er_evidenceId = evidenceId, er_contentHash' = h,
             er_hashAlg' = default_to ''sha256'' (er_hashAlg req), er_until' = er_until req,
             er_basis' = er_basis req, er_legalHold' = hold, er_tenant = tenant, er_logId = l,
             er_leafIndex = ap_leafIndex ap, er_links' = er_links req, er_anchoredAt = toISOString t,
             er_deleted = False\<rparr>" for t
  let ?a = "\<lambda>t. abs_putEvidence (abs_appendLeaf (data s) l (toHex leaf)) (rec t)"
  have fresh: "fresh_ev (data s) (rec t)" for t using assms(5-) by (simp add: fresh_ev_def rec_def)
  have idx: "ap_leafIndex ap = length (the_leaves (data s) l)" using r by (simp add: append_result_def)
  have ok: "records_ok H (?a t)" for t
    by (rule records_ok_putEvidence[OF records_ok_append[OF invD(3)[OF assms(5)]]])
      (use fresh idx in \<open>simp_all add: rec_def l_def\<close>)
  have lv: "as_leaves (?a t) = as_leaves (abs_appendLeaf (data s) l (toHex leaf))" for t
    by (simp add: abs_putEvidence_def)
  have lg: "log_of (?a t) l = log_of (abs_appendLeaf (data s) l (toHex leaf)) l" for t
    using the_leaves_cong[OF lv[of t]] by (simp add: log_of_def)
  have gr: "grows (data s) (?a t)" for t by (rule grows_put_evidence[OF fresh])
  show "wp (?rest ap) ?Q s2"
    unfolding wp_bindS[of newDate] wp_newDate sum.case rec_def[symmetric] Let_def wp_bindS[of "storeWrite _"]
  proof (rule wp_put_evidence, goal_cases)
    case (3 st)
    let ?t = "shd (wd_clock (ls_world s2))"
    have w: "valid st" "view st = ?a ?t" using 3 s2 by simp_all
    have i: "inv (s2\<lparr>ls_store := st\<rparr>)" by (rule inv_store[OF s2(1) w(1)]) (use w lv s2 ok in simp_all)
    have dto: "ev_dto H (?a ?t) (rec ?t) \<lparr>ev_evidence_id = evidenceId, ev_contentHash = h,
        ev_anchored = (sth_anchor (ap_sth ap) \<noteq> None), ev_retention = \<lparr>rt_until = er_until req,
        rt_basis = er_basis req, rt_legalHold = hold, rt_deletable = (b \<and> \<not> hold)\<rparr>, ev_sth = ap_sth ap\<rparr>" for b
      using r the_leaves_cong[OF lv[of ?t]] lg[of ?t]
      by (simp add: ev_dto_def rec_def append_result_def currentRootHex_rootAt)
    show ?case
      unfolding sum.case wp_bindS wp_toRetention wp_ret
      using i w gr fresh[of ?t] idx dto
      by (auto simp: ledger_inv_def intro!: exI[of _ "rec ?t"]) (simp_all add: rec_def)
  qed (use s2 fresh in \<open>simp_all add: ledger_inv_def\<close>)
next
  fix x :: fault and s2
  assume "appended l leaf s s2 \<and> (\<forall>ap. Inl x = Inr ap \<longrightarrow> append_result H l leaf (data s) ap)"
  then show "?Q (Inl x) s2" by (auto simp: appended_def)
qed

end

lemma list_all2_in: "list_all2 P xs ys \<Longrightarrow> x \<in> set xs \<Longrightarrow> \<exists>y\<in>set ys. P x y"
  by (induction rule: list_all2_induct) auto

lemma list_all2_from: "list_all2 P xs ys \<Longrightarrow> y \<in> set ys \<Longrightarrow> \<exists>x\<in>set xs. P x y"
  by (induction rule: list_all2_induct) auto

context ledger
begin

lemma wp_registerEvidence:
  fixes req tenant
  defines "h \<equiv> to_lower (er_contentHash req)"
  assumes "inv s" "key_hash h" "as_ev (data s) (''ev:'' @ hex_of (shd (wd_rand (ls_world s)))) = None"
  shows "wp (registerEvidence H S A req tenant) (\<lambda>r s'.
      case Option.bind (as_evKey (data s) (tenant, h)) (as_ev (data s)) of
        Some rec \<Rightarrow> reads s s' \<and> (\<forall>d fl. r = Inr (d, fl) \<longrightarrow> fl \<and> ev_dto H (data s) rec d)
      | None \<Rightarrow> inv s' \<and> grows (data s) (data s')
          \<and> (\<forall>d fl. r = Inr (d, fl) \<longrightarrow> \<not> fl \<and> (\<exists>rec leaf. fresh_ev (data s) rec
               \<and> data s' = abs_putEvidence (abs_appendLeaf (data s) (tenantLogId tenant) (toHex leaf)) rec
               \<and> leaf = evidenceLeaf (ev_evidence_id d) h (er_until req) (er_basis req) (default_to False (er_legalHold req))
               \<and> er_tenant rec = tenant \<and> \<not> er_deleted rec \<and> er_until' rec = er_until req
               \<and> er_legalHold' rec = default_to False (er_legalHold req)
               \<and> er_leafIndex rec = length (the_leaves (data s) (tenantLogId tenant)) \<and> ev_dto H (data s') rec d))) s"
  unfolding registerEvidence_def Let_def wp_bindS[of "storeRead _"] h_def[symmetric]
proof (rule wp_evidence_by_content[OF assms(2,3)], goal_cases)
  case f: (1 found)
  let ?id = "''ev:'' @ hex_of (shd (wd_rand (ls_world s)))"
  let ?s = "s\<lparr>ls_world := (ls_world s)\<lparr>wd_rand := stl (wd_rand (ls_world s))\<rparr>\<rparr>"
  have i: "inv ?s" using assms(2) by (simp add: ledger_inv_def)
  show ?case
  proof (cases found)
    case None
    then have k: "as_evKey (data s) (tenant, h) = None" using f evKey_None[OF invD(3)[OF assms(2)], of tenant h] by simp
    show ?thesis
      unfolding None sum.case option.case wp_bindS[of "randId _"] wp_randId
      by (rule wp_mono[OF wp_register_new[OF i, where evidenceId = ?id and req = req and tenant = tenant, folded h_def, unfolded Let_def]])
        (use f None k assms(3,4) in \<open>auto 0 3\<close>)
  next
    case (Some rec)
    with f show ?thesis
      unfolding sum.case Some option.case
      by (intro wp_seq[OF wp_buildEvidenceDto[OF assms(2)]])
        (auto simp: wp_simps ev_dto_def split: option.splits)
  qed
qed

text \<open>The bundle lists every attestation about the subject, each with a proof that verifies.\<close>

lemma wp_bundle_attestation:
  assumes "inv s"
  shows "wp (bundle_attestation H S A rec) (\<lambda>r s'. reads s s' \<and> (\<forall>v. r = Inr v \<longrightarrow>
      vba_registry_id v = ar_registryId rec \<and> vba_status v = ar_status rec
      \<and> proof_for H (data s) (ar_logId rec) (ar_leafIndex rec) (vba_inclusion_proof v) (vba_sth v))) s"
  unfolding bundle_attestation_def
  by (rule wp_publish_current[OF assms]) (auto simp: wp_simps)

lemma wp_bundle_checkpoint:
  assumes "inv s"
  shows "wp (bundle_checkpoint S l) (\<lambda>r s'. reads s s' \<and> (\<forall>vs. r = Inr vs \<longrightarrow>
      (\<forall>v\<in>set vs. vbc_log_id v = l \<and> (\<exists>c\<in>set (as_ckpts (data s) l).
         sth_root_hash (vbc_sth v) = ck_rootHash c \<and> sth_tree_size (vbc_sth v) = ck_treeSize c)))) s"
proof -
  obtain latest where rd: "latestCheckpoint S (ls_store s) l = Inr latest"
    using reads_succeed(8)[OF invD(1)[OF assms]] by blast
  show ?thesis
    unfolding bundle_checkpoint_def wp_bindS wp_storeRead[where f = "\<lambda>st. latestCheckpoint S st l", OF rd]
    using latest_ckpt[OF invD(1)[OF assms]] rd assms by (cases latest) (auto simp: wp_simps)
qed

lemma reads_loop:
  assumes "inv s" "\<And>x s. x \<in> set xs \<Longrightarrow> inv s \<Longrightarrow> wp (f x) (\<lambda>r s'. reads s s' \<and> (\<forall>y. r = Inr y \<longrightarrow> G (data s) x y)) s"
  shows "wp (mapS f xs) (\<lambda>r s'. reads s s' \<and> (\<forall>ys. r = Inr ys \<longrightarrow> list_all2 (G (data s)) xs ys)) s"
proof (rule wp_mapS)
  fix x s' assume x: "x \<in> set xs" "reads s s'"
  show "wp (f x) (\<lambda>r s''. reads s s'' \<and> (\<forall>y. r = Inr y \<longrightarrow> G (data s) x y)) s'"
    by (rule wp_mono[OF assms(2)[OF x(1) readsD(1)[OF x(2)]]]) (use x readsD(2)[OF x(2)] in \<open>auto intro: reads_trans\<close>)
qed (simp add: assms(1))

definition bundle_ok :: "AbsStore \<Rightarrow> string \<Rightarrow> VerifyBundle \<Rightarrow> bool" where
  "bundle_ok a q b \<longleftrightarrow> vb_subject b = q
     \<and> (\<forall>v\<in>set (vb_attestations b). \<exists>rec. as_att a (vba_registry_id v) = Some rec \<and> about q rec
          \<and> vba_status v = ar_status rec
          \<and> proof_for H a (ar_logId rec) (ar_leafIndex rec) (vba_inclusion_proof v) (vba_sth v))
     \<and> (\<forall>i rec. as_att a i = Some rec \<longrightarrow> about q rec \<longrightarrow> i \<in> vba_registry_id ` set (vb_attestations b))
     \<and> (\<forall>d\<in>set (vb_evidence b). \<exists>rec. as_ev a (ev_evidence_id d) = Some rec \<and> \<not> er_deleted rec \<and> ev_dto H a rec d)"

lemma wp_verifyBundle:
  assumes "inv s"
  shows "wp (verifyBundle H S A q) (\<lambda>r s'. reads s s' \<and> (\<forall>b. r = Inr b \<longrightarrow> bundle_ok (data s) q b)) s"
proof -
  obtain atts where ra: "listAttestationsBySubject S (ls_store s) q = Inr atts"
    using reads_succeed(3)[OF invD(1)[OF assms]] by blast
  obtain evs where re: "listEvidenceBySubject S (ls_store s) q = Inr evs"
    using reads_succeed(7)[OF invD(1)[OF assms]] by blast
  have atts: "set atts = {rec. \<exists>i. as_att (data s) i = Some rec \<and> about q rec}"
    by (rule list_att[OF invD(1)[OF assms] ra])
  have evs: "as_ev (data s) (er_evidenceId e) = Some e \<and> \<not> er_deleted e" if "e \<in> set evs" for e
    by (rule list_ev[OF invD(1)[OF assms] re that])
  let ?GA = "\<lambda>a rec v. vba_registry_id v = ar_registryId rec \<and> vba_status v = ar_status rec
      \<and> proof_for H a (ar_logId rec) (ar_leafIndex rec) (vba_inclusion_proof v) (vba_sth v)"
  have att: "(\<exists>rec'. as_att (data s) (vba_registry_id v) = Some rec' \<and> about q rec'
          \<and> vba_status v = ar_status rec'
          \<and> proof_for H (data s) (ar_logId rec') (ar_leafIndex rec') (vba_inclusion_proof v) (vba_sth v))"
    if "rec \<in> set atts" "?GA (data s) rec v" for rec v
  proof -
    from that(1) obtain i where i: "as_att (data s) i = Some rec" "about q rec" unfolding atts by blast
    show ?thesis
      by (rule exI[of _ "rec"]) (use att_ids[OF invD(3)[OF assms] i(1)] i that(2) in simp)
  qed
  have all: "i \<in> vba_registry_id ` set vs"
    if l2: "list_all2 (?GA (data s)) atts vs" "as_att (data s) i = Some rec" "about q rec" for vs i rec
  proof -
    have "rec \<in> set atts" unfolding atts using that(2,3) by blast
    then obtain v where v: "v \<in> set vs" "vba_registry_id v = ar_registryId rec"
      using list_all2_in[OF l2(1)] by blast
    have "ar_registryId rec = i" using att_ids[OF invD(3)[OF assms] that(2)] by simp
    then have "vba_registry_id v = i" using v(2) by auto
    then show ?thesis using v(1) by blast
  qed
  show ?thesis
    unfolding verifyBundle_def wp_bindS[of "storeRead _"]
      wp_storeRead[where f = "\<lambda>st. listAttestationsBySubject S st q", OF ra]
      wp_storeRead[where f = "\<lambda>st. listEvidenceBySubject S st q", OF re] sum.case
  proof (rule wp_seq[OF reads_loop[OF assms wp_bundle_attestation]], goal_cases)
    case v: (3 vs s2)
    show ?case
    proof (rule wp_seq[OF reads_loop[OF _ wp_bundle_checkpoint]], goal_cases)
      case c: (4 cs s3)
      show ?case
      proof (rule wp_seq[OF reads_loop[OF _ wp_buildEvidenceDto]], goal_cases)
        case e: (4 es s4)
        have s4: "reads s s4" "data s2 = data s" "data s3 = data s"
          using e v c by (simp_all add: reads_def)
        have "bundle_ok (data s) q \<lparr>vb_subject = q, vb_generated_at = u, vb_attestations = vs,
            vb_checkpoints = concat cs, vb_evidence = es\<rparr>" for u
          unfolding bundle_ok_def
        proof (intro conjI ballI allI impI, goal_cases)
          case (2 w)
          then show ?case using att list_all2_from[of "?GA (data s)" atts vs w] v by auto
        next
          case (3 i rec)
          then show ?case using all[of vs i rec] v by simp
        next
          case (4 d)
          then obtain x where x: "x \<in> set evs" "ev_dto H (data s) x d"
            using list_all2_from[of "ev_dto H (data s)" evs es d] e s4 by auto
          then show ?case
            by (intro exI[of _ "x"]) (use evs[OF x(1)] x in \<open>simp add: ev_dto_def\<close>)
        qed simp
        then show ?case using reads_trans[OF s4(1) clock_reads[OF readsD(1)[OF s4(1)]]]
          by (simp add: wp_simps Let_def)
      qed (use v c in \<open>auto intro: reads_trans dest: readsD\<close>)
    qed (use v in \<open>auto intro: reads_trans dest: readsD\<close>)
  qed auto
qed

end

end
