(* ===== verification/LedgerSafety.thy ===== *)
theory LedgerSafety
  imports LedgerEvidence AurumVerifier
begin

text \<open>
  The ledger as a state machine: one step is one call of a public method of \<open>LedgerService\<close> (or a
  restart of the process, which loses the cached logs), with any arguments.  What holds in every
  reachable state, for the in-memory store and \<open>anchorSTH\<close>.
\<close>

subsection \<open>Steps\<close>

text \<open>The two guards: the random identifier of a new record is not in use, and the content hash has
  passed the route's check, so it is a text of hexadecimal digits.\<close>

definition HASH_RE :: "string \<Rightarrow> bool" where
  "HASH_RE h = hex_re 64 h"

inductive ledger_step ::
  "(bytes \<Rightarrow> bytes) \<Rightarrow> 's Store \<Rightarrow> anchor_op \<Rightarrow> 's LedgerState \<Rightarrow> 's LedgerState \<Rightarrow> bool"
  for H S A where
  anchor: "HASH_RE (rq_contentHash req) \<Longrightarrow>
      getAttestationById S (ls_store s) (''reg:att:'' @ hex_of (shd (wd_rand (ls_world s)))) = Inr None \<Longrightarrow>
      anchorAttestation H S A req tenant s = (ra, s') \<Longrightarrow> ledger_step H S A s s'"
| get: "getAttestation H S A i s = (ra', s') \<Longrightarrow> ledger_step H S A s s'"
| inclusion: "getInclusion H S A i n s = (ri, s') \<Longrightarrow> ledger_step H S A s s'"
| status: "getStatusRecord H S A i s = (rs, s') \<Longrightarrow> ledger_step H S A s s'"
| set_status: "setStatus H S A i action reason by' t s = (rs, s') \<Longrightarrow> ledger_step H S A s s'"
| checkpoint: "submitCheckpoint S A l m root s = (rc, s') \<Longrightarrow> ledger_step H S A s s'"
| consistency: "getConsistency H S A l m m' s = (rk, s') \<Longrightarrow> ledger_step H S A s s'"
| register: "HASH_RE (er_contentHash ereq) \<Longrightarrow>
      getEvidenceById S (ls_store s) (''ev:'' @ hex_of (shd (wd_rand (ls_world s)))) = Inr None \<Longrightarrow>
      registerEvidence H S A ereq tenant s = (re, s') \<Longrightarrow> ledger_step H S A s s'"
| evidence: "getEvidence H S A i s = (re', s') \<Longrightarrow> ledger_step H S A s s'"
| retention: "updateRetention H S A i hold ext t s = (re', s') \<Longrightarrow> ledger_step H S A s s'"
| delete: "deleteEvidence H S A i t s = (ru, s') \<Longrightarrow> ledger_step H S A s s'"
| verify_bundle: "verifyBundle H S A q s = (rb, s') \<Longrightarrow> ledger_step H S A s s'"
| restart: "ledger_step H S A s (newLedgerService (ls_store s) (ls_world s))"

inductive_cases ledger_stepE: "ledger_step H S A s s'"

abbreviation ledger_steps :: "(bytes \<Rightarrow> bytes) \<Rightarrow> 's Store \<Rightarrow> anchor_op \<Rightarrow> 's LedgerState \<Rightarrow> 's LedgerState \<Rightarrow> bool" where
  "ledger_steps H S A \<equiv> (ledger_step H S A)\<^sup>*\<^sup>*"

text \<open>A valid hash is a key.\<close>

lemma lower_char_bar: "lower_char c = CHR ''|'' \<Longrightarrow> c = CHR ''|''"
proof (rule ccontr)
  assume a: "lower_char c = CHR ''|''" "c \<noteq> CHR ''|''"
  define n where "n = (of_char c :: nat)"
  have b: "65 \<le> n" "n \<le> 90" "char_of (n + 32) = CHR ''|''"
    using a by (auto simp: lower_char_def Let_def n_def split: if_splits)
  have "(n + 32) mod 256 = (of_char (char_of (n + 32) :: char) :: nat)" by simp
  also have "\<dots> = 124" unfolding b(3) by simp
  finally show False using b(1,2) by simp
qed

lemma HASH_RE_key: "HASH_RE h \<Longrightarrow> key_hash (to_lower h)"
proof -
  assume h: "HASH_RE h"
  then have "take 2 h = ''0x''" and hx: "list_all (\<lambda>c. hex_val c \<noteq> None) (drop 2 h)"
    by (auto simp: HASH_RE_def hex_re_def starts_with_def numeral_2_eq_2)
  then obtain ds where ds: "h = ''0x'' @ ds" "list_all (\<lambda>c. hex_val c \<noteq> None) ds"
    using append_take_drop_id[of 2 h] by metis
  have "hex_val CHR ''|'' = None" by code_simp
  with ds(2) have "CHR ''|'' \<notin> set ds" by (auto simp: list_all_iff)
  then have "CHR ''|'' \<notin> set h" using ds(1) by simp
  then have "CHR ''|'' \<notin> set (to_lower h)" by (simp add: to_lower_def image_iff) (metis lower_char_bar)
  then show ?thesis by (simp add: key_hash_def)
qed

context ledger
begin

lemma reads_grows: "reads s s' \<Longrightarrow> inv s' \<and> grows (data s) (data s')"
  by (simp add: reads_def)

lemma step_inv:
  assumes "ledger_step H S A s s'" "inv s"
  shows "inv s' \<and> grows (data s) (data s')"
  using assms(1)
proof cases
  case (anchor req tenant ra)
  have "as_att (data s) (''reg:att:'' @ hex_of (shd (wd_rand (ls_world s)))) = None"
    using get_att[OF invD(1)[OF assms(2)] anchor(2)] by simp
  from wpD[OF wp_anchorAttestation[OF assms(2) HASH_RE_key[OF anchor(1)] this] anchor(3)]
  show ?thesis by (auto split: option.splits dest: reads_grows)
next
  case (get i ra)
  with wpD[OF wp_getAttestation[OF assms(2)]] show ?thesis by (blast dest: reads_grows)
next
  case (inclusion i n r)
  with wpD[OF wp_getInclusion[OF assms(2)]] show ?thesis by (blast dest: reads_grows)
next
  case (status i r)
  with wpD[OF wp_getStatusRecord[OF assms(2)]] show ?thesis by (blast dest: reads_grows)
next
  case (set_status i action reason by' t r)
  from wpD[OF wp_setStatus[OF assms(2)] set_status] assms(2) show ?thesis
    by (auto split: option.splits if_splits)
next
  case (checkpoint l m root r)
  with wpD[OF wp_submitCheckpoint[OF assms(2)]] show ?thesis by blast
next
  case (consistency l m m' r)
  with wpD[OF wp_getConsistency[OF assms(2)]] show ?thesis by (blast dest: reads_grows)
next
  case (register req tenant r)
  have "as_ev (data s) (''ev:'' @ hex_of (shd (wd_rand (ls_world s)))) = None"
    using get_ev[OF invD(1)[OF assms(2)] register(2)] by simp
  from wpD[OF wp_registerEvidence[OF assms(2) HASH_RE_key[OF register(1)] this] register(3)]
  show ?thesis by (auto split: option.splits dest: reads_grows)
next
  case (evidence i r)
  with wpD[OF wp_getEvidence[OF assms(2)]] show ?thesis by (blast dest: reads_grows)
next
  case (retention i hold ext t r)
  with wpD[OF wp_updateRetention[OF assms(2)]] show ?thesis by blast
next
  case (delete i t r)
  with wpD[OF wp_deleteEvidence[OF assms(2)]] show ?thesis by blast
next
  case (verify_bundle q r)
  with wpD[OF wp_verifyBundle[OF assms(2)]] show ?thesis by (blast dest: reads_grows)
next
  case restart
  then show ?thesis using assms(2) by (simp add: newLedgerService_def ledger_inv_def logs_ok_def)
qed

lemma steps_inv:
  assumes "ledger_steps H S A s s'" "inv s"
  shows "inv s' \<and> grows (data s) (data s')"
  using assms
proof (induction rule: rtranclp_induct)
  case (step y z)
  with step_inv[of y z] show ?case by (auto intro: grows_trans)
qed simp

end

subsection \<open>The ledger on the in-memory store\<close>

interpretation mled: ledger memory_store mem_abs mem_ok "anchorSTH cy sv" H for cy sv H
  by intro_locales

abbreviation mem_inv :: "(bytes \<Rightarrow> bytes) \<Rightarrow> MemoryStore LedgerState \<Rightarrow> bool" where
  "mem_inv H \<equiv> ledger_inv H mem_abs mem_ok"

lemma mem_abs_new: "as_leaves (mem_abs newMemoryStore) l = []" "as_att (mem_abs newMemoryStore) i = None"
  "as_attKey (mem_abs newMemoryStore) k = None" "as_status (mem_abs newMemoryStore) i = []"
  "as_ev (mem_abs newMemoryStore) i = None" "as_evKey (mem_abs newMemoryStore) k = None"
  by (simp_all add: mem_abs_def newMemoryStore_def table_get_def table_keys_def jsmap_list_def split: prod.splits)

lemma init_inv: "mem_inv H (newLedgerService newMemoryStore w)"
  by (simp add: ledger_inv_def newLedgerService_def newMemoryStore_ok logs_ok_def records_ok_def mem_abs_new
      hex_leaves_def the_leaves_def)

definition reachable :: "(bytes \<Rightarrow> bytes) \<Rightarrow> Crypto \<Rightarrow> AnchorService \<Rightarrow> MemoryStore LedgerState \<Rightarrow> bool" where
  "reachable H cy sv s \<longleftrightarrow> (\<exists>w. ledger_steps H memory_store (anchorSTH cy sv) (newLedgerService newMemoryStore w) s)"

lemma reachable_inv: "reachable H cy sv s \<Longrightarrow> mem_inv H s"
  using mled.steps_inv[OF _ init_inv] by (auto simp: reachable_def)

lemma reachable_step: "reachable H cy sv s \<Longrightarrow> ledger_steps H memory_store (anchorSTH cy sv) s s' \<Longrightarrow> reachable H cy sv s'"
  unfolding reachable_def by (meson rtranclp_trans)

subsection \<open>Reading the in-memory store\<close>

lemma mem_att_view:
  "mem_inv H s \<Longrightarrow> mem_getAttestationById (ls_store s) i = Inr r \<Longrightarrow> as_att (mem_abs (ls_store s)) i = r"
  using mem.get_att[of "ls_store s" i r] by (simp add: ledger_inv_def memory_store_def)

lemma mem_ev_view:
  "mem_inv H s \<Longrightarrow> mem_getEvidenceById (ls_store s) i = Inr r \<Longrightarrow> as_ev (mem_abs (ls_store s)) i = r"
  using mem.get_ev[of "ls_store s" i r] by (simp add: ledger_inv_def memory_store_def)

lemma inv_att_leaf:
  assumes "mem_inv H s" "as_att (mem_abs (ls_store s)) i = Some rec"
  shows "att_ok H (mem_abs (ls_store s)) i rec"
    and "leafHashHex H (log_of (mem_abs (ls_store s)) (ar_logId rec)) (int (ar_leafIndex rec)) = Inr (ar_leafHash rec)"
    and "leaf_at H (mem_abs (ls_store s)) (ar_logId rec) (ar_leafIndex rec) (ar_leafHash rec)"
proof -
  show ok: "att_ok H (mem_abs (ls_store s)) i rec" using assms by (simp add: ledger_inv_def records_ok_def)
  then show lf: "leaf_at H (mem_abs (ls_store s)) (ar_logId rec) (ar_leafIndex rec) (ar_leafHash rec)"
    unfolding att_ok_def by blast
  then show "leafHashHex H (log_of (mem_abs (ls_store s)) (ar_logId rec)) (int (ar_leafIndex rec)) = Inr (ar_leafHash rec)"
    by (auto simp: leaf_at_def leafHashHex_def)
qed

lemma mem_total:
  "\<exists>r. mem_getAttestationById st i = Inr r" "\<exists>r. mem_getEvidenceById st i = Inr r"
  by (simp_all add: mem_getAttestationById_def mem_getEvidenceById_def)

lemma mem_leaves_view: "mem_getLeaves st l = Inr (as_leaves (mem_abs st) l)"
  by (simp add: mem_getLeaves_def mem_abs_def)

end
