(* ===== verification/LedgerLive.thy ===== *)
theory LedgerLive
  imports LedgerSafety
begin

text \<open>
  Progress: a service that publishes heads without anchoring them (no keys configured) answers.  The
  locale \<open>live_ledger\<close> adds to \<open>ledger\<close> that anchoring does not fail; it is interpreted on the service
  a configuration without keys gives.  The theory also holds the history the properties are tried on.
\<close>

text \<open>A service whose anchoring never fails on a 32-byte root, and a hash of 32 bytes.\<close>

locale live_ledger = ledger +
  assumes digest: "digest32 H"
    and live: "length root = 32 \<Longrightarrow> \<exists>sth w'. A l (toHex root) n w = (Inr sth, w')"
begin

lemma rootAtHex_live:
  assumes "0 \<le> n" "n \<le> int (treeSize t)" "n \<le> 2 ^ 30"
  shows "\<exists>root. rootAtHex H t n = Inr (toHex root) \<and> length root = 32"
  using assms digest by (simp add: log_method_eqs treeSize_def digest32_MTH)

lemma wp_anchor_live:
  assumes "inv s" "length root = 32" "\<And>sth s'. reads s s' \<Longrightarrow> sth_log_id sth = l \<Longrightarrow> sth_tree_size sth = n \<Longrightarrow>
      sth_root_hash sth = toHex root \<Longrightarrow> P (Inr sth) s'"
  shows "wp (inWorld (A l (toHex root) n)) P s"
proof -
  obtain sth w' where e: "A l (toHex root) n (ls_world s) = (Inr sth, w')" using live[OF assms(2)] by blast
  with wpD[OF wp_anchor_reads[OF assms(1), of l "toHex root" n]] assms(3) show ?thesis
    by (simp add: wp_def inWorld_def)
qed

lemma currentRootHex_live:
  assumes "length (the_leaves a l) \<le> 2 ^ 30"
  obtains root where "currentRootHex H (log_of a l) = Inr (toHex root)" "length root = 32"
  using assms digest by (auto simp: currentRootHex_eq digest32_MTH)

lemma live_append:
  assumes "inv s" "length (the_leaves (data s) l) < 2 ^ 30"
  shows "wp (appendAndAnchor H S A l leaf) (\<lambda>r s'. appended l leaf s s'
    \<and> (\<exists>ap. r = Inr ap \<and> append_result H l leaf (data s) ap)) s"
proof -
  let ?a' = "abs_appendLeaf (data s) l (toHex leaf)" and ?n = "length (the_leaves (data s) l)"
  have lg: "tl_append (log_of (data s) l) leaf = (log_of ?a' l, ?n)"
    by (simp add: tl_append_def log_of_def newTransparencyLog_def Let_def)
  obtain n st where st: "appendLeaf S (ls_store s) l (toHex leaf) = Inr (n, st)" "valid st" "view st = ?a'"
    using writes_succeed(7)[of "ls_store s" l "toHex leaf"] append_leaf[of "ls_store s" l "toHex leaf"] invD(1)[OF assms(1)]
    by blast
  have h: "leafHashHex H (log_of ?a' l) (int ?n) = Inr (toHex (hashLeaf H leaf))"
    by (simp add: leafHashHex_def)
  obtain root where root: "currentRootHex H (log_of ?a' l) = Inr (toHex root)" "length root = 32"
    using currentRootHex_live[of ?a' l] assms(2) by auto
  obtain sth w' where e: "A l (toHex root) (int (Suc ?n)) (ls_world s) = (Inr sth, w')" using live[OF root(2)] by blast
  have W: "wp (inWorld (A l (toHex root) (int (Suc ?n)))) P (cached view l s\<lparr>ls_logs := f, ls_store := st\<rparr>)
      = P (Inr sth) (cached view l s\<lparr>ls_logs := f, ls_store := st, ls_world := w'\<rparr>)" for P f
    using e by (simp add: wp_def inWorld_def)
  have "wp (appendAndAnchor H S A l leaf) (\<lambda>r s'. \<exists>ap. r = Inr ap) s"
    unfolding appendAndAnchor_def
    by (simp add: wp_bindS[of "getLog _ _"] wp_getLog[OF assms(1)] lg wp_bindS[of "setLog _ _"] wp_setLog
        wp_bindS[of "storeAppendLeaf _ _ _"] wp_storeAppendLeaf[of S _ _ _ n st] st h root
        wp_bindS[of "inWorld _"] W wp_ret wp_Pair del: of_nat_Suc)
  from wp_conj[OF wp_appendAndAnchor[OF assms(1)] this] show ?thesis
    by (rule wp_mono) auto
qed

lemma live_publish_current:
  assumes "inv s" "i < length (the_leaves (data s) l)" "length (the_leaves (data s) l) \<le> 2 ^ 30"
    and "\<And>pf sth s'. reads s s' \<Longrightarrow> proof_for H (data s) l i pf sth \<Longrightarrow> wp (F pf sth) P s'"
  shows "wp (bindS (getLog S l) (\<lambda>lg.
     bindS (liftJ (inclusionProof H lg (int i) (int (treeSize lg)))) (\<lambda>pf.
     bindS (liftJ (currentRootHex H lg)) (\<lambda>root.
     bindS (inWorld (A l root (int (treeSize lg)))) (\<lambda>sth. F pf sth))))) P s"
proof -
  let ?t = "log_of (data s) l" and ?n = "length (the_leaves (data s) l)"
  obtain root where root: "currentRootHex H ?t = Inr (toHex root)" "length root = 32"
    using currentRootHex_live[OF assms(3)] .
  obtain pf where pf: "inclusionProof H ?t (int i) (int ?n) = Inr pf"
    using assms(2,3) by (simp add: inclusionProof_eq)
  have "wp (bindS (inWorld (A l (toHex root) (int ?n))) (\<lambda>sth. F pf sth)) P (cached view l s)"
    unfolding wp_bindS
    by (rule wp_anchor_live[OF cached_inv[OF assms(1)] root(2)])
      (use assms(1,4) pf root reads_trans[OF cached_reads[OF assms(1)]] in \<open>auto simp: proof_for_def currentRootHex_rootAt\<close>)
  then show ?thesis
    by (simp add: wp_bindS[of "getLog _ _"] wp_getLog[OF assms(1)] pf root)
qed

lemma live_buildAttestationDto:
  assumes "inv s" "as_att (data s) i = Some rec" "length (the_leaves (data s) (ar_logId rec)) \<le> 2 ^ 30"
  shows "wp (buildAttestationDto H S A rec) (\<lambda>r s'. \<exists>d. r = Inr d) s"
proof -
  have "ar_leafIndex rec < length (the_leaves (data s) (ar_logId rec))"
    using invD(3)[OF assms(1)] assms(2) by (fastforce simp: records_ok_def att_ok_def leaf_at_def)
  then show ?thesis
    unfolding buildAttestationDto_def
    by (rule live_publish_current[OF assms(1) _ assms(3)]) (simp add: wp_ret wp_Pair)
qed

lemma live_getAttestation:
  assumes "inv s" "as_att (data s) i = Some rec" "length (the_leaves (data s) (ar_logId rec)) \<le> 2 ^ 30"
  shows "wp (getAttestation H S A i) (\<lambda>r s'. \<exists>d. r = Inr d) s"
  unfolding getAttestation_def wp_bindS
  by (rule wp_attestation_or_404[OF assms(1)])
    (use live_buildAttestationDto[OF assms(1)] assms(2,3) in auto)

lemma live_leaf_proof:
  assumes "valid (ls_store s)" "logs_ok (data s) (ls_logs s)"
    and "ap_leafIndex ap < length (the_leaves (data s) l)" "length (the_leaves (data s) l) \<le> 2 ^ 30"
  shows "wp (bindS (getLog S l) (\<lambda>lg. bindS (liftJ (inclusionProof H lg (int (ap_leafIndex ap)) (int (treeSize lg))))
     (\<lambda>pf. ret (F pf)))) (\<lambda>r s'. \<exists>x. r = Inr x) s"
  using assms(3,4)
  by (simp add: wp_bindS[of "getLog _ _"] wp_def[of "getLog _ _"] getLog_logs_ok[OF assms(1,2)] inclusionProof_eq wp_ret wp_Pair)

lemma content_record:
  assumes "records_ok H a" "Option.bind (as_attKey a (t, h)) (as_att a) = Some r"
  shows "as_att a (ar_registryId r) = Some r \<and> ar_logId r = tenantLogId t"
proof -
  obtain i where i: "as_attKey a (t, h) = Some i" "as_att a i = Some r"
    using assms(2) by (auto split: bind_splits)
  then have "ar_tenant r = t" using assms(1) by (force simp: records_ok_def)
  with att_ids[OF assms(1) i(2)] i(2) show ?thesis by simp
qed

lemma live_anchorAttestation:
  fixes req tenant
  defines "h \<equiv> to_lower (rq_contentHash req)" and "l \<equiv> tenantLogId tenant"
  assumes "inv s" "key_hash h" "as_att (data s) (''reg:att:'' @ hex_of (shd (wd_rand (ls_world s)))) = None"
    and "length (the_leaves (data s) l) < 2 ^ 30"
  shows "wp (anchorAttestation H S A req tenant) (\<lambda>r s'. \<exists>d. r = Inr d) s"
  unfolding anchorAttestation_def Let_def wp_bindS[of "storeRead _"] h_def[symmetric] l_def[symmetric]
proof (rule wp_attestation_by_content[OF assms(3,4)], goal_cases)
  case f: (1 found)
  let ?id = "''reg:att:'' @ hex_of (shd (wd_rand (ls_world s)))"
  let ?s = "s\<lparr>ls_world := (ls_world s)\<lparr>wd_rand := stl (wd_rand (ls_world s))\<rparr>\<rparr>"
  have i: "inv ?s" using assms(3) by (simp add: ledger_inv_def)
  show ?case
  proof (cases found)
    case (Some rec)
    have k: "as_att (data s) (ar_registryId rec) = Some rec" "ar_logId rec = l"
      using content_record[OF invD(3)[OF assms(3)], of tenant h "rec"] f Some by (simp_all add: l_def)
    have "wp (bindS (buildAttestationDto H S A rec) (\<lambda>dto. ret (dto, True))) (\<lambda>r s'. \<exists>d. r = Inr d) s"
      by (rule wp_seq[OF live_buildAttestationDto[OF assms(3) k(1)]]) (use assms(6) k(2) in \<open>auto simp: wp_simps\<close>)
    then show ?thesis unfolding sum.case Some option.case .
  next
    case None
    then have n: "as_attKey (data s) (tenant, h) = None" using f attKey_None[OF invD(3)[OF assms(3)], of tenant h] by simp
    show ?thesis
      unfolding None sum.case option.case wp_bindS[of "randId _"] wp_randId
    proof (rule wp_seq[OF live_append], goal_cases)
      case (4 ap s2)
      let ?leaf = "attestationLeaf ?id h (rq_subject req) (rq_issuer req) (rq_recordType req)"
      have s2: "inv s2" "data s2 = abs_appendLeaf (data s) l (toHex ?leaf)" using 4 by (auto simp: appended_def)
      have ix: "ap_leafIndex ap = length (the_leaves (data s) l)" using 4 by (auto simp: append_result_def)
      show ?case
        unfolding wp_bindS[of newDate] wp_newDate sum.case wp_bindS[of "storeWrite _"]
      proof (rule wp_put_attestation, goal_cases)
        case st: (3 st)
        show ?case
          unfolding sum.case
        proof (rule wp_append_status, goal_cases)
          case (3 st')
          then have lv: "as_leaves (view st') = as_leaves (data s2)"
            using st(2) by (simp add: abs_appendStatus_def abs_putAttestation_def)
          show ?case
            unfolding sum.case
            by (rule live_leaf_proof)
              (use 3 logs_ok_cong[OF lv invD(2)[OF s2(1)]] the_leaves_cong[OF lv] s2(2) ix assms(6) in simp_all)
        qed (use st in \<open>simp_all add: abs_putAttestation_def\<close>)
      qed (use s2 n assms(4,5) in \<open>simp_all add: ledger_inv_def fresh_att_def\<close>)
    qed (use i assms(6) in auto)
  qed
qed

end

subsection \<open>The ledger without anchoring\<close>

definition keyless :: "AnchorService \<Rightarrow> bool" where
  "keyless sv \<longleftrightarrow> sv_pqKeypair sv = None"

lemma keyless_anchor:
  "keyless sv \<Longrightarrow> length root = 32 \<Longrightarrow> anchorSTH cy sv l (toHex root) n w
     = (Inr (local_sth l (toHex root) n (shd (wd_clock w))), w\<lparr>wd_clock := stl (wd_clock w)\<rparr>)"
  by (simp add: keyless_def anchorSTH_def bindS_apply now_def Let_def writesEnabled_def local_sth_def)

lemma keyless_live: "digest32 H \<Longrightarrow> keyless sv \<Longrightarrow> live_ledger memory_store mem_abs mem_ok (anchorSTH cy sv) H"
  by (intro live_ledger.intro live_ledger_axioms.intro mled.ledger_axioms) (simp_all add: keyless_anchor)

text \<open>Any hash cut or padded to 32 bytes, and the service built from a configuration without keys.\<close>

definition digest_of :: "(bytes \<Rightarrow> bytes) \<Rightarrow> bytes \<Rightarrow> bytes" where
  "digest_of H x = take 32 (H x @ replicate 32 0)"

definition unconfigured :: "Config \<Rightarrow> AnchorService" where
  "unconfigured cf = \<lparr>sv_config = cf, sv_account = None, sv_pqKeypair = None, sv_pqKeyHashHex = ''0x'' @ replicate 64 CHR ''0''\<rparr>"

interpretation dev: live_ledger memory_store mem_abs mem_ok "anchorSTH cy (unconfigured cf)" "digest_of H" for cy cf H
  by (rule keyless_live) (auto simp: digest32_def digest_of_def keyless_def unconfigured_def min_def)

lemma unconfigured_service:
  "cf_anchorEcdsaKey cf = None \<Longrightarrow> cf_pqMldsaSeed cf = None \<Longrightarrow> newAnchorService cy cf = Inr (unconfigured cf)"
  by (simp add: newAnchorService_def unconfigured_def isRealPrivateKey_def isRealSeed_def)

subsection \<open>A history to try the theorems on\<close>

definition dev_service :: AnchorService where
  "dev_service = unconfigured toy_config"

abbreviation dev_anchor :: anchor_op where "dev_anchor \<equiv> anchorSTH toy_crypto dev_service"

lemma dev_keyless [simp]: "keyless dev_service"
  by (simp add: keyless_def dev_service_def unconfigured_def)

definition dev_req :: AttestationRequest where
  "dev_req = \<lparr>rq_subject = ''did:hara:x'', rq_issuer = ''did:hara:tenant:a'', rq_recordType = ''assay'',
     rq_contentHash = ''0x'' @ replicate 64 CHR ''a'', rq_hashAlg = None, rq_issuedAt = None, rq_vcProof = None, rq_links = None\<rparr>"

definition dev_init :: "MemoryStore LedgerState" where
  "dev_init = newLedgerService newMemoryStore toy_world"


lemma dev_reachable: "reachable H cy sv dev_init"
  by (auto simp: reachable_def dev_init_def)

text \<open>The first request of the history succeeds.\<close>

lemma dev_first:
  obtains d s where "anchorAttestation pad32 memory_store dev_anchor dev_req ''did:hara:tenant:a'' dev_init = (Inr (d, False), s)"
    "reachable pad32 toy_crypto dev_service s" "mem_inv pad32 s" "as_leaves (mem_abs (ls_store s)) ''tenant:a'' \<noteq> []"
    "\<exists>rec. as_att (mem_abs (ls_store s)) (at_registry_id d) = Some rec \<and> ar_tenant rec = ''did:hara:tenant:a''
       \<and> ar_logId rec = ''tenant:a'' \<and> ar_contentHash rec = to_lower (rq_contentHash dev_req) \<and> ar_status rec = Active"
    "as_attKey (mem_abs (ls_store s)) (''did:hara:tenant:a'', to_lower (rq_contentHash dev_req)) = Some (at_registry_id d)"
    "length (the_leaves (mem_abs (ls_store s)) ''tenant:a'') = 1"
    "as_ev (mem_abs (ls_store s)) = Map.empty" "as_evKey (mem_abs (ls_store s)) = Map.empty"
proof -
  let ?A = "dev_anchor" and ?t = "''did:hara:tenant:a''"
  have inv: "mem_inv pad32 dev_init" by (simp add: dev_init_def init_inv)
  have hash: "HASH_RE (rq_contentHash dev_req)" unfolding dev_req_def by code_simp
  have new: "as_att (mem_abs (ls_store dev_init)) i = None" "as_attKey (mem_abs (ls_store dev_init)) k = None"
    "as_leaves (mem_abs (ls_store dev_init)) l = []" for i k l
    by (simp_all add: dev_init_def newLedgerService_def mem_abs_new)
  have newE: "as_ev (mem_abs (ls_store dev_init)) = Map.empty" "as_evKey (mem_abs (ls_store dev_init)) = Map.empty"
    by (rule ext, simp add: dev_init_def newLedgerService_def mem_abs_new)+
  have tl: "tenantLogId ?t = ''tenant:a''" by code_simp
  have "wp (anchorAttestation pad32 memory_store ?A dev_req ?t) (\<lambda>r s'. \<exists>d. r = Inr d) dev_init"
    by (rule live_ledger.live_anchorAttestation[OF keyless_live])
      (use inv HASH_RE_key[OF hash] new in \<open>simp_all add: the_leaves_def\<close>)
  then obtain d fl s where r: "anchorAttestation pad32 memory_store ?A dev_req ?t dev_init = (Inr (d, fl), s)"
    by (auto simp: wp_def split: prod.splits)
  from wpD[OF mled.wp_anchorAttestation[OF inv HASH_RE_key[OF hash] new(1)] r]
  have an: "mem_inv pad32 s" "fl = False" "mled.anchored pad32 ?t dev_req (mem_abs (ls_store dev_init)) (mem_abs (ls_store s)) d"
    by (simp_all add: new)
  have "ledger_step pad32 memory_store ?A dev_init s"
    by (rule ledger_step.anchor[OF hash _ r[unfolded an(2)]])
      (simp add: memory_store_def mem_getAttestationById_def dev_init_def newLedgerService_def newMemoryStore_def)
  then have "reachable pad32 toy_crypto dev_service s"
    using dev_reachable reachable_step by blast
  moreover obtain rec e leaf where d: "mem_abs (ls_store s) = abs_appendStatus (abs_putAttestation
      (abs_appendLeaf (mem_abs (ls_store dev_init)) ''tenant:a'' (toHex leaf)) rec) e"
    "at_registry_id d = ar_registryId rec" "ar_tenant rec = ?t" "ar_contentHash rec = to_lower (rq_contentHash dev_req)"
    "ar_logId rec = ''tenant:a''" "ar_status rec = Active"
    using an(3) unfolding mled.anchored_def Let_def tl by (auto simp: mled.att_dto_def)
  moreover have "length (the_leaves (mem_abs (ls_store s)) ''tenant:a'') = 1"
    unfolding d(1) by (simp add: abs_appendStatus_def abs_putAttestation_def abs_appendLeaf_def the_leaves_def new)
  ultimately show thesis
    using r an(1,2) newE by (intro that[of d s]) (simp_all add: abs_appendStatus_def abs_putAttestation_def abs_appendLeaf_def)
qed

text \<open>The attestation and the state after it.\<close>

definition dev_att :: Attestation where
  "dev_att = fst (projr (fst (anchorAttestation pad32 memory_store dev_anchor dev_req ''did:hara:tenant:a'' dev_init)))"

definition dev_one :: "MemoryStore LedgerState" where
  "dev_one = snd (anchorAttestation pad32 memory_store dev_anchor dev_req ''did:hara:tenant:a'' dev_init)"

lemma dev_one:
  "anchorAttestation pad32 memory_store dev_anchor dev_req ''did:hara:tenant:a'' dev_init = (Inr (dev_att, False), dev_one)"
  "reachable pad32 toy_crypto dev_service dev_one" "mem_inv pad32 dev_one"
  "as_leaves (mem_abs (ls_store dev_one)) ''tenant:a'' \<noteq> []"
  "\<exists>rec. as_att (mem_abs (ls_store dev_one)) (at_registry_id dev_att) = Some rec \<and> ar_tenant rec = ''did:hara:tenant:a''
     \<and> ar_logId rec = ''tenant:a'' \<and> ar_contentHash rec = to_lower (rq_contentHash dev_req) \<and> ar_status rec = Active"
  "as_attKey (mem_abs (ls_store dev_one)) (''did:hara:tenant:a'', to_lower (rq_contentHash dev_req)) = Some (at_registry_id dev_att)"
  "length (the_leaves (mem_abs (ls_store dev_one)) ''tenant:a'') = 1"
  "as_ev (mem_abs (ls_store dev_one)) = Map.empty" "as_evKey (mem_abs (ls_store dev_one)) = Map.empty"
  by (rule dev_first; simp add: dev_att_def dev_one_def)+

end
