(* ===== verification/LedgerClaims.thy ===== *)
theory LedgerClaims
  imports LedgerLive
begin

text \<open>
  The properties of the Registry Ledger on the in-memory store: what holds in every reachable state,
  what each call answers there, and where the code does not do what it means to.
\<close>

text \<open>C8: The ledger keeps its records and its logs together.  In every state the service can reach from
  an empty in-memory store, whatever calls and restarts came before and whatever the chain answered,
  an attestation on record is found under its own identifier, its log is the log of its tenant, the
  tree of that log has at the recorded index a leaf with the recorded leaf hash, and the last entry
  of its status history is its status.\<close>

theorem ledger_records_in_log:
  assumes "reachable H cy sv s" "mem_getAttestationById (ls_store s) i = Inr (Some rec)"
  shows "ar_registryId rec = i \<and> ar_logId rec = tenantLogId (ar_tenant rec)
    \<and> (\<exists>lg s'. getLog memory_store (ar_logId rec) s = (Inr lg, s')
          \<and> leafHashHex H lg (int (ar_leafIndex rec)) = Inr (ar_leafHash rec))
    \<and> (\<exists>e. mem_getLatestStatus (ls_store s) i = Inr (Some e) \<and> se_status e = ar_status rec
          \<and> se_registryId e = i)"
proof -
  have inv: "mem_inv H s" by (rule reachable_inv[OF assms(1)])
  have v: "as_att (mem_abs (ls_store s)) i = Some rec" using mem_att_view[OF inv assms(2)] by simp
  note ok = inv_att_leaf(1)[OF inv v]
  have "leafHashHex H (log_of (mem_abs (ls_store s)) (ar_logId rec)) (int (ar_leafIndex rec)) = Inr (ar_leafHash rec)"
    using inv_att_leaf(2)[OF inv v] by simp
  moreover have "getLog memory_store (ar_logId rec) s = (Inr (log_of (mem_abs (ls_store s)) (ar_logId rec)), cached mem_abs (ar_logId rec) s)"
    by (rule mled.getLog_eq[OF inv])
  moreover obtain r where r: "mem_getLatestStatus (ls_store s) i = Inr r"
    by (simp add: mem_getLatestStatus_def)
  moreover have "r = Some (last (as_status (mem_abs (ls_store s)) i))"
    using mem.latest_status[of "ls_store s" i r] r inv ok
    by (simp add: memory_store_def ledger_inv_def att_ok_def status_ok_def last_opt_def)
  ultimately show ?thesis using ok by (auto simp: att_ok_def status_ok_def)
qed

theorem ledger_records_in_log_witness:
  "\<exists>i rec lg s'. mem_getAttestationById (ls_store dev_one) i = Inr (Some rec) \<and> ar_registryId rec = i
    \<and> getLog memory_store (ar_logId rec) dev_one = (Inr lg, s')
    \<and> leafHashHex pad32 lg (int (ar_leafIndex rec)) = Inr (ar_leafHash rec)"
proof -
  obtain rec where "mem_getAttestationById (ls_store dev_one) (at_registry_id dev_att) = Inr (Some rec)"
    using mem_att_view[OF dev_one(3)] mem_total(1)[of "ls_store dev_one" "at_registry_id dev_att"] dev_one(5) by fastforce
  from ledger_records_in_log[OF dev_one(2) this] this show ?thesis by blast
qed

text \<open>C7: History is append-only.  From any reachable state, any further calls and restarts only append
  leaves to each log.  No attestation disappears, and of all fields of its record only the status changes, which never
  leaves revoked and never returns to active.  No record of evidence disappears; of its fields only the expiry day, the
  legal hold and the mark of deletion change, the expiry day never to an earlier day, and a record that is marked as deleted does not
  change at all any more.\<close>

theorem ledger_append_only:
  assumes "reachable H cy sv s" "ledger_steps H memory_store (anchorSTH cy sv) s s'"
  shows "(\<exists>xs. mem_getLeaves (ls_store s') l = map_sum id (\<lambda>ls. ls @ xs) (mem_getLeaves (ls_store s) l))
    \<and> (\<forall>i rec. mem_getAttestationById (ls_store s) i = Inr (Some rec) \<longrightarrow>
         (\<exists>rec'. mem_getAttestationById (ls_store s') i = Inr (Some rec') \<and> att_evolves rec rec'))
    \<and> (\<forall>i ev. mem_getEvidenceById (ls_store s) i = Inr (Some ev) \<longrightarrow>
         (\<exists>ev'. mem_getEvidenceById (ls_store s') i = Inr (Some ev') \<and> ev_evolves ev ev'))"
proof -
  let ?a = "mem_abs (ls_store s)" and ?b = "mem_abs (ls_store s')"
  have inv: "mem_inv H s" by (rule reachable_inv[OF assms(1)])
  then have inv': "mem_inv H s'" and g: "grows ?a ?b" using mled.steps_inv[OF assms(2)] by simp_all
  have "\<exists>rec'. mem_getAttestationById (ls_store s') i = Inr (Some rec') \<and> att_evolves rec rec'"
    if r: "mem_getAttestationById (ls_store s) i = Inr (Some rec)" for i rec
  proof -
    obtain x where x: "mem_getAttestationById (ls_store s') i = Inr x" using mem_total(1) by blast
    with growsD(2)[OF g, of i "rec"] mem_att_view[OF inv r] mem_att_view[OF inv' x] show ?thesis by auto
  qed
  moreover have "\<exists>ev'. mem_getEvidenceById (ls_store s') i = Inr (Some ev') \<and> ev_evolves ev ev'"
    if r: "mem_getEvidenceById (ls_store s) i = Inr (Some ev)" for i ev
  proof -
    obtain x where x: "mem_getEvidenceById (ls_store s') i = Inr x" using mem_total(2) by blast
    with growsD(3)[OF g, of i "ev"] mem_ev_view[OF inv r] mem_ev_view[OF inv' x] show ?thesis by auto
  qed
  ultimately show ?thesis using growsD(1)[OF g, of l] by (simp add: mem_leaves_view)
qed

theorem ledger_append_only_witness:
  "\<exists>w xs. mem_getLeaves (ls_store (newLedgerService newMemoryStore w)) ''tenant:a'' = Inr []
     \<and> mem_getLeaves (ls_store dev_one) ''tenant:a'' = Inr xs \<and> xs \<noteq> []"
proof -
  obtain w where w: "ledger_steps pad32 memory_store dev_anchor (newLedgerService newMemoryStore w) dev_one"
    using dev_one(2) by (auto simp: reachable_def)
  have "reachable pad32 toy_crypto dev_service (newLedgerService newMemoryStore w)" by (auto simp: reachable_def)
  from ledger_append_only[OF this w, of "''tenant:a''"] dev_one(4) show ?thesis
    by (auto simp: mem_leaves_view newLedgerService_def mem_abs_new)
qed

lemma attestation_accepted:
  assumes "reachable H cy sv s" "getAttestation H memory_store (anchorSTH cy sv) i s = (Inr d, s')"
    and "sth_tree_size (at_sth d) \<le> 2 ^ 30"
  shows "verifyInclusion H (lr_leaf_hash (at_log d)) (at_inclusion_proof d) (sth_root_hash (at_sth d)) = Inr True
    \<and> sdk_verifyInclusion H (HexIn (lr_leaf_hash (at_log d))) (at_inclusion_proof d) (HexIn (sth_root_hash (at_sth d)))
    \<and> ls_store s' = ls_store s"
proof -
  let ?a = "mem_abs (ls_store s)"
  have inv: "mem_inv H s" by (rule reachable_inv[OF assms(1)])
  from wpD[OF mled.wp_getAttestation[OF inv] assms(2)] obtain rec where
    rec: "as_att ?a i = Some rec" "mled.att_dto H ?a rec d" "mled.reads H s s'"
    by (auto split: option.splits)
  let ?l = "ar_logId rec"
  note lf = inv_att_leaf(3)[OF inv rec(1)]
  have p: "proof_for H ?a ?l (ar_leafIndex rec) (at_inclusion_proof d) (at_sth d)" "lr_leaf_hash (at_log d) = ar_leafHash rec"
    using rec(2) by (simp_all add: mled.att_dto_def)
  have "sdk_verifyInclusion H (HexIn (ar_leafHash rec)) (at_inclusion_proof d) (HexIn (sth_root_hash (at_sth d)))"
    using sdk_inclusion_accepted[OF _ inv_att_leaf(2)[OF inv rec(1)] _ assms(3)] p(1) by (auto simp: proof_for_def)
  with proof_for_verifies[OF p(1) assms(3) lf] p(2) rec(3) show ?thesis by (simp add: mled.reads_def)
qed

text \<open>C5: Every attestation handed out verifies.  In every reachable state, when \<open>getAttestation\<close> answers,
  both the standalone verifier of the service and the one of the SDK accept the leaf hash, proof and
  root it returned, and the store is unchanged.\<close>

theorem attestation_verifies:
  assumes "reachable H cy sv s" "getAttestation H memory_store (anchorSTH cy sv) i s = (Inr d, s')"
    and "sth_tree_size (at_sth d) \<le> 2 ^ 30"
  shows "verifyInclusion H (lr_leaf_hash (at_log d)) (at_inclusion_proof d) (sth_root_hash (at_sth d)) = Inr True
    \<and> sdk_verifyInclusion H (HexIn (lr_leaf_hash (at_log d))) (at_inclusion_proof d) (HexIn (sth_root_hash (at_sth d)))
    \<and> ls_store s' = ls_store s"
  by (rule attestation_accepted[OF assms])

lemma dev_get:
  obtains x s' where "getAttestation pad32 memory_store dev_anchor (at_registry_id dev_att) dev_one = (Inr x, s')"
    "sth_tree_size (at_sth x) \<le> 2 ^ 30"
proof -
  obtain rec where rec: "as_att (mem_abs (ls_store dev_one)) (at_registry_id dev_att) = Some rec" "ar_logId rec = ''tenant:a''"
    using dev_one(5) by blast
  have "wp (getAttestation pad32 memory_store dev_anchor (at_registry_id dev_att)) (\<lambda>r s'. \<exists>d. r = Inr d) dev_one"
    by (rule live_ledger.live_getAttestation[OF keyless_live, where rec = rec]) (use dev_one(3,7) rec in simp_all)
  then obtain x s' where x: "getAttestation pad32 memory_store dev_anchor (at_registry_id dev_att) dev_one = (Inr x, s')"
    by (auto simp: wp_def split: prod.splits)
  from wpD[OF mled.wp_getAttestation[OF dev_one(3)] x] rec have "sth_tree_size (at_sth x) \<le> 2 ^ 30"
    using dev_one(7) by (simp add: mled.att_dto_def)
  with x show thesis by (rule that)
qed

theorem attestation_verifies_witness:
  "\<exists>d s'. getAttestation pad32 memory_store dev_anchor (at_registry_id dev_att) dev_one = (Inr d, s')
    \<and> verifyInclusion pad32 (lr_leaf_hash (at_log d)) (at_inclusion_proof d) (sth_root_hash (at_sth d)) = Inr True"
proof -
  obtain x s' where x: "getAttestation pad32 memory_store dev_anchor (at_registry_id dev_att) dev_one = (Inr x, s')"
    "sth_tree_size (at_sth x) \<le> 2 ^ 30" by (rule dev_get)
  from attestation_verifies[OF dev_one(2) x] x show ?thesis by blast
qed

subsection \<open>Single calls\<close>

lemma dev_record:
  "\<exists>rec. mem_getAttestationById (ls_store dev_one) (at_registry_id dev_att) = Inr (Some rec)
     \<and> ar_tenant rec = ''did:hara:tenant:a'' \<and> ar_status rec = Active"
proof -
  obtain f where f: "mem_getAttestationById (ls_store dev_one) (at_registry_id dev_att) = Inr f" using mem_total(1) by blast
  with mem_att_view[OF dev_one(3) f] dev_one(5) show ?thesis by (cases f) auto
qed

lemma mem_content_view:
  "mem_inv H s \<Longrightarrow> key_hash h \<Longrightarrow> mem_getAttestationByContentHash (ls_store s) t h = Inr r \<Longrightarrow>
    r = Option.bind (as_attKey (mem_abs (ls_store s)) (t, h)) (as_att (mem_abs (ls_store s)))"
  using mem.get_att_content[of "ls_store s" h t r] by (simp add: ledger_inv_def memory_store_def)

lemma mem_content_total: "\<exists>r. mem_getAttestationByContentHash st t h = Inr r"
  by (simp add: mem_getAttestationByContentHash_def)

lemma mem_fresh:
  "mem_inv H s \<Longrightarrow> mem_getAttestationById (ls_store s) i = Inr None \<Longrightarrow> as_att (mem_abs (ls_store s)) i = None"
  using mem_att_view by fastforce

text \<open>Anchoring is idempotent on tenant and content hash.  In a reachable state, for a valid hash and
  an unused random identifier, an answer of \<open>anchorAttestation\<close> is of one of two kinds.  If the tenant
  has a record with this content hash, the answer is that record and the store is unchanged.
  Otherwise exactly one leaf was added, to the tenant's log, at the index and with the leaf hash the
  answer names, the leaf is the canonical encoding of the request, the new record is active, and
  looking up the tenant and the hash finds it.\<close>

theorem anchorAttestation_idempotent:
  assumes "reachable H cy sv s" "HASH_RE (rq_contentHash req)"
    and "mem_getAttestationById (ls_store s) (''reg:att:'' @ hex_of (shd (wd_rand (ls_world s)))) = Inr None"
    and "anchorAttestation H memory_store (anchorSTH cy sv) req tenant s = (Inr (d, existed), s')"
  defines "h \<equiv> to_lower (rq_contentHash req)" and "l \<equiv> tenantLogId tenant"
  shows "if existed
    then ls_store s' = ls_store s
      \<and> (\<exists>rec. mem_getAttestationByContentHash (ls_store s) tenant h = Inr (Some rec) \<and> ar_registryId rec = at_registry_id d
           \<and> ar_leafIndex rec = lr_leaf_index (at_log d) \<and> ar_status rec = at_status d)
    else mem_getAttestationByContentHash (ls_store s) tenant h = Inr None
      \<and> (\<exists>leaf leaves rec. leaf = attestationLeaf (at_registry_id d) h (rq_subject req) (rq_issuer req) (rq_recordType req)
           \<and> mem_getLeaves (ls_store s) l = Inr leaves \<and> mem_getLeaves (ls_store s') l = Inr (leaves @ [toHex leaf])
           \<and> (\<forall>k. k \<noteq> l \<longrightarrow> mem_getLeaves (ls_store s') k = mem_getLeaves (ls_store s) k)
           \<and> at_log d = \<lparr>lr_log_id = l, lr_leaf_index = length leaves, lr_leaf_hash = toHex (hashLeaf H leaf)\<rparr>
           \<and> mem_getAttestationByContentHash (ls_store s') tenant h = Inr (Some rec)
           \<and> ar_registryId rec = at_registry_id d \<and> ar_status rec = Active)"
proof -
  let ?a = "mem_abs (ls_store s)" and ?b = "mem_abs (ls_store s')"
  have inv: "mem_inv H s" by (rule reachable_inv[OF assms(1)])
  have key: "key_hash h" unfolding h_def by (rule HASH_RE_key[OF assms(2)])
  have "ledger_step H memory_store (anchorSTH cy sv) s s'"
    by (rule ledger_step.anchor[OF assms(2) _ assms(4)]) (use assms(3) in \<open>simp add: memory_store_def\<close>)
  then have inv': "mem_inv H s'" using mled.step_inv inv by blast
  obtain r where r: "mem_getAttestationByContentHash (ls_store s) tenant h = Inr r" using mem_content_total by blast
  obtain r' where r': "mem_getAttestationByContentHash (ls_store s') tenant h = Inr r'" using mem_content_total by blast
  note post = wpD[OF mled.wp_anchorAttestation[OF inv key[unfolded h_def] mem_fresh[OF inv assms(3)]] assms(4), folded h_def]
  have len: "length (as_leaves ?a l) = length (the_leaves ?a l)" by (simp add: the_leaves_def)
  show ?thesis
  proof (cases r)
    case None
    then have n: "Option.bind (as_attKey ?a (tenant, h)) (as_att ?a) = None"
      using mem_content_view[OF inv key r] by simp
    with post obtain rec e leaf where d: "\<not> existed" "?b = abs_appendStatus (abs_putAttestation (abs_appendLeaf ?a l (toHex leaf)) rec) e"
      "leaf = attestationLeaf (at_registry_id d) h (rq_subject req) (rq_issuer req) (rq_recordType req)"
      "ar_tenant rec = tenant" "ar_contentHash rec = h" "ar_status rec = Active" "ar_leafHash rec = toHex (hashLeaf H leaf)"
      "ar_leafIndex rec = length (the_leaves ?a l)" "ar_logId rec = l" "mled.att_dto H ?b rec d"
      by (auto simp: mled.anchored_def Let_def l_def h_def)
    from d(2,4,5) mem_content_view[OF inv' key r'] obtain x where "r' = Some x" "x = rec"
      by (auto simp: abs_appendStatus_def abs_putAttestation_def)
    then show ?thesis
      using d r r' None len
      by (auto simp: mem_leaves_view mled.att_dto_def abs_appendStatus_def abs_putAttestation_def abs_appendLeaf_def)
  next
    case (Some rec)
    then have n: "Option.bind (as_attKey ?a (tenant, h)) (as_att ?a) = Some rec"
      using mem_content_view[OF inv key r] by simp
    with post r Some show ?thesis by (simp add: mled.reads_def mled.att_dto_def)
  qed
qed

theorem anchorAttestation_idempotent_witness:
  "\<exists>d s' rec. anchorAttestation pad32 memory_store dev_anchor dev_req ''did:hara:tenant:a'' dev_init = (Inr (d, False), s')
    \<and> lr_leaf_index (at_log d) = 0
    \<and> mem_getAttestationByContentHash (ls_store s') ''did:hara:tenant:a'' (to_lower (rq_contentHash dev_req)) = Inr (Some rec)
    \<and> ar_registryId rec = at_registry_id d"
proof -
  have hash: "HASH_RE (rq_contentHash dev_req)" unfolding dev_req_def by code_simp
  have "mem_getAttestationById (ls_store dev_init) i = Inr None" for i
    by (simp add: mem_getAttestationById_def dev_init_def newLedgerService_def newMemoryStore_def)
  from anchorAttestation_idempotent[OF dev_reachable hash this dev_one(1)] dev_one(1) show ?thesis
    by (auto simp: mem_leaves_view dev_init_def newLedgerService_def mem_abs_new)
qed

text \<open>C9: A status change is the tenant's alone, is final once it revokes, and is a leaf.  In a reachable
  state \<open>setStatus\<close> on an unknown record answers not_found, for another tenant forbidden_tenant, on a
  revoked record status_conflict, each with the state untouched.  Otherwise an answer means that
  exactly one leaf was added to the record's log, the canonical status leaf of what was answered, that
  the record has the new status, and that the SDK accepts the returned proof of that leaf.\<close>

theorem setStatus_guarded:
  assumes "reachable H cy sv s" "mem_getAttestationById (ls_store s) i = Inr found"
    and "setStatus H memory_store (anchorSTH cy sv) i action reason by' t s = (r, s')"
  shows "case found of None \<Rightarrow> r = Inl (ProblemError Not_found (Some i)) \<and> s' = s
    | Some rec \<Rightarrow>
      if ar_tenant rec \<noteq> t
      then r = Inl (ProblemError Forbidden_tenant (Some ''attestation belongs to another tenant'')) \<and> s' = s
      else if ar_status rec = Revoked
      then r = Inl (ProblemError Status_conflict (Some ''attestation is already revoked'')) \<and> s' = s
      else \<forall>d. r = Inr d \<longrightarrow> (\<exists>leaf leaves rec'.
          leaf = statusLeaf i (sr_status d) (sr_since d) t by'
          \<and> sr_status d = (if action = Revoke then Revoked else Superseded)
          \<and> mem_getLeaves (ls_store s) (ar_logId rec) = Inr leaves
          \<and> mem_getLeaves (ls_store s') (ar_logId rec) = Inr (leaves @ [toHex leaf])
          \<and> mem_getAttestationById (ls_store s') i = Inr (Some rec') \<and> ar_status rec' = sr_status d
          \<and> (sth_tree_size (sr_sth d) \<le> 2 ^ 30 \<longrightarrow>
               sdk_verifyInclusion H (HexIn (toHex (hashLeaf H leaf))) (sr_proof d) (HexIn (sth_root_hash (sr_sth d)))))"
proof -
  let ?a = "mem_abs (ls_store s)" and ?b = "mem_abs (ls_store s')"
  have inv: "mem_inv H s" by (rule reachable_inv[OF assms(1)])
  have inv': "mem_inv H s'" using mled.step_inv[OF ledger_step.set_status[OF assms(3)] inv] ..
  note post = wpD[OF mled.wp_setStatus[OF inv] assms(3)] and v = mem_att_view[OF inv assms(2)]
  show ?thesis
  proof (cases found)
    case (Some rec)
    let ?l = "ar_logId rec"
    show ?thesis
    proof (cases "ar_tenant rec = t \<and> ar_status rec \<noteq> Revoked")
      case True
      have "\<exists>leaf leaves rec'. leaf = statusLeaf i (sr_status d) (sr_since d) t by'
          \<and> sr_status d = (if action = Revoke then Revoked else Superseded)
          \<and> mem_getLeaves (ls_store s) ?l = Inr leaves \<and> mem_getLeaves (ls_store s') ?l = Inr (leaves @ [toHex leaf])
          \<and> mem_getAttestationById (ls_store s') i = Inr (Some rec') \<and> ar_status rec' = sr_status d
          \<and> (sth_tree_size (sr_sth d) \<le> 2 ^ 30 \<longrightarrow>
               sdk_verifyInclusion H (HexIn (toHex (hashLeaf H leaf))) (sr_proof d) (HexIn (sth_root_hash (sr_sth d))))"
        if d: "r = Inr d" for d
      proof -
        let ?st = "if action = Revoke then Revoked else Superseded"
        from post v Some True d have p: "mled.status_changed i ?st rec t (sr_since d) by' ?a ?b" "sr_status d = ?st"
          "proof_for H ?b ?l (length (the_leaves ?a ?l)) (sr_proof d) (sr_sth d)" by auto
        then obtain e where b: "?b = abs_setAttestationStatus (abs_appendStatus (abs_appendLeaf ?a ?l
            (toHex (statusLeaf i ?st (sr_since d) t by'))) e) i ?st" by (auto simp: mled.status_changed_def)
        let ?leaf = "statusLeaf i ?st (sr_since d) t by'"
        have lv: "as_leaves ?b ?l = as_leaves ?a ?l @ [toHex ?leaf]"
          unfolding b by (simp add: abs_setAttestationStatus_def abs_appendStatus_def abs_appendLeaf_def)
        have att: "as_att ?b i = Some (rec\<lparr>ar_status := ?st\<rparr>)"
          unfolding b using v Some by (simp add: abs_setAttestationStatus_def abs_appendStatus_def)
        obtain x where x: "mem_getAttestationById (ls_store s') i = Inr x" using mem_total(1) by blast
        have x': "x = Some (rec\<lparr>ar_status := ?st\<rparr>)" using mem_att_view[OF inv' x] att by simp
        then obtain rec' where rec': "x = Some rec'" "rec' = rec\<lparr>ar_status := ?st\<rparr>" by auto
        have "ar_status rec' = ?st" using arg_cong[OF rec'(2), of ar_status] by (simp split: if_splits)
        moreover have "the_leaves ?b ?l ! length (the_leaves ?a ?l) = ?leaf" "length (the_leaves ?b ?l) = Suc (length (the_leaves ?a ?l))"
          unfolding the_leaves_def lv by (simp_all add: nth_append)
        then have "leafHashHex H (log_of ?b ?l) (int (length (the_leaves ?a ?l))) = Inr (toHex (hashLeaf H ?leaf))"
          by (simp add: leafHashHex_def)
        then have "sth_tree_size (sr_sth d) \<le> 2 ^ 30 \<longrightarrow>
            sdk_verifyInclusion H (HexIn (toHex (hashLeaf H ?leaf))) (sr_proof d) (HexIn (sth_root_hash (sr_sth d)))"
          using sdk_inclusion_accepted p(3) by (auto simp: proof_for_def)
        ultimately show ?thesis using p(2) lv x rec' by (intro exI[of _ ?leaf] exI[of _ "as_leaves ?a ?l"] exI[of _ rec']) (simp add: mem_leaves_view)
      qed
      with Some True show ?thesis by (auto split del: if_split)
    qed (use post v Some in \<open>auto split: if_splits\<close>)
  qed (use post v in simp)
qed

theorem setStatus_guarded_witness:
  "setStatus pad32 memory_store dev_anchor (at_registry_id dev_att) Revoke ''error'' None ''did:hara:tenant:b'' dev_one
     = (Inl (ProblemError Forbidden_tenant (Some ''attestation belongs to another tenant'')), dev_one)"
proof -
  obtain r s' where r: "setStatus pad32 memory_store dev_anchor (at_registry_id dev_att) Revoke ''error'' None ''did:hara:tenant:b'' dev_one = (r, s')"
    by (cases "setStatus pad32 memory_store dev_anchor (at_registry_id dev_att) Revoke ''error'' None ''did:hara:tenant:b'' dev_one")
  obtain x where x: "mem_getAttestationById (ls_store dev_one) (at_registry_id dev_att) = Inr (Some x)"
    "ar_tenant x = ''did:hara:tenant:a''" using dev_record by blast
  from setStatus_guarded[OF dev_one(2) x(1) r] x(2) show ?thesis by (simp add: r)
qed

text \<open>Consistency responses verify.  In every reachable state an answer of \<open>getConsistency\<close> is about
  the log and sizes asked for, its range is valid, and for logs of at most 2^30 leaves the SDK accepts
  the path between the two heads; an invalid range or a log without leaves is answered with
  proof_unavailable.\<close>

theorem getConsistency_verifies:
  assumes "reachable H cy sv s" "getConsistency H memory_store (anchorSTH cy sv) l m n s = (r, s')"
    and "mem_getLeaves (ls_store s) l = Inr leaves"
  shows "ls_store s' = ls_store s
    \<and> (if m < 1 \<or> n > int (length leaves) \<or> m > n then (\<exists>msg. r = Inl (ProblemError Proof_unavailable (Some msg)))
       else \<forall>d. r = Inr d \<longrightarrow> sth_tree_size (cr_first d) = m \<and> sth_tree_size (cr_second d) = n
         \<and> sth_log_id (cr_first d) = l \<and> sth_log_id (cr_second d) = l
         \<and> (n \<le> 2 ^ 30 \<longrightarrow> sdk_verifyConsistency H
              \<lparr>th_size = m, th_root = HexIn (sth_root_hash (cr_first d))\<rparr>
              \<lparr>th_size = n, th_root = HexIn (sth_root_hash (cr_second d))\<rparr> (map HexIn (cr_consistency_path d))))"
proof -
  have inv: "mem_inv H s" by (rule reachable_inv[OF assms(1)])
  have len: "length leaves = length (the_leaves (mem_abs (ls_store s)) l)"
    using assms(3) by (simp add: mem_leaves_view the_leaves_def)
  note post = wpD[OF mled.wp_getConsistency[OF inv] assms(2)]
  have st: "ls_store s' = ls_store s" using post by (simp add: mled.reads_def)
  show ?thesis
  proof (cases "m < 1 \<or> n > int (length leaves) \<or> m > n")
    case True
    with post st len show ?thesis by auto
  next
    case False
    have "sdk_verifyConsistency H \<lparr>th_size = m, th_root = HexIn (sth_root_hash (cr_first d))\<rparr>
              \<lparr>th_size = n, th_root = HexIn (sth_root_hash (cr_second d))\<rparr> (map HexIn (cr_consistency_path d))"
      if "consistent_heads H (mem_abs (ls_store s)) l m n d" "n \<le> 2 ^ 30" for d
      using sdk_consistency_accepted[of H "log_of (mem_abs (ls_store s)) l" m n] that False len
      by (fastforce simp: consistent_heads_def)
    with False post st len show ?thesis by (auto simp: consistent_heads_def)
  qed
qed

theorem getConsistency_verifies_witness:
  "\<exists>msg s'. getConsistency pad32 memory_store dev_anchor ''tenant:a'' 1 2 dev_one
     = (Inl (ProblemError Proof_unavailable (Some msg)), s') \<and> ls_store s' = ls_store dev_one"
proof -
  obtain r s' where r: "getConsistency pad32 memory_store dev_anchor ''tenant:a'' 1 2 dev_one = (r, s')"
    by (cases "getConsistency pad32 memory_store dev_anchor ''tenant:a'' 1 2 dev_one")
  have "length (as_leaves (mem_abs (ls_store dev_one)) ''tenant:a'') = 1" using dev_one(7) by (simp add: the_leaves_def)
  with getConsistency_verifies[OF dev_one(2) r mem_leaves_view] show ?thesis using r by auto
qed

end
