(* ===== verification/EvidenceClaims.thy ===== *)
theory EvidenceClaims
  imports LedgerClaims
begin

text \<open>
  The properties of evidence under retention, and of the verification bundle.
\<close>

subsection \<open>Evidence on record, without anchoring\<close>

context live_ledger
begin

lemma live_registerEvidence:
  fixes req tenant
  defines "h \<equiv> to_lower (er_contentHash req)" and "l \<equiv> tenantLogId tenant"
  assumes "inv s" "key_hash h" "as_ev (data s) (''ev:'' @ hex_of (shd (wd_rand (ls_world s)))) = None"
    and "as_evKey (data s) (tenant, h) = None" "length (the_leaves (data s) l) < 2 ^ 30"
  shows "wp (registerEvidence H S A req tenant) (\<lambda>r s'. \<exists>d. r = Inr d) s"
  unfolding registerEvidence_def Let_def wp_bindS[of "storeRead _"] h_def[symmetric] l_def[symmetric]
proof (rule wp_evidence_by_content[OF assms(3,4)], goal_cases)
  case f: (1 found)
  let ?s = "s\<lparr>ls_world := (ls_world s)\<lparr>wd_rand := stl (wd_rand (ls_world s))\<rparr>\<rparr>"
  have i: "inv ?s" using assms(3) by (simp add: ledger_inv_def)
  have n: "found = None" using f assms(6) by simp
  show ?case
    unfolding n sum.case option.case wp_bindS[of "randId _"] wp_randId
  proof (rule wp_seq[OF live_append], goal_cases)
    case (4 ap s2)
    then have s2: "inv s2" "as_ev (data s2) = as_ev (data s)" "as_evKey (data s2) = as_evKey (data s)"
      by (auto simp: appended_def)
    show ?case
      unfolding wp_bindS[of newDate] wp_newDate sum.case wp_bindS[of "storeWrite _"]
    proof (rule wp_put_evidence, goal_cases)
      case (3 st)
      show ?case unfolding sum.case wp_bindS wp_toRetention by (auto simp: wp_ret)
    qed (use s2 assms(4,5,6) in \<open>simp_all add: ledger_inv_def fresh_ev_def\<close>)
  qed (use i assms(7) in auto)
qed

end

lemma mem_evidence_now:
  assumes "mem_inv H s" "as_ev (mem_abs (ls_store s)) i = Some e"
  obtains e' where "mem_getEvidenceById (ls_store s) i = Inr (Some e')" "e' = e"
proof -
  obtain y where y: "mem_getEvidenceById (ls_store s) i = Inr y" using mem_total(2) by blast
  with mem_ev_view[OF assms(1) y] assms(2) that show thesis by (cases y) auto
qed

definition dev_ev_req :: "string \<Rightarrow> bool \<Rightarrow> EvidenceRequest" where
  "dev_ev_req until hold = \<lparr>er_contentHash = ''0x'' @ replicate 64 CHR ''b'', er_hashAlg = None, er_until = until,
     er_basis = ''law'', er_legalHold = Some hold, er_links = None\<rparr>"

definition dev_ev :: "string \<Rightarrow> bool \<Rightarrow> Evidence" where
  "dev_ev u hold = fst (projr (fst (registerEvidence pad32 memory_store dev_anchor (dev_ev_req u hold) ''did:hara:tenant:a'' dev_one)))"

definition dev_two :: "string \<Rightarrow> bool \<Rightarrow> MemoryStore LedgerState" where
  "dev_two u hold = snd (registerEvidence pad32 memory_store dev_anchor (dev_ev_req u hold) ''did:hara:tenant:a'' dev_one)"

lemma dev_two:
  "registerEvidence pad32 memory_store dev_anchor (dev_ev_req u hold) ''did:hara:tenant:a'' dev_one = (Inr (dev_ev u hold, False), dev_two u hold)"
  "reachable pad32 toy_crypto dev_service (dev_two u hold)" "mem_inv pad32 (dev_two u hold)"
  "\<exists>ev. mem_getEvidenceById (ls_store (dev_two u hold)) (ev_evidence_id (dev_ev u hold)) = Inr (Some ev)
     \<and> er_tenant ev = ''did:hara:tenant:a'' \<and> er_until' ev = u \<and> er_legalHold' ev = hold \<and> \<not> er_deleted ev"
proof -
  let ?t = "''did:hara:tenant:a''" and ?rq = "dev_ev_req u hold" and ?a = "mem_abs (ls_store dev_one)"
  have hash: "HASH_RE (er_contentHash ?rq)" unfolding dev_ev_req_def EvidenceRequest.select_convs by code_simp
  have tl: "tenantLogId ?t = ''tenant:a''" by code_simp
  note none = dev_one(8,9)
  have "wp (registerEvidence pad32 memory_store dev_anchor ?rq ?t) (\<lambda>r s'. \<exists>d. r = Inr d) dev_one"
    by (rule live_ledger.live_registerEvidence[OF keyless_live])
      (use dev_one(3,7) HASH_RE_key[OF hash] none tl in simp_all)
  then obtain d fl s where r: "registerEvidence pad32 memory_store dev_anchor ?rq ?t dev_one = (Inr (d, fl), s)"
    by (auto simp: wp_def split: prod.splits)
  have "as_ev ?a (''ev:'' @ hex_of (shd (wd_rand (ls_world dev_one)))) = None" by (simp add: none)
  note post = wpD[OF mled.wp_registerEvidence[OF dev_one(3) HASH_RE_key[OF hash] this] r]
  then have an: "mem_inv pad32 s" "fl = False" by (simp_all add: none)
  have eq: "d = dev_ev u hold" "s = dev_two u hold" using r by (simp_all add: dev_ev_def dev_two_def)
  show "registerEvidence pad32 memory_store dev_anchor ?rq ?t dev_one = (Inr (dev_ev u hold, False), dev_two u hold)"
    using r an eq by simp
  obtain x where x: "mem_getEvidenceById (ls_store dev_one) (''ev:'' @ hex_of (shd (wd_rand (ls_world dev_one)))) = Inr x"
    using mem_total(2) by blast
  with mem_ev_view[OF dev_one(3) x] have "x = None" by (simp add: none)
  with x have "ledger_step pad32 memory_store dev_anchor dev_one s"
    using ledger_step.register[OF hash _ r] by (simp add: memory_store_def)
  then show "reachable pad32 toy_crypto dev_service (dev_two u hold)" using dev_one(2) reachable_step eq by blast
  show "mem_inv pad32 (dev_two u hold)" using an eq by simp
  from post obtain rec leaf where rec: "mem_abs (ls_store s) = abs_putEvidence (abs_appendLeaf ?a (tenantLogId ?t) (toHex leaf)) rec"
    "er_tenant rec = ?t" "\<not> er_deleted rec" "er_until' rec = u" "er_legalHold' rec = hold" "ev_dto pad32 (mem_abs (ls_store s)) rec d"
    by (auto simp: none dev_ev_req_def default_to_def)
  obtain y where y: "mem_getEvidenceById (ls_store s) (er_evidenceId rec) = Inr y" using mem_total(2) by blast
  with mem_ev_view[OF an(1) y] rec(1) obtain ev where ev: "y = Some ev" "ev = rec"
    by (cases y) (auto simp: abs_putEvidence_def)
  have "ev_evidence_id d = er_evidenceId rec" using rec(6) by (simp add: ev_dto_def)
  then show "\<exists>ev. mem_getEvidenceById (ls_store (dev_two u hold)) (ev_evidence_id (dev_ev u hold)) = Inr (Some ev)
     \<and> er_tenant ev = ''did:hara:tenant:a'' \<and> er_until' ev = u \<and> er_legalHold' ev = hold \<and> \<not> er_deleted ev"
    using y ev(1) ev(2) rec(2-5) eq by auto
qed

subsection \<open>Retention\<close>

text \<open>C24: Evidence under retention cannot be deleted, and every refusal is on record.  In a reachable
  state, for live evidence of the calling tenant: while the expiry day is in the future or a legal
  hold is set, \<open>deleteEvidence\<close> answers with an error, keeps the evidence, and appends exactly one
  leaf, the canonical refusal, to its log.  Otherwise it succeeds and the evidence is marked deleted,
  with no leaf added.\<close>

theorem deleteEvidence_respects_retention:
  assumes "reachable H cy sv s" "mem_getEvidenceById (ls_store s) i = Inr (Some ev)" "\<not> er_deleted ev"
    and "deleteEvidence H memory_store (anchorSTH cy sv) i (er_tenant ev) s = (r, s')"
  defines "l \<equiv> er_logId ev" and "clock \<equiv> wd_clock (ls_world s)"
  shows "\<exists>leaves ev'. mem_getLeaves (ls_store s) l = Inr leaves \<and> mem_getEvidenceById (ls_store s') i = Inr (Some ev')
    \<and> (if num_greater (dateMs (er_until' ev)) (shd clock) \<or> er_legalHold' ev
       then (\<exists>e. r = Inl e) \<and> \<not> er_deleted ev'
         \<and> mem_getLeaves (ls_store s') l
             = Inr (leaves @ [toHex (deleteAttemptLeaf i (toISOString (shd (stl clock))) (er_tenant ev))])
       else r = Inr () \<and> er_deleted ev' \<and> mem_getLeaves (ls_store s') l = Inr leaves)"
proof -
  let ?a = "mem_abs (ls_store s)" and ?b = "mem_abs (ls_store s')"
  have inv: "mem_inv H s" by (rule reachable_inv[OF assms(1)])
  have inv': "mem_inv H s'" using mled.step_inv[OF ledger_step.delete[OF assms(4)] inv] ..
  have v: "as_ev ?a i = Some ev" using mem_ev_view[OF inv assms(2)] by simp
  note post = wpD[OF mled.wp_deleteEvidence[OF inv] assms(4)]
  have id: "er_evidenceId ev = i" using ev_ids[OF mled.invD(3)[OF inv] v] by simp
  show ?thesis
  proof (cases "num_greater (dateMs (er_until' ev)) (shd clock) \<or> er_legalHold' ev")
    case True
    with post v assms(3) have b: "?b = abs_appendLeaf ?a l (toHex (deleteAttemptLeaf i (toISOString (shd (stl clock))) (er_tenant ev)))"
      "\<exists>e. r = Inl e" by (simp_all add: l_def clock_def)
    have "as_ev ?b i = Some ev" using v b(1) by simp
    from mem_evidence_now[OF inv' this] obtain ev' where ev': "mem_getEvidenceById (ls_store s') i = Inr (Some ev')"
      "ev' = ev" .
    with True b assms(3) ev'(2) show ?thesis
      by (intro exI[of _ "as_leaves ?a l"] exI[of _ ev']) (simp add: mem_leaves_view abs_appendLeaf_def)
  next
    case False
    with post v assms(3) have b: "?b = abs_updateEvidence ?a (ev\<lparr>er_deleted := True\<rparr>)" "r = Inr ()"
      by (auto simp: clock_def)
    have "as_ev ?b i = Some ((ev\<lparr>er_deleted := True\<rparr>))" using id by (simp add: b(1))
    from mem_evidence_now[OF inv' this] obtain ev' where ev': "mem_getEvidenceById (ls_store s') i = Inr (Some ev')"
      "ev' = (ev\<lparr>er_deleted := True\<rparr>)" .
    have "er_deleted ev'" using ev'(2) by simp
    with False b ev'(1) show ?thesis
      by (intro exI[of _ "as_leaves ?a l"] exI[of _ ev']) (simp add: mem_leaves_view)
  qed
qed

theorem deleteEvidence_respects_retention_witness:
  "\<exists>e s' ev'. deleteEvidence pad32 memory_store dev_anchor (ev_evidence_id (dev_ev ''2030-01-01'' True)) ''did:hara:tenant:a''
      (dev_two ''2030-01-01'' True) = (Inl e, s')
    \<and> mem_getEvidenceById (ls_store s') (ev_evidence_id (dev_ev ''2030-01-01'' True)) = Inr (Some ev') \<and> \<not> er_deleted ev'"
proof -
  let ?s = "dev_two ''2030-01-01'' True" and ?i = "ev_evidence_id (dev_ev ''2030-01-01'' True)"
  obtain ev where ev: "mem_getEvidenceById (ls_store ?s) ?i = Inr (Some ev)" "er_tenant ev = ''did:hara:tenant:a''"
    "er_legalHold' ev" "\<not> er_deleted ev" using dev_two(4)[of "''2030-01-01''" True] by blast
  obtain r s' where r: "deleteEvidence pad32 memory_store dev_anchor ?i (er_tenant ev) ?s = (r, s')" by fastforce
  from deleteEvidence_respects_retention[OF dev_two(2) ev(1,4) r] ev r show ?thesis by auto
qed

text \<open>A date that is no date protects nothing.  The route accepts every text of the form dddd-dd-dd;
  when it is no calendar day, the expiry is NaN, no comparison holds, and evidence without legal hold
  can be deleted at once, whatever the clock says.\<close>

theorem invalid_date_unprotected:
  assumes "reachable H cy sv s" "mem_getEvidenceById (ls_store s) i = Inr (Some ev)" "\<not> er_deleted ev"
    and "dateMs (er_until' ev) = None" "\<not> er_legalHold' ev"
  shows "\<exists>s' ev'. deleteEvidence H memory_store (anchorSTH cy sv) i (er_tenant ev) s = (Inr (), s')
    \<and> mem_getEvidenceById (ls_store s') i = Inr (Some ev') \<and> er_deleted ev'"
proof -
  have inv: "mem_inv H s" by (rule reachable_inv[OF assms(1)])
  obtain r s' where r: "deleteEvidence H memory_store (anchorSTH cy sv) i (er_tenant ev) s = (r, s')" by fastforce
  have inv': "mem_inv H s'" using mled.step_inv[OF ledger_step.delete[OF r] inv] ..
  have v: "as_ev (mem_abs (ls_store s)) i = Some ev" using mem_ev_view[OF inv assms(2)] by simp
  then have id: "er_evidenceId ev = i" using ev_ids[OF mled.invD(3)[OF inv] v] by simp
  from wpD[OF mled.wp_deleteEvidence[OF inv] r] v assms(3-) have
    b: "r = Inr ()" "mem_abs (ls_store s') = abs_updateEvidence (mem_abs (ls_store s)) (ev\<lparr>er_deleted := True\<rparr>)"
    by (simp_all add: num_greater_def)
  have "as_ev (mem_abs (ls_store s')) i = Some ((ev\<lparr>er_deleted := True\<rparr>))" using id by (simp add: b(2))
  from mem_evidence_now[OF inv' this] obtain ev' where ev': "mem_getEvidenceById (ls_store s') i = Inr (Some ev')"
    "ev' = (ev\<lparr>er_deleted := True\<rparr>)" .
  have "er_deleted ev'" using ev'(2) by simp
  with r b(1) ev'(1) show ?thesis by blast
qed

theorem invalid_date_unprotected_witness:
  "DATE_RE ''2024-13-45'' \<and> (\<exists>s'. deleteEvidence pad32 memory_store dev_anchor
      (ev_evidence_id (dev_ev ''2024-13-45'' False)) ''did:hara:tenant:a'' (dev_two ''2024-13-45'' False) = (Inr (), s'))"
proof -
  let ?s = "dev_two ''2024-13-45'' False" and ?i = "ev_evidence_id (dev_ev ''2024-13-45'' False)"
  obtain ev where ev: "mem_getEvidenceById (ls_store ?s) ?i = Inr (Some ev)" "er_tenant ev = ''did:hara:tenant:a''"
    "\<not> er_legalHold' ev" "\<not> er_deleted ev" "er_until' ev = ''2024-13-45''" using dev_two(4)[of "''2024-13-45''" False] by blast
  have "dateMs ''2024-13-45'' = None" "DATE_RE ''2024-13-45''" by code_simp+
  with invalid_date_unprotected[OF dev_two(2) ev(1,4) _ ev(3)] ev show ?thesis by auto
qed

end
