(* ===== verification/JsData.thy ===== *)
theory JsData
  imports LedgerTypes
begin

text \<open>
  The parts of JavaScript's standard library that the request handlers and the smaller services use
  on dynamically typed data: property access on parsed JSON, truthiness, \<open>String\<close> and \<open>Number\<close>,
  and the text functions \<open>split\<close>, \<open>trim\<close> and \<open>includes\<close>.
\<close>

subsection \<open>Properties of a parsed JSON value\<close>

text \<open>\<open>v.key\<close> where \<open>v\<close> is neither null nor undefined; \<open>None\<close> is undefined.  The keys the code asks for
  are no built-in properties.\<close>

fun json_get :: "json \<Rightarrow> string \<Rightarrow> json option" where
  "json_get (JObj fs) k = map_of fs k"
| "json_get _ k = None"

text \<open>The same on the body of a request, which may be missing.\<close>

definition body_prop :: "json option \<Rightarrow> string \<Rightarrow> json option" where
  "body_prop b k = (case b of None \<Rightarrow> None | Some v \<Rightarrow> json_get v k)"

fun truthy :: "json \<Rightarrow> bool" where
  "truthy JNull = False"
| "truthy (JBool b) = b"
| "truthy (JNum n) = (n \<noteq> 0)"
| "truthy (JFrac s) = True"
| "truthy (JStr s) = (s \<noteq> [])"
| "truthy (JArr xs) = True"
| "truthy (JObj fs) = True"

definition truthy_opt :: "json option \<Rightarrow> bool" where
  "truthy_opt v = (case v of None \<Rightarrow> False | Some j \<Rightarrow> truthy j)"

definition truthy_str :: "string option \<Rightarrow> bool" where
  "truthy_str v = (case v of None \<Rightarrow> False | Some s \<Rightarrow> s \<noteq> [])"

lemma truthy_str_simps [simp]: "truthy_str None = False" "truthy_str (Some s) = (s \<noteq> [])"
  by (simp_all add: truthy_str_def)

text \<open>The value of an optional property at its declared type.\<close>

definition as_str :: "json option \<Rightarrow> string option" where
  "as_str v = (case v of Some (JStr s) \<Rightarrow> Some s | _ \<Rightarrow> None)"

definition as_bool :: "json option \<Rightarrow> bool option" where
  "as_bool v = (case v of Some (JBool b) \<Rightarrow> Some b | _ \<Rightarrow> None)"

definition as_obj :: "json option \<Rightarrow> json_object option" where
  "as_obj v = (case v of Some (JObj fs) \<Rightarrow> Some fs | _ \<Rightarrow> None)"

definition as_int :: "json option \<Rightarrow> int option" where
  "as_int v = (case v of Some (JNum n) \<Rightarrow> Some n | _ \<Rightarrow> None)"

lemma as_str_Some [simp]: "as_str v = Some s \<longleftrightarrow> v = Some (JStr s)"
  by (simp add: as_str_def split: option.splits json.splits)

lemma as_int_Some [simp]: "as_int v = Some n \<longleftrightarrow> v = Some (JNum n)"
  by (simp add: as_int_def split: option.splits json.splits)

subsection \<open>Conversions\<close>

text \<open>\<open>String(v)\<close>.\<close>

fun js_String :: "json \<Rightarrow> string" where
  "js_String JNull = ''null''"
| "js_String (JBool b) = (if b then ''true'' else ''false'')"
| "js_String (JNum n) = js_int n"
| "js_String (JFrac s) = s"
| "js_String (JStr s) = s"
| "js_String (JArr xs) = join '','' (map (\<lambda>x. if x = JNull then [] else js_String x) xs)"
| "js_String (JObj fs) = ''[object Object]''"

text \<open>\<open>Number(s)\<close> on a text: \<open>Some n\<close> when the text denotes the integer \<open>n\<close>, otherwise NaN, an infinity or a
  fraction.  White space around is dropped, the empty text is 0, the radix prefixes take no sign, a
  decimal literal may have a fraction and an exponent.  Values are exact, as everywhere in this
  development; a literal above \<open>2 ^ 53\<close> is not rounded.\<close>

definition exponent_of :: "string \<Rightarrow> int option" where
  "exponent_of s = (case s of [] \<Rightarrow> Some 0
     | c # s' \<Rightarrow> if lower_char c \<noteq> CHR ''e'' then None
       else (case s' of [] \<Rightarrow> None
         | d # s'' \<Rightarrow> if d = CHR ''-'' then map_option uminus (radix_digits 10 s'')
             else if d = CHR ''+'' then radix_digits 10 s'' else radix_digits 10 s'))"

definition decimal_literal :: "string \<Rightarrow> int option" where
  "decimal_literal s =
     (let whole = takeWhile is_digit s; s1 = dropWhile is_digit s;
          dot = (s1 \<noteq> [] \<and> hd s1 = CHR ''.'');
          frac = (if dot then takeWhile is_digit (tl s1) else []);
          s2 = (if dot then dropWhile is_digit (tl s1) else s1)
      in case (radix_digits 10 (whole @ frac), exponent_of s2) of
           (Some m, Some e) \<Rightarrow>
             (let k = e - int (length frac) in
              if 0 \<le> k then (if m = 0 then Some 0 else if k > 308 then None else Some (m * 10 ^ nat k))
              else if m = 0 then Some 0
              else if int (length whole + length frac) + 400 < - k then None
              else if m mod 10 ^ nat (- k) = 0 then Some (m div 10 ^ nat (- k)) else None)
         | _ \<Rightarrow> None)"

definition js_Number :: "string \<Rightarrow> int option" where
  "js_Number str = (let s = js_trim str; p = to_lower (take 2 s) in
     if s = [] then Some 0
     else if p = ''0x'' then radix_digits 16 (drop 2 s)
     else if p = ''0o'' then radix_digits 8 (drop 2 s)
     else if p = ''0b'' then radix_digits 2 (drop 2 s)
     else if hd s = CHR ''-'' then map_option uminus (decimal_literal (tl s))
     else if hd s = CHR ''+'' then decimal_literal (tl s)
     else decimal_literal s)"

lemma js_Number_examples:
  "js_Number ''12'' = Some 12" "js_Number '' 0x1F '' = Some 31" "js_Number ''1.50e2'' = Some 150"
  "js_Number ''1.5'' = None" "js_Number ''12a'' = None" "js_Number ''-3'' = Some (- 3)" "js_Number '''' = Some 0"
  "js_Number ''.'' = None" "js_Number ''1e400'' = None" "js_Number ''1e-400'' = None"
  by code_simp+

text \<open>\<open>s.split(sep)\<close> for a separator of one character.\<close>

fun split_at_char :: "char \<Rightarrow> string \<Rightarrow> string list" where
  "split_at_char c [] = [[]]"
| "split_at_char c (x # s) = (if x = c then [] # split_at_char c s
     else (case split_at_char c s of [] \<Rightarrow> [[x]] | w # ws \<Rightarrow> (x # w) # ws))"

lemma split_at_char_ne: "split_at_char c s \<noteq> []"
  by (induction s) (auto split: list.splits)

lemma split_join: "\<forall>w\<in>set ws. c \<notin> set w \<Longrightarrow> ws \<noteq> [] \<Longrightarrow> split_at_char c (join [c] ws) = ws"
proof (induction "[c]" ws rule: join.induct)
  case (2 x)
  then show ?case by (induction x) auto
next
  case (3 x y ys)
  have "c \<notin> set x \<Longrightarrow> split_at_char c (x @ c # s) = x # split_at_char c s" for s
    by (induction x) auto
  with 3 show ?case by simp
qed simp

text \<open>\<open>Array.prototype.includes\<close> is list membership, \<open>String.prototype.includes\<close> the test for a part.\<close>

fun is_part_of :: "string \<Rightarrow> string \<Rightarrow> bool" where
  "is_part_of p [] = (p = [])"
| "is_part_of p (c # s) = (starts_with p (c # s) \<or> is_part_of p s)"

lemma is_part_of_iff: "is_part_of p s \<longleftrightarrow> (\<exists>a b. s = a @ p @ b)"
proof (induction s)
  case (Cons c s)
  have "starts_with p (c # s) \<longleftrightarrow> (\<exists>b. c # s = p @ b)"
    unfolding starts_with_def by (metis append_eq_conv_conj append_take_drop_id)
  then show ?case
    using Cons by (auto simp: Cons_eq_append_conv)
qed simp

text \<open>\<open>s.split(/\s+/).filter(Boolean)\<close>: the words of a text.\<close>

fun js_words :: "string \<Rightarrow> string list" where
  "js_words [] = []"
| "js_words (c # s) = (if is_js_space c then js_words s
     else case s of [] \<Rightarrow> [[c]]
       | d # _ \<Rightarrow> if is_js_space d then [c] # js_words s
           else (case js_words s of [] \<Rightarrow> [[c]] | w # ws \<Rightarrow> (c # w) # ws))"

lemma js_words_example: "js_words '' anchor:write  anchor:read'' = [''anchor:write'', ''anchor:read'']"
  by code_simp

text \<open>\<open>encodeURIComponent\<close>, which escapes the bytes of the UTF-8 form.\<close>

definition hex_upper :: "nat \<Rightarrow> char" where
  "hex_upper n = ''0123456789ABCDEF'' ! n"

definition is_alnum :: "char \<Rightarrow> bool" where
  "is_alnum c = (let n = (of_char c :: nat) in
     (48 \<le> n \<and> n \<le> 57) \<or> (65 \<le> n \<and> n \<le> 90) \<or> (97 \<le> n \<and> n \<le> 122))"

definition encodeURIComponent :: "string \<Rightarrow> string" where
  "encodeURIComponent s = concat (map (\<lambda>c. if is_alnum c \<or> c \<in> set ''-_.!~*()'' \<or> of_char c = (39 :: nat) then [c]
     else [CHR ''%'', hex_upper (of_char c div 16), hex_upper (of_char c mod 16)]) s)"

text \<open>\<open>JSON.stringify\<close> on a value that came from \<open>JSON.parse\<close>; the list of an object's properties is in
  property order.\<close>

definition json_char :: "char \<Rightarrow> string" where
  "json_char c = (let n = (of_char c :: nat); b = CHR 0x5C in
     if n = 34 \<or> n = 92 then [b, c]
     else if n = 8 then [b, CHR ''b''] else if n = 9 then [b, CHR ''t''] else if n = 10 then [b, CHR ''n'']
     else if n = 12 then [b, CHR ''f''] else if n = 13 then [b, CHR ''r'']
     else if n < 32 then [b, CHR ''u'', CHR ''0'', CHR ''0'', hex_digit (n div 16), hex_digit (n mod 16)]
     else [c])"

definition json_str :: "string \<Rightarrow> string" where
  "json_str s = [CHR 0x22] @ concat (map json_char s) @ [CHR 0x22]"

fun json_text :: "json \<Rightarrow> string" where
  "json_text JNull = ''null''"
| "json_text (JBool b) = (if b then ''true'' else ''false'')"
| "json_text (JNum n) = js_int n"
| "json_text (JFrac s) = s"
| "json_text (JStr s) = json_str s"
| "json_text (JArr xs) = ''['' @ join '','' (map json_text xs) @ '']''"
| "json_text (JObj fs) = ''{'' @ join '','' (map (\<lambda>(k, v). json_str k @ '':'' @ json_text v) fs) @ ''}''"

text \<open>An answer of \<open>fetch\<close>: the status, and the body when it is JSON.  A call that gets no answer rejects.\<close>

record HttpResponse =
  hs_status :: int
  hs_json :: "json option"

definition hs_ok :: "HttpResponse \<Rightarrow> bool" where
  "hs_ok r \<longleftrightarrow> 200 \<le> hs_status r \<and> hs_status r \<le> 299"

definition hs_body :: "HttpResponse \<Rightarrow> json js" where
  "hs_body r = (case hs_json r of None \<Rightarrow> Inl (PlainError ''Unexpected token in JSON'') | Some v \<Rightarrow> Inr v)"

end
