(* ===== verification/Routes.thy ===== *)
theory Routes
  imports JsData LedgerSafety
begin

text \<open>
  The HTTP surface of the Registry Ledger: \<open>auth.ts\<close>, the handlers of \<open>routes/*.ts\<close> and the
  registration in \<open>server.ts\<close>.  A request is a record of what the handlers read; a reply is a status
  with a payload or a problem.  The verification of a token (\<open>jwtVerify\<close> of the package jose) is the
  parameter \<open>jv\<close>: token, issuer and audience to an error message or the claims.  A query parameter is
  given once.  Optional fields of a body that no handler checks are read at their declared type.
\<close>

subsection \<open>Requests and replies\<close>

record Request =
  hr_verb :: string
  hr_path :: "string list"
  hr_url :: string
  hr_id :: string
  hr_query :: "string \<Rightarrow> string option"
  hr_authorization :: "string option"
  hr_body :: "json option"

datatype payload = P_attestation Attestation | P_inclusion InclusionResponse | P_status StatusRecord
  | P_checkpoint Checkpoint | P_consistency ConsistencyResponse | P_evidence Evidence
  | P_bundle VerifyBundle | P_health bool string string | P_empty

datatype reply = Sent nat payload | Problem_reply nat Problem

definition sendProblem :: "Request \<Rightarrow> ProblemCode \<Rightarrow> string \<Rightarrow> reply" where
  "sendProblem req code detail =
     Problem_reply (fst (CODE_META code)) (buildProblem code (Some detail) (Some (hr_url req)) (Some (hr_id req)))"

subsection \<open>Authentication\<close>

type_synonym jwt_verify = "string \<Rightarrow> string \<Rightarrow> string \<Rightarrow> string + json_object"

definition AUTH_ENABLED :: "Config \<Rightarrow> bool" where
  "AUTH_ENABLED cfg = (truthy_str (cf_jwksUrl cfg) \<and> truthy_str (cf_issuer cfg))"

definition TENANT_DID_RE :: "string \<Rightarrow> bool" where
  "TENANT_DID_RE = starts_with ''did:hara:tenant:''"

definition tenantDidFrom :: "json_object \<Rightarrow> string option" where
  "tenantDidFrom claims =
     (let candidates = [map_of claims ''tenant'', map_of claims ''did'', map_of claims ''sub''];
          ok = (\<lambda>c. case c of Some (JStr s) \<Rightarrow> TENANT_DID_RE s | _ \<Rightarrow> False)
      in case find ok candidates of Some (Some (JStr s)) \<Rightarrow> Some s | _ \<Rightarrow> None)"

record Identity =
  tenantDid :: string
  id_sub :: string

definition requireTenant :: "Config \<Rightarrow> jwt_verify \<Rightarrow> Request \<Rightarrow> reply + Identity" where
  "requireTenant cfg jv req =
     (if \<not> AUTH_ENABLED cfg
      then Inr \<lparr>tenantDid = ''did:hara:tenant:dev'', id_sub = ''did:hara:tenant:dev''\<rparr>
      else case hr_authorization req of
        None \<Rightarrow> Inl (sendProblem req Unauthenticated ''missing Bearer token'')
      | Some header \<Rightarrow>
          if \<not> starts_with ''Bearer '' header
          then Inl (sendProblem req Unauthenticated ''missing Bearer token'')
          else (case jv (js_trim (drop 7 header)) (the (cf_issuer cfg)) (cf_audience cfg) of
              Inl msg \<Rightarrow> Inl (sendProblem req Unauthenticated (''token verification failed: '' @ msg))
            | Inr claims \<Rightarrow> (case tenantDidFrom claims of
                None \<Rightarrow> Inl (sendProblem req Unauthenticated ''token carries no did:hara:tenant claim'')
              | Some tenant \<Rightarrow> if tenant = [] then Inl (sendProblem req Unauthenticated ''token carries no did:hara:tenant claim'')
                  else Inr \<lparr>tenantDid = tenant,
                    id_sub = (case map_of claims ''sub'' of None \<Rightarrow> tenant
                       | Some v \<Rightarrow> if v = JNull then tenant else js_String v)\<rparr>)))"

definition enforceTenant :: "string \<Rightarrow> string \<Rightarrow> fault option" where
  "enforceTenant tenant resourceTenantDid =
     (if tenant \<noteq> resourceTenantDid
      then Some (ProblemError Forbidden_tenant
        (Some (''token tenant '' @ tenant @ '' may not write for '' @ resourceTenantDid)))
      else None)"

subsection \<open>Attestations\<close>

definition DID_RE :: "string \<Rightarrow> bool" where "DID_RE = starts_with ''did:hara:''"

definition str_test :: "(string \<Rightarrow> bool) \<Rightarrow> json option \<Rightarrow> bool" where
  "str_test p v = (case v of Some (JStr s) \<Rightarrow> p s | _ \<Rightarrow> False)"

definition attestation_request :: "json option \<Rightarrow> AttestationRequest" where
  "attestation_request body = (let str = (\<lambda>k. the (as_str (body_prop body k))) in
     \<lparr>rq_subject = str ''subject'', rq_issuer = str ''issuer'', rq_recordType = str ''recordType'',
      rq_contentHash = str ''contentHash'', rq_hashAlg = as_str (body_prop body ''hashAlg''),
      rq_issuedAt = as_str (body_prop body ''issuedAt''), rq_vcProof = as_obj (body_prop body ''vcProof''),
      rq_links = as_obj (body_prop body ''links'')\<rparr>)"

definition check_attestation :: "json option \<Rightarrow> (ProblemCode \<times> string) option" where
  "check_attestation body =
     (if \<not> truthy_opt body \<or> \<not> str_test HASH_RE (body_prop body ''contentHash'')
      then Some (Invalid_hash, ''contentHash must be 32-byte 0x-prefixed hex'')
      else if \<not> str_test DID_RE (body_prop body ''subject'')
      then Some (Invalid_did, ''subject must be a did:hara identifier'')
      else if \<not> str_test DID_RE (body_prop body ''issuer'')
      then Some (Invalid_did, ''issuer must be a did:hara identifier'')
      else if \<not> str_test (\<lambda>s. s \<in> set RECORD_TYPES) (body_prop body ''recordType'')
      then Some (Invalid_request, ''recordType must be one of '' @ join '', '' RECORD_TYPES)
      else if body_prop body ''hashAlg'' \<noteq> None \<and> body_prop body ''hashAlg'' \<noteq> Some (JStr ''sha256'')
      then Some (Invalid_request, ''hashAlg must be sha256'')
      else None)"

definition post_attestations ::
  "(bytes \<Rightarrow> bytes) \<Rightarrow> 's Store \<Rightarrow> anchor_op \<Rightarrow> Request \<Rightarrow> string \<Rightarrow> ('s LedgerState, reply) op" where
  "post_attestations H S A req tenant = (let body = hr_body req in
     case check_attestation body of Some (code, detail) \<Rightarrow> ret (sendProblem req code detail)
     | None \<Rightarrow> (case enforceTenant tenant (rq_issuer (attestation_request body)) of
         Some e \<Rightarrow> throw e
       | None \<Rightarrow> bindS (anchorAttestation H S A (attestation_request body) tenant) (\<lambda>(attestation, alreadyAnchored).
           ret (Sent (if alreadyAnchored then 200 else 201) (P_attestation attestation)))))"

definition get_attestation ::
  "(bytes \<Rightarrow> bytes) \<Rightarrow> 's Store \<Rightarrow> anchor_op \<Rightarrow> string \<Rightarrow> ('s LedgerState, reply) op" where
  "get_attestation H S A registryId =
     bindS (getAttestation H S A registryId) (\<lambda>a. ret (Sent 200 (P_attestation a)))"

text \<open>A query parameter that must be a positive integer.\<close>

definition positive_integer :: "string option \<Rightarrow> int option" where
  "positive_integer q = (case Option.bind q js_Number of None \<Rightarrow> None
     | Some n \<Rightarrow> if n < 1 then None else Some n)"

definition get_proof ::
  "(bytes \<Rightarrow> bytes) \<Rightarrow> 's Store \<Rightarrow> anchor_op \<Rightarrow> Request \<Rightarrow> string \<Rightarrow> ('s LedgerState, reply) op" where
  "get_proof H S A req registryId =
     (if hr_query req ''tree_size'' \<noteq> None \<and> positive_integer (hr_query req ''tree_size'') = None
      then ret (sendProblem req Invalid_request ''tree_size must be a positive integer'')
      else bindS (getInclusion H S A registryId (positive_integer (hr_query req ''tree_size'')))
        (\<lambda>r. ret (Sent 200 (P_inclusion r))))"

definition get_status ::
  "(bytes \<Rightarrow> bytes) \<Rightarrow> 's Store \<Rightarrow> anchor_op \<Rightarrow> string \<Rightarrow> ('s LedgerState, reply) op" where
  "get_status H S A registryId =
     bindS (getStatusRecord H S A registryId) (\<lambda>r. ret (Sent 200 (P_status r)))"

definition nonempty_str :: "json option \<Rightarrow> bool" where
  "nonempty_str = str_test (\<lambda>s. s \<noteq> [])"

definition post_revoke ::
  "(bytes \<Rightarrow> bytes) \<Rightarrow> 's Store \<Rightarrow> anchor_op \<Rightarrow> Request \<Rightarrow> string \<Rightarrow> string \<Rightarrow> ('s LedgerState, reply) op" where
  "post_revoke H S A req registryId tenant =
     (let body = hr_body req; action = body_prop body ''action'' in
      if action \<noteq> Some (JStr ''revoke'') \<and> action \<noteq> Some (JStr ''supersede'')
      then ret (sendProblem req Invalid_request ''action must be revoke or supersede'')
      else if \<not> nonempty_str (body_prop body ''reason'')
      then ret (sendProblem req Invalid_request ''reason is required'')
      else if action = Some (JStr ''supersede'') \<and> \<not> nonempty_str (body_prop body ''supersededBy'')
      then ret (sendProblem req Invalid_request ''supersededBy is required when action is supersede'')
      else bindS (setStatus H S A registryId (if action = Some (JStr ''revoke'') then Revoke else Supersede)
          (the (as_str (body_prop body ''reason''))) (as_str (body_prop body ''supersededBy'')) tenant)
        (\<lambda>r. ret (Sent 200 (P_status r))))"

subsection \<open>Checkpoints\<close>

definition post_anchors ::
  "'s Store \<Rightarrow> anchor_op \<Rightarrow> Request \<Rightarrow> ('s LedgerState, reply) op" where
  "post_anchors S A req = (let body = hr_body req in
     if \<not> truthy_opt body \<or> \<not> nonempty_str (body_prop body ''log_id'')
     then ret (sendProblem req Invalid_request ''log_id is required'')
     else if \<not> str_test HASH_RE (body_prop body ''root_hash'')
     then ret (sendProblem req Invalid_hash ''root_hash must be 32-byte 0x-prefixed hex'')
     else (case as_int (body_prop body ''tree_size'') of
         None \<Rightarrow> ret (sendProblem req Invalid_request ''tree_size must be a positive integer'')
       | Some n \<Rightarrow> if n < 1 then ret (sendProblem req Invalid_request ''tree_size must be a positive integer'')
         else bindS (submitCheckpoint S A (the (as_str (body_prop body ''log_id''))) n
             (the (as_str (body_prop body ''root_hash''))))
           (\<lambda>c. ret (Sent 201 (P_checkpoint c)))))"

definition get_consistency ::
  "(bytes \<Rightarrow> bytes) \<Rightarrow> 's Store \<Rightarrow> anchor_op \<Rightarrow> Request \<Rightarrow> ('s LedgerState, reply) op" where
  "get_consistency H S A req =
     (if \<not> truthy_str (hr_query req ''log_id'') then ret (sendProblem req Invalid_request ''log_id is required'')
      else case (positive_integer (hr_query req ''from''), positive_integer (hr_query req ''to'')) of
        (Some m, Some n) \<Rightarrow> bindS (getConsistency H S A (the (hr_query req ''log_id'')) m n)
           (\<lambda>r. ret (Sent 200 (P_consistency r)))
      | _ \<Rightarrow> ret (sendProblem req Invalid_request ''from/to must be positive integers''))"

subsection \<open>Evidence\<close>

definition retention_prop :: "json option \<Rightarrow> string \<Rightarrow> json option" where
  "retention_prop body k = body_prop (body_prop body ''retention'') k"

text \<open>No handler checks the type of the legal hold of a new record; the code keeps the value, the model its truth
  value, which is all the retention checks look at (the leaf of the code shows the value as text).\<close>

definition hold_of :: "json option \<Rightarrow> bool option" where
  "hold_of v = (case v of None \<Rightarrow> None | Some j \<Rightarrow> if j = JNull then None else Some (truthy j))"

definition evidence_request :: "json option \<Rightarrow> EvidenceRequest" where
  "evidence_request body =
     \<lparr>er_contentHash = the (as_str (body_prop body ''contentHash'')), er_hashAlg = as_str (body_prop body ''hashAlg''),
      er_until = the (as_str (retention_prop body ''until'')), er_basis = the (as_str (retention_prop body ''basis'')),
      er_legalHold = hold_of (retention_prop body ''legalHold''), er_links = as_obj (body_prop body ''links'')\<rparr>"

definition post_evidence ::
  "(bytes \<Rightarrow> bytes) \<Rightarrow> 's Store \<Rightarrow> anchor_op \<Rightarrow> Request \<Rightarrow> string \<Rightarrow> ('s LedgerState, reply) op" where
  "post_evidence H S A req tenant = (let body = hr_body req in
     if \<not> truthy_opt body \<or> \<not> str_test HASH_RE (body_prop body ''contentHash'')
     then ret (sendProblem req Invalid_hash ''contentHash must be 32-byte 0x-prefixed hex'')
     else if \<not> truthy_opt (body_prop body ''retention'') \<or> \<not> str_test DATE_RE (retention_prop body ''until'')
     then ret (sendProblem req Invalid_request ''retention.until must be YYYY-MM-DD'')
     else if \<not> nonempty_str (retention_prop body ''basis'')
     then ret (sendProblem req Invalid_request ''retention.basis is required'')
     else bindS (registerEvidence H S A (evidence_request body) tenant) (\<lambda>(evidence, alreadyRegistered).
       ret (Sent (if alreadyRegistered then 200 else 201) (P_evidence evidence))))"

definition get_evidence ::
  "(bytes \<Rightarrow> bytes) \<Rightarrow> 's Store \<Rightarrow> anchor_op \<Rightarrow> string \<Rightarrow> ('s LedgerState, reply) op" where
  "get_evidence H S A evidenceId =
     bindS (getEvidence H S A evidenceId) (\<lambda>e. ret (Sent 200 (P_evidence e)))"

text \<open>\<open>DATE_RE.test\<close> converts its argument to text first, so null and other values are tested too.\<close>

definition patch_evidence ::
  "(bytes \<Rightarrow> bytes) \<Rightarrow> 's Store \<Rightarrow> anchor_op \<Rightarrow> Request \<Rightarrow> string \<Rightarrow> string \<Rightarrow> ('s LedgerState, reply) op" where
  "patch_evidence H S A req evidenceId tenant =
     (let body = hr_body req; hold = body_prop body ''legalHold''; ext = body_prop body ''extendUntil'' in
      if hold \<noteq> None \<and> as_bool hold = None
      then ret (sendProblem req Invalid_request ''legalHold must be a boolean'')
      else if ext \<noteq> None \<and> \<not> DATE_RE (js_String (the ext))
      then ret (sendProblem req Invalid_request ''extendUntil must be YYYY-MM-DD'')
      else if hold = None \<and> ext = None
      then ret (sendProblem req Invalid_request ''provide legalHold and/or extendUntil'')
      else bindS (updateRetention H S A evidenceId (as_bool hold) (map_option js_String ext) tenant)
        (\<lambda>e. ret (Sent 200 (P_evidence e))))"

definition delete_evidence ::
  "(bytes \<Rightarrow> bytes) \<Rightarrow> 's Store \<Rightarrow> anchor_op \<Rightarrow> string \<Rightarrow> string \<Rightarrow> ('s LedgerState, reply) op" where
  "delete_evidence H S A evidenceId tenant =
     bindS (deleteEvidence H S A evidenceId tenant) (\<lambda>_. ret (Sent 204 P_empty))"

subsection \<open>Bundle and health\<close>

definition get_verify ::
  "(bytes \<Rightarrow> bytes) \<Rightarrow> 's Store \<Rightarrow> anchor_op \<Rightarrow> Request \<Rightarrow> ('s LedgerState, reply) op" where
  "get_verify H S A req = (case hr_query req ''subject'' of
     None \<Rightarrow> ret (sendProblem req Invalid_did ''subject must be a did:hara identifier'')
   | Some subject \<Rightarrow> if subject = [] \<or> \<not> DID_RE subject
       then ret (sendProblem req Invalid_did ''subject must be a did:hara identifier'')
       else bindS (verifyBundle H S A subject) (\<lambda>b. ret (Sent 200 (P_bundle b))))"

definition get_healthz :: "AnchorService \<Rightarrow> ('s LedgerState, reply) op" where
  "get_healthz sv = bindS newDate (\<lambda>t. ret (Sent 200 (P_health (writesEnabled sv) (sv_pqKeyHashHex sv) (toISOString t))))"

subsection \<open>The server\<close>

datatype route = R_healthz | R_post_attestations | R_attestation string | R_proof string | R_status string
  | R_revoke string | R_post_anchors | R_consistency | R_post_evidence | R_evidence string
  | R_patch_evidence string | R_delete_evidence string | R_verify | R_none

definition route_of :: "string \<Rightarrow> string list \<Rightarrow> route" where
  "route_of verb segs =
     (if segs = [''healthz''] then (if verb = ''GET'' then R_healthz else R_none)
      else case segs of v # rest \<Rightarrow> if v \<noteq> ''v1'' then R_none
        else (case rest of
          [a] \<Rightarrow> if a = ''attestations'' \<and> verb = ''POST'' then R_post_attestations
                 else if a = ''anchors'' \<and> verb = ''POST'' then R_post_anchors
                 else if a = ''evidence'' \<and> verb = ''POST'' then R_post_evidence
                 else if a = ''verify'' \<and> verb = ''GET'' then R_verify else R_none
        | [a, i] \<Rightarrow> if a = ''attestations'' \<and> verb = ''GET'' then R_attestation i
                 else if a = ''anchors'' \<and> i = ''consistency'' \<and> verb = ''GET'' then R_consistency
                 else if a = ''evidence'' \<and> verb = ''GET'' then R_evidence i
                 else if a = ''evidence'' \<and> verb = ''PATCH'' then R_patch_evidence i
                 else if a = ''evidence'' \<and> verb = ''DELETE'' then R_delete_evidence i else R_none
        | [a, i, b] \<Rightarrow> if a = ''attestations'' \<and> b = ''proof'' \<and> verb = ''GET'' then R_proof i
                 else if a = ''attestations'' \<and> b = ''status'' \<and> verb = ''GET'' then R_status i
                 else if a = ''attestations'' \<and> b = ''revoke'' \<and> verb = ''POST'' then R_revoke i else R_none
        | _ \<Rightarrow> R_none)
      | [] \<Rightarrow> R_none)"

definition with_tenant ::
  "Config \<Rightarrow> jwt_verify \<Rightarrow> Request \<Rightarrow> (string \<Rightarrow> ('s LedgerState, reply) op) \<Rightarrow> ('s LedgerState, reply) op" where
  "with_tenant cfg jv req h = (case requireTenant cfg jv req of Inl r \<Rightarrow> ret r | Inr i \<Rightarrow> h (tenantDid i))"

definition handle ::
  "(bytes \<Rightarrow> bytes) \<Rightarrow> 's Store \<Rightarrow> anchor_op \<Rightarrow> AnchorService \<Rightarrow> jwt_verify \<Rightarrow> Request \<Rightarrow> ('s LedgerState, reply) op" where
  "handle H S A sv jv req = (let auth = with_tenant (sv_config sv) jv req in
     case route_of (hr_verb req) (hr_path req) of
       R_healthz \<Rightarrow> get_healthz sv
     | R_post_attestations \<Rightarrow> auth (post_attestations H S A req)
     | R_attestation i \<Rightarrow> get_attestation H S A i
     | R_proof i \<Rightarrow> get_proof H S A req i
     | R_status i \<Rightarrow> get_status H S A i
     | R_revoke i \<Rightarrow> auth (post_revoke H S A req i)
     | R_post_anchors \<Rightarrow> auth (\<lambda>_. post_anchors S A req)
     | R_consistency \<Rightarrow> get_consistency H S A req
     | R_post_evidence \<Rightarrow> auth (post_evidence H S A req)
     | R_evidence i \<Rightarrow> get_evidence H S A i
     | R_patch_evidence i \<Rightarrow> auth (patch_evidence H S A req i)
     | R_delete_evidence i \<Rightarrow> auth (delete_evidence H S A i)
     | R_verify \<Rightarrow> get_verify H S A req
     | R_none \<Rightarrow> ret (case notFoundHandler (hr_verb req) (hr_url req) (Some (hr_id req)) of (c, p) \<Rightarrow> Problem_reply c p))"

text \<open>A handler that throws is answered by the error handler.\<close>

definition serve ::
  "(bytes \<Rightarrow> bytes) \<Rightarrow> 's Store \<Rightarrow> anchor_op \<Rightarrow> AnchorService \<Rightarrow> jwt_verify \<Rightarrow> Request \<Rightarrow> 's LedgerState
     \<Rightarrow> reply \<times> 's LedgerState" where
  "serve H S A sv jv req s = (case handle H S A sv jv req s of
     (Inr r, s') \<Rightarrow> (r, s')
   | (Inl e, s') \<Rightarrow> (case errorHandler (Some (hr_url req)) (Some (hr_id req)) (Thrown e) of
       (c, p) \<Rightarrow> (Problem_reply c p, s')))"

end
