(* ===== verification/RouteClaims.thy ===== *)
theory RouteClaims
  imports Routes LedgerLive
begin

text \<open>
  What the HTTP surface guarantees: every request is at most one call of the ledger service, writes
  need a token of a tenant, and an accepted attestation can be fetched and verified.
\<close>

subsection \<open>Requests as ledger steps\<close>

text \<open>A request may also only read the clock or other inputs from outside.\<close>

definition served_step ::
  "(bytes \<Rightarrow> bytes) \<Rightarrow> 's Store \<Rightarrow> anchor_op \<Rightarrow> 's LedgerState \<Rightarrow> 's LedgerState \<Rightarrow> bool" where
  "served_step H S A s s' \<longleftrightarrow> ledger_step H S A s s' \<or> (\<exists>w. s' = s\<lparr>ls_world := w\<rparr>)"

lemma snd_bindS_ret: "snd (bindS m (\<lambda>x. ret (f x)) s) = snd (m s)"
  by (simp add: bindS_def split: prod.splits sum.splits)

lemma snd_bindS_ret2: "snd (bindS m (\<lambda>(x, y). ret (f x y)) s) = snd (m s)"
  by (simp add: bindS_def split: prod.splits sum.splits)

lemma served_refl [simp]: "served_step H S A s s"
  unfolding served_step_def by (intro disjI2 exI[of _ "ls_world s"]) simp

lemma served_ledger: "ledger_step H S A s s' \<Longrightarrow> served_step H S A s s'"
  by (simp add: served_step_def)

lemma wpE: "wp m P s \<Longrightarrow> (\<And>r s'. m s = (r, s') \<Longrightarrow> P r s' \<Longrightarrow> Q) \<Longrightarrow> Q"
  by (auto simp: wp_def split: prod.splits)

lemma str_test_Some: "str_test p v \<Longrightarrow> \<exists>s. v = Some (JStr s) \<and> p s"
  by (simp add: str_test_def split: option.splits json.splits)

lemma as_str_JStr [simp]: "as_str (Some (JStr x)) = Some x"
  by (simp add: as_str_def)

lemma check_attestation_None:
  assumes "check_attestation b = None"
  shows "HASH_RE (rq_contentHash (attestation_request b))" "DID_RE (rq_subject (attestation_request b))"
    "DID_RE (rq_issuer (attestation_request b))" "rq_recordType (attestation_request b) \<in> set RECORD_TYPES"
  using assms
  by (auto simp: check_attestation_def attestation_request_def Let_def split: if_splits dest!: str_test_Some)

lemmas handler_defs = post_attestations_def get_attestation_def get_proof_def get_status_def post_revoke_def
  post_anchors_def get_consistency_def post_evidence_def get_evidence_def patch_evidence_def delete_evidence_def
  get_verify_def get_healthz_def

lemmas served_call [intro] =
  served_ledger[OF ledger_step.get[OF prod.collapse[symmetric]]]
  served_ledger[OF ledger_step.inclusion[OF prod.collapse[symmetric]]]
  served_ledger[OF ledger_step.status[OF prod.collapse[symmetric]]]
  served_ledger[OF ledger_step.set_status[OF prod.collapse[symmetric]]]
  served_ledger[OF ledger_step.checkpoint[OF prod.collapse[symmetric]]]
  served_ledger[OF ledger_step.consistency[OF prod.collapse[symmetric]]]
  served_ledger[OF ledger_step.evidence[OF prod.collapse[symmetric]]]
  served_ledger[OF ledger_step.retention[OF prod.collapse[symmetric]]]
  served_ledger[OF ledger_step.delete[OF prod.collapse[symmetric]]]
  served_ledger[OF ledger_step.verify_bundle[OF prod.collapse[symmetric]]]

lemma served_post_attestations:
  assumes "getAttestationById S (ls_store s) (''reg:att:'' @ hex_of (shd (wd_rand (ls_world s)))) = Inr None"
  shows "served_step H S A s (snd (post_attestations H S A req t s))"
proof (cases "check_attestation (hr_body req)")
  case None
  from served_ledger[OF ledger_step.anchor[OF check_attestation_None(1)[OF None] assms prod.collapse[symmetric]]]
  show ?thesis by (simp add: post_attestations_def None Let_def snd_bindS_ret2 split: option.splits)
qed (auto simp: post_attestations_def)

lemma served_post_evidence:
  assumes "getEvidenceById S (ls_store s) (''ev:'' @ hex_of (shd (wd_rand (ls_world s)))) = Inr None"
  shows "served_step H S A s (snd (post_evidence H S A req t s))"
proof (cases "str_test HASH_RE (body_prop (hr_body req) ''contentHash'')")
  case True
  then have "HASH_RE (er_contentHash (evidence_request (hr_body req)))"
    by (auto simp: evidence_request_def dest!: str_test_Some)
  from served_ledger[OF ledger_step.register[OF this assms prod.collapse[symmetric]]]
  show ?thesis by (simp add: post_evidence_def Let_def snd_bindS_ret2)
qed (simp add: post_evidence_def Let_def)

lemma served_others:
  "served_step H S A s (snd (get_attestation H S A i s))" "served_step H S A s (snd (get_proof H S A req i s))"
  "served_step H S A s (snd (get_status H S A i s))" "served_step H S A s (snd (post_revoke H S A req i t s))"
  "served_step H S A s (snd (post_anchors S A req s))" "served_step H S A s (snd (get_consistency H S A req s))"
  "served_step H S A s (snd (get_evidence H S A i s))" "served_step H S A s (snd (patch_evidence H S A req i t s))"
  "served_step H S A s (snd (delete_evidence H S A i t s))" "served_step H S A s (snd (get_verify H S A req s))"
  by (auto simp: handler_defs Let_def snd_bindS_ret split: option.splits)

lemma served_healthz: "served_step H S A s (snd (get_healthz sv s))"
  unfolding get_healthz_def snd_bindS_ret
  by (auto simp: served_step_def newDate_def inWorld_def split: prod.splits)

lemma served_with_tenant:
  "(\<And>t. served_step H S A s (snd (h t s))) \<Longrightarrow> served_step H S A s (snd (with_tenant cfg jv req h s))"
  by (simp add: with_tenant_def split: sum.splits)

subsection \<open>Writes\<close>

fun is_write :: "route \<Rightarrow> bool" where
  "is_write R_post_attestations = True"
| "is_write (R_revoke i) = True"
| "is_write R_post_anchors = True"
| "is_write R_post_evidence = True"
| "is_write (R_patch_evidence i) = True"
| "is_write (R_delete_evidence i) = True"
| "is_write _ = False"

subsection \<open>Which call a route makes\<close>

text \<open>Reading never writes to the store.\<close>

definition keeps_store :: "('s LedgerState, 'a) op \<Rightarrow> bool" where
  "keeps_store m \<longleftrightarrow> (\<forall>s. ls_store (snd (m s)) = ls_store s)"

lemma keeps_store_bindS: "keeps_store m \<Longrightarrow> (\<And>x. keeps_store (f x)) \<Longrightarrow> keeps_store (bindS m f)"
  unfolding keeps_store_def bindS_def by (auto split: prod.splits sum.splits) (metis snd_conv)+

lemma keeps_store_basic:
  "keeps_store (ret x)" "keeps_store (throw e)" "keeps_store (liftJ j)" "keeps_store (problem c d)" "keeps_store (storeRead g)"
  "keeps_store (inWorld w)" "keeps_store (setLog l lg)" "keeps_store newDate"
  by (auto simp: keeps_store_def liftJ_def problem_def throw_def storeRead_def inWorld_def setLog_def newDate_def ret_def
      split: sum.splits prod.splits)

lemma keeps_store_if: "keeps_store m \<Longrightarrow> keeps_store n \<Longrightarrow> keeps_store (if c then m else n)"
  "keeps_store m \<Longrightarrow> (\<And>x. keeps_store (f x)) \<Longrightarrow> keeps_store (case v of None \<Rightarrow> m | Some x \<Rightarrow> f x)"
  by (simp_all split: option.split)

lemma keeps_store_mapS: "(\<And>x. keeps_store (f x)) \<Longrightarrow> keeps_store (mapS f xs)"
  by (induction xs) (auto intro!: keeps_store_bindS keeps_store_basic)

lemma keeps_store_getLog: "keeps_store (getLog S l)"
proof -
  have "keeps_store (bindS (storeRead (\<lambda>st. getLeaves S st l)) (\<lambda>leaves. bindS (liftJ (mapE fromHex leaves)) (\<lambda>ls.
      let lg = newTransparencyLog l ls in bindS (setLog l lg) (\<lambda>_. ret lg))))"
    unfolding Let_def by (intro keeps_store_bindS keeps_store_basic)
  then show ?thesis by (auto simp: keeps_store_def getLog_def split: option.splits)
qed

lemmas keeps_store_intros = keeps_store_bindS keeps_store_basic keeps_store_if keeps_store_mapS keeps_store_getLog

lemma keeps_store_reads:
  "keeps_store (getAttestation H S A i)" "keeps_store (getInclusion H S A i n)" "keeps_store (getStatusRecord H S A i)"
  "keeps_store (getConsistency H S A l a b)" "keeps_store (getEvidence H S A i)" "keeps_store (verifyBundle H S A q)"
  unfolding getAttestation_def getInclusion_def getStatusRecord_def getConsistency_def getEvidence_def verifyBundle_def
    attestation_or_404_def evidence_or_404_def buildAttestationDto_def buildEvidenceDto_def bundle_attestation_def
    bundle_checkpoint_def toRetention_def Let_def
  by (intro keeps_store_intros)+

text \<open>A call is carried out when its outcome is the state and decides the kind of answer.\<close>

definition carried_out :: "('s LedgerState, 'a) op \<Rightarrow> 's LedgerState \<Rightarrow> reply \<Rightarrow> 's LedgerState \<Rightarrow> bool" where
  "carried_out m s r s' \<longleftrightarrow> (\<exists>x c p. m s = (Inr x, s') \<and> r = Sent c p) \<or> (\<exists>e c p. m s = (Inl e, s') \<and> r = Problem_reply c p)"

text \<open>The one call a route that writes may make for the tenant \<open>t\<close>, with the arguments it takes from path and body.\<close>

definition write_call ::
  "(bytes \<Rightarrow> bytes) \<Rightarrow> 's Store \<Rightarrow> anchor_op \<Rightarrow> string \<Rightarrow> json option \<Rightarrow> route \<Rightarrow> 's LedgerState \<Rightarrow> reply \<Rightarrow> 's LedgerState \<Rightarrow> bool" where
  "write_call H S A t b rt s r s' \<longleftrightarrow> (case rt of
     R_post_attestations \<Rightarrow> check_attestation b = None \<and> rq_issuer (attestation_request b) = t
       \<and> carried_out (anchorAttestation H S A (attestation_request b) t) s r s'
   | R_revoke i \<Rightarrow> (\<exists>action reason. body_prop b ''action'' = Some (JStr (case action of Revoke \<Rightarrow> ''revoke'' | Supersede \<Rightarrow> ''supersede''))
       \<and> body_prop b ''reason'' = Some (JStr reason) \<and> reason \<noteq> []
       \<and> carried_out (setStatus H S A i action reason (as_str (body_prop b ''supersededBy'')) t) s r s')
   | R_post_anchors \<Rightarrow> (\<exists>l n root. body_prop b ''log_id'' = Some (JStr l) \<and> as_int (body_prop b ''tree_size'') = Some n \<and> 1 \<le> n
       \<and> body_prop b ''root_hash'' = Some (JStr root) \<and> HASH_RE root \<and> carried_out (submitCheckpoint S A l n root) s r s')
   | R_post_evidence \<Rightarrow> HASH_RE (er_contentHash (evidence_request b))
       \<and> carried_out (registerEvidence H S A (evidence_request b) t) s r s'
   | R_patch_evidence i \<Rightarrow> carried_out (updateRetention H S A i (as_bool (body_prop b ''legalHold''))
         (map_option js_String (body_prop b ''extendUntil'')) t) s r s'
   | R_delete_evidence i \<Rightarrow> carried_out (deleteEvidence H S A i t) s r s'
   | _ \<Rightarrow> False)"

definition refused :: "'s LedgerState \<Rightarrow> reply \<Rightarrow> 's LedgerState \<Rightarrow> bool" where
  "refused s r s' \<longleftrightarrow> s' = s \<and> (\<exists>c p. r = Problem_reply c p)"

lemma sendProblem_reply: "\<exists>c p. sendProblem req code d = Problem_reply c p"
  by (simp add: sendProblem_def)

text \<open>How the server answers what a handler gives.\<close>

definition answer_of :: "Request \<Rightarrow> (fault + reply) \<times> 's LedgerState \<Rightarrow> reply \<times> 's LedgerState" where
  "answer_of req out = (case out of (Inr r, s') \<Rightarrow> (r, s')
     | (Inl e, s') \<Rightarrow> (case errorHandler (Some (hr_url req)) (Some (hr_id req)) (Thrown e) of (c, p) \<Rightarrow> (Problem_reply c p, s')))"

lemma serve_answer: "serve H S A sv jv req s = answer_of req (handle H S A sv jv req s)"
  by (simp add: serve_def answer_of_def)

lemma answer_call:
  assumes "answer_of req (bindS m (\<lambda>x. ret (Sent (c x) (p x))) s) = (r, s')"
  shows "carried_out m s r s'"
proof (cases "m s")
  case (Pair q t)
  with assms show ?thesis by (cases q) (auto simp: answer_of_def bindS_apply carried_out_def split: prod.splits)
qed

lemma answer_call2: "answer_of req (bindS m (\<lambda>(x, y). ret (Sent (c x y) (p x y))) s) = (r, s') \<Longrightarrow> carried_out m s r s'"
  by (rule answer_call[of req m "\<lambda>z. c (fst z) (snd z)" "\<lambda>z. p (fst z) (snd z)"]) (simp add: case_prod_unfold)

lemma answer_refused:
  "answer_of req (Inr (sendProblem req code d), s) = (r, s') \<Longrightarrow> refused s r s'"
  "answer_of req (Inl e, s) = (r, s') \<Longrightarrow> refused s r s'"
  using sendProblem_reply[of req code d] by (auto simp: answer_of_def refused_def split: prod.splits)

lemmas answered_calls = answer_call answer_call2

lemma write_post_attestations:
  "answer_of req (post_attestations H S A req t s) = (r, s')
    \<Longrightarrow> refused s r s' \<or> write_call H S A t (hr_body req) R_post_attestations s r s'"
  by (auto simp: post_attestations_def Let_def write_call_def enforceTenant_def
      split: option.splits if_splits dest: answer_refused answered_calls)

lemma write_post_revoke:
  "answer_of req (post_revoke H S A req i t s) = (r, s') \<Longrightarrow> refused s r s' \<or> write_call H S A t (hr_body req) (R_revoke i) s r s'"
  by (auto simp: post_revoke_def Let_def write_call_def nonempty_str_def
      split: if_splits dest: answer_refused answered_calls dest!: str_test_Some
      intro: exI[of _ Revoke] exI[of _ Supersede])

lemma write_post_anchors:
  "answer_of req (post_anchors S A req s) = (r, s') \<Longrightarrow> refused s r s' \<or> write_call H S A t (hr_body req) R_post_anchors s r s'"
  by (auto simp: post_anchors_def Let_def write_call_def nonempty_str_def
      split: if_splits option.splits dest: answer_refused answered_calls dest!: str_test_Some)

lemma write_post_evidence:
  "answer_of req (post_evidence H S A req t s) = (r, s') \<Longrightarrow> refused s r s' \<or> write_call H S A t (hr_body req) R_post_evidence s r s'"
  by (auto simp: post_evidence_def Let_def write_call_def evidence_request_def
      split: if_splits option.splits dest: answer_refused answered_calls dest!: str_test_Some)

lemma write_patch_evidence:
  "answer_of req (patch_evidence H S A req i t s) = (r, s') \<Longrightarrow> refused s r s' \<or> write_call H S A t (hr_body req) (R_patch_evidence i) s r s'"
  by (auto simp: patch_evidence_def Let_def write_call_def split: if_splits option.splits dest: answer_refused answered_calls)

lemma write_delete_evidence:
  "answer_of req (delete_evidence H S A i t s) = (r, s') \<Longrightarrow> refused s r s' \<or> write_call H S A t (hr_body req) (R_delete_evidence i) s r s'"
  by (auto simp: delete_evidence_def write_call_def dest: answered_calls)

lemmas write_handlers = write_post_attestations write_post_revoke write_post_anchors write_post_evidence write_patch_evidence
  write_delete_evidence

lemma requireTenant_refusal: "requireTenant cfg jv req = Inl x \<Longrightarrow> \<exists>c p. x = Problem_reply c p"
  using sendProblem_reply by (fastforce simp: requireTenant_def split: if_splits option.splits sum.splits)

lemma answer_with_tenant:
  assumes "answer_of req (with_tenant cfg jv req h s) = (r, s')"
    and "\<And>t. answer_of req (h t s) = (r, s') \<Longrightarrow> refused s r s' \<or> write_call H S A t b rt s r s'"
  shows "refused s r s' \<or> (\<exists>who. requireTenant cfg jv req = Inr who \<and> write_call H S A (tenantDid who) b rt s r s')"
  using assms requireTenant_refusal[of cfg jv req]
  by (cases "requireTenant cfg jv req") (auto simp: with_tenant_def answer_of_def refused_def)

text \<open>C20: The HTTP surface is its ledger calls.  Over any store and any anchoring, whatever the request (verb, path, headers, query,
  body): a request that is no write leaves the store alone.  A write is refused with a problem and changes nothing, or
  the tenant was established from the token and exactly the call of its route was carried out, for this tenant and with the
  arguments of path and body, answered with a success or a problem as the call ended.  With unused next identifiers every request is
  one step of the ledger or leaves store and logs alone.\<close>

theorem serve_refines_ledger:
  assumes "serve H S A sv jv req s = (r, s')"
  shows "(\<not> is_write (route_of (hr_verb req) (hr_path req)) \<longrightarrow> ls_store s' = ls_store s)
    \<and> (is_write (route_of (hr_verb req) (hr_path req)) \<longrightarrow> (s' = s \<and> (\<exists>c p. r = Problem_reply c p))
         \<or> (\<exists>who. requireTenant (sv_config sv) jv req = Inr who
              \<and> write_call H S A (tenantDid who) (hr_body req) (route_of (hr_verb req) (hr_path req)) s r s'))
    \<and> (getAttestationById S (ls_store s) (''reg:att:'' @ hex_of (shd (wd_rand (ls_world s)))) = Inr None
        \<longrightarrow> getEvidenceById S (ls_store s) (''ev:'' @ hex_of (shd (wd_rand (ls_world s)))) = Inr None
        \<longrightarrow> ledger_step H S A s s' \<or> (ls_store s' = ls_store s \<and> ls_logs s' = ls_logs s))"
proof (intro conjI impI)
  have snd: "s' = snd (handle H S A sv jv req s)"
    using assms by (auto simp: serve_def split: prod.splits sum.splits)
  let ?rt = "route_of (hr_verb req) (hr_path req)"
  show "ls_store s' = ls_store s" if "\<not> is_write ?rt"
  proof -
    have "keeps_store (handle H S A sv jv req)"
      unfolding handle_def Let_def
      by (cases ?rt) (use that in \<open>auto simp: handler_defs intro!: keeps_store_intros keeps_store_reads split: option.split\<close>)
    then show ?thesis by (simp add: snd keeps_store_def)
  qed
  show "(s' = s \<and> (\<exists>c p. r = Problem_reply c p)) \<or> (\<exists>who. requireTenant (sv_config sv) jv req = Inr who
      \<and> write_call H S A (tenantDid who) (hr_body req) ?rt s r s')" if "is_write ?rt"
    using assms that unfolding serve_answer refused_def[symmetric]
    by (cases ?rt) (auto simp: handle_def Let_def elim!: answer_with_tenant dest: write_handlers)
  assume fresh: "getAttestationById S (ls_store s) (''reg:att:'' @ hex_of (shd (wd_rand (ls_world s)))) = Inr None"
    "getEvidenceById S (ls_store s) (''ev:'' @ hex_of (shd (wd_rand (ls_world s)))) = Inr None"
  have "served_step H S A s (snd (handle H S A sv jv req s))"
    by (auto simp: handle_def Let_def split: route.splits intro!: served_with_tenant served_others served_healthz
        served_post_attestations[OF fresh(1)] served_post_evidence[OF fresh(2)])
  then show "ledger_step H S A s s' \<or> (ls_store s' = ls_store s \<and> ls_logs s' = ls_logs s)"
    by (auto simp: served_step_def snd)
qed

definition toy_request :: Request where
  "toy_request = \<lparr>hr_verb = ''POST'', hr_path = [''v1'', ''attestations''], hr_url = ''/v1/attestations'', hr_id = ''1'',
     hr_query = (\<lambda>_. None), hr_authorization = None, hr_body = Some (JObj
       [(''contentHash'', JStr (''0x'' @ replicate 64 CHR ''a'')), (''subject'', JStr ''did:hara:x''),
        (''issuer'', JStr ''did:hara:tenant:dev''), (''recordType'', JStr ''assay'')])\<rparr>"

lemma dev_init_fresh:
  "mem_getAttestationById (ls_store dev_init) i = Inr None" "mem_getEvidenceById (ls_store dev_init) i = Inr None"
  by (simp_all add: mem_getAttestationById_def mem_getEvidenceById_def dev_init_def newLedgerService_def newMemoryStore_def)

theorem serve_refines_ledger_witness:
  "let s' = snd (serve pad32 memory_store dev_anchor dev_service (\<lambda>_ _ _. Inr []) toy_request dev_init) in
   s' = snd (anchorAttestation pad32 memory_store dev_anchor (attestation_request (hr_body toy_request)) ''did:hara:tenant:dev'' dev_init)
     \<or> s' = dev_init"
proof -
  obtain r s' where r: "serve pad32 memory_store dev_anchor dev_service (\<lambda>_ _ _. Inr []) toy_request dev_init = (r, s')" by fastforce
  have rt: "route_of (hr_verb toy_request) (hr_path toy_request) = R_post_attestations"
    by (simp add: toy_request_def route_of_def)
  have who: "requireTenant (sv_config dev_service) (\<lambda>_ _ _. Inr []) toy_request = Inr who \<Longrightarrow> tenantDid who = ''did:hara:tenant:dev''" for who
    by (auto simp: requireTenant_def AUTH_ENABLED_def dev_service_def unconfigured_def toy_config_def)
  from serve_refines_ledger[OF r] show ?thesis
    unfolding r Let_def snd_conv rt by (auto simp: write_call_def carried_out_def dest!: who)
qed

subsection \<open>Writes need a token\<close>

lemma requireTenant_enabled:
  assumes "AUTH_ENABLED cfg"
  shows "case requireTenant cfg jv req of
      Inl r \<Rightarrow> \<exists>p. r = Problem_reply 401 p \<and> pb_code p = Unauthenticated
    | Inr who \<Rightarrow> \<exists>hd claims. hr_authorization req = Some hd \<and> starts_with ''Bearer '' hd
        \<and> jv (js_trim (drop 7 hd)) (the (cf_issuer cfg)) (cf_audience cfg) = Inr claims
        \<and> Some (JStr (tenantDid who)) \<in> {map_of claims ''tenant'', map_of claims ''did'', map_of claims ''sub''}
        \<and> TENANT_DID_RE (tenantDid who)"
proof -
  have refused: "\<exists>p. sendProblem req Unauthenticated d = Problem_reply 401 p \<and> pb_code p = Unauthenticated" for d
    by (simp add: sendProblem_def buildProblem_def)
  have claim: "Some (JStr t) \<in> {map_of c ''tenant'', map_of c ''did'', map_of c ''sub''} \<and> TENANT_DID_RE t"
    if "tenantDidFrom c = Some t" for c t
    using that by (auto simp: tenantDidFrom_def Let_def split: option.splits json.splits if_splits)
  show ?thesis
    using assms refused claim
    by (auto simp: requireTenant_def split: option.splits sum.splits)
qed

text \<open>C27: No write without a tenant's token.  With authentication configured, a write request is answered
  401 and changes nothing, unless it carries a bearer token that verifies for the configured issuer and
  audience and whose claims name a tenant identifier.\<close>

theorem write_needs_token:
  assumes "AUTH_ENABLED (sv_config sv)" "is_write (route_of (hr_verb req) (hr_path req))"
    and "serve H S A sv jv req s = (r, s')"
  shows "(s' = s \<and> (\<exists>p. r = Problem_reply 401 p \<and> pb_code p = Unauthenticated))
    \<or> (\<exists>hd claims t. hr_authorization req = Some hd \<and> starts_with ''Bearer '' hd
        \<and> jv (js_trim (drop 7 hd)) (the (cf_issuer (sv_config sv))) (cf_audience (sv_config sv)) = Inr claims
        \<and> Some (JStr t) \<in> {map_of claims ''tenant'', map_of claims ''did'', map_of claims ''sub''} \<and> TENANT_DID_RE t)"
proof (cases "requireTenant (sv_config sv) jv req")
  case (Inl x)
  have "handle H S A sv jv req s = (Inr x, s)"
    using assms(2)
    by (cases "route_of (hr_verb req) (hr_path req)") (simp_all add: handle_def Let_def with_tenant_def Inl)
  with requireTenant_enabled[OF assms(1), where jv = jv and req = req] assms(3) Inl show ?thesis
    by (simp add: serve_def)
next
  case (Inr who)
  with requireTenant_enabled[OF assms(1), where jv = jv and req = req] show ?thesis by simp blast
qed

theorem write_needs_token_witness:
  "let sv = dev_service\<lparr>sv_config := toy_config\<lparr>cf_jwksUrl := Some ''j'', cf_issuer := Some ''i''\<rparr>\<rparr> in
   \<exists>p. serve pad32 memory_store dev_anchor sv (\<lambda>_ _ _. Inr []) toy_request dev_init = (Problem_reply 401 p, dev_init)"
proof -
  let ?sv = "dev_service\<lparr>sv_config := toy_config\<lparr>cf_jwksUrl := Some ''j'', cf_issuer := Some ''i''\<rparr>\<rparr>"
  obtain r s' where r: "serve pad32 memory_store dev_anchor ?sv (\<lambda>_ _ _. Inr []) toy_request dev_init = (r, s')" by fastforce
  have "AUTH_ENABLED (sv_config ?sv)" "is_write (route_of (hr_verb toy_request) (hr_path toy_request))"
    by (simp_all add: AUTH_ENABLED_def toy_request_def route_of_def)
  from write_needs_token[OF this r] r show ?thesis by (auto simp: toy_request_def)
qed

subsection \<open>From POST to GET\<close>

context live_ledger
begin

lemma anchor_then_get:
  assumes "inv s" "key_hash (to_lower (rq_contentHash req))"
    and "as_att (data s) (''reg:att:'' @ hex_of (shd (wd_rand (ls_world s)))) = None"
    and "length (the_leaves (data s) (tenantLogId tenant)) < 2 ^ 30"
  shows "wp (anchorAttestation H S A req tenant) (\<lambda>r s'. \<exists>d fl. r = Inr (d, fl)
    \<and> wp (getAttestation H S A (at_registry_id d)) (\<lambda>r s''. \<exists>d'. r = Inr d' \<and> at_registry_id d' = at_registry_id d
        \<and> at_log d' = at_log d
        \<and> verifyInclusion H (lr_leaf_hash (at_log d')) (at_inclusion_proof d') (sth_root_hash (at_sth d')) = Inr True) s') s"
  using wp_conj[OF live_anchorAttestation[OF assms] wp_anchorAttestation[OF assms(1-3), of tenant]]
proof (rule wp_mono, goal_cases)
  case (1 r s')
  then obtain d fl where r: "r = Inr (d, fl)" by auto
  let ?k = "Option.bind (as_attKey (data s) (tenant, to_lower (rq_contentHash req))) (as_att (data s))"
  have "\<exists>rec. inv s' \<and> as_att (data s') (at_registry_id d) = Some rec \<and> ar_registryId rec = at_registry_id d
      \<and> at_log d = \<lparr>lr_log_id = ar_logId rec, lr_leaf_index = ar_leafIndex rec, lr_leaf_hash = ar_leafHash rec\<rparr>
      \<and> length (the_leaves (data s') (ar_logId rec)) \<le> 2 ^ 30"
  proof (cases ?k)
    case (Some rec)
    with 1 r have "reads s s'" "att_dto (data s) rec d" by auto
    with content_record[OF invD(3)[OF assms(1)] Some] assms(4) show ?thesis
      by (auto simp: reads_def att_dto_def)
  next
    case None
    with 1 r have "inv s'" "anchored tenant req (data s) (data s') d" by auto
    then show ?thesis
      using assms(4)
      by (auto simp: anchored_def Let_def att_dto_def abs_appendStatus_def abs_putAttestation_def abs_appendLeaf_def
          the_leaves_def)
  qed
  then obtain rec where rec: "inv s'" "as_att (data s') (at_registry_id d) = Some rec" "ar_registryId rec = at_registry_id d"
      "at_log d = \<lparr>lr_log_id = ar_logId rec, lr_leaf_index = ar_leafIndex rec, lr_leaf_hash = ar_leafHash rec\<rparr>"
      "length (the_leaves (data s') (ar_logId rec)) \<le> 2 ^ 30" by blast
  have "att_ok H (data s') (at_registry_id d) rec" using invD(3)[OF rec(1)] rec(2) by (simp add: records_ok_def)
  then have lf: "leaf_at H (data s') (ar_logId rec) (ar_leafIndex rec) (ar_leafHash rec)" unfolding att_ok_def by blast
  have "wp (getAttestation H S A (at_registry_id d)) (\<lambda>r s''. \<exists>d'. r = Inr d' \<and> at_registry_id d' = at_registry_id d
        \<and> at_log d' = at_log d
        \<and> verifyInclusion H (lr_leaf_hash (at_log d')) (at_inclusion_proof d') (sth_root_hash (at_sth d')) = Inr True) s'"
    using wp_conj[OF live_getAttestation[OF rec(1,2,5)] wp_getAttestation[OF rec(1), of "at_registry_id d"]]
  proof (rule wp_mono, goal_cases)
    case (1 r' s'')
    then obtain d' where d': "r' = Inr d'" "att_dto (data s') rec d'" using rec(2) by auto
    with proof_for_verifies[OF _ _ lf, of "at_inclusion_proof d'" "at_sth d'"] rec show ?case
      by (auto simp: att_dto_def)
  qed
  with r show ?case by blast
qed

end

text \<open>C28: What is accepted can be fetched and verified.  For a service without anchoring keys, in a reachable
  state with an unused next identifier and room in the tenant's log: a POST of a well-formed
  attestation whose issuer is the authenticated tenant is answered 200 or 201, and a GET of the
  identifier in the answer is answered 200 with the same leaf and a proof that verifies.\<close>

theorem posted_attestation_is_served:
  assumes "digest32 H" "keyless sv" "reachable H cy sv s"
    and "mem_getAttestationById (ls_store s) (''reg:att:'' @ hex_of (shd (wd_rand (ls_world s)))) = Inr None"
    and "hr_verb req = ''POST''" "hr_path req = [''v1'', ''attestations'']"
    and "requireTenant (sv_config sv) jv req = Inr who" "check_attestation (hr_body req) = None"
    and "rq_issuer (attestation_request (hr_body req)) = tenantDid who"
    and "mem_getLeaves (ls_store s) (tenantLogId (tenantDid who)) = Inr leaves" "length leaves < 2 ^ 30"
  shows "\<exists>c a s' d s''. serve H memory_store (anchorSTH cy sv) sv jv req s = (Sent c (P_attestation a), s') \<and> c \<in> {200, 201}
    \<and> serve H memory_store (anchorSTH cy sv) sv jv
        (req\<lparr>hr_verb := ''GET'', hr_path := [''v1'', ''attestations'', at_registry_id a]\<rparr>) s' = (Sent 200 (P_attestation d), s'')
    \<and> at_registry_id d = at_registry_id a \<and> at_log d = at_log a
    \<and> verifyInclusion H (lr_leaf_hash (at_log d)) (at_inclusion_proof d) (sth_root_hash (at_sth d)) = Inr True"
proof -
  let ?A = "anchorSTH cy sv" and ?rq = "attestation_request (hr_body req)"
  have inv: "mem_inv H s" by (rule reachable_inv[OF assms(3)])
  have lv: "length (the_leaves (mem_abs (ls_store s)) (tenantLogId (tenantDid who))) < 2 ^ 30"
    using assms(10,11) by (simp add: mem_leaves_view the_leaves_def)
  have fresh: "as_att (mem_abs (ls_store s)) (''reg:att:'' @ hex_of (shd (wd_rand (ls_world s)))) = None"
    using mem_att_view[OF inv assms(4)] by simp
  from live_ledger.anchor_then_get[OF keyless_live[OF assms(1,2), of cy] inv HASH_RE_key[OF check_attestation_None(1)[OF assms(8)]] fresh lv]
  obtain a fl s' where a: "anchorAttestation H memory_store ?A ?rq (tenantDid who) s = (Inr (a, fl), s')"
    and w: "wp (getAttestation H memory_store ?A (at_registry_id a)) (\<lambda>r s''. \<exists>d. r = Inr d
        \<and> at_registry_id d = at_registry_id a \<and> at_log d = at_log a
        \<and> verifyInclusion H (lr_leaf_hash (at_log d)) (at_inclusion_proof d) (sth_root_hash (at_sth d)) = Inr True) s'"
    by (rule wpE) blast
  from w obtain d s'' where r:
    "getAttestation H memory_store ?A (at_registry_id a) s' = (Inr d, s'')"
    "at_registry_id d = at_registry_id a" "at_log d = at_log a"
    "verifyInclusion H (lr_leaf_hash (at_log d)) (at_inclusion_proof d) (sth_root_hash (at_sth d)) = Inr True"
    by (rule wpE) blast
  have p: "route_of ''POST'' [''v1'', ''attestations''] = R_post_attestations"
    and g: "route_of ''GET'' [''v1'', ''attestations'', i] = R_attestation i" for i
    by (simp_all add: route_of_def)
  have "serve H memory_store ?A sv jv req s = (Sent (if fl then 200 else 201) (P_attestation a), s')"
    using assms(8,9) a
    by (simp add: serve_def handle_def Let_def with_tenant_def assms(5-7) p post_attestations_def enforceTenant_def)
  moreover have "serve H memory_store ?A sv jv (req\<lparr>hr_verb := ''GET'', hr_path := [''v1'', ''attestations'', at_registry_id a]\<rparr>) s'
      = (Sent 200 (P_attestation d), s'')"
    using r(1) by (simp add: serve_def handle_def Let_def g get_attestation_def)
  moreover have "(if fl then 200 else 201) \<in> {200, 201::nat}" by simp
  ultimately show ?thesis using r(2-4) by blast
qed

theorem posted_attestation_is_served_witness:
  "\<exists>c a s' d s''. serve pad32 memory_store dev_anchor dev_service (\<lambda>_ _ _. Inr []) toy_request dev_init = (Sent c (P_attestation a), s')
    \<and> serve pad32 memory_store dev_anchor dev_service (\<lambda>_ _ _. Inr [])
        (toy_request\<lparr>hr_verb := ''GET'', hr_path := [''v1'', ''attestations'', at_registry_id a]\<rparr>) s' = (Sent 200 (P_attestation d), s'')"
proof -
  have who: "requireTenant (sv_config dev_service) (\<lambda>_ _ _. Inr []) toy_request
      = Inr \<lparr>tenantDid = ''did:hara:tenant:dev'', id_sub = ''did:hara:tenant:dev''\<rparr>"
    by (simp add: requireTenant_def AUTH_ENABLED_def dev_service_def unconfigured_def toy_config_def)
  have ok: "check_attestation (hr_body toy_request) = None"
    "rq_issuer (attestation_request (hr_body toy_request)) = ''did:hara:tenant:dev''"
    by (simp_all only: toy_request_def) code_simp+
  have lv: "mem_getLeaves (ls_store dev_init) l = Inr []" for l
    by (simp add: mem_leaves_view dev_init_def newLedgerService_def mem_abs_new)
  have rq: "hr_verb toy_request = ''POST''" "hr_path toy_request = [''v1'', ''attestations'']"
    "digest32 pad32" "length ([] :: string list) < 2 ^ 30"
    by (simp_all add: toy_request_def)
  have iss: "rq_issuer (attestation_request (hr_body toy_request))
      = tenantDid \<lparr>tenantDid = ''did:hara:tenant:dev'', id_sub = ''did:hara:tenant:dev''\<rparr>"
    by (simp add: ok(2))
  from posted_attestation_is_served[OF rq(3) dev_keyless dev_reachable dev_init_fresh(1) rq(1,2) who ok(1) iss lv rq(4)]
  show ?thesis by blast
qed

end
