(* ===== verification/PostgresStore.thy ===== *)
theory PostgresStore
  imports Store
begin

text \<open>
  The PostgreSQL store of the Registry Ledger (\<open>store/postgres.ts\<close>) over tables as lists of rows, with
  the constraints of the schema in that file's header.  What PostgreSQL and the driver do with a
  timestamp or a date is the parameter \<open>env\<close>: the text read back through the row mapper, or \<open>None\<close> when
  the server rejects the text.  A violated key or a rejected value is an error.  Statements run one
  after another; rows without an \<open>ORDER BY\<close> come in table order.
\<close>

subsection \<open>Tables\<close>

record PgEnv =
  pg_timestamp :: "string \<Rightarrow> string option"
  pg_date :: "string \<Rightarrow> string option"

type_synonym leaf_row = "string \<times> nat \<times> string"

record PgStore =
  t_attestation :: "AttestationRecord list"
  t_status :: "StatusEntry list"
  t_evidence :: "EvidenceRecord list"
  t_checkpoint :: "CheckpointRecord list"
  t_leaf :: "leaf_row list"

definition emptyPg :: PgStore where
  "emptyPg = \<lparr>t_attestation = [], t_status = [], t_evidence = [], t_checkpoint = [], t_leaf = []\<rparr>"

definition query_error :: "'a js" where "query_error = Inl (PlainError ''query failed'')"

subsection \<open>Row mappers\<close>

definition rowToAttestation :: "PgEnv \<Rightarrow> AttestationRecord \<Rightarrow> AttestationRecord" where
  "rowToAttestation env row = row\<lparr>ar_issuedAt := Option.bind (ar_issuedAt row) (pg_timestamp env),
     ar_anchoredAt := the (pg_timestamp env (ar_anchoredAt row))\<rparr>"

definition rowToStatus :: "PgEnv \<Rightarrow> StatusEntry \<Rightarrow> StatusEntry" where
  "rowToStatus env row = row\<lparr>se_since := the (pg_timestamp env (se_since row))\<rparr>"

definition rowToEvidence :: "PgEnv \<Rightarrow> EvidenceRecord \<Rightarrow> EvidenceRecord" where
  "rowToEvidence env row = row\<lparr>er_until' := the (pg_date env (er_until' row)),
     er_anchoredAt := the (pg_timestamp env (er_anchoredAt row))\<rparr>"

definition rowToCheckpoint :: "PgEnv \<Rightarrow> CheckpointRecord \<Rightarrow> CheckpointRecord" where
  "rowToCheckpoint env row = row\<lparr>ck_timestamp := the (pg_timestamp env (ck_timestamp row))\<rparr>"

subsection \<open>Attestations and their status\<close>

definition pg_getAttestationById :: "PgEnv \<Rightarrow> PgStore \<Rightarrow> string \<Rightarrow> AttestationRecord option js" where
  "pg_getAttestationById env s registryId =
     Inr (map_option (rowToAttestation env) (find (\<lambda>a. ar_registryId a = registryId) (t_attestation s)))"

definition pg_getAttestationByContentHash ::
  "PgEnv \<Rightarrow> PgStore \<Rightarrow> string \<Rightarrow> string \<Rightarrow> AttestationRecord option js" where
  "pg_getAttestationByContentHash env s tenant h =
     Inr (map_option (rowToAttestation env)
       (find (\<lambda>a. ar_tenant a = tenant \<and> ar_contentHash a = to_lower h) (t_attestation s)))"

definition pg_putAttestation :: "PgEnv \<Rightarrow> PgStore \<Rightarrow> AttestationRecord \<Rightarrow> PgStore js" where
  "pg_putAttestation env s a = (let row = a\<lparr>ar_contentHash := to_lower (ar_contentHash a)\<rparr> in
     if pg_timestamp env (ar_anchoredAt a) = None \<or> (\<exists>t\<in>set_option (ar_issuedAt a). pg_timestamp env t = None)
     then query_error
     else if \<exists>x\<in>set (t_attestation s). ar_tenant x = ar_tenant row \<and> ar_contentHash x = ar_contentHash row then Inr s
     else if \<exists>x\<in>set (t_attestation s). ar_registryId x = ar_registryId row then query_error
     else Inr (s\<lparr>t_attestation := t_attestation s @ [row]\<rparr>))"

definition pg_setAttestationStatus :: "PgStore \<Rightarrow> string \<Rightarrow> RecordStatus \<Rightarrow> PgStore js" where
  "pg_setAttestationStatus s registryId status =
     Inr (s\<lparr>t_attestation := map (\<lambda>a. if ar_registryId a = registryId then a\<lparr>ar_status := status\<rparr> else a) (t_attestation s)\<rparr>)"

definition pg_listAttestationsBySubject :: "PgEnv \<Rightarrow> PgStore \<Rightarrow> string \<Rightarrow> AttestationRecord list js" where
  "pg_listAttestationsBySubject env s q =
     Inr (map (rowToAttestation env) (filter (\<lambda>a. ar_subject a = q \<or> ar_passport a = Some q) (t_attestation s)))"

definition pg_appendStatus :: "PgEnv \<Rightarrow> PgStore \<Rightarrow> StatusEntry \<Rightarrow> PgStore js" where
  "pg_appendStatus env s e =
     (if pg_timestamp env (se_since e) = None \<or> (\<forall>a\<in>set (t_attestation s). ar_registryId a \<noteq> se_registryId e)
      then query_error else Inr (s\<lparr>t_status := t_status s @ [e]\<rparr>))"

definition pg_getLatestStatus :: "PgEnv \<Rightarrow> PgStore \<Rightarrow> string \<Rightarrow> StatusEntry option js" where
  "pg_getLatestStatus env s registryId =
     Inr (map_option (rowToStatus env) (last_opt (filter (\<lambda>e. se_registryId e = registryId) (t_status s))))"

subsection \<open>Evidence\<close>

definition pg_getEvidenceById :: "PgEnv \<Rightarrow> PgStore \<Rightarrow> string \<Rightarrow> EvidenceRecord option js" where
  "pg_getEvidenceById env s evidenceId =
     Inr (map_option (rowToEvidence env) (find (\<lambda>e. er_evidenceId e = evidenceId) (t_evidence s)))"

definition pg_getEvidenceByContentHash ::
  "PgEnv \<Rightarrow> PgStore \<Rightarrow> string \<Rightarrow> string \<Rightarrow> EvidenceRecord option js" where
  "pg_getEvidenceByContentHash env s tenant h =
     Inr (map_option (rowToEvidence env)
       (find (\<lambda>e. er_tenant e = tenant \<and> er_contentHash' e = to_lower h) (t_evidence s)))"

definition pg_putEvidence :: "PgEnv \<Rightarrow> PgStore \<Rightarrow> EvidenceRecord \<Rightarrow> PgStore js" where
  "pg_putEvidence env s e = (let row = e\<lparr>er_contentHash' := to_lower (er_contentHash' e)\<rparr> in
     if pg_date env (er_until' e) = None \<or> pg_timestamp env (er_anchoredAt e) = None then query_error
     else if \<exists>x\<in>set (t_evidence s). er_tenant x = er_tenant row \<and> er_contentHash' x = er_contentHash' row then Inr s
     else if \<exists>x\<in>set (t_evidence s). er_evidenceId x = er_evidenceId row then query_error
     else Inr (s\<lparr>t_evidence := t_evidence s @ [row]\<rparr>))"

definition pg_updateEvidence :: "PgEnv \<Rightarrow> PgStore \<Rightarrow> EvidenceRecord \<Rightarrow> PgStore js" where
  "pg_updateEvidence env s e =
     (if pg_date env (er_until' e) = None then query_error
      else Inr (s\<lparr>t_evidence := map (\<lambda>x. if er_evidenceId x = er_evidenceId e
          then x\<lparr>er_until' := er_until' e, er_basis' := er_basis' e, er_legalHold' := er_legalHold' e,
                 er_deleted := er_deleted e\<rparr> else x) (t_evidence s)\<rparr>))"

definition pg_listEvidenceBySubject :: "PgEnv \<Rightarrow> PgStore \<Rightarrow> string \<Rightarrow> EvidenceRecord list js" where
  "pg_listEvidenceBySubject env s q =
     Inr (map (rowToEvidence env)
       (filter (\<lambda>e. \<not> er_deleted e \<and> (link_is e ''subject'' q \<or> link_is e ''passport'' q)) (t_evidence s)))"

subsection \<open>Checkpoints and leaves\<close>

definition pg_putCheckpoint :: "PgEnv \<Rightarrow> PgStore \<Rightarrow> CheckpointRecord \<Rightarrow> PgStore js" where
  "pg_putCheckpoint env s c =
     (if pg_timestamp env (ck_timestamp c) = None \<or> (\<exists>x\<in>set (t_checkpoint s). ck_checkpointId x = ck_checkpointId c)
      then query_error else Inr (s\<lparr>t_checkpoint := t_checkpoint s @ [c]\<rparr>))"

definition pg_getCheckpoint :: "PgEnv \<Rightarrow> PgStore \<Rightarrow> string \<Rightarrow> CheckpointRecord option js" where
  "pg_getCheckpoint env s checkpointId =
     Inr (map_option (rowToCheckpoint env) (find (\<lambda>c. ck_checkpointId c = checkpointId) (t_checkpoint s)))"

text \<open>\<open>ORDER BY tree_size DESC LIMIT 1\<close>; of rows with the same size the first in the table.\<close>

fun largest :: "CheckpointRecord list \<Rightarrow> CheckpointRecord option" where
  "largest [] = None"
| "largest (c # cs) = (case largest cs of None \<Rightarrow> Some c
     | Some d \<Rightarrow> Some (if ck_treeSize d \<le> ck_treeSize c then c else d))"

definition pg_latestCheckpoint :: "PgEnv \<Rightarrow> PgStore \<Rightarrow> string \<Rightarrow> CheckpointRecord option js" where
  "pg_latestCheckpoint env s logId =
     Inr (map_option (rowToCheckpoint env) (largest (filter (\<lambda>c. ck_logId c = logId) (t_checkpoint s))))"

definition log_rows :: "PgStore \<Rightarrow> string \<Rightarrow> leaf_row list" where
  "log_rows s logId = filter (\<lambda>(l, i, x). l = logId) (t_leaf s)"

definition next_leaf_index :: "leaf_row list \<Rightarrow> nat" where
  "next_leaf_index rows = (if rows = [] then 0 else Max (set (map (\<lambda>(l, i, x). i) rows)) + 1)"

definition pg_appendLeaf :: "PgStore \<Rightarrow> string \<Rightarrow> string \<Rightarrow> (nat \<times> PgStore) js" where
  "pg_appendLeaf s logId leafHex = (let n = next_leaf_index (log_rows s logId) in
     Inr (n, s\<lparr>t_leaf := t_leaf s @ [(logId, n, leafHex)]\<rparr>))"

definition pg_getLeaves :: "PgStore \<Rightarrow> string \<Rightarrow> string list js" where
  "pg_getLeaves s logId = Inr (map (\<lambda>(l, i, x). x) (sort_key (\<lambda>(l, i, x). i) (log_rows s logId)))"

definition postgres_store :: "PgEnv \<Rightarrow> PgStore Store" where
  "postgres_store env = \<lparr>getAttestationById = pg_getAttestationById env,
     getAttestationByContentHash = pg_getAttestationByContentHash env, putAttestation = pg_putAttestation env,
     setAttestationStatus = pg_setAttestationStatus, listAttestationsBySubject = pg_listAttestationsBySubject env,
     appendStatus = pg_appendStatus env, getLatestStatus = pg_getLatestStatus env,
     getEvidenceById = pg_getEvidenceById env, getEvidenceByContentHash = pg_getEvidenceByContentHash env,
     putEvidence = pg_putEvidence env, updateEvidence = pg_updateEvidence env,
     listEvidenceBySubject = pg_listEvidenceBySubject env, putCheckpoint = pg_putCheckpoint env,
     getCheckpoint = pg_getCheckpoint env, latestCheckpoint = pg_latestCheckpoint env,
     appendLeaf = pg_appendLeaf, getLeaves = pg_getLeaves\<rparr>"

subsection \<open>The part of the store the logs rest on\<close>

fun append_all :: "'s Store \<Rightarrow> 's \<Rightarrow> (string \<times> string) list \<Rightarrow> (nat list \<times> 's) js" where
  "append_all S s [] = Inr ([], s)"
| "append_all S s ((l, x) # xs) = bindE (appendLeaf S s l x) (\<lambda>(n, s1).
     bindE (append_all S s1 xs) (\<lambda>(ns, s2). Inr (n # ns, s2)))"

text \<open>The indices a store hands out, from the lengths of the logs.\<close>

fun indices_from :: "(string \<Rightarrow> nat) \<Rightarrow> (string \<times> string) list \<Rightarrow> nat list" where
  "indices_from c [] = []"
| "indices_from c ((l, x) # xs) = c l # indices_from (c(l := Suc (c l))) xs"

text \<open>Appending gives the next index, reading gives the leaves in that order; logs do not interfere.\<close>

locale leaf_store =
  fixes S :: "'s Store" and leaves_of :: "'s \<Rightarrow> string \<Rightarrow> string list" and good :: "'s \<Rightarrow> bool"
  assumes next_index: "good s \<Longrightarrow> appendLeaf S s l x = Inr (n, s') \<Longrightarrow>
      good s' \<and> n = length (leaves_of s l) \<and> leaves_of s' = (leaves_of s)(l := leaves_of s l @ [x])"
    and all_leaves: "good s \<Longrightarrow> getLeaves S s l = Inr ls \<Longrightarrow> ls = leaves_of s l"
begin

lemma append_all_leaves:
  "good s \<Longrightarrow> append_all S s xs = Inr (ns, s') \<Longrightarrow>
    good s' \<and> (\<forall>l. leaves_of s' l = leaves_of s l @ map snd (filter (\<lambda>(k, x). k = l) xs))"
proof (induction xs arbitrary: s ns s')
  case (Cons p xs)
  obtain l x where p: "p = (l, x)" by fastforce
  with Cons.prems obtain n s1 ns' where a: "appendLeaf S s l x = Inr (n, s1)" "append_all S s1 xs = Inr (ns', s')"
    by (auto simp: bindE_Inr_iff)
  note st = next_index[OF Cons.prems(1) a(1)]
  from Cons.IH[OF _ a(2)] st show ?case by (auto simp: p)
qed simp

lemma append_all_indices:
  "good s \<Longrightarrow> append_all S s xs = Inr (ns, s') \<Longrightarrow> ns = indices_from (\<lambda>l. length (leaves_of s l)) xs"
proof (induction xs arbitrary: s ns s')
  case (Cons p xs)
  obtain l x where p: "p = (l, x)" by fastforce
  with Cons.prems obtain n s1 ns' where a: "appendLeaf S s l x = Inr (n, s1)" "append_all S s1 xs = Inr (ns', s')" "ns = n # ns'"
    by (auto simp: bindE_Inr_iff)
  note st = next_index[OF Cons.prems(1) a(1)]
  have c: "(\<lambda>k. length (leaves_of s1 k)) = (\<lambda>k. length (leaves_of s k))(l := Suc (length (leaves_of s l)))"
    using st by (auto simp: fun_eq_iff)
  have "ns' = indices_from (\<lambda>k. length (leaves_of s1 k)) xs" using Cons.IH[OF _ a(2)] st by blast
  then show ?case unfolding c using st by (simp add: a(3) p)
qed simp

lemma append_all_succeeds:
  assumes "\<And>s l x. good s \<Longrightarrow> \<exists>n s'. appendLeaf S s l x = Inr (n, s')" "good s"
  shows "\<exists>ns s'. append_all S s xs = Inr (ns, s')"
  using assms(2)
proof (induction xs arbitrary: s)
  case (Cons p xs)
  obtain l x where p: "p = (l, x)" by fastforce
  obtain n s1 where a: "appendLeaf S s l x = Inr (n, s1)" using assms(1)[OF Cons.prems] by blast
  with next_index[OF Cons.prems a] Cons.IH[of s1] show ?case by (auto simp: p)
qed simp

end

sublocale store_contract \<subseteq> leaves: leaf_store S "\<lambda>s l. as_leaves (view s) l" ok
proof (unfold_locales, goal_cases)
  case (1 s l x n s')
  from append_leaf[OF 1] show ?case by (simp add: abs_appendLeaf_def fun_eq_iff)
next
  case (2 s l ls)
  from get_leaves[OF 2] show ?case .
qed

text \<open>The rows of a log are numbered from 0 in the order of the table.\<close>

definition pg_leaves :: "PgStore \<Rightarrow> string \<Rightarrow> string list" where
  "pg_leaves s l = map (\<lambda>(l, i, x). x) (log_rows s l)"

definition pg_ok :: "PgStore \<Rightarrow> bool" where
  "pg_ok s \<longleftrightarrow> (\<forall>l. map (\<lambda>(l, i, x). i) (log_rows s l) = [0..<length (log_rows s l)])"

lemma pg_next: "map (\<lambda>(l, i, x). i) rows = [0..<length rows] \<Longrightarrow> next_leaf_index rows = length rows"
proof -
  assume r: "map (\<lambda>(l, i, x). i) rows = [0..<length rows]"
  have "Max (set [0..<n]) = n - 1" if "n \<noteq> 0" for n :: nat
    using that by (intro Max_eqI) auto
  then show ?thesis by (simp only: next_leaf_index_def r) simp
qed

interpretation pg: leaf_store "postgres_store env" pg_leaves pg_ok for env
proof (unfold_locales, goal_cases)
  case (1 s l x n s')
  then have n: "n = length (log_rows s l)" "s' = s\<lparr>t_leaf := t_leaf s @ [(l, n, x)]\<rparr>"
    using pg_next[of "log_rows s l"]
    by (auto simp: postgres_store_def pg_appendLeaf_def Let_def pg_ok_def)
  have rows: "log_rows s' k = log_rows s k @ (if k = l then [(l, n, x)] else [])" for k
    by (simp add: n(2) log_rows_def)
  show ?case
    using 1(1) n(1) by (auto simp: pg_ok_def rows pg_leaves_def fun_eq_iff)
next
  case (2 s l ls)
  have "sorted (map (\<lambda>(l, i, x). i) (log_rows s l))" using 2(1) by (simp add: pg_ok_def)
  then have "sort_key (\<lambda>(l, i, x). i) (log_rows s l) = log_rows s l" by (simp add: sort_key_id_if_sorted)
  with 2(2) show ?case by (simp add: postgres_store_def pg_getLeaves_def pg_leaves_def)
qed


text \<open>The two stores keep the same logs.  Whatever leaves are appended to whatever logs, one after
  another, starting from empty stores: both stores accept them, hand out the same indices, and return
  for every log its leaves in the order they were appended.\<close>

theorem stores_keep_the_same_logs:
  "\<exists>ns p m. append_all (postgres_store env) emptyPg xs = Inr (ns, p)
    \<and> append_all memory_store newMemoryStore xs = Inr (ns, m)
    \<and> (\<forall>l. pg_getLeaves p l = Inr (map snd (filter (\<lambda>(k, x). k = l) xs)) \<and> mem_getLeaves m l = pg_getLeaves p l)"
proof -
  have ok: "pg_ok emptyPg" "\<And>l. pg_leaves emptyPg l = []" "\<And>l. as_leaves (mem_abs newMemoryStore) l = []"
    by (simp_all add: pg_ok_def pg_leaves_def log_rows_def emptyPg_def mem_abs_def newMemoryStore_def jsmap_list_def)
  have "\<exists>n s'. appendLeaf (postgres_store env) s l x = Inr (n, s')" for s l x
    by (simp add: postgres_store_def pg_appendLeaf_def Let_def)
  then obtain ns p where p: "append_all (postgres_store env) emptyPg xs = Inr (ns, p)"
    using pg.append_all_succeeds[OF _ ok(1)] by blast
  have "\<exists>n s'. appendLeaf memory_store s l x = Inr (n, s')" if "mem_ok s" for s l x
    using mem.writes_succeed(7)[OF that] .
  then obtain ns' m where m: "append_all memory_store newMemoryStore xs = Inr (ns', m)"
    using mem.leaves.append_all_succeeds[OF _ newMemoryStore_ok] by blast
  have "ns' = ns"
    using pg.append_all_indices[OF ok(1) p] mem.leaves.append_all_indices[OF newMemoryStore_ok m] ok by simp
  moreover have "pg_getLeaves p l = Inr (pg_leaves p l)" for l
    using pg.all_leaves[of p env l] pg.append_all_leaves[OF ok(1) p]
    by (simp add: postgres_store_def pg_getLeaves_def)
  moreover have "mem_getLeaves m l = Inr (as_leaves (mem_abs m) l)" for l
    by (simp add: mem_getLeaves_def mem_abs_def)
  ultimately show ?thesis
    using p m pg.append_all_leaves[OF ok(1) p] mem.leaves.append_all_leaves[OF newMemoryStore_ok m] ok by auto
qed

end
