(* ===== verification/WorkerMerkle.thy ===== *)
theory WorkerMerkle
  imports Prelude
begin

text \<open>
  The Merkle tree of the anchor worker (\<open>services/anchor-worker/src/merkle.ts\<close>): keccak over pairs, the
  last node of an odd level duplicated.  The hash is a parameter.  A root with its leaf count binds the
  leaves; the root alone does not, because the duplicate can be spelled out.
\<close>

subsection \<open>The code\<close>

definition concatHash :: "(bytes \<Rightarrow> bytes) \<Rightarrow> bytes \<Rightarrow> bytes \<Rightarrow> bytes" where
  "concatHash K a b = K (a @ b)"

definition push_last :: "bytes list \<Rightarrow> bytes list" where
  "push_last level = (if length level mod 2 = 1 then level @ [last level] else level)"

fun next_level :: "(bytes \<Rightarrow> bytes) \<Rightarrow> bytes list \<Rightarrow> bytes list" where
  "next_level K (a # b # xs) = concatHash K a b # next_level K xs"
| "next_level K _ = []"

lemma length_next_level [simp]: "length (next_level K xs) = length xs div 2"
  by (induction K xs rule: next_level.induct) auto

lemma length_push_last: "length (push_last xs) = 2 * ((length xs + 1) div 2)"
  unfolding push_last_def by (simp; presburger)

function fold_levels :: "(bytes \<Rightarrow> bytes) \<Rightarrow> bytes list \<Rightarrow> bytes list" where
  "fold_levels K level = (if length level > 1 then fold_levels K (next_level K (push_last level)) else level)"
  by pat_completeness auto

termination
  by (relation "measure (\<lambda>(K, level). length level)") (auto simp: length_push_last)

declare fold_levels.simps [simp del]

record MerkleResult =
  mr_root :: bytes
  mr_leafCount :: nat

definition leaf_node :: "(bytes \<Rightarrow> bytes) \<Rightarrow> bytes \<Rightarrow> bytes" where
  "leaf_node K l = (if length l = 32 then l else K l)"

definition merkleRoot :: "(bytes \<Rightarrow> bytes) \<Rightarrow> bytes list \<Rightarrow> MerkleResult js" where
  "merkleRoot K leaves =
     (if leaves = [] then Inl (PlainError ''merkleRoot: empty leaf set'')
      else Inr \<lparr>mr_root = hd (fold_levels K (map (leaf_node K) leaves)), mr_leafCount = length leaves\<rparr>)"

text \<open>\<open>setUint32\<close> stores the index modulo \<open>2 ^ 32\<close>.\<close>

definition leafFromEvent :: "(bytes \<Rightarrow> bytes) \<Rightarrow> bytes \<Rightarrow> int \<Rightarrow> bytes" where
  "leafFromEvent K txHash logIndex = K (txHash @ be_bytes 4 (nat (logIndex mod 2 ^ 32)))"

subsection \<open>Levels\<close>

lemma push_last_even: "even (length (push_last xs))"
  by (simp add: length_push_last)

lemma push_last_ne: "xs \<noteq> [] \<Longrightarrow> push_last xs \<noteq> []"
  by (simp add: push_last_def)

lemma fold_levels_single: "xs \<noteq> [] \<Longrightarrow> length (fold_levels K xs) = 1"
proof (induction K xs rule: fold_levels.induct)
  case (1 K xs)
  show ?case
  proof (cases "length xs > 1")
    case True
    then have "length (next_level K (push_last xs)) \<noteq> 0" by (simp add: length_push_last)
    then have "next_level K (push_last xs) \<noteq> []" by (metis list.size(3))
    with 1 True show ?thesis by (subst fold_levels.simps) simp
  next
    case False
    with 1(2) show ?thesis by (subst fold_levels.simps) (cases xs; simp)
  qed
qed

text \<open>The strings hashed on the way up.\<close>

fun level_inputs :: "bytes list \<Rightarrow> bytes set" where
  "level_inputs (a # b # xs) = insert (a @ b) (level_inputs xs)"
| "level_inputs _ = {}"

function tree_inputs :: "(bytes \<Rightarrow> bytes) \<Rightarrow> bytes list \<Rightarrow> bytes set" where
  "tree_inputs K level = (if length level > 1
     then level_inputs (push_last level) \<union> tree_inputs K (next_level K (push_last level)) else {})"
  by pat_completeness auto

termination
  by (relation "measure (\<lambda>(K, level). length level)") (auto simp: length_push_last)

declare tree_inputs.simps [simp del]

lemma next_level_32: "(\<And>x. length (K x) = 32) \<Longrightarrow> \<forall>x\<in>set (next_level K xs). length x = 32"
  by (induction K xs rule: next_level.induct) (simp_all add: concatHash_def)

lemma push_last_set: "xs \<noteq> [] \<Longrightarrow> set (push_last xs) = set xs"
  by (auto simp: push_last_def)

lemma next_level_inject:
  assumes "inj_on K (level_inputs xs \<union> level_inputs ys)" "length xs = length ys" "even (length xs)"
    and "\<forall>x\<in>set xs \<union> set ys. length x = 32" "next_level K xs = next_level K ys"
  shows "xs = ys"
  using assms
proof (induction K xs arbitrary: ys rule: next_level.induct)
  case (1 K a b xs)
  then obtain c d zs where ys: "ys = c # d # zs" by (cases ys; cases "tl ys") auto
  have k: "K (a @ b) = K (c @ d)" "next_level K xs = next_level K zs"
    using "1.prems"(5) by (simp_all add: ys concatHash_def)
  have "a @ b = c @ d" by (rule inj_onD[OF "1.prems"(1) k(1)]) (simp_all add: ys)
  then have "a = c" "b = d" using "1.prems"(4) by (simp_all add: ys)
  moreover have "xs = zs"
    by (rule "1.IH") (use "1.prems" k ys in \<open>auto intro: inj_on_subset\<close>)
  ultimately show ?case by (simp add: ys)
qed auto

lemma push_last_inject: "length xs = length ys \<Longrightarrow> push_last xs = push_last ys \<Longrightarrow> xs = ys"
  by (auto simp: push_last_def split: if_splits)

lemma fold_levels_inject:
  assumes "inj_on K (tree_inputs K xs \<union> tree_inputs K ys)" "length xs = length ys" "\<And>x. length (K x) = 32"
    and "\<forall>x\<in>set xs \<union> set ys. length x = 32" "fold_levels K xs = fold_levels K ys"
  shows "xs = ys"
  using assms
proof (induction K xs arbitrary: ys rule: fold_levels.induct)
  case (1 K xs)
  show ?case
  proof (cases "length xs > 1")
    case True
    let ?u = "push_last xs" and ?v = "push_last ys"
    have ne: "xs \<noteq> []" "ys \<noteq> []" using True "1.prems"(2) by auto
    have up: "fold_levels K (next_level K ?u) = fold_levels K (next_level K ?v)"
      using "1.prems"(2,5) True by (simp add: fold_levels.simps[of K xs] fold_levels.simps[of K ys])
    have inp: "tree_inputs K xs = level_inputs ?u \<union> tree_inputs K (next_level K ?u)"
      "tree_inputs K ys = level_inputs ?v \<union> tree_inputs K (next_level K ?v)"
      using True "1.prems"(2) by (simp_all add: tree_inputs.simps[of K xs] tree_inputs.simps[of K ys])
    have "next_level K ?u = next_level K ?v"
      by (rule "1.IH"[OF True _ _ "1.prems"(3) _ up])
        (use "1.prems"(1,2) next_level_32[of K, OF "1.prems"(3)] in
          \<open>auto simp: inp length_push_last intro: inj_on_subset\<close>)
    then have "?u = ?v"
      by (intro next_level_inject[of K ?u ?v])
        (use "1.prems"(1,2,4) push_last_set ne in \<open>auto simp: inp length_push_last intro: inj_on_subset\<close>)
    with "1.prems"(2) show ?thesis by (rule push_last_inject)
  next
    case False
    then show ?thesis using "1.prems"(2,5) by (simp add: fold_levels.simps[of K xs] fold_levels.simps[of K ys])
  qed
qed

subsection \<open>What a root commits to\<close>

text \<open>C30: A root and a leaf count bind the events.  If two lists of equally many 32-byte leaves have the same
  root and no two of the strings hashed for the two trees collide, the lists are equal.\<close>

theorem worker_root_binds_leaves:
  assumes "merkleRoot K xs = Inr r" "merkleRoot K ys = Inr r" "\<And>x. length (K x) = 32"
    and "\<forall>x\<in>set xs \<union> set ys. length x = 32" "inj_on K (tree_inputs K xs \<union> tree_inputs K ys)"
  shows "xs = ys"
proof -
  have ne: "xs \<noteq> []" "ys \<noteq> []" using assms(1,2) by (auto simp: merkleRoot_def split: if_splits)
  have id: "map (leaf_node K) zs = zs" if "\<forall>x\<in>set zs. length x = 32" for zs
    using that by (intro map_idI) (simp add: leaf_node_def)
  have m: "map (leaf_node K) xs = xs" "map (leaf_node K) ys = ys" using assms(4) by (auto intro!: id)
  have r: "hd (fold_levels K xs) = hd (fold_levels K ys)" "length xs = length ys"
    using assms(1,2) ne m by (auto simp: merkleRoot_def)
  have "fold_levels K xs = fold_levels K ys"
    using r(1) fold_levels_single[OF ne(1), of K] fold_levels_single[OF ne(2), of K]
    by (auto simp: length_Suc_conv)
  with fold_levels_inject[OF assms(5) r(2) assms(3,4)] show ?thesis by simp
qed

definition pad_to_32 :: "bytes \<Rightarrow> bytes" where
  "pad_to_32 x = take 32 (x @ replicate 32 0)"

lemma length_pad_to_32 [simp]: "length (pad_to_32 x) = 32"
  by (simp add: pad_to_32_def)

theorem worker_root_binds_leaves_witness:
  "\<exists>r. merkleRoot pad_to_32 [replicate 32 1] = Inr r
    \<and> (\<forall>ys. merkleRoot pad_to_32 ys = Inr r \<and> (\<forall>x\<in>set ys. length x = 32) \<longrightarrow> ys = [replicate 32 1])"
proof -
  let ?x = "[replicate 32 1] :: bytes list"
  obtain r where r: "merkleRoot pad_to_32 ?x = Inr r" by (simp add: merkleRoot_def)
  have "ys = ?x" if y: "merkleRoot pad_to_32 ys = Inr r" "\<forall>x\<in>set ys. length x = 32" for ys
  proof -
    have "length ys = 1" using r y(1) by (auto simp: merkleRoot_def split: if_splits)
    then have "tree_inputs pad_to_32 ys = {}" by (simp add: tree_inputs.simps)
    then have i: "inj_on pad_to_32 (tree_inputs pad_to_32 ?x \<union> tree_inputs pad_to_32 ys)"
      by (simp add: tree_inputs.simps)
    have l: "\<forall>x\<in>set ?x \<union> set ys. length x = 32" using y(2) by simp
    from worker_root_binds_leaves[OF r y(1) length_pad_to_32 l i] show ?thesis ..
  qed
  with r show ?thesis by blast
qed

text \<open>The root alone does not bind the number of events.  For every hash and every odd number of at least
  three leaves, repeating the last leaf leaves the root as it is; only the count tells the lists apart.\<close>

theorem worker_root_ignores_duplicate:
  assumes "odd (length xs)" "length xs > 1"
  shows "\<exists>r r'. merkleRoot K xs = Inr r \<and> merkleRoot K (xs @ [last xs]) = Inr r'
    \<and> mr_root r = mr_root r' \<and> mr_leafCount r' = mr_leafCount r + 1"
proof -
  let ?m = "map (leaf_node K) xs"
  have ne: "xs \<noteq> []" using assms(2) by auto
  have p: "push_last ?m = ?m @ [leaf_node K (last xs)]" "push_last (?m @ [leaf_node K (last xs)]) = ?m @ [leaf_node K (last xs)]"
    using assms ne by (auto simp: push_last_def last_map odd_iff_mod_2_eq_one)
  have "fold_levels K ?m = fold_levels K (?m @ [leaf_node K (last xs)])"
    using assms(2) p ne by (simp add: fold_levels.simps[of K ?m] fold_levels.simps[of K "?m @ [leaf_node K (last xs)]"])
  then show ?thesis using ne by (simp add: merkleRoot_def)
qed

theorem worker_root_ignores_duplicate_witness:
  "\<exists>r r'. merkleRoot pad_to_32 [[1], [2], [3]] = Inr r \<and> merkleRoot pad_to_32 [[1], [2], [3], [3]] = Inr r'
    \<and> mr_root r = mr_root r'"
  using worker_root_ignores_duplicate[of "[[1], [2], [3]]" pad_to_32] by auto

end
