(* ===== verification/AnchorWorker.thy ===== *)
theory AnchorWorker
  imports JsData AnchorService WorkerMerkle "HOL-Library.AList"
begin

text \<open>
  The anchor worker (\<open>services/anchor-worker/src\<close>): \<open>config.ts\<close>, \<open>pq.ts\<close>, \<open>store.ts\<close>, \<open>chain.ts\<close> and the
  cycle and bootstrap of \<open>index.ts\<close>.  The state holds the database tables, the object store and the
  memory of the process; every call that leaves the process takes the next answer of a stream, and an
  answer may be a failure.  The key bundle comes from Vault (theory VaultKeys).
\<close>

subsection \<open>Configuration and keys\<close>

text \<open>A number of the configuration is \<open>None\<close> when its text is no integer.\<close>

record WorkerConfig =
  wc_pqAnchorAddress :: string
  wc_minEvents :: "int option"
  wc_maxEvents :: "int option"
  wc_algorithm :: string
  wc_anchorChainTag :: string
  wc_bucket :: string
  wc_endPoint :: string
  wc_endPort :: "int option"
  wc_useSSL :: bool

definition requireEnv :: "env \<Rightarrow> string \<Rightarrow> string js" where
  "requireEnv env name = (case env name of None \<Rightarrow> Inl (PlainError (name @ '' required''))
     | Some v \<Rightarrow> if v = [] then Inl (PlainError (name @ '' required'')) else Inr v)"

definition env_or :: "env \<Rightarrow> string \<Rightarrow> string \<Rightarrow> string" where
  "env_or env name dflt = (case env name of None \<Rightarrow> dflt | Some v \<Rightarrow> v)"

definition loadWorkerConfig :: "env \<Rightarrow> WorkerConfig js" where
  "loadWorkerConfig env =
     (let endpoint = split_at_char CHR '':'' (env_or env ''MINIO_ENDPOINT'' ''hara-minio:9000'') in
      bindE (requireEnv env ''PQ_ANCHOR_REGISTRY_ADDRESS'') (\<lambda>addr.
      bindE (requireEnv env ''DATABASE_URL'') (\<lambda>_.
      bindE (requireEnv env ''MINIO_ACCESS_KEY'') (\<lambda>_.
      bindE (requireEnv env ''MINIO_SECRET_KEY'') (\<lambda>_.
      Inr \<lparr>wc_pqAnchorAddress = addr,
        wc_minEvents = js_Number (env_or env ''ANCHOR_MIN_EVENTS'' ''1''),
        wc_maxEvents = js_Number (env_or env ''ANCHOR_MAX_EVENTS'' ''200000''),
        wc_algorithm = env_or env ''PQ_ALGORITHM'' ''ML-DSA-65'',
        wc_anchorChainTag = env_or env ''ANCHOR_CHAIN_TAG'' (''0x'' @ replicate 64 CHR ''0''),
        wc_bucket = env_or env ''PQ_BUCKET'' ''hara-pq-anchors'',
        wc_endPoint = hd endpoint,
        wc_endPort = (if length endpoint > 1 then js_Number (endpoint ! 1) else Some 9000),
        wc_useSSL = to_lower (env_or env ''MINIO_USE_SSL'' []) \<in> {''1'', ''true'', ''yes''}\<rparr>)))))"

definition generateKeypair :: "Crypto \<Rightarrow> bytes option \<Rightarrow> bytes \<Rightarrow> PqKeypair js" where
  "generateKeypair cy seed random32 = (let s = (case seed of None \<Rightarrow> random32 | Some x \<Rightarrow> x) in
     if length s \<noteq> 32 then Inl (PlainError ''seed must be 32 bytes'')
     else let (pub, sec) = cy_keygen cy s in Inr \<lparr>publicKey = pub, secretKey = sec\<rparr>)"

definition worker_publicKeyHash :: "Crypto \<Rightarrow> bytes \<Rightarrow> bytes js" where
  "worker_publicKeyHash cy pk =
     (if length pk \<noteq> PQ_PUBLIC_KEY_BYTES
      then Inl (PlainError (''public key must be '' @ js_num PQ_PUBLIC_KEY_BYTES @ '' bytes''))
      else Inr (cy_keccak cy pk))"

definition worker_sign :: "Crypto \<Rightarrow> bytes \<Rightarrow> bytes \<Rightarrow> bytes js" where
  "worker_sign cy sec msg =
     (if length sec \<noteq> PQ_SECRET_KEY_BYTES
      then Inl (PlainError (''secret key must be '' @ js_num PQ_SECRET_KEY_BYTES @ '' bytes''))
      else let sig = cy_sign cy sec msg in
        if length sig \<noteq> PQ_SIGNATURE_BYTES
        then Inl (PlainError (''expected '' @ js_num PQ_SIGNATURE_BYTES @ ''-byte signature, got '' @ js_num (length sig)))
        else Inr sig)"

definition worker_fromHex :: "string \<Rightarrow> bytes js" where
  "worker_fromHex hex = (let clean = (if starts_with ''0x'' hex then drop 2 hex else hex) in
     if length clean mod 2 \<noteq> 0 then Inl (PlainError ''hex length must be even'') else Inr (pq_pairs clean))"

subsection \<open>State\<close>

record event_row =
  ie_block_number :: int
  ie_tx_hash :: string
  ie_log_index :: int

record EventRow =
  blockNumber :: int
  txHash :: bytes
  logIndex :: int

record SignatureRow =
  sg_commitment_hash :: bytes
  sg_algo :: string
  sg_signer_did :: string
  sg_anchor_tx_hash :: bytes
  sg_bucket :: string
  sg_object_key :: string
  sg_size_bytes :: nat

record RecordAnchorParams =
  ra_merkleRoot :: string
  ra_sha3Root :: string
  ra_blockFrom :: int
  ra_blockTo :: int
  ra_eventCount :: int
  ra_anchorChain :: string
  ra_pqSignatureHash :: string

text \<open>Answers of the outside: \<open>Inl\<close> is a rejected call.  \<open>w_sql\<close> and \<open>w_put\<close> say for each statement and each
  object written whether it fails; a failing statement changes nothing.\<close>

record WorkerState =
  w_events :: "event_row list"
  w_cursor :: "(int \<times> string option) option"
  w_signatures :: "SignatureRow list"
  w_objects :: "(string \<times> bytes) list"
  w_bucketExists :: bool
  w_bucketReady :: bool
  w_sent :: "RecordAnchorParams list"
  w_head :: "(string + int) stream"
  w_submit :: "(string + string) stream"
  w_receipt :: "(string + Receipt) stream"
  w_sql :: "string option stream"
  w_put :: "string option stream"

definition rejected :: "string \<Rightarrow> (WorkerState, 'a) op" where
  "rejected msg = throw (Uncaught (PlainError msg))"

definition ask :: "(string + 'a) \<Rightarrow> (WorkerState, 'a) op" where
  "ask reply = (case reply of Inl msg \<Rightarrow> rejected msg | Inr x \<Rightarrow> ret x)"

definition sql :: "(WorkerState \<Rightarrow> WorkerState) \<Rightarrow> (WorkerState, unit) op" where
  "sql f = (\<lambda>s. let s1 = s\<lparr>w_sql := stl (w_sql s)\<rparr> in
     case shd (w_sql s) of None \<Rightarrow> ret () (f s1) | Some msg \<Rightarrow> rejected msg s1)"

definition look :: "(WorkerState \<Rightarrow> 'a) \<Rightarrow> (WorkerState, 'a) op" where
  "look f = (\<lambda>s. ret (f s) s)"

subsection \<open>Storage\<close>

definition putObject :: "string \<Rightarrow> bytes \<Rightarrow> (WorkerState, unit) op" where
  "putObject key blob = (\<lambda>s. let s1 = s\<lparr>w_put := stl (w_put s)\<rparr> in
     case shd (w_put s) of None \<Rightarrow> ret () (s1\<lparr>w_objects := AList.update key blob (w_objects s1)\<rparr>)
     | Some msg \<Rightarrow> rejected msg s1)"

text \<open>Creating the bucket may fail; the failure that says it exists already is ignored.\<close>

definition makeBucket :: "(WorkerState, unit) op" where
  "makeBucket = (\<lambda>s. let s1 = s\<lparr>w_put := stl (w_put s)\<rparr> in
     case shd (w_put s) of None \<Rightarrow> ret () (s1\<lparr>w_bucketExists := True\<rparr>)
     | Some msg \<Rightarrow> if is_part_of ''BucketAlreadyOwnedByYou'' msg \<or> is_part_of ''BucketAlreadyExists'' msg
         then ret () s1 else rejected msg s1)"

text \<open>A failed look-up of the bucket reads as absent.\<close>

definition bucketExists :: "(WorkerState, bool) op" where
  "bucketExists = (\<lambda>s. let s1 = s\<lparr>w_put := stl (w_put s)\<rparr> in
     case shd (w_put s) of None \<Rightarrow> ret (w_bucketExists s) s1 | Some _ \<Rightarrow> ret False s1)"

definition ensureBucket :: "(WorkerState, unit) op" where
  "ensureBucket = bindS (look w_bucketReady) (\<lambda>ready.
     if ready then ret ()
     else bindS bucketExists (\<lambda>exists.
       bindS (if exists then ret () else makeBucket) (\<lambda>_. \<lambda>s. ret () (s\<lparr>w_bucketReady := True\<rparr>))))"

record AnchorRecord =
  an_commitmentHash :: bytes
  an_signerDid :: string
  an_anchorTxHash :: bytes
  an_signature :: bytes
  an_algo :: string

definition object_key :: "AnchorRecord \<Rightarrow> string" where
  "object_key rec = to_lower (an_algo rec) @ ''/'' @ hex_of (an_commitmentHash rec) @ ''.sig''"

definition insert_signature :: "WorkerConfig \<Rightarrow> AnchorRecord \<Rightarrow> WorkerState \<Rightarrow> WorkerState" where
  "insert_signature cfg rec s =
     (if \<exists>r\<in>set (w_signatures s). sg_commitment_hash r = an_commitmentHash rec then s
      else s\<lparr>w_signatures := w_signatures s @
        [\<lparr>sg_commitment_hash = an_commitmentHash rec, sg_algo = to_lower (an_algo rec),
          sg_signer_did = an_signerDid rec, sg_anchor_tx_hash = an_anchorTxHash rec, sg_bucket = wc_bucket cfg,
          sg_object_key = object_key rec, sg_size_bytes = length (an_signature rec)\<rparr>]\<rparr>)"

definition persistAnchor :: "WorkerConfig \<Rightarrow> AnchorRecord \<Rightarrow> (WorkerState, unit) op" where
  "persistAnchor cfg rec =
     bindS ensureBucket (\<lambda>_.
     bindS (putObject (object_key rec) (an_signature rec)) (\<lambda>_.
     sql (insert_signature cfg rec)))"

definition ensureStateTable :: "(WorkerState, unit) op" where
  "ensureStateTable = sql (\<lambda>s. case w_cursor s of None \<Rightarrow> s\<lparr>w_cursor := Some (-1, None)\<rparr> | Some _ \<Rightarrow> s)"

definition readCursor :: "(WorkerState, int) op" where
  "readCursor = bindS ensureStateTable (\<lambda>_. bindS (sql (\<lambda>s. s)) (\<lambda>_.
     look (\<lambda>s. case w_cursor s of None \<Rightarrow> -1 | Some (b, _) \<Rightarrow> b)))"

definition advanceCursor :: "int \<Rightarrow> int \<Rightarrow> (WorkerState, unit) op" where
  "advanceCursor toBlock anchorId =
     sql (\<lambda>s. s\<lparr>w_cursor := map_option (\<lambda>_. (toBlock, Some (js_int anchorId))) (w_cursor s)\<rparr>)"

text \<open>\<open>Uint8Array(clean.length / 2)\<close> throws on an odd length.\<close>

definition store_hexToBytes :: "string \<Rightarrow> bytes js" where
  "store_hexToBytes hex = (let clean = (if starts_with ''0x'' hex then drop 2 hex else hex) in
     if length clean mod 2 \<noteq> 0 then Inl RangeError else Inr (pq_pairs clean))"

definition select_events :: "int \<Rightarrow> int \<Rightarrow> int \<Rightarrow> event_row list \<Rightarrow> event_row list" where
  "select_events fromExclusive toInclusive cap rows =
     take (nat cap) (sort_key ie_block_number (sort_key ie_log_index
       (filter (\<lambda>r. ie_block_number r > fromExclusive \<and> ie_block_number r \<le> toInclusive) rows)))"

definition event_of_row :: "event_row \<Rightarrow> EventRow js" where
  "event_of_row row = bindE (store_hexToBytes (ie_tx_hash row)) (\<lambda>h.
     Inr \<lparr>blockNumber = ie_block_number row, txHash = h, logIndex = ie_log_index row\<rparr>)"

definition fetchEventsSince :: "int \<Rightarrow> int \<Rightarrow> int option \<Rightarrow> (WorkerState, EventRow list) op" where
  "fetchEventsSince fromExclusive toInclusive cap =
     bindS (sql (\<lambda>s. s)) (\<lambda>_.
     case cap of None \<Rightarrow> rejected ''invalid input syntax for type bigint''
     | Some n \<Rightarrow> if n < 0 then rejected ''LIMIT must not be negative''
         else bindS (look w_events) (\<lambda>rows. liftJ (mapE event_of_row (select_events fromExclusive toInclusive n rows))))"

subsection \<open>The chain\<close>

text \<open>The anchor identifier: the second topic of the first log of the registry that has a topic.\<close>

fun find_anchorId :: "string \<Rightarrow> (string \<times> string list) list \<Rightarrow> int js" where
  "find_anchorId registry [] = Inr 0"
| "find_anchorId registry ((address, topics) # logs) =
     (if to_lower address = to_lower registry \<and> topics \<noteq> [] \<and> hd topics \<noteq> []
      then (case BigInt (if 1 < length topics then topics ! 1 else ''0x0'') of
         None \<Rightarrow> Inl (PlainError ''Cannot convert to a BigInt'') | Some v \<Rightarrow> Inr v)
      else find_anchorId registry logs)"

record RecordAnchorResult =
  rr_txHash :: string
  rr_blockNumber :: int
  rr_anchorId :: int

definition recordAnchor :: "WorkerConfig \<Rightarrow> RecordAnchorParams \<Rightarrow> (WorkerState, RecordAnchorResult) op" where
  "recordAnchor cfg p =
     bindS (\<lambda>s. ask (shd (w_submit s)) (s\<lparr>w_submit := stl (w_submit s), w_sent := w_sent s @ [p]\<rparr>)) (\<lambda>tx.
     bindS (\<lambda>s. ask (shd (w_receipt s)) (s\<lparr>w_receipt := stl (w_receipt s)\<rparr>)) (\<lambda>receipt.
     bindS (liftJ (find_anchorId (wc_pqAnchorAddress cfg) (rc_logs receipt))) (\<lambda>anchorId.
     ret \<lparr>rr_txHash = tx, rr_blockNumber = rc_blockNumber receipt, rr_anchorId = anchorId\<rparr>)))"

subsection \<open>One cycle\<close>

definition worker_canonicalMessage :: "string \<Rightarrow> bytes \<Rightarrow> int \<Rightarrow> int \<Rightarrow> int \<Rightarrow> bytes \<Rightarrow> bytes js" where
  "worker_canonicalMessage algorithm root blockFrom blockTo eventCount anchorChain =
     (let algoBytes = utf8 algorithm in
      bindE (u16 (length algoBytes)) (\<lambda>algoLen.
      bindE (u64 blockFrom) (\<lambda>f. bindE (u64 blockTo) (\<lambda>t. bindE (u64 eventCount) (\<lambda>c.
      Inr (algoLen @ algoBytes @ root @ f @ t @ c @ anchorChain))))))"

definition hexToBytes32 :: "string \<Rightarrow> bytes" where
  "hexToBytes32 hex = (let clean = (if starts_with ''0x'' hex then drop 2 hex else hex) in
     pq_pairs (take 64 (padStart 64 CHR ''0'' clean)))"

record AnchorKeys =
  ak_ecdsaAddress :: string
  ak_ecdsaPrivateKey :: string
  ak_pq :: PqKeypair
  ak_pqKeyHashHex :: string

record CycleContext =
  cx_keys :: AnchorKeys
  cx_signerDid :: string

datatype CycleStatus = Cycle_ok | Cycle_noop | Cycle_error

definition anchor_params :: "bytes \<Rightarrow> int \<Rightarrow> int \<Rightarrow> nat \<Rightarrow> bytes \<Rightarrow> bytes \<Rightarrow> RecordAnchorParams" where
  "anchor_params root blockFrom blockTo count anchorChain commitment =
     \<lparr>ra_merkleRoot = ''0x'' @ hex_of root, ra_sha3Root = ''0x'' @ hex_of root, ra_blockFrom = blockFrom,
      ra_blockTo = blockTo, ra_eventCount = int count, ra_anchorChain = ''0x'' @ hex_of anchorChain,
      ra_pqSignatureHash = ''0x'' @ hex_of commitment\<rparr>"

text \<open>The rest of the cycle, once the root is signed: submit, store, advance.  A failed submission ends the
  cycle with an error; a failure after it is thrown.\<close>

definition submit_and_store ::
  "Crypto \<Rightarrow> WorkerConfig \<Rightarrow> CycleContext \<Rightarrow> EventRow list \<Rightarrow> bytes \<Rightarrow> bytes \<Rightarrow> bytes \<Rightarrow>
     (WorkerState, CycleStatus \<times> nat) op" where
  "submit_and_store cy cfg ctx events root anchorChain sig =
     (let blockFrom = blockNumber (hd events); blockTo = blockNumber (last events); commitment = cy_keccak cy sig in
      (\<lambda>s. case recordAnchor cfg (anchor_params root blockFrom blockTo (length events) anchorChain commitment) s of
        (Inl e, s1) \<Rightarrow> ret (Cycle_error, length events) s1
      | (Inr result, s1) \<Rightarrow>
          bindS (persistAnchor cfg \<lparr>an_commitmentHash = commitment, an_signerDid = cx_signerDid ctx,
              an_anchorTxHash = hexToBytes32 (rr_txHash result), an_signature = sig, an_algo = wc_algorithm cfg\<rparr>) (\<lambda>_.
          bindS (advanceCursor blockTo (rr_anchorId result)) (\<lambda>_.
          ret (Cycle_ok, length events))) s1))"

definition runOnce :: "Crypto \<Rightarrow> WorkerConfig \<Rightarrow> CycleContext \<Rightarrow> (WorkerState, CycleStatus \<times> nat) op" where
  "runOnce cy cfg ctx =
     bindS readCursor (\<lambda>lastAnchored.
     bindS (\<lambda>s. ask (shd (w_head s)) (s\<lparr>w_head := stl (w_head s)\<rparr>)) (\<lambda>latestBlock.
     let safeTo = latestBlock - 1 in
     if safeTo \<le> lastAnchored then ret (Cycle_noop, 0)
     else
       bindS (fetchEventsSince lastAnchored safeTo (wc_maxEvents cfg)) (\<lambda>events.
       if (case wc_minEvents cfg of None \<Rightarrow> False | Some m \<Rightarrow> int (length events) < m) then ret (Cycle_noop, length events)
       else if events = [] then throw (Uncaught TypeError)
       else
         bindS (liftJ (merkleRoot (cy_keccak cy) (map (\<lambda>e. leafFromEvent (cy_keccak cy) (txHash e) (logIndex e)) events))) (\<lambda>m.
         let anchorChain = hexToBytes32 (wc_anchorChainTag cfg) in
         bindS (liftJ (worker_canonicalMessage (wc_algorithm cfg) (mr_root m) (blockNumber (hd events))
             (blockNumber (last events)) (int (length events)) anchorChain)) (\<lambda>msg.
         bindS (liftJ (worker_sign cy (secretKey (ak_pq (cx_keys ctx))) msg)) (\<lambda>sig.
         submit_and_store cy cfg ctx events (mr_root m) anchorChain sig))))))"

text \<open>The main loop: a cycle that throws is logged, and the next one starts from the state it left.\<close>

definition cycle :: "Crypto \<Rightarrow> WorkerConfig \<Rightarrow> CycleContext \<Rightarrow> WorkerState \<Rightarrow> WorkerState" where
  "cycle cy cfg ctx s = snd (runOnce cy cfg ctx s)"

subsection \<open>Cold start\<close>

text \<open>The calls of the bootstrap, with their answers: the balance, the key hash on chain, the rotation.\<close>

record BootAnswers =
  bt_balance :: "string + int"
  bt_keyHash :: "string + string"
  bt_rotateTx :: "string + string"
  bt_rotateReceipt :: "string + unit"

definition ensureWalletPrefunded :: "string + int \<Rightarrow> string \<Rightarrow> unit js" where
  "ensureWalletPrefunded reply address = (case reply of Inl msg \<Rightarrow> Inl (PlainError msg)
     | Inr bal \<Rightarrow> if bal = 0 then Inl (PlainError (''Anchor signer '' @ address @ '' has zero native balance.'')) else Inr ())"

definition rotatePQKey :: "BootAnswers \<Rightarrow> string js" where
  "rotatePQKey a = (case bt_rotateTx a of Inl msg \<Rightarrow> Inl (PlainError msg)
     | Inr tx \<Rightarrow> (case bt_rotateReceipt a of Inl msg \<Rightarrow> Inl (PlainError msg) | Inr _ \<Rightarrow> Inr tx))"

text \<open>The context of the cycles, and the key hash the bootstrap asked the chain to take over, if any.\<close>

definition bootstrap :: "env \<Rightarrow> BootAnswers \<Rightarrow> AnchorKeys \<Rightarrow> (CycleContext \<times> string option) js" where
  "bootstrap env a keys =
     bindE (ensureWalletPrefunded (bt_balance a) (ak_ecdsaAddress keys)) (\<lambda>_.
     bindE (case bt_keyHash a of Inl msg \<Rightarrow> Inl (PlainError msg) | Inr h \<Rightarrow> Inr h) (\<lambda>onChain.
     let rotate = (to_lower onChain \<noteq> to_lower (ak_pqKeyHashHex keys)) in
     bindE (if rotate then bindE (rotatePQKey a) (\<lambda>_. Inr ()) else Inr ()) (\<lambda>_.
     Inr (\<lparr>cx_keys = keys,
           cx_signerDid = (case env ''ANCHOR_SIGNER_DID'' of None \<Rightarrow> ''did:hara:eth:'' @ ak_ecdsaAddress keys | Some d \<Rightarrow> d)\<rparr>,
          if rotate then Some (ak_pqKeyHashHex keys) else None))))"

end
