(* ===== verification/WorkerClaims.thy ===== *)
theory WorkerClaims
  imports AnchorWorker
begin

text \<open>
  What the anchor worker guarantees over any sequence of cycles, with any failures, while the indexer
  adds events; and what it does not.
\<close>

subsection \<open>Weakest preconditions of the calls\<close>

lemma wp_sql [wp_simps]: "wp (sql f) P s = (case shd (w_sql s) of
    None \<Rightarrow> P (Inr ()) (f (s\<lparr>w_sql := stl (w_sql s)\<rparr>))
  | Some msg \<Rightarrow> P (Inl (Uncaught (PlainError msg))) (s\<lparr>w_sql := stl (w_sql s)\<rparr>))"
  by (simp add: wp_def sql_def rejected_def Let_def split: option.splits)

lemma wp_look [wp_simps]: "wp (look f) P s = P (Inr (f s)) s"
  by (simp add: wp_def look_def)

lemma wp_rejected [wp_simps]: "wp (rejected msg) P s = P (Inl (Uncaught (PlainError msg))) s"
  by (simp add: rejected_def wp_simps)

lemma wp_ask [wp_simps]: "wp (\<lambda>s. ask (f s) (g s)) P s = (case f s of
    Inl msg \<Rightarrow> P (Inl (Uncaught (PlainError msg))) (g s) | Inr x \<Rightarrow> P (Inr x) (g s))"
  by (simp add: wp_def ask_def rejected_def split: sum.splits)

lemma wp_upd [wp_simps]: "wp (\<lambda>s. ret x (f s)) P s = P (Inr x) (f s)"
  by (simp add: wp_def)

subsection \<open>The invariant\<close>

definition cursor_of :: "WorkerState \<Rightarrow> int" where
  "cursor_of s = (case w_cursor s of None \<Rightarrow> -1 | Some (b, _) \<Rightarrow> b)"

text \<open>Every row of the signature table points at an object that is there.\<close>

definition rows_ok :: "WorkerState \<Rightarrow> bool" where
  "rows_ok s \<longleftrightarrow> (\<forall>r\<in>set (w_signatures s). map_of (w_objects s) (sg_object_key r) \<noteq> None)"

text \<open>A cursor that was advanced belongs to a submitted anchor whose signature is on record.\<close>

definition backed :: "WorkerState \<Rightarrow> bool" where
  "backed s \<longleftrightarrow> (\<forall>b i. w_cursor s = Some (b, Some i) \<longrightarrow>
     (\<exists>p\<in>set (w_sent s). \<exists>r\<in>set (w_signatures s). ra_blockTo p = b
        \<and> ra_pqSignatureHash p = ''0x'' @ hex_of (sg_commitment_hash r)))"

definition worker_inv :: "WorkerState \<Rightarrow> bool" where
  "worker_inv s \<longleftrightarrow> rows_ok s \<and> backed s"

text \<open>What a call leaves alone: the events and the cursor; submissions and rows only grow.\<close>

definition keeps :: "WorkerState \<Rightarrow> WorkerState \<Rightarrow> bool" where
  "keeps s s' \<longleftrightarrow> w_events s' = w_events s \<and> w_cursor s' = w_cursor s
     \<and> set (w_sent s) \<subseteq> set (w_sent s') \<and> set (w_signatures s) \<subseteq> set (w_signatures s')"

lemma keeps_inv: "keeps s s' \<Longrightarrow> rows_ok s' \<Longrightarrow> worker_inv s \<Longrightarrow> worker_inv s'"
  unfolding worker_inv_def backed_def keeps_def by (metis subset_iff)

lemma keeps_cursor: "keeps s s' \<Longrightarrow> cursor_of s' = cursor_of s"
  by (simp add: keeps_def cursor_of_def)

lemma keeps_trans: "keeps s t \<Longrightarrow> keeps t u \<Longrightarrow> keeps s u"
  by (auto simp: keeps_def)

lemma wp_ensureBucket:
  "rows_ok s \<Longrightarrow> wp ensureBucket (\<lambda>r s'. keeps s s' \<and> w_sent s' = w_sent s \<and> rows_ok s') s"
  by (auto simp: ensureBucket_def wp_simps keeps_def rows_ok_def)
    (auto simp: makeBucket_def bucketExists_def wp_def bindS_apply rejected_def Let_def split: option.splits)

lemma wp_putObject:
  "rows_ok s \<Longrightarrow> wp (putObject k blob) (\<lambda>r s'. keeps s s' \<and> w_sent s' = w_sent s \<and> rows_ok s'
    \<and> (r = Inr () \<longrightarrow> map_of (w_objects s') k \<noteq> None)) s"
  by (auto simp: putObject_def wp_def rejected_def Let_def keeps_def rows_ok_def update_conv' split: option.splits)

lemma insert_signature_row:
  assumes "rows_ok s" "map_of (w_objects s) (object_key rec) \<noteq> None"
  shows "keeps s (insert_signature cfg rec s) \<and> rows_ok (insert_signature cfg rec s)
    \<and> w_sent (insert_signature cfg rec s) = w_sent s
    \<and> (\<exists>r\<in>set (w_signatures (insert_signature cfg rec s)). sg_commitment_hash r = an_commitmentHash rec)"
  using assms by (auto simp: insert_signature_def keeps_def rows_ok_def)

lemma wp_persistAnchor:
  assumes "rows_ok s"
  shows "wp (persistAnchor cfg rec) (\<lambda>r s'. keeps s s' \<and> w_sent s' = w_sent s \<and> rows_ok s'
    \<and> (r = Inr () \<longrightarrow> (\<exists>x\<in>set (w_signatures s'). sg_commitment_hash x = an_commitmentHash rec))) s"
  unfolding persistAnchor_def
proof (rule wp_seq[OF wp_ensureBucket[OF assms]], goal_cases)
  case (2 u s1)
  then have s1: "keeps s s1" "w_sent s1 = w_sent s" "rows_ok s1" by auto
  show ?case
  proof (rule wp_seq[OF wp_putObject[OF s1(3)]], goal_cases)
    case (2 u s2)
    then have s2: "keeps s s2" "w_sent s2 = w_sent s" "rows_ok s2" "map_of (w_objects s2) (object_key rec) \<noteq> None"
      using s1 by (auto intro: keeps_trans)
    let ?t = "s2\<lparr>w_sql := stl (w_sql s2)\<rparr>"
    have t: "rows_ok ?t" "map_of (w_objects ?t) (object_key rec) \<noteq> None" "keeps s ?t"
      using s2 by (simp_all add: rows_ok_def keeps_def)
    show ?case
      using insert_signature_row[OF t(1,2), of cfg] s2 t by (auto simp: wp_simps split: option.splits intro: keeps_trans)
  qed (use s1 in \<open>auto intro: keeps_trans\<close>)
qed auto

lemma wp_recordAnchor:
  "rows_ok s \<Longrightarrow> wp (recordAnchor cfg p) (\<lambda>r s'. keeps s s' \<and> w_sent s' = w_sent s @ [p] \<and> rows_ok s'
    \<and> (\<forall>x. r = Inr x \<longrightarrow> (\<exists>receipt. shd (w_receipt s) = Inr receipt))) s"
  by (auto simp: recordAnchor_def wp_simps keeps_def rows_ok_def split: sum.splits)

lemma wp_readCursor:
  "worker_inv s \<Longrightarrow> wp readCursor (\<lambda>r s'. worker_inv s' \<and> w_events s' = w_events s \<and> cursor_of s' = cursor_of s
    \<and> w_head s' = w_head s \<and> w_receipt s' = w_receipt s \<and> (\<forall>b. r = Inr b \<longrightarrow> b = cursor_of s \<and> w_cursor s' \<noteq> None)) s"
  by (cases "w_cursor s")
    (auto simp: readCursor_def ensureStateTable_def wp_simps worker_inv_def rows_ok_def backed_def cursor_of_def
      split: option.splits)

lemma wp_fetchEventsSince:
  "wp (fetchEventsSince a b cap) (\<lambda>r s'. w_events s' = w_events s \<and> w_cursor s' = w_cursor s \<and> w_sent s' = w_sent s
     \<and> w_signatures s' = w_signatures s \<and> w_objects s' = w_objects s \<and> w_receipt s' = w_receipt s
     \<and> (\<forall>es. r = Inr es \<longrightarrow> (\<exists>n. cap = Some n \<and> mapE event_of_row (select_events a b n (w_events s)) = Inr es))) s"
  by (auto simp: fetchEventsSince_def wp_simps split: option.splits sum.splits)

lemma select_in_window:
  "r \<in> set (select_events a b n rows) \<Longrightarrow> r \<in> set rows \<and> a < ie_block_number r \<and> ie_block_number r \<le> b"
  by (auto simp: select_events_def dest: in_set_takeD)

lemma mapE_event_block:
  "mapE event_of_row rs = Inr es \<Longrightarrow> map blockNumber es = map ie_block_number rs \<and> map logIndex es = map ie_log_index rs"
  by (induction rs arbitrary: es) (auto simp: bindE_Inr_iff event_of_row_def)

lemma fetched_blocks:
  assumes "mapE event_of_row (select_events a b n rows) = Inr es" "es \<noteq> []"
  shows "a < blockNumber (last es)" "blockNumber (last es) \<le> b" "a < blockNumber (hd es)"
proof -
  let ?rs = "select_events a b n rows"
  note m = mapE_event_block[OF assms(1)]
  have ne: "?rs \<noteq> []" using m assms(2) by (metis list.map_disc_iff)
  have "blockNumber (last es) = ie_block_number (last ?rs)" "blockNumber (hd es) = ie_block_number (hd ?rs)"
    using m assms(2) ne by (metis last_map hd_map)+
  then show "a < blockNumber (last es)" "blockNumber (last es) \<le> b" "a < blockNumber (hd es)"
    using select_in_window[OF last_in_set[OF ne]] select_in_window[OF hd_in_set[OF ne]] by auto
qed

lemma wp_submit_and_store:
  assumes "worker_inv s" "w_cursor s \<noteq> None" "cursor_of s < blockNumber (last events)"
  shows "wp (submit_and_store cy cfg ctx events root ac sig) (\<lambda>r s'. worker_inv s' \<and> w_events s' = w_events s
    \<and> cursor_of s \<le> cursor_of s' \<and> (cursor_of s' = cursor_of s \<or> (\<exists>n. r = Inr (Cycle_ok, n)))
    \<and> (\<forall>n. r = Inr (Cycle_ok, n) \<longrightarrow> n = length events \<and> cursor_of s' = blockNumber (last events)
         \<and> anchor_params root (blockNumber (hd events)) (blockNumber (last events)) (length events) ac (cy_keccak cy sig)
             \<in> set (w_sent s')
         \<and> (\<exists>receipt. shd (w_receipt s) = Inr receipt)
         \<and> (\<exists>x\<in>set (w_signatures s'). sg_commitment_hash x = cy_keccak cy sig))) s"
proof -
  let ?p = "anchor_params root (blockNumber (hd events)) (blockNumber (last events)) (length events) ac (cy_keccak cy sig)"
  obtain r s1 where ra: "recordAnchor cfg ?p s = (r, s1)" by fastforce
  have "rows_ok s" using assms(1) by (simp add: worker_inv_def)
  from wpD[OF wp_recordAnchor[OF this] ra] have s1: "keeps s s1" "w_sent s1 = w_sent s @ [?p]" "rows_ok s1"
    "\<forall>x. r = Inr x \<longrightarrow> (\<exists>receipt. shd (w_receipt s) = Inr receipt)" by auto
  note i1 = keeps_inv[OF s1(1,3) assms(1)]
  show ?thesis
  proof (cases r)
    case (Inl e)
    then show ?thesis
      using ra s1 i1 keeps_cursor[OF s1(1)] by (simp add: submit_and_store_def wp_def Let_def keeps_def)
  next
    case (Inr result)
    let ?rec = "\<lparr>an_commitmentHash = cy_keccak cy sig, an_signerDid = cx_signerDid ctx,
              an_anchorTxHash = hexToBytes32 (rr_txHash result), an_signature = sig, an_algo = wc_algorithm cfg\<rparr>"
    have "wp (bindS (persistAnchor cfg ?rec) (\<lambda>_. bindS (advanceCursor (blockNumber (last events)) (rr_anchorId result)) (\<lambda>_.
          ret (Cycle_ok, length events)))) (\<lambda>r s'. worker_inv s' \<and> w_events s' = w_events s
      \<and> cursor_of s \<le> cursor_of s' \<and> (cursor_of s' = cursor_of s \<or> (\<exists>n. r = Inr (Cycle_ok, n)))
      \<and> (\<forall>n. r = Inr (Cycle_ok, n) \<longrightarrow> n = length events \<and> cursor_of s' = blockNumber (last events) \<and> ?p \<in> set (w_sent s')
           \<and> (\<exists>x\<in>set (w_signatures s'). sg_commitment_hash x = cy_keccak cy sig))) s1"
    proof (rule wp_seq[OF wp_persistAnchor[OF s1(3)]], goal_cases)
      case (1 e s2)
      then have "keeps s s2" "rows_ok s2" using s1 by (auto intro: keeps_trans)
      with keeps_inv[OF _ _ assms(1)] keeps_cursor show ?case by (auto simp: keeps_def)
    next
      case (2 u s2)
      then have s2: "keeps s s2" "rows_ok s2" "w_sent s2 = w_sent s @ [?p]"
        "\<exists>x\<in>set (w_signatures s2). sg_commitment_hash x = cy_keccak cy sig"
        using s1 by (auto intro: keeps_trans)
      have i2: "worker_inv s2" by (rule keeps_inv[OF s2(1,2) assms(1)])
      obtain c where c: "w_cursor s2 = Some c" "cursor_of s2 = cursor_of s"
        using s2(1) assms(2) keeps_cursor[OF s2(1)] by (auto simp: keeps_def)
      let ?t = "\<lambda>i. s2\<lparr>w_sql := stl (w_sql s2), w_cursor := Some (blockNumber (last events), i)\<rparr>"
      obtain x where x: "x \<in> set (w_signatures s2)" "sg_commitment_hash x = cy_keccak cy sig" using s2(4) by blast
      have "?p \<in> set (w_sent s2)" "ra_blockTo ?p = blockNumber (last events)"
        "ra_pqSignatureHash ?p = ''0x'' @ hex_of (sg_commitment_hash x)"
        using s2(3) x(2) by (simp_all add: anchor_params_def)
      with x(1) have "backed (?t i)" for i unfolding backed_def by (intro allI impI) (rule bexI[of _ ?p], rule bexI[of _ x]; simp)
      moreover have "rows_ok (?t i)" for i using s2(2) by (simp add: rows_ok_def)
      moreover have "worker_inv (s2\<lparr>w_sql := stl (w_sql s2)\<rparr>)"
        using i2 by (simp add: worker_inv_def rows_ok_def backed_def)
      ultimately show ?case
        using s2 c assms(3) x \<open>?p \<in> set (w_sent s2)\<close>
        by (auto simp: advanceCursor_def wp_simps worker_inv_def cursor_of_def keeps_def split: option.splits)
    qed
    then show ?thesis using ra Inr s1(4) by (simp add: submit_and_store_def wp_def Let_def)
  qed
qed


subsection \<open>A cycle\<close>

text \<open>What a successful cycle has committed to: the rows after the cursor and up to the block before the head the node
  reported in this cycle, with a receipt for the transaction, whatever its status.\<close>

definition committed ::
  "Crypto \<Rightarrow> WorkerConfig \<Rightarrow> CycleContext \<Rightarrow> WorkerState \<Rightarrow> WorkerState \<Rightarrow> EventRow list \<Rightarrow> bool" where
  "committed cy cfg ctx s s' es \<longleftrightarrow> (\<exists>cap latest receipt m msg sig. wc_maxEvents cfg = Some cap
     \<and> shd (w_head s) = Inr latest
     \<and> mapE event_of_row (select_events (cursor_of s) (latest - 1) cap (w_events s)) = Inr es \<and> es \<noteq> []
     \<and> merkleRoot (cy_keccak cy) (map (\<lambda>e. leafFromEvent (cy_keccak cy) (txHash e) (logIndex e)) es) = Inr m
     \<and> worker_canonicalMessage (wc_algorithm cfg) (mr_root m) (blockNumber (hd es)) (blockNumber (last es))
         (int (length es)) (hexToBytes32 (wc_anchorChainTag cfg)) = Inr msg
     \<and> worker_sign cy (secretKey (ak_pq (cx_keys ctx))) msg = Inr sig
     \<and> anchor_params (mr_root m) (blockNumber (hd es)) (blockNumber (last es)) (length es)
         (hexToBytes32 (wc_anchorChainTag cfg)) (cy_keccak cy sig) \<in> set (w_sent s')
     \<and> shd (w_receipt s) = Inr receipt
     \<and> (\<exists>x\<in>set (w_signatures s'). sg_commitment_hash x = cy_keccak cy sig)
     \<and> cursor_of s' = blockNumber (last es))"

definition cycle_post ::
  "Crypto \<Rightarrow> WorkerConfig \<Rightarrow> CycleContext \<Rightarrow> WorkerState \<Rightarrow> fault + CycleStatus \<times> nat \<Rightarrow> WorkerState \<Rightarrow> bool" where
  "cycle_post cy cfg ctx s r s' \<longleftrightarrow> worker_inv s' \<and> w_events s' = w_events s \<and> cursor_of s \<le> cursor_of s'
     \<and> (cursor_of s' = cursor_of s \<or> (\<exists>n. r = Inr (Cycle_ok, n)))
     \<and> (\<forall>n. r = Inr (Cycle_ok, n) \<longrightarrow> (\<exists>es. n = length es \<and> committed cy cfg ctx s s' es))"

lemma wp_runOnce:
  assumes "worker_inv s"
  shows "wp (runOnce cy cfg ctx) (cycle_post cy cfg ctx s) s"
  unfolding runOnce_def
proof (rule wp_seq[OF wp_readCursor[OF assms]], goal_cases)
  case (1 e s1)
  then show ?case by (simp add: cycle_post_def)
next
  case (2 b s1)
  then have s1: "worker_inv s1" "w_events s1 = w_events s" "cursor_of s1 = cursor_of s" "b = cursor_of s" "w_cursor s1 \<noteq> None"
    "w_head s1 = w_head s" "w_receipt s1 = w_receipt s" by auto
  let ?s2 = "s1\<lparr>w_head := stl (w_head s1)\<rparr>"
  have quiet: "cycle_post cy cfg ctx s r t" if "worker_inv t" "w_events t = w_events s" "cursor_of t = cursor_of s"
    "\<And>n. r \<noteq> Inr (Cycle_ok, n)" for r t
    using that by (simp add: cycle_post_def)
  have i2: "worker_inv ?s2" "cursor_of ?s2 = cursor_of s" "w_cursor ?s2 \<noteq> None" "w_events ?s2 = w_events s"
    "w_receipt ?s2 = w_receipt s"
    using s1 by (simp_all add: worker_inv_def rows_ok_def backed_def cursor_of_def)
  show ?case
  proof (cases "shd (w_head s1)")
    case (Inl msg)
    then show ?thesis by (simp add: wp_simps quiet[OF i2(1,4,2)])
  next
    case (Inr latest)
    then have head: "shd (w_head s) = Inr latest" using s1(6) by simp
    show ?thesis
    proof (cases "latest - 1 \<le> cursor_of s")
      case True
      then show ?thesis using Inr s1(4) by (simp add: wp_simps quiet[OF i2(1,4,2)])
    next
      case False
      let ?rest = "\<lambda>events. if (case wc_minEvents cfg of None \<Rightarrow> False | Some m \<Rightarrow> int (length events) < m) then ret (Cycle_noop, length events)
       else if events = [] then throw (Uncaught TypeError)
       else
         bindS (liftJ (merkleRoot (cy_keccak cy) (map (\<lambda>e. leafFromEvent (cy_keccak cy) (txHash e) (logIndex e)) events))) (\<lambda>m.
         let anchorChain = hexToBytes32 (wc_anchorChainTag cfg) in
         bindS (liftJ (worker_canonicalMessage (wc_algorithm cfg) (mr_root m) (blockNumber (hd events))
             (blockNumber (last events)) (int (length events)) anchorChain)) (\<lambda>msg.
         bindS (liftJ (worker_sign cy (secretKey (ak_pq (cx_keys ctx))) msg)) (\<lambda>sig.
         submit_and_store cy cfg ctx events (mr_root m) anchorChain sig)))"
      have "wp (bindS (fetchEventsSince (cursor_of s) (latest - 1) (wc_maxEvents cfg)) ?rest) (cycle_post cy cfg ctx s) ?s2"
      proof (rule wp_seq[OF wp_fetchEventsSince], goal_cases)
        case (1 e t)
        then have "worker_inv t" "w_events t = w_events s" "cursor_of t = cursor_of s"
          using i2 by (auto simp: worker_inv_def rows_ok_def backed_def cursor_of_def)
        then show ?case by (simp add: quiet)
      next
        case (2 es t)
        then obtain n where n: "wc_maxEvents cfg = Some n"
          "mapE event_of_row (select_events (cursor_of s) (latest - 1) n (w_events s)) = Inr es" using i2 by auto
        have t: "worker_inv t" "w_events t = w_events s" "cursor_of t = cursor_of s" "w_cursor t \<noteq> None" "w_receipt t = w_receipt s"
          using 2 i2 by (auto simp: worker_inv_def rows_ok_def backed_def cursor_of_def)
        note q = quiet[OF t(1-3)]
        have go: "wp (submit_and_store cy cfg ctx es (mr_root m) (hexToBytes32 (wc_anchorChainTag cfg)) sig) (cycle_post cy cfg ctx s) t"
          if "es \<noteq> []" "merkleRoot (cy_keccak cy) (map (\<lambda>e. leafFromEvent (cy_keccak cy) (txHash e) (logIndex e)) es) = Inr m"
            "worker_canonicalMessage (wc_algorithm cfg) (mr_root m) (blockNumber (hd es)) (blockNumber (last es))
               (int (length es)) (hexToBytes32 (wc_anchorChainTag cfg)) = Inr msg"
            "worker_sign cy (secretKey (ak_pq (cx_keys ctx))) msg = Inr sig" for m msg sig
          by (rule wp_mono[OF wp_submit_and_store[OF t(1,4)]])
            (use fetched_blocks[OF n(2) that(1)] n that t head in \<open>auto simp: cycle_post_def committed_def\<close>)
        show ?case
          using q go by (auto simp: wp_simps Let_def split: sum.splits)
      qed
      then show ?thesis using Inr False s1(4) by (simp add: wp_bindS[of "\<lambda>s. ask (shd (w_head s)) (s\<lparr>w_head := stl (w_head s)\<rparr>)"] wp_ask Let_def)
    qed
  qed
qed

subsection \<open>The worker as a state machine\<close>

text \<open>One step is a cycle of the main loop, a batch of rows of the indexer, or a restart of the process.\<close>

inductive worker_step :: "Crypto \<Rightarrow> WorkerConfig \<Rightarrow> CycleContext \<Rightarrow> WorkerState \<Rightarrow> WorkerState \<Rightarrow> bool"
  for cy cfg ctx where
  step_cycle: "worker_step cy cfg ctx s (cycle cy cfg ctx s)"
| step_indexer: "worker_step cy cfg ctx s (s\<lparr>w_events := w_events s @ rows\<rparr>)"
| step_restart: "worker_step cy cfg ctx s (s\<lparr>w_bucketReady := False\<rparr>)"

inductive_cases worker_stepE: "worker_step cy cfg ctx s s'"

lemma cycle_spec: "worker_inv s \<Longrightarrow> \<exists>r. runOnce cy cfg ctx s = (r, cycle cy cfg ctx s) \<and> cycle_post cy cfg ctx s r (cycle cy cfg ctx s)"
  using wp_runOnce[of s cy cfg ctx] by (cases "runOnce cy cfg ctx s") (simp add: wp_def cycle_def)

lemma step_keeps:
  assumes "worker_step cy cfg ctx s s'" "worker_inv s"
  shows "worker_inv s' \<and> cursor_of s \<le> cursor_of s' \<and> set (w_events s) \<subseteq> set (w_events s')"
  using assms(1)
proof cases
  case step_cycle
  then show ?thesis using cycle_spec[OF assms(2), of cy cfg ctx] by (auto simp: cycle_post_def)
qed (use assms(2) in \<open>auto simp: worker_inv_def rows_ok_def backed_def cursor_of_def\<close>)

lemma worker_steps_keep:
  assumes "(worker_step cy cfg ctx)\<^sup>*\<^sup>* s s'" "worker_inv s"
  shows "worker_inv s' \<and> cursor_of s \<le> cursor_of s' \<and> set (w_events s) \<subseteq> set (w_events s')"
  using assms
proof (induction rule: rtranclp_induct)
  case (step y z)
  with step_keeps[of cy cfg ctx y z] show ?case by auto
qed simp

text \<open>The empty database with given answers of the outside.\<close>

definition fresh_worker :: "WorkerState \<Rightarrow> bool" where
  "fresh_worker s \<longleftrightarrow> w_cursor s = None \<and> w_signatures s = []"

lemma fresh_inv: "fresh_worker s \<Longrightarrow> worker_inv s"
  by (simp add: fresh_worker_def worker_inv_def rows_ok_def backed_def)

subsection \<open>A history to try the theorems on\<close>

definition toy_worker_crypto :: Crypto where
  "toy_worker_crypto = \<lparr>cy_sha256 = id, cy_keccak = pad_to_32, cy_keygen = (\<lambda>s. (replicate 1952 0, replicate 4032 0)),
     cy_sign = (\<lambda>_ _. replicate 3309 0), cy_verify = (\<lambda>_ _ _. True)\<rparr>"

definition toy_worker_config :: WorkerConfig where
  "toy_worker_config = \<lparr>wc_pqAnchorAddress = ''0x01'', wc_minEvents = Some 1, wc_maxEvents = Some 1, wc_algorithm = ''ML-DSA-65'',
     wc_anchorChainTag = ''0x'', wc_bucket = ''b'', wc_endPoint = ''m'', wc_endPort = Some 9000, wc_useSSL = False\<rparr>"

definition toy_context :: CycleContext where
  "toy_context = \<lparr>cx_keys = \<lparr>ak_ecdsaAddress = ''0x02'', ak_ecdsaPrivateKey = ''0x03'',
     ak_pq = \<lparr>publicKey = replicate 1952 0, secretKey = replicate 4032 0\<rparr>, ak_pqKeyHashHex = ''0x04''\<rparr>, cx_signerDid = ''did:hara:eth:0x02''\<rparr>"

definition late_row :: event_row where
  "late_row = \<lparr>ie_block_number = 1, ie_tx_hash = ''0xbb'', ie_log_index = 1\<rparr>"

definition toy_worker :: WorkerState where
  "toy_worker = \<lparr>w_events = [\<lparr>ie_block_number = 1, ie_tx_hash = ''0xaa'', ie_log_index = 0\<rparr>, late_row],
     w_cursor = None, w_signatures = [], w_objects = [], w_bucketExists = False, w_bucketReady = False, w_sent = [],
     w_head = sconst (Inr 10), w_submit = sconst (Inr ''0x05''),
     w_receipt = sconst (Inr \<lparr>rc_success = True, rc_blockNumber = 3, rc_logs = []\<rparr>),
     w_sql = sconst None, w_put = sconst None\<rparr>"

lemmas worker_defs = runOnce_def readCursor_def ensureStateTable_def sql_def look_def ask_def fetchEventsSince_def
  select_events_def event_of_row_def store_hexToBytes_def merkleRoot_def fold_levels.simps leafFromEvent_def
  worker_canonicalMessage_def worker_sign_def submit_and_store_def recordAnchor_def persistAnchor_def ensureBucket_def
  makeBucket_def bucketExists_def putObject_def advanceCursor_def insert_signature_def bindS_apply u16_def u64_def Let_def

lemma js_int_zero: "js_int 0 = ''0''"
  by code_simp

lemma toy_cycle: "\<exists>s'. runOnce toy_worker_crypto toy_worker_config toy_context toy_worker = (Inr (Cycle_ok, 1), s')
  \<and> w_cursor s' = Some (1, Some ''0'') \<and> w_signatures s' \<noteq> [] \<and> w_events s' = w_events toy_worker"
  by (simp add: worker_defs toy_worker_def toy_worker_config_def toy_context_def toy_worker_crypto_def late_row_def
      PQ_SECRET_KEY_BYTES_def PQ_SIGNATURE_BYTES_def starts_with_def js_int_zero)

definition toy_after :: WorkerState where
  "toy_after = cycle toy_worker_crypto toy_worker_config toy_context toy_worker"

lemma toy_after:
  "runOnce toy_worker_crypto toy_worker_config toy_context toy_worker = (Inr (Cycle_ok, 1), toy_after)"
  "w_cursor toy_after = Some (1, Some ''0'')" "w_signatures toy_after \<noteq> []" "fresh_worker toy_worker" "worker_inv toy_worker"
  "(worker_step toy_worker_crypto toy_worker_config toy_context)\<^sup>*\<^sup>* toy_worker toy_after"
  "w_events toy_after = w_events toy_worker"
proof -
  show "fresh_worker toy_worker" by (simp add: fresh_worker_def toy_worker_def)
  then show "worker_inv toy_worker" by (rule fresh_inv)
  show "(worker_step toy_worker_crypto toy_worker_config toy_context)\<^sup>*\<^sup>* toy_worker toy_after"
    unfolding toy_after_def by (intro r_into_rtranclp step_cycle)
qed (use toy_cycle in \<open>auto simp: toy_after_def cycle_def\<close>)

lemma toy_committed:
  obtains es where "length es = 1" "committed toy_worker_crypto toy_worker_config toy_context toy_worker toy_after es"
    "blockNumber (last es) = 1"
proof -
  from wpD[OF wp_runOnce[OF toy_after(5)] toy_after(1)] obtain es where es: "length es = 1"
    "committed toy_worker_crypto toy_worker_config toy_context toy_worker toy_after es"
    by (auto simp: cycle_post_def)
  then have "blockNumber (last es) = cursor_of toy_after" by (auto simp: committed_def)
  then show thesis using es toy_after(2) by (intro that) (simp_all add: cursor_of_def)
qed

text \<open>C12: No record without its blob, no progress without a record.  Whatever fails and in whatever order
  (statements, objects, submissions, receipts, restarts), every row of the signature table points at a stored object, and a
  cursor the worker has advanced is the end block of a submitted anchor whose signature is on record.\<close>

theorem worker_records_are_backed:
  assumes "fresh_worker s0" "(worker_step cy cfg ctx)\<^sup>*\<^sup>* s0 s"
  shows "(\<forall>r\<in>set (w_signatures s). map_of (w_objects s) (sg_object_key r) \<noteq> None)
    \<and> (\<forall>b i. w_cursor s = Some (b, Some i) \<longrightarrow> (\<exists>p\<in>set (w_sent s). \<exists>r\<in>set (w_signatures s).
         ra_blockTo p = b \<and> ra_pqSignatureHash p = ''0x'' @ hex_of (sg_commitment_hash r)))"
  using worker_steps_keep[OF assms(2) fresh_inv[OF assms(1)]]
  by (simp add: worker_inv_def rows_ok_def backed_def)

theorem worker_records_are_backed_witness:
  "\<exists>p\<in>set (w_sent toy_after). \<exists>r\<in>set (w_signatures toy_after). ra_blockTo p = 1
    \<and> ra_pqSignatureHash p = ''0x'' @ hex_of (sg_commitment_hash r) \<and> map_of (w_objects toy_after) (sg_object_key r) \<noteq> None"
  using worker_records_are_backed[OF toy_after(4,6)] toy_after(2) by blast

text \<open>C29: A cycle that reports success has submitted an anchor of exactly the events it read.  It took the rows after the
  cursor up to the block before the head the node reported, in order of block and log index, at most the configured
  number; the submitted root is the Merkle root of their leaves, the submitted window and count are theirs, a receipt
  of the transaction came back, the signature over the canonical message is on record, and the cursor is the block of
  the last event.  The status of the receipt is not part of it: the worker does not look at it (\<open>receipt_status_is_ignored\<close>),
  so that a reverted transaction counts as well.\<close>

theorem ok_cycle_commits_what_it_read:
  assumes "worker_inv s" "runOnce cy cfg ctx s = (Inr (Cycle_ok, n), s')"
  shows "\<exists>es. n = length es \<and> committed cy cfg ctx s s' es"
  using wpD[OF wp_runOnce[OF assms(1)] assms(2)] by (simp add: cycle_post_def)

theorem ok_cycle_commits_what_it_read_witness:
  "\<exists>es. length es = 1 \<and> committed toy_worker_crypto toy_worker_config toy_context toy_worker toy_after es"
  using ok_cycle_commits_what_it_read[OF toy_after(5,1)] by metis

text \<open>C31: The cap on a slice loses events.  When the cap cuts inside a block, the rows of that block left
  behind are never read again: after the successful cycle, whatever happens later, no cycle selects them.\<close>

theorem capped_events_are_never_anchored:
  assumes "worker_inv s" "runOnce cy cfg ctx s = (Inr (Cycle_ok, n), s')" "committed cy cfg ctx s s' es"
    and "(worker_step cy cfg ctx)\<^sup>*\<^sup>* s' t" "ie_block_number e = blockNumber (last es)"
  shows "e \<notin> set (select_events (cursor_of t) safeTo cap (w_events t))"
proof -
  have "worker_inv s'" using wpD[OF wp_runOnce[OF assms(1)] assms(2)] by (simp add: cycle_post_def)
  from worker_steps_keep[OF assms(4) this] have "cursor_of s' \<le> cursor_of t" by blast
  then have "ie_block_number e \<le> cursor_of t" using assms(3,5) by (auto simp: committed_def)
  then show ?thesis using select_in_window[of e] by fastforce
qed


theorem capped_events_are_never_anchored_witness:
  "late_row \<in> set (w_events toy_worker) \<and> w_events toy_after = w_events toy_worker
    \<and> late_row \<notin> set (select_events (cursor_of toy_after) 100 100 (w_events toy_after))"
proof -
  obtain es where es: "committed toy_worker_crypto toy_worker_config toy_context toy_worker toy_after es" "blockNumber (last es) = 1"
    by (rule toy_committed)
  have "ie_block_number late_row = blockNumber (last es)" using es(2) by (simp add: late_row_def)
  with capped_events_are_never_anchored[OF toy_after(5,1) es(1) rtranclp.rtrancl_refl] show ?thesis
    using toy_after(7) by (auto simp: toy_worker_def)
qed

subsection \<open>The status of a receipt\<close>

text \<open>The same answers with every receipt's status replaced.\<close>

definition with_status :: "bool \<Rightarrow> WorkerState \<Rightarrow> WorkerState" where
  "with_status b s = s\<lparr>w_receipt := smap (map_sum id (\<lambda>r. r\<lparr>rc_success := b\<rparr>)) (w_receipt s)\<rparr>"

definition status_blind :: "(WorkerState, 'a) op \<Rightarrow> bool" where
  "status_blind m \<longleftrightarrow> (\<forall>b s. m (with_status b s) = apsnd (with_status b) (m s))"

lemma with_status_sel [simp]:
  "w_events (with_status b s) = w_events s" "w_cursor (with_status b s) = w_cursor s" "w_sql (with_status b s) = w_sql s"
  "w_put (with_status b s) = w_put s" "w_head (with_status b s) = w_head s" "w_submit (with_status b s) = w_submit s"
  "w_objects (with_status b s) = w_objects s" "w_bucketReady (with_status b s) = w_bucketReady s"
  "w_bucketExists (with_status b s) = w_bucketExists s" "w_sent (with_status b s) = w_sent s"
  "w_signatures (with_status b s) = w_signatures s"
  "w_receipt (with_status b s) = smap (map_sum id (\<lambda>r. r\<lparr>rc_success := b\<rparr>)) (w_receipt s)"
  by (simp_all add: with_status_def)

lemma status_blind_bindS:
  assumes "status_blind m" "\<And>x. status_blind (k x)"
  shows "status_blind (bindS m k)"
  unfolding status_blind_def
proof (intro allI)
  fix b s
  obtain r t where m: "m s = (r, t)" by fastforce
  then have "m (with_status b s) = (r, with_status b t)" using assms(1) by (simp add: status_blind_def)
  then show "bindS m k (with_status b s) = apsnd (with_status b) (bindS m k s)"
    using m assms(2) by (cases r) (simp_all add: bindS_apply status_blind_def)
qed

lemma status_blind_basic:
  "status_blind (ret x)" "status_blind (throw e)" "status_blind (liftJ j)" "status_blind (rejected msg)"
  by (simp_all add: status_blind_def liftJ_def rejected_def)

lemma status_blind_look: "(\<And>b s. f (with_status b s) = f s) \<Longrightarrow> status_blind (look f)"
  by (simp add: status_blind_def look_def)

lemma with_status_sql: "w_sql_update g (with_status b s) = with_status b (w_sql_update g s)"
  by (simp add: with_status_def)

lemma status_blind_sql:
  assumes "\<And>b s. f (with_status b s) = with_status b (f s)"
  shows "status_blind (sql f)"
  unfolding status_blind_def sql_def Let_def rejected_def
  by (auto simp: with_status_sql assms split: option.splits)

lemma status_blind_if: "status_blind m \<Longrightarrow> status_blind n \<Longrightarrow> status_blind (if c then m else n)"
  by simp

lemmas status_blind_intros = status_blind_bindS status_blind_basic status_blind_look status_blind_sql status_blind_if

lemma status_blind_storage:
  "status_blind readCursor" "status_blind (fetchEventsSince a c n)" "status_blind (advanceCursor t i)"
  "status_blind (persistAnchor cfg rec)"
proof -
  show "status_blind readCursor" unfolding readCursor_def ensureStateTable_def
    by (intro status_blind_intros) (simp_all add: with_status_def split: option.splits)
  show "status_blind (fetchEventsSince a c n)" unfolding fetchEventsSince_def
    by (cases n) (auto intro!: status_blind_intros)
  show "status_blind (advanceCursor t i)" unfolding advanceCursor_def
    by (intro status_blind_intros) (simp add: with_status_def)
  have "status_blind makeBucket" "status_blind bucketExists" "status_blind (\<lambda>s. ret () (s\<lparr>w_bucketReady := True\<rparr>))" "status_blind (putObject k x)" for k x
    by (simp_all add: status_blind_def makeBucket_def bucketExists_def putObject_def Let_def rejected_def with_status_def split: option.splits)
  then show "status_blind (persistAnchor cfg rec)"
    unfolding persistAnchor_def ensureBucket_def
    by (intro status_blind_intros) (simp_all add: insert_signature_def with_status_def)
qed

lemma status_blind_recordAnchor: "status_blind (recordAnchor cfg p)"
proof -
  have s: "status_blind (\<lambda>s. ask (shd (w_submit s)) (s\<lparr>w_submit := stl (w_submit s), w_sent := w_sent s @ [p]\<rparr>))"
    by (simp add: status_blind_def ask_def rejected_def with_status_def split: sum.splits)
  have r: "status_blind (bindS (\<lambda>s. ask (shd (w_receipt s)) (s\<lparr>w_receipt := stl (w_receipt s)\<rparr>)) (\<lambda>receipt.
     bindS (liftJ (find_anchorId a (rc_logs receipt))) (\<lambda>anchorId.
     ret \<lparr>rr_txHash = tx, rr_blockNumber = rc_blockNumber receipt, rr_anchorId = anchorId\<rparr>)))" for a tx
    unfolding status_blind_def
  proof (intro allI)
    fix b s
    have "(with_status b s)\<lparr>w_receipt := smap g (stl (w_receipt s))\<rparr>
        = with_status b (s\<lparr>w_receipt := stl (w_receipt s)\<rparr>)" if "g = map_sum id (\<lambda>r. r\<lparr>rc_success := b\<rparr>)" for g
      using that by (simp add: with_status_def)
    then show "bindS (\<lambda>s. ask (shd (w_receipt s)) (s\<lparr>w_receipt := stl (w_receipt s)\<rparr>)) (\<lambda>receipt.
       bindS (liftJ (find_anchorId a (rc_logs receipt))) (\<lambda>anchorId.
       ret \<lparr>rr_txHash = tx, rr_blockNumber = rc_blockNumber receipt, rr_anchorId = anchorId\<rparr>)) (with_status b s)
      = apsnd (with_status b) (bindS (\<lambda>s. ask (shd (w_receipt s)) (s\<lparr>w_receipt := stl (w_receipt s)\<rparr>)) (\<lambda>receipt.
       bindS (liftJ (find_anchorId a (rc_logs receipt))) (\<lambda>anchorId.
       ret \<lparr>rr_txHash = tx, rr_blockNumber = rc_blockNumber receipt, rr_anchorId = anchorId\<rparr>)) s)"
      by (cases "shd (w_receipt s)")
        (simp_all add: bindS_apply ask_def rejected_def liftJ_def split: sum.splits)
  qed
  show ?thesis unfolding recordAnchor_def by (rule status_blind_bindS[OF s r])
qed

lemma status_blind_submit: "status_blind (submit_and_store cy cfg ctx es root ac sig)"
  unfolding status_blind_def
proof (intro allI)
  fix b s
  let ?p = "anchor_params root (blockNumber (hd es)) (blockNumber (last es)) (length es) ac (cy_keccak cy sig)"
  obtain r t where r: "recordAnchor cfg ?p s = (r, t)" by fastforce
  then have r': "recordAnchor cfg ?p (with_status b s) = (r, with_status b t)"
    using status_blind_recordAnchor[of cfg ?p] by (simp add: status_blind_def)
  have k: "status_blind (bindS (persistAnchor cfg rec) (\<lambda>_. bindS (advanceCursor to i) (\<lambda>_. ret x)))" for rec to i and x :: "CycleStatus \<times> nat"
    by (intro status_blind_intros status_blind_storage)
  show "submit_and_store cy cfg ctx es root ac sig (with_status b s) = apsnd (with_status b) (submit_and_store cy cfg ctx es root ac sig s)"
    using k r r' by (cases r) (simp_all add: submit_and_store_def Let_def status_blind_def)
qed

text \<open>A reverted anchor counts as anchored.  The worker never looks at the status of a receipt: with every
  status replaced, a cycle gives the same result and the same state, so a reverted transaction
  (status 0, no logs) advances the cursor like a successful one, with anchor identifier 0.\<close>

theorem receipt_status_is_ignored:
  "runOnce cy cfg ctx (with_status b s) = apsnd (with_status b) (runOnce cy cfg ctx s)"
proof -
  have h: "status_blind (\<lambda>s. ask (shd (w_head s)) (s\<lparr>w_head := stl (w_head s)\<rparr>))"
    by (simp add: status_blind_def ask_def rejected_def with_status_def split: sum.splits)
  have "status_blind (runOnce cy cfg ctx)"
    unfolding runOnce_def Let_def
    by (intro status_blind_intros status_blind_storage h status_blind_submit)
  then show ?thesis by (simp add: status_blind_def)
qed

end
