(* ===== verification/VaultKeys.thy ===== *)
theory VaultKeys
  imports AnchorWorker
begin

text \<open>
  Reading keys from Vault: the shared client with its token cache (\<open>services/shared/src/vault.ts\<close>) and
  the key bundle of the anchor worker (\<open>services/anchor-worker/src/vaultKey.ts\<close>).  HTTP is a stream of
  answers (\<open>Inl\<close> is a failed request); requests are kept in order.  Calls run one after another, so the
  coalescing of concurrent logins does not show.
\<close>

subsection \<open>HTTP\<close>

record HttpRequest =
  rqst_post :: bool
  rqst_url :: string
  rqst_token :: "string option"
  rqst_body :: "json option"

record HttpReply =
  rply_status :: int
  rply_text :: string
  rply_json :: "json option"

record VaultState =
  vs_clock :: "int stream"
  vs_replies :: "(string + HttpReply) stream"
  vs_random :: "bytes stream"
  vs_requests :: "HttpRequest list"
  vs_tokenCache :: "(string \<times> int) option"

definition http_ok :: "HttpReply \<Rightarrow> bool" where
  "http_ok r \<longleftrightarrow> 200 \<le> rply_status r \<and> rply_status r \<le> 299"

definition plain :: "string \<Rightarrow> (VaultState, 'a) op" where
  "plain msg = throw (Uncaught (PlainError msg))"

definition fetch :: "HttpRequest \<Rightarrow> (VaultState, HttpReply) op" where
  "fetch rq = (\<lambda>s. let s1 = s\<lparr>vs_replies := stl (vs_replies s), vs_requests := vs_requests s @ [rq]\<rparr> in
     case shd (vs_replies s) of Inl msg \<Rightarrow> plain msg s1 | Inr r \<Rightarrow> ret r s1)"

text \<open>\<open>res.json()\<close> rejects a body that is no JSON.\<close>

definition json_body :: "HttpReply \<Rightarrow> (VaultState, json) op" where
  "json_body r = (case rply_json r of None \<Rightarrow> plain ''invalid json'' | Some j \<Rightarrow> ret j)"

definition dateNow :: "(VaultState, int) op" where
  "dateNow = (\<lambda>s. ret (shd (vs_clock s)) (s\<lparr>vs_clock := stl (vs_clock s)\<rparr>))"

definition vget :: "json \<Rightarrow> string \<Rightarrow> json option" where
  "vget v k = json_get v k"

text \<open>\<open>body.a?.b\<close>: on null or a missing value the result is undefined; \<open>body.a\<close> of null throws.\<close>

definition opt_get :: "json option \<Rightarrow> string \<Rightarrow> json option" where
  "opt_get v k = (case v of None \<Rightarrow> None | Some j \<Rightarrow> json_get j k)"

definition first_get :: "json \<Rightarrow> string \<Rightarrow> (VaultState, json option) op" where
  "first_get j k = (if j = JNull then throw (Uncaught TypeError) else ret (json_get j k))"

definition truthy_text :: "json option \<Rightarrow> string option" where
  "truthy_text v = (case as_str v of Some (c # s) \<Rightarrow> Some (c # s) | _ \<Rightarrow> None)"

subsection \<open>The shared client\<close>

record VaultEnv =
  ve_addr :: string
  ve_token :: "string option"
  ve_roleId :: "string option"
  ve_secretId :: "string option"

definition TOKEN_REFRESH_SLACK_SEC :: int where "TOKEN_REFRESH_SLACK_SEC = 30"

definition login_request :: "VaultEnv \<Rightarrow> HttpRequest" where
  "login_request ve = \<lparr>rqst_post = True, rqst_url = ve_addr ve @ ''/v1/auth/approle/login'', rqst_token = None,
     rqst_body = Some (JObj [(''role_id'', JStr (the (ve_roleId ve))), (''secret_id'', JStr (the (ve_secretId ve)))])\<rparr>"

definition approle_set :: "VaultEnv \<Rightarrow> bool" where
  "approle_set ve \<longleftrightarrow> truthy_str (ve_roleId ve) \<and> truthy_str (ve_secretId ve)"

definition approleLogin :: "VaultEnv \<Rightarrow> (VaultState, string \<times> int) op" where
  "approleLogin ve =
     (if \<not> approle_set ve then plain ''approleLogin called but VAULT_APPROLE_ID/_SECRET not set''
      else
        bindS (fetch (login_request ve)) (\<lambda>res.
        if \<not> http_ok res then plain (''Vault AppRole login failed: '' @ js_int (rply_status res) @ '' '' @ rply_text res)
        else
          bindS (json_body res) (\<lambda>body.
          bindS (first_get body ''auth'') (\<lambda>auth.
          let leaseSec = default_to 3600 (as_int (opt_get auth ''lease_duration'')) in
          case truthy_text (opt_get auth ''client_token'') of
            None \<Rightarrow> plain ''Vault AppRole login: response missing client_token''
          | Some token \<Rightarrow> bindS dateNow (\<lambda>t. ret (token, t + max 60 (leaseSec - TOKEN_REFRESH_SLACK_SEC) * 1000))))))"

definition currentToken :: "VaultEnv \<Rightarrow> (VaultState, string) op" where
  "currentToken ve =
     (if truthy_str (ve_token ve) then ret (the (ve_token ve))
      else if \<not> approle_set ve then plain ''Vault auth not configured.''
      else
        bindS (\<lambda>s. case vs_tokenCache s of None \<Rightarrow> ret None s
          | Some (tok, expiresAt) \<Rightarrow> bindS dateNow (\<lambda>t. ret (if expiresAt > t then Some tok else None)) s) (\<lambda>cached.
        case cached of Some tok \<Rightarrow> ret tok
        | None \<Rightarrow> bindS (approleLogin ve) (\<lambda>c. \<lambda>s. ret (fst c) (s\<lparr>vs_tokenCache := Some c\<rparr>))))"

record SignerKey =
  sk_address :: string
  sk_privateKey :: string

definition parseSignerKey :: "json \<Rightarrow> (VaultState, SignerKey) op" where
  "parseSignerKey body =
     bindS (first_get body ''data'') (\<lambda>d. let inner = opt_get d ''data'' in
     case (truthy_text (opt_get inner ''address''), truthy_text (opt_get inner ''private_key'')) of
       (Some a, Some k) \<Rightarrow> ret \<lparr>sk_address = to_lower a, sk_privateKey = (if starts_with ''0x'' k then k else ''0x'' @ k)\<rparr>
     | _ \<Rightarrow> plain ''Vault response missing address or private_key'')"

text \<open>\<open>vaultPath.replace(/^secret\//, "secret/data/")\<close>.\<close>

definition api_path :: "string \<Rightarrow> string" where
  "api_path vaultPath = (if starts_with ''secret/'' vaultPath then ''secret/data/'' @ drop 7 vaultPath else vaultPath)"

definition read_request :: "VaultEnv \<Rightarrow> string \<Rightarrow> string \<Rightarrow> HttpRequest" where
  "read_request ve vaultPath token = \<lparr>rqst_post = False, rqst_url = ve_addr ve @ ''/v1/'' @ api_path vaultPath,
     rqst_token = Some token, rqst_body = None\<rparr>"

definition fetchSignerKey :: "VaultEnv \<Rightarrow> string \<Rightarrow> (VaultState, SignerKey) op" where
  "fetchSignerKey ve vaultPath =
     bindS (currentToken ve) (\<lambda>token.
     bindS (fetch (read_request ve vaultPath token)) (\<lambda>res.
     if rply_status res = 403 \<and> \<not> truthy_str (ve_token ve) then
       bindS (\<lambda>s. ret () (s\<lparr>vs_tokenCache := None\<rparr>)) (\<lambda>_.
       bindS (currentToken ve) (\<lambda>retryToken.
       bindS (fetch (read_request ve vaultPath retryToken)) (\<lambda>retryRes.
       if \<not> http_ok retryRes
       then plain (''Vault fetch failed after token refresh: '' @ js_int (rply_status retryRes) @ '' '' @ rply_text retryRes)
       else bindS (json_body retryRes) parseSignerKey)))
     else if \<not> http_ok res then plain (''Vault fetch failed: '' @ js_int (rply_status res) @ '' '' @ rply_text res)
     else bindS (json_body res) parseSignerKey))"

subsection \<open>The key bundle of the anchor worker\<close>

record VaultPqRead =
  vp_address :: "json option"
  vp_private_key :: "json option"
  vp_pq_public_key :: "string option"
  vp_pq_secret_key :: "string option"

definition getVaultToken :: "VaultEnv \<Rightarrow> (VaultState, string) op" where
  "getVaultToken ve =
     (if truthy_str (ve_token ve) then ret (the (ve_token ve))
      else if \<not> approle_set ve then plain ''Need VAULT_APPROLE_ID + VAULT_APPROLE_SECRET (prod) or VAULT_TOKEN (dev)''
      else
        bindS (fetch (login_request ve)) (\<lambda>res.
        if \<not> http_ok res then plain (''AppRole login failed: '' @ js_int (rply_status res))
        else
          bindS (json_body res) (\<lambda>body.
          bindS (first_get body ''auth'') (\<lambda>auth.
          case truthy_text (opt_get auth ''client_token'') of
            None \<Rightarrow> plain ''AppRole login: no client_token'' | Some tok \<Rightarrow> ret tok))))"

text \<open>\<open>body.data?.data ?? null\<close>.\<close>

definition readAnchorSecret :: "VaultEnv \<Rightarrow> string \<Rightarrow> (VaultState, VaultPqRead option) op" where
  "readAnchorSecret ve VAULT_PATH =
     bindS (getVaultToken ve) (\<lambda>token.
     bindS (fetch (read_request ve VAULT_PATH token)) (\<lambda>res.
     if rply_status res = 404 then ret None
     else if \<not> http_ok res then plain (''Vault read failed: '' @ js_int (rply_status res) @ '' '' @ rply_text res)
     else
       bindS (json_body res) (\<lambda>body.
       bindS (first_get body ''data'') (\<lambda>d.
       ret (case opt_get d ''data'' of None \<Rightarrow> None
         | Some j \<Rightarrow> if truthy j then Some \<lparr>vp_address = json_get j ''address'', vp_private_key = json_get j ''private_key'',
               vp_pq_public_key = truthy_text (json_get j ''pq_public_key''),
               vp_pq_secret_key = truthy_text (json_get j ''pq_secret_key'')\<rparr>
             else None)))))"

text \<open>\<open>JSON.stringify\<close> leaves out a field that is undefined.\<close>

definition field :: "string \<Rightarrow> json option \<Rightarrow> (string \<times> json) list" where
  "field k v = (case v of None \<Rightarrow> [] | Some j \<Rightarrow> [(k, j)])"

definition pq_payload :: "VaultPqRead \<Rightarrow> PqKeypair \<Rightarrow> json" where
  "pq_payload existing pq = JObj [(''data'', JObj (field ''address'' (vp_address existing)
     @ field ''private_key'' (vp_private_key existing)
     @ [(''pq_public_key'', JStr (pq_toHex (publicKey pq))), (''pq_secret_key'', JStr (pq_toHex (secretKey pq)))]))]"

definition writePQFields :: "VaultEnv \<Rightarrow> string \<Rightarrow> PqKeypair \<Rightarrow> (VaultState, unit) op" where
  "writePQFields ve VAULT_PATH pq =
     bindS (getVaultToken ve) (\<lambda>token.
     bindS (readAnchorSecret ve VAULT_PATH) (\<lambda>existing.
     case existing of None \<Rightarrow> plain (''Vault secret missing at '' @ VAULT_PATH)
     | Some ex \<Rightarrow>
       bindS (fetch \<lparr>rqst_post = True, rqst_url = ve_addr ve @ ''/v1/'' @ api_path VAULT_PATH, rqst_token = Some token,
           rqst_body = Some (pq_payload ex pq)\<rparr>) (\<lambda>res.
       if \<not> http_ok res then plain (''Vault write failed: '' @ js_int (rply_status res) @ '' '' @ rply_text res)
       else ret ())))"

definition cryptoRandom :: "(VaultState, bytes) op" where
  "cryptoRandom = (\<lambda>s. ret (shd (vs_random s)) (s\<lparr>vs_random := stl (vs_random s)\<rparr>))"

definition loadOrInitKeys :: "Crypto \<Rightarrow> VaultEnv \<Rightarrow> string \<Rightarrow> (VaultState, AnchorKeys) op" where
  "loadOrInitKeys cy ve VAULT_PATH =
     bindS (fetchSignerKey ve VAULT_PATH) (\<lambda>ecdsa.
     bindS (readAnchorSecret ve VAULT_PATH) (\<lambda>secret.
     case secret of None \<Rightarrow> plain (''Vault secret missing at '' @ VAULT_PATH)
     | Some sec \<Rightarrow>
       bindS (case (vp_pq_public_key sec, vp_pq_secret_key sec) of
           (Some pk, Some sk) \<Rightarrow> bindS (liftJ (worker_fromHex pk)) (\<lambda>p. bindS (liftJ (worker_fromHex sk)) (\<lambda>q.
             ret \<lparr>publicKey = p, secretKey = q\<rparr>))
         | _ \<Rightarrow> bindS cryptoRandom (\<lambda>seed. bindS (liftJ (generateKeypair cy None seed)) (\<lambda>pq.
             bindS (writePQFields ve VAULT_PATH pq) (\<lambda>_. ret pq)))) (\<lambda>pq.
       bindS (liftJ (worker_publicKeyHash cy (publicKey pq))) (\<lambda>h.
       ret \<lparr>ak_ecdsaAddress = sk_address ecdsa, ak_ecdsaPrivateKey = sk_privateKey ecdsa, ak_pq = pq,
            ak_pqKeyHashHex = pq_toHex h\<rparr>))))"

end
