(* ===== verification/GapuraTypes.thy ===== *)
theory GapuraTypes
  imports JsData AnchorService
begin

text \<open>
  The Gapura gateway (\<open>services/gapura-gateway/src\<close>), first part: the data transfer objects of
  \<open>types.ts\<close>, the problem codes of \<open>errors.ts\<close>, \<open>config.ts\<close> and \<open>services/pq.ts\<close>.  Bodies that the gateway
  only passes through are JSON values.  The stored block number is a JSON value, because one of
  the two stores hands it back as text.
\<close>

subsection \<open>Data transfer objects\<close>

datatype GapuraStatus = G_pending | G_confirmed | G_failed

datatype Scope = Anchor_write | Anchor_read | Identity_read | Identity_write | Metering_read

fun scope_text :: "Scope \<Rightarrow> string" where
  "scope_text Anchor_write = ''anchor:write''"
| "scope_text Anchor_read = ''anchor:read''"
| "scope_text Identity_read = ''identity:read''"
| "scope_text Identity_write = ''identity:write''"
| "scope_text Metering_read = ''metering:read''"

record TxRef =
  tr_chainId :: "int option"
  tr_contract :: "string option"
  tr_txHash :: "string option"
  tr_onChainId :: "string option"
  tr_blockNumber :: "json option"
  tr_logIndex :: "int option"

record Signatures =
  sig_ecdsa :: bool
  sig_mlDsa65 :: bool

record GapuraAnchor =
  ga_anchorId :: string
  ga_onChainId :: "string option"
  ga_digest :: string
  ga_objectDid :: string
  ga_purpose :: string
  ga_status :: GapuraStatus
  ga_txRef :: TxRef
  ga_pqKeyHash :: string
  ga_signatures :: Signatures
  ga_anchoredAt :: string

record AnchorVerification =
  vr_ecdsaOnChain :: bool
  vr_pqVerified :: bool
  vr_pqKeyHash :: string

record VerifyResultAnchor =
  va_anchorId :: string
  va_objectDid :: string
  va_purpose :: string
  va_tenant :: string
  va_actorDid :: "string option"
  va_anchoredAt :: string
  va_txRef :: TxRef
  va_verification :: AnchorVerification
  va_status :: GapuraStatus

record VerifyResult =
  vf_digest :: string
  vf_anchored :: bool
  vf_anchors :: "VerifyResultAnchor list"
  vf_asOf :: string

text \<open>The cost of an anchor is the constant text of a chain without fees and is left out.\<close>

record AnchorStatus =
  as_anchorId :: string
  as_status :: GapuraStatus
  as_confirmations :: int
  as_blockNumber :: "json option"
  as_signatures :: Signatures
  as_failureReason :: "string option"

record Binding =
  bd_authentikSub :: string
  bd_did :: string
  bd_tenant :: string
  bd_boundAt :: string

subsection \<open>Problems\<close>

datatype GapuraCode = G_invalid_digest | G_invalid_did | G_invalid_period | G_invalid_request
  | G_unauthenticated | G_forbidden_scope | G_did_not_found | G_anchor_not_found | G_idempotency_conflict
  | G_did_deactivated | G_unanchorable | G_rate_limited | G_anchor_failed | G_chain_unavailable | G_internal_error

fun gapura_code_text :: "GapuraCode \<Rightarrow> string" where
  "gapura_code_text G_invalid_digest = ''invalid_digest''"
| "gapura_code_text G_invalid_did = ''invalid_did''"
| "gapura_code_text G_invalid_period = ''invalid_period''"
| "gapura_code_text G_invalid_request = ''invalid_request''"
| "gapura_code_text G_unauthenticated = ''unauthenticated''"
| "gapura_code_text G_forbidden_scope = ''forbidden_scope''"
| "gapura_code_text G_did_not_found = ''did_not_found''"
| "gapura_code_text G_anchor_not_found = ''anchor_not_found''"
| "gapura_code_text G_idempotency_conflict = ''idempotency_conflict''"
| "gapura_code_text G_did_deactivated = ''did_deactivated''"
| "gapura_code_text G_unanchorable = ''unanchorable''"
| "gapura_code_text G_rate_limited = ''rate_limited''"
| "gapura_code_text G_anchor_failed = ''anchor_failed''"
| "gapura_code_text G_chain_unavailable = ''chain_unavailable''"
| "gapura_code_text G_internal_error = ''internal_error''"

fun GAPURA_CODE_META :: "GapuraCode \<Rightarrow> nat \<times> string" where
  "GAPURA_CODE_META G_invalid_digest = (400, ''Invalid digest'')"
| "GAPURA_CODE_META G_invalid_did = (400, ''Invalid DID'')"
| "GAPURA_CODE_META G_invalid_period = (400, ''Invalid period'')"
| "GAPURA_CODE_META G_invalid_request = (400, ''Invalid request'')"
| "GAPURA_CODE_META G_unauthenticated = (401, ''Unauthenticated'')"
| "GAPURA_CODE_META G_forbidden_scope = (403, ''Forbidden scope'')"
| "GAPURA_CODE_META G_did_not_found = (404, ''DID not found'')"
| "GAPURA_CODE_META G_anchor_not_found = (404, ''Anchor not found'')"
| "GAPURA_CODE_META G_idempotency_conflict = (409, ''Idempotency conflict'')"
| "GAPURA_CODE_META G_did_deactivated = (410, ''DID deactivated'')"
| "GAPURA_CODE_META G_unanchorable = (422, ''Unanchorable'')"
| "GAPURA_CODE_META G_rate_limited = (429, ''Rate limited'')"
| "GAPURA_CODE_META G_anchor_failed = (502, ''Anchor failed'')"
| "GAPURA_CODE_META G_chain_unavailable = (503, ''Chain unavailable'')"
| "GAPURA_CODE_META G_internal_error = (500, ''Internal error'')"

definition GAPURA_ERROR_BASE :: string where
  "GAPURA_ERROR_BASE = ''https://gapura.ledger.haratrust.io/errors/''"

record GapuraProblem =
  gp_type :: string
  gp_title :: string
  gp_status :: nat
  gp_code :: GapuraCode
  gp_detail :: "string option"
  gp_instance :: string
  gp_traceId :: string

definition gapura_buildProblem :: "GapuraCode \<Rightarrow> string option \<Rightarrow> string \<Rightarrow> string \<Rightarrow> GapuraProblem" where
  "gapura_buildProblem code detail inst traceId = (let (status, title) = GAPURA_CODE_META code in
     \<lparr>gp_type = GAPURA_ERROR_BASE @ gapura_code_text code, gp_title = title, gp_status = status, gp_code = code,
      gp_detail = detail, gp_instance = inst, gp_traceId = traceId\<rparr>)"

text \<open>What a call of the gateway can throw.\<close>

datatype DidReason = R_did_not_found | R_did_deactivated | R_did_unresolvable

fun reason_text :: "DidReason \<Rightarrow> string" where
  "reason_text R_did_not_found = ''did_not_found''"
| "reason_text R_did_deactivated = ''did_deactivated''"
| "reason_text R_did_unresolvable = ''did_unresolvable''"

datatype gapura_fault = G_ProblemError GapuraCode "string option" | G_DidClientError DidReason string
  | G_Uncaught js_exn

text \<open>The error handler and the handler of unknown routes; a Fastify validation error carries a message.\<close>

datatype gapura_thrown = G_Thrown gapura_fault | G_Validation string

definition gapura_errorHandler :: "string \<Rightarrow> string \<Rightarrow> gapura_thrown \<Rightarrow> nat \<times> GapuraProblem" where
  "gapura_errorHandler url reqId err = (case err of
     G_Thrown (G_ProblemError code detail) \<Rightarrow> (fst (GAPURA_CODE_META code), gapura_buildProblem code detail url reqId)
   | G_Validation msg \<Rightarrow> (400, gapura_buildProblem G_invalid_request (Some msg) url reqId)
   | G_Thrown _ \<Rightarrow> (500, gapura_buildProblem G_internal_error (Some ''unexpected error'') url reqId))"

definition gapura_notFoundHandler :: "string \<Rightarrow> string \<Rightarrow> string \<Rightarrow> nat \<times> GapuraProblem" where
  "gapura_notFoundHandler verb url reqId =
     (404, gapura_buildProblem G_anchor_not_found (Some (''no route '' @ verb @ '' '' @ url)) url reqId)"

subsection \<open>Configuration\<close>

definition isGapuraScopedRegistry :: "string \<Rightarrow> bool" where
  "isGapuraScopedRegistry v \<longleftrightarrow> hex_re 40 v \<and> to_lower v \<noteq> to_lower ZERO_ADDRESS
     \<and> to_lower v \<noteq> to_lower SHARED_PLATFORM_PQ_ANCHOR_REGISTRY"

text \<open>A number that is none is \<open>None\<close>.\<close>

record GapuraConfig =
  gc_port :: "int option"
  gc_jwksUrl :: "string option"
  gc_issuer :: "string option"
  gc_audience :: "string option"
  gc_rpcWriteUrl :: string
  gc_rpcReadUrl :: string
  gc_chainId :: "int option"
  gc_pqAnchorRegistry :: string
  gc_anchorGasLimit :: int
  gc_pqAlgorithm :: string
  gc_anchorEcdsaKey :: "string option"
  gc_pqMldsaSeed :: "string option"
  gc_pgUrl :: "string option"
  gc_haradidResolverUrl :: "string option"

definition loadGapuraConfig :: "env \<Rightarrow> GapuraConfig js" where
  "loadGapuraConfig env =
     bindE (env_str env ''GATEWAY_PORT'' (Some ''8930'')) (\<lambda>port.
     bindE (env_str env ''RPC_WRITE_URL'' (Some ''https://rpc.ledger.haratrust.io/write/'')) (\<lambda>write.
     bindE (env_str env ''RPC_READ_URL'' (Some ''https://rpc.ledger.haratrust.io/read/'')) (\<lambda>read.
     bindE (env_str env ''CHAIN_ID'' (Some ''131216'')) (\<lambda>chainId.
     bindE (env_str env ''PQ_ANCHOR_REGISTRY'' (Some ZERO_ADDRESS)) (\<lambda>registry.
     bindE (env_str env ''ANCHOR_GAS_LIMIT'' (Some ''500000'')) (\<lambda>gas.
     bindE (case BigInt gas of None \<Rightarrow> Inl (PlainError ''Cannot convert to a BigInt'') | Some g \<Rightarrow> Inr g) (\<lambda>gasLimit.
     bindE (env_str env ''PQ_ALGORITHM'' (Some ''ML-DSA-65'')) (\<lambda>algorithm.
     Inr \<lparr>gc_port = js_Number port, gc_jwksUrl = env_optional env ''AUTHENTIK_JWKS_URL'',
       gc_issuer = env_optional env ''AUTHENTIK_ISSUER'', gc_audience = env_optional env ''AUTHENTIK_AUDIENCE'',
       gc_rpcWriteUrl = write, gc_rpcReadUrl = read, gc_chainId = js_Number chainId, gc_pqAnchorRegistry = registry,
       gc_anchorGasLimit = gasLimit, gc_pqAlgorithm = algorithm,
       gc_anchorEcdsaKey = env_optional env ''ANCHOR_ECDSA_KEY'', gc_pqMldsaSeed = env_optional env ''PQ_MLDSA_SEED'',
       gc_pgUrl = env_optional env ''PG_URL'', gc_haradidResolverUrl = env_optional env ''HARADID_RESOLVER_URL''\<rparr>))))))))"

lemma env_str_unset: "env name = None \<Longrightarrow> env_str env name (Some f) = Inr f"
  by (simp add: env_str_def)

lemma default_registry_is_refused:
  assumes "env ''PQ_ANCHOR_REGISTRY'' = None" "loadGapuraConfig env = Inr cfg"
  shows "\<not> isGapuraScopedRegistry (gc_pqAnchorRegistry cfg)"
proof -
  have "gc_pqAnchorRegistry cfg = ZERO_ADDRESS"
    using assms(2) unfolding loadGapuraConfig_def env_str_unset[of env, OF assms(1)] bindE_simps bindE_Inr_iff
    by (elim exE conjE) (simp only: sum.inject, hypsubst, simp)
  then show ?thesis by (simp add: isGapuraScopedRegistry_def)
qed

subsection \<open>ML-DSA-65 and the canonical anchor message\<close>

definition gapura_keygenFromSeed :: "Crypto \<Rightarrow> bytes \<Rightarrow> PqKeypair js" where
  "gapura_keygenFromSeed cy seed =
     (if length seed \<noteq> 32 then Inl (PlainError ''seed must be 32 bytes'')
      else let (pub, sec) = cy_keygen cy seed in Inr \<lparr>publicKey = pub, secretKey = sec\<rparr>)"

definition gapura_publicKeyHash :: "Crypto \<Rightarrow> bytes \<Rightarrow> bytes js" where
  "gapura_publicKeyHash cy pub =
     (if length pub \<noteq> 1952 then Inl (PlainError (''public key must be '' @ js_num 1952 @ '' bytes''))
      else Inr (cy_keccak cy pub))"

definition gapura_sign :: "Crypto \<Rightarrow> bytes \<Rightarrow> bytes \<Rightarrow> bytes js" where
  "gapura_sign cy sec message =
     (if length sec \<noteq> 4032 then Inl (PlainError (''secret key must be '' @ js_num 4032 @ '' bytes''))
      else let sig = cy_sign cy sec message in
        if length sig \<noteq> 3309
        then Inl (PlainError (''expected '' @ js_num 3309 @ ''-byte signature, got '' @ js_num (length sig)))
        else Inr sig)"

definition canonicalMessage :: "string \<Rightarrow> bytes \<Rightarrow> int \<Rightarrow> int \<Rightarrow> int \<Rightarrow> bytes \<Rightarrow> bytes js" where
  "canonicalMessage algorithm root blockFrom blockTo eventCount anchorChain =
     (let algoBytes = utf8 algorithm in
      bindE (u16 (length algoBytes)) (\<lambda>algoLen.
      bindE (u64 blockFrom) (\<lambda>f. bindE (u64 blockTo) (\<lambda>t. bindE (u64 eventCount) (\<lambda>c.
      Inr (algoLen @ algoBytes @ root @ f @ t @ c @ anchorChain))))))"

text \<open>A byte that is not two hexadecimal digits is read leniently, as in the ledger's module.\<close>

definition gapura_fromHex :: "string \<Rightarrow> bytes js" where
  "gapura_fromHex hex = (let clean = (if starts_with ''0x'' hex then drop 2 hex else hex) in
     if length clean mod 2 \<noteq> 0 then Inl (PlainError ''hex length must be even'') else Inr (pq_pairs clean))"

definition gapura_toHex :: "bytes \<Rightarrow> string" where
  "gapura_toHex b = ''0x'' @ hex_of b"

text \<open>With a root and a tag of 32 bytes the message determines every field.\<close>

lemma canonicalMessage_inject:
  assumes "canonicalMessage alg r f t c k = Inr m" "canonicalMessage alg' r' f' t' c' k' = Inr m"
    and "length r = 32" "length r' = 32"
  shows "alg = alg' \<and> r = r' \<and> f = f' \<and> t = t' \<and> c = c' \<and> k = k'"
proof -
  obtain la bf bt bc where 1: "u16 (length (utf8 alg)) = Inr la" "u64 f = Inr bf" "u64 t = Inr bt" "u64 c = Inr bc"
    "m = la @ utf8 alg @ r @ bf @ bt @ bc @ k"
    using assms(1) by (auto simp: canonicalMessage_def Let_def bindE_Inr_iff)
  obtain la' bf' bt' bc' where 2: "u16 (length (utf8 alg')) = Inr la'" "u64 f' = Inr bf'" "u64 t' = Inr bt'" "u64 c' = Inr bc'"
    "m = la' @ utf8 alg' @ r' @ bf' @ bt' @ bc' @ k'"
    using assms(2) by (auto simp: canonicalMessage_def Let_def bindE_Inr_iff)
  have a: "utf8 alg = utf8 alg' \<and> r @ bf @ bt @ bc @ k = r' @ bf' @ bt' @ bc' @ k'"
    using length_prefix_inject[OF 1(1) 2(1)] 1(5) 2(5) by blast
  have "length bf = 8" "length bt = 8" "length bc = 8" "length bf' = 8" "length bt' = 8" "length bc' = 8"
    using 1(2,3,4) 2(2,3,4) by (auto simp: u64_Inr_iff)
  with a assms(3,4) have "r = r'" "bf = bf'" "bt = bt'" "bc = bc'" "k = k'" by auto
  with a u64_inject[OF 1(2)] u64_inject[OF 1(3)] u64_inject[OF 1(4)] 2 show ?thesis by auto
qed

end
