(* ===== verification/GapuraStore.thy ===== *)
theory GapuraStore
  imports GapuraTypes
begin

text \<open>
  The store of the Gapura gateway: the interface and records of \<open>store/index.ts\<close>, the in-memory store
  (\<open>store/memory.ts\<close>) and the PostgreSQL store (\<open>store/postgres.ts\<close>).  The locale states what the
  gateway relies on; both stores are shown to give it.  An operation that reads the clock takes the
  time as its first argument.
\<close>

subsection \<open>The interface\<close>

record GapuraRecord =
  gr_anchorId :: string
  gr_onChainId :: "string option"
  gr_digest :: string
  gr_hashAlg :: string
  gr_objectDid :: string
  gr_purpose :: string
  gr_actorDid :: "string option"
  gr_tenant :: string
  gr_txHash :: "string option"
  gr_blockNumber :: "json option"
  gr_logIndex :: "int option"
  gr_pqKeyHash :: string
  gr_pqVerified :: bool
  gr_status :: GapuraStatus
  gr_failureReason :: "string option"
  gr_anchoredAt :: string

record IdempotencyEntry =
  ie_bodyHash :: string
  ie_anchorId :: string
  ie_storedAt :: int

record 's GapuraStore =
  gs_getAnchorByDigest :: "'s \<Rightarrow> string \<Rightarrow> GapuraRecord option js"
  gs_getAnchorById :: "'s \<Rightarrow> string \<Rightarrow> GapuraRecord option js"
  gs_putAnchor :: "'s \<Rightarrow> GapuraRecord \<Rightarrow> 's js"
  gs_getIdempotency :: "int \<Rightarrow> 's \<Rightarrow> string \<Rightarrow> (IdempotencyEntry option \<times> 's) js"
  gs_putIdempotency :: "int \<Rightarrow> 's \<Rightarrow> string \<Rightarrow> IdempotencyEntry \<Rightarrow> 's js"
  gs_getBindingBySubject :: "'s \<Rightarrow> string \<Rightarrow> Binding option js"
  gs_putBinding :: "int \<Rightarrow> 's \<Rightarrow> string \<Rightarrow> string \<Rightarrow> string \<Rightarrow> string option \<Rightarrow> (Binding \<times> 's) js"

subsection \<open>In memory\<close>

record GapuraMemory =
  gm_byDigest :: "string \<rightharpoonup> GapuraRecord"
  gm_byId :: "string \<rightharpoonup> GapuraRecord"
  gm_idem :: "string \<rightharpoonup> IdempotencyEntry"
  gm_bindingsBySub :: "string \<rightharpoonup> Binding"

definition emptyGapuraMemory :: GapuraMemory where
  "emptyGapuraMemory = \<lparr>gm_byDigest = Map.empty, gm_byId = Map.empty, gm_idem = Map.empty, gm_bindingsBySub = Map.empty\<rparr>"

definition IDEMPOTENCY_TTL_MS :: int where "IDEMPOTENCY_TTL_MS = 24 * 60 * 60 * 1000"

definition gm_getAnchorByDigest :: "GapuraMemory \<Rightarrow> string \<Rightarrow> GapuraRecord option js" where
  "gm_getAnchorByDigest s digest = Inr (gm_byDigest s (to_lower digest))"

definition gm_getAnchorById :: "GapuraMemory \<Rightarrow> string \<Rightarrow> GapuraRecord option js" where
  "gm_getAnchorById s anchorId = Inr (gm_byId s anchorId)"

definition gm_putAnchor :: "GapuraMemory \<Rightarrow> GapuraRecord \<Rightarrow> GapuraMemory js" where
  "gm_putAnchor s r = Inr (s\<lparr>gm_byDigest := (gm_byDigest s)(to_lower (gr_digest r) \<mapsto> r),
     gm_byId := (gm_byId s)(gr_anchorId r \<mapsto> r)\<rparr>)"

definition gm_getIdempotency :: "int \<Rightarrow> GapuraMemory \<Rightarrow> string \<Rightarrow> (IdempotencyEntry option \<times> GapuraMemory) js" where
  "gm_getIdempotency time s key = (case gm_idem s key of
     None \<Rightarrow> Inr (None, s)
   | Some e \<Rightarrow> if time - ie_storedAt e > IDEMPOTENCY_TTL_MS then Inr (None, s\<lparr>gm_idem := (gm_idem s)(key := None)\<rparr>)
       else Inr (Some e, s))"

definition gm_putIdempotency :: "int \<Rightarrow> GapuraMemory \<Rightarrow> string \<Rightarrow> IdempotencyEntry \<Rightarrow> GapuraMemory js" where
  "gm_putIdempotency time s key e = Inr (s\<lparr>gm_idem := (gm_idem s)(key \<mapsto> e)\<rparr>)"

definition gm_getBindingBySubject :: "GapuraMemory \<Rightarrow> string \<Rightarrow> Binding option js" where
  "gm_getBindingBySubject s authentikSub = Inr (gm_bindingsBySub s authentikSub)"

definition gm_putBinding ::
  "int \<Rightarrow> GapuraMemory \<Rightarrow> string \<Rightarrow> string \<Rightarrow> string \<Rightarrow> string option \<Rightarrow> (Binding \<times> GapuraMemory) js" where
  "gm_putBinding time s authentikSub did tenant boundAt =
     (let stored = \<lparr>bd_authentikSub = authentikSub, bd_did = did, bd_tenant = tenant,
        bd_boundAt = default_to (toISOString time) boundAt\<rparr>
      in Inr (stored, s\<lparr>gm_bindingsBySub := (gm_bindingsBySub s)(authentikSub \<mapsto> stored)\<rparr>))"

definition gapura_memory_store :: "GapuraMemory GapuraStore" where
  "gapura_memory_store = \<lparr>gs_getAnchorByDigest = gm_getAnchorByDigest, gs_getAnchorById = gm_getAnchorById,
     gs_putAnchor = gm_putAnchor, gs_getIdempotency = gm_getIdempotency, gs_putIdempotency = gm_putIdempotency,
     gs_getBindingBySubject = gm_getBindingBySubject, gs_putBinding = gm_putBinding\<rparr>"

subsection \<open>PostgreSQL\<close>

text \<open>
  The three tables of the schema in the file's header, rows in table order.  \<open>ts\<close> says how a timestamp
  text is read back through the driver and \<open>toISOString\<close>, \<open>None\<close> when the server rejects the text.  A
  column of type \<open>bigint\<close> is read back as text.  A violated key is an error.
\<close>

record GapuraPg =
  gt_anchor :: "GapuraRecord list"
  gt_idempotency :: "(string \<times> IdempotencyEntry) list"
  gt_binding :: "Binding list"

definition gapura_query_error :: "'a js" where
  "gapura_query_error = Inl (PlainError ''query failed'')"

text \<open>The driver gives \<open>bigint\<close> values as decimal text.\<close>

definition bigint_column :: "json \<Rightarrow> json" where
  "bigint_column v = (case v of JNum n \<Rightarrow> JStr (js_int n) | _ \<Rightarrow> v)"

definition rowToAnchor :: "(string \<Rightarrow> string option) \<Rightarrow> GapuraRecord \<Rightarrow> GapuraRecord" where
  "rowToAnchor ts row = row\<lparr>gr_blockNumber := map_option bigint_column (gr_blockNumber row),
     gr_anchoredAt := the (ts (gr_anchoredAt row))\<rparr>"

definition gp_getAnchorByDigest ::
  "(string \<Rightarrow> string option) \<Rightarrow> GapuraPg \<Rightarrow> string \<Rightarrow> GapuraRecord option js" where
  "gp_getAnchorByDigest ts s digest =
     Inr (map_option (rowToAnchor ts) (find (\<lambda>r. gr_digest r = to_lower digest) (gt_anchor s)))"

definition gp_getAnchorById ::
  "(string \<Rightarrow> string option) \<Rightarrow> GapuraPg \<Rightarrow> string \<Rightarrow> GapuraRecord option js" where
  "gp_getAnchorById ts s anchorId =
     Inr (map_option (rowToAnchor ts) (find (\<lambda>r. gr_anchorId r = anchorId) (gt_anchor s)))"

definition gp_putAnchor :: "(string \<Rightarrow> string option) \<Rightarrow> GapuraPg \<Rightarrow> GapuraRecord \<Rightarrow> GapuraPg js" where
  "gp_putAnchor ts s a = (let row = a\<lparr>gr_digest := to_lower (gr_digest a)\<rparr> in
     if ts (gr_anchoredAt a) = None then gapura_query_error
     else if \<exists>x\<in>set (gt_anchor s). gr_digest x = gr_digest row then Inr s
     else if \<exists>x\<in>set (gt_anchor s). gr_anchorId x = gr_anchorId row then gapura_query_error
     else Inr (s\<lparr>gt_anchor := gt_anchor s @ [row]\<rparr>))"

definition gp_getIdempotency :: "int \<Rightarrow> GapuraPg \<Rightarrow> string \<Rightarrow> (IdempotencyEntry option \<times> GapuraPg) js" where
  "gp_getIdempotency time s key = Inr (map_of (gt_idempotency s) key, s)"

text \<open>\<open>stored_at\<close> takes the server's time; the anchor must exist.\<close>

definition gp_putIdempotency :: "int \<Rightarrow> GapuraPg \<Rightarrow> string \<Rightarrow> IdempotencyEntry \<Rightarrow> GapuraPg js" where
  "gp_putIdempotency time s key e =
     (if map_of (gt_idempotency s) key \<noteq> None then Inr s
      else if \<forall>a\<in>set (gt_anchor s). gr_anchorId a \<noteq> ie_anchorId e then gapura_query_error
      else Inr (s\<lparr>gt_idempotency := gt_idempotency s @ [(key, e\<lparr>ie_storedAt := time\<rparr>)]\<rparr>))"

definition gp_getBindingBySubject ::
  "(string \<Rightarrow> string option) \<Rightarrow> GapuraPg \<Rightarrow> string \<Rightarrow> Binding option js" where
  "gp_getBindingBySubject ts s authentikSub =
     Inr (map_option (\<lambda>b. b\<lparr>bd_boundAt := the (ts (bd_boundAt b))\<rparr>)
       (find (\<lambda>b. bd_authentikSub b = authentikSub) (gt_binding s)))"

text \<open>An existing binding keeps the time it was made.\<close>

definition gp_putBinding ::
  "(string \<Rightarrow> string option) \<Rightarrow> int \<Rightarrow> GapuraPg \<Rightarrow> string \<Rightarrow> string \<Rightarrow> string \<Rightarrow> string option
     \<Rightarrow> (Binding \<times> GapuraPg) js" where
  "gp_putBinding ts time s authentikSub did tenant boundAt =
     (case find (\<lambda>b. bd_authentikSub b = authentikSub) (gt_binding s) of
        None \<Rightarrow> (let row = \<lparr>bd_authentikSub = authentikSub, bd_did = did, bd_tenant = tenant, bd_boundAt = toISOString time\<rparr>
          in Inr (row\<lparr>bd_boundAt := the (ts (bd_boundAt row))\<rparr>, s\<lparr>gt_binding := gt_binding s @ [row]\<rparr>))
      | Some old \<Rightarrow> (let row = old\<lparr>bd_did := did, bd_tenant := tenant\<rparr>
          in Inr (row\<lparr>bd_boundAt := the (ts (bd_boundAt row))\<rparr>,
               s\<lparr>gt_binding := map (\<lambda>b. if bd_authentikSub b = authentikSub then row else b) (gt_binding s)\<rparr>)))"

definition gapura_postgres_store :: "(string \<Rightarrow> string option) \<Rightarrow> GapuraPg GapuraStore" where
  "gapura_postgres_store ts = \<lparr>gs_getAnchorByDigest = gp_getAnchorByDigest ts, gs_getAnchorById = gp_getAnchorById ts,
     gs_putAnchor = gp_putAnchor ts, gs_getIdempotency = gp_getIdempotency, gs_putIdempotency = gp_putIdempotency,
     gs_getBindingBySubject = gp_getBindingBySubject ts, gs_putBinding = gp_putBinding ts\<rparr>"

subsection \<open>The contract\<close>

text \<open>
  What the gateway relies on.  \<open>known\<close> are the anchors a store holds, \<open>view\<close> is how it hands one back.  An
  anchor put for a digest that is not known is added and nothing else changes the anchors; a
  look-up finds exactly what is known; no digest has two anchors.
\<close>

locale gapura_store =
  fixes S :: "'s GapuraStore" and good :: "'s \<Rightarrow> bool" and known :: "'s \<Rightarrow> GapuraRecord set"
    and view :: "GapuraRecord \<Rightarrow> GapuraRecord"
  assumes by_digest: "good s \<Longrightarrow> gs_getAnchorByDigest S s d = Inr
        (if \<exists>r\<in>known s. gr_digest r = to_lower d then Some (view (THE r. r \<in> known s \<and> gr_digest r = to_lower d)) else None)"
    and by_id: "good s \<Longrightarrow> gs_getAnchorById S s i = Inr (Some x) \<Longrightarrow> \<exists>r\<in>known s. x = view r \<and> gr_anchorId r = i"
    and put_known: "good s \<Longrightarrow> gs_putAnchor S s r = Inr s' \<Longrightarrow> gs_getAnchorByDigest S s (gr_digest r) = Inr None \<Longrightarrow>
        to_lower (gr_digest r) = gr_digest r \<Longrightarrow> good s' \<and> known s' = insert r (known s)"
    and unique: "good s \<Longrightarrow> r \<in> known s \<Longrightarrow> r' \<in> known s \<Longrightarrow> gr_digest r = gr_digest r' \<Longrightarrow> r = r'"
    and idem_get: "good s \<Longrightarrow> gs_getIdempotency S t s k = Inr (en, s') \<Longrightarrow> good s' \<and> known s' = known s"
    and idem_put: "good s \<Longrightarrow> gs_putIdempotency S t s k e = Inr s' \<Longrightarrow> good s' \<and> known s' = known s"
    and binding_put: "good s \<Longrightarrow> gs_putBinding S t s sub did tenant b = Inr (bd, s') \<Longrightarrow> good s' \<and> known s' = known s"
    and view_keeps: "gr_anchorId (view r) = gr_anchorId r \<and> gr_digest (view r) = gr_digest r \<and> gr_txHash (view r) = gr_txHash r"
begin

lemma found:
  assumes "good s" "r \<in> known s" "gr_digest r = to_lower d"
  shows "gs_getAnchorByDigest S s d = Inr (Some (view r))"
proof -
  have "(THE x. x \<in> known s \<and> gr_digest x = to_lower d) = r"
    by (rule the_equality) (use assms unique in auto)
  with assms by_digest[OF assms(1), of d] show ?thesis by auto
qed

lemma found_only:
  assumes "good s" "gs_getAnchorByDigest S s d = Inr (Some x)"
  obtains r where "r \<in> known s" "x = view r" "gr_digest r = to_lower d"
proof -
  from assms by_digest[OF assms(1), of d] obtain r where r: "r \<in> known s" "gr_digest r = to_lower d"
    by (auto split: if_splits)
  with found[OF assms(1) r] assms(2) show thesis by (intro that) auto
qed

lemma absent: "good s \<Longrightarrow> gs_getAnchorByDigest S s d = Inr None \<longleftrightarrow> (\<forall>r\<in>known s. gr_digest r \<noteq> to_lower d)"
  by (auto simp: by_digest)

text \<open>What is put for a new digest is found from then on.\<close>

lemma put_then_get:
  assumes "good s" "gs_putAnchor S s r = Inr s'" "gs_getAnchorByDigest S s (gr_digest r) = Inr None"
    and "to_lower (gr_digest r) = gr_digest r" "to_lower d = gr_digest r"
  shows "gs_getAnchorByDigest S s' d = Inr (Some (view r))"
  using put_known[OF assms(1-4)] assms(5) by (intro found) auto

end

subsection \<open>Both stores keep it\<close>

definition gm_ok :: "GapuraMemory \<Rightarrow> bool" where
  "gm_ok s \<longleftrightarrow> (\<forall>d r. gm_byDigest s d = Some r \<longrightarrow> gr_digest r = d)
     \<and> (\<forall>i r. gm_byId s i = Some r \<longrightarrow> gr_anchorId r = i \<and> gm_byDigest s (gr_digest r) = Some r)
     \<and> (\<forall>d r. gm_byDigest s d = Some r \<longrightarrow> gm_byId s (gr_anchorId r) \<noteq> None)"

definition gm_known :: "GapuraMemory \<Rightarrow> GapuraRecord set" where
  "gm_known s = ran (gm_byDigest s)"

lemma gm_known_iff: "gm_ok s \<Longrightarrow> r \<in> gm_known s \<longleftrightarrow> gm_byDigest s (gr_digest r) = Some r"
  by (auto simp: gm_ok_def gm_known_def ran_def)

lemma gm_put_ok:
  assumes "gm_ok s" "gm_byDigest s (gr_digest r) = None" "to_lower (gr_digest r) = gr_digest r" "gm_putAnchor s r = Inr s'"
  shows "gm_ok s' \<and> gm_known s' = insert r (gm_known s)"
proof -
  have s': "s' = s\<lparr>gm_byDigest := (gm_byDigest s)(gr_digest r \<mapsto> r), gm_byId := (gm_byId s)(gr_anchorId r \<mapsto> r)\<rparr>"
    using assms(3,4) by (simp add: gm_putAnchor_def)
  have "gm_ok s'"
    using assms(1,2) unfolding gm_ok_def s' by (auto split: if_splits) (metis option.distinct(1))
  with assms(2) s' show ?thesis by (simp add: gm_known_def ran_map_upd)
qed

lemma gm_by_digest:
  assumes "gm_ok s"
  shows "gm_getAnchorByDigest s d = Inr (if \<exists>r\<in>gm_known s. gr_digest r = to_lower d
     then Some (THE r. r \<in> gm_known s \<and> gr_digest r = to_lower d) else None)"
proof (cases "gm_byDigest s (to_lower d)")
  case None
  then show ?thesis using assms by (auto simp: gm_getAnchorByDigest_def gm_known_iff)
next
  case (Some r)
  then have r: "r \<in> gm_known s" "gr_digest r = to_lower d" using assms by (auto simp: gm_ok_def gm_known_iff)
  have "(THE x. x \<in> gm_known s \<and> gr_digest x = to_lower d) = r"
    by (rule the_equality) (use r assms Some in \<open>auto simp: gm_known_iff\<close>)
  with r Some show ?thesis by (auto simp: gm_getAnchorByDigest_def)
qed

interpretation gm: gapura_store gapura_memory_store gm_ok gm_known "\<lambda>r. r"
proof
  fix s :: GapuraMemory and d assume "gm_ok s"
  then show "gs_getAnchorByDigest gapura_memory_store s d = Inr (if \<exists>r\<in>gm_known s. gr_digest r = to_lower d
     then Some (THE r. r \<in> gm_known s \<and> gr_digest r = to_lower d) else None)"
    using gm_by_digest by (simp add: gapura_memory_store_def)
next
  fix s s' r assume "gm_ok s" "gs_putAnchor gapura_memory_store s r = Inr s'"
    "gs_getAnchorByDigest gapura_memory_store s (gr_digest r) = Inr None" "to_lower (gr_digest r) = gr_digest r"
  then show "gm_ok s' \<and> gm_known s' = insert r (gm_known s)"
    by (intro gm_put_ok) (simp_all add: gapura_memory_store_def gm_getAnchorByDigest_def)
next
  fix s i x assume "gm_ok s" "gs_getAnchorById gapura_memory_store s i = Inr (Some x)"
  then show "\<exists>r\<in>gm_known s. x = r \<and> gr_anchorId r = i"
    by (auto simp: gapura_memory_store_def gm_getAnchorById_def gm_known_iff gm_ok_def)
next
  fix s r r' assume "gm_ok s" "r \<in> gm_known s" "r' \<in> gm_known s" "gr_digest r = gr_digest r'"
  then show "r = r'" by (simp add: gm_known_iff)
qed (auto simp: gapura_memory_store_def gm_getIdempotency_def gm_putIdempotency_def gm_putBinding_def
    gm_ok_def Let_def gm_known_def split: option.splits if_splits)

definition gp_ok :: "GapuraPg \<Rightarrow> bool" where
  "gp_ok s \<longleftrightarrow> distinct (map gr_digest (gt_anchor s))"

definition gp_known :: "GapuraPg \<Rightarrow> GapuraRecord set" where
  "gp_known s = set (gt_anchor s)"

lemma find_unique:
  assumes "distinct (map f xs)"
  shows "find (\<lambda>x. f x = y) xs = (if \<exists>x\<in>set xs. f x = y then Some (THE x. x \<in> set xs \<and> f x = y) else None)"
proof (cases "\<exists>x\<in>set xs. f x = y")
  case True
  then obtain x where x: "x \<in> set xs" "f x = y" by blast
  have "(THE x. x \<in> set xs \<and> f x = y) = x"
    by (rule the_equality) (use x assms in \<open>auto simp: distinct_map inj_on_def\<close>)
  moreover have "find (\<lambda>x. f x = y) xs = Some x"
    using x assms by (induction xs) (auto simp: rev_image_eqI)
  ultimately show ?thesis using True by auto
qed (auto simp: find_None_iff)

interpretation gp: gapura_store "gapura_postgres_store ts" gp_ok gp_known "rowToAnchor ts" for ts
proof
  fix s :: GapuraPg and d assume "gp_ok s"
  then show "gs_getAnchorByDigest (gapura_postgres_store ts) s d = Inr (if \<exists>r\<in>gp_known s. gr_digest r = to_lower d
     then Some (rowToAnchor ts (THE r. r \<in> gp_known s \<and> gr_digest r = to_lower d)) else None)"
    by (simp add: gapura_postgres_store_def gp_getAnchorByDigest_def gp_ok_def gp_known_def find_unique)
next
  fix s s' r assume "gp_ok s" "gs_putAnchor (gapura_postgres_store ts) s r = Inr s'"
    "gs_getAnchorByDigest (gapura_postgres_store ts) s (gr_digest r) = Inr None" "to_lower (gr_digest r) = gr_digest r"
  then show "gp_ok s' \<and> gp_known s' = insert r (gp_known s)"
    by (auto simp: gapura_postgres_store_def gp_getAnchorByDigest_def gp_putAnchor_def gp_ok_def gp_known_def
        gapura_query_error_def Let_def find_None_iff split: if_splits) metis+
next
  fix s i x assume "gs_getAnchorById (gapura_postgres_store ts) s i = Inr (Some x)"
  then show "\<exists>r\<in>gp_known s. x = rowToAnchor ts r \<and> gr_anchorId r = i"
    by (auto simp: gapura_postgres_store_def gp_getAnchorById_def gp_known_def find_Some_iff)
qed (auto simp: rowToAnchor_def gapura_postgres_store_def gp_getIdempotency_def gp_putIdempotency_def gp_putBinding_def gp_ok_def
    gp_known_def gapura_query_error_def Let_def distinct_map inj_on_def split: option.splits if_splits)

end
