(* ===== verification/GapuraAnchors.thy ===== *)
theory GapuraAnchors
  imports GapuraStore
begin

text \<open>
  The anchor service of the Gapura gateway (\<open>services/anchor-service.ts\<close>) and its client of the DID
  resolver (\<open>clients/haradid.ts\<close>).  The state holds the store, and for every kind of call that leaves the
  process the answers to come; submitted transactions and requests to the resolver are traced.
\<close>

subsection \<open>State and outside calls\<close>

record GapuraReceipt =
  gx_success :: bool
  gx_blockNumber :: int
  gx_logs :: "(string \<times> string list \<times> int) list"

record 's Gateway =
  gw_store :: 's
  gw_clock :: "int stream"
  gw_rand :: "bytes stream"
  gw_head :: "(string + int) stream"
  gw_submit :: "(string + string) stream"
  gw_receipt :: "(string + GapuraReceipt) stream"
  gw_fetch :: "(string + HttpResponse) stream"
  gw_sent :: "RecordAnchorTx list"
  gw_fetched :: "(string \<times> string \<times> string option) list"

type_synonym ('s, 'a) gop = "('s Gateway, gapura_fault, 'a) xop"

definition g_problem :: "GapuraCode \<Rightarrow> string \<Rightarrow> ('s, 'a) gop" where
  "g_problem code detail = throw (G_ProblemError code (Some detail))"

definition g_lift :: "'a js \<Rightarrow> ('s, 'a) gop" where
  "g_lift m = (\<lambda>s. (case m of Inl e \<Rightarrow> Inl (G_Uncaught e) | Inr x \<Rightarrow> Inr x, s))"

definition g_now :: "('s, int) gop" where
  "g_now s = (Inr (shd (gw_clock s)), s\<lparr>gw_clock := stl (gw_clock s)\<rparr>)"

definition g_random :: "('s, bytes) gop" where
  "g_random s = (Inr (shd (gw_rand s)), s\<lparr>gw_rand := stl (gw_rand s)\<rparr>)"

definition g_getBlockNumber :: "('s, string + int) gop" where
  "g_getBlockNumber s = (Inr (shd (gw_head s)), s\<lparr>gw_head := stl (gw_head s)\<rparr>)"

definition g_writeContract :: "RecordAnchorTx \<Rightarrow> ('s, string + string) gop" where
  "g_writeContract tx s = (Inr (shd (gw_submit s)), s\<lparr>gw_submit := stl (gw_submit s), gw_sent := gw_sent s @ [tx]\<rparr>)"

definition g_waitForReceipt :: "('s, string + GapuraReceipt) gop" where
  "g_waitForReceipt s = (Inr (shd (gw_receipt s)), s\<lparr>gw_receipt := stl (gw_receipt s)\<rparr>)"

text \<open>A \<open>fetch\<close> that rejects throws a \<open>TypeError\<close>.\<close>

definition g_fetch :: "string \<Rightarrow> string \<Rightarrow> string option \<Rightarrow> ('s, HttpResponse) gop" where
  "g_fetch verb url body s = (let s' = s\<lparr>gw_fetch := stl (gw_fetch s), gw_fetched := gw_fetched s @ [(verb, url, body)]\<rparr> in
     case shd (gw_fetch s) of Inl msg \<Rightarrow> (Inl (G_Uncaught TypeError), s') | Inr r \<Rightarrow> (Inr r, s'))"

text \<open>A read of the store, and an operation that changes it.\<close>

definition g_read :: "('s \<Rightarrow> 'a js) \<Rightarrow> ('s, 'a) gop" where
  "g_read f s = g_lift (f (gw_store s)) s"

definition g_write :: "('s \<Rightarrow> ('a \<times> 's) js) \<Rightarrow> ('s, 'a) gop" where
  "g_write f s = (case f (gw_store s) of Inl e \<Rightarrow> (Inl (G_Uncaught e), s)
     | Inr (x, t) \<Rightarrow> (Inr x, s\<lparr>gw_store := t\<rparr>))"

definition g_put :: "('s \<Rightarrow> 's js) \<Rightarrow> ('s, unit) gop" where
  "g_put f = g_write (\<lambda>s. bindE (f s) (\<lambda>t. Inr ((), t)))"

subsection \<open>The service\<close>

record GapuraService =
  gv_config :: GapuraConfig
  gv_account :: "string option"
  gv_pqKeypair :: "PqKeypair option"
  gv_pqKeyHashHex :: string

definition newGapuraService :: "Crypto \<Rightarrow> GapuraConfig \<Rightarrow> GapuraService js" where
  "newGapuraService cy config =
     (let account = (if isRealPrivateKey (gc_anchorEcdsaKey config) then gc_anchorEcdsaKey config else None) in
      if isRealSeed (gc_pqMldsaSeed config) then
        bindE (gapura_fromHex (case gc_pqMldsaSeed config of None \<Rightarrow> [] | Some s \<Rightarrow> s)) (\<lambda>seed.
        bindE (gapura_keygenFromSeed cy seed) (\<lambda>kp.
        bindE (gapura_publicKeyHash cy (publicKey kp)) (\<lambda>h.
        Inr \<lparr>gv_config = config, gv_account = account, gv_pqKeypair = Some kp, gv_pqKeyHashHex = gapura_toHex h\<rparr>)))
      else Inr \<lparr>gv_config = config, gv_account = account, gv_pqKeypair = None,
             gv_pqKeyHashHex = ''0x'' @ replicate 64 CHR ''0''\<rparr>)"

definition gapura_writesEnabled :: "GapuraService \<Rightarrow> bool" where
  "gapura_writesEnabled sv \<longleftrightarrow> gv_account sv \<noteq> None \<and> gv_pqKeypair sv \<noteq> None
     \<and> isGapuraScopedRegistry (gc_pqAnchorRegistry (gv_config sv))"

definition anchorChainTag :: "Crypto \<Rightarrow> string \<Rightarrow> string \<Rightarrow> bytes" where
  "anchorChainTag cy purpose tenant = cy_keccak cy (utf8 (purpose @ ''|'' @ tenant))"

definition newAnchorId :: "('s, string) gop" where
  "newAnchorId = bindS g_random (\<lambda>b. ret (''gap_anc_'' @ hex_of b))"

definition toDto :: "GapuraService \<Rightarrow> GapuraRecord \<Rightarrow> GapuraAnchor" where
  "toDto sv r =
     \<lparr>ga_anchorId = gr_anchorId r, ga_onChainId = gr_onChainId r, ga_digest = gr_digest r, ga_objectDid = gr_objectDid r,
      ga_purpose = gr_purpose r, ga_status = gr_status r,
      ga_txRef = \<lparr>tr_chainId = gc_chainId (gv_config sv), tr_contract = Some (gc_pqAnchorRegistry (gv_config sv)),
        tr_txHash = gr_txHash r, tr_onChainId = gr_onChainId r, tr_blockNumber = gr_blockNumber r, tr_logIndex = gr_logIndex r\<rparr>,
      ga_pqKeyHash = gr_pqKeyHash r, ga_signatures = \<lparr>sig_ecdsa = True, sig_mlDsa65 = True\<rparr>,
      ga_anchoredAt = gr_anchoredAt r\<rparr>"

record CreateAnchorRequest =
  ca_digest :: string
  ca_hashAlg :: string
  ca_objectDid :: string
  ca_purpose :: string
  ca_actorDid :: "string option"
  ca_tenant :: string

text \<open>The identifier and log index: the first log of the registry that has a topic.\<close>

fun gapura_find_log :: "string \<Rightarrow> (string \<times> string list \<times> int) list \<Rightarrow> string + (string \<times> int) option" where
  "gapura_find_log registry [] = Inr None"
| "gapura_find_log registry ((address, topics, logIndex) # logs) =
     (if to_lower address = to_lower registry \<and> topics \<noteq> [] \<and> hd topics \<noteq> [] then
        (case BigInt (if 1 < length topics then topics ! 1 else ''0x0'') of
           None \<Rightarrow> Inl ''Cannot convert to a BigInt''
         | Some v \<Rightarrow> Inr (Some (js_int v, logIndex)))
      else gapura_find_log registry logs)"

text \<open>The message, its signature and the hash that is committed.\<close>

definition signed_commitment ::
  "Crypto \<Rightarrow> GapuraService \<Rightarrow> PqKeypair \<Rightarrow> bytes \<Rightarrow> int \<Rightarrow> bytes \<Rightarrow> ('s, bytes) gop" where
  "signed_commitment cy sv kp digestBytes safeHead anchorChain =
     bindS (g_lift (canonicalMessage (gc_pqAlgorithm (gv_config sv)) digestBytes safeHead safeHead 1 anchorChain)) (\<lambda>msg.
     bindS (g_lift (gapura_sign cy (secretKey kp) msg)) (\<lambda>sig. ret (cy_keccak cy sig)))"

definition gapura_receipt :: "string \<Rightarrow> ('s, int \<times> (string \<times> int) option) gop" where
  "gapura_receipt registry = bindS g_waitForReceipt (\<lambda>reply. case reply of
     Inl msg \<Rightarrow> g_problem G_chain_unavailable (''receipt wait failed: '' @ msg)
   | Inr receipt \<Rightarrow>
       if \<not> gx_success receipt
       then g_problem G_anchor_failed (''recordAnchor reverted in block '' @ js_int (gx_blockNumber receipt))
       else (case gapura_find_log registry (gx_logs receipt) of
          Inl msg \<Rightarrow> g_problem G_chain_unavailable (''receipt wait failed: '' @ msg)
        | Inr found \<Rightarrow> ret (gx_blockNumber receipt, found)))"

definition gapura_tx :: "GapuraConfig \<Rightarrow> bytes \<Rightarrow> int \<Rightarrow> bytes \<Rightarrow> bytes \<Rightarrow> RecordAnchorTx" where
  "gapura_tx config digestBytes safeHead anchorChain pqSignatureHash =
     \<lparr>tx_to = gc_pqAnchorRegistry config, tx_merkleRoot = gapura_toHex digestBytes, tx_sha3Root = gapura_toHex digestBytes,
      tx_blockFrom = safeHead, tx_blockTo = safeHead, tx_eventCount = 1, tx_anchorChain = anchorChain,
      tx_pqSignatureHash = pqSignatureHash, tx_gas = gc_anchorGasLimit config\<rparr>"

definition anchor_record ::
  "GapuraService \<Rightarrow> CreateAnchorRequest \<Rightarrow> string \<Rightarrow> string \<Rightarrow> int \<Rightarrow> (string \<times> int) option \<Rightarrow> string \<Rightarrow> int \<Rightarrow> GapuraRecord" where
  "anchor_record sv req digest txHash block found anchorId time =
     \<lparr>gr_anchorId = anchorId, gr_onChainId = map_option fst found, gr_digest = digest,
      gr_hashAlg = ca_hashAlg req, gr_objectDid = ca_objectDid req, gr_purpose = ca_purpose req,
      gr_actorDid = ca_actorDid req, gr_tenant = ca_tenant req, gr_txHash = Some txHash,
      gr_blockNumber = Some (JNum block), gr_logIndex = map_option snd found,
      gr_pqKeyHash = gv_pqKeyHashHex sv, gr_pqVerified = True, gr_status = G_confirmed,
      gr_failureReason = None, gr_anchoredAt = toISOString time\<rparr>"

text \<open>After the submission: the receipt, and the record.\<close>

definition persist_anchor ::
  "'s GapuraStore \<Rightarrow> GapuraService \<Rightarrow> CreateAnchorRequest \<Rightarrow> string \<Rightarrow> string \<Rightarrow> ('s, GapuraAnchor \<times> bool) gop" where
  "persist_anchor S sv req digest txHash =
     bindS (gapura_receipt (gc_pqAnchorRegistry (gv_config sv))) (\<lambda>(block, found).
     bindS newAnchorId (\<lambda>anchorId.
     bindS g_now (\<lambda>time.
     let record = anchor_record sv req digest txHash block found anchorId time in
     bindS (g_put (\<lambda>st. gs_putAnchor S st record)) (\<lambda>_.
     ret (toDto sv record, False)))))"

text \<open>After the head of the chain is known: sign, submit, persist.\<close>

definition submit_anchor ::
  "Crypto \<Rightarrow> 's GapuraStore \<Rightarrow> GapuraService \<Rightarrow> PqKeypair \<Rightarrow> CreateAnchorRequest \<Rightarrow> string \<Rightarrow> int
     \<Rightarrow> ('s, GapuraAnchor \<times> bool) gop" where
  "submit_anchor cy S sv kp req digest latest =
     (let safeHead = (if latest > 0 then latest - 1 else 0); anchorChain = anchorChainTag cy (ca_purpose req) (ca_tenant req) in
      bindS (g_lift (gapura_fromHex digest)) (\<lambda>digestBytes.
      if length digestBytes \<noteq> 32 then g_problem G_invalid_digest ''digest must be 32-byte 0x-prefixed hex''
      else
        bindS (signed_commitment cy sv kp digestBytes safeHead anchorChain) (\<lambda>pqSignatureHash.
        bindS (g_writeContract (gapura_tx (gv_config sv) digestBytes safeHead anchorChain pqSignatureHash)) (\<lambda>submitted.
        case submitted of Inl msg \<Rightarrow> g_problem G_anchor_failed (''recordAnchor submit failed: '' @ msg)
        | Inr txHash \<Rightarrow> persist_anchor S sv req digest txHash))))"

definition writes_disabled_text :: string where
  "writes_disabled_text = ''anchor writes disabled: set ANCHOR_ECDSA_KEY + PQ_MLDSA_SEED (Vault) and PQ_ANCHOR_REGISTRY ''
     @ ''to the Gapura-scoped instance (never the shared platform registry)''"

definition createAnchor ::
  "Crypto \<Rightarrow> 's GapuraStore \<Rightarrow> GapuraService \<Rightarrow> CreateAnchorRequest \<Rightarrow> ('s, GapuraAnchor \<times> bool) gop" where
  "createAnchor cy S sv req =
     (let digest = to_lower (ca_digest req) in
      bindS (g_read (\<lambda>st. gs_getAnchorByDigest S st digest)) (\<lambda>existing.
      case existing of Some r \<Rightarrow> ret (toDto sv r, True)
      | None \<Rightarrow> (case gv_pqKeypair sv of
          None \<Rightarrow> g_problem G_anchor_failed writes_disabled_text
        | Some kp \<Rightarrow> if \<not> gapura_writesEnabled sv then g_problem G_anchor_failed writes_disabled_text else
          bindS g_getBlockNumber (\<lambda>reply. case reply of
            Inl msg \<Rightarrow> g_problem G_chain_unavailable (''read RPC failed: '' @ msg)
          | Inr latest \<Rightarrow> submit_anchor cy S sv kp req digest latest))))"

definition verify :: "'s GapuraStore \<Rightarrow> GapuraService \<Rightarrow> string \<Rightarrow> ('s, VerifyResult) gop" where
  "verify S sv digest =
     bindS (g_read (\<lambda>st. gs_getAnchorByDigest S st (to_lower digest))) (\<lambda>rec.
     bindS g_now (\<lambda>time.
     ret (case rec of
       None \<Rightarrow> \<lparr>vf_digest = digest, vf_anchored = False, vf_anchors = [], vf_asOf = toISOString time\<rparr>
     | Some r \<Rightarrow> \<lparr>vf_digest = gr_digest r, vf_anchored = True, vf_anchors =
         [\<lparr>va_anchorId = gr_anchorId r, va_objectDid = gr_objectDid r, va_purpose = gr_purpose r,
           va_tenant = gr_tenant r, va_actorDid = gr_actorDid r, va_anchoredAt = gr_anchoredAt r,
           va_txRef = \<lparr>tr_chainId = gc_chainId (gv_config sv), tr_contract = None, tr_txHash = gr_txHash r,
             tr_onChainId = gr_onChainId r, tr_blockNumber = None, tr_logIndex = None\<rparr>,
           va_verification = \<lparr>vr_ecdsaOnChain = (gr_status r = G_confirmed), vr_pqVerified = gr_pqVerified r,
             vr_pqKeyHash = gr_pqKeyHash r\<rparr>,
           va_status = gr_status r\<rparr>],
         vf_asOf = toISOString time\<rparr>)))"

definition getAnchor :: "'s GapuraStore \<Rightarrow> GapuraService \<Rightarrow> string \<Rightarrow> ('s, GapuraAnchor) gop" where
  "getAnchor S sv anchorId =
     bindS (g_read (\<lambda>st. gs_getAnchorById S st anchorId)) (\<lambda>rec.
     case rec of None \<Rightarrow> g_problem G_anchor_not_found anchorId | Some r \<Rightarrow> ret (toDto sv r))"

text \<open>\<open>BigInt(rec.blockNumber)\<close> of a number or a text; a failure inside the \<open>try\<close> counts one confirmation.\<close>

definition block_of :: "json \<Rightarrow> int option" where
  "block_of v = (case v of JNum n \<Rightarrow> Some n | JStr s \<Rightarrow> BigInt s | _ \<Rightarrow> None)"

definition getStatus :: "'s GapuraStore \<Rightarrow> string \<Rightarrow> ('s, AnchorStatus) gop" where
  "getStatus S anchorId =
     bindS (g_read (\<lambda>st. gs_getAnchorById S st anchorId)) (\<lambda>rec.
     case rec of None \<Rightarrow> g_problem G_anchor_not_found anchorId
     | Some r \<Rightarrow>
       bindS (if truthy_opt (gr_blockNumber r) \<and> gr_status r = G_confirmed
              then bindS g_getBlockNumber (\<lambda>reply. ret (case reply of Inl _ \<Rightarrow> 1
                | Inr latest \<Rightarrow> (case block_of (the (gr_blockNumber r)) of None \<Rightarrow> 1
                    | Some b \<Rightarrow> max 1 (latest - b + 1))))
              else ret 0) (\<lambda>confirmations.
       ret \<lparr>as_anchorId = gr_anchorId r, as_status = gr_status r, as_confirmations = confirmations,
         as_blockNumber = gr_blockNumber r, as_signatures = \<lparr>sig_ecdsa = True, sig_mlDsa65 = True\<rparr>,
         as_failureReason = gr_failureReason r\<rparr>))"

subsection \<open>The resolver client\<close>

definition strip_slash :: "string \<Rightarrow> string" where
  "strip_slash u = (if u \<noteq> [] \<and> last u = CHR ''/'' then butlast u else u)"

definition did_error :: "DidReason \<Rightarrow> string \<Rightarrow> ('s, 'a) gop" where
  "did_error reason detail = throw (G_DidClientError reason detail)"

definition stubResolution :: "string \<Rightarrow> int \<Rightarrow> json" where
  "stubResolution did time = JObj
     [(''didDocument'', JObj
        [(''@context'', JArr [JStr ''https://www.w3.org/ns/did/v1'']), (''id'', JStr did),
         (''verificationMethod'', JArr [JObj
           [(''id'', JStr (did @ ''#key-1'')), (''type'', JStr ''JsonWebKey2020''), (''controller'', JStr did),
            (''publicKeyJwk'', JObj [(''kty'', JStr ''OKP''), (''crv'', JStr ''Ed25519''), (''x'', JStr ''STUB_NO_RESOLVER_CONFIGURED'')])]]),
         (''service'', JArr [])]),
      (''didResolutionMetadata'', JObj
        [(''contentType'', JStr ''application/did+ld+json''), (''retrieved'', JStr (toISOString time)), (''note'', JStr (''STUB '' @ [CHR 0xE2, CHR 0x80, CHR 0x94] @ '' HARADID_RESOLVER_URL unset; not a real resolution''))]),
      (''didDocumentMetadata'', JObj
        [(''anchored'', JBool False), (''deactivated'', JBool False),
         (''backing'', JStr (if is_part_of '':authority:'' did then ''on-chain-issuer'' else ''sidetree''))])]"

definition resolve :: "string option \<Rightarrow> string \<Rightarrow> ('s, json) gop" where
  "resolve baseUrl did =
     (if \<not> truthy_str baseUrl then bindS g_now (\<lambda>time. ret (stubResolution did time))
      else bindS (g_fetch ''GET'' (strip_slash (the baseUrl) @ ''/1.0/identifiers/'' @ encodeURIComponent did) None) (\<lambda>res.
        if hs_status res = 404 then did_error R_did_not_found did
        else if hs_status res = 410 then did_error R_did_deactivated did
        else if \<not> hs_ok res then did_error R_did_unresolvable (js_int (hs_status res))
        else g_lift (hs_body res)))"

text \<open>\<open>toLowerCase().replace(/[^a-z0-9]+/g, "-").slice(0, 24)\<close>.\<close>

fun dash_runs :: "bool \<Rightarrow> string \<Rightarrow> string" where
  "dash_runs inside [] = []"
| "dash_runs inside (c # s) = (if is_alnum c then c # dash_runs False s
     else if inside then dash_runs True s else CHR ''-'' # dash_runs True s)"

definition slug_of :: "string \<Rightarrow> string" where
  "slug_of displayName = take 24 (dash_runs False (to_lower displayName))"

definition stubRegistration :: "json option \<Rightarrow> json" where
  "stubRegistration body =
     (let ns = (case body_prop body ''namespaceHint'' of None \<Rightarrow> ''actor'' | Some v \<Rightarrow> if v = JNull then ''actor'' else js_String v);
          did = ''did:hara:'' @ ns @ '':stub-'' @ slug_of (the (as_str (body_prop body ''displayName''))) in
      JObj [(''did'', JStr did), (''didDocument'', JObj [(''id'', JStr did), (''note'', JStr ''STUB registration'')]),
        (''registration'', JObj
          [(''backing'', JStr (if body_prop body ''subjectType'' = Some (JStr ''actor'') then ''sidetree'' else ''on-chain-issuer'')),
           (''state'', JStr ''confirmed'')])])"

definition register :: "string option \<Rightarrow> json option \<Rightarrow> ('s, json) gop" where
  "register baseUrl body =
     (if \<not> truthy_str baseUrl then ret (stubRegistration body)
      else bindS (g_fetch ''POST'' (strip_slash (the baseUrl) @ ''/1.0/register'') (map_option json_text body)) (\<lambda>res.
        if \<not> hs_ok res then did_error R_did_unresolvable (''register '' @ js_int (hs_status res))
        else g_lift (hs_body res)))"

definition getOperation :: "string option \<Rightarrow> string \<Rightarrow> ('s, json) gop" where
  "getOperation baseUrl operationId =
     (if \<not> truthy_str baseUrl
      then ret (JObj [(''operationId'', JStr operationId), (''state'', JStr ''confirmed''),
        (''did'', JStr (''did:hara:actor:stub-'' @ operationId))])
      else bindS (g_fetch ''GET'' (strip_slash (the baseUrl) @ ''/1.0/operations/'' @ encodeURIComponent operationId) None) (\<lambda>res.
        if \<not> hs_ok res then did_error R_did_not_found operationId else g_lift (hs_body res)))"

lemma slug_example: "slug_of ''Hara  Trust / Unit 1'' = ''hara-trust-unit-1''"
  by code_simp

end
