(* ===== verification/GapuraRoutes.thy ===== *)
theory GapuraRoutes
  imports GapuraAnchors
begin

text \<open>
  The HTTP surface of the Gapura gateway: \<open>auth.ts\<close>, the handlers of \<open>routes/*.ts\<close> and the wiring of
  \<open>server.ts\<close>.  \<open>jwtVerify\<close> of the package jose is the parameter \<open>jv\<close>: token, issuer and audience to an
  error message or the claims.  A header and a query parameter are given once.  Optional fields of
  a body that no handler checks are read as text.
\<close>

subsection \<open>Requests and replies\<close>

record GapuraRequest =
  gq_verb :: string
  gq_path :: "string list"
  gq_url :: string
  gq_id :: string
  gq_query :: "string \<Rightarrow> string option"
  gq_authorization :: "string option"
  gq_idempotencyKey :: "string option"
  gq_body :: "json option"

datatype gapura_payload = GP_anchor GapuraAnchor | GP_verify VerifyResult | GP_status AnchorStatus
  | GP_binding Binding | GP_json json | GP_health bool string

datatype gapura_reply = G_Sent nat gapura_payload | G_Problem_reply nat GapuraProblem

fun reply_status :: "gapura_reply \<Rightarrow> nat" where
  "reply_status (G_Sent n p) = n"
| "reply_status (G_Problem_reply n p) = n"

definition gapura_sendProblem :: "GapuraRequest \<Rightarrow> GapuraCode \<Rightarrow> string \<Rightarrow> gapura_reply" where
  "gapura_sendProblem req code detail =
     G_Problem_reply (fst (GAPURA_CODE_META code)) (gapura_buildProblem code (Some detail) (gq_url req) (gq_id req))"

subsection \<open>Authentication\<close>

type_synonym gapura_jwt_verify = "string \<Rightarrow> string \<Rightarrow> string \<Rightarrow> string + json_object"

definition GAPURA_AUTH_ENABLED :: "GapuraConfig \<Rightarrow> bool" where
  "GAPURA_AUTH_ENABLED cfg = (truthy_str (gc_jwksUrl cfg) \<and> truthy_str (gc_issuer cfg) \<and> truthy_str (gc_audience cfg))"

text \<open>\<open>a ?? b\<close> on claims: null and undefined fall through.\<close>

definition claim_or :: "json option \<Rightarrow> json option \<Rightarrow> json option" where
  "claim_or a b = (case a of None \<Rightarrow> b | Some v \<Rightarrow> if v = JNull then b else a)"

definition scopesFrom :: "json_object \<Rightarrow> string list" where
  "scopesFrom claims = (case claim_or (map_of claims ''scope'') (map_of claims ''scp'') of
     Some (JStr s) \<Rightarrow> js_words s | Some (JArr xs) \<Rightarrow> map js_String xs | _ \<Rightarrow> [])"

definition tenantFrom :: "json_object \<Rightarrow> string" where
  "tenantFrom claims = (case claim_or (map_of claims ''tenant'') (claim_or (map_of claims ''azp'') (map_of claims ''client_id'')) of
     None \<Rightarrow> ''unknown'' | Some v \<Rightarrow> if v = JNull then ''unknown'' else js_String v)"

text \<open>\<open>Inl\<close> is the reply that ends the request, \<open>Inr\<close> the tenant.\<close>

definition requireScope ::
  "GapuraConfig \<Rightarrow> gapura_jwt_verify \<Rightarrow> Scope \<Rightarrow> GapuraRequest \<Rightarrow> gapura_reply + string" where
  "requireScope cfg jv required req =
     (if \<not> GAPURA_AUTH_ENABLED cfg then Inr ''dev''
      else case gq_authorization req of
        None \<Rightarrow> Inl (gapura_sendProblem req G_unauthenticated ''missing Bearer token'')
      | Some header \<Rightarrow>
          if \<not> starts_with ''Bearer '' header
          then Inl (gapura_sendProblem req G_unauthenticated ''missing Bearer token'')
          else (case jv (js_trim (drop 7 header)) (the (gc_issuer cfg)) (the (gc_audience cfg)) of
              Inl msg \<Rightarrow> Inl (gapura_sendProblem req G_unauthenticated (''token verification failed: '' @ msg))
            | Inr claims \<Rightarrow> if scope_text required \<notin> set (scopesFrom claims)
                then Inl (gapura_sendProblem req G_forbidden_scope
                  (''token lacks required scope '' @ [CHR 0x27] @ scope_text required @ [CHR 0x27]))
                else Inr (tenantFrom claims)))"

subsection \<open>Anchors\<close>

definition DIGEST_RE :: "string \<Rightarrow> bool" where "DIGEST_RE = hex_re 64"

definition GAPURA_DID_RE :: "string \<Rightarrow> bool" where "GAPURA_DID_RE = starts_with ''did:hara:''"

definition str_ok :: "(string \<Rightarrow> bool) \<Rightarrow> json option \<Rightarrow> bool" where
  "str_ok p v = (case v of Some (JStr s) \<Rightarrow> p s | _ \<Rightarrow> False)"

definition bodyHash :: "Crypto \<Rightarrow> json option \<Rightarrow> string" where
  "bodyHash cy body = hex_of (cy_sha256 cy (utf8 (json_text (case body of None \<Rightarrow> JObj []
     | Some v \<Rightarrow> if v = JNull then JObj [] else v))))"

definition check_anchor :: "json option \<Rightarrow> (GapuraCode \<times> string) option" where
  "check_anchor body =
     (if \<not> truthy_opt body \<or> \<not> str_ok DIGEST_RE (body_prop body ''digest'')
      then Some (G_invalid_digest, ''digest must be 32-byte 0x-prefixed hex'')
      else if \<not> str_ok GAPURA_DID_RE (body_prop body ''objectDid'')
      then Some (G_invalid_did, ''objectDid must be a did:hara identifier'')
      else if \<not> str_ok (\<lambda>s. s \<noteq> []) (body_prop body ''purpose'')
      then Some (G_invalid_request, ''purpose is required'')
      else if body_prop body ''actorDid'' \<noteq> None \<and> \<not> GAPURA_DID_RE (js_String (the (body_prop body ''actorDid'')))
      then Some (G_invalid_did, ''actorDid must be a did:hara identifier'')
      else None)"

definition anchor_request :: "json option \<Rightarrow> string \<Rightarrow> CreateAnchorRequest" where
  "anchor_request body tenant = (let str = (\<lambda>k. the (as_str (body_prop body k))) in
     \<lparr>ca_digest = str ''digest'',
      ca_hashAlg = (case body_prop body ''hashAlg'' of None \<Rightarrow> ''sha256'' | Some v \<Rightarrow> if v = JNull then ''sha256'' else js_String v),
      ca_objectDid = str ''objectDid'', ca_purpose = str ''purpose'',
      ca_actorDid = map_option js_String (body_prop body ''actorDid''), ca_tenant = tenant\<rparr>)"

definition create_and_reply ::
  "Crypto \<Rightarrow> 's GapuraStore \<Rightarrow> GapuraService \<Rightarrow> GapuraRequest \<Rightarrow> string \<Rightarrow> ('s, gapura_reply) gop" where
  "create_and_reply cy S sv req tenant =
     bindS (createAnchor cy S sv (anchor_request (gq_body req) tenant)) (\<lambda>(anchor, alreadyAnchored).
     bindS (if truthy_str (gq_idempotencyKey req)
            then bindS g_now (\<lambda>time. g_put (\<lambda>st. gs_putIdempotency S time st (the (gq_idempotencyKey req))
              \<lparr>ie_bodyHash = bodyHash cy (gq_body req), ie_anchorId = ga_anchorId anchor, ie_storedAt = time\<rparr>))
            else ret ()) (\<lambda>_.
     ret (G_Sent (if alreadyAnchored then 200 else 201) (GP_anchor anchor))))"

definition gapura_post_anchors ::
  "Crypto \<Rightarrow> 's GapuraStore \<Rightarrow> GapuraService \<Rightarrow> GapuraRequest \<Rightarrow> string \<Rightarrow> ('s, gapura_reply) gop" where
  "gapura_post_anchors cy S sv req tenant = (case check_anchor (gq_body req) of
     Some (code, detail) \<Rightarrow> ret (gapura_sendProblem req code detail)
   | None \<Rightarrow>
       if truthy_str (gq_idempotencyKey req) then
         bindS g_now (\<lambda>time.
         bindS (g_write (\<lambda>st. gs_getIdempotency S time st (the (gq_idempotencyKey req)))) (\<lambda>cached.
         case cached of
           Some e \<Rightarrow> if ie_bodyHash e \<noteq> bodyHash cy (gq_body req)
             then ret (gapura_sendProblem req G_idempotency_conflict ''same Idempotency-Key, different body'')
             else bindS (getAnchor S sv (ie_anchorId e)) (\<lambda>anchor. ret (G_Sent 200 (GP_anchor anchor)))
         | None \<Rightarrow> create_and_reply cy S sv req tenant))
       else create_and_reply cy S sv req tenant)"

definition gapura_get_anchors ::
  "'s GapuraStore \<Rightarrow> GapuraService \<Rightarrow> GapuraRequest \<Rightarrow> ('s, gapura_reply) gop" where
  "gapura_get_anchors S sv req = (case gq_query req ''digest'' of
     None \<Rightarrow> ret (gapura_sendProblem req G_invalid_digest ''digest query param must be 32-byte 0x-prefixed hex'')
   | Some digest \<Rightarrow> if digest = [] \<or> \<not> DIGEST_RE digest
       then ret (gapura_sendProblem req G_invalid_digest ''digest query param must be 32-byte 0x-prefixed hex'')
       else bindS (verify S sv digest) (\<lambda>r. ret (G_Sent 200 (GP_verify r))))"

text \<open>The regular expression tests the text of any value; \<open>toLowerCase\<close> then fails on what is no text.\<close>

definition gapura_post_verify ::
  "'s GapuraStore \<Rightarrow> GapuraService \<Rightarrow> GapuraRequest \<Rightarrow> ('s, gapura_reply) gop" where
  "gapura_post_verify S sv req = (let digest = body_prop (gq_body req) ''digest'' in
     if \<not> truthy_opt digest \<or> \<not> DIGEST_RE (js_String (the digest))
     then ret (gapura_sendProblem req G_invalid_digest ''digest must be 32-byte 0x-prefixed hex'')
     else (case as_str digest of None \<Rightarrow> throw (G_Uncaught TypeError)
       | Some d \<Rightarrow> bindS (verify S sv d) (\<lambda>r. ret (G_Sent 200 (GP_verify r)))))"

definition gapura_get_anchor :: "'s GapuraStore \<Rightarrow> GapuraService \<Rightarrow> string \<Rightarrow> ('s, gapura_reply) gop" where
  "gapura_get_anchor S sv anchorId = bindS (getAnchor S sv anchorId) (\<lambda>a. ret (G_Sent 200 (GP_anchor a)))"

definition gapura_get_status :: "'s GapuraStore \<Rightarrow> string \<Rightarrow> ('s, gapura_reply) gop" where
  "gapura_get_status S anchorId = bindS (getStatus S anchorId) (\<lambda>a. ret (G_Sent 200 (GP_status a)))"

subsection \<open>Identity\<close>

definition get_did :: "string option \<Rightarrow> GapuraRequest \<Rightarrow> string \<Rightarrow> ('s, gapura_reply) gop" where
  "get_did baseUrl req did =
     (if \<not> GAPURA_DID_RE did then ret (gapura_sendProblem req G_invalid_did ''not a did:hara identifier'')
      else (\<lambda>s. case resolve baseUrl did s of
        (Inl (G_DidClientError reason detail), s') \<Rightarrow>
           (case reason of
              R_did_not_found \<Rightarrow> (Inr (gapura_sendProblem req G_did_not_found did), s')
            | R_did_deactivated \<Rightarrow> (Inr (gapura_sendProblem req G_did_deactivated did), s')
            | R_did_unresolvable \<Rightarrow> (Inr (gapura_sendProblem req G_invalid_did (reason_text reason @ '': '' @ detail)), s'))
      | (Inl e, s') \<Rightarrow> (Inl e, s')
      | (Inr doc, s') \<Rightarrow> (Inr (G_Sent 200 (GP_json doc)), s')))"

definition post_identities :: "string option \<Rightarrow> GapuraRequest \<Rightarrow> ('s, gapura_reply) gop" where
  "post_identities baseUrl req = (let body = gq_body req in
     if \<not> truthy_opt body \<or> as_str (body_prop body ''displayName'') = None \<or> \<not> truthy_opt (body_prop body ''subjectType'')
     then ret (gapura_sendProblem req G_invalid_request ''subjectType and displayName are required'')
     else bindS (register baseUrl body) (\<lambda>result.
       if result = JNull then throw (G_Uncaught TypeError)
       else ret (G_Sent (if json_get result ''state'' = Some (JStr ''batching'') then 202 else 201) (GP_json result))))"

definition get_operation :: "string option \<Rightarrow> string \<Rightarrow> ('s, gapura_reply) gop" where
  "get_operation baseUrl operationId =
     bindS (getOperation baseUrl operationId) (\<lambda>o'. ret (G_Sent 200 (GP_json o')))"

definition get_by_subject :: "'s GapuraStore \<Rightarrow> string \<Rightarrow> ('s, gapura_reply) gop" where
  "get_by_subject S authentikSub =
     bindS (g_read (\<lambda>st. gs_getBindingBySubject S st authentikSub)) (\<lambda>binding. case binding of
       None \<Rightarrow> g_problem G_did_not_found (''no binding for subject '' @ authentikSub)
     | Some b \<Rightarrow> ret (G_Sent 200 (GP_binding b)))"

definition post_bindings :: "'s GapuraStore \<Rightarrow> GapuraRequest \<Rightarrow> string \<Rightarrow> ('s, gapura_reply) gop" where
  "post_bindings S req did = (let body = gq_body req; sub = body_prop body ''authentikSub''; tenant = body_prop body ''tenant'' in
     if \<not> GAPURA_DID_RE did then ret (gapura_sendProblem req G_invalid_did ''not a did:hara identifier'')
     else if \<not> truthy_opt sub \<or> \<not> truthy_opt tenant
     then ret (gapura_sendProblem req G_invalid_request ''authentikSub and tenant are required'')
     else bindS g_now (\<lambda>time.
       bindS (g_write (\<lambda>st. gs_putBinding S time st (js_String (the sub)) did (js_String (the tenant)) None)) (\<lambda>b.
       ret (G_Sent 201 (GP_binding b)))))"

subsection \<open>Metering\<close>

definition monthStartNext :: "int \<Rightarrow> string" where
  "monthStartNext time = (let (y, m, d) = civil_from_days (time div 86400000) in
     toISOString (days_from_civil (if m = 12 then y + 1 else y) (if m = 12 then 1 else m + 1) 1 * 86400000))"

definition anchor_quota :: "int \<Rightarrow> json" where
  "anchor_quota time = JObj [(''anchorTxCount'',
     JObj [(''limit'', JNum 200000), (''used'', JNum 0), (''resetsAt'', JStr (monthStartNext time))])]"

definition get_usage :: "GapuraRequest \<Rightarrow> ('s, gapura_reply) gop" where
  "get_usage req = (let q = gq_query req; period = (\<lambda>k. case q k of None \<Rightarrow> False | Some v \<Rightarrow> DATE_RE v);
       granularity = default_to ''total'' (q ''granularity'') in
     if \<not> truthy_str (q ''tenant'') then ret (gapura_sendProblem req G_invalid_request ''tenant is required'')
     else if \<not> period ''from'' \<or> \<not> period ''to''
     then ret (gapura_sendProblem req G_invalid_period ''from/to must be YYYY-MM-DD'')
     else bindS g_now (\<lambda>t1. bindS g_now (\<lambda>t2.
       ret (G_Sent 200 (GP_json (JObj
         ([(''tenant'', JStr (the (q ''tenant''))),
           (''period'', JObj [(''from'', JStr (the (q ''from''))), (''to'', JStr (the (q ''to''))), (''granularity'', JStr granularity)]),
           (''metrics'', JObj (map (\<lambda>k. (k, JNum 0)) [''numiraIdResolutions'', ''atlasDidMints'', ''passportVerifications'',
              ''anchorTxCount'', ''anchorCostUnits'']))]
          @ (if granularity = ''day'' \<or> granularity = ''month'' then [(''series'', JArr [])] else [])
          @ [(''quotas'', anchor_quota t1), (''generatedAt'', JStr (toISOString t2))])))))))"

definition get_quotas :: "GapuraRequest \<Rightarrow> ('s, gapura_reply) gop" where
  "get_quotas req = (let tenant = gq_query req ''tenant'' in
     if \<not> truthy_str tenant then ret (gapura_sendProblem req G_invalid_request ''tenant is required'')
     else bindS g_now (\<lambda>time. ret (G_Sent 200 (GP_json (JObj [(''tenant'', JStr (the tenant)), (''quotas'', anchor_quota time)])))))"

definition gapura_healthz :: "GapuraService \<Rightarrow> ('s, gapura_reply) gop" where
  "gapura_healthz sv = bindS g_now (\<lambda>time. ret (G_Sent 200 (GP_health (gapura_writesEnabled sv) (toISOString time))))"

subsection \<open>The server\<close>

datatype gapura_route = GR_healthz | GR_post_anchors | GR_get_anchors | GR_post_verify | GR_anchor string
  | GR_status string | GR_did string | GR_post_identities | GR_operation string | GR_by_subject string
  | GR_bindings string | GR_usage | GR_quotas | GR_none

definition gapura_route_of :: "string \<Rightarrow> string list \<Rightarrow> gapura_route" where
  "gapura_route_of verb segs =
     (let get = (verb = ''GET''); post = (verb = ''POST'') in case segs of
        [a] \<Rightarrow> if a = ''healthz'' \<and> get then GR_healthz else GR_none
      | [v, a] \<Rightarrow> if v \<noteq> ''v1'' then GR_none
          else if a = ''anchors'' then (if post then GR_post_anchors else if get then GR_get_anchors else GR_none)
          else if a = ''verify'' \<and> post then GR_post_verify
          else if a = ''identities'' \<and> post then GR_post_identities else GR_none
      | [v, a, b] \<Rightarrow> if v \<noteq> ''v1'' then GR_none
          else if a = ''anchors'' \<and> get then GR_anchor b
          else if a = ''did'' \<and> get then GR_did b
          else if a = ''metering'' \<and> b = ''usage'' \<and> get then GR_usage
          else if a = ''metering'' \<and> b = ''quotas'' \<and> get then GR_quotas else GR_none
      | [v, a, b, c] \<Rightarrow> if v \<noteq> ''v1'' then GR_none
          else if a = ''anchors'' \<and> c = ''status'' \<and> get then GR_status b
          else if a = ''identities'' \<and> b = ''operations'' \<and> get then GR_operation c
          else if a = ''identities'' \<and> b = ''by-subject'' \<and> get then GR_by_subject c
          else if a = ''identities'' \<and> c = ''bindings'' \<and> post then GR_bindings b else GR_none
      | _ \<Rightarrow> GR_none)"

text \<open>The scope a route asks for.\<close>

fun required_scope :: "gapura_route \<Rightarrow> Scope option" where
  "required_scope GR_post_anchors = Some Anchor_write"
| "required_scope GR_get_anchors = Some Anchor_read"
| "required_scope GR_post_verify = Some Anchor_read"
| "required_scope (GR_anchor i) = Some Anchor_read"
| "required_scope (GR_status i) = Some Anchor_read"
| "required_scope (GR_did d) = Some Identity_read"
| "required_scope GR_post_identities = Some Identity_write"
| "required_scope (GR_operation i) = Some Identity_read"
| "required_scope (GR_by_subject i) = Some Identity_read"
| "required_scope (GR_bindings d) = Some Identity_write"
| "required_scope GR_usage = Some Metering_read"
| "required_scope GR_quotas = Some Metering_read"
| "required_scope _ = None"

definition gapura_dispatch ::
  "Crypto \<Rightarrow> 's GapuraStore \<Rightarrow> GapuraService \<Rightarrow> GapuraRequest \<Rightarrow> string \<Rightarrow> ('s, gapura_reply) gop" where
  "gapura_dispatch cy S sv req tenant = (let baseUrl = gc_haradidResolverUrl (gv_config sv) in
     case gapura_route_of (gq_verb req) (gq_path req) of
       GR_healthz \<Rightarrow> gapura_healthz sv
     | GR_post_anchors \<Rightarrow> gapura_post_anchors cy S sv req tenant
     | GR_get_anchors \<Rightarrow> gapura_get_anchors S sv req
     | GR_post_verify \<Rightarrow> gapura_post_verify S sv req
     | GR_anchor i \<Rightarrow> gapura_get_anchor S sv i
     | GR_status i \<Rightarrow> gapura_get_status S i
     | GR_did d \<Rightarrow> get_did baseUrl req d
     | GR_post_identities \<Rightarrow> post_identities baseUrl req
     | GR_operation i \<Rightarrow> get_operation baseUrl i
     | GR_by_subject i \<Rightarrow> get_by_subject S i
     | GR_bindings d \<Rightarrow> post_bindings S req d
     | GR_usage \<Rightarrow> get_usage req
     | GR_quotas \<Rightarrow> get_quotas req
     | GR_none \<Rightarrow> ret (case gapura_notFoundHandler (gq_verb req) (gq_url req) (gq_id req) of (c, p) \<Rightarrow> G_Problem_reply c p))"

definition gapura_handle ::
  "Crypto \<Rightarrow> 's GapuraStore \<Rightarrow> GapuraService \<Rightarrow> gapura_jwt_verify \<Rightarrow> GapuraRequest \<Rightarrow> ('s, gapura_reply) gop" where
  "gapura_handle cy S sv jv req = (case required_scope (gapura_route_of (gq_verb req) (gq_path req)) of
     None \<Rightarrow> gapura_dispatch cy S sv req []
   | Some scope \<Rightarrow> (case requireScope (gv_config sv) jv scope req of
       Inl r \<Rightarrow> ret r | Inr tenant \<Rightarrow> gapura_dispatch cy S sv req tenant))"

definition gapura_serve ::
  "Crypto \<Rightarrow> 's GapuraStore \<Rightarrow> GapuraService \<Rightarrow> gapura_jwt_verify \<Rightarrow> GapuraRequest \<Rightarrow> 's Gateway
     \<Rightarrow> gapura_reply \<times> 's Gateway" where
  "gapura_serve cy S sv jv req s = (case gapura_handle cy S sv jv req s of
     (Inr r, s') \<Rightarrow> (r, s')
   | (Inl e, s') \<Rightarrow> (case gapura_errorHandler (gq_url req) (gq_id req) (G_Thrown e) of
       (c, p) \<Rightarrow> (G_Problem_reply c p, s')))"

end
