(* ===== verification/GapuraClaims.thy ===== *)
theory GapuraClaims
  imports GapuraRoutes
begin

text \<open>
  What the Gapura gateway guarantees over any sequence of requests, for any store that keeps the
  contract, with any failures of the chain and the resolver.
\<close>

subsection \<open>Weakest preconditions of the calls\<close>

lemma wp_g_problem [wp_simps]: "wp (g_problem c d) P s = P (Inl (G_ProblemError c (Some d))) s"
  by (simp add: g_problem_def wp_simps)

lemma wp_g_lift [wp_simps]: "wp (g_lift m) P s = (case m of Inl e \<Rightarrow> P (Inl (G_Uncaught e)) s | Inr x \<Rightarrow> P (Inr x) s)"
  by (simp add: wp_def g_lift_def split: sum.splits)

lemma wp_g_draws [wp_simps]:
  "wp g_now P s = P (Inr (shd (gw_clock s))) (s\<lparr>gw_clock := stl (gw_clock s)\<rparr>)"
  "wp g_random P' s = P' (Inr (shd (gw_rand s))) (s\<lparr>gw_rand := stl (gw_rand s)\<rparr>)"
  "wp g_getBlockNumber Q s = Q (Inr (shd (gw_head s))) (s\<lparr>gw_head := stl (gw_head s)\<rparr>)"
  "wp (g_writeContract tx) R s = R (Inr (shd (gw_submit s)))
     (s\<lparr>gw_submit := stl (gw_submit s), gw_sent := gw_sent s @ [tx]\<rparr>)"
  "wp g_waitForReceipt T s = T (Inr (shd (gw_receipt s))) (s\<lparr>gw_receipt := stl (gw_receipt s)\<rparr>)"
  by (simp_all add: wp_def g_now_def g_random_def g_getBlockNumber_def g_writeContract_def g_waitForReceipt_def)

lemma wp_g_read [wp_simps]:
  "wp (g_read f) P s = (case f (gw_store s) of Inl e \<Rightarrow> P (Inl (G_Uncaught e)) s | Inr x \<Rightarrow> P (Inr x) s)"
  by (simp add: wp_def g_read_def g_lift_def split: sum.splits)

lemma wp_g_write [wp_simps]:
  "wp (g_write f) P s = (case f (gw_store s) of Inl e \<Rightarrow> P (Inl (G_Uncaught e)) s
     | Inr (x, t) \<Rightarrow> P (Inr x) (s\<lparr>gw_store := t\<rparr>))"
  by (simp add: wp_def g_write_def split: sum.splits prod.splits)

lemma wp_g_put [wp_simps]:
  "wp (g_put f) P s = (case f (gw_store s) of Inl e \<Rightarrow> P (Inl (G_Uncaught e)) s | Inr t \<Rightarrow> P (Inr ()) (s\<lparr>gw_store := t\<rparr>))"
  by (simp add: g_put_def wp_simps bindE_def split: sum.splits)

subsection \<open>Calls that leave the anchors alone\<close>

definition quiet :: "('s, 'a) gop \<Rightarrow> bool" where
  "quiet m \<longleftrightarrow> (\<forall>s. gw_store (snd (m s)) = gw_store s \<and> gw_sent (snd (m s)) = gw_sent s)"

named_theorems quiet_intros \<open>calls that touch neither the store nor the chain\<close>

lemma quiet_wp: "quiet m \<Longrightarrow> wp m (\<lambda>r s'. gw_store s' = gw_store s \<and> gw_sent s' = gw_sent s) s"
  by (simp add: quiet_def wp_def split_beta)

lemma quietD: "quiet m \<Longrightarrow> m s = (r, s') \<Longrightarrow> gw_store s' = gw_store s \<and> gw_sent s' = gw_sent s"
  by (metis quiet_def snd_conv)

lemma quiet_bind [quiet_intros]:
  assumes "quiet m" "\<And>x. quiet (f x)"
  shows "quiet (bindS m f)"
  using assms unfolding quiet_def bindS_def by (auto simp: split_beta split: sum.splits)

lemma quiet_basic [quiet_intros]:
  "quiet (ret x)" "quiet (throw e)" "quiet (g_problem c d)" "quiet (g_lift j)" "quiet g_now" "quiet g_getBlockNumber"
  "quiet (g_read f)" "quiet (did_error dr dd)" "quiet (g_fetch verb url body)"
  by (auto simp: quiet_def g_problem_def g_lift_def g_now_def g_getBlockNumber_def g_read_def did_error_def g_fetch_def
      Let_def split: sum.splits)

lemma quiet_Pair [quiet_intros]: "quiet (Pair r)"
  by (simp add: quiet_def)

lemma quiet_if [quiet_intros]: "quiet m \<Longrightarrow> quiet n \<Longrightarrow> quiet (if b then m else n)"
  by simp

lemma quiet_option [quiet_intros]: "quiet m \<Longrightarrow> (\<And>x. quiet (f x)) \<Longrightarrow> quiet (case v of None \<Rightarrow> m | Some x \<Rightarrow> f x)"
  by (cases v) simp_all

lemma quiet_calls [quiet_intros]:
  "quiet (verify S sv d)" "quiet (getAnchor S sv i)" "quiet (getStatus S i)" "quiet (resolve u d)" "quiet (register u bd)"
  "quiet (getOperation u i)"
  by (simp_all add: verify_def getAnchor_def getStatus_def resolve_def register_def getOperation_def quiet_intros)

lemma quiet_handlers [quiet_intros]:
  "quiet (gapura_get_anchors S sv req)" "quiet (gapura_post_verify S sv req)" "quiet (gapura_get_anchor S sv i)"
  "quiet (gapura_get_status S i)" "quiet (post_identities u req)" "quiet (get_operation u i)" "quiet (get_by_subject S b)"
  "quiet (get_usage req)" "quiet (get_quotas req)" "quiet (gapura_healthz sv)"
  by (simp_all add: gapura_get_anchors_def gapura_post_verify_def gapura_get_anchor_def gapura_get_status_def
      post_identities_def get_operation_def get_by_subject_def get_usage_def get_quotas_def gapura_healthz_def
      Let_def quiet_intros)

lemma quiet_get_did [quiet_intros]: "quiet (get_did u req d)"
proof -
  have "quiet (resolve u d :: ('s, json) gop)" by (rule quiet_intros)
  from quietD[OF this] show ?thesis
    unfolding quiet_def get_did_def
    by (auto split: prod.splits sum.splits gapura_fault.splits DidReason.splits)
qed

subsection \<open>Stored anchors are on chain, and stay\<close>

text \<open>A transaction of the gateway that commits the digest of a record, tagged with its purpose and tenant.\<close>

definition commits :: "Crypto \<Rightarrow> GapuraService \<Rightarrow> RecordAnchorTx \<Rightarrow> GapuraRecord \<Rightarrow> bool" where
  "commits cy sv tx r \<longleftrightarrow> (\<exists>b. gapura_fromHex (gr_digest r) = Inr b \<and> length b = 32
     \<and> tx_merkleRoot tx = gapura_toHex b \<and> tx_sha3Root tx = gapura_toHex b \<and> tx_eventCount tx = 1
     \<and> tx_to tx = gc_pqAnchorRegistry (gv_config sv) \<and> isGapuraScopedRegistry (tx_to tx)
     \<and> tx_anchorChain tx = anchorChainTag cy (gr_purpose r) (gr_tenant r))"

definition anchored_on :: "Crypto \<Rightarrow> GapuraService \<Rightarrow> RecordAnchorTx list \<Rightarrow> GapuraRecord \<Rightarrow> bool" where
  "anchored_on cy sv txs r \<longleftrightarrow> (\<exists>tx\<in>set txs. commits cy sv tx r)"

definition gapura_inv ::
  "Crypto \<Rightarrow> GapuraService \<Rightarrow> ('s \<Rightarrow> bool) \<Rightarrow> ('s \<Rightarrow> GapuraRecord set) \<Rightarrow> 's Gateway \<Rightarrow> bool" where
  "gapura_inv cy sv good known s \<longleftrightarrow> good (gw_store s)
     \<and> (\<forall>r\<in>known (gw_store s). to_lower (gr_digest r) = gr_digest r \<and> anchored_on cy sv (gw_sent s) r)"

text \<open>Anchors and transactions are only added.\<close>

definition grows :: "('s \<Rightarrow> GapuraRecord set) \<Rightarrow> 's Gateway \<Rightarrow> 's Gateway \<Rightarrow> bool" where
  "grows known s s' \<longleftrightarrow> known (gw_store s) \<subseteq> known (gw_store s') \<and> set (gw_sent s) \<subseteq> set (gw_sent s')"

lemma g_grows_refl [simp]: "grows known s s"
  by (simp add: grows_def)

lemma g_grows_trans: "grows known s t \<Longrightarrow> grows known t u \<Longrightarrow> grows known s u"
  by (auto simp: grows_def)

definition keeps_anchors ::
  "Crypto \<Rightarrow> GapuraService \<Rightarrow> ('s \<Rightarrow> bool) \<Rightarrow> ('s \<Rightarrow> GapuraRecord set) \<Rightarrow> ('s, 'a) gop \<Rightarrow> bool" where
  "keeps_anchors cy sv good known m \<longleftrightarrow> (\<forall>s. gapura_inv cy sv good known s \<longrightarrow>
     wp m (\<lambda>r s'. gapura_inv cy sv good known s' \<and> grows known s s') s)"

lemma keepsD:
  "keeps_anchors cy sv good known m \<Longrightarrow> gapura_inv cy sv good known s \<Longrightarrow>
     wp m (\<lambda>r s'. gapura_inv cy sv good known s' \<and> grows known s s') s"
  by (simp add: keeps_anchors_def)

lemma keeps_quiet: "quiet m \<Longrightarrow> keeps_anchors cy sv good known m"
  unfolding keeps_anchors_def by (auto intro: wp_mono[OF quiet_wp] simp: gapura_inv_def grows_def)

lemma g_keeps_bind:
  assumes "keeps_anchors cy sv good known m" "\<And>x. keeps_anchors cy sv good known (f x)"
  shows "keeps_anchors cy sv good known (bindS m f)"
  unfolding keeps_anchors_def
proof (intro allI impI)
  fix s assume s: "gapura_inv cy sv good known s"
  show "wp (bindS m f) (\<lambda>r s'. gapura_inv cy sv good known s' \<and> grows known s s') s"
  proof (rule wp_seq[OF keepsD[OF assms(1) s]], goal_cases)
    case (2 x t)
    then show ?case by (intro wp_mono[OF keepsD[OF assms(2)]]) (auto intro: g_grows_trans)
  qed simp
qed

lemma keeps_if: "keeps_anchors cy sv good known m \<Longrightarrow> keeps_anchors cy sv good known n \<Longrightarrow>
    keeps_anchors cy sv good known (if b then m else n)"
  by simp

lemmas keeps_leaves = g_keeps_bind keeps_if quiet_calls[THEN keeps_quiet] quiet_handlers[THEN keeps_quiet]
  quiet_get_did[THEN keeps_quiet] quiet_basic[THEN keeps_quiet] quiet_Pair[THEN keeps_quiet]

context gapura_store
begin

lemma keeps_write:
  assumes "\<And>st x st'. good st \<Longrightarrow> f st = Inr (x, st') \<Longrightarrow> good st' \<and> known st' = known st"
  shows "keeps_anchors cy sv good known (g_write f)"
  unfolding keeps_anchors_def using assms by (auto simp: wp_simps gapura_inv_def grows_def split: sum.splits)

text \<open>The answer of the anchor service names a stored anchor of the digest it was asked for.\<close>

definition answers :: "string \<Rightarrow> GapuraAnchor \<Rightarrow> 's Gateway \<Rightarrow> bool" where
  "answers d a s \<longleftrightarrow> (\<exists>r\<in>known (gw_store s). gr_digest r = to_lower d \<and> ga_anchorId a = gr_anchorId r
     \<and> ga_digest a = gr_digest r \<and> tr_txHash (ga_txRef a) = gr_txHash r)"

text \<open>An anchor that is made: its own transaction is sent and its record stored.\<close>

definition minted ::
  "Crypto \<Rightarrow> GapuraService \<Rightarrow> CreateAnchorRequest \<Rightarrow> string \<Rightarrow> RecordAnchorTx list \<Rightarrow> GapuraAnchor \<Rightarrow> 's Gateway \<Rightarrow> bool" where
  "minted cy sv req digest sent a s \<longleftrightarrow> (\<exists>tx. \<exists>r\<in>known (gw_store s). gw_sent s = sent @ [tx] \<and> a = toDto sv r \<and> commits cy sv tx r
     \<and> gr_digest r = digest \<and> gr_purpose r = ca_purpose req \<and> gr_tenant r = ca_tenant req)"

definition handed_out :: "GapuraService \<Rightarrow> RecordAnchorTx list \<Rightarrow> GapuraAnchor \<Rightarrow> 's Gateway \<Rightarrow> bool" where
  "handed_out sv sent a s \<longleftrightarrow> gw_sent s = sent \<and> (\<exists>r\<in>known (gw_store s). a = toDto sv (view r))"

lemma createAnchor_found:
  assumes "good (gw_store s)" "r \<in> known (gw_store s)" "gr_digest r = to_lower (ca_digest req)"
  shows "createAnchor cy S sv req s = (Inr (toDto sv (view r), True), s)"
  using found[OF assms(1,2), of "to_lower (ca_digest req)"] assms(3)
  by (simp add: createAnchor_def Let_def bindS_apply g_read_def g_lift_def)

lemma wp_persist_anchor:
  assumes "gapura_inv cy sv good known s" "gs_getAnchorByDigest S (gw_store s) digest = Inr None" "to_lower digest = digest"
    and "gw_sent s = sent @ [tx]" "\<And>block found i time. commits cy sv tx (anchor_record sv req digest txHash block found i time)"
  shows "wp (persist_anchor S sv req digest txHash) (\<lambda>r s'. gapura_inv cy sv good known s' \<and> grows known s s'
    \<and> (\<forall>a b. r = Inr (a, b) \<longrightarrow> answers digest a s' \<and> \<not> b \<and> minted cy sv req digest sent a s')) s"
proof -
  have put: "good st' \<and> known st' = insert (anchor_record sv req digest txHash block found i time) (known (gw_store s))"
    if "gs_putAnchor S (gw_store s) (anchor_record sv req digest txHash block found i time) = Inr st'" for st' block found i time
    using put_known[OF _ that] assms(1-3) by (simp add: gapura_inv_def anchor_record_def)
  have on: "anchored_on cy sv (gw_sent s) (anchor_record sv req digest txHash block found i time)" for block found i time
    using assms(4,5) by (auto simp: anchored_on_def)
  have rec: "gr_digest (anchor_record sv req digest txHash block found i time) = digest"
    "gr_purpose (anchor_record sv req digest txHash block found i time) = ca_purpose req"
    "gr_tenant (anchor_record sv req digest txHash block found i time) = ca_tenant req" for block found i time
    by (simp_all add: anchor_record_def)
  have new: "answers digest (toDto sv (anchor_record sv req digest txHash block found i time)) s'
      \<and> minted cy sv req digest sent (toDto sv (anchor_record sv req digest txHash block found i time)) s'"
    if "anchor_record sv req digest txHash block found i time \<in> known (gw_store s')" "gw_sent s' = gw_sent s" for s' block found i time
    unfolding answers_def minted_def
    by (intro conjI exI[of _ tx] bexI[OF _ that(1)]) (simp_all add: rec assms(3,4,5) that(2) toDto_def)
  show ?thesis
    using assms(1) unfolding persist_anchor_def gapura_receipt_def newAnchorId_def
    by (auto simp: wp_simps Let_def gapura_inv_def grows_def rec assms(3) on intro!: new dest!: put split: sum.split)
qed

lemma commits_tx:
  assumes "gapura_fromHex digest = Inr b" "length b = 32" "gapura_writesEnabled sv"
  shows "commits cy sv (gapura_tx (gv_config sv) b head (anchorChainTag cy (ca_purpose req) (ca_tenant req)) h)
    (anchor_record sv req digest txHash block found i time)"
  using assms by (simp add: commits_def gapura_tx_def anchor_record_def gapura_writesEnabled_def)

lemma inv_more_sent:
  "gapura_inv cy sv good known s \<Longrightarrow> gapura_inv cy sv good known (s\<lparr>gw_submit := q, gw_sent := gw_sent s @ [tx]\<rparr>)"
  by (auto simp: gapura_inv_def anchored_on_def)

lemma wp_signed_commitment: "wp (signed_commitment cy sv kp b h k) (\<lambda>r s'. s' = s) s"
  by (simp add: signed_commitment_def wp_simps split: sum.split)

lemma wp_submit_anchor:
  assumes "gapura_inv cy sv good known s" "gs_getAnchorByDigest S (gw_store s) digest = Inr None" "to_lower digest = digest"
    and "gapura_writesEnabled sv"
  shows "wp (submit_anchor cy S sv kp req digest latest) (\<lambda>r s'. gapura_inv cy sv good known s' \<and> grows known s s'
    \<and> (\<forall>a b. r = Inr (a, b) \<longrightarrow> answers digest a s' \<and> \<not> b \<and> minted cy sv req digest (gw_sent s) a s')) s"
proof (cases "gapura_fromHex digest")
  case (Inl e)
  then show ?thesis using assms by (simp add: submit_anchor_def Let_def wp_simps)
next
  case (Inr b)
  let ?tag = "anchorChainTag cy (ca_purpose req) (ca_tenant req)"
  have persist: "wp (persist_anchor S sv req digest txHash) (\<lambda>r s'. gapura_inv cy sv good known s' \<and> grows known s s'
      \<and> (\<forall>a b. r = Inr (a, b) \<longrightarrow> answers digest a s' \<and> \<not> b \<and> minted cy sv req digest (gw_sent s) a s'))
      (s\<lparr>gw_submit := stl (gw_submit s), gw_sent := gw_sent s @ [gapura_tx (gv_config sv) b head ?tag h]\<rparr>)"
    if "length b = 32" for txHash h head
    by (rule wp_mono[OF wp_persist_anchor[OF inv_more_sent[OF assms(1)]]])
      (use assms that Inr in \<open>auto simp: grows_def intro!: commits_tx\<close>)
  show ?thesis
    unfolding submit_anchor_def Let_def Inr
  proof (rule wp_seq[of _ "\<lambda>r s'. s' = s \<and> r = Inr b"], goal_cases)
    case (3 x t)
    then have xt: "x = b" "t = s" by auto
    show ?case
    proof (cases "length b = 32")
      case True
      have sent: "gapura_inv cy sv good known (s\<lparr>gw_submit := q, gw_sent := gw_sent s @ [y]\<rparr>)
          \<and> grows known s (s\<lparr>gw_submit := q, gw_sent := gw_sent s @ [y]\<rparr>)" for q y
        using inv_more_sent[OF assms(1)] by (auto simp: grows_def)
      from True have len: "(length b \<noteq> 32) = False" by simp
      show ?thesis
        unfolding xt len if_False
      proof (rule wp_seq[OF wp_signed_commitment], goal_cases)
        case (2 h t)
        then have t: "t = s" by simp
        show ?case
          unfolding t using persist[OF True] sent by (simp add: wp_simps split: sum.split)
      qed (use assms in simp)
    qed (use assms xt in \<open>simp add: wp_simps\<close>)
  qed (simp_all add: wp_simps)
qed

text \<open>What a call of \<open>createAnchor\<close> that answers has done: handed out a stored anchor, or made one.\<close>

definition served_anchor ::
  "Crypto \<Rightarrow> GapuraService \<Rightarrow> CreateAnchorRequest \<Rightarrow> RecordAnchorTx list \<Rightarrow> GapuraAnchor \<Rightarrow> bool \<Rightarrow> 's Gateway \<Rightarrow> bool" where
  "served_anchor cy sv req sent a already s \<longleftrightarrow>
     (if already then handed_out sv sent a s else minted cy sv req (to_lower (ca_digest req)) sent a s)"

lemma wp_createAnchor:
  assumes "gapura_inv cy sv good known s"
  shows "wp (createAnchor cy S sv req) (\<lambda>r s'. gapura_inv cy sv good known s' \<and> grows known s s'
    \<and> (\<forall>a b. r = Inr (a, b) \<longrightarrow> answers (ca_digest req) a s' \<and> served_anchor cy sv req (gw_sent s) a b s')) s"
proof -
  have g: "good (gw_store s)" using assms by (simp add: gapura_inv_def)
  show ?thesis
  proof (cases "\<exists>r\<in>known (gw_store s). gr_digest r = to_lower (ca_digest req)")
    case True
    then obtain r where r: "r \<in> known (gw_store s)" "gr_digest r = to_lower (ca_digest req)" by blast
    have "answers (ca_digest req) (toDto sv (view r)) s"
      unfolding answers_def by (rule bexI[OF _ r(1)]) (use r(2) view_keeps[of r] in \<open>simp add: toDto_def\<close>)
    with assms createAnchor_found[OF g r, of cy sv] r(1) show ?thesis
      by (auto simp: wp_def served_anchor_def handed_out_def)
  next
    case False
    then have none: "gs_getAnchorByDigest S (gw_store s) (to_lower (ca_digest req)) = Inr None"
      using absent[OF g, of "to_lower (ca_digest req)"] by simp
    have submit: "wp (submit_anchor cy S sv kp req (to_lower (ca_digest req)) latest)
        (\<lambda>r s'. gapura_inv cy sv good known s' \<and> grows known s s'
          \<and> (\<forall>a b. r = Inr (a, b) \<longrightarrow> answers (ca_digest req) a s' \<and> served_anchor cy sv req (gw_sent s) a b s'))
        (s\<lparr>gw_head := q\<rparr>)" if "gapura_writesEnabled sv" for kp latest q
    proof (rule wp_mono[OF wp_submit_anchor])
      show "gapura_inv cy sv good known (s\<lparr>gw_head := q\<rparr>)" using assms by (simp add: gapura_inv_def)
    qed (use none that in \<open>auto simp: grows_def answers_def served_anchor_def\<close>)
    have head: "gapura_inv cy sv good known (s\<lparr>gw_head := q\<rparr>) \<and> grows known s (s\<lparr>gw_head := q\<rparr>)" for q
      using assms by (simp add: gapura_inv_def grows_def)
    show ?thesis
      unfolding createAnchor_def Let_def using assms none submit head
      by (auto simp: wp_simps split: option.split sum.split)
  qed
qed

text \<open>Nothing the server does forgets an anchor or stores one that is not on chain.\<close>

lemma keeps_create_and_reply: "keeps_anchors cy sv good known (create_and_reply cy S sv req tenant)"
proof -
  have create: "keeps_anchors cy sv good known (createAnchor cy S sv rq)" for rq
    unfolding keeps_anchors_def by (auto intro: wp_mono[OF wp_createAnchor])
  have put: "keeps_anchors cy sv good known (g_put (\<lambda>st. gs_putIdempotency S t st k e))" for t k e
    unfolding g_put_def by (rule keeps_write) (auto simp: bindE_Inr_iff dest: idem_put)
  show ?thesis
    unfolding create_and_reply_def
    by (intro g_keeps_bind[OF create]) (auto intro!: keeps_leaves put split: prod.split)
qed

lemma keeps_post_anchors: "keeps_anchors cy sv good known (gapura_post_anchors cy S sv req tenant)"
proof -
  have idem: "keeps_anchors cy sv good known (g_write (\<lambda>st. gs_getIdempotency S t st k))" for t k
    by (rule keeps_write) (auto dest: idem_get)
  show ?thesis
    unfolding gapura_post_anchors_def
    by (auto intro!: keeps_leaves idem keeps_create_and_reply split: option.split)
qed

lemma keeps_dispatch: "keeps_anchors cy sv good known (gapura_dispatch cy S sv req tenant)"
proof -
  have binding: "keeps_anchors cy sv good known (g_write (\<lambda>st. gs_putBinding S t st a b c d))" for t a b c d
    by (rule keeps_write) (auto dest: binding_put)
  have bindings: "keeps_anchors cy sv good known (post_bindings S req d)" for d
    unfolding post_bindings_def Let_def
    by (auto intro!: keeps_leaves binding)
  show ?thesis
    unfolding gapura_dispatch_def Let_def
    by (auto intro!: keeps_post_anchors bindings keeps_leaves split: gapura_route.split)
qed

lemma keeps_handle: "keeps_anchors cy sv good known (gapura_handle cy S sv jv req)"
  unfolding gapura_handle_def
  by (auto intro!: keeps_dispatch keeps_leaves split: option.split sum.split)

lemma serve_keeps:
  assumes "gapura_inv cy sv good known s"
  shows "gapura_inv cy sv good known (snd (gapura_serve cy S sv jv req s)) \<and> grows known s (snd (gapura_serve cy S sv jv req s))"
  using wpD[OF keepsD[OF keeps_handle assms, of jv req]]
  by (auto simp: gapura_serve_def split: prod.split sum.split)

text \<open>An anchor handed out once is the anchor of its digest from then on.\<close>

lemma answered_again:
  assumes "gapura_inv cy sv good known t" "answers d a t" "to_lower (ca_digest req) = to_lower d"
  shows "\<exists>a'. createAnchor cy S sv req t = (Inr (a', True), t) \<and> ga_anchorId a' = ga_anchorId a
    \<and> tr_txHash (ga_txRef a') = tr_txHash (ga_txRef a)"
    and "\<exists>v t'. verify S sv d t = (Inr v, t') \<and> vf_anchored v \<and> map va_anchorId (vf_anchors v) = [ga_anchorId a]"
proof -
  from assms(2) obtain r where r: "r \<in> known (gw_store t)" "gr_digest r = to_lower d"
    and a: "ga_anchorId a = gr_anchorId r" "tr_txHash (ga_txRef a) = gr_txHash r" by (auto simp: answers_def)
  have g: "good (gw_store t)" using assms(1) by (simp add: gapura_inv_def)
  show "\<exists>a'. createAnchor cy S sv req t = (Inr (a', True), t) \<and> ga_anchorId a' = ga_anchorId a
      \<and> tr_txHash (ga_txRef a') = tr_txHash (ga_txRef a)"
    using createAnchor_found[OF g r(1), of req cy sv] r(2) assms(3) a view_keeps[of r] by (simp add: toDto_def)
  show "\<exists>v t'. verify S sv d t = (Inr v, t') \<and> vf_anchored v \<and> map va_anchorId (vf_anchors v) = [ga_anchorId a]"
    using found[OF g r(1), of "to_lower d"] r(2) a view_keeps[of r]
    by (simp add: verify_def bindS_apply g_read_def g_lift_def g_now_def)
qed

lemma answers_grows: "answers d a s \<Longrightarrow> grows known s t \<Longrightarrow> answers d a t"
  by (auto simp: answers_def grows_def)

text \<open>The anchor in the answer of a \<open>POST\<close>: made by this request (201), or stored before (200).\<close>

definition post_outcome ::
  "Crypto \<Rightarrow> GapuraService \<Rightarrow> json option \<Rightarrow> string \<Rightarrow> RecordAnchorTx list \<Rightarrow> nat \<Rightarrow> GapuraAnchor \<Rightarrow> 's Gateway \<Rightarrow> bool" where
  "post_outcome cy sv body tenant sent n a s \<longleftrightarrow>
     (n = 200 \<and> handed_out sv sent a s)
     \<or> (n = 201 \<and> minted cy sv (anchor_request body tenant) (to_lower (ca_digest (anchor_request body tenant))) sent a s)"

lemma served_later:
  "served_anchor cy sv rq sent a b t \<Longrightarrow> gw_sent u = gw_sent t \<Longrightarrow> known (gw_store u) = known (gw_store t)
    \<Longrightarrow> served_anchor cy sv rq sent a b u"
  by (cases b) (simp_all add: served_anchor_def minted_def handed_out_def)

lemma wp_create_and_reply:
  assumes "gapura_inv cy sv good known s"
  shows "wp (create_and_reply cy S sv req tenant)
    (\<lambda>r s'. \<forall>n a. r = Inr (G_Sent n (GP_anchor a)) \<longrightarrow> post_outcome cy sv (gq_body req) tenant (gw_sent s) n a s') s"
  unfolding create_and_reply_def
proof (rule wp_seq[OF wp_createAnchor[OF assms]], goal_cases)
  case (2 x t)
  obtain a b where x: "x = (a, b)" by fastforce
  with 2 have t: "good (gw_store t)" "served_anchor cy sv (anchor_request (gq_body req) tenant) (gw_sent s) a b t"
    by (auto simp: gapura_inv_def)
  have out: "post_outcome cy sv (gq_body req) tenant (gw_sent s) (if b then 200 else 201) a u"
    if "gw_sent u = gw_sent t" "known (gw_store u) = known (gw_store t)" for u
    using served_later[OF t(2) that] by (auto simp: post_outcome_def served_anchor_def split: if_splits)
  show ?case
    unfolding x case_prod_conv using out idem_put[OF t(1)]
    by (auto simp: wp_simps split: sum.split)
qed simp

lemma wp_post_anchors:
  assumes "gapura_inv cy sv good known s"
  shows "wp (gapura_post_anchors cy S sv req tenant)
    (\<lambda>r s'. \<forall>n a. r = Inr (G_Sent n (GP_anchor a)) \<longrightarrow> post_outcome cy sv (gq_body req) tenant (gw_sent s) n a s') s"
proof -
  have g: "good (gw_store s)" using assms by (simp add: gapura_inv_def)
  have inv: "gapura_inv cy sv good known (s\<lparr>gw_clock := q, gw_store := st\<rparr>)"
    if "gs_getIdempotency S time (gw_store s) k = Inr (x, st)" for q st time k x
    using assms idem_get[OF g that] by (simp add: gapura_inv_def)
  have create: "wp (create_and_reply cy S sv req tenant)
    (\<lambda>r s'. \<forall>n a. r = Inr (G_Sent n (GP_anchor a)) \<longrightarrow> post_outcome cy sv (gq_body req) tenant (gw_sent s) n a s') (s\<lparr>gw_clock := q, gw_store := st\<rparr>)"
    if "gs_getIdempotency S time (gw_store s) k = Inr (x, st)" for q st time k x
    using wp_create_and_reply[OF inv[OF that]] by simp
  have replay: "wp (getAnchor S sv i) (\<lambda>r s'. \<forall>a. r = Inr a \<longrightarrow> handed_out sv (gw_sent t) a s') t" if "good (gw_store t)" for i t
    using by_id[OF that, of i] by (auto simp: getAnchor_def wp_simps handed_out_def split: sum.split option.split)
  have cached: "wp (bindS (getAnchor S sv i) (\<lambda>anchor. ret (G_Sent 200 (GP_anchor anchor))))
    (\<lambda>r s'. \<forall>n a. r = Inr (G_Sent n (GP_anchor a)) \<longrightarrow> post_outcome cy sv (gq_body req) tenant (gw_sent s) n a s') (s\<lparr>gw_clock := q, gw_store := st\<rparr>)"
    if "gs_getIdempotency S time (gw_store s) k = Inr (x, st)" for q st time k x i
  proof (rule wp_seq[OF replay])
    show "good (gw_store (s\<lparr>gw_clock := q, gw_store := st\<rparr>))" using idem_get[OF g that] by simp
  qed (auto simp: wp_simps post_outcome_def)
  show ?thesis
    using create cached wp_create_and_reply[OF assms, of req tenant]
    by (auto simp: gapura_post_anchors_def wp_simps gapura_sendProblem_def split: option.split sum.split)
qed

end

subsection \<open>Histories of requests\<close>

inductive gapura_step ::
  "Crypto \<Rightarrow> 's GapuraStore \<Rightarrow> GapuraService \<Rightarrow> gapura_jwt_verify \<Rightarrow> 's Gateway \<Rightarrow> 's Gateway \<Rightarrow> bool"
  for cy S sv jv where
  step_request: "gapura_step cy S sv jv s (snd (gapura_serve cy S sv jv req s))"

inductive_simps gapura_step_iff: "gapura_step cy S sv jv s s'"

context gapura_store
begin

lemma steps_keep:
  assumes "(gapura_step cy S sv jv)\<^sup>*\<^sup>* s t" "gapura_inv cy sv good known s"
  shows "gapura_inv cy sv good known t \<and> grows known s t"
  using assms
proof (induction rule: rtranclp_induct)
  case (step t u)
  then show ?case using serve_keeps[of cy sv t jv] by (auto simp: gapura_step_iff intro: g_grows_trans)
qed simp

end

definition gapura_fresh :: "GapuraMemory Gateway \<Rightarrow> bool" where
  "gapura_fresh s \<longleftrightarrow> gw_store s = emptyGapuraMemory"

lemma gapura_fresh_inv: "gapura_fresh s \<Longrightarrow> gapura_inv cy sv gm_ok gm_known s"
  by (simp add: gapura_fresh_def gapura_inv_def emptyGapuraMemory_def gm_ok_def gm_known_def)

lemmas gapura_reach = gm.steps_keep[OF _ gapura_fresh_inv, THEN conjunct1]

subsection \<open>A service to try the theorems on\<close>

definition toy_gapura_config :: GapuraConfig where
  "toy_gapura_config = \<lparr>gc_port = Some 8930, gc_jwksUrl = Some ''j'', gc_issuer = Some ''i'', gc_audience = Some ''a'',
     gc_rpcWriteUrl = ''w'', gc_rpcReadUrl = ''r'', gc_chainId = Some 131216,
     gc_pqAnchorRegistry = ''0x'' @ replicate 40 CHR ''1'', gc_anchorGasLimit = 500000, gc_pqAlgorithm = ''ML-DSA-65'',
     gc_anchorEcdsaKey = Some (''0x'' @ replicate 64 CHR ''2''), gc_pqMldsaSeed = Some (''0x'' @ replicate 64 CHR ''3''),
     gc_pgUrl = None, gc_haradidResolverUrl = None\<rparr>"

definition toy_gapura :: GapuraService where
  "toy_gapura = \<lparr>gv_config = toy_gapura_config, gv_account = gc_anchorEcdsaKey toy_gapura_config,
     gv_pqKeypair = Some \<lparr>publicKey = replicate 1952 0, secretKey = replicate 4032 0\<rparr>, gv_pqKeyHashHex = ''0x''\<rparr>"

definition toy_gateway :: "GapuraMemory Gateway" where
  "toy_gateway = \<lparr>gw_store = emptyGapuraMemory, gw_clock = sconst 1700000000000, gw_rand = sconst (replicate 16 7),
     gw_head = sconst (Inr 100), gw_submit = sconst (Inr ''0xabc''),
     gw_receipt = sconst (Inr \<lparr>gx_success = True, gx_blockNumber = 101, gx_logs = []\<rparr>), gw_fetch = sconst (Inl ''down''),
     gw_sent = [], gw_fetched = []\<rparr>"

definition toy_digest :: string where "toy_digest = ''0x'' @ replicate 64 CHR ''a''"

definition toy_create :: CreateAnchorRequest where
  "toy_create = \<lparr>ca_digest = toy_digest, ca_hashAlg = ''sha256'', ca_objectDid = ''did:hara:x'', ca_purpose = ''passport'',
     ca_actorDid = None, ca_tenant = ''t''\<rparr>"

lemma toy_digest [simp]: "to_lower toy_digest = toy_digest" "gapura_fromHex toy_digest = Inr (replicate 32 170)"
  by code_simp+

lemma toy_gapura_writes: "gapura_writesEnabled toy_gapura"
  by code_simp

lemma toy_gapura_message: "\<exists>m. canonicalMessage ''ML-DSA-65'' b 99 99 1 k = Inr m"
  by (simp add: canonicalMessage_def u16_def u64_def Let_def)

lemmas gapura_run = createAnchor_def submit_anchor_def persist_anchor_def signed_commitment_def gapura_receipt_def
  newAnchorId_def g_read_def g_put_def g_write_def g_lift_def g_now_def g_random_def g_getBlockNumber_def
  g_writeContract_def g_waitForReceipt_def bindS_apply Let_def

text \<open>The same service without authentication.\<close>

definition toy_open :: GapuraService where
  "toy_open = toy_gapura\<lparr>gv_config := toy_gapura_config\<lparr>gc_jwksUrl := None\<rparr>\<rparr>"

lemma toy_creates:
  assumes "sv = toy_gapura \<or> sv = toy_open"
  shows "\<exists>a s r. createAnchor toy_crypto gapura_memory_store sv (toy_create\<lparr>ca_tenant := tn\<rparr>) toy_gateway = (Inr (a, False), s)
     \<and> ga_digest a = toy_digest \<and> gw_clock s = sconst 1700000000000
     \<and> gm_byId (gw_store s) (ga_anchorId a) = Some r \<and> toDto sv r = a"
proof -
  obtain m where "canonicalMessage ''ML-DSA-65'' (replicate 32 170) 99 99 1 (anchorChainTag toy_crypto ''passport'' tn) = Inr m"
    using toy_gapura_message by blast
  moreover have "gapura_writesEnabled sv" using assms toy_gapura_writes
    by (auto simp: toy_open_def gapura_writesEnabled_def toy_gapura_def)
  moreover have "gv_pqKeypair sv = Some \<lparr>publicKey = replicate 1952 0, secretKey = replicate 4032 0\<rparr>"
    "gc_pqAlgorithm (gv_config sv) = ''ML-DSA-65''" "gc_pqAnchorRegistry (gv_config sv) = ''0x'' @ replicate 40 CHR ''1''"
    using assms by (auto simp: toy_open_def toy_gapura_def toy_gapura_config_def)
  ultimately show ?thesis
    by (simp add: gapura_run toy_create_def toy_gateway_def gapura_memory_store_def
        gm_getAnchorByDigest_def gm_putAnchor_def emptyGapuraMemory_def gapura_sign_def toy_crypto_def anchor_record_def toDto_def)
qed

lemma toy_create_runs:
  "\<exists>a s. createAnchor toy_crypto gapura_memory_store toy_gapura toy_create toy_gateway = (Inr (a, False), s)
     \<and> ga_digest a = toy_digest \<and> gw_clock s = sconst 1700000000000"
  using toy_creates[of toy_gapura "''t''"] by (auto simp: toy_create_def)

text \<open>A request without a token.\<close>

definition toy_post :: GapuraRequest where
  "toy_post = \<lparr>gq_verb = ''POST'', gq_path = [''v1'', ''anchors''], gq_url = ''/v1/anchors'', gq_id = ''1'', gq_query = Map.empty,
     gq_authorization = None, gq_idempotencyKey = Some ''k'',
     gq_body = Some (JObj [(''digest'', JStr toy_digest), (''objectDid'', JStr ''did:hara:x''), (''purpose'', JStr ''passport'')])\<rparr>"

lemma gapura_memory_sel:
  "gs_getIdempotency gapura_memory_store = gm_getIdempotency" "gs_putIdempotency gapura_memory_store = gm_putIdempotency"
  by (simp_all add: gapura_memory_store_def)

lemma getAnchor_memory:
  "getAnchor gapura_memory_store sv i s = (case gm_byId (gw_store s) i of
     None \<Rightarrow> (Inl (G_ProblemError G_anchor_not_found (Some i)), s) | Some r \<Rightarrow> (Inr (toDto sv r), s))"
  by (simp add: getAnchor_def bindS_apply g_read_def g_lift_def g_problem_def gapura_memory_store_def gm_getAnchorById_def
      split: option.split)

lemma toy_post_body: "check_anchor (gq_body toy_post) = None" "anchor_request (gq_body toy_post) ''t'' = toy_create"
  by code_simp (simp add: anchor_request_def toy_post_def toy_create_def body_prop_def Let_def as_str_def)

lemma toy_open_runs:
  "\<exists>a s. gapura_serve toy_crypto gapura_memory_store toy_open jv toy_post toy_gateway = (G_Sent 201 (GP_anchor a), s)
     \<and> getAnchor gapura_memory_store toy_open (ga_anchorId a) s = (Inr a, s)"
proof -
  have g: "toy_gateway\<lparr>gw_clock := sconst 1700000000000, gw_store := gw_store toy_gateway\<rparr> = toy_gateway"
    by (simp add: toy_gateway_def)
  have rq: "anchor_request (gq_body toy_post) ''dev'' = toy_create\<lparr>ca_tenant := ''dev''\<rparr>"
    by (simp add: anchor_request_def toy_post_def toy_create_def body_prop_def Let_def as_str_def)
  have open_gate: "\<not> GAPURA_AUTH_ENABLED (gv_config toy_open)"
    by (simp add: toy_open_def GAPURA_AUTH_ENABLED_def)
  obtain a s r where "createAnchor toy_crypto gapura_memory_store toy_open (toy_create\<lparr>ca_tenant := ''dev''\<rparr>) toy_gateway = (Inr (a, False), s)"
    "gm_byId (gw_store s) (ga_anchorId a) = Some r" "toDto toy_open r = a" using toy_creates[of toy_open "''dev''"] by blast
  then show ?thesis
    using toy_post_body(1) g rq open_gate
    by (simp add: gapura_serve_def gapura_handle_def gapura_dispatch_def requireScope_def gapura_route_of_def Let_def
        gapura_post_anchors_def create_and_reply_def bindS_apply g_now_def g_write_def g_put_def gapura_memory_sel
        gm_getIdempotency_def gm_putIdempotency_def getAnchor_memory toy_post_def toy_gateway_def emptyGapuraMemory_def)
qed

subsection \<open>Properties\<close>

text \<open>C14: One anchor per digest, for good.  Once the gateway has answered a request for a digest with an
  anchor, then whatever requests are served in between, every later request for that digest, in any spelling and with any
  purpose or tenant, is answered with the same identifier and transaction as already anchored, submits nothing and changes
  nothing, and verifying the digest reports exactly that anchor.\<close>

theorem digest_is_anchored_once:
  assumes "gapura_fresh s0" "(gapura_step cy gapura_memory_store sv jv)\<^sup>*\<^sup>* s0 s"
    and "createAnchor cy gapura_memory_store sv rq s = (Inr (a, b), s1)"
    and "(gapura_step cy gapura_memory_store sv jv)\<^sup>*\<^sup>* s1 t" "to_lower (ca_digest rq') = to_lower (ca_digest rq)"
  shows "(\<exists>a'. createAnchor cy gapura_memory_store sv rq' t = (Inr (a', True), t) \<and> ga_anchorId a' = ga_anchorId a
       \<and> tr_txHash (ga_txRef a') = tr_txHash (ga_txRef a))
    \<and> (\<exists>v t'. verify gapura_memory_store sv (ca_digest rq) t = (Inr v, t') \<and> vf_anchored v
       \<and> map va_anchorId (vf_anchors v) = [ga_anchorId a])"
proof -
  have s1: "gapura_inv cy sv gm_ok gm_known s1" "gm.answers (ca_digest rq) a s1"
    using wpD[OF gm.wp_createAnchor[OF gapura_reach[OF assms(2,1)]] assms(3)] by auto
  have t: "gapura_inv cy sv gm_ok gm_known t" "gm.answers (ca_digest rq) a t"
    using gm.steps_keep[OF assms(4) s1(1)] gm.answers_grows[OF s1(2)] by auto
  show ?thesis using gm.answered_again[OF t, of rq'] gm.answered_again(2)[OF t refl] assms(5) by blast
qed

theorem digest_is_anchored_once_witness:
  "\<exists>a s. createAnchor toy_crypto gapura_memory_store toy_gapura toy_create toy_gateway = (Inr (a, False), s)
     \<and> (\<exists>a'. createAnchor toy_crypto gapura_memory_store toy_gapura (toy_create\<lparr>ca_tenant := ''other''\<rparr>) s = (Inr (a', True), s)
        \<and> ga_anchorId a' = ga_anchorId a)"
proof -
  obtain a s where c: "createAnchor toy_crypto gapura_memory_store toy_gapura toy_create toy_gateway = (Inr (a, False), s)"
    using toy_create_runs by blast
  have fresh: "gapura_fresh toy_gateway" by (simp add: gapura_fresh_def toy_gateway_def)
  from digest_is_anchored_once[OF fresh rtranclp.rtrancl_refl c rtranclp.rtrancl_refl, of "toy_create\<lparr>ca_tenant := ''other''\<rparr>"] c
  show ?thesis by auto
qed

text \<open>Only two routes answer with an anchor.\<close>

definition no_anchor :: "('s, gapura_reply) gop \<Rightarrow> bool" where
  "no_anchor m \<longleftrightarrow> (\<forall>s s' n a. m s \<noteq> (Inr (G_Sent n (GP_anchor a)), s'))"

lemma no_anchorD: "no_anchor m \<Longrightarrow> m s = (Inr (G_Sent n (GP_anchor a)), s') \<Longrightarrow> P"
  by (simp add: no_anchor_def)

lemma requireScope_refusal: "requireScope cfg jv scope req = Inl x \<Longrightarrow> \<exists>c p. x = G_Problem_reply c p"
  by (auto simp: requireScope_def gapura_sendProblem_def split: if_splits option.splits sum.splits)

lemma no_anchor_intros:
  "(\<And>x. no_anchor (f x)) \<Longrightarrow> no_anchor (bindS m f)" "(\<And>n a. r \<noteq> G_Sent n (GP_anchor a)) \<Longrightarrow> no_anchor (ret r)"
  "no_anchor (throw e)" "no_anchor (g_problem c d)"
  by (auto simp: no_anchor_def bindS_apply g_problem_def split: prod.splits sum.splits)

lemma no_anchor_handlers:
  "no_anchor (gapura_get_anchors S sv req)" "no_anchor (gapura_post_verify S sv req)" "no_anchor (gapura_get_status S i)"
  "no_anchor (post_identities u req)" "no_anchor (get_operation u i)" "no_anchor (get_by_subject S b)" "no_anchor (post_bindings S req d)"
  "no_anchor (get_usage req)" "no_anchor (get_quotas req)" "no_anchor (gapura_healthz sv)"
  by (auto simp: gapura_get_anchors_def gapura_post_verify_def gapura_get_status_def post_identities_def get_operation_def
      get_by_subject_def post_bindings_def get_usage_def get_quotas_def gapura_healthz_def Let_def gapura_sendProblem_def
      intro!: no_anchor_intros split: option.split)

lemma no_anchor_did: "no_anchor (get_did u req d)"
  by (auto simp: no_anchor_def get_did_def gapura_sendProblem_def split: prod.splits sum.splits gapura_fault.splits DidReason.splits)

lemma anchor_routes:
  assumes "gapura_dispatch cy S sv req tenant s = (Inr (G_Sent n (GP_anchor a)), s')"
  shows "(gapura_route_of (gq_verb req) (gq_path req) = GR_post_anchors
        \<and> gapura_post_anchors cy S sv req tenant s = (Inr (G_Sent n (GP_anchor a)), s'))
    \<or> (\<exists>i. gapura_route_of (gq_verb req) (gq_path req) = GR_anchor i \<and> n = 200 \<and> getAnchor S sv i s = (Inr a, s'))"
proof (cases "gapura_route_of (gq_verb req) (gq_path req)")
  case (GR_anchor i)
  with assms show ?thesis
    by (auto simp: gapura_dispatch_def gapura_get_anchor_def bindS_apply split: prod.splits sum.splits)
qed (use assms in \<open>auto simp: gapura_dispatch_def Let_def dest: no_anchor_handlers[THEN no_anchorD] no_anchorD[OF no_anchor_did]
    split: prod.splits\<close>)

text \<open>C13: Every anchor the gateway hands out, as the answer of a \<open>POST\<close> or of a \<open>GET\<close>, is that of a stored record for which it submitted a
  transaction: the transaction commits the digest as its Merkle root, counts one event, carries the tag of the record's purpose and
  tenant, and went to the configured registry, which is neither unset nor the shared platform registry.  An answer 201 made the
  record: this request submitted exactly that one transaction, and purpose, digest and tenant are those of its body and of
  its token.  An answer 200 submitted nothing.\<close>

theorem gapura_anchors_are_on_chain:
  assumes "gapura_fresh s0" "(gapura_step cy gapura_memory_store sv jv)\<^sup>*\<^sup>* s0 s"
    and "gapura_serve cy gapura_memory_store sv jv req s = (G_Sent n (GP_anchor a), s')"
  shows "\<exists>r tx b. gm_byDigest (gw_store s') (gr_digest r) = Some r \<and> a = toDto sv r \<and> tx \<in> set (gw_sent s')
    \<and> gapura_fromHex (ga_digest a) = Inr b \<and> length b = 32 \<and> tx_merkleRoot tx = gapura_toHex b \<and> tx_eventCount tx = 1
    \<and> tx_anchorChain tx = anchorChainTag cy (gr_purpose r) (gr_tenant r)
    \<and> tx_to tx = gc_pqAnchorRegistry (gv_config sv) \<and> isGapuraScopedRegistry (tx_to tx)
    \<and> (n = 201 \<and> gw_sent s' = gw_sent s @ [tx] \<and> gr_purpose r = ca_purpose (anchor_request (gq_body req) [])
          \<and> gr_digest r = to_lower (ca_digest (anchor_request (gq_body req) []))
          \<and> requireScope (gv_config sv) jv Anchor_write req = Inr (gr_tenant r)
       \<or> n = 200 \<and> gw_sent s' = gw_sent s)"
proof -
  have inv: "gapura_inv cy sv gm_ok gm_known s" by (rule gapura_reach[OF assms(2,1)])
  have inv': "gapura_inv cy sv gm_ok gm_known s'"
    using gm.serve_keeps[OF inv, of jv req] assms(3) by simp
  have h: "gapura_handle cy gapura_memory_store sv jv req s = (Inr (G_Sent n (GP_anchor a)), s')"
    using assms(3) by (auto simp: gapura_serve_def split: prod.splits sum.splits)
  let ?rt = "gapura_route_of (gq_verb req) (gq_path req)"
  obtain tenant where d: "gapura_dispatch cy gapura_memory_store sv req tenant s = (Inr (G_Sent n (GP_anchor a)), s')"
    "?rt = GR_post_anchors \<Longrightarrow> requireScope (gv_config sv) jv Anchor_write req = Inr tenant"
  proof (cases "required_scope ?rt")
    case None
    then have "?rt \<noteq> GR_post_anchors" by auto
    then show thesis using that h None by (simp add: gapura_handle_def)
  next
    case (Some scope)
    with h obtain tenant where "requireScope (gv_config sv) jv scope req = Inr tenant"
      "gapura_dispatch cy gapura_memory_store sv req tenant s = (Inr (G_Sent n (GP_anchor a)), s')"
      by (auto simp: gapura_handle_def dest: requireScope_refusal split: sum.splits)
    then show thesis using Some by (intro that) auto
  qed
  let ?body = "anchor_request (gq_body req)"
  have request: "ca_purpose (?body tenant) = ca_purpose (?body [])" "ca_digest (?body tenant) = ca_digest (?body [])" "ca_tenant (?body tenant) = tenant"
    by (simp_all add: anchor_request_def Let_def)
  from anchor_routes[OF d(1)] have "(\<exists>tx. \<exists>r\<in>gm_known (gw_store s'). n = 201 \<and> gw_sent s' = gw_sent s @ [tx] \<and> a = toDto sv r \<and> commits cy sv tx r
        \<and> gr_digest r = to_lower (ca_digest (anchor_request (gq_body req) [])) \<and> gr_purpose r = ca_purpose (anchor_request (gq_body req) [])
        \<and> requireScope (gv_config sv) jv Anchor_write req = Inr (gr_tenant r))
      \<or> (\<exists>r\<in>gm_known (gw_store s'). n = 200 \<and> gw_sent s' = gw_sent s \<and> a = toDto sv r)"
  proof (elim disjE exE conjE, goal_cases)
    case 1
    from wpD[OF gm.wp_post_anchors[OF inv] 1(2)] d(2)[OF 1(1)] show ?case
      unfolding gm.post_outcome_def gm.minted_def gm.handed_out_def request by auto
  next
    case (2 i)
    then obtain r where "gs_getAnchorById gapura_memory_store (gw_store s) i = Inr (Some r)" "a = toDto sv r" "s' = s"
      by (auto simp: getAnchor_def bindS_apply g_read_def g_lift_def g_problem_def split: sum.splits option.splits)
    with gm.by_id[of "gw_store s" i r] inv 2(2) show ?case by (auto simp: gapura_inv_def)
  qed
  then obtain tx r where r: "r \<in> gm_known (gw_store s')" "a = toDto sv r" "commits cy sv tx r" "tx \<in> set (gw_sent s')"
    "n = 201 \<and> gw_sent s' = gw_sent s @ [tx] \<and> gr_purpose r = ca_purpose (anchor_request (gq_body req) [])
          \<and> gr_digest r = to_lower (ca_digest (anchor_request (gq_body req) []))
          \<and> requireScope (gv_config sv) jv Anchor_write req = Inr (gr_tenant r)
       \<or> n = 200 \<and> gw_sent s' = gw_sent s"
  proof (elim disjE exE bexE conjE, goal_cases)
    case (1 tx r)
    then show ?case by auto
  next
    case (2 r)
    with inv' obtain tx where "tx \<in> set (gw_sent s')" "commits cy sv tx r" by (auto simp: gapura_inv_def anchored_on_def)
    with 2 show ?case by auto
  qed
  moreover have "gm_byDigest (gw_store s') (gr_digest r) = Some r" using r(1) inv' by (simp add: gapura_inv_def gm_known_iff)
  ultimately show ?thesis by (auto simp: commits_def toDto_def)
qed

theorem gapura_anchors_are_on_chain_witness:
  "\<exists>a s tx. gapura_serve toy_crypto gapura_memory_store toy_open (\<lambda>_ _ _. Inr []) toy_post toy_gateway = (G_Sent 201 (GP_anchor a), s)
    \<and> gw_sent s = [tx] \<and> tx_anchorChain tx = anchorChainTag toy_crypto ''passport'' ''dev''"
proof -
  have fresh: "gapura_fresh toy_gateway" by (simp add: gapura_fresh_def toy_gateway_def)
  obtain a s where r: "gapura_serve toy_crypto gapura_memory_store toy_open (\<lambda>_ _ _. Inr []) toy_post toy_gateway = (G_Sent 201 (GP_anchor a), s)"
    using toy_open_runs by blast
  have "requireScope (gv_config toy_open) (\<lambda>_ _ _. Inr []) Anchor_write toy_post = Inr ''dev''"
    by (simp add: toy_open_def GAPURA_AUTH_ENABLED_def requireScope_def)
  moreover have "ca_purpose (anchor_request (gq_body toy_post) []) = ''passport''"
    by (simp add: anchor_request_def toy_post_def body_prop_def Let_def as_str_def)
  ultimately show ?thesis
    using gapura_anchors_are_on_chain[OF fresh rtranclp.rtrancl_refl r] r by (auto simp: toy_gateway_def)
qed

text \<open>A route is only served to a token that carries its scope.  With authentication configured, a request to
  a route with a required scope either presents a bearer token that verifies and lists the scope, or it is refused with 401 or
  403 and nothing at all changes.\<close>

theorem gapura_scope_enforced:
  assumes "GAPURA_AUTH_ENABLED (gv_config sv)"
    and "required_scope (gapura_route_of (gq_verb req) (gq_path req)) = Some scope"
    and "gapura_serve cy S sv jv req s = (r, s')"
  shows "(\<exists>h claims. gq_authorization req = Some h \<and> starts_with ''Bearer '' h
      \<and> jv (js_trim (drop 7 h)) (the (gc_issuer (gv_config sv))) (the (gc_audience (gv_config sv))) = Inr claims
      \<and> scope_text scope \<in> set (scopesFrom claims))
    \<or> (reply_status r \<in> {401, 403} \<and> s' = s)"
  using assms
  by (auto simp: gapura_serve_def gapura_handle_def requireScope_def gapura_sendProblem_def
      split: option.splits if_splits sum.splits)

theorem gapura_scope_enforced_witness:
  "snd (gapura_serve toy_crypto gapura_memory_store toy_gapura (\<lambda>_ _ _. Inr []) toy_post toy_gateway) = toy_gateway
   \<and> reply_status (fst (gapura_serve toy_crypto gapura_memory_store toy_gapura (\<lambda>_ _ _. Inr []) toy_post toy_gateway)) \<in> {401, 403}"
proof -
  have "GAPURA_AUTH_ENABLED (gv_config toy_gapura)" by (simp add: GAPURA_AUTH_ENABLED_def toy_gapura_def toy_gapura_config_def)
  moreover have "required_scope (gapura_route_of (gq_verb toy_post) (gq_path toy_post)) = Some Anchor_write"
    by (simp add: toy_post_def gapura_route_of_def)
  ultimately show ?thesis
    using gapura_scope_enforced[of toy_gapura toy_post Anchor_write toy_crypto gapura_memory_store "\<lambda>_ _ _. Inr []" toy_gateway
        "fst (gapura_serve toy_crypto gapura_memory_store toy_gapura (\<lambda>_ _ _. Inr []) toy_post toy_gateway)"
        "snd (gapura_serve toy_crypto gapura_memory_store toy_gapura (\<lambda>_ _ _. Inr []) toy_post toy_gateway)"]
    by (simp add: toy_post_def)
qed

text \<open>A lost receipt anchors a digest twice.  When the submission succeeds and waiting for its receipt fails,
  nothing is stored although the transaction is on its way; the caller, told that the chain is unavailable, asks again, and a
  second transaction with the same Merkle root is submitted.\<close>

theorem lost_receipt_anchors_twice:
  "\<exists>s1 s2 a tx1 tx2.
     createAnchor toy_crypto gapura_memory_store toy_gapura toy_create
       (toy_gateway\<lparr>gw_receipt := Inl ''timeout'' ## gw_receipt toy_gateway\<rparr>)
       = (Inl (G_ProblemError G_chain_unavailable (Some ''receipt wait failed: timeout'')), s1)
     \<and> createAnchor toy_crypto gapura_memory_store toy_gapura toy_create s1 = (Inr (a, False), s2)
     \<and> gw_sent s2 = [tx1, tx2] \<and> tx_merkleRoot tx1 = toy_digest \<and> tx_merkleRoot tx2 = toy_digest"
proof -
  obtain m where "canonicalMessage ''ML-DSA-65'' (replicate 32 170) 99 99 1 (anchorChainTag toy_crypto ''passport'' ''t'') = Inr m"
    using toy_gapura_message by blast
  moreover have "gapura_toHex (replicate 32 170) = toy_digest" by code_simp
  ultimately show ?thesis
    using toy_gapura_writes
    by (simp add: gapura_run toy_create_def toy_gapura_def toy_gapura_config_def toy_gateway_def gapura_memory_store_def
        gm_getAnchorByDigest_def gm_putAnchor_def emptyGapuraMemory_def gapura_sign_def toy_crypto_def anchor_record_def toDto_def
        gapura_tx_def g_problem_def)
qed

text \<open>An end-to-end run over the routes: what a reply with a key leaves behind.\<close>

lemma gm_known_by_id: "gm_ok s \<Longrightarrow> r \<in> gm_known s \<Longrightarrow> \<exists>x. gm_byId s (gr_anchorId r) = Some x \<and> gr_anchorId x = gr_anchorId r"
  by (auto simp: gm_ok_def gm_known_def ran_def) metis

text \<open>What the store holds about a key after a request with it was answered with an anchor.\<close>

definition remembers :: "Crypto \<Rightarrow> GapuraRequest \<Rightarrow> string \<Rightarrow> GapuraAnchor \<Rightarrow> GapuraMemory \<Rightarrow> bool" where
  "remembers cy req k a st \<longleftrightarrow> (\<exists>e. gm_idem st k = Some e \<and> ie_bodyHash e = bodyHash cy (gq_body req)
     \<and> ie_anchorId e = ga_anchorId a) \<and> (\<exists>x. gm_byId st (ga_anchorId a) = Some x \<and> gr_anchorId x = ga_anchorId a)"

lemma wp_create_and_reply_key:
  assumes "gapura_inv cy sv gm_ok gm_known s" "gq_idempotencyKey req = Some k" "k \<noteq> []"
  shows "wp (create_and_reply cy gapura_memory_store sv req tenant)
    (\<lambda>r s'. \<forall>n a. r = Inr (G_Sent n (GP_anchor a)) \<longrightarrow> remembers cy req k a (gw_store s')) s"
  unfolding create_and_reply_def
proof (rule wp_seq[OF gm.wp_createAnchor[OF assms(1)]], goal_cases)
  case (2 x t)
  obtain a b where x: "x = (a, b)" by fastforce
  from 2 x obtain r where "gm_ok (gw_store t)" "r \<in> gm_known (gw_store t)" "ga_anchorId a = gr_anchorId r"
    by (auto simp: gapura_inv_def gm.answers_def)
  from gm_known_by_id[OF this(1,2)] this(3) show ?case
    by (auto simp: x assms(2,3) wp_simps gapura_memory_store_def gm_putIdempotency_def remembers_def)
qed simp

lemma wp_post_key:
  assumes "gapura_inv cy sv gm_ok gm_known s" "gq_idempotencyKey req = Some k" "k \<noteq> []" "check_anchor (gq_body req) = None"
  shows "wp (gapura_post_anchors cy gapura_memory_store sv req tenant)
    (\<lambda>r s'. \<forall>n a. r = Inr (G_Sent n (GP_anchor a)) \<longrightarrow> remembers cy req k a (gw_store s')) s"
proof -
  have new: "wp (create_and_reply cy gapura_memory_store sv req tenant)
      (\<lambda>r s'. \<forall>n a. r = Inr (G_Sent n (GP_anchor a)) \<longrightarrow> remembers cy req k a (gw_store s')) (s\<lparr>gw_clock := q, gw_store := st\<rparr>)"
    if "gs_getIdempotency gapura_memory_store t (gw_store s) k = Inr (None, st)" for q st t
    by (rule wp_create_and_reply_key)
      (use assms gm.idem_get[OF _ that] in \<open>auto simp: gapura_inv_def\<close>)
  have old: "remembers cy req k (toDto sv x) (gw_store s)"
    if "gm_idem (gw_store s) k = Some e" "ie_bodyHash e = bodyHash cy (gq_body req)" "gm_byId (gw_store s) (ie_anchorId e) = Some x" for e x
    using that assms(1) by (auto simp: remembers_def gapura_inv_def gm_ok_def toDto_def)
  have "\<exists>x st. gm_getIdempotency (shd (gw_clock s)) (gw_store s) k = Inr (x, st)"
    by (simp add: gm_getIdempotency_def split: option.split)
  then obtain x st where g: "gm_getIdempotency (shd (gw_clock s)) (gw_store s) k = Inr (x, st)" by blast
  show ?thesis
  proof (cases x)
    case None
    with g have "gs_getIdempotency gapura_memory_store (shd (gw_clock s)) (gw_store s) k = Inr (None, st)"
      by (simp add: gapura_memory_sel)
    from new[OF this] g None assms show ?thesis by (simp add: gapura_post_anchors_def wp_simps gapura_memory_sel)
  next
    case (Some e)
    with g have e: "gm_idem (gw_store s) k = Some e" "st = gw_store s"
      by (auto simp: gm_getIdempotency_def split: option.splits if_splits)
    from g e assms Some old[OF e(1)] show ?thesis
      by (simp add: gapura_post_anchors_def wp_simps gapura_memory_sel getAnchor_memory
          wp_def[of "getAnchor a b c" for a b c] gapura_sendProblem_def split: option.split)
  qed
qed

text \<open>Requests with another key, or none, leave an entry alone.\<close>

definition keeps_key :: "string \<Rightarrow> (GapuraMemory, 'a) gop \<Rightarrow> bool" where
  "keeps_key k m \<longleftrightarrow> (\<forall>s. gm_idem (gw_store (snd (m s))) k = gm_idem (gw_store s) k
     \<and> (\<forall>i. gm_byId (gw_store s) i \<noteq> None \<longrightarrow> gm_byId (gw_store (snd (m s))) i \<noteq> None))"

lemma keeps_key_quiet: "quiet m \<Longrightarrow> keeps_key k m"
  by (simp add: keeps_key_def quiet_def)

lemma keeps_key_bind: "keeps_key k m \<Longrightarrow> (\<And>x. keeps_key k (f x)) \<Longrightarrow> keeps_key k (bindS m f)"
  unfolding keeps_key_def bindS_def by (auto split: prod.splits sum.splits) (metis snd_conv)+

lemma keeps_key_calls:
  "keeps_key k (g_writeContract tx)" "keeps_key k g_random" "keeps_key k g_waitForReceipt"
  "keeps_key k (g_put (\<lambda>st. gs_putAnchor gapura_memory_store st r))"
  "k' \<noteq> k \<Longrightarrow> keeps_key k (g_write (\<lambda>st. gs_getIdempotency gapura_memory_store time st k'))"
  "k' \<noteq> k \<Longrightarrow> keeps_key k (g_put (\<lambda>st. gs_putIdempotency gapura_memory_store time st k' e))"
  "keeps_key k (g_write (\<lambda>st. gs_putBinding gapura_memory_store time st sub did tenant b))"
  by (auto simp: keeps_key_def g_writeContract_def g_random_def g_waitForReceipt_def g_put_def g_write_def gapura_memory_store_def
      gm_putAnchor_def gm_getIdempotency_def gm_putIdempotency_def gm_putBinding_def bindE_def Let_def split: option.split)

lemma keeps_key_if: "keeps_key k m \<Longrightarrow> keeps_key k n \<Longrightarrow> keeps_key k (if b then m else n)"
  by simp

lemmas keeps_key_intros = keeps_key_bind keeps_key_calls keeps_key_if quiet_calls[THEN keeps_key_quiet]
  quiet_handlers[THEN keeps_key_quiet] quiet_get_did[THEN keeps_key_quiet] quiet_basic[THEN keeps_key_quiet] quiet_Pair[THEN keeps_key_quiet]

lemma keeps_key_create: "keeps_key k (createAnchor cy gapura_memory_store sv rq)"
  unfolding createAnchor_def submit_anchor_def persist_anchor_def signed_commitment_def gapura_receipt_def newAnchorId_def Let_def
  by (auto intro!: keeps_key_intros split: option.split sum.split prod.split)

lemma keeps_key_post:
  assumes "gq_idempotencyKey req \<noteq> Some k"
  shows "keeps_key k (gapura_post_anchors cy gapura_memory_store sv req tenant)"
proof -
  have key: "truthy_str (gq_idempotencyKey req) \<Longrightarrow> the (gq_idempotencyKey req) \<noteq> k" using assms by (auto simp: truthy_str_def split: option.splits)
  have "keeps_key k (create_and_reply cy gapura_memory_store sv req tenant)"
    unfolding create_and_reply_def
    by (rule keeps_key_bind[OF keeps_key_create]) (auto intro!: keeps_key_intros key split: prod.split)
  then show ?thesis
    unfolding gapura_post_anchors_def by (auto intro!: keeps_key_intros key split: option.split)
qed

lemma keeps_key_serve:
  assumes "gq_idempotencyKey req \<noteq> Some k"
  shows "gm_idem (gw_store (snd (gapura_serve cy gapura_memory_store sv jv req s))) k = gm_idem (gw_store s) k"
    "gm_byId (gw_store s) i \<noteq> None \<Longrightarrow> gm_byId (gw_store (snd (gapura_serve cy gapura_memory_store sv jv req s))) i \<noteq> None"
proof -
  have "keeps_key k (post_bindings gapura_memory_store req d)" for d
    unfolding post_bindings_def Let_def by (auto intro!: keeps_key_intros)
  then have "keeps_key k (gapura_dispatch cy gapura_memory_store sv req tenant)" for tenant
    unfolding gapura_dispatch_def Let_def
    by (auto intro!: keeps_key_post[OF assms] keeps_key_intros split: gapura_route.split)
  then have "keeps_key k (gapura_handle cy gapura_memory_store sv jv req)"
    unfolding gapura_handle_def by (auto intro!: keeps_key_intros split: option.split sum.split)
  moreover have "snd (gapura_serve cy gapura_memory_store sv jv req s) = snd (gapura_handle cy gapura_memory_store sv jv req s)"
    by (simp add: gapura_serve_def split: prod.splits sum.splits)
  ultimately show "gm_idem (gw_store (snd (gapura_serve cy gapura_memory_store sv jv req s))) k = gm_idem (gw_store s) k"
    "gm_byId (gw_store s) i \<noteq> None \<Longrightarrow> gm_byId (gw_store (snd (gapura_serve cy gapura_memory_store sv jv req s))) i \<noteq> None"
    by (simp_all add: keeps_key_def)
qed

definition other_request ::
  "string \<Rightarrow> Crypto \<Rightarrow> GapuraService \<Rightarrow> gapura_jwt_verify \<Rightarrow> GapuraMemory Gateway \<Rightarrow> GapuraMemory Gateway \<Rightarrow> bool" where
  "other_request k cy sv jv s s' \<longleftrightarrow> (\<exists>req. gq_idempotencyKey req \<noteq> Some k \<and> s' = snd (gapura_serve cy gapura_memory_store sv jv req s))"

lemma other_requests_keep:
  assumes "(other_request k cy sv jv)\<^sup>*\<^sup>* s t" "gapura_inv cy sv gm_ok gm_known s"
  shows "gapura_inv cy sv gm_ok gm_known t \<and> gm_idem (gw_store t) k = gm_idem (gw_store s) k
    \<and> (gm_byId (gw_store s) i \<noteq> None \<longrightarrow> gm_byId (gw_store t) i \<noteq> None)"
  using assms
proof (induction rule: rtranclp_induct)
  case (step t u)
  then obtain req where req: "gq_idempotencyKey req \<noteq> Some k" "u = snd (gapura_serve cy gapura_memory_store sv jv req t)"
    by (auto simp: other_request_def)
  with step keeps_key_serve[OF req(1), where cy = cy and sv = sv and jv = jv and s = t] gm.serve_keeps[of cy sv t jv req] show ?case by auto
qed simp

lemma wp_post_keeps:
  assumes "gapura_inv cy sv gm_ok gm_known s" "gapura_post_anchors cy gapura_memory_store sv req tenant s = (r, s1)"
  shows "gapura_inv cy sv gm_ok gm_known s1"
  using wpD[OF keepsD[OF gm.keeps_post_anchors assms(1)] assms(2)] by simp

text \<open>C21: An idempotency key is good for one body.  After a request with a key was answered with an anchor, whatever requests with
  other keys or none are served in between, the next request with that key inside 24 hours submits nothing and stores
  nothing.  If its body is well formed, it is answered 200 with the anchor of the same identifier when the body hashes the same
  and 409 when it does not; a malformed body is refused as malformed.\<close>

theorem idempotency_key_replays:
  assumes "gapura_fresh s0" "(gapura_step cy gapura_memory_store sv jv)\<^sup>*\<^sup>* s0 s"
    and "gq_idempotencyKey req = Some k" "k \<noteq> []" "check_anchor (gq_body req) = None"
    and "gapura_post_anchors cy gapura_memory_store sv req tenant s = (Inr (G_Sent n (GP_anchor a)), s1)"
    and "(other_request k cy sv jv)\<^sup>*\<^sup>* s1 t" "gq_idempotencyKey req' = Some k"
    and "\<And>e. gm_idem (gw_store s1) k = Some e \<Longrightarrow> shd (gw_clock t) - ie_storedAt e \<le> 24 * 60 * 60 * 1000"
  shows "\<exists>a' s2. ga_anchorId a' = ga_anchorId a \<and> gw_store s2 = gw_store t \<and> gw_sent s2 = gw_sent t
    \<and> gapura_post_anchors cy gapura_memory_store sv req' tenant' t =
      (Inr (case check_anchor (gq_body req') of
          Some (code, detail) \<Rightarrow> gapura_sendProblem req' code detail
        | None \<Rightarrow> if bodyHash cy (gq_body req') = bodyHash cy (gq_body req) then G_Sent 200 (GP_anchor a')
            else gapura_sendProblem req' G_idempotency_conflict ''same Idempotency-Key, different body''), s2)"
proof -
  have inv: "gapura_inv cy sv gm_ok gm_known s" by (rule gapura_reach[OF assms(2,1)])
  have "remembers cy req k a (gw_store s1)" using wpD[OF wp_post_key[OF inv assms(3-5)] assms(6)] by blast
  then obtain e where e: "gm_idem (gw_store s1) k = Some e" "ie_bodyHash e = bodyHash cy (gq_body req)"
    "ie_anchorId e = ga_anchorId a" "gm_byId (gw_store s1) (ga_anchorId a) \<noteq> None"
    by (auto simp: remembers_def)
  from other_requests_keep[OF assms(7) wp_post_keeps[OF inv assms(6)], of "ga_anchorId a"] e(1,4)
  obtain x where x: "gm_idem (gw_store t) k = Some e" "gm_byId (gw_store t) (ga_anchorId a) = Some x" "gr_anchorId x = ga_anchorId a"
    by (auto simp: gapura_inv_def gm_ok_def)
  have "gm_getIdempotency (shd (gw_clock t)) (gw_store t) k = Inr (Some e, gw_store t)"
    using assms(9)[OF e(1)] x(1) by (simp add: gm_getIdempotency_def IDEMPOTENCY_TTL_MS_def)
  with e x assms(4,8) show ?thesis
    by (cases "check_anchor (gq_body req')")
      (auto simp: gapura_post_anchors_def bindS_apply g_now_def g_write_def gapura_memory_sel getAnchor_memory toDto_def
        intro!: exI[of _ "toDto sv x"])
qed

lemma toy_post_runs:
  "\<exists>a s. gapura_post_anchors toy_crypto gapura_memory_store toy_gapura toy_post ''t'' toy_gateway = (Inr (G_Sent 201 (GP_anchor a)), s)
     \<and> gw_clock s = sconst 1700000000000 \<and> (\<forall>e. gm_idem (gw_store s) ''k'' = Some e \<longrightarrow> ie_storedAt e = 1700000000000)"
proof -
  have g: "toy_gateway\<lparr>gw_clock := sconst 1700000000000, gw_store := gw_store toy_gateway\<rparr> = toy_gateway"
    by (simp add: toy_gateway_def)
  obtain a s where "createAnchor toy_crypto gapura_memory_store toy_gapura toy_create toy_gateway = (Inr (a, False), s)"
    "gw_clock s = sconst 1700000000000" using toy_create_runs by blast
  then show ?thesis
    using toy_post_body g
    by (simp add: gapura_post_anchors_def create_and_reply_def bindS_apply g_now_def g_write_def g_put_def gapura_memory_sel
        gm_getIdempotency_def gm_putIdempotency_def toy_post_def toy_gateway_def emptyGapuraMemory_def)
qed

lemma other_keyless: "gapura_serve cy gapura_memory_store sv jv (toy_post\<lparr>gq_idempotencyKey := None\<rparr>) s = (r, t)
    \<Longrightarrow> (other_request ''k'' cy sv jv)\<^sup>*\<^sup>* s t"
  by (rule r_into_rtranclp) (auto simp: other_request_def intro!: exI[of _ "toy_post\<lparr>gq_idempotencyKey := None\<rparr>"])

text \<open>A request without a token is served in between.\<close>

theorem idempotency_key_replays_witness:
  "\<exists>a s t a'. gapura_post_anchors toy_crypto gapura_memory_store toy_gapura toy_post ''t'' toy_gateway = (Inr (G_Sent 201 (GP_anchor a)), s)
    \<and> snd (gapura_serve toy_crypto gapura_memory_store toy_gapura (\<lambda>_ _ _. Inr []) (toy_post\<lparr>gq_idempotencyKey := None\<rparr>) s) = t
    \<and> fst (gapura_post_anchors toy_crypto gapura_memory_store toy_gapura toy_post ''t'' t) = Inr (G_Sent 200 (GP_anchor a'))
    \<and> ga_anchorId a' = ga_anchorId a"
proof -
  have fresh: "gapura_fresh toy_gateway" and key: "gq_idempotencyKey toy_post = Some ''k''"
    by (simp_all add: gapura_fresh_def toy_gateway_def toy_post_def)
  obtain a s where r: "gapura_post_anchors toy_crypto gapura_memory_store toy_gapura toy_post ''t'' toy_gateway = (Inr (G_Sent 201 (GP_anchor a)), s)"
    "gw_clock s = sconst 1700000000000" "\<forall>e. gm_idem (gw_store s) ''k'' = Some e \<longrightarrow> ie_storedAt e = 1700000000000"
    using toy_post_runs by blast
  have t: "gapura_serve toy_crypto gapura_memory_store toy_gapura (\<lambda>_ _ _. Inr []) (toy_post\<lparr>gq_idempotencyKey := None\<rparr>) s
      = (gapura_sendProblem (toy_post\<lparr>gq_idempotencyKey := None\<rparr>) G_unauthenticated ''missing Bearer token'', s)"
    by (simp add: gapura_serve_def gapura_handle_def requireScope_def gapura_route_of_def GAPURA_AUTH_ENABLED_def toy_gapura_def
        toy_gapura_config_def toy_post_def)
  from idempotency_key_replays[OF fresh rtranclp.rtrancl_refl key _ toy_post_body(1) r(1) other_keyless[OF t] key, of "''t''"] r t toy_post_body(1)
  show ?thesis by fastforce
qed

end
