(* ===== verification/TxPipeline.thy ===== *)
theory TxPipeline
  imports VaultKeys
begin

text \<open>
  The transaction pipeline: the signer (\<open>services/signer/src\<close>) and the broadcaster
  (\<open>services/broadcaster/src\<close>) over the tables of migration 001 and the outbound Redis stream.  The state holds
  the tables, the stream, the timers of the broadcaster and the key cache of the signer; every statement,
  Redis command and call to the chain takes its answer from a stream and may fail.  Signing a
  transaction and hashing it (the package viem) are the parameter \<open>sc\<close>; the key comes from Vault (theory VaultKeys).  Statements run one after
  another; the row lock of \<open>reserveNonce\<close> makes that the only possibility for nonces, and the chain's answer is
  arbitrary, so one read earlier than the lock is covered.
\<close>

subsection \<open>Data\<close>

datatype TxStatus = DRAFT | QUEUED | SIGNED | BROADCASTED | CONFIRMED | REVERTED | FAILED | RETRYING

record TxRow =
  tx_id :: string
  tx_from :: string
  tx_dest :: "string option"
  tx_data :: string
  tx_value :: int
  tx_gasLimit :: int
  tx_nonce :: "int option"
  tx_rawTx :: "string option"
  tx_hash :: "string option"
  tx_status :: TxStatus
  tx_receiptStatus :: "int option"
  tx_blockNumber :: "int option"
  tx_gasUsed :: "int option"
  tx_error :: "string option"
  tx_retryCount :: nat
  tx_submittedBy :: string
  tx_createdAt :: int

record TxAttempt =
  ta_txId :: string
  ta_number :: nat
  ta_hash :: "string option"
  ta_error :: "string option"

record ChainReceipt =
  cr_success :: bool
  cr_blockNumber :: int
  cr_gasUsed :: int

record LegacyTx =
  lt_chainId :: "int option"
  lt_nonce :: int
  lt_dest :: "string option"
  lt_data :: string
  lt_value :: int
  lt_gasPrice :: int
  lt_gas :: int

record SignCrypto =
  sc_sign :: "string \<Rightarrow> LegacyTx \<Rightarrow> string js"
  sc_hash :: "string \<Rightarrow> string"

text \<open>The nonce ledger keeps for each wallet the highest nonce reserved and the highest confirmed.\<close>

record Pipeline =
  tp_wallets :: "string \<rightharpoonup> string"
  tp_nonces :: "string \<rightharpoonup> int \<times> int"
  tp_transactions :: "TxRow list"
  tp_attempts :: "TxAttempt list"
  tp_stream :: "string list list"
  tp_pending :: "string list list"
  tp_timers :: "string list"
  tp_keyCache :: "string \<rightharpoonup> SignerKey"
  tp_sent :: "string list"
  tp_clock :: "int stream"
  tp_uuid :: "string stream"
  tp_sql :: "string option stream"
  tp_redis :: "string option stream"
  tp_chainNonce :: "(string + int) stream"
  tp_vault :: "(js_exn + SignerKey) stream"
  tp_send :: "(string + string) stream"
  tp_receipt :: "(string + ChainReceipt) stream"

type_synonym 'a tp = "(Pipeline, js_exn, 'a) xop"

subsection \<open>Statements and calls\<close>

text \<open>A statement: reads and writes, or fails without effect.\<close>

definition query :: "(Pipeline \<Rightarrow> 'a) \<Rightarrow> (Pipeline \<Rightarrow> Pipeline) \<Rightarrow> 'a tp" where
  "query f g s = (let s1 = s\<lparr>tp_sql := stl (tp_sql s)\<rparr> in
     case shd (tp_sql s) of None \<Rightarrow> (Inr (f s1), g s1) | Some msg \<Rightarrow> (Inl (PlainError msg), s1))"

definition select :: "(Pipeline \<Rightarrow> 'a) \<Rightarrow> 'a tp" where "select f = query f (\<lambda>s. s)"

definition update :: "(Pipeline \<Rightarrow> Pipeline) \<Rightarrow> unit tp" where "update g = query (\<lambda>s. ()) g"

definition tp_now :: "int tp" where
  "tp_now s = (Inr (shd (tp_clock s)), s\<lparr>tp_clock := stl (tp_clock s)\<rparr>)"

definition randomUUID :: "string tp" where
  "randomUUID s = (Inr (shd (tp_uuid s)), s\<lparr>tp_uuid := stl (tp_uuid s)\<rparr>)"

definition answer :: "string + 'a \<Rightarrow> 'a js" where
  "answer r = (case r of Inl msg \<Rightarrow> Inl (PlainError msg) | Inr x \<Rightarrow> Inr x)"

definition getTransactionCount :: "int tp" where
  "getTransactionCount s = (answer (shd (tp_chainNonce s)), s\<lparr>tp_chainNonce := stl (tp_chainNonce s)\<rparr>)"

definition sendRawTransaction :: "string \<Rightarrow> string tp" where
  "sendRawTransaction raw s = (answer (shd (tp_send s)), s\<lparr>tp_send := stl (tp_send s), tp_sent := tp_sent s @ [raw]\<rparr>)"

definition getTransactionReceipt :: "ChainReceipt tp" where
  "getTransactionReceipt s = (answer (shd (tp_receipt s)), s\<lparr>tp_receipt := stl (tp_receipt s)\<rparr>)"

definition xadd :: "string list \<Rightarrow> unit tp" where
  "xadd fs s = (let s1 = s\<lparr>tp_redis := stl (tp_redis s)\<rparr> in
     case shd (tp_redis s) of None \<Rightarrow> (Inr (), s1\<lparr>tp_stream := tp_stream s1 @ [fs]\<rparr>)
     | Some msg \<Rightarrow> (Inl (PlainError msg), s1))"

text \<open>\<open>try\<close> and \<open>catch\<close>.\<close>

definition tryS :: "('s, 'e, 'a) xop \<Rightarrow> ('e \<Rightarrow> ('s, 'e, 'a) xop) \<Rightarrow> ('s, 'e, 'a) xop" where
  "tryS m h s = (case m s of (Inl e, s') \<Rightarrow> h e s' | (Inr x, s') \<Rightarrow> (Inr x, s'))"

lemma wp_tryS [wp_simps]:
  "wp (tryS m h) P s = wp m (\<lambda>r s'. case r of Inl e \<Rightarrow> wp (h e) P s' | Inr x \<Rightarrow> P (Inr x) s') s"
  by (auto simp: wp_def tryS_def split: prod.splits sum.splits)

definition exn_message :: "js_exn \<Rightarrow> string" where
  "exn_message e = (case e of PlainError msg \<Rightarrow> msg | RangeError \<Rightarrow> ''RangeError'' | TypeError \<Rightarrow> ''TypeError'' | Diverges \<Rightarrow> [])"

definition with_tx :: "string \<Rightarrow> (TxRow \<Rightarrow> TxRow) \<Rightarrow> Pipeline \<Rightarrow> Pipeline" where
  "with_tx i f s = s\<lparr>tp_transactions := map (\<lambda>r. if tx_id r = i then f r else r) (tp_transactions s)\<rparr>"

definition find_tx :: "string \<Rightarrow> Pipeline \<Rightarrow> TxRow option" where
  "find_tx i s = find (\<lambda>r. tx_id r = i) (tp_transactions s)"

subsection \<open>Signer\<close>

record SignerConfig =
  sc_chainId :: "int option"
  sc_defaultGasLimit :: int
  sc_defaultGasPrice :: int

definition bigint_env :: "env \<Rightarrow> string \<Rightarrow> int \<Rightarrow> int js" where
  "bigint_env env name dflt = (case env name of None \<Rightarrow> Inr dflt
     | Some v \<Rightarrow> (case BigInt v of None \<Rightarrow> Inl (PlainError ''Cannot convert to a BigInt'') | Some n \<Rightarrow> Inr n))"

definition loadSignerConfig :: "env \<Rightarrow> SignerConfig js" where
  "loadSignerConfig env =
     bindE (bigint_env env ''DEFAULT_GAS_LIMIT'' 8000000) (\<lambda>gasLimit.
     bindE (bigint_env env ''DEFAULT_GAS_PRICE'' 0) (\<lambda>gasPrice.
     Inr \<lparr>sc_chainId = (case env ''HARA_CHAIN_ID'' of None \<Rightarrow> Some 131216 | Some v \<Rightarrow> js_Number v),
       sc_defaultGasLimit = gasLimit, sc_defaultGasPrice = gasPrice\<rparr>))"

text \<open>\<open>reserveNonce\<close>.  A failure inside the transaction rolls it back; the write shows at the commit.\<close>

definition rollback :: "js_exn \<Rightarrow> 'a tp" where
  "rollback e = bindS (update (\<lambda>s. s)) (\<lambda>_. throw e)"

definition set_reserved :: "string \<Rightarrow> int \<Rightarrow> Pipeline \<Rightarrow> Pipeline" where
  "set_reserved addr n s = s\<lparr>tp_nonces := (tp_nonces s)(addr := map_option (\<lambda>(r, c). (n, c)) (tp_nonces s addr))\<rparr>"

definition reserveNonce :: "string \<Rightarrow> int tp" where
  "reserveNonce address = (let addr = to_lower address in
     bindS getTransactionCount (\<lambda>chainNonce.
     tryS (bindS (update (\<lambda>s. s)) (\<lambda>_.
           bindS (select (\<lambda>s. tp_nonces s addr)) (\<lambda>row.
           case row of None \<Rightarrow> throw (PlainError (''No wallet_nonces row for '' @ addr))
           | Some (lastReserved, c) \<Rightarrow>
             (let next = (if lastReserved + 1 > chainNonce then lastReserved + 1 else chainNonce) in
              bindS (update (\<lambda>s. s)) (\<lambda>_.
              bindS (update (set_reserved addr next)) (\<lambda>_. ret next))))))
       rollback))"

definition getSignerKey :: "string \<Rightarrow> SignerKey tp" where
  "getSignerKey vaultPath s = (case tp_keyCache s vaultPath of
     Some key \<Rightarrow> (Inr key, s)
   | None \<Rightarrow> (let s1 = s\<lparr>tp_vault := stl (tp_vault s)\<rparr> in case shd (tp_vault s) of
       Inl e \<Rightarrow> (Inl e, s1)
     | Inr key \<Rightarrow> (Inr key, s1\<lparr>tp_keyCache := (tp_keyCache s1)(vaultPath \<mapsto> key)\<rparr>)))"

record UnsignedTx =
  ut_from :: string
  ut_dest :: "string option"
  ut_data :: string
  ut_value :: int
  ut_gasLimit :: int
  ut_nonce :: int

record SignedTx =
  st_rawTx :: string
  st_txHash :: string

definition liftX :: "'a js \<Rightarrow> 'a tp" where "liftX m = (\<lambda>s. (m, s))"

definition signTx :: "SignCrypto \<Rightarrow> SignerConfig \<Rightarrow> string \<Rightarrow> UnsignedTx \<Rightarrow> SignedTx tp" where
  "signTx sc cfg vaultPath tx =
     bindS (getSignerKey vaultPath) (\<lambda>key.
     if to_lower (sk_address key) \<noteq> to_lower (ut_from tx)
     then throw (PlainError (''Vault key address '' @ sk_address key @ '' does not match requested from '' @ ut_from tx))
     else
       bindS (liftX (sc_sign sc (sk_privateKey key) \<lparr>lt_chainId = sc_chainId cfg, lt_nonce = ut_nonce tx,
           lt_dest = ut_dest tx, lt_data = ut_data tx, lt_value = ut_value tx,
           lt_gasPrice = sc_defaultGasPrice cfg, lt_gas = ut_gasLimit tx\<rparr>)) (\<lambda>raw.
       ret \<lparr>st_rawTx = raw, st_txHash = sc_hash sc raw\<rparr>))"

text \<open>\<open>BigInt\<close> of a JSON value.\<close>

definition json_BigInt :: "json \<Rightarrow> int js" where
  "json_BigInt v = (case v of JNum n \<Rightarrow> Inr n | JFrac x \<Rightarrow> Inl RangeError | JBool b \<Rightarrow> Inr (if b then 1 else 0)
     | JNull \<Rightarrow> Inl TypeError
     | _ \<Rightarrow> (case BigInt (js_String v) of None \<Rightarrow> Inl (PlainError ''Cannot convert to a BigInt'') | Some n \<Rightarrow> Inr n))"

definition or_json :: "json option \<Rightarrow> json \<Rightarrow> json" where
  "or_json v d = (case v of None \<Rightarrow> d | Some j \<Rightarrow> if j = JNull then d else j)"

datatype SignerReply = S_error nat string "string option" | S_row TxRow | S_queued string

definition get_tx :: "string \<Rightarrow> SignerReply tp" where
  "get_tx i = bindS (select (find_tx i)) (\<lambda>row. case row of
     None \<Rightarrow> ret (S_error 404 ''tx not found'' None) | Some r \<Rightarrow> ret (S_row r))"

text \<open>The primary key rejects an identifier that is taken.\<close>

definition insert_tx :: "TxRow \<Rightarrow> unit tp" where
  "insert_tx row = bindS (select (find_tx (tx_id row))) (\<lambda>old.
     if old \<noteq> None then throw (PlainError ''duplicate key value'')
     else (\<lambda>s. (Inr (), s\<lparr>tp_transactions := tp_transactions s @ [row]\<rparr>)))"

record SubmitBody =
  sb_from :: string
  sb_dest :: "string option"
  sb_data :: string
  sb_value :: int
  sb_gasLimit :: int

definition read_body :: "SignerConfig \<Rightarrow> json option \<Rightarrow> SubmitBody js" where
  "read_body cfg body =
     bindE (case body_prop body ''to'' of None \<Rightarrow> Inr None
       | Some v \<Rightarrow> if \<not> truthy v then Inr None else (case as_str (Some v) of None \<Rightarrow> Inl TypeError | Some t \<Rightarrow> Inr (Some (to_lower t)))) (\<lambda>dest.
     bindE (json_BigInt (or_json (body_prop body ''value'') (JStr ''0''))) (\<lambda>value.
     bindE (case body_prop body ''gasLimit'' of None \<Rightarrow> Inr (sc_defaultGasLimit cfg)
       | Some v \<Rightarrow> if v = JNull then Inr (sc_defaultGasLimit cfg) else json_BigInt v) (\<lambda>gasLimit.
     Inr \<lparr>sb_from = to_lower (the (as_str (body_prop body ''from''))), sb_dest = dest,
       sb_data = js_String (or_json (body_prop body ''data'') (JStr ''0x'')), sb_value = value, sb_gasLimit = gasLimit\<rparr>)))"

definition draft_row :: "SubmitBody \<Rightarrow> string \<Rightarrow> string option \<Rightarrow> int \<Rightarrow> TxRow" where
  "draft_row b i client time =
     \<lparr>tx_id = i, tx_from = sb_from b, tx_dest = sb_dest b, tx_data = sb_data b, tx_value = sb_value b,
      tx_gasLimit = sb_gasLimit b, tx_nonce = None, tx_rawTx = None, tx_hash = None, tx_status = DRAFT,
      tx_receiptStatus = None, tx_blockNumber = None, tx_gasUsed = None, tx_error = None, tx_retryCount = 0,
      tx_submittedBy = default_to ''anonymous'' client, tx_createdAt = time\<rparr>"

text \<open>Reserve and sign; the nonce and the signed transaction, or the failure that is recorded and answered 500.\<close>

definition reserve_and_sign ::
  "SignCrypto \<Rightarrow> SignerConfig \<Rightarrow> string \<Rightarrow> SubmitBody \<Rightarrow> (int \<times> SignedTx) tp" where
  "reserve_and_sign sc cfg vaultPath b =
     bindS (reserveNonce (sb_from b)) (\<lambda>nonce.
     bindS (signTx sc cfg vaultPath \<lparr>ut_from = sb_from b, ut_dest = sb_dest b, ut_data = sb_data b, ut_value = sb_value b,
       ut_gasLimit = sb_gasLimit b, ut_nonce = nonce\<rparr>) (\<lambda>stx. ret (nonce, stx)))"

definition queue_tx :: "string \<Rightarrow> int \<Rightarrow> SignedTx \<Rightarrow> SignerReply tp" where
  "queue_tx i nonce stx =
     bindS (update (with_tx i (\<lambda>r. r\<lparr>tx_nonce := Some nonce, tx_rawTx := Some (st_rawTx stx),
       tx_hash := Some (st_txHash stx), tx_status := QUEUED\<rparr>))) (\<lambda>_.
     bindS (xadd [''txId'', i]) (\<lambda>_.
     ret (S_queued i)))"

definition sign_and_queue :: "SignCrypto \<Rightarrow> SignerConfig \<Rightarrow> string \<Rightarrow> string \<Rightarrow> SubmitBody \<Rightarrow> SignerReply tp" where
  "sign_and_queue sc cfg vaultPath i b =
     (\<lambda>s. case reserve_and_sign sc cfg vaultPath b s of
        (Inr (nonce, stx), s1) \<Rightarrow> queue_tx i nonce stx s1
      | (Inl e, s1) \<Rightarrow>
          bindS (update (with_tx i (\<lambda>r. r\<lparr>tx_status := FAILED, tx_error := Some (exn_message e)\<rparr>))) (\<lambda>_.
          ret (S_error 500 ''sign failed'' (Some (exn_message e)))) s1)"

definition post_tx :: "SignCrypto \<Rightarrow> SignerConfig \<Rightarrow> json option \<Rightarrow> string option \<Rightarrow> SignerReply tp" where
  "post_tx sc cfg body client =
     (if \<not> truthy_opt (body_prop body ''from'') \<or> as_str (body_prop body ''from'') = None
      then ret (S_error 400 ''from is required'' None)
      else bindS (liftX (read_body cfg body)) (\<lambda>b.
        bindS (select (\<lambda>s. tp_wallets s (sb_from b))) (\<lambda>wallet.
        case wallet of None \<Rightarrow> ret (S_error 400 (''unknown wallet '' @ sb_from b) None)
        | Some vaultPath \<Rightarrow>
            bindS randomUUID (\<lambda>i.
            bindS tp_now (\<lambda>time.
            bindS (insert_tx (draft_row b i client time)) (\<lambda>_.
            sign_and_queue sc cfg vaultPath i b))))))"

subsection \<open>Broadcaster\<close>

text \<open>A number of the configuration is \<open>None\<close> when it is NaN; comparisons with it are false.\<close>

record BroadcasterConfig =
  bc_maxRetries :: "int option"
  bc_receiptTimeoutMs :: "int option"

definition loadBroadcasterConfig :: "env \<Rightarrow> BroadcasterConfig" where
  "loadBroadcasterConfig env =
     \<lparr>bc_maxRetries = (case env ''BROADCAST_MAX_RETRIES'' of None \<Rightarrow> Some 3 | Some v \<Rightarrow> js_Number v),
      bc_receiptTimeoutMs = (case env ''RECEIPT_TIMEOUT_MS'' of None \<Rightarrow> Some 60000 | Some v \<Rightarrow> js_Number v)\<rparr>"

definition markFailed :: "string \<Rightarrow> string \<Rightarrow> unit tp" where
  "markFailed i msg = update (with_tx i (\<lambda>r. r\<lparr>tx_status := FAILED, tx_error := Some msg\<rparr>))"

definition add_attempt :: "TxAttempt \<Rightarrow> unit tp" where
  "add_attempt a = update (\<lambda>s. s\<lparr>tp_attempts := tp_attempts s @ [a]\<rparr>)"

text \<open>What a receipt does to the row and to the nonce ledger.\<close>

definition settle :: "string \<Rightarrow> string \<Rightarrow> int option \<Rightarrow> ChainReceipt \<Rightarrow> unit tp" where
  "settle i sender nonce receipt =
     bindS (update (with_tx i (\<lambda>r. r\<lparr>tx_status := (if cr_success receipt then CONFIRMED else REVERTED),
       tx_receiptStatus := Some (if cr_success receipt then 1 else 0), tx_blockNumber := Some (cr_blockNumber receipt),
       tx_gasUsed := Some (cr_gasUsed receipt)\<rparr>))) (\<lambda>_.
     update (\<lambda>s. s\<lparr>tp_nonces := (tp_nonces s)(sender := map_option (\<lambda>(r, c). (r, case nonce of None \<Rightarrow> c | Some n \<Rightarrow> max c n))
       (tp_nonces s sender))\<rparr>))"

text \<open>The loop that waits for the receipt; any failure inside waits and tries again.  The result says whether the receipt
  was settled before the deadline.\<close>

definition before_deadline :: "int option \<Rightarrow> int \<Rightarrow> bool" where
  "before_deadline deadline time = (case deadline of None \<Rightarrow> False | Some d \<Rightarrow> time < d)"

partial_function (option) poll_loop :: "string \<Rightarrow> string \<Rightarrow> int option \<Rightarrow> int option \<Rightarrow> Pipeline \<Rightarrow> (bool \<times> Pipeline) option" where
  "poll_loop i sender nonce deadline s =
     (let s1 = s\<lparr>tp_clock := stl (tp_clock s)\<rparr> in
      if before_deadline deadline (shd (tp_clock s))
      then (case bindS getTransactionReceipt (settle i sender nonce) s1 of
          (Inr _, s2) \<Rightarrow> Some (True, s2)
        | (Inl _, s2) \<Rightarrow> poll_loop i sender nonce deadline s2)
      else Some (False, s1))"

definition poll_receipt :: "string \<Rightarrow> string \<Rightarrow> int option \<Rightarrow> int option \<Rightarrow> bool tp" where
  "poll_receipt i sender nonce deadline s =
     (case poll_loop i sender nonce deadline s of None \<Rightarrow> (Inl Diverges, s) | Some (b, s') \<Rightarrow> (Inr b, s'))"

text \<open>Submit once and note the attempt; the hash the node answered.\<close>

definition broadcast :: "string \<Rightarrow> string \<Rightarrow> string option \<Rightarrow> nat \<Rightarrow> string tp" where
  "broadcast i raw expected attempt =
     bindS (sendRawTransaction raw) (\<lambda>submitted.
     case expected of None \<Rightarrow> throw TypeError | Some h \<Rightarrow>
     let h' = (if to_lower submitted \<noteq> to_lower h then submitted else h) in
     bindS (update (with_tx i (\<lambda>r. r\<lparr>tx_status := BROADCASTED, tx_hash := Some h'\<rparr>))) (\<lambda>_.
     bindS (add_attempt \<lparr>ta_txId = i, ta_number = attempt, ta_hash = Some h', ta_error = None\<rparr>) (\<lambda>_.
     ret h')))"

definition broadcast_failed :: "BroadcasterConfig \<Rightarrow> string \<Rightarrow> nat \<Rightarrow> js_exn \<Rightarrow> unit tp" where
  "broadcast_failed cfg i retryCount e =
     bindS (add_attempt \<lparr>ta_txId = i, ta_number = retryCount + 1, ta_hash = None, ta_error = Some (exn_message e)\<rparr>) (\<lambda>_.
     if (case bc_maxRetries cfg of None \<Rightarrow> False | Some m \<Rightarrow> int retryCount + 1 \<ge> m) then markFailed i (exn_message e)
     else
       bindS (update (with_tx i (\<lambda>r. r\<lparr>tx_status := RETRYING, tx_retryCount := tx_retryCount r + 1,
         tx_error := Some (exn_message e)\<rparr>))) (\<lambda>_.
       (\<lambda>s. (Inr (), s\<lparr>tp_timers := tp_timers s @ [i]\<rparr>))))"

definition processTx :: "BroadcasterConfig \<Rightarrow> string \<Rightarrow> unit tp" where
  "processTx cfg i =
     bindS (select (find_tx i)) (\<lambda>row. case row of None \<Rightarrow> ret ()
     | Some r \<Rightarrow> (case tx_rawTx r of
         None \<Rightarrow> markFailed i ''raw_tx is null''
       | Some raw \<Rightarrow> if raw = [] then markFailed i ''raw_tx is null'' else
          (\<lambda>s. case broadcast i raw (tx_hash r) (tx_retryCount r + 1) s of
             (Inl e, s1) \<Rightarrow> broadcast_failed cfg i (tx_retryCount r) e s1
           | (Inr h, s1) \<Rightarrow>
               bindS tp_now (\<lambda>time.
               bindS (poll_receipt i (tx_from r) (tx_nonce r) (map_option ((+) time) (bc_receiptTimeoutMs cfg))) (\<lambda>settled.
               if settled then ret ()
               else markFailed i (''receipt not seen within '' @ (case bc_receiptTimeoutMs cfg of None \<Rightarrow> ''NaN'' | Some t \<Rightarrow> js_int t) @ ''ms''))) s1)))"

text \<open>Messages of the stream are lists of fields and values.\<close>

fun index_of :: "string \<Rightarrow> string list \<Rightarrow> nat option" where
  "index_of k [] = None"
| "index_of k (x # xs) = (if x = k then Some 0 else map_option Suc (index_of k xs))"

definition xack :: "string list \<Rightarrow> unit tp" where
  "xack m s = (let s1 = s\<lparr>tp_redis := stl (tp_redis s)\<rparr> in
     case shd (tp_redis s) of None \<Rightarrow> (Inr (), s1\<lparr>tp_pending := remove1 m (tp_pending s1)\<rparr>)
     | Some msg \<Rightarrow> (Inl (PlainError msg), s1))"

definition handle_message :: "BroadcasterConfig \<Rightarrow> string list \<Rightarrow> unit tp" where
  "handle_message cfg m = (case index_of ''txId'' m of
     None \<Rightarrow> xack m
   | Some k \<Rightarrow> bindS (tryS (processTx cfg (if k + 1 < length m then m ! (k + 1) else [])) (\<lambda>e. ret ())) (\<lambda>_. xack m))"

text \<open>One turn of the consumer: up to ten new messages are delivered and handled; a failure ends the turn.\<close>

definition xreadgroup :: "string list list tp" where
  "xreadgroup s = (let s1 = s\<lparr>tp_redis := stl (tp_redis s)\<rparr> in
     case shd (tp_redis s) of None \<Rightarrow> (Inr (take 10 (tp_stream s)),
         s1\<lparr>tp_stream := drop 10 (tp_stream s), tp_pending := tp_pending s @ take 10 (tp_stream s)\<rparr>)
     | Some msg \<Rightarrow> (Inl (PlainError msg), s1))"

definition consume_once :: "BroadcasterConfig \<Rightarrow> unit tp" where
  "consume_once cfg = bindS xreadgroup (\<lambda>ms. bindS (mapS (handle_message cfg) ms) (\<lambda>_. ret ()))"

text \<open>A timer puts its transaction back into the stream; a failure is only logged.\<close>

definition fire_timer :: "nat \<Rightarrow> unit tp" where
  "fire_timer k s = (if k < length (tp_timers s)
     then tryS (xadd [''txId'', tp_timers s ! k]) (\<lambda>e. ret ()) (s\<lparr>tp_timers := take k (tp_timers s) @ drop (Suc k) (tp_timers s)\<rparr>)
     else (Inr (), s))"

definition recover_one :: "TxRow \<Rightarrow> unit tp" where
  "recover_one r = tryS (bindS getTransactionReceipt (settle (tx_id r) (tx_from r) (tx_nonce r))) (\<lambda>e. ret ())"

definition recoverOrphanedTxs :: "unit tp" where
  "recoverOrphanedTxs = bindS tp_now (\<lambda>time.
     bindS (select (\<lambda>s. filter (\<lambda>r. tx_status r = BROADCASTED \<and> tx_hash r \<noteq> None \<and> tx_createdAt r > time - 3600000) (tp_transactions s))) (\<lambda>rows.
     bindS (mapS recover_one rows) (\<lambda>_. ret ())))"

text \<open>A restart of both processes forgets timers and keys; delivered messages that were not acknowledged stay pending, and no
  code reads them again.\<close>

definition restart :: "Pipeline \<Rightarrow> Pipeline" where
  "restart s = s\<lparr>tp_timers := [], tp_keyCache := Map.empty\<rparr>"

end
