(* ===== verification/TxClaims.thy ===== *)
theory TxClaims
  imports TxPipeline
begin

text \<open>
  What the transaction pipeline guarantees.  The nonce ledger is refined to an abstract allocator: the rows with
  their nonces and the highest nonce reserved per wallet.  Every step of signer and broadcaster is one
  step of the allocator, which never hands out a nonce twice.
\<close>

subsection \<open>The abstract allocator\<close>

type_synonym ledger = "(string \<times> string \<times> int option) list \<times> (string \<rightharpoonup> int)"

definition ledger_ids :: "ledger \<Rightarrow> string set" where
  "ledger_ids v = fst ` set (fst v)"

inductive ledger_step :: "ledger \<Rightarrow> ledger \<Rightarrow> bool" where
  skip: "ledger_step v v"
| draft: "i \<notin> fst ` set rows \<Longrightarrow> ledger_step (rows, res) (rows @ [(i, a, None)], res)"
| burn: "i \<notin> fst ` set rows \<Longrightarrow> res a = Some l \<Longrightarrow> l < n \<Longrightarrow>
    ledger_step (rows, res) (rows @ [(i, a, None)], res(a \<mapsto> n))"
| assign: "i \<notin> fst ` set rows \<Longrightarrow> res a = Some l \<Longrightarrow> l < n \<Longrightarrow>
    ledger_step (rows, res) (rows @ [(i, a, Some n)], res(a \<mapsto> n))"

definition allocated_once :: "ledger \<Rightarrow> bool" where
  "allocated_once v \<longleftrightarrow> distinct (map fst (fst v))
     \<and> (\<forall>i a n. (i, a, Some n) \<in> set (fst v) \<longrightarrow> (\<exists>l. snd v a = Some l \<and> n \<le> l))
     \<and> (\<forall>i j a n. (i, a, Some n) \<in> set (fst v) \<longrightarrow> (j, a, Some n) \<in> set (fst v) \<longrightarrow> i = j)"

definition burned :: "string \<Rightarrow> int \<Rightarrow> ledger \<Rightarrow> bool" where
  "burned a n v \<longleftrightarrow> (\<exists>l. snd v a = Some l \<and> n \<le> l) \<and> (\<forall>i. (i, a, Some n) \<notin> set (fst v))"

lemma ledger_step_inv:
  assumes "ledger_step v w" "allocated_once v"
  shows "allocated_once w"
  using assms
proof cases
  case (burn i rows res a l n)
  then show ?thesis using assms(2) by (fastforce simp: allocated_once_def)
next
  case (assign i rows res a l n)
  then show ?thesis using assms(2) unfolding allocated_once_def by (auto simp: image_iff) fastforce+
qed (auto simp: allocated_once_def)

lemma ledger_step_burned: "ledger_step v w \<Longrightarrow> burned a n v \<Longrightarrow> burned a n w"
  by (cases rule: ledger_step.cases) (auto simp: burned_def)

lemma ledger_steps:
  assumes "ledger_step\<^sup>*\<^sup>* v w"
  shows "allocated_once v \<Longrightarrow> allocated_once w" "burned a n v \<Longrightarrow> burned a n w"
  using assms by (induction rule: rtranclp_induct) (auto intro: ledger_step_inv ledger_step_burned)

subsection \<open>The pipeline's view of it\<close>

definition nonce_view :: "Pipeline \<Rightarrow> ledger" where
  "nonce_view s = (map (\<lambda>r. (tx_id r, tx_from r, tx_nonce r)) (tp_transactions s), \<lambda>a. map_option fst (tp_nonces s a))"

lemma nonce_view_more [simp]:
  "nonce_view (s\<lparr>tp_sql := q\<rparr>) = nonce_view s" "nonce_view (s\<lparr>tp_redis := rd\<rparr>) = nonce_view s"
  "nonce_view (s\<lparr>tp_clock := c\<rparr>) = nonce_view s" "nonce_view (s\<lparr>tp_uuid := u\<rparr>) = nonce_view s"
  "nonce_view (s\<lparr>tp_chainNonce := cn\<rparr>) = nonce_view s" "nonce_view (s\<lparr>tp_receipt := rc\<rparr>) = nonce_view s"
  "nonce_view (s\<lparr>tp_send := sd, tp_sent := st\<rparr>) = nonce_view s" "nonce_view (s\<lparr>tp_vault := vt\<rparr>) = nonce_view s"
  "nonce_view (s\<lparr>tp_keyCache := kc\<rparr>) = nonce_view s" "nonce_view (s\<lparr>tp_attempts := at\<rparr>) = nonce_view s"
  "nonce_view (s\<lparr>tp_stream := sr\<rparr>) = nonce_view s" "nonce_view (s\<lparr>tp_pending := pe\<rparr>) = nonce_view s"
  "nonce_view (s\<lparr>tp_timers := ti\<rparr>) = nonce_view s"
  by (simp_all add: nonce_view_def)

lemma nonce_view_with_tx:
  assumes "\<And>r. tx_id (f r) = tx_id r \<and> tx_from (f r) = tx_from r \<and> tx_nonce (f r) = tx_nonce r"
  shows "nonce_view (with_tx i f s) = nonce_view s"
  using assms by (auto simp: nonce_view_def with_tx_def)

definition nonce_quiet :: "'a tp \<Rightarrow> bool" where
  "nonce_quiet m \<longleftrightarrow> (\<forall>s. nonce_view (snd (m s)) = nonce_view s)"

named_theorems nonce_quiet_intros \<open>calls that leave the nonce ledger alone\<close>

lemma nonce_quietD: "nonce_quiet m \<Longrightarrow> m s = (r, s') \<Longrightarrow> nonce_view s' = nonce_view s"
  by (metis nonce_quiet_def snd_conv)

lemma nonce_quiet_bind [nonce_quiet_intros]:
  "nonce_quiet m \<Longrightarrow> (\<And>x. nonce_quiet (f x)) \<Longrightarrow> nonce_quiet (bindS m f)"
  unfolding nonce_quiet_def bindS_def by (auto simp: split_beta split: sum.splits)

lemma nonce_quiet_try [nonce_quiet_intros]:
  "nonce_quiet m \<Longrightarrow> (\<And>e. nonce_quiet (h e)) \<Longrightarrow> nonce_quiet (tryS m h)"
  unfolding nonce_quiet_def tryS_def by (auto simp: split_beta split: sum.splits)

lemma nonce_quiet_basic [nonce_quiet_intros]:
  "nonce_quiet (ret x)" "nonce_quiet (throw e)" "nonce_quiet (liftX j)" "nonce_quiet (select f)" "nonce_quiet tp_now"
  "nonce_quiet randomUUID" "nonce_quiet getTransactionCount" "nonce_quiet (sendRawTransaction raw)"
  "nonce_quiet getTransactionReceipt" "nonce_quiet (xadd m)" "nonce_quiet (xack m)" "nonce_quiet xreadgroup"
  "nonce_quiet (getSignerKey p)" "nonce_quiet (Pair r)" "nonce_quiet (\<lambda>s. (Inr x, s\<lparr>tp_timers := f' s\<rparr>))"
  by (auto simp: nonce_quiet_def select_def query_def tp_now_def randomUUID_def getTransactionCount_def liftX_def
      sendRawTransaction_def getTransactionReceipt_def xadd_def xack_def xreadgroup_def getSignerKey_def Let_def
      split: option.splits sum.splits)

lemma nonce_quiet_mapS [nonce_quiet_intros]: "(\<And>x. nonce_quiet (f x)) \<Longrightarrow> nonce_quiet (mapS f xs)"
  by (induction xs) (simp_all add: nonce_quiet_bind nonce_quiet_basic)

lemma nonce_quiet_update [nonce_quiet_intros]:
  "(\<And>s. nonce_view (g s) = nonce_view s) \<Longrightarrow> nonce_quiet (update g)"
  by (auto simp: nonce_quiet_def update_def query_def Let_def split: option.splits)

lemma nonce_quiet_if [nonce_quiet_intros]: "nonce_quiet m \<Longrightarrow> nonce_quiet n \<Longrightarrow> nonce_quiet (if b then m else n)"
  by simp

lemma nonce_quiet_option [nonce_quiet_intros]:
  "nonce_quiet m \<Longrightarrow> (\<And>x. nonce_quiet (f x)) \<Longrightarrow> nonce_quiet (case v of None \<Rightarrow> m | Some x \<Rightarrow> f x)"
  by (cases v) simp_all

text \<open>The broadcaster.\<close>

lemma nonce_view_nonces:
  "(\<And>a. map_option fst (f a) = map_option fst (tp_nonces s a)) \<Longrightarrow> nonce_view (s\<lparr>tp_nonces := f\<rparr>) = nonce_view s"
  by (simp add: nonce_view_def)

lemma nonce_quiet_settle [nonce_quiet_intros]: "nonce_quiet (settle i d n rc)"
  unfolding settle_def
  by (intro nonce_quiet_intros nonce_view_with_tx nonce_view_nonces) (auto simp: option.map_comp o_def split_beta)

lemma poll_loop_view:
  assumes "poll_loop i d n dl s = Some y"
  shows "nonce_view (snd y) = nonce_view s"
proof (rule poll_loop.raw_induct[OF _ assms], goal_cases)
  case (1 rec i d n dl s y)
  let ?s1 = "s\<lparr>tp_clock := stl (tp_clock s)\<rparr>"
  obtain r s2 where r: "bindS getTransactionReceipt (settle i d n) ?s1 = (r, s2)" by fastforce
  have "nonce_quiet (bindS getTransactionReceipt (settle i d n))" by (intro nonce_quiet_intros)
  from nonce_quietD[OF this r] have v: "nonce_view s2 = nonce_view s" by simp
  show ?case
  proof (cases "before_deadline dl (shd (tp_clock s))")
    case True
    with 1(2) r v show ?thesis using 1(1)[of i d n dl s2 y] by (cases r) (auto simp: Let_def)
  next
    case False
    with 1(2) show ?thesis by (auto simp: Let_def)
  qed
qed

lemma nonce_quiet_poll [nonce_quiet_intros]: "nonce_quiet (poll_receipt i d n dl)"
  by (auto simp: nonce_quiet_def poll_receipt_def split: option.splits dest: poll_loop_view)

lemma nonce_quiet_broadcaster [nonce_quiet_intros]:
  "nonce_quiet (markFailed i msg)" "nonce_quiet (add_attempt a)" "nonce_quiet (broadcast i raw h k)"
  "nonce_quiet (broadcast_failed cfg i k e)"
  by (auto simp: markFailed_def add_attempt_def broadcast_def broadcast_failed_def Let_def
      intro!: nonce_quiet_intros nonce_view_with_tx split: option.splits)

lemma nonce_quiet_process [nonce_quiet_intros]: "nonce_quiet (processTx cfg i)"
proof -
  have f: "nonce_quiet (\<lambda>s. case broadcast i raw h k s of (Inl e, s1) \<Rightarrow> broadcast_failed cfg i k' e s1 | (Inr x, s1) \<Rightarrow> m x s1)"
    if "\<And>x. nonce_quiet (m x)" for raw h k k' m
    using that nonce_quiet_broadcaster(3)[of i raw h k] nonce_quiet_broadcaster(4)[of cfg i k']
    by (auto simp: nonce_quiet_def split: sum.splits prod.splits) (metis snd_conv)+
  show ?thesis
    unfolding processTx_def by (auto intro!: nonce_quiet_intros f split: option.splits)
qed

lemma nonce_quiet_consume [nonce_quiet_intros]:
  "nonce_quiet (consume_once cfg)" "nonce_quiet recoverOrphanedTxs" "nonce_quiet (fire_timer k)"
proof -
  show "nonce_quiet (consume_once cfg)" "nonce_quiet recoverOrphanedTxs"
    unfolding consume_once_def handle_message_def recoverOrphanedTxs_def recover_one_def
    by (auto intro!: nonce_quiet_intros split: option.splits)
  have q: "nonce_quiet (tryS (xadd m) (\<lambda>e. ret ()))" for m by (intro nonce_quiet_intros)
  show "nonce_quiet (fire_timer k)"
    using q by (simp add: nonce_quiet_def fire_timer_def)
qed

subsection \<open>The signer\<close>

lemma wp_query [wp_simps]: "wp (query f g) P s = (case shd (tp_sql s) of
    None \<Rightarrow> P (Inr (f (s\<lparr>tp_sql := stl (tp_sql s)\<rparr>))) (g (s\<lparr>tp_sql := stl (tp_sql s)\<rparr>))
  | Some msg \<Rightarrow> P (Inl (PlainError msg)) (s\<lparr>tp_sql := stl (tp_sql s)\<rparr>))"
  by (simp add: wp_def query_def Let_def split: option.splits)

lemma wp_tp_draws [wp_simps]:
  "wp tp_now P s = P (Inr (shd (tp_clock s))) (s\<lparr>tp_clock := stl (tp_clock s)\<rparr>)"
  "wp randomUUID Q s = Q (Inr (shd (tp_uuid s))) (s\<lparr>tp_uuid := stl (tp_uuid s)\<rparr>)"
  "wp getTransactionCount R s = R (answer (shd (tp_chainNonce s))) (s\<lparr>tp_chainNonce := stl (tp_chainNonce s)\<rparr>)"
  "wp (liftX j) T s = T j s"
  by (simp_all add: wp_def tp_now_def randomUUID_def getTransactionCount_def liftX_def)

lemma nonce_quiet_wp: "nonce_quiet m \<Longrightarrow> wp m (\<lambda>r s'. nonce_view s' = nonce_view s) s"
  by (simp add: nonce_quiet_def wp_def split_beta)

text \<open>A reservation raises the highest nonce of the wallet; when it fails the ledger is as before.\<close>

lemma nonce_view_reserved:
  "tp_nonces s a = Some (l, c) \<Longrightarrow> nonce_view (set_reserved a n s) = (fst (nonce_view s), (snd (nonce_view s))(a \<mapsto> n))"
  by (auto simp: nonce_view_def set_reserved_def)

lemma wp_reserveNonce:
  "wp (reserveNonce a) (\<lambda>r s'. case r of Inl e \<Rightarrow> nonce_view s' = nonce_view s
     | Inr n \<Rightarrow> \<exists>l. snd (nonce_view s) (to_lower a) = Some l \<and> l < n
         \<and> nonce_view s' = (fst (nonce_view s), (snd (nonce_view s))(to_lower a \<mapsto> n))) s"
  unfolding reserveNonce_def rollback_def select_def update_def Let_def
  by (auto simp: wp_simps nonce_view_reserved split: option.split sum.split)
    (auto simp: nonce_view_def)

lemma nonce_quiet_sign [nonce_quiet_intros]: "nonce_quiet (signTx sc cfg p tx)"
  unfolding signTx_def by (intro nonce_quiet_intros)

lemma wp_reserve_and_sign:
  assumes "to_lower (sb_from b) = sb_from b"
  shows "wp (reserve_and_sign sc cfg p b) (\<lambda>r s'.
    (nonce_view s' = nonce_view s \<and> (\<exists>e. r = Inl e))
    \<or> (\<exists>l n. snd (nonce_view s) (sb_from b) = Some l \<and> l < n
        \<and> nonce_view s' = (fst (nonce_view s), (snd (nonce_view s))(sb_from b \<mapsto> n))
        \<and> ((\<exists>e. r = Inl e) \<or> (\<exists>g. r = Inr (n, g))))) s"
  unfolding reserve_and_sign_def
proof (rule wp_seq[OF wp_reserveNonce], goal_cases)
  case (2 n t)
  then obtain l where l: "snd (nonce_view s) (sb_from b) = Some l" "l < n"
    "nonce_view t = (fst (nonce_view s), (snd (nonce_view s))(sb_from b \<mapsto> n))" by (auto simp: assms)
  show ?case
    by (rule wp_seq[OF nonce_quiet_wp[OF nonce_quiet_sign]]) (use l in \<open>auto simp: wp_simps\<close>)
qed auto

text \<open>Setting the nonce of the row just inserted.\<close>

lemma nonce_view_set:
  assumes "nonce_view s = (rows @ [(i, a, None)], res)" "i \<notin> fst ` set rows"
    and "\<And>r. tx_id (f r) = tx_id r \<and> tx_from (f r) = tx_from r \<and> tx_nonce (f r) = Some n"
  shows "nonce_view (with_tx i f s) = (rows @ [(i, a, Some n)], res)"
proof -
  let ?g = "\<lambda>r. (tx_id r, tx_from r, tx_nonce r)" and ?h = "\<lambda>(j, b, k). if j = i then (j, b, Some n) else (j, b, k)"
  have "map ?g (map (\<lambda>r. if tx_id r = i then f r else r) (tp_transactions s)) = map ?h (map ?g (tp_transactions s))"
    using assms(3) by auto
  also have "map ?g (tp_transactions s) = rows @ [(i, a, None)]" using assms(1) by (simp add: nonce_view_def)
  also have "map ?h (rows @ [(i, a, None)]) = rows @ [(i, a, Some n)]"
    using assms(2) by (force intro!: map_idI simp: image_iff)
  finally show ?thesis using assms(1) by (simp add: nonce_view_def with_tx_def)
qed

lemma wp_queue_tx:
  assumes "nonce_view s = (rows @ [(i, a, None)], res)" "i \<notin> fst ` set rows"
  shows "wp (queue_tx i n g) (\<lambda>r s'. nonce_view s' = nonce_view s \<or> nonce_view s' = (rows @ [(i, a, Some n)], res)) s"
proof -
  have set: "nonce_view (with_tx i (\<lambda>r. r\<lparr>tx_nonce := Some n, tx_rawTx := Some (st_rawTx g), tx_hash := Some (st_txHash g),
      tx_status := QUEUED\<rparr>) (s\<lparr>tp_sql := q\<rparr>)) = (rows @ [(i, a, Some n)], res)" for q
    by (rule nonce_view_set) (use assms in simp_all)
  show ?thesis
    unfolding queue_tx_def update_def
    by (auto simp: wp_simps set intro!: wp_mono[OF nonce_quiet_wp[OF nonce_quiet_basic(10)]] split: option.split sum.split)
qed

lemma wp_sign_and_queue:
  assumes "nonce_view s = (rows @ [(i, sb_from b, None)], res)" "i \<notin> fst ` set rows" "to_lower (sb_from b) = sb_from b"
  shows "wp (sign_and_queue sc cfg p i b) (\<lambda>r s'. ledger_step (rows, res) (nonce_view s')) s"
proof -
  obtain r s1 where r: "reserve_and_sign sc cfg p b s = (r, s1)" by fastforce
  let ?set = "res(sb_from b \<mapsto> n)"
  from wpD[OF wp_reserve_and_sign[OF assms(3)] r] assms(1)
  consider (none) e where "r = Inl e" "nonce_view s1 = (rows @ [(i, sb_from b, None)], res)"
    | (lost) e l n where "r = Inl e" "res (sb_from b) = Some l" "l < n"
        "nonce_view s1 = (rows @ [(i, sb_from b, None)], res(sb_from b \<mapsto> n))"
    | (got) g l n where "r = Inr (n, g)" "res (sb_from b) = Some l" "l < n"
        "nonce_view s1 = (rows @ [(i, sb_from b, None)], res(sb_from b \<mapsto> n))" by auto
  then show ?thesis
  proof cases
    case none
    have "wp (bindS (update (with_tx i (\<lambda>r. r\<lparr>tx_status := FAILED, tx_error := Some (exn_message e)\<rparr>))) (\<lambda>_.
        ret (S_error 500 ''sign failed'' (Some (exn_message e))))) (\<lambda>r s'. nonce_view s' = nonce_view s1) s1"
      by (intro nonce_quiet_wp nonce_quiet_intros nonce_view_with_tx) simp
    with none r assms(2) show ?thesis
      by (auto simp: sign_and_queue_def wp_def intro: ledger_step.draft split: prod.splits)
  next
    case lost
    have "wp (bindS (update (with_tx i (\<lambda>r. r\<lparr>tx_status := FAILED, tx_error := Some (exn_message e)\<rparr>))) (\<lambda>_.
        ret (S_error 500 ''sign failed'' (Some (exn_message e))))) (\<lambda>r s'. nonce_view s' = nonce_view s1) s1"
      by (intro nonce_quiet_wp nonce_quiet_intros nonce_view_with_tx) simp
    with lost r assms(2) show ?thesis
      by (auto simp: sign_and_queue_def wp_def intro: ledger_step.burn split: prod.splits)
  next
    case got
    have "wp (queue_tx i n g) (\<lambda>r s'. ledger_step (rows, res) (nonce_view s')) s1"
      by (rule wp_mono[OF wp_queue_tx[OF got(4) assms(2)]])
        (use got assms(2) in \<open>auto intro: ledger_step.burn ledger_step.assign\<close>)
    with got(1) r show ?thesis by (simp add: sign_and_queue_def wp_def)
  qed
qed

lemma read_body_from: "read_body cfg body = Inr b \<Longrightarrow> to_lower (sb_from b) = sb_from b"
  by (auto simp: read_body_def bindE_Inr_iff)

text \<open>A request to the signer is one step of the allocator.\<close>

lemma wp_insert_tx:
  "wp (insert_tx row) (\<lambda>r s'. case r of Inl e \<Rightarrow> nonce_view s' = nonce_view s
     | Inr u \<Rightarrow> tx_id row \<notin> fst ` set (fst (nonce_view s))
         \<and> nonce_view s' = (fst (nonce_view s) @ [(tx_id row, tx_from row, tx_nonce row)], snd (nonce_view s))) s"
  unfolding insert_tx_def select_def
  by (auto simp: wp_simps find_tx_def find_None_iff split: option.split)
    (auto simp: wp_def nonce_view_def)

lemma post_tx_step: "wp (post_tx sc cfg body client) (\<lambda>r s'. ledger_step (nonce_view s) (nonce_view s')) s"
proof (cases "read_body cfg body")
  case (Inl e)
  then show ?thesis by (simp add: post_tx_def wp_simps ledger_step.skip)
next
  case (Inr b)
  have ins: "wp (bindS (insert_tx (draft_row b i client t)) (\<lambda>_. sign_and_queue sc cfg p i b))
      (\<lambda>r s'. ledger_step (nonce_view s) (nonce_view s')) s1" if v: "nonce_view s1 = nonce_view s" for i t p s1
  proof (rule wp_seq[OF wp_insert_tx], goal_cases)
    case (2 u s2)
    then have s2: "nonce_view s2 = (fst (nonce_view s) @ [(i, sb_from b, None)], snd (nonce_view s))"
      "i \<notin> fst ` set (fst (nonce_view s))" using v by (simp_all add: draft_row_def)
    show ?case using wp_sign_and_queue[OF s2 read_body_from[OF Inr]] by simp
  qed (use v in \<open>simp add: ledger_step.skip\<close>)
  show ?thesis
    unfolding post_tx_def
    by (auto simp: wp_simps Inr select_def ledger_step.skip intro!: ins[unfolded wp_bindS] split: option.split)
qed

subsection \<open>Steps of the pipeline\<close>

inductive pipeline_step :: "SignCrypto \<Rightarrow> SignerConfig \<Rightarrow> BroadcasterConfig \<Rightarrow> Pipeline \<Rightarrow> Pipeline \<Rightarrow> bool"
  for sc cfg bc where
  step_post: "pipeline_step sc cfg bc s (snd (post_tx sc cfg body client s))"
| step_get: "pipeline_step sc cfg bc s (snd (get_tx i s))"
| step_consume: "pipeline_step sc cfg bc s (snd (consume_once bc s))"
| step_timer: "pipeline_step sc cfg bc s (snd (fire_timer k s))"
| step_restart: "pipeline_step sc cfg bc s (restart s)"
| step_recover: "pipeline_step sc cfg bc s (snd (recoverOrphanedTxs s))"

inductive_cases pipeline_stepE: "pipeline_step sc cfg bc s t"

lemma pipeline_refines_allocator: "pipeline_step sc cfg bc s t \<Longrightarrow> ledger_step (nonce_view s) (nonce_view t)"
proof (erule pipeline_stepE, goal_cases)
  case (1 body client)
  then show ?case using post_tx_step[of sc cfg body client s] by (simp add: wp_def split_beta)
next
  case (2 i)
  have "nonce_quiet (get_tx i)" unfolding get_tx_def by (intro nonce_quiet_intros)
  with 2 show ?case by (simp add: nonce_quiet_def ledger_step.skip)
next
  case 5
  then show ?case by (simp add: restart_def ledger_step.skip)
qed (use nonce_quiet_consume in \<open>auto simp: nonce_quiet_def ledger_step.skip\<close>)

lemma pipeline_refines_allocator_steps:
  "(pipeline_step sc cfg bc)\<^sup>*\<^sup>* s t \<Longrightarrow> ledger_step\<^sup>*\<^sup>* (nonce_view s) (nonce_view t)"
  by (induction rule: rtranclp_induct) (auto intro: rtranclp.rtrancl_into_rtrancl pipeline_refines_allocator)

text \<open>What one wallet starts from: a ledger row and no transactions.\<close>

definition fresh_pipeline :: "Pipeline \<Rightarrow> bool" where
  "fresh_pipeline s \<longleftrightarrow> tp_transactions s = []"

lemma fresh_pipeline_once: "fresh_pipeline s \<Longrightarrow> allocated_once (nonce_view s)"
  by (simp add: fresh_pipeline_def nonce_view_def allocated_once_def)

lemma in_nonce_view: "(i, a, k) \<in> set (fst (nonce_view s)) \<longleftrightarrow> (\<exists>r\<in>set (tp_transactions s). tx_id r = i \<and> tx_from r = a \<and> tx_nonce r = k)"
  by (auto simp: nonce_view_def)

subsection \<open>A pipeline to try the theorems on\<close>

definition toy_sign :: SignCrypto where
  "toy_sign = \<lparr>sc_sign = (\<lambda>k tx. Inr (''0x'' @ js_int (lt_nonce tx))), sc_hash = id\<rparr>"

definition toy_signer :: SignerConfig where
  "toy_signer = \<lparr>sc_chainId = Some 131216, sc_defaultGasLimit = 8000000, sc_defaultGasPrice = 0\<rparr>"

definition toy_broadcaster :: BroadcasterConfig where
  "toy_broadcaster = \<lparr>bc_maxRetries = Some 3, bc_receiptTimeoutMs = Some 60000\<rparr>"

definition toy_key :: SignerKey where "toy_key = \<lparr>sk_address = ''0xa'', sk_privateKey = ''0x1''\<rparr>"

definition toy_pipeline :: Pipeline where
  "toy_pipeline = \<lparr>tp_wallets = [''0xa'' \<mapsto> ''secret/a''], tp_nonces = [''0xa'' \<mapsto> (4, 4)], tp_transactions = [], tp_attempts = [],
     tp_stream = [], tp_pending = [], tp_timers = [], tp_keyCache = Map.empty, tp_sent = [], tp_clock = sconst 0,
     tp_uuid = ''u1'' ## sconst ''u2'', tp_sql = sconst None, tp_redis = sconst None, tp_chainNonce = sconst (Inr 3),
     tp_vault = sconst (Inr toy_key), tp_send = sconst (Inr ''0x5''),
     tp_receipt = sconst (Inr \<lparr>cr_success = True, cr_blockNumber = 9, cr_gasUsed = 21000\<rparr>)\<rparr>"

definition toy_body :: "json option" where "toy_body = Some (JObj [(''from'', JStr ''0xA'')])"

lemmas pipeline_run = post_tx_def sign_and_queue_def reserve_and_sign_def reserveNonce_def queue_tx_def insert_tx_def signTx_def
  getSignerKey_def query_def select_def update_def tp_now_def randomUUID_def getTransactionCount_def liftX_def xadd_def
  tryS_def bindS_apply rollback_def answer_def Let_def

lemma toy_body_read: "read_body toy_signer toy_body = Inr \<lparr>sb_from = ''0xa'', sb_dest = None, sb_data = ''0x'', sb_value = 0, sb_gasLimit = 8000000\<rparr>"
  by code_simp

lemma toy_posts:
  "\<exists>s. post_tx toy_sign toy_signer toy_body None toy_pipeline = (Inr (S_queued ''u1''), s)
     \<and> (\<exists>r. tp_transactions s = [r] \<and> tx_nonce r = Some 5 \<and> tx_status r = QUEUED \<and> tx_id r = ''u1'' \<and> tx_from r = ''0xa''
        \<and> tx_rawTx r = Some ''0x5'' \<and> tx_hash r = Some ''0x5'')
     \<and> tp_stream s = [[''txId'', ''u1'']]"
proof -
  have "truthy_opt (body_prop toy_body ''from'')" "as_str (body_prop toy_body ''from'') \<noteq> None" "js_int 5 = ''5''" by code_simp+
  then show ?thesis
    using toy_body_read
    by (simp add: pipeline_run toy_pipeline_def toy_key_def toy_sign_def toy_signer_def find_tx_def draft_row_def with_tx_def
        set_reserved_def lower_char_def)
qed

subsection \<open>Properties\<close>

text \<open>C18: The signer never uses a nonce twice.  From a database without transactions, whatever is requested, whatever
  fails and whatever the chain answers, with broadcasts, retries, recoveries and restarts in between: two rows of the same
  wallet with the same nonce are the same row, and no row has a nonce above the wallet's reservation.\<close>

theorem nonces_are_never_reused:
  assumes "fresh_pipeline s0" "(pipeline_step sc cfg bc)\<^sup>*\<^sup>* s0 s"
    and "r \<in> set (tp_transactions s)" "r' \<in> set (tp_transactions s)"
    and "tx_from r = tx_from r'" "tx_nonce r = Some n" "tx_nonce r' = Some n"
  shows "r = r' \<and> (\<exists>l c. tp_nonces s (tx_from r) = Some (l, c) \<and> n \<le> l)"
proof -
  have once: "allocated_once (nonce_view s)"
    by (rule ledger_steps(1)[OF pipeline_refines_allocator_steps[OF assms(2)] fresh_pipeline_once[OF assms(1)]])
  have m: "(tx_id r, tx_from r, Some n) \<in> set (fst (nonce_view s))" "(tx_id r', tx_from r, Some n) \<in> set (fst (nonce_view s))"
    using assms by (auto simp: in_nonce_view)
  then have "tx_id r = tx_id r'" using once unfolding allocated_once_def by blast
  moreover have "distinct (map tx_id (tp_transactions s))" using once by (simp add: allocated_once_def nonce_view_def o_def)
  ultimately have "r = r'" using assms(3,4) by (auto simp: distinct_map dest: inj_onD)
  moreover obtain l where "snd (nonce_view s) (tx_from r) = Some l" "n \<le> l"
    using once m(1) unfolding allocated_once_def by blast
  ultimately show ?thesis by (auto simp: nonce_view_def)
qed

theorem nonces_are_never_reused_witness:
  "\<exists>s r. post_tx toy_sign toy_signer toy_body None toy_pipeline = (Inr (S_queued ''u1''), s) \<and> r \<in> set (tp_transactions s)
     \<and> tx_nonce r = Some 5 \<and> (\<exists>l c. tp_nonces s ''0xa'' = Some (l, c) \<and> 5 \<le> l)"
proof -
  have fresh: "fresh_pipeline toy_pipeline" by (simp add: fresh_pipeline_def toy_pipeline_def)
  obtain s r where s: "post_tx toy_sign toy_signer toy_body None toy_pipeline = (Inr (S_queued ''u1''), s)"
    "r \<in> set (tp_transactions s)" "tx_nonce r = Some 5" "tx_from r = ''0xa''" using toy_posts by auto
  have steps: "(pipeline_step toy_sign toy_signer toy_broadcaster)\<^sup>*\<^sup>* toy_pipeline s"
    using step_post[of toy_sign toy_signer toy_broadcaster toy_pipeline toy_body None] s(1) by (simp add: r_into_rtranclp)
  from nonces_are_never_reused[OF fresh steps s(2,2) refl s(3,3)] s show ?thesis by auto
qed

text \<open>A failed signature leaves a hole in the nonces.  When reserving succeeded and signing failed, the request is
  answered 500, the wallet's reservation stands at the reserved nonce, and no transaction of the wallet will ever carry that nonce,
  so a chain that requires consecutive nonces accepts none of the later ones.\<close>

theorem failed_signature_leaves_a_hole:
  assumes "allocated_once (nonce_view s)" "to_lower (sb_from b) = sb_from b"
    and "reserveNonce (sb_from b) s = (Inr n, s1)"
    and "signTx sc cfg p \<lparr>ut_from = sb_from b, ut_dest = sb_dest b, ut_data = sb_data b, ut_value = sb_value b,
       ut_gasLimit = sb_gasLimit b, ut_nonce = n\<rparr> s1 = (Inl e, s2)"
    and "sign_and_queue sc cfg p i b s = (r, s3)" "(pipeline_step sc cfg bc)\<^sup>*\<^sup>* s3 t"
  shows "(\<forall>x. r \<noteq> Inr (S_queued x)) \<and> (\<forall>row\<in>set (tp_transactions t). \<not> (tx_from row = sb_from b \<and> tx_nonce row = Some n))"
proof -
  obtain l where l: "snd (nonce_view s) (sb_from b) = Some l" "l < n"
    "nonce_view s1 = (fst (nonce_view s), (snd (nonce_view s))(sb_from b \<mapsto> n))"
    using wpD[OF wp_reserveNonce assms(3)] assms(2) by auto
  have v2: "nonce_view s2 = nonce_view s1" by (rule nonce_quietD[OF nonce_quiet_sign assms(4)])
  let ?fail = "bindS (update (with_tx i (\<lambda>r. r\<lparr>tx_status := FAILED, tx_error := Some (exn_message e)\<rparr>))) (\<lambda>_.
      ret (S_error 500 ''sign failed'' (Some (exn_message e))))"
  have run: "sign_and_queue sc cfg p i b s = ?fail s2"
    using assms(3,4) by (simp add: sign_and_queue_def reserve_and_sign_def bindS_apply)
  have "wp ?fail (\<lambda>r s'. nonce_view s' = nonce_view s2) s2"
    by (intro nonce_quiet_wp nonce_quiet_intros nonce_view_with_tx) simp
  moreover have "wp ?fail (\<lambda>r s'. \<forall>x. r \<noteq> Inr (S_queued x)) s2" by (simp add: update_def wp_simps split: option.split)
  ultimately have r: "\<forall>x. r \<noteq> Inr (S_queued x)" "nonce_view s3 = nonce_view s2"
    using wpD[of ?fail _ s2 r s3] run assms(5) by auto
  have "burned (sb_from b) n (nonce_view s3)"
    using l assms(1) unfolding r(2) v2 burned_def allocated_once_def by force
  from ledger_steps(2)[OF pipeline_refines_allocator_steps[OF assms(6)] this] r(1) show ?thesis
    by (auto simp: burned_def in_nonce_view)
qed

theorem failed_signature_leaves_a_hole_witness:
  "\<exists>r s. sign_and_queue toy_sign toy_signer ''secret/a'' ''u1'' \<lparr>sb_from = ''0xa'', sb_dest = None, sb_data = ''0x'', sb_value = 0, sb_gasLimit = 1\<rparr>
       (toy_pipeline\<lparr>tp_vault := sconst (Inl (PlainError ''sealed''))\<rparr>) = (r, s) \<and> (\<forall>x. r \<noteq> Inr (S_queued x))"
proof -
  let ?b = "\<lparr>sb_from = ''0xa'', sb_dest = None, sb_data = ''0x'', sb_value = 0, sb_gasLimit = 1\<rparr>"
  let ?s = "toy_pipeline\<lparr>tp_vault := sconst (Inl (PlainError ''sealed''))\<rparr>"
  have once: "allocated_once (nonce_view ?s)" by (rule fresh_pipeline_once) (simp add: fresh_pipeline_def toy_pipeline_def)
  have low: "to_lower (sb_from ?b) = sb_from ?b" by code_simp
  obtain s1 where s1: "reserveNonce (sb_from ?b) ?s = (Inr 5, s1)" "tp_keyCache s1 = Map.empty" "tp_vault s1 = sconst (Inl (PlainError ''sealed''))"
    using low by (simp add: pipeline_run toy_pipeline_def set_reserved_def)
  have s2: "signTx toy_sign toy_signer ''secret/a'' \<lparr>ut_from = sb_from ?b, ut_dest = sb_dest ?b, ut_data = sb_data ?b,
      ut_value = sb_value ?b, ut_gasLimit = sb_gasLimit ?b, ut_nonce = 5\<rparr> s1
      = (Inl (PlainError ''sealed''), s1\<lparr>tp_vault := sconst (Inl (PlainError ''sealed''))\<rparr>)"
    using s1 by (simp add: signTx_def getSignerKey_def bindS_apply)
  obtain r s3 where "sign_and_queue toy_sign toy_signer ''secret/a'' ''u1'' ?b ?s = (r, s3)" by fastforce
  from failed_signature_leaves_a_hole[OF once low s1(1) s2 this rtranclp.rtrancl_refl] this show ?thesis by blast
qed

subsection \<open>Waiting for the receipt\<close>

lemma find_with_tx: "(\<And>r. tx_id (f r) = tx_id r) \<Longrightarrow> find_tx i (with_tx i f s) = map_option f (find_tx i s)"
proof -
  assume f: "\<And>r. tx_id (f r) = tx_id r"
  have "find (\<lambda>r. tx_id r = i) (map (\<lambda>r. if tx_id r = i then f r else r) xs) = map_option f (find (\<lambda>r. tx_id r = i) xs)" for xs
    by (induction xs) (auto simp: f)
  then show ?thesis by (simp add: find_tx_def with_tx_def)
qed

lemma find_tx_more [simp]:
  "find_tx j (s\<lparr>tp_attempts := a\<rparr>) = find_tx j s" "find_tx j (s\<lparr>tp_sql := q\<rparr>) = find_tx j s"
  "find_tx j (s\<lparr>tp_send := sd\<rparr>) = find_tx j s" "find_tx j (s\<lparr>tp_sent := st\<rparr>) = find_tx j s"
  "find_tx j (s\<lparr>tp_clock := c\<rparr>) = find_tx j s" "find_tx j (s\<lparr>tp_nonces := m\<rparr>) = find_tx j s"
  "find_tx j (s\<lparr>tp_receipt := rc\<rparr>) = find_tx j s"
  by (simp_all add: find_tx_def)

lemma with_tx_sel [simp]:
  "tp_sql (with_tx j f s) = tp_sql s" "tp_clock (with_tx j f s) = tp_clock s" "tp_nonces (with_tx j f s) = tp_nonces s"
  by (simp_all add: with_tx_def)

lemma update_run: "tp_sql s = sconst None \<Longrightarrow> update g s = (Inr (), g (s\<lparr>tp_sql := sconst None\<rparr>))"
  by (simp add: update_def query_def)

lemma settle_run:
  assumes "tp_sql s = sconst None" "find_tx i s = Some r"
  shows "\<exists>s' r'. settle i d n rc s = (Inr (), s') \<and> tp_clock s' = tp_clock s \<and> tp_sql s' = sconst None
    \<and> find_tx i s' = Some r' \<and> tx_status r' \<in> {CONFIRMED, REVERTED}"
  using assms by (simp add: settle_def bindS_apply update_run find_with_tx)

lemma poll_loop_unroll:
  "\<not> before_deadline dl (shd (tp_clock s)) \<Longrightarrow> poll_loop i d n dl s = Some (False, s\<lparr>tp_clock := stl (tp_clock s)\<rparr>)"
  "before_deadline dl (shd (tp_clock s)) \<Longrightarrow>
     bindS getTransactionReceipt (settle i d n) (s\<lparr>tp_clock := stl (tp_clock s)\<rparr>) = (Inr u, s2) \<Longrightarrow>
     poll_loop i d n dl s = Some (True, s2)"
  "before_deadline dl (shd (tp_clock s)) \<Longrightarrow>
     bindS getTransactionReceipt (settle i d n) (s\<lparr>tp_clock := stl (tp_clock s)\<rparr>) = (Inl e, s2) \<Longrightarrow>
     poll_loop i d n dl s = poll_loop i d n dl s2"
  by (subst poll_loop.simps, simp add: Let_def)+

lemma poll_loop_returns:
  assumes "\<not> before_deadline deadline (tp_clock s !! k)" "tp_sql s = sconst None" "find_tx i s = Some r"
  shows "\<exists>b s' r'. poll_loop i d n deadline s = Some (b, s') \<and> tp_sql s' = sconst None
    \<and> find_tx i s' = Some r' \<and> (b \<longrightarrow> tx_status r' \<in> {CONFIRMED, REVERTED})"
  using assms
proof (induction k arbitrary: s)
  case 0
  then show ?case by (auto simp: poll_loop_unroll)
next
  case (Suc k)
  let ?s1 = "s\<lparr>tp_clock := stl (tp_clock s)\<rparr>"
  let ?s2 = "?s1\<lparr>tp_receipt := stl (tp_receipt s)\<rparr>"
  have s2: "tp_sql ?s2 = tp_sql s" "find_tx i ?s2 = find_tx i s" by simp_all
  show ?case
  proof (cases "before_deadline deadline (shd (tp_clock s))")
    case True
    show ?thesis
    proof (cases "shd (tp_receipt s)")
      case (Inl e)
      then have "bindS getTransactionReceipt (settle i d n) ?s1 = (Inl (PlainError e), ?s2)"
        by (simp add: bindS_apply getTransactionReceipt_def answer_def)
      from poll_loop_unroll(3)[OF True this] have eq: "poll_loop i d n deadline s = poll_loop i d n deadline ?s2" .
      have "\<exists>b s' r'. poll_loop i d n deadline ?s2 = Some (b, s') \<and> tp_sql s' = sconst None
          \<and> find_tx i s' = Some r' \<and> (b \<longrightarrow> tx_status r' \<in> {CONFIRMED, REVERTED})"
        by (rule Suc.IH) (use Suc.prems(1) in simp, simp only: s2 Suc.prems(2), simp only: s2 Suc.prems(3))
      then show ?thesis unfolding eq .
    next
      case (Inr rc)
      have "tp_sql ?s2 = sconst None" "find_tx i ?s2 = Some r"
        by (simp only: s2 Suc.prems(2)) (simp only: s2 Suc.prems(3))
      from settle_run[OF this] obtain s' r' where s': "settle i d n rc ?s2 = (Inr (), s')" "tp_sql s' = sconst None"
        "find_tx i s' = Some r'" "tx_status r' \<in> {CONFIRMED, REVERTED}" by blast
      with Inr have "bindS getTransactionReceipt (settle i d n) ?s1 = (Inr (), s')"
        by (simp add: bindS_apply getTransactionReceipt_def answer_def)
      from poll_loop_unroll(2)[OF True this] s' show ?thesis by blast
    qed
  next
    case False
    with Suc.prems show ?thesis by (auto simp: poll_loop_unroll)
  qed
qed

text \<open>C32: A broadcast transaction reaches a final state.  When the database answers, the node accepts the signed
  transaction and the clock passes the deadline at some point, processing a queued transaction returns, and the
  row is then confirmed, reverted or failed; it is never left broadcasted, and the loop does not run for ever.\<close>

theorem broadcast_is_resolved:
  assumes "find_tx i s = Some r" "tx_rawTx r = Some raw" "raw \<noteq> []" "tx_hash r = Some hash" "tp_sql s = sconst None" "shd (tp_send s) = Inr h"
    and "bc_receiptTimeoutMs cfg = Some d" "shd (tp_clock s) + d \<le> stl (tp_clock s) !! k"
  shows "\<exists>s' r'. processTx cfg i s = (Inr (), s') \<and> find_tx i s' = Some r' \<and> tx_status r' \<in> {CONFIRMED, REVERTED, FAILED}"
proof -
  obtain h' s1 r1 where b: "broadcast i raw (tx_hash r) (tx_retryCount r + 1) (s\<lparr>tp_sql := sconst None\<rparr>) = (Inr h', s1)"
    "tp_sql s1 = sconst None" "tp_clock s1 = tp_clock s" "find_tx i s1 = Some r1"
    using assms(1,4,5,6)
    by (simp add: broadcast_def add_attempt_def bindS_apply sendRawTransaction_def answer_def update_run Let_def find_with_tx)
  let ?s2 = "s1\<lparr>tp_clock := stl (tp_clock s)\<rparr>"
  have "\<not> before_deadline (Some (shd (tp_clock s) + d)) (tp_clock ?s2 !! k)" using assms(8) by (simp add: before_deadline_def)
  from poll_loop_returns[OF this, of i r1 "tx_from r" "tx_nonce r"] b
  obtain st s3 r3 where p: "poll_loop i (tx_from r) (tx_nonce r) (Some (shd (tp_clock s) + d)) ?s2 = Some (st, s3)"
    "tp_sql s3 = sconst None" "find_tx i s3 = Some r3" "st \<longrightarrow> tx_status r3 \<in> {CONFIRMED, REVERTED}" by auto
  have s: "s\<lparr>tp_sql := sconst None\<rparr> = s" using assms(5) by simp
  have sel: "select (find_tx i) s = (Inr (Some r), s)" using assms(1,5) by (simp add: select_def query_def)
  show ?thesis
    using assms(2-4,7) b p s sel
    by (cases st) (auto simp: processTx_def bindS_apply tp_now_def poll_receipt_def markFailed_def update_run find_with_tx
        add.commute)
qed

theorem broadcast_is_resolved_witness:
  "\<exists>s s' r. post_tx toy_sign toy_signer toy_body None toy_pipeline = (Inr (S_queued ''u1''), s)
     \<and> processTx toy_broadcaster ''u1'' (s\<lparr>tp_clock := sconst 0, tp_sql := sconst None, tp_send := sconst (Inr ''0x5''),
         tp_clock := 0 ## sconst 60000\<rparr>) = (Inr (), s') \<and> find_tx ''u1'' s' = Some r \<and> tx_status r \<in> {CONFIRMED, REVERTED, FAILED}"
proof -
  obtain s r where s: "post_tx toy_sign toy_signer toy_body None toy_pipeline = (Inr (S_queued ''u1''), s)"
    "tp_transactions s = [r]" "tx_rawTx r = Some ''0x5''" "tx_id r = ''u1''" "tx_hash r = Some ''0x5''" using toy_posts by auto
  let ?s = "s\<lparr>tp_clock := sconst 0, tp_sql := sconst None, tp_send := sconst (Inr ''0x5''), tp_clock := 0 ## sconst 60000\<rparr>"
  have "find_tx ''u1'' ?s = Some r" using s by (simp add: find_tx_def)
  from broadcast_is_resolved[OF this s(3) _ s(5), of "''0x5''" toy_broadcaster 60000 0] s(1) show ?thesis
    by (auto simp: toy_broadcaster_def)
qed

end
