(* ===== verification/RpcCache.thy ===== *)
theory RpcCache
  imports TxPipeline
begin

text \<open>
  The RPC read cache (\<open>services/rpc-cache/src/index.ts\<close>): which methods are cached and for how long, the key of a
  request, one request through the cache, a batch, and the warm-up.  Redis is a map from keys to a value with its
  time of expiry; the clock, the failures of Redis and the answers of the upstream node are streams.  The
  digest that shortens a key (SHA-256, base64url, 24 characters) is the parameter \<open>hk\<close>.  Requests of a batch
  run one after another; metrics and logging are left out, and so are method names that JavaScript
  objects inherit.
\<close>

subsection \<open>Policy\<close>

definition CACHE_TTL :: "(string \<times> int) list" where
  "CACHE_TTL = [(''eth_chainId'', 86400), (''net_version'', 86400), (''web3_clientVersion'', 86400),
     (''eth_blockNumber'', 1), (''eth_gasPrice'', 5), (''eth_getBlockByNumber'', 5), (''eth_getBlockByHash'', 3600),
     (''eth_getTransactionByHash'', 60), (''eth_getTransactionReceipt'', 3600), (''eth_getLogs'', 3), (''eth_call'', 2),
     (''eth_getCode'', 3600), (''eth_getBalance'', 2), (''eth_getTransactionCount'', 1)]"

definition NEVER_CACHE :: "string list" where
  "NEVER_CACHE = [''eth_sendRawTransaction'', ''eth_sendTransaction'', ''eth_subscribe'', ''eth_unsubscribe'',
     ''debug_traceCall'', ''debug_traceTransaction'', ''debug_traceBlock'', ''txpool_content'', ''txpool_inspect'']"

definition rpc_method :: "json \<Rightarrow> string option" where
  "rpc_method req = as_str (json_get req ''method'')"

definition first_param :: "json \<Rightarrow> json option" where
  "first_param req = (case json_get req ''params'' of Some (JArr (x # xs)) \<Rightarrow> Some x | _ \<Rightarrow> None)"

definition ttlFor :: "json \<Rightarrow> int option" where
  "ttlFor req = (case rpc_method req of None \<Rightarrow> None
   | Some m \<Rightarrow> if m \<in> set NEVER_CACHE then None
       else if m = ''eth_getBlockByNumber'' \<and> (case first_param req of Some (JStr tag) \<Rightarrow> starts_with ''0x'' tag | _ \<Rightarrow> False)
       then Some 3600
       else map_of CACHE_TTL m)"

text \<open>The canonical text of a request; the client's identifier is no part of it.\<close>

definition canon :: "json \<Rightarrow> string" where
  "canon req = json_text (JObj ((case json_get req ''method'' of None \<Rightarrow> [] | Some m \<Rightarrow> [(''m'', m)])
     @ [(''p'', or_json (json_get req ''params'') (JArr []))]))"

definition cacheKey :: "(string \<Rightarrow> string) \<Rightarrow> json \<Rightarrow> string" where
  "cacheKey hk req = ''rpc:'' @ hk (canon req)"

subsection \<open>State\<close>

record UpstreamReply =
  ur_status :: int
  ur_statusText :: string
  ur_contentType :: "string option"
  ur_text :: string
  ur_json :: "json option"

record RpcState =
  rs_entries :: "string \<rightharpoonup> json \<times> int"
  rs_clock :: "int stream"
  rs_redis :: "string option stream"
  rs_upstream :: "(string + UpstreamReply) stream"
  rs_forwarded :: "json list"
  rs_answers :: "(json \<times> json \<times> int) list"

type_synonym 'a rpc = "(RpcState, js_exn, 'a) xop"

text \<open>\<open>GET\<close> and \<open>SETEX\<close>; an entry is seen before its time of expiry.  The answers that were stored are
  also kept in a history, for the statements below.\<close>

definition redis_get :: "string \<Rightarrow> json option rpc" where
  "redis_get key s = (let s1 = s\<lparr>rs_redis := stl (rs_redis s), rs_clock := stl (rs_clock s)\<rparr> in
     case shd (rs_redis s) of Some msg \<Rightarrow> (Inl (PlainError msg), s1)
     | None \<Rightarrow> (case rs_entries s key of None \<Rightarrow> (Inr None, s1)
         | Some (v, exp) \<Rightarrow> (Inr (if shd (rs_clock s) < exp then Some v else None), s1)))"

definition redis_setex :: "string \<Rightarrow> int \<Rightarrow> json \<Rightarrow> json \<Rightarrow> json \<Rightarrow> unit rpc" where
  "redis_setex key ttl v req res s = (let s1 = s\<lparr>rs_redis := stl (rs_redis s), rs_clock := stl (rs_clock s)\<rparr> in
     case shd (rs_redis s) of Some msg \<Rightarrow> (Inl (PlainError msg), s1)
     | None \<Rightarrow> (Inr (), s1\<lparr>rs_entries := (rs_entries s)(key \<mapsto> (v, shd (rs_clock s) + 1000 * ttl)),
         rs_answers := rs_answers s @ [(req, res, shd (rs_clock s))]\<rparr>))"

definition proxyUpstream :: "json \<Rightarrow> json rpc" where
  "proxyUpstream req s =
     (let s1 = s\<lparr>rs_upstream := stl (rs_upstream s), rs_forwarded := rs_forwarded s @ [req]\<rparr> in
      case shd (rs_upstream s) of
        Inl msg \<Rightarrow> (Inl TypeError, s1)
      | Inr r \<Rightarrow> (let contentType = default_to [] (ur_contentType r) in
          if \<not> (200 \<le> ur_status r \<and> ur_status r \<le> 299) \<or> \<not> is_part_of ''application/json'' contentType
          then (Inr (JObj [(''jsonrpc'', JStr ''2.0''), (''id'', or_json (json_get req ''id'') JNull),
            (''error'', JObj [(''code'', JNum (- 32603)),
              (''message'', JStr (''Upstream returned '' @ js_int (ur_status r) @ '' '' @ ur_statusText r @ '' (''
                 @ (if contentType = [] then ''no content-type'' else contentType) @ '')'')),
              (''data'', JStr (take 200 (ur_text r)))])]), s1)
          else (case ur_json r of None \<Rightarrow> (Inl (PlainError ''Unexpected token in JSON''), s1) | Some v \<Rightarrow> (Inr v, s1))))"

subsection \<open>One request\<close>

text \<open>An answer is cached when it has a result that is not null, and no error.\<close>

definition cacheable :: "json \<Rightarrow> bool" where
  "cacheable res = (json_get res ''result'' \<notin> {None, Some JNull} \<and> json_get res ''error'' = None)"

definition cached_value :: "json \<Rightarrow> json" where
  "cached_value res = JObj ((case json_get res ''jsonrpc'' of None \<Rightarrow> [] | Some v \<Rightarrow> [(''jsonrpc'', v)])
     @ [(''result'', the (json_get res ''result''))])"

text \<open>\<open>{...r, id: req.id}\<close>.\<close>

definition with_id :: "json \<Rightarrow> json \<Rightarrow> json" where
  "with_id r req = (case r of JObj fs \<Rightarrow> JObj (filter (\<lambda>(k, v). k \<noteq> ''id'') fs
     @ (case json_get req ''id'' of None \<Rightarrow> [] | Some v \<Rightarrow> [(''id'', v)])) | _ \<Rightarrow> r)"

definition fetch_fresh :: "(string \<Rightarrow> string) \<Rightarrow> json \<Rightarrow> int \<Rightarrow> json rpc" where
  "fetch_fresh hk req ttl =
     bindS (proxyUpstream req) (\<lambda>fresh.
     if fresh = JNull then throw TypeError
     else bindS (if cacheable fresh
            then tryS (redis_setex (cacheKey hk req) ttl (cached_value fresh) req fresh) (\<lambda>e. ret ())
            else ret ()) (\<lambda>_.
       ret fresh))"

definition handleOne :: "(string \<Rightarrow> string) \<Rightarrow> json \<Rightarrow> json rpc" where
  "handleOne hk req =
     (if req = JNull then throw TypeError
      else case ttlFor req of
        None \<Rightarrow> proxyUpstream req
      | Some ttl \<Rightarrow>
          bindS (tryS (redis_get (cacheKey hk req)) (\<lambda>e. ret None)) (\<lambda>cached.
          case cached of Some r \<Rightarrow> ret (with_id r req)
          | None \<Rightarrow> fetch_fresh hk req ttl))"

text \<open>\<open>Promise.all\<close>: every request is run, the first failure is the result.\<close>

fun allS :: "('a \<Rightarrow> ('s, 'e, 'b) xop) \<Rightarrow> 'a list \<Rightarrow> ('s, 'e, 'b list) xop" where
  "allS f [] s = (Inr [], s)"
| "allS f (x # xs) s = (case f x s of (r, s1) \<Rightarrow> case allS f xs s1 of (rs, s2) \<Rightarrow>
     (case r of Inl e \<Rightarrow> Inl e | Inr y \<Rightarrow> (case rs of Inl e \<Rightarrow> Inl e | Inr ys \<Rightarrow> Inr (y # ys)), s2))"

definition post_root :: "(string \<Rightarrow> string) \<Rightarrow> json option \<Rightarrow> json rpc" where
  "post_root hk body = (case body of None \<Rightarrow> throw TypeError
   | Some (JArr reqs) \<Rightarrow> bindS (allS (handleOne hk) reqs) (\<lambda>rs. ret (JArr rs))
   | Some req \<Rightarrow> handleOne hk req)"

definition warmup_requests :: "json list" where
  "warmup_requests = map (\<lambda>m. JObj [(''jsonrpc'', JStr ''2.0''), (''id'', JNum 0), (''method'', JStr m), (''params'', JArr [])])
     [''eth_chainId'', ''net_version'', ''web3_clientVersion'', ''eth_blockNumber'', ''eth_gasPrice'']"

definition warmup :: "(string \<Rightarrow> string) \<Rightarrow> nat rpc" where
  "warmup hk = bindS (mapS (\<lambda>req. tryS (bindS (handleOne hk req) (\<lambda>res. ret (if json_get res ''result'' \<noteq> None then 1 else 0)))
     (\<lambda>e. ret 0)) warmup_requests) (\<lambda>ns. ret (sum_list ns))"

subsection \<open>What the cache holds\<close>

text \<open>Every entry is the result of an answer in the history, for a request with its key, and expires when that
  request's time to live is over.\<close>

definition entry_ok :: "(string \<Rightarrow> string) \<Rightarrow> (json \<times> json \<times> int) list \<Rightarrow> string \<Rightarrow> json \<Rightarrow> int \<Rightarrow> bool" where
  "entry_ok hk answers key v exp \<longleftrightarrow> (\<exists>(req, res, t) \<in> set answers. cacheKey hk req = key \<and> v = cached_value res
     \<and> cacheable res \<and> (\<exists>ttl. ttlFor req = Some ttl \<and> exp = t + 1000 * ttl))"

definition rpc_inv :: "(string \<Rightarrow> string) \<Rightarrow> RpcState \<Rightarrow> bool" where
  "rpc_inv hk s \<longleftrightarrow> (\<forall>key v exp. rs_entries s key = Some (v, exp) \<longrightarrow> entry_ok hk (rs_answers s) key v exp)"

text \<open>What one request can answer: what the node says now, or a stored answer to a request with the same key.\<close>

definition served_from :: "(string \<Rightarrow> string) \<Rightarrow> json \<Rightarrow> RpcState \<Rightarrow> json \<Rightarrow> RpcState \<Rightarrow> bool" where
  "served_from hk req s res s' \<longleftrightarrow>
     (rs_forwarded s' = rs_forwarded s @ [req] \<and> fst (proxyUpstream req s) = Inr res)
   \<or> (rs_forwarded s' = rs_forwarded s \<and> rs_answers s' = rs_answers s \<and> ttlFor req \<noteq> None
      \<and> (\<exists>(req0, res0, t) \<in> set (rs_answers s). cacheKey hk req0 = cacheKey hk req \<and> cacheable res0
          \<and> res = with_id (cached_value res0) req \<and> (\<exists>ttl. ttlFor req0 = Some ttl \<and> shd (rs_clock s) < t + 1000 * ttl)))"

lemma wp_redis_get:
  "rpc_inv hk s \<Longrightarrow> wp (redis_get key) (\<lambda>r s'. rpc_inv hk s' \<and> rs_upstream s' = rs_upstream s
     \<and> rs_answers s' = rs_answers s \<and> rs_forwarded s' = rs_forwarded s
     \<and> (\<forall>v. r = Inr (Some v) \<longrightarrow> (\<exists>exp. entry_ok hk (rs_answers s) key v exp \<and> shd (rs_clock s) < exp))) s"
  by (auto simp: wp_def redis_get_def rpc_inv_def Let_def split: option.splits)

lemma wp_proxyUpstream:
  "rpc_inv hk s \<Longrightarrow> wp (proxyUpstream req) (\<lambda>r s'. rpc_inv hk s' \<and> rs_answers s' = rs_answers s
     \<and> r = fst (proxyUpstream req s) \<and> rs_forwarded s' = rs_forwarded s @ [req]) s"
  by (auto simp: wp_def proxyUpstream_def rpc_inv_def Let_def split: option.splits sum.splits)

lemma proxyUpstream_cong: "rs_upstream s = rs_upstream t \<Longrightarrow> fst (proxyUpstream req s) = fst (proxyUpstream req t)"
  by (auto simp: proxyUpstream_def Let_def split: option.splits sum.splits)

lemma wp_redis_setex:
  assumes "rpc_inv hk s" "cacheable res" "ttlFor req = Some ttl"
  shows "wp (redis_setex (cacheKey hk req) ttl (cached_value res) req res)
    (\<lambda>r s'. rpc_inv hk s' \<and> rs_forwarded s' = rs_forwarded s) s"
  using assms by (auto simp: wp_def redis_setex_def rpc_inv_def entry_ok_def Let_def split: option.splits)

lemma wp_fetch_fresh:
  assumes "rpc_inv hk s" "ttlFor req = Some ttl"
  shows "wp (fetch_fresh hk req ttl) (\<lambda>r s'. rpc_inv hk s' \<and> (\<forall>res. r = Inr res \<longrightarrow> fst (proxyUpstream req s) = Inr res
    \<and> rs_forwarded s' = rs_forwarded s @ [req])) s"
  unfolding fetch_fresh_def
proof (rule wp_seq[OF wp_proxyUpstream[OF assms(1)]], goal_cases)
  case (2 fresh t)
  show ?case
  proof (cases "fresh = JNull")
    case True
    with 2 show ?thesis by (auto simp: wp_simps)
  next
    case False
    have keep: "wp (if cacheable fresh
            then tryS (redis_setex (cacheKey hk req) ttl (cached_value fresh) req fresh) (\<lambda>e. ret ())
            else ret ()) (\<lambda>r s'. rpc_inv hk s' \<and> rs_forwarded s' = rs_forwarded s @ [req]) t"
      unfolding wp_if wp_tryS using 2 assms(2)
      by (auto intro!: wp_mono[OF wp_redis_setex] simp: wp_simps split: sum.split)
    show ?thesis unfolding if_not_P[OF False] by (rule wp_seq[OF keep]) (use 2 in \<open>auto simp: wp_simps\<close>)
  qed
qed auto

lemma wp_handleOne:
  assumes "rpc_inv hk s"
  shows "wp (handleOne hk req) (\<lambda>r s'. rpc_inv hk s' \<and> (\<forall>res. r = Inr res \<longrightarrow> served_from hk req s res s')) s"
proof (cases "req = JNull \<or> ttlFor req = None")
  case True
  then show ?thesis
    using assms by (auto simp: handleOne_def wp_simps served_from_def intro: wp_mono[OF wp_proxyUpstream[OF assms, of req]])
next
  case False
  then obtain ttl where ttl: "ttlFor req = Some ttl" "req \<noteq> JNull" by auto
  have get: "wp (tryS (redis_get (cacheKey hk req)) (\<lambda>e. ret None)) (\<lambda>r s'. rpc_inv hk s' \<and> rs_upstream s' = rs_upstream s
      \<and> rs_answers s' = rs_answers s \<and> rs_forwarded s' = rs_forwarded s \<and> (\<exists>x. r = Inr x)
      \<and> (\<forall>v. r = Inr (Some v) \<longrightarrow> (\<exists>exp. entry_ok hk (rs_answers s) (cacheKey hk req) v exp \<and> shd (rs_clock s) < exp))) s"
    unfolding wp_tryS by (rule wp_mono[OF wp_redis_get[OF assms]]) (auto simp: wp_simps split: sum.split)
  show ?thesis
    unfolding handleOne_def using ttl
  proof (simp, intro wp_seq[OF get], goal_cases)
    case (2 x t)
    show ?case
    proof (cases x)
      case None
      with 2 show ?thesis
        by (auto intro!: wp_mono[OF wp_fetch_fresh[OF _ ttl(1)]] simp: served_from_def proxyUpstream_cong[of t s])
    next
      case (Some v)
      with 2 obtain exp where e: "entry_ok hk (rs_answers s) (cacheKey hk req) v exp" "shd (rs_clock s) < exp" by auto
      with Some 2 show ?thesis by (fastforce simp: wp_simps served_from_def entry_ok_def ttl)
    qed
  qed auto
qed

subsection \<open>The service\<close>

lemma wp_allS:
  assumes "\<And>x s. I s \<Longrightarrow> wp (f x) (\<lambda>r s'. I s') s" "I s"
  shows "wp (allS f xs) (\<lambda>r s'. I s') s"
  using assms(2)
proof (induction xs arbitrary: s)
  case (Cons x xs)
  obtain r s1 where r: "f x s = (r, s1)" by fastforce
  obtain rs s2 where rs: "allS f xs s1 = (rs, s2)" by fastforce
  have "I s1" by (rule wpD[OF assms(1)[OF Cons.prems] r])
  then have "I s2" by (rule wpD[OF Cons.IH rs])
  then show ?case by (simp add: wp_def r rs)
qed (simp add: wp_def)

text \<open>The service starts with an empty cache; then any requests and warm-ups follow.\<close>

inductive rpc_reachable :: "(string \<Rightarrow> string) \<Rightarrow> RpcState \<Rightarrow> bool" for hk where
  rpc_start: "rs_entries s = Map.empty \<Longrightarrow> rpc_reachable hk s"
| rpc_post: "rpc_reachable hk s \<Longrightarrow> rpc_reachable hk (snd (post_root hk body s))"
| rpc_warmup: "rpc_reachable hk s \<Longrightarrow> rpc_reachable hk (snd (warmup hk s))"

lemma handleOne_keeps: "rpc_inv hk s \<Longrightarrow> wp (handleOne hk req) (\<lambda>r s'. rpc_inv hk s') s"
  by (rule wp_mono[OF wp_handleOne]) auto

lemma post_root_keeps: "rpc_inv hk s \<Longrightarrow> wp (post_root hk body) (\<lambda>r s'. rpc_inv hk s') s"
  unfolding post_root_def
proof (cases body)
  case (Some req)
  assume inv: "rpc_inv hk s"
  have "wp (bindS (allS (handleOne hk) reqs) (\<lambda>rs. ret (JArr rs))) (\<lambda>r s'. rpc_inv hk s') s" for reqs
    by (rule wp_seq[OF wp_allS[of "rpc_inv hk", OF handleOne_keeps inv]]) (auto simp: wp_simps)
  then show "wp (case body of None \<Rightarrow> throw TypeError
     | Some (JArr reqs) \<Rightarrow> bindS (allS (handleOne hk) reqs) (\<lambda>rs. ret (JArr rs))
     | Some req \<Rightarrow> handleOne hk req) (\<lambda>r s'. rpc_inv hk s') s"
    using Some inv by (cases req) (simp_all add: handleOne_keeps)
qed (simp add: wp_simps)

lemma warmup_keeps: "rpc_inv hk s \<Longrightarrow> wp (warmup hk) (\<lambda>r s'. rpc_inv hk s') s"
  unfolding warmup_def
  by (rule wp_seq[OF wp_mapS[where I = "rpc_inv hk" and G = "\<lambda>_ _. True"]])
    (auto simp: wp_simps split: sum.split intro!: wp_mono[OF handleOne_keeps])

lemma reachable_rpc_inv: "rpc_reachable hk s \<Longrightarrow> rpc_inv hk s"
proof (induction rule: rpc_reachable.induct)
  case (rpc_post s body)
  show ?case by (rule wpD[OF post_root_keeps[OF rpc_post.IH] prod.collapse[symmetric]])
next
  case (rpc_warmup s)
  show ?case by (rule wpD[OF warmup_keeps[OF rpc_warmup.IH] prod.collapse[symmetric]])
qed (auto simp: rpc_inv_def)

text \<open>C33: whatever requests the service has served, an answer is either what the upstream node answers to this
  very request, or comes from the cache: then the method is one that may be cached, an earlier request with the
  same key was answered with a result and no error, the reply is that result under the identifier of the
  new request, and the answer is younger than the time to live of its method.\<close>

theorem answers_are_fresh_or_recent:
  assumes "rpc_reachable hk s" "handleOne hk req s = (Inr res, s')"
  shows "served_from hk req s res s'"
  using wpD[OF wp_handleOne[OF reachable_rpc_inv[OF assms(1)]] assms(2)] by blast

text \<open>A run: the block number is asked twice in half a second, under two identifiers.\<close>

definition toy_req :: "int \<Rightarrow> json" where
  "toy_req i = JObj [(''jsonrpc'', JStr ''2.0''), (''id'', JNum i), (''method'', JStr ''eth_blockNumber''), (''params'', JArr [])]"

definition toy_rpc :: RpcState where
  "toy_rpc = \<lparr>rs_entries = Map.empty, rs_clock = 1000 ## sconst 1500, rs_redis = sconst None,
     rs_upstream = sconst (Inr \<lparr>ur_status = 200, ur_statusText = ''OK'', ur_contentType = Some ''application/json'', ur_text = [],
        ur_json = Some (JObj [(''jsonrpc'', JStr ''2.0''), (''id'', JNum 1), (''result'', JStr ''0x10'')])\<rparr>),
     rs_forwarded = [], rs_answers = []\<rparr>"

lemmas rpc_run = handleOne_def fetch_fresh_def bindS_apply tryS_def redis_get_def redis_setex_def proxyUpstream_def
  ttlFor_def rpc_method_def first_param_def cacheable_def Let_def

lemma toy_run:
  obtains s s' where "post_root id (Some (toy_req 7)) toy_rpc = (Inr (JObj [(''jsonrpc'', JStr ''2.0''), (''id'', JNum 1), (''result'', JStr ''0x10'')]), s)"
    "handleOne id (toy_req 8) s = (Inr (JObj [(''jsonrpc'', JStr ''2.0''), (''result'', JStr ''0x10''), (''id'', JNum 8)]), s')"
    "rs_forwarded s = [toy_req 7]" "rs_forwarded s' = [toy_req 7]"
proof -
  have k: "cacheKey id (toy_req 7) = cacheKey id (toy_req 8)" by (simp add: cacheKey_def canon_def toy_req_def)
  have m: "ttlFor (toy_req n) = Some 1" for n by (simp add: ttlFor_def rpc_method_def toy_req_def CACHE_TTL_def NEVER_CACHE_def as_str_def)
  have nn: "toy_req n \<noteq> JNull" for n by (simp add: toy_req_def)
  have p: "post_root id (Some (toy_req 7)) = handleOne id (toy_req 7)" by (simp add: post_root_def toy_req_def)
  have w: "with_id (JObj [(''jsonrpc'', JStr ''2.0''), (''result'', JStr ''0x10'')]) (toy_req 8)
      = JObj [(''jsonrpc'', JStr ''2.0''), (''result'', JStr ''0x10''), (''id'', JNum 8)]"
    by (simp add: with_id_def toy_req_def)
  have c: "is_part_of ''application/json'' (default_to [] (Some ''application/json''))" by code_simp
  show ?thesis
    by (rule that) (simp add: p c handleOne_def fetch_fresh_def bindS_apply tryS_def redis_get_def redis_setex_def
      proxyUpstream_def k m nn toy_rpc_def cacheable_def cached_value_def Let_def w)+
qed

theorem answers_are_fresh_or_recent_witness:
  "\<exists>s s' r. served_from id (toy_req 8) s r s' \<and> rs_forwarded s = [toy_req 7] \<and> rs_forwarded s' = [toy_req 7]"
proof -
  obtain s r s' r' where s: "post_root id (Some (toy_req 7)) toy_rpc = (Inr r, s)" "handleOne id (toy_req 8) s = (Inr r', s')"
    "rs_forwarded s = [toy_req 7]" "rs_forwarded s' = [toy_req 7]" by (rule toy_run) auto
  have "rpc_reachable id s"
    using rpc_post[OF rpc_start, of toy_rpc id "Some (toy_req 7)"] s(1) by (simp add: toy_rpc_def)
  from answers_are_fresh_or_recent[OF this s(2)] s show ?thesis by blast
qed

end
