(* ===== verification/Indexer.thy ===== *)
theory Indexer
  imports JsData AnchorService
begin

text \<open>
  The event indexer (\<open>services/indexer/src\<close>: \<open>config.ts\<close>, \<open>abis.ts\<close>, \<open>index.ts\<close>) over the tables of migration 002.
  The chain is a parameter: its logs in order and its blocks, with \<open>eth_getLogs\<close> a filter of the logs up to
  the present head.  Heads, failures of the node and failures of statements are streams; a statement that
  fails, a commit included, changes nothing.  Decoding a log against an ABI (viem's
  \<open>decodeEventLog\<close>) is the parameter \<open>dec\<close>.  Metrics and logging are left out.
\<close>

subsection \<open>Configuration and ABIs\<close>

text \<open>A number of the configuration is \<open>None\<close> when its text is no integer; \<open>BigInt\<close> of it then throws.\<close>

record IndexerConfig =
  ic_batchSize :: "int option"
  ic_confirmations :: "int option"

definition env_number :: "env \<Rightarrow> string \<Rightarrow> int \<Rightarrow> int option" where
  "env_number env name dflt = (case env name of None \<Rightarrow> Some dflt | Some v \<Rightarrow> js_Number v)"

definition loadIndexerConfig :: "env \<Rightarrow> IndexerConfig" where
  "loadIndexerConfig env = \<lparr>ic_batchSize = env_number env ''BATCH_SIZE'' 200, ic_confirmations = env_number env ''CONFIRMATIONS'' 1\<rparr>"

definition AbiRegistry :: "(string \<times> string list) list" where
  "AbiRegistry =
    [(''ContractRegistry'',
       [''event ContractRegistered(bytes32 indexed name, uint64 indexed version, address addr)'',
        ''event ActiveVersionChanged(bytes32 indexed name, uint64 indexed version, address addr)'',
        ''event ContractDeactivated(bytes32 indexed name, uint64 indexed version)'']),
     (''AnchorRegistry'',
       [''event AnchorRecorded(uint256 indexed anchorId, bytes32 merkleRoot, uint64 blockFrom, uint64 blockTo, uint64 eventCount, bytes32 anchorChain)'',
        ''event ExternalAnchorConfirmed(uint256 indexed anchorId, bytes32 anchorChain, bytes32 anchorTxHash)'']),
     (''GovernanceContract'',
       [''event ProposalCreated(uint256 indexed id, address indexed proposer, address target, string description)'',
        ''event ProposalApproved(uint256 indexed id, address indexed approver, uint32 approvalCount)'',
        ''event ProposalExecuted(uint256 indexed id, bytes returnData)'',
        ''event ProposalCancelled(uint256 indexed id)'',
        ''event EmergencyPauseChanged(bool paused)'',
        ''event ApprovalThresholdChanged(uint32 oldThreshold, uint32 newThreshold)'']),
     (''HaraPalmOil'',
       [''event TransferSingle(address indexed operator, address indexed from, address indexed to, uint256 id, uint256 value)'',
        ''event TransferBatch(address indexed operator, address indexed from, address indexed to, uint256[] ids, uint256[] values)'',
        ''event BatchMinted(uint256 indexed batchId, address indexed firstOwner, uint256 liters, bytes32 rspoCertificateHash, bytes32 plantationId, uint64 productionDate)'',
        ''event BatchMetadataUpdated(uint256 indexed batchId, bytes32 newRspoCertificateHash)'',
        ''event ApprovalForAll(address indexed account, address indexed operator, bool approved)'']),
     (''TraceabilityBatchRelay'',
       [''event ChainExecuted(address indexed token, uint256 indexed batchId, address indexed initiator, uint16 hopCount, address firstHolder, address finalHolder)''])]"

definition getAbi :: "string \<Rightarrow> string list option" where
  "getAbi name = map_of AbiRegistry name"

subsection \<open>The chain\<close>

record ChainLog =
  lg_blockNumber :: int
  lg_blockHash :: string
  lg_transactionHash :: string
  lg_logIndex :: int
  lg_address :: string
  lg_topics :: "string list"
  lg_data :: string

record BlockMeta =
  bm_hash :: string
  bm_parentHash :: string
  bm_timestamp :: int
  bm_txCount :: nat

record Chain =
  ch_logs :: "ChainLog list"
  ch_block :: "int \<Rightarrow> BlockMeta option"

text \<open>Decoded arguments: viem gives a bigint for the wide integer types and a number for the narrow ones.\<close>

datatype arg = A_bigint int | A_json json | A_array "arg list" | A_object "(string \<times> arg) list"

text \<open>\<open>JSON.parse(JSON.stringify(v, bigintReplacer))\<close>.\<close>

fun bigintReplacer :: "arg \<Rightarrow> json" where
  "bigintReplacer (A_bigint n) = JStr (js_int n)"
| "bigintReplacer (A_json v) = v"
| "bigintReplacer (A_array xs) = JArr (map bigintReplacer xs)"
| "bigintReplacer (A_object fs) = JObj (map (\<lambda>(k, v). (k, bigintReplacer v)) fs)"

text \<open>A decoder takes an ABI, the data and the topics; it throws (\<open>None\<close>) or gives the name and the arguments, if any.\<close>

type_synonym decoder = "string list \<Rightarrow> string \<Rightarrow> string list \<Rightarrow> (string \<times> arg option) option"

definition tryDecode :: "decoder \<Rightarrow> ChainLog \<Rightarrow> string \<Rightarrow> (string \<times> arg option) option" where
  "tryDecode dec log contractName = (case getAbi contractName of None \<Rightarrow> None
     | Some abi \<Rightarrow> dec abi (lg_data log) (lg_topics log))"

subsection \<open>Tables and state\<close>

record WatchedContract =
  wt_address :: string
  wt_name :: string
  wt_fromBlock :: int

record WatchedRow = WatchedContract +
  wt_enabled :: bool

record IndexedEvent =
  ev_block_number :: int
  ev_block_hash :: string
  ev_tx_hash :: string
  ev_log_index :: int
  ev_contract_address :: string
  ev_contract_name :: "string option"
  ev_event_name :: "string option"
  ev_topics :: "string list"
  ev_data :: string
  ev_decoded :: "json option"

record IndexDb =
  id_events :: "IndexedEvent list"
  id_blocks :: "int \<rightharpoonup> BlockMeta"
  id_cursor :: "int option"
  id_watched :: "WatchedRow list"

record Indexer =
  ix_db :: IndexDb
  ix_heads :: "int stream"
  ix_rpc :: "string option stream"
  ix_sql :: "string option stream"

type_synonym 'a ixop = "(Indexer, js_exn, 'a) xop"

definition statement :: "(IndexDb \<Rightarrow> IndexDb) \<Rightarrow> unit ixop" where
  "statement f s = (let s1 = s\<lparr>ix_sql := stl (ix_sql s)\<rparr> in
     case shd (ix_sql s) of None \<Rightarrow> (Inr (), s1\<lparr>ix_db := f (ix_db s)\<rparr>) | Some msg \<Rightarrow> (Inl (PlainError msg), s1))"

definition read_db :: "(IndexDb \<Rightarrow> 'a) \<Rightarrow> 'a ixop" where
  "read_db f = bindS (statement (\<lambda>d. d)) (\<lambda>_. \<lambda>s. (Inr (f (ix_db s)), s))"

text \<open>A call to the node sees the head of its moment.\<close>

definition rpc :: "(int \<Rightarrow> js_exn + 'a) \<Rightarrow> 'a ixop" where
  "rpc f s = (let s1 = s\<lparr>ix_rpc := stl (ix_rpc s), ix_heads := stl (ix_heads s)\<rparr> in
     case shd (ix_rpc s) of None \<Rightarrow> (f (shd (ix_heads s)), s1) | Some msg \<Rightarrow> (Inl (PlainError msg), s1))"

definition ix_getBlockNumber :: "int ixop" where "ix_getBlockNumber = rpc Inr"

definition getLogs :: "Chain \<Rightarrow> string list \<Rightarrow> int \<Rightarrow> int \<Rightarrow> ChainLog list ixop" where
  "getLogs ch addresses from to = rpc (\<lambda>head. Inr (filter (\<lambda>l. from \<le> lg_blockNumber l \<and> lg_blockNumber l \<le> to
     \<and> lg_blockNumber l \<le> head \<and> to_lower (lg_address l) \<in> to_lower ` set addresses) (ch_logs ch)))"

definition ix_getBlock :: "Chain \<Rightarrow> int \<Rightarrow> BlockMeta ixop" where
  "ix_getBlock ch n = rpc (\<lambda>head. case if n \<le> head then ch_block ch n else None of
     None \<Rightarrow> Inl (PlainError (''Block at number \"'' @ js_int n @ ''\" could not be found.'')) | Some b \<Rightarrow> Inr b)"

subsection \<open>Indexing a range\<close>

definition loadWatchedContracts :: "WatchedContract list ixop" where
  "loadWatchedContracts = read_db (\<lambda>d. map WatchedContract.truncate (filter wt_enabled (id_watched d)))"

definition getCursor :: "int ixop" where
  "getCursor = read_db (\<lambda>d. default_to (-1) (id_cursor d))"

text \<open>The single row of \<open>indexer_state\<close>, when it exists.\<close>

definition put_cursor :: "int \<Rightarrow> IndexDb \<Rightarrow> IndexDb" where
  "put_cursor b d = d\<lparr>id_cursor := map_option (\<lambda>_. b) (id_cursor d)\<rparr>"

definition setCursor :: "int \<Rightarrow> unit ixop" where
  "setCursor b = statement (put_cursor b)"

definition event_key :: "IndexedEvent \<Rightarrow> string \<times> string \<times> int" where
  "event_key e = (ev_block_hash e, ev_tx_hash e, ev_log_index e)"

definition insert_event :: "IndexedEvent \<Rightarrow> IndexDb \<Rightarrow> IndexDb" where
  "insert_event e d = (if event_key e \<in> event_key ` set (id_events d) then d else d\<lparr>id_events := id_events d @ [e]\<rparr>)"

definition upsert_block :: "int \<Rightarrow> BlockMeta \<Rightarrow> IndexDb \<Rightarrow> IndexDb" where
  "upsert_block n m d = d\<lparr>id_blocks := (id_blocks d)(n \<mapsto> m)\<rparr>"

text \<open>\<open>new Map(contracts.map(...))\<close>: the last entry of an address counts.\<close>

definition addressToName :: "WatchedContract list \<Rightarrow> string \<Rightarrow> string option" where
  "addressToName contracts = map_of (rev (map (\<lambda>c. (to_lower (wt_address c), wt_name c)) contracts))"

definition event_row_of :: "decoder \<Rightarrow> WatchedContract list \<Rightarrow> ChainLog \<Rightarrow> IndexedEvent" where
  "event_row_of dec contracts log =
     (let addr = to_lower (lg_address log); contractName = addressToName contracts addr;
          result = (case contractName of None \<Rightarrow> None | Some n \<Rightarrow> if n = [] then None else tryDecode dec log n)
      in \<lparr>ev_block_number = lg_blockNumber log, ev_block_hash = lg_blockHash log, ev_tx_hash = lg_transactionHash log,
        ev_log_index = lg_logIndex log, ev_contract_address = addr, ev_contract_name = contractName,
        ev_event_name = map_option fst result, ev_topics = lg_topics log, ev_data = lg_data log,
        ev_decoded = (case result of Some (n, Some args) \<Rightarrow> Some (bigintReplacer args) | _ \<Rightarrow> None)\<rparr>)"

text \<open>The statements of a database transaction: all of them take effect, or none.\<close>

definition transaction :: "unit ixop \<Rightarrow> unit ixop" where
  "transaction body s =
     (case bindS (statement (\<lambda>d. d)) (\<lambda>_. bindS body (\<lambda>_. statement (\<lambda>d. d))) s of
        (Inr _, s1) \<Rightarrow> (Inr (), s1)
      | (Inl e, s1) \<Rightarrow> bindS (statement (\<lambda>d. d)) (\<lambda>_. throw e) (s1\<lparr>ix_db := ix_db s\<rparr>))"

definition uniqueBlocks :: "ChainLog list \<Rightarrow> int \<Rightarrow> int list" where
  "uniqueBlocks logs to = rev (remdups (rev (map lg_blockNumber logs @ [to])))"

definition persistRange :: "decoder \<Rightarrow> WatchedContract list \<Rightarrow> ChainLog list \<Rightarrow> (int \<times> BlockMeta) list \<Rightarrow> int \<Rightarrow> unit ixop" where
  "persistRange dec contracts logs blocks to = transaction (
     bindS (mapS (\<lambda>(n, m). statement (upsert_block n m)) blocks) (\<lambda>_.
     bindS (mapS (\<lambda>l. statement (insert_event (event_row_of dec contracts l))) logs) (\<lambda>_.
     setCursor to)))"

definition indexRange :: "decoder \<Rightarrow> Chain \<Rightarrow> WatchedContract list \<Rightarrow> int \<Rightarrow> int \<Rightarrow> unit ixop" where
  "indexRange dec ch contracts from to =
     (if contracts = [] then setCursor to
      else
        bindS (getLogs ch (map wt_address contracts) from to) (\<lambda>logs.
        bindS (mapS (\<lambda>n. bindS (ix_getBlock ch n) (\<lambda>b. ret (n, b))) (uniqueBlocks logs to)) (\<lambda>blocks.
        persistRange dec contracts logs blocks to)))"

definition BigInt_number :: "int option \<Rightarrow> int ixop" where
  "BigInt_number n = (case n of None \<Rightarrow> throw RangeError | Some v \<Rightarrow> ret v)"

definition tickOnce :: "IndexerConfig \<Rightarrow> decoder \<Rightarrow> Chain \<Rightarrow> WatchedContract list \<Rightarrow> unit ixop" where
  "tickOnce cfg dec ch contracts =
     bindS ix_getBlockNumber (\<lambda>head.
     bindS (BigInt_number (ic_confirmations cfg)) (\<lambda>conf.
     let target = head - conf in
     bindS getCursor (\<lambda>cursor.
     if target \<le> cursor then ret ()
     else (let from = cursor + 1 in
       bindS (BigInt_number (ic_batchSize cfg)) (\<lambda>batch.
       let to = (if from + batch - 1 > target then target else from + batch - 1) in
       indexRange dec ch contracts from to)))))"

subsection \<open>The process\<close>

text \<open>The contracts are loaded once, when the process starts; a tick that throws is logged and the loop goes on
  from the state it left.  Between two ticks the process may be started anew, and operators may change the
  table of watched contracts.\<close>

inductive indexer_step ::
  "IndexerConfig \<Rightarrow> decoder \<Rightarrow> Chain \<Rightarrow> WatchedContract list \<times> Indexer \<Rightarrow> WatchedContract list \<times> Indexer \<Rightarrow> bool"
  for cfg dec ch where
  ix_tick: "indexer_step cfg dec ch (cs, s) (cs, snd (tickOnce cfg dec ch cs s))"
| ix_boot: "loadWatchedContracts s = (Inr cs', s') \<Longrightarrow> indexer_step cfg dec ch (cs, s) (cs', s')"
| ix_crash: "loadWatchedContracts s = (Inl e, s') \<Longrightarrow> indexer_step cfg dec ch (cs, s) (cs, s')"
| ix_watch: "indexer_step cfg dec ch (cs, s) (cs, s\<lparr>ix_db := (ix_db s)\<lparr>id_watched := rows\<rparr>\<rparr>)"

end
