(* ===== verification/IndexerClaims.thy ===== *)
theory IndexerClaims
  imports Indexer "HOL-Library.Sublist"
begin

text \<open>
  Correctness of the indexer: what the transaction of a range does to the tables, the specification of the
  event table as the filtered prefix of the chain up to the cursor, and what a restart with more
  contracts does not bring back.
\<close>

subsection \<open>Statements and transactions\<close>

lemma wp_statement [wp_simps]:
  "wp (statement f) P s = (case shd (ix_sql s) of None \<Rightarrow> P (Inr ()) (s\<lparr>ix_sql := stl (ix_sql s), ix_db := f (ix_db s)\<rparr>)
     | Some msg \<Rightarrow> P (Inl (PlainError msg)) (s\<lparr>ix_sql := stl (ix_sql s)\<rparr>))"
  by (simp add: wp_def statement_def Let_def split: option.split)

lemma wp_read_db [wp_simps]:
  "wp (read_db f) P s = (let s1 = s\<lparr>ix_sql := stl (ix_sql s)\<rparr> in
     case shd (ix_sql s) of None \<Rightarrow> P (Inr (f (ix_db s))) s1 | Some msg \<Rightarrow> P (Inl (PlainError msg)) s1)"
  by (simp add: wp_def read_db_def bindS_apply statement_def Let_def split: option.split)

lemma wp_rpc [wp_simps]:
  "wp (rpc f) P s = (let s1 = s\<lparr>ix_rpc := stl (ix_rpc s), ix_heads := stl (ix_heads s)\<rparr> in
     case shd (ix_rpc s) of None \<Rightarrow> P (f (shd (ix_heads s))) s1 | Some msg \<Rightarrow> P (Inl (PlainError msg)) s1)"
  by (simp add: wp_def rpc_def Let_def split: option.split)

lemma wp_statements:
  "wp (mapS (\<lambda>x. statement (f x)) xs) (\<lambda>r s'. ix_heads s' = ix_heads s \<and> (\<forall>ys. r = Inr ys \<longrightarrow> ix_db s' = fold f xs (ix_db s))) s"
proof (induction xs arbitrary: s)
  case (Cons x xs)
  let ?s = "s\<lparr>ix_sql := stl (ix_sql s), ix_db := f x (ix_db s)\<rparr>"
  have "wp (bindS (mapS (\<lambda>x. statement (f x)) xs) (\<lambda>ys. ret (y # ys)))
      (\<lambda>r s'. ix_heads s' = ix_heads s \<and> (\<forall>ys. r = Inr ys \<longrightarrow> ix_db s' = fold f (x # xs) (ix_db s))) ?s" for y
    by (rule wp_seq[OF Cons.IH]) (auto simp: wp_simps)
  then show ?case by (simp add: wp_bindS wp_statement split: option.split)
qed (simp add: wp_simps)

lemma wp_transaction:
  assumes "\<And>s1. ix_db s1 = ix_db s \<Longrightarrow> ix_heads s1 = ix_heads s \<Longrightarrow>
     wp body (\<lambda>r s'. ix_heads s' = ix_heads s \<and> (\<forall>y. r = Inr y \<longrightarrow> ix_db s' = d)) s1"
  shows "wp (transaction body) (\<lambda>r s'. ix_heads s' = ix_heads s \<and> ix_db s' = (case r of Inr _ \<Rightarrow> d | Inl _ \<Rightarrow> ix_db s)) s"
proof -
  have "wp (bindS (statement (\<lambda>d. d)) (\<lambda>_. bindS body (\<lambda>_. statement (\<lambda>d. d))))
      (\<lambda>r s'. ix_heads s' = ix_heads s \<and> (\<forall>y. r = Inr y \<longrightarrow> ix_db s' = d)) s"
    by (auto simp: wp_bindS wp_statement split: option.split intro!: wp_mono[OF assms] split: sum.split)
  then show ?thesis
    by (auto simp: wp_def transaction_def bindS_apply statement_def Let_def throw_def split: prod.splits sum.splits option.splits)
qed

lemma fold_upsert: "id_events (fold (\<lambda>(n, m). upsert_block n m) bs d) = id_events d"
  "id_cursor (fold (\<lambda>(n, m). upsert_block n m) bs d) = id_cursor d"
  "id_watched (fold (\<lambda>(n, m). upsert_block n m) bs d) = id_watched d"
  by (induction bs arbitrary: d) (auto simp: upsert_block_def)

text \<open>Rows with new keys are appended in order.\<close>

lemma fold_insert_new:
  assumes "distinct (map event_key es)" "event_key ` set es \<inter> event_key ` set (id_events d) = {}"
  shows "fold insert_event es d = d\<lparr>id_events := id_events d @ es\<rparr>"
  using assms
proof (induction es arbitrary: d)
  case (Cons e es)
  then have "insert_event e d = d\<lparr>id_events := id_events d @ [e]\<rparr>" by (auto simp: insert_event_def)
  with Cons show ?case by auto
qed simp

text \<open>What a range leaves behind when its transaction commits.\<close>

definition range_db :: "decoder \<Rightarrow> WatchedContract list \<Rightarrow> ChainLog list \<Rightarrow> (int \<times> BlockMeta) list \<Rightarrow> int \<Rightarrow> IndexDb \<Rightarrow> IndexDb" where
  "range_db dec cs logs blocks to d =
     put_cursor to (fold insert_event (map (event_row_of dec cs) logs) (fold (\<lambda>(n, m). upsert_block n m) blocks d))"

lemma wp_persistRange:
  "wp (persistRange dec cs logs blocks to) (\<lambda>r s'. ix_heads s' = ix_heads s
     \<and> ix_db s' = (case r of Inr _ \<Rightarrow> range_db dec cs logs blocks to (ix_db s) | Inl _ \<Rightarrow> ix_db s)) s"
  unfolding persistRange_def
proof (rule wp_transaction)
  fix s1 :: Indexer assume s1: "ix_db s1 = ix_db s" "ix_heads s1 = ix_heads s"
  have eq: "(\<lambda>(n, m). statement (upsert_block n m)) = (\<lambda>x. statement ((\<lambda>(n, m). upsert_block n m) x))" by auto
  let ?P = "\<lambda>r s'. ix_heads s' = ix_heads s \<and> (\<forall>y. r = Inr y \<longrightarrow> ix_db s' = range_db dec cs logs blocks to (ix_db s))"
  have events: "wp (bindS (mapS (\<lambda>l. statement (insert_event (event_row_of dec cs l))) logs) (\<lambda>_. setCursor to)) ?P s2"
    if "ix_heads s2 = ix_heads s" "ix_db s2 = fold (\<lambda>(n, m). upsert_block n m) blocks (ix_db s)" for s2
    by (rule wp_seq[OF wp_statements])
      (use that in \<open>auto simp: setCursor_def wp_statement range_db_def fold_map comp_def split: option.split\<close>)
  show "wp (bindS (mapS (\<lambda>(n, m). statement (upsert_block n m)) blocks)
      (\<lambda>_. bindS (mapS (\<lambda>l. statement (insert_event (event_row_of dec cs l))) logs) (\<lambda>_. setCursor to))) ?P s1"
    unfolding eq by (rule wp_seq[OF wp_statements]) (use s1 events in auto)
qed

subsection \<open>A tick\<close>

text \<open>The node is reached through a pool, so two calls may be answered by different nodes: the heads of successive
  calls need not grow.  The pool keeps up with \<open>k\<close> when no call is answered by a node that is more than \<open>k\<close> blocks behind
  one that has answered before.\<close>

definition nodes_keep_up :: "int \<Rightarrow> int stream \<Rightarrow> bool" where
  "nodes_keep_up k hs \<longleftrightarrow> (\<forall>i j. i \<le> j \<longrightarrow> hs !! i - k \<le> hs !! j)"

definition pool_keeps_up :: "IndexerConfig \<Rightarrow> Indexer \<Rightarrow> bool" where
  "pool_keeps_up cfg s \<longleftrightarrow> (\<exists>k. ic_confirmations cfg = Some k \<and> nodes_keep_up k (ix_heads s))"

text \<open>The calls that were made are gone from the stream of heads.\<close>

definition calls_made :: "Indexer \<Rightarrow> Indexer \<Rightarrow> bool" where
  "calls_made s s' \<longleftrightarrow> (\<exists>n. ix_heads s' = sdrop n (ix_heads s))"

lemma calls_made_intros: "ix_heads s' = ix_heads s \<Longrightarrow> calls_made s s'" "ix_heads s' = stl (ix_heads s) \<Longrightarrow> calls_made s s'"
  unfolding calls_made_def by (metis sdrop.simps(1)) (metis sdrop.simps)

lemma calls_made_trans: "calls_made s t \<Longrightarrow> calls_made t u \<Longrightarrow> calls_made s u"
  unfolding calls_made_def by (metis sdrop_add)

lemma calls_made_heads: "calls_made s t \<Longrightarrow> sset (ix_heads t) \<subseteq> sset (ix_heads s)"
  by (auto simp: calls_made_def sset_range sdrop_snth)

lemma pool_keeps_up_later: "pool_keeps_up cfg s \<Longrightarrow> calls_made s t \<Longrightarrow> pool_keeps_up cfg t"
  by (auto simp: pool_keeps_up_def nodes_keep_up_def calls_made_def sdrop_snth)

lemma keep_up_later: "nodes_keep_up k hs \<Longrightarrow> h \<in> sset (stl hs) \<Longrightarrow> shd hs - k \<le> h"
  unfolding nodes_keep_up_def sset_range by (metis imageE snth.simps zero_le)

definition watched :: "WatchedContract list \<Rightarrow> string set" where
  "watched cs = to_lower ` set (map wt_address cs)"

definition logs_in :: "Chain \<Rightarrow> WatchedContract list \<Rightarrow> int \<Rightarrow> int \<Rightarrow> ChainLog list" where
  "logs_in ch cs lo hi = filter (\<lambda>l. lo < lg_blockNumber l \<and> lg_blockNumber l \<le> hi \<and> to_lower (lg_address l) \<in> watched cs) (ch_logs ch)"

lemma logs_in_cut:
  "filter (\<lambda>l. lo + 1 \<le> lg_blockNumber l \<and> lg_blockNumber l \<le> hi \<and> lg_blockNumber l \<le> h
     \<and> to_lower (lg_address l) \<in> to_lower ` set (map wt_address cs)) (ch_logs ch) = logs_in ch cs lo (min hi h)"
  unfolding logs_in_def watched_def by (intro filter_cong) auto

text \<open>The blocks read for a range do not matter for the events.\<close>

lemma wp_blocks: "wp (mapS (\<lambda>n. bindS (ix_getBlock ch n) (\<lambda>b. ret (n, b))) ns) (\<lambda>r s'. calls_made s s' \<and> ix_db s' = ix_db s) s"
proof -
  have one: "wp (bindS (ix_getBlock ch n) (\<lambda>b. ret (n, b))) (\<lambda>r s'. (calls_made s s' \<and> ix_db s' = ix_db s)
      \<and> (\<forall>y. r = Inr y \<longrightarrow> True)) t" if "calls_made s t \<and> ix_db t = ix_db s" for n t
    using that calls_made_trans[OF _ calls_made_intros(2), of s t]
    by (auto simp: ix_getBlock_def wp_simps Let_def split: option.split sum.split)
  show ?thesis
    by (auto intro!: wp_mono[OF wp_mapS[where I = "\<lambda>t. calls_made s t \<and> ix_db t = ix_db s" and G = "\<lambda>_ _. True", OF _ one]] calls_made_intros(1))
qed

text \<open>What a tick may do to the tables: nothing, or index a range that starts after the cursor; the logs are
  those the answering node has, and when \<open>whole\<close> holds that node has all blocks of the range.\<close>

definition tick_effect :: "decoder \<Rightarrow> Chain \<Rightarrow> WatchedContract list \<Rightarrow> bool \<Rightarrow> IndexDb \<Rightarrow> IndexDb \<Rightarrow> bool" where
  "tick_effect dec ch cs whole d d' \<longleftrightarrow> d' = d
   \<or> (\<exists>to h blocks. default_to (-1) (id_cursor d) < to \<and> (whole \<longrightarrow> to \<le> h)
        \<and> d' = range_db dec cs (logs_in ch cs (default_to (-1) (id_cursor d)) (min to h)) blocks to d)"

lemma tick_effectI:
  "d' = d \<or> (\<exists>h\<in>H. \<exists>blocks. d' = range_db dec cs (logs_in ch cs c (min to h)) blocks to d) \<Longrightarrow> c = default_to (-1) (id_cursor d)
    \<Longrightarrow> c < to \<Longrightarrow> (\<And>h. h \<in> H \<Longrightarrow> whole \<longrightarrow> to \<le> h) \<Longrightarrow> tick_effect dec ch cs whole d d'"
  unfolding tick_effect_def by blast

lemma wp_indexRange:
  "wp (indexRange dec ch cs (lo + 1) to) (\<lambda>r s'. calls_made s s' \<and> (ix_db s' = ix_db s
     \<or> (\<exists>h\<in>sset (ix_heads s). \<exists>blocks. ix_db s' = range_db dec cs (logs_in ch cs lo (min to h)) blocks to (ix_db s)))) s"
proof (cases "cs = []")
  case True
  have "range_db dec [] (logs_in ch [] lo (min to h)) [] to d = put_cursor to d" for d h
    by (simp add: range_db_def logs_in_def watched_def)
  then have "\<exists>h\<in>sset (ix_heads s). \<exists>blocks. put_cursor to d = range_db dec [] (logs_in ch [] lo (min to h)) blocks to d" for d
    by (metis shd_sset)
  then show ?thesis
    using True by (auto simp: indexRange_def setCursor_def wp_statement calls_made_intros split: option.split)
next
  case False
  have get: "wp (getLogs ch (map wt_address cs) (lo + 1) to) (\<lambda>r s'. calls_made s s' \<and> ix_db s' = ix_db s
      \<and> (\<forall>ls. r = Inr ls \<longrightarrow> ls = logs_in ch cs lo (min to (shd (ix_heads s))))) s"
    unfolding getLogs_def logs_in_cut by (auto simp: wp_rpc Let_def intro: calls_made_intros split: option.split)
  show ?thesis
    unfolding indexRange_def if_not_P[OF False]
  proof (rule wp_seq[OF get], goal_cases)
    case (2 ls t)
    then have t: "calls_made s t" "ix_db t = ix_db s" "ls = logs_in ch cs lo (min to (shd (ix_heads s)))" by auto
    show ?case
    proof (rule wp_seq[OF wp_blocks], goal_cases)
      case (2 blocks u)
      then have u: "calls_made s u" "ix_db u = ix_db s" using t calls_made_trans by auto
      show ?case
        by (rule wp_mono[OF wp_persistRange])
          (use u t(3) in \<open>auto intro: calls_made_trans[OF u(1)] calls_made_intros bexI[OF _ shd_sset] split: sum.splits\<close>)
    qed (use t calls_made_trans in auto)
  qed auto
qed

lemma wp_tickOnce:
  assumes "ic_confirmations cfg = Some conf" "ic_batchSize cfg = Some batch" "1 \<le> batch"
  shows "wp (tickOnce cfg dec ch cs) (\<lambda>r s'. calls_made s s'
     \<and> tick_effect dec ch cs (nodes_keep_up conf (ix_heads s)) (ix_db s) (ix_db s')) s"
proof -
  have head: "wp ix_getBlockNumber (\<lambda>r s'. ix_heads s' = stl (ix_heads s) \<and> ix_db s' = ix_db s
      \<and> (\<forall>n. r = Inr n \<longrightarrow> n = shd (ix_heads s))) s"
    by (auto simp: ix_getBlockNumber_def wp_rpc Let_def split: option.split)
  have cur: "wp getCursor (\<lambda>r s'. ix_heads s' = ix_heads t \<and> ix_db s' = ix_db t
      \<and> (\<forall>c. r = Inr c \<longrightarrow> c = default_to (-1) (id_cursor (ix_db t)))) t" for t
    by (auto simp: getCursor_def wp_read_db Let_def split: option.split)
  show ?thesis
    unfolding tickOnce_def
  proof (rule wp_seq[OF head], goal_cases)
    case (2 n t)
    then have t: "ix_heads t = stl (ix_heads s)" "ix_db t = ix_db s" "n = shd (ix_heads s)" by auto
    show ?case
      unfolding BigInt_number_def assms(1,2) Let_def option.case bindS_ret
    proof (rule wp_seq[OF cur], goal_cases)
      case (2 c u)
      then have u: "ix_heads u = stl (ix_heads s)" "ix_db u = ix_db s" "c = default_to (-1) (id_cursor (ix_db s))" using t by auto
      define to where "to = (if n - conf < c + 1 + batch - 1 then n - conf else c + 1 + batch - 1)"
      show ?case
      proof (cases "n - conf \<le> c")
        case True
        with u show ?thesis by (auto simp: wp_simps tick_effect_def calls_made_intros)
      next
        case False
        then have to: "c < to" "to \<le> n - conf" using assms(3) by (auto simp: to_def)
        have whole: "nodes_keep_up conf (ix_heads s) \<longrightarrow> to \<le> h" if "h \<in> sset (ix_heads u)" for h
          using keep_up_later[of conf "ix_heads s" h] that to(2) t(3) u(1) by force
        show ?thesis
          unfolding if_not_P[OF False] to_def[symmetric]
          by (rule wp_mono[OF wp_indexRange])
            (use u(2,3) to(1) whole calls_made_trans[OF calls_made_intros(2)[OF u(1)]] in \<open>auto intro: tick_effectI\<close>)
      qed
    qed (use t in \<open>auto simp: tick_effect_def calls_made_intros\<close>)
  qed (auto simp: tick_effect_def calls_made_intros)
qed

subsection \<open>The event table is a prefix of the chain\<close>

definition log_key :: "ChainLog \<Rightarrow> string \<times> string \<times> int" where
  "log_key l = (lg_blockHash l, lg_transactionHash l, lg_logIndex l)"

lemma event_key_row [simp]: "event_key (event_row_of dec cs l) = log_key l"
  by (simp add: event_row_of_def event_key_def log_key_def Let_def)

definition chain_ok :: "Chain \<Rightarrow> bool" where
  "chain_ok ch \<longleftrightarrow> sorted (map lg_blockNumber (ch_logs ch)) \<and> distinct (map log_key (ch_logs ch))"

lemma filter_window:
  fixes f :: "'a \<Rightarrow> int"
  assumes "sorted (map f xs)" "a \<le> b" "b \<le> c"
  shows "filter (\<lambda>x. a < f x \<and> f x \<le> b \<and> P x) xs @ filter (\<lambda>x. b < f x \<and> f x \<le> c \<and> P x) xs
    = filter (\<lambda>x. a < f x \<and> f x \<le> c \<and> P x) xs"
  using assms(1)
proof (induction xs)
  case (Cons x xs)
  show ?case
  proof (cases "f x \<le> b")
    case True
    with Cons assms(2,3) show ?thesis by auto
  next
    case False
    with Cons.prems have "filter (\<lambda>x. a < f x \<and> f x \<le> b \<and> P x) (x # xs) = []" by (auto simp: filter_empty_conv)
    moreover have "filter (\<lambda>x. b < f x \<and> f x \<le> c \<and> P x) (x # xs) = filter (\<lambda>x. a < f x \<and> f x \<le> c \<and> P x) (x # xs)"
      using False Cons.prems assms(2) by (intro filter_cong) auto
    ultimately show ?thesis by simp
  qed
qed simp

lemma logs_in_split: "chain_ok ch \<Longrightarrow> a \<le> b \<Longrightarrow> b \<le> c \<Longrightarrow> logs_in ch cs a b @ logs_in ch cs b c = logs_in ch cs a c"
  unfolding logs_in_def chain_ok_def by (rule filter_window) auto

lemma logs_in_keys: "chain_ok ch \<Longrightarrow> distinct (map log_key (logs_in ch cs a b))"
  by (simp add: chain_ok_def logs_in_def distinct_map_filter)

lemma same_key: "chain_ok ch \<Longrightarrow> l \<in> set (ch_logs ch) \<Longrightarrow> l' \<in> set (ch_logs ch) \<Longrightarrow> log_key l = log_key l' \<Longrightarrow> l = l'"
  by (auto simp: chain_ok_def distinct_map dest: inj_onD)

text \<open>The specification: the rows of the watched logs above the first cursor, up to the cursor, in the order of the chain.\<close>

definition indexed_upto :: "decoder \<Rightarrow> Chain \<Rightarrow> WatchedContract list \<Rightarrow> int \<Rightarrow> IndexDb \<Rightarrow> bool" where
  "indexed_upto dec ch cs c0 d \<longleftrightarrow> (\<exists>c. id_cursor d = Some c \<and> c0 \<le> c
     \<and> id_events d = map (event_row_of dec cs) (logs_in ch cs c0 c))"

text \<open>Whatever node answers: some of these rows, in the same order.\<close>

definition indexed_part :: "decoder \<Rightarrow> Chain \<Rightarrow> WatchedContract list \<Rightarrow> int \<Rightarrow> IndexDb \<Rightarrow> bool" where
  "indexed_part dec ch cs c0 d \<longleftrightarrow> (\<exists>c. id_cursor d = Some c \<and> c0 \<le> c
     \<and> subseq (id_events d) (map (event_row_of dec cs) (logs_in ch cs c0 c)))"

lemma indexed_is_part: "indexed_upto dec ch cs c0 d \<Longrightarrow> indexed_part dec ch cs c0 d"
  by (auto simp: indexed_upto_def indexed_part_def)

lemma subseq_set: "subseq xs ys \<Longrightarrow> x \<in> set xs \<Longrightarrow> x \<in> set ys"
  by (auto dest: list_emb_set)

text \<open>The rows of a range are new, so they are appended.\<close>

lemma tick_rows:
  assumes "chain_ok ch" "indexed_part dec ch cs c0 d" "tick_effect dec ch cs whole d d'" "d' \<noteq> d" "id_cursor d = Some c"
  obtains to h where "c < to" "whole \<Longrightarrow> to \<le> h" "id_cursor d' = Some to"
    "id_events d' = id_events d @ map (event_row_of dec cs) (logs_in ch cs c (min to h))"
proof -
  from assms(3-5) obtain to h blocks where to: "c < to" "whole \<longrightarrow> to \<le> h"
    "d' = range_db dec cs (logs_in ch cs c (min to h)) blocks to d"
    by (auto simp: tick_effect_def default_to_def)
  let ?d = "fold (\<lambda>(n, m). upsert_block n m) blocks d"
  let ?new = "map (event_row_of dec cs) (logs_in ch cs c (min to h))"
  have "event_key e \<noteq> log_key l" if "e \<in> set (id_events d)" "l \<in> set (logs_in ch cs c (min to h))" for e l
  proof -
    have "e \<in> set (map (event_row_of dec cs) (logs_in ch cs c0 c))"
      using assms(2,5) subseq_set[OF _ that(1)] by (auto simp: indexed_part_def simp del: set_map)
    then obtain l' where "e = event_row_of dec cs l'" "l' \<in> set (logs_in ch cs c0 c)" by auto
    then show ?thesis using that(2) same_key[OF assms(1), of l l'] by (auto simp: logs_in_def)
  qed
  then have "event_key ` set ?new \<inter> event_key ` set (id_events ?d) = {}"
    unfolding fold_upsert set_map image_image event_key_row by fastforce
  moreover have "distinct (map event_key ?new)"
    using logs_in_keys[OF assms(1)] by (simp add: comp_def)
  ultimately have "fold insert_event ?new ?d = ?d\<lparr>id_events := id_events ?d @ ?new\<rparr>" by (intro fold_insert_new)
  then have "id_events d' = id_events d @ ?new" "id_cursor d' = Some to"
    using to(3) assms(5) by (simp_all add: range_db_def put_cursor_def fold_upsert)
  then show thesis using that to(1,2) by blast
qed

lemma tick_keeps_indexed:
  assumes "chain_ok ch" "indexed_upto dec ch cs c0 d" "tick_effect dec ch cs True d d'"
  shows "indexed_upto dec ch cs c0 d'"
proof (cases "d' = d")
  case False
  obtain c where c: "id_cursor d = Some c" "c0 \<le> c" "id_events d = map (event_row_of dec cs) (logs_in ch cs c0 c)"
    using assms(2) by (auto simp: indexed_upto_def)
  obtain to h where "c < to" "to \<le> h" "id_cursor d' = Some to"
    "id_events d' = id_events d @ map (event_row_of dec cs) (logs_in ch cs c (min to h))"
    by (rule tick_rows[OF assms(1) indexed_is_part[OF assms(2)] assms(3) False c(1)]) auto
  then show ?thesis
    unfolding indexed_upto_def using logs_in_split[OF assms(1) c(2), of to cs, symmetric] c by (auto simp: min_def)
qed (use assms(2) in simp)

lemma tick_keeps_part:
  assumes "chain_ok ch" "indexed_part dec ch cs c0 d" "tick_effect dec ch cs whole d d'"
  shows "indexed_part dec ch cs c0 d'"
proof (cases "d' = d")
  case False
  obtain c where c: "id_cursor d = Some c" "c0 \<le> c" "subseq (id_events d) (map (event_row_of dec cs) (logs_in ch cs c0 c))"
    using assms(2) by (auto simp: indexed_part_def)
  obtain to h where to: "c < to" "id_cursor d' = Some to"
    "id_events d' = id_events d @ map (event_row_of dec cs) (logs_in ch cs c (min to h))"
    by (rule tick_rows[OF assms(1-3) False c(1)]) auto
  have "logs_in ch cs c (min to h) = filter (\<lambda>l. lg_blockNumber l \<le> h) (logs_in ch cs c to)"
    unfolding logs_in_def filter_filter by (intro filter_cong) auto
  then have "subseq (map (event_row_of dec cs) (logs_in ch cs c (min to h))) (map (event_row_of dec cs) (logs_in ch cs c to))"
    by (metis subseq_filter_left subseq_map)
  from list_emb_append_mono[OF c(3) this] show ?thesis
    unfolding indexed_part_def using logs_in_split[OF assms(1) c(2), of to cs] c(2) to by (auto simp flip: map_append)
qed (use assms(2) in simp)

definition healthy_config :: "IndexerConfig \<Rightarrow> bool" where
  "healthy_config cfg \<longleftrightarrow> (case (ic_confirmations cfg, ic_batchSize cfg) of (Some k, Some b) \<Rightarrow> 0 \<le> k \<and> 1 \<le> b | _ \<Rightarrow> False)"

lemma tick_spec:
  assumes "healthy_config cfg"
  shows "calls_made s (snd (tickOnce cfg dec ch cs s))"
    and "tick_effect dec ch cs (pool_keeps_up cfg s) (ix_db s) (ix_db (snd (tickOnce cfg dec ch cs s)))"
proof -
  obtain k b where "ic_confirmations cfg = Some k" "ic_batchSize cfg = Some b" "1 \<le> b"
    using assms by (auto simp: healthy_config_def split: option.splits)
  from wpD[OF wp_tickOnce[OF this] prod.collapse[symmetric]] this(1)
  show "calls_made s (snd (tickOnce cfg dec ch cs s))"
    and "tick_effect dec ch cs (pool_keeps_up cfg s) (ix_db s) (ix_db (snd (tickOnce cfg dec ch cs s)))"
    by (auto simp: pool_keeps_up_def)
qed

definition ticks :: "IndexerConfig \<Rightarrow> decoder \<Rightarrow> Chain \<Rightarrow> WatchedContract list \<Rightarrow> Indexer \<Rightarrow> Indexer \<Rightarrow> bool" where
  "ticks cfg dec ch cs s s' \<longleftrightarrow> s' = snd (tickOnce cfg dec ch cs s)"

text \<open>C11: The event table is the chain, filtered.  However often ticks are run and wherever calls to the node or statements
  of the database fail, the table holds rows of the logs of the watched contracts between the first cursor and the
  present one only, each at most once, in the order of the chain; nothing is written for a range that was
  not finished.  It holds all of them as long as the nodes behind the read pool keep up: no call is
  answered by a node that is more than the configured confirmations behind one that answered before.  Without that a
  log can be lost (\<open>lagging_node_loses_logs\<close>).\<close>

theorem event_table_is_chain_prefix:
  assumes "chain_ok ch" "healthy_config cfg" "id_cursor (ix_db s0) = Some c0" "id_events (ix_db s0) = []"
    and "(ticks cfg dec ch cs)\<^sup>*\<^sup>* s0 s"
  shows "\<exists>c rows. id_cursor (ix_db s) = Some c \<and> c0 \<le> c
    \<and> rows = map (event_row_of dec cs) (filter (\<lambda>l. c0 < lg_blockNumber l \<and> lg_blockNumber l \<le> c
         \<and> to_lower (lg_address l) \<in> to_lower ` set (map wt_address cs)) (ch_logs ch))
    \<and> subseq (id_events (ix_db s)) rows \<and> (pool_keeps_up cfg s0 \<longrightarrow> id_events (ix_db s) = rows)"
proof -
  have "indexed_part dec ch cs c0 (ix_db s) \<and> (pool_keeps_up cfg s0 \<longrightarrow> pool_keeps_up cfg s \<and> indexed_upto dec ch cs c0 (ix_db s))"
    using assms(5)
  proof (induction rule: rtranclp_induct)
    case base
    then show ?case using assms(3,4) by (auto simp: indexed_part_def indexed_upto_def logs_in_def filter_empty_conv)
  next
    case (step y z)
    note spec = tick_spec[OF assms(2), where s = y and dec = dec and ch = ch and cs = cs]
    show ?case
      using step spec tick_keeps_indexed[OF assms(1), of dec cs c0 "ix_db y"] tick_keeps_part[OF assms(1) _ spec(2)]
        pool_keeps_up_later[OF _ spec(1), of cfg] by (auto simp: ticks_def)
  qed
  then show ?thesis by (auto simp: indexed_part_def indexed_upto_def logs_in_def watched_def)
qed

subsection \<open>Contracts that are added later\<close>

lemma row_keys_range:
  "event_key ` set (id_events (range_db dec cs logs blocks to d)) = event_key ` set (id_events d) \<union> log_key ` set logs"
proof -
  have "event_key ` set (id_events (fold insert_event es d)) = event_key ` set (id_events d) \<union> event_key ` set es" for es d
    by (induction es arbitrary: d) (auto simp: insert_event_def)
  then show ?thesis by (simp add: range_db_def put_cursor_def fold_upsert image_image)
qed

lemma cursor_range: "id_cursor d = Some c \<Longrightarrow> id_cursor (range_db dec cs logs blocks to d) = Some to"
proof -
  have "id_cursor (fold insert_event es d) = id_cursor d" for es d
    by (induction es arbitrary: d) (auto simp: insert_event_def)
  then show "id_cursor d = Some c \<Longrightarrow> ?thesis" by (simp add: range_db_def put_cursor_def fold_upsert)
qed

lemma boot_run:
  "loadWatchedContracts s = (r, s') \<Longrightarrow> ix_db s' = ix_db s \<and> ix_heads s' = ix_heads s
     \<and> (\<forall>cs. r = Inr cs \<longrightarrow> cs = map WatchedContract.truncate (filter wt_enabled (id_watched (ix_db s))))"
  using wpD[of loadWatchedContracts "\<lambda>r s'. ix_db s' = ix_db s \<and> ix_heads s' = ix_heads s
     \<and> (\<forall>cs. r = Inr cs \<longrightarrow> cs = map WatchedContract.truncate (filter wt_enabled (id_watched (ix_db s))))" s r s']
  by (auto simp: loadWatchedContracts_def wp_read_db Let_def split: option.splits)

definition missed :: "ChainLog \<Rightarrow> Indexer \<Rightarrow> bool" where
  "missed l s \<longleftrightarrow> (\<exists>c. id_cursor (ix_db s) = Some c \<and> lg_blockNumber l \<le> c) \<and> log_key l \<notin> event_key ` set (id_events (ix_db s))"

lemma step_keeps_missed:
  assumes "indexer_step cfg dec ch (cs, s) (cs', s')" "chain_ok ch" "healthy_config cfg" "l \<in> set (ch_logs ch)" "missed l s"
  shows "missed l s'"
  using assms(1)
proof cases
  case ix_tick
  from assms(5) obtain c where c: "id_cursor (ix_db s) = Some c" "lg_blockNumber l \<le> c"
    "log_key l \<notin> event_key ` set (id_events (ix_db s))" by (auto simp: missed_def)
  have "missed l s'" if "ix_db s' = range_db dec cs (logs_in ch cs c (min to h)) blocks to (ix_db s)" "c < to" for to h blocks
  proof -
    have "log_key l \<notin> log_key ` set (logs_in ch cs c (min to h))"
      using same_key[OF assms(2,4)] c(2) by (auto simp: logs_in_def image_iff)
    then show ?thesis using that c cursor_range[OF c(1)] by (auto simp: missed_def row_keys_range)
  qed
  moreover have "missed l s'" if "ix_db s' = ix_db s" using that assms(5) by (simp add: missed_def)
  ultimately show ?thesis
    using tick_spec(2)[OF assms(3), where s = s and dec = dec and ch = ch and cs = cs] c(1) ix_tick by (auto simp: tick_effect_def default_to_def)
qed (use assms(5) boot_run in \<open>auto simp: missed_def\<close>)

text \<open>A contract that is watched later is not indexed backwards.  A log at or below the cursor that has no row
  never gets one, whatever the tables of watched contracts, restarts and ticks do; the start block
  of a watched contract (\<open>from_block\<close>) is read and never used.\<close>

theorem late_contracts_are_not_backfilled:
  assumes "chain_ok ch" "healthy_config cfg" "l \<in> set (ch_logs ch)"
    and "id_cursor (ix_db s) = Some c" "lg_blockNumber l \<le> c" "log_key l \<notin> event_key ` set (id_events (ix_db s))"
    and "(indexer_step cfg dec ch)\<^sup>*\<^sup>* (cs, s) (cs', s')"
  shows "log_key l \<notin> event_key ` set (id_events (ix_db s'))"
proof -
  have "missed l (snd x)" if "(indexer_step cfg dec ch)\<^sup>*\<^sup>* (cs, s) x" for x
    using that
  proof (induction rule: rtranclp_induct)
    case base
    then show ?case using assms(4-6) by (auto simp: missed_def)
  next
    case (step y z)
    then show ?case using step_keeps_missed[of cfg dec ch "fst y" "snd y" "fst z" "snd z" l] assms(1-3) by auto
  qed
  from this[OF assms(7)] show ?thesis by (simp add: missed_def)
qed

subsection \<open>A history to try the theorems on\<close>

definition toy_log :: "string \<Rightarrow> int \<Rightarrow> ChainLog" where
  "toy_log a i = \<lparr>lg_blockNumber = 1, lg_blockHash = ''0xb1'', lg_transactionHash = ''0x71'', lg_logIndex = i, lg_address = a,
     lg_topics = [''0x01''], lg_data = ''0x''\<rparr>"

definition toy_chain :: Chain where
  "toy_chain = \<lparr>ch_logs = [toy_log ''0xa'' 0, toy_log ''0xb'' 1],
     ch_block = (\<lambda>n. Some \<lparr>bm_hash = ''0xb1'', bm_parentHash = ''0xb0'', bm_timestamp = 7, bm_txCount = 1\<rparr>)\<rparr>"

definition toy_ixconfig :: IndexerConfig where
  "toy_ixconfig = \<lparr>ic_batchSize = Some 2, ic_confirmations = Some 1\<rparr>"

definition toy_watch :: "string \<Rightarrow> WatchedContract" where
  "toy_watch a = \<lparr>wt_address = a, wt_name = ''HaraPalmOil'', wt_fromBlock = 0\<rparr>"

definition toy_indexer :: Indexer where
  "toy_indexer = \<lparr>ix_db = \<lparr>id_events = [], id_blocks = Map.empty, id_cursor = Some (- 1), id_watched = []\<rparr>,
     ix_heads = sconst 5, ix_rpc = sconst None, ix_sql = sconst None\<rparr>"

definition toy_decoder :: decoder where
  "toy_decoder abi dat topics = Some (''TransferSingle'', Some (A_object [(''id'', A_bigint 7)]))"

lemmas indexer_run = tickOnce_def ix_getBlockNumber_def rpc_def BigInt_number_def getCursor_def read_db_def statement_def
  indexRange_def getLogs_def ix_getBlock_def uniqueBlocks_def persistRange_def transaction_def setCursor_def put_cursor_def
  insert_event_def upsert_block_def bindS_apply default_to_def Let_def

abbreviation toy_tick :: "Indexer \<Rightarrow> Indexer" where
  "toy_tick s \<equiv> snd (tickOnce toy_ixconfig toy_decoder toy_chain [toy_watch ''0xa''] s)"

lemma toy_indexed: "id_cursor (ix_db (toy_tick toy_indexer)) = Some 1"
  "id_events (ix_db (toy_tick toy_indexer)) = [event_row_of toy_decoder [toy_watch ''0xa''] (toy_log ''0xa'' 0)]"
  "ix_sql (toy_tick toy_indexer) = sconst None"
  by (simp_all add: indexer_run toy_indexer_def toy_ixconfig_def toy_chain_def toy_log_def toy_watch_def to_lower_def lower_char_def)

lemma toy_start: "id_cursor (ix_db toy_indexer) = Some (- 1)" "id_events (ix_db toy_indexer) = []"
  "toy_log ''0xb'' 1 \<in> set (ch_logs toy_chain)" "lg_blockNumber (toy_log ''0xb'' 1) \<le> 1"
  "log_key (toy_log ''0xb'' 1) \<notin> event_key ` set (id_events (ix_db (toy_tick toy_indexer)))"
  unfolding toy_indexed by (simp_all add: toy_indexer_def toy_chain_def toy_log_def log_key_def)

lemma toy_healthy: "chain_ok toy_chain" "healthy_config toy_ixconfig" "pool_keeps_up toy_ixconfig toy_indexer"
  by (simp_all add: chain_ok_def toy_chain_def toy_log_def log_key_def healthy_config_def toy_ixconfig_def pool_keeps_up_def
      nodes_keep_up_def toy_indexer_def)

theorem event_table_is_chain_prefix_witness:
  "\<exists>c. id_cursor (ix_db (toy_tick toy_indexer)) = Some c \<and> - 1 \<le> c \<and> length (id_events (ix_db (toy_tick toy_indexer))) = 1
    \<and> id_events (ix_db (toy_tick toy_indexer)) = map (event_row_of toy_decoder [toy_watch ''0xa'']) (filter (\<lambda>l. - 1 < lg_blockNumber l
        \<and> lg_blockNumber l \<le> c \<and> to_lower (lg_address l) \<in> to_lower ` set (map wt_address [toy_watch ''0xa''])) (ch_logs toy_chain))"
proof -
  have "(ticks toy_ixconfig toy_decoder toy_chain [toy_watch ''0xa''])\<^sup>*\<^sup>* toy_indexer (toy_tick toy_indexer)"
    by (simp add: ticks_def r_into_rtranclp)
  from event_table_is_chain_prefix[OF toy_healthy(1,2) toy_start(1,2) this] toy_healthy(3) show ?thesis unfolding toy_indexed(2) by auto
qed

theorem late_contracts_are_not_backfilled_witness:
  "\<exists>s. (indexer_step toy_ixconfig toy_decoder toy_chain)\<^sup>*\<^sup>* ([toy_watch ''0xa''], toy_indexer) ([toy_watch ''0xb''], s)
    \<and> wt_fromBlock (toy_watch ''0xb'') \<le> lg_blockNumber (toy_log ''0xb'' 1)
    \<and> log_key (toy_log ''0xb'' 1) \<notin> event_key ` set (id_events (ix_db s))"
proof -
  let ?rows = "[\<lparr>wt_address = ''0xb'', wt_name = ''HaraPalmOil'', wt_fromBlock = 0, wt_enabled = True\<rparr>]"
  let ?step = "indexer_step toy_ixconfig toy_decoder toy_chain" let ?s = "toy_tick toy_indexer"
  let ?t = "?s\<lparr>ix_db := (ix_db ?s)\<lparr>id_watched := ?rows\<rparr>\<rparr>"
  obtain u where u: "loadWatchedContracts ?t = (Inr [toy_watch ''0xb''], u)"
    using toy_indexed(3)
    by (simp add: loadWatchedContracts_def read_db_def statement_def bindS_apply toy_watch_def WatchedContract.truncate_def)
  have one: "?step ([toy_watch ''0xa''], toy_indexer) ([toy_watch ''0xa''], ?s)" by (rule ix_tick)
  have two: "?step\<^sup>*\<^sup>* ([toy_watch ''0xa''], ?s) ([toy_watch ''0xb''], u)"
    using ix_watch[of toy_ixconfig toy_decoder toy_chain "[toy_watch ''0xa'']" ?s ?rows] ix_boot[OF u]
    by (meson converse_rtranclp_into_rtranclp r_into_rtranclp)
  have "log_key (toy_log ''0xb'' 1) \<notin> event_key ` set (id_events (ix_db u))"
    by (rule late_contracts_are_not_backfilled[OF toy_healthy(1,2) toy_start(3) toy_indexed(1) toy_start(4,5) two])
  with one two show ?thesis
    by (intro exI[of _ u]) (auto simp: toy_watch_def toy_log_def intro: converse_rtranclp_into_rtranclp)
qed

text \<open>A node that lags loses a log.  The head is read from one node of the pool and the logs from one that does not have
  the block of the log yet: the range is finished without it, the cursor moves past it, and no later tick,
  restart or table of watched contracts brings it back.\<close>

definition lagging_indexer :: Indexer where
  "lagging_indexer = toy_indexer\<lparr>ix_heads := 5 ## 0 ## sconst 5\<rparr>"

theorem lagging_node_loses_logs:
  "toy_log ''0xa'' 0 \<in> set (ch_logs toy_chain) \<and> id_cursor (ix_db (toy_tick lagging_indexer)) = Some 1
    \<and> (\<forall>cs s. (indexer_step toy_ixconfig toy_decoder toy_chain)\<^sup>*\<^sup>* ([toy_watch ''0xa''], toy_tick lagging_indexer) (cs, s)
         \<longrightarrow> log_key (toy_log ''0xa'' 0) \<notin> event_key ` set (id_events (ix_db s)))"
proof -
  have t: "id_cursor (ix_db (toy_tick lagging_indexer)) = Some 1" "id_events (ix_db (toy_tick lagging_indexer)) = []"
    by (simp_all add: indexer_run lagging_indexer_def toy_indexer_def toy_ixconfig_def toy_chain_def toy_log_def toy_watch_def
        to_lower_def lower_char_def)
  have l: "toy_log ''0xa'' 0 \<in> set (ch_logs toy_chain)" "lg_blockNumber (toy_log ''0xa'' 0) \<le> 1"
    by (simp_all add: toy_chain_def toy_log_def)
  show ?thesis using late_contracts_are_not_backfilled[OF toy_healthy(1,2) l(1) t(1) l(2)] t l(1) by simp
qed

end
