(* ===== verification/AnchoringClaims.thy ===== *)
theory AnchoringClaims
  imports IndexerClaims WorkerClaims
begin

text \<open>
  Indexer and anchor worker together: the worker reads the table the indexer writes, while both run at
  their own pace and the worker looks past the indexer's cursor.  The state of both is kept with the
  list of the slices of the successful cycles.
\<close>

definition worker_row :: "IndexedEvent \<Rightarrow> event_row" where
  "worker_row e = \<lparr>ie_block_number = ev_block_number e, ie_tx_hash = ev_tx_hash e, ie_log_index = ev_log_index e\<rparr>"

definition share_table :: "Indexer \<Rightarrow> WorkerState \<Rightarrow> WorkerState" where
  "share_table s w = w\<lparr>w_events := map worker_row (id_events (ix_db s))\<rparr>"

record Anchoring =
  jt_indexer :: Indexer
  jt_worker :: WorkerState
  jt_slices :: "EventRow list list"

text \<open>A tick of the indexer, a cycle of the worker (one that reports success adds its slice), a restart of the worker.\<close>

inductive anchoring_step ::
  "IndexerConfig \<Rightarrow> decoder \<Rightarrow> Chain \<Rightarrow> WatchedContract list \<Rightarrow> Crypto \<Rightarrow> WorkerConfig \<Rightarrow> CycleContext \<Rightarrow> Anchoring \<Rightarrow> Anchoring \<Rightarrow> bool"
  for ic dec ch cs cy cfg ctx where
  an_tick: "ticks ic dec ch cs (jt_indexer j) s
    \<Longrightarrow> anchoring_step ic dec ch cs cy cfg ctx j (j\<lparr>jt_indexer := s, jt_worker := share_table s (jt_worker j)\<rparr>)"
| an_ok: "runOnce cy cfg ctx (jt_worker j) = (Inr (Cycle_ok, n), w) \<Longrightarrow> committed cy cfg ctx (jt_worker j) w es
    \<Longrightarrow> anchoring_step ic dec ch cs cy cfg ctx j (j\<lparr>jt_worker := w, jt_slices := jt_slices j @ [es]\<rparr>)"
| an_idle: "runOnce cy cfg ctx (jt_worker j) = (r, w) \<Longrightarrow> (\<And>n. r \<noteq> Inr (Cycle_ok, n))
    \<Longrightarrow> anchoring_step ic dec ch cs cy cfg ctx j (j\<lparr>jt_worker := w\<rparr>)"
| an_restart: "anchoring_step ic dec ch cs cy cfg ctx j (j\<lparr>jt_worker := (jt_worker j)\<lparr>w_bucketReady := False\<rparr>\<rparr>)"

text \<open>What has to be anchored: every row of the table at or below the worker's cursor.\<close>

definition all_anchored :: "event_row list \<Rightarrow> int \<Rightarrow> EventRow list list \<Rightarrow> bool" where
  "all_anchored rows b slices \<longleftrightarrow> (\<forall>r\<in>set rows. ie_block_number r \<le> b \<longrightarrow> (\<exists>es\<in>set slices. \<exists>e\<in>set es. event_of_row r = Inr e))"

lemma mapE_member: "mapE f xs = Inr ys \<Longrightarrow> x \<in> set xs \<Longrightarrow> \<exists>y\<in>set ys. f x = Inr y"
  by (induction xs arbitrary: ys) (auto simp: bindE_Inr_iff)

text \<open>A slice that is shorter than the cap was not cut: it holds every row of its window.\<close>

lemma uncut_slice:
  assumes "int (length (select_events a b n rows)) < n" "r \<in> set rows" "a < ie_block_number r" "ie_block_number r \<le> b"
  shows "r \<in> set (select_events a b n rows)"
proof -
  let ?xs = "sort_key ie_block_number (sort_key ie_log_index
       (filter (\<lambda>r. ie_block_number r > a \<and> ie_block_number r \<le> b) rows))"
  have "length ?xs < nat n" using assms(1) by (simp add: select_events_def)
  then show ?thesis using assms(2-4) by (simp add: select_events_def)
qed

lemma committed_covers:
  assumes "committed cy cfg ctx w w' es" "wc_maxEvents cfg = Some cap" "int (length es) < cap"
    "all_anchored (w_events w) (cursor_of w) slices"
  shows "all_anchored (w_events w) (cursor_of w') (slices @ [es])"
  unfolding all_anchored_def
proof (intro ballI impI)
  fix r assume r: "r \<in> set (w_events w)" "ie_block_number r \<le> cursor_of w'"
  obtain safeTo where es: "mapE event_of_row (select_events (cursor_of w) safeTo cap (w_events w)) = Inr es" "es \<noteq> []"
    "cursor_of w' = blockNumber (last es)" using assms(1,2) by (auto simp: committed_def)
  show "\<exists>es\<in>set (slices @ [es]). \<exists>e\<in>set es. event_of_row r = Inr e"
  proof (cases "ie_block_number r \<le> cursor_of w")
    case True
    then show ?thesis using assms(4) r(1) by (auto simp: all_anchored_def)
  next
    case False
    have "int (length (select_events (cursor_of w) safeTo cap (w_events w))) < cap"
      using mapE_length[OF es(1)] assms(3) by simp
    from uncut_slice[OF this r(1)] False r(2) es(3) fetched_blocks(2)[OF es(1,2)]
    have "r \<in> set (select_events (cursor_of w) safeTo cap (w_events w))" by simp
    with mapE_member[OF es(1)] show ?thesis by auto
  qed
qed

definition anchoring_inv ::
  "IndexerConfig \<Rightarrow> decoder \<Rightarrow> Chain \<Rightarrow> WatchedContract list \<Rightarrow> int \<Rightarrow> int \<Rightarrow> Anchoring \<Rightarrow> bool" where
  "anchoring_inv ic dec ch cs c0 cap j \<longleftrightarrow> pool_keeps_up ic (jt_indexer j) \<and> worker_inv (jt_worker j)
     \<and> indexed_upto dec ch cs c0 (ix_db (jt_indexer j))
     \<and> w_events (jt_worker j) = map worker_row (id_events (ix_db (jt_indexer j)))
     \<and> (\<exists>c. id_cursor (ix_db (jt_indexer j)) = Some c \<and> cursor_of (jt_worker j) \<le> c)
     \<and> ((\<forall>es\<in>set (jt_slices j). int (length es) < cap) \<longrightarrow> all_anchored (w_events (jt_worker j)) (cursor_of (jt_worker j)) (jt_slices j))"

text \<open>The blocks of the rows lie above the first and at most at the present cursor.\<close>

lemma row_block [simp]: "ie_block_number (worker_row (event_row_of dec cs l)) = lg_blockNumber l"
  by (simp add: worker_row_def event_row_of_def Let_def)

lemma indexed_blocks:
  "indexed_upto dec ch cs c0 d \<Longrightarrow> id_cursor d = Some c \<Longrightarrow> e \<in> set (id_events d) \<Longrightarrow> ie_block_number (worker_row e) \<le> c"
  by (auto simp: indexed_upto_def logs_in_def)

text \<open>The tick: rows that are new lie above the indexer's cursor, so above the worker's.\<close>

lemma tick_new_rows:
  assumes "chain_ok ch" "indexed_upto dec ch cs c0 d" "tick_effect dec ch cs True d d'" "id_cursor d = Some c"
    "e \<in> set (id_events d')" "ie_block_number (worker_row e) \<le> c"
  shows "e \<in> set (id_events d)"
proof -
  from tick_keeps_indexed[OF assms(1-3)] assms(5,6) obtain l where l: "e = event_row_of dec cs l"
    "l \<in> set (ch_logs ch)" "c0 < lg_blockNumber l" "lg_blockNumber l \<le> c" "to_lower (lg_address l) \<in> watched cs"
    by (auto simp: indexed_upto_def logs_in_def)
  with assms(2,4) show ?thesis by (auto simp: indexed_upto_def logs_in_def)
qed

lemma tick_cursor: "tick_effect dec ch cs True d d' \<Longrightarrow> id_cursor d = Some c \<Longrightarrow> \<exists>c'. id_cursor d' = Some c' \<and> c \<le> c'"
  using cursor_range by (auto simp: tick_effect_def default_to_def)

lemma anchoring_inv_step:
  assumes "chain_ok ch" "healthy_config ic" "wc_maxEvents cfg = Some cap"
    and "anchoring_step ic dec ch cs cy cfg ctx j j'" "anchoring_inv ic dec ch cs c0 cap j"
  shows "anchoring_inv ic dec ch cs c0 cap j'"
  using assms(4)
proof cases
  case (an_tick s)
  let ?d = "ix_db (jt_indexer j)"
  obtain c where c: "id_cursor ?d = Some c" "cursor_of (jt_worker j) \<le> c" "indexed_upto dec ch cs c0 ?d"
    using assms(5) by (auto simp: anchoring_inv_def)
  have s: "pool_keeps_up ic s" "tick_effect dec ch cs True ?d (ix_db s)"
    using tick_spec[OF assms(2), where s = "jt_indexer j" and dec = dec and ch = ch and cs = cs] an_tick(2) assms(5)
      pool_keeps_up_later[of ic "jt_indexer j" s] by (auto simp: ticks_def anchoring_inv_def)
  have i: "indexed_upto dec ch cs c0 (ix_db s)" by (rule tick_keeps_indexed[OF assms(1) c(3) s(2)])
  obtain c' where c': "id_cursor (ix_db s) = Some c'" "c \<le> c'" using tick_cursor[OF s(2) c(1)] by blast
  have cu: "cursor_of (share_table s (jt_worker j)) = cursor_of (jt_worker j)" by (simp add: share_table_def cursor_of_def)
  have "all_anchored (map worker_row (id_events (ix_db s))) (cursor_of (jt_worker j)) (jt_slices j)"
    if "\<forall>es\<in>set (jt_slices j). int (length es) < cap"
    using assms(5) that tick_new_rows[OF assms(1) c(3) s(2) c(1)] c(2) by (fastforce simp: anchoring_inv_def all_anchored_def)
  then show ?thesis
    using an_tick(1) s(1) i c' c(2) assms(5) cu
    by (auto simp: anchoring_inv_def worker_inv_def rows_ok_def backed_def share_table_def)
next
  case (an_ok n w es)
  have w: "cycle_post cy cfg ctx (jt_worker j) (Inr (Cycle_ok, n)) w"
    using wpD[OF wp_runOnce an_ok(2)] assms(5) by (simp add: anchoring_inv_def)
  obtain safeTo where es: "mapE event_of_row (select_events (cursor_of (jt_worker j)) safeTo cap (w_events (jt_worker j))) = Inr es" "es \<noteq> []"
    "cursor_of w = blockNumber (last es)" using an_ok(3) assms(3) by (auto simp: committed_def)
  let ?rs = "select_events (cursor_of (jt_worker j)) safeTo cap (w_events (jt_worker j))"
  have ne: "?rs \<noteq> []" using es(1,2) by auto
  have "cursor_of w = ie_block_number (last ?rs)"
    using mapE_event_block[OF es(1)] es(2,3) ne by (metis last_map)
  moreover have "last ?rs \<in> set (w_events (jt_worker j))" using select_in_window[OF last_in_set[OF ne]] by blast
  ultimately have "\<exists>c. id_cursor (ix_db (jt_indexer j)) = Some c \<and> cursor_of w \<le> c"
    using assms(5) indexed_blocks by (fastforce simp: anchoring_inv_def)
  then show ?thesis
    using w assms(5) an_ok(1) committed_covers[OF an_ok(3) assms(3)] by (auto simp: anchoring_inv_def cycle_post_def)
next
  case (an_idle r w)
  have "cycle_post cy cfg ctx (jt_worker j) r w"
    using wpD[OF wp_runOnce an_idle(2)] assms(5) by (simp add: anchoring_inv_def)
  with an_idle(3) have "worker_inv w" "w_events w = w_events (jt_worker j)" "cursor_of w = cursor_of (jt_worker j)"
    by (auto simp: cycle_post_def)
  then show ?thesis using assms(5) an_idle(1) by (auto simp: anchoring_inv_def)
qed (use assms(5) in \<open>auto simp: anchoring_inv_def worker_inv_def rows_ok_def backed_def cursor_of_def\<close>)

text \<open>C10: No event of the chain is skipped.  Indexer and worker run in any order, calls and statements fail anywhere, both
  restart, and the worker may look past the blocks that are indexed.  Two things are assumed: the nodes behind the read
  pool keep up (no call is answered by a node more than the indexer's confirmations behind one that answered before),
  and no slice reaches the configured maximum.  Then every log of a watched contract above the indexer's first block and
  at or below the worker's cursor is in a slice whose cycle reported success: submitted with a receipt, recorded with its
  signature.  As the worker does not look at the receipt's status, the transaction of such a slice may be a reverted one.\<close>

theorem no_event_is_skipped:
  assumes "chain_ok ch" "healthy_config ic" "wc_maxEvents cfg = Some cap"
    and "pool_keeps_up ic (jt_indexer j0)" "id_cursor (ix_db (jt_indexer j0)) = Some c0" "id_events (ix_db (jt_indexer j0)) = []"
    and "- 1 \<le> c0" "fresh_worker (jt_worker j0)" "w_events (jt_worker j0) = []" "jt_slices j0 = []"
    and "(anchoring_step ic dec ch cs cy cfg ctx)\<^sup>*\<^sup>* j0 j" "\<forall>es\<in>set (jt_slices j). int (length es) < cap"
    and "l \<in> set (ch_logs ch)" "to_lower (lg_address l) \<in> watched cs" "c0 < lg_blockNumber l"
    and "lg_blockNumber l \<le> cursor_of (jt_worker j)"
  shows "\<exists>es\<in>set (jt_slices j). \<exists>e\<in>set es. event_of_row (worker_row (event_row_of dec cs l)) = Inr e"
proof -
  have base: "anchoring_inv ic dec ch cs c0 cap j0"
    using assms(4-10) by (auto simp: anchoring_inv_def fresh_inv indexed_upto_def all_anchored_def cursor_of_def fresh_worker_def
        logs_in_def filter_empty_conv intro!: exI[of _ c0])
  from assms(11) have "anchoring_inv ic dec ch cs c0 cap j"
    by (induction rule: rtranclp_induct) (use base anchoring_inv_step[OF assms(1-3)] in blast)+
  then obtain c where c: "id_cursor (ix_db (jt_indexer j)) = Some c" "cursor_of (jt_worker j) \<le> c"
    "indexed_upto dec ch cs c0 (ix_db (jt_indexer j))"
    "w_events (jt_worker j) = map worker_row (id_events (ix_db (jt_indexer j)))"
    "all_anchored (w_events (jt_worker j)) (cursor_of (jt_worker j)) (jt_slices j)"
    using assms(12) by (auto simp: anchoring_inv_def)
  have "l \<in> set (logs_in ch cs c0 c)" using assms(13-16) c(2) by (simp add: logs_in_def)
  then have "worker_row (event_row_of dec cs l) \<in> set (w_events (jt_worker j))" using c(1,3,4) by (auto simp: indexed_upto_def)
  with c(5) assms(16) show ?thesis unfolding all_anchored_def by (metis row_block)
qed

subsection \<open>A run\<close>

definition toy_anchoring :: Anchoring where
  "toy_anchoring = \<lparr>jt_indexer = toy_indexer, jt_worker = toy_worker\<lparr>w_events := []\<rparr>, jt_slices = []\<rparr>"

abbreviation toy_cap :: WorkerConfig where "toy_cap \<equiv> toy_worker_config\<lparr>wc_maxEvents := Some 5\<rparr>"

definition toy_shared :: WorkerState where
  "toy_shared = toy_worker\<lparr>w_events := [\<lparr>ie_block_number = 1, ie_tx_hash = ''0x71'', ie_log_index = 0\<rparr>]\<rparr>"

lemma toy_shared_cycle: "\<exists>w. runOnce toy_worker_crypto toy_cap toy_context toy_shared = (Inr (Cycle_ok, 1), w) \<and> w_cursor w = Some (1, Some ''0'')"
  by (simp add: worker_defs toy_shared_def toy_worker_def toy_worker_config_def toy_context_def toy_worker_crypto_def
      PQ_SECRET_KEY_BYTES_def PQ_SIGNATURE_BYTES_def starts_with_def js_int_zero)

theorem no_event_is_skipped_witness:
  "\<exists>j. (anchoring_step toy_ixconfig toy_decoder toy_chain [toy_watch ''0xa''] toy_worker_crypto toy_cap toy_context)\<^sup>*\<^sup>* toy_anchoring j
     \<and> cursor_of (jt_worker j) = 1
     \<and> (\<exists>es\<in>set (jt_slices j). \<exists>e\<in>set es. event_of_row (worker_row (event_row_of toy_decoder [toy_watch ''0xa''] (toy_log ''0xa'' 0))) = Inr e)"
proof -
  let ?step = "anchoring_step toy_ixconfig toy_decoder toy_chain [toy_watch ''0xa''] toy_worker_crypto toy_cap toy_context"
  let ?s = "toy_tick toy_indexer"
  obtain w where w: "runOnce toy_worker_crypto toy_cap toy_context toy_shared = (Inr (Cycle_ok, 1), w)" "w_cursor w = Some (1, Some ''0'')"
    using toy_shared_cycle by blast
  have inv: "worker_inv toy_shared" by (rule fresh_inv) (simp add: fresh_worker_def toy_shared_def toy_worker_def)
  from wpD[OF wp_runOnce[OF inv] w(1)] obtain es where es: "length es = 1" "committed toy_worker_crypto toy_cap toy_context toy_shared w es"
    by (auto simp: cycle_post_def)
  have share: "share_table ?s (toy_worker\<lparr>w_events := []\<rparr>) = toy_shared"
    unfolding share_table_def toy_indexed toy_shared_def
    by (simp add: worker_row_def event_row_of_def toy_log_def Let_def)
  let ?j1 = "\<lparr>jt_indexer = ?s, jt_worker = toy_shared, jt_slices = []\<rparr>" let ?j2 = "\<lparr>jt_indexer = ?s, jt_worker = w, jt_slices = [es]\<rparr>"
  have one: "?step toy_anchoring ?j1"
    using an_tick[of toy_ixconfig toy_decoder toy_chain "[toy_watch ''0xa'']" toy_anchoring ?s] share
    by (simp add: ticks_def toy_anchoring_def)
  have two: "?step ?j1 ?j2"
    using an_ok[of toy_worker_crypto toy_cap toy_context ?j1 1 w es] w(1) es(2) by simp
  have run: "?step\<^sup>*\<^sup>* toy_anchoring ?j2" using one two by (meson converse_rtranclp_into_rtranclp r_into_rtranclp)
  have "\<exists>es\<in>set (jt_slices ?j2). \<exists>e\<in>set es. event_of_row (worker_row (event_row_of toy_decoder [toy_watch ''0xa''] (toy_log ''0xa'' 0))) = Inr e"
    by (rule no_event_is_skipped[OF toy_healthy(1,2) _ _ _ _ _ _ _ _ run, of 5 "- 1"])
      (use toy_healthy(3) toy_start es(1) w(2) in \<open>simp_all add: toy_anchoring_def fresh_worker_def toy_worker_def toy_worker_config_def
        toy_chain_def watched_def toy_watch_def toy_log_def cursor_of_def\<close>)
  with run w(2) show ?thesis by (intro exI[of _ ?j2]) (simp add: cursor_of_def)
qed

end
