(* ===== verification/JsDouble.thy ===== *)
theory JsDouble
  imports JsData Complex_Main
begin

text \<open>
  Floating-point numbers of JavaScript (IEEE 754, 64 bits) as exact rationals that are rounded after every operation,
  with NaN and the infinities.  Only the sign of zero is not kept.  The console's statistics compute
  with them.
\<close>

subsection \<open>Rounding\<close>

datatype num64 = Fin rat | NaN | Inf bool

definition pow2 :: "int \<Rightarrow> rat" where
  "pow2 k = (if 0 \<le> k then 2 ^ nat k else 1 / 2 ^ nat (- k))"

fun bits :: "nat \<Rightarrow> nat" where
  "bits n = (if n = 0 then 0 else Suc (bits (n div 2)))"

declare bits.simps [simp del]

text \<open>The exponent of the leading binary digit of a positive number.\<close>

definition log2_floor :: "rat \<Rightarrow> int" where
  "log2_floor q = (if 1 \<le> q then int (bits (nat \<lfloor>q\<rfloor>)) - 1 else - int (bits (nat (\<lceil>1 / q\<rceil> - 1))))"

definition round_even :: "rat \<Rightarrow> int" where
  "round_even q = (let f = \<lfloor>q\<rfloor>; d = q - of_int f in
     if d < 1 / 2 then f else if 1 / 2 < d then f + 1 else if even f then f else f + 1)"

definition ulp_exponent :: "rat \<Rightarrow> int" where
  "ulp_exponent q = max (log2_floor \<bar>q\<bar> - 52) (- 1074)"

definition round64 :: "rat \<Rightarrow> num64" where
  "round64 q = (if q = 0 then Fin 0
     else (let u = pow2 (ulp_exponent q); r = of_int (round_even (q / u)) * u in
       if pow2 1024 \<le> \<bar>r\<bar> then Inf (0 < r) else Fin r))"

subsection \<open>Operations\<close>

fun neg64 :: "num64 \<Rightarrow> num64" where
  "neg64 (Fin x) = Fin (- x)" | "neg64 NaN = NaN" | "neg64 (Inf s) = Inf (\<not> s)"

fun add64 :: "num64 \<Rightarrow> num64 \<Rightarrow> num64" where
  "add64 (Fin x) (Fin y) = round64 (x + y)"
| "add64 (Inf s) (Inf t) = (if s = t then Inf s else NaN)"
| "add64 (Inf s) (Fin y) = Inf s"
| "add64 (Fin x) (Inf t) = Inf t"
| "add64 _ _ = NaN"

definition sub64 :: "num64 \<Rightarrow> num64 \<Rightarrow> num64" where "sub64 a b = add64 a (neg64 b)"

fun mul64 :: "num64 \<Rightarrow> num64 \<Rightarrow> num64" where
  "mul64 (Fin x) (Fin y) = round64 (x * y)"
| "mul64 (Inf s) (Inf t) = Inf (s = t)"
| "mul64 (Inf s) (Fin y) = (if y = 0 then NaN else Inf (s = (0 < y)))"
| "mul64 (Fin x) (Inf t) = (if x = 0 then NaN else Inf (t = (0 < x)))"
| "mul64 _ _ = NaN"

fun div64 :: "num64 \<Rightarrow> num64 \<Rightarrow> num64" where
  "div64 (Fin x) (Fin y) = (if y \<noteq> 0 then round64 (x / y) else if x = 0 then NaN else Inf (0 < x))"
| "div64 (Inf s) (Fin y) = Inf (s = (0 \<le> y))"
| "div64 (Fin x) (Inf t) = Fin 0"
| "div64 _ _ = NaN"

fun less64 :: "num64 \<Rightarrow> num64 \<Rightarrow> bool" where
  "less64 (Fin x) (Fin y) \<longleftrightarrow> x < y"
| "less64 (Fin x) (Inf t) \<longleftrightarrow> t"
| "less64 (Inf s) (Fin y) \<longleftrightarrow> \<not> s"
| "less64 (Inf s) (Inf t) \<longleftrightarrow> \<not> s \<and> t"
| "less64 _ _ \<longleftrightarrow> False"

definition le64 :: "num64 \<Rightarrow> num64 \<Rightarrow> bool" where
  "le64 a b \<longleftrightarrow> less64 a b \<or> (a = b \<and> a \<noteq> NaN)"

text \<open>\<open>Math.max\<close> and \<open>Math.min\<close> give NaN as soon as one argument is NaN.\<close>

definition max64 :: "num64 \<Rightarrow> num64 \<Rightarrow> num64" where
  "max64 a b = (if a = NaN \<or> b = NaN then NaN else if less64 a b then b else a)"

definition min64 :: "num64 \<Rightarrow> num64 \<Rightarrow> num64" where
  "min64 a b = (if a = NaN \<or> b = NaN then NaN else if less64 b a then b else a)"

fun abs64 :: "num64 \<Rightarrow> num64" where
  "abs64 (Fin x) = Fin \<bar>x\<bar>" | "abs64 NaN = NaN" | "abs64 (Inf s) = Inf True"

text \<open>\<open>Math.round\<close> takes halves upwards, \<open>Math.floor\<close> is the integer part.\<close>

fun math_round :: "num64 \<Rightarrow> num64" where
  "math_round (Fin x) = round64 (of_int \<lfloor>x + 1 / 2\<rfloor>)" | "math_round v = v"

fun math_floor :: "num64 \<Rightarrow> num64" where
  "math_floor (Fin x) = round64 (of_int \<lfloor>x\<rfloor>)" | "math_floor v = v"

definition int64 :: "int \<Rightarrow> num64" where "int64 n = round64 (of_int n)"

definition maximum64 :: "num64 list \<Rightarrow> num64" where "maximum64 xs = foldl max64 (Inf False) xs"
definition minimum64 :: "num64 list \<Rightarrow> num64" where "minimum64 xs = foldl min64 (Inf True) xs"

subsection \<open>Numbers and text\<close>

text \<open>\<open>toFixed(d)\<close>: the nearest multiple of \<open>10 ^ -d\<close> to the exact value, the larger of two; numbers from \<open>10 ^ 21\<close> are
  written as \<open>String\<close> does.\<close>

definition fixed_digits :: "nat \<Rightarrow> nat \<Rightarrow> string" where
  "fixed_digits d n = (if d = 0 then js_num n
     else (let t = padStart (d + 1) CHR ''0'' (js_num n) in take (length t - d) t @ ''.'' @ drop (length t - d) t))"

text \<open>\<open>String(v)\<close>: the shortest decimal digits that denote the number.  \<open>shortest k v\<close> tries \<open>k\<close> digits and more; 17 are
  always enough.\<close>

definition pow10 :: "int \<Rightarrow> rat" where
  "pow10 k = (if 0 \<le> k then 10 ^ nat k else 1 / 10 ^ nat (- k))"

definition log10_floor :: "rat \<Rightarrow> int" where
  "log10_floor q = (let f = \<lfloor>q\<rfloor> in
     if 0 < f then int (length (js_num (nat f))) - 1
     else (let g = \<lceil>1 / q\<rceil>; k = int (length (js_num (nat g))) in
       if pow10 (- (k - 1)) \<le> q then - (k - 1) else - k))"

definition shortest :: "rat \<Rightarrow> int \<times> int" where
  "shortest v = (let n = log10_floor v + 1;
     cand = (\<lambda>k. \<lfloor>v / pow10 (n - int k) + 1 / 2\<rfloor>);
     fits = (\<lambda>k. round64 (of_int (cand k) * pow10 (n - int k)) = Fin v)
     in case List.find fits [1..<18] of
          Some k \<Rightarrow> if 10 ^ k \<le> cand k then (cand k div 10, n + 1) else (cand k, n)
        | None \<Rightarrow> (cand 17, n))"

definition digits_text :: "int \<times> int \<Rightarrow> string" where
  "digits_text sn = (case sn of (s, n) \<Rightarrow> (let ds = js_num (nat s); k = int (length ds) in
     if k \<le> n \<and> n \<le> 21 then ds @ replicate (nat (n - k)) CHR ''0''
     else if 0 < n \<and> n \<le> 21 then take (nat n) ds @ ''.'' @ drop (nat n) ds
     else if - 6 < n \<and> n \<le> 0 then ''0.'' @ replicate (nat (- n)) CHR ''0'' @ ds
     else (take 1 ds @ (if k = 1 then [] else ''.'' @ drop 1 ds)
       @ ''e'' @ (if 0 < n then ''+'' else []) @ js_int (n - 1))))"

fun num_text :: "num64 \<Rightarrow> string" where
  "num_text NaN = ''NaN''"
| "num_text (Inf s) = (if s then ''Infinity'' else ''-Infinity'')"
| "num_text (Fin x) = (if x = 0 then ''0'' else if x < 0 then CHR ''-'' # digits_text (shortest (- x)) else digits_text (shortest x))"

fun toFixed :: "nat \<Rightarrow> num64 \<Rightarrow> string" where
  "toFixed d (Fin x) = (if 10 ^ 21 \<le> \<bar>x\<bar> then num_text (Fin x)
     else (let n = nat \<lfloor>\<bar>x\<bar> * 10 ^ d + 1 / 2\<rfloor> in (if x < 0 then ''-'' else []) @ fixed_digits d n))"
| "toFixed d v = num_text v"

text \<open>\<open>Number(s)\<close> on a text, with fractions.\<close>

definition decimal_literal64 :: "string \<Rightarrow> num64" where
  "decimal_literal64 s =
     (let whole = takeWhile is_digit s; s1 = dropWhile is_digit s;
          dot = (s1 \<noteq> [] \<and> hd s1 = CHR ''.'');
          frac = (if dot then takeWhile is_digit (tl s1) else []);
          s2 = (if dot then dropWhile is_digit (tl s1) else s1)
      in case (radix_digits 10 (whole @ frac), exponent_of s2) of
           (Some m, Some e) \<Rightarrow>
             (let k = e - int (length frac) in
              if m = 0 then Fin 0 else if 310 < k then Inf True
              else if k < - (400 + int (length whole + length frac)) then Fin 0
              else round64 (of_int m * pow10 k))
         | _ \<Rightarrow> NaN)"

definition radix64 :: "nat \<Rightarrow> string \<Rightarrow> num64" where
  "radix64 r s = (case radix_digits r s of None \<Rightarrow> NaN | Some n \<Rightarrow> int64 n)"

definition signed_literal :: "string \<Rightarrow> num64" where
  "signed_literal s = (if s = ''Infinity'' then Inf True else decimal_literal64 s)"

definition number_text :: "string \<Rightarrow> num64" where
  "number_text str = (let s = js_trim str; p = to_lower (take 2 s) in
     if s = [] then Fin 0
     else if p = ''0x'' then radix64 16 (drop 2 s)
     else if p = ''0o'' then radix64 8 (drop 2 s)
     else if p = ''0b'' then radix64 2 (drop 2 s)
     else if hd s = CHR ''-'' then neg64 (signed_literal (tl s))
     else if hd s = CHR ''+'' then signed_literal (tl s)
     else signed_literal s)"

text \<open>\<open>Number(v)\<close>; an array or object is first made a text.\<close>

fun number_json :: "json \<Rightarrow> num64" where
  "number_json JNull = Fin 0"
| "number_json (JBool b) = Fin (if b then 1 else 0)"
| "number_json (JNum n) = int64 n"
| "number_json (JFrac s) = number_text s"
| "number_json (JStr s) = number_text s"
| "number_json v = number_text (js_String v)"

subsection \<open>Facts\<close>

lemma bits_numeral [simp]: "bits 0 = 0" "bits (Suc 0) = 1" "bits (numeral (num.Bit0 n)) = Suc (bits (numeral n))"
  "bits (numeral (num.Bit1 n)) = Suc (bits (numeral n))"
  by (subst bits.simps, simp)+

lemma bits_le: "n < 2 ^ k \<Longrightarrow> bits n \<le> k"
proof (induction k arbitrary: n)
  case (Suc k)
  then have "n div 2 < 2 ^ k" by auto
  from Suc.IH [OF this] show ?case by (subst bits.simps) simp
qed simp

lemma round_even_int [simp]: "round_even (of_int n) = n"
  by (simp add: round_even_def)

text \<open>Integers up to \<open>2 ^ 53\<close> are numbers.\<close>

lemma round64_small_int:
  assumes "\<bar>n\<bar> < 2 ^ 53"
  shows "round64 (of_int n) = Fin (of_int n)"
proof (cases "n = 0")
  case False
  let ?k = "53 - bits (nat \<bar>n\<bar>)"
  have b: "bits (nat \<bar>n\<bar>) \<le> 53" "1 \<le> \<bar>n\<bar>" using assms False by (auto intro: bits_le)
  have "(1 :: rat) \<le> of_int \<bar>n\<bar>" "\<lfloor>(of_int \<bar>n\<bar> :: rat)\<rfloor> = \<bar>n\<bar>" using b by (simp_all only: of_int_1_le_iff floor_of_int)
  then have "log2_floor \<bar>of_int n\<bar> = int (bits (nat \<bar>n\<bar>)) - 1" by (simp add: log2_floor_def)
  with b have u: "pow2 (ulp_exponent (of_int n)) = 1 / 2 ^ ?k"
    by (auto simp: ulp_exponent_def pow2_def nat_diff_distrib')
  have "(of_int n :: rat) / (1 / 2 ^ ?k) = of_int (n * 2 ^ ?k)" by simp
  then have r: "of_int (round_even ((of_int n :: rat) / (1 / 2 ^ ?k))) * (1 / 2 ^ ?k) = (of_int n :: rat)"
    by (simp only: round_even_int) simp
  have "\<bar>of_int n :: rat\<bar> < of_int (2 ^ 53)" using assms by (simp only: of_int_less_iff flip: of_int_abs)
  also have "\<dots> \<le> pow2 1024" by (simp add: pow2_def)
  finally show ?thesis using False r by (simp add: round64_def u Let_def)
qed (simp add: round64_def)

lemma round64_0 [simp]: "round64 0 = Fin 0"
  by (simp add: round64_def)

lemma int64_small: "\<bar>n\<bar> < 2 ^ 53 \<Longrightarrow> int64 n = Fin (of_int n)"
  by (simp add: int64_def round64_small_int)

text \<open>Integer parts of fractions of literals.\<close>

lemma floor_rat_literal [simp]:
  "\<lfloor>(numeral a :: rat) / numeral b\<rfloor> = numeral a div numeral b" "\<lfloor>(1 :: rat) / numeral b\<rfloor> = 1 div numeral b"
  "\<lfloor>- ((numeral a :: rat) / numeral b)\<rfloor> = - numeral a div numeral b"
  using floor_divide_of_int_eq [where 'a = rat, of "numeral a" "numeral b"] floor_divide_of_int_eq [where 'a = rat, of 1 "numeral b"]
    floor_divide_of_int_eq [where 'a = rat, of "- numeral a" "numeral b"]
  by simp_all

lemma ceiling_rat_literal [simp]: "\<lceil>(numeral a :: rat) / numeral b\<rceil> = - (- numeral a div numeral b)"
  by (simp add: ceiling_def)

lemmas eval64 = round64_def ulp_exponent_def log2_floor_def round_even_def pow2_def pow10_def Let_def

lemma round64_tenths: "round64 (3 / 10) = Fin (5404319552844595 / 18014398509481984)"
  by (simp add: eval64)

lemma int64_rounds: "int64 9007199254740993 = Fin 9007199254740992"
  by (simp add: eval64 int64_def)

lemma num_text_int: "num_text (Fin 1200) = ''1200''"
  by (simp add: eval64 js_num.simps shortest_def digits_text_def log10_floor_def upt_conv_Cons) code_simp

lemma toFixed_half: "toFixed 0 (Fin (5 / 2)) = ''3''"
  by (simp add: eval64 fixed_digits_def) code_simp

lemma toFixed_quarter: "toFixed 1 (Fin (- 1 / 4)) = ''-0.3''"
  by (simp add: eval64 fixed_digits_def) code_simp

end
