(* ===== verification/TraceApi.thy ===== *)
theory TraceApi
  imports Indexer Store JsDouble
begin

text \<open>
  The traceability endpoints of the indexer (\<open>services/indexer/src/trace-api.ts\<close>) over the views \<open>custody_hops\<close> and
  \<open>batch_summary\<close> of migration 003, which are computed from the tables of theory Indexer.  A handler gives the
  value that is sent, or an exception (a failing query, a \<open>TypeError\<close>).  Volumes are summed as \<open>BigInt\<close> and sent
  as numbers, so the values that are sent are rounded (theory JsDouble).  Times are seconds; numerics of the
  database are whole numbers, as Solidity has no others.  Rows that an \<open>ORDER BY\<close> does not tell apart keep
  the order of the table.
\<close>

subsection \<open>The views\<close>

definition pg_numeric :: "string option \<Rightarrow> int option js" where
  "pg_numeric t = (case t of None \<Rightarrow> Inr None
     | Some s \<Rightarrow> (case (if s \<noteq> [] \<and> hd s = CHR ''-'' then map_option uminus (radix_digits 10 (tl s)) else radix_digits 10 s) of
         None \<Rightarrow> Inl (PlainError ''invalid input syntax for type numeric'') | Some n \<Rightarrow> Inr (Some n)))"

text \<open>\<open>decoded->>'key'\<close>.\<close>

definition jsonb_text :: "json option \<Rightarrow> string \<Rightarrow> string option" where
  "jsonb_text v k = (case body_prop v k of None \<Rightarrow> None
     | Some x \<Rightarrow> (case x of JNull \<Rightarrow> None | JStr s \<Rightarrow> Some s | _ \<Rightarrow> Some (json_text x)))"

record Hop =
  hp_batch_id :: "int option"
  hp_liters :: "int option"
  hp_from :: string
  hp_to :: "string option"
  hp_operator :: "string option"
  hp_tx_hash :: string
  hp_block_number :: int
  hp_log_index :: int
  hp_occurred_at :: int

definition MINT_SENDER :: string where "MINT_SENDER = ''0x'' @ replicate 40 CHR ''0''"

definition hop_of_event :: "IndexedEvent \<Rightarrow> BlockMeta \<Rightarrow> string \<Rightarrow> Hop js" where
  "hop_of_event e b sender =
     bindE (pg_numeric (jsonb_text (ev_decoded e) ''id'')) (\<lambda>batch.
     bindE (pg_numeric (jsonb_text (ev_decoded e) ''value'')) (\<lambda>liters.
     Inr \<lparr>hp_batch_id = batch, hp_liters = liters, hp_from = sender, hp_to = jsonb_text (ev_decoded e) ''to'',
       hp_operator = jsonb_text (ev_decoded e) ''operator'', hp_tx_hash = ev_tx_hash e, hp_block_number = ev_block_number e,
       hp_log_index = ev_log_index e, hp_occurred_at = bm_timestamp b\<rparr>))"

definition palm_event :: "string \<Rightarrow> IndexedEvent \<Rightarrow> bool" where
  "palm_event name e \<longleftrightarrow> ev_contract_name e = Some ''HaraPalmOil'' \<and> ev_event_name e = Some name"

definition hop_rows :: "IndexDb \<Rightarrow> (IndexedEvent \<times> BlockMeta \<times> string) list" where
  "hop_rows d = List.map_filter (\<lambda>e. case (id_blocks d (ev_block_number e), jsonb_text (ev_decoded e) ''from'') of
     (Some b, Some sender) \<Rightarrow> if palm_event ''TransferSingle'' e \<and> sender \<noteq> MINT_SENDER then Some (e, b, sender) else None
   | _ \<Rightarrow> None) (id_events d)"

definition custody_hops :: "IndexDb \<Rightarrow> Hop list js" where
  "custody_hops d = mapE (\<lambda>(e, b, sender). hop_of_event e b sender) (hop_rows d)"

definition by_position :: "Hop list \<Rightarrow> Hop list" where
  "by_position hs = sort_key hp_block_number (sort_key hp_log_index hs)"

record BatchSummary =
  bs_batch_id :: "int option"
  bs_initial_liters :: "int option"
  bs_first_owner :: "string option"
  bs_current_holder :: "string option"
  bs_hop_count :: nat
  bs_rspo_hash :: "string option"
  bs_plantation_id :: "string option"
  bs_production_date :: "int option"
  bs_minted_at :: "int option"
  bs_last_hop_at :: "int option"

definition batch_row :: "IndexDb \<Rightarrow> Hop list \<Rightarrow> IndexedEvent \<Rightarrow> BatchSummary js" where
  "batch_row d hops e =
     bindE (pg_numeric (jsonb_text (ev_decoded e) ''batchId'')) (\<lambda>batch.
     bindE (pg_numeric (jsonb_text (ev_decoded e) ''liters'')) (\<lambda>liters.
     bindE (pg_numeric (jsonb_text (ev_decoded e) ''productionDate'')) (\<lambda>production.
     let own = (if batch = None then [] else by_position (filter (\<lambda>h. hp_batch_id h = batch) hops));
         latest = (if own = [] then None else Some (last own));
         owner = jsonb_text (ev_decoded e) ''firstOwner''
     in Inr \<lparr>bs_batch_id = batch, bs_initial_liters = liters, bs_first_owner = owner,
       bs_current_holder = (case latest of None \<Rightarrow> owner | Some h \<Rightarrow> (case hp_to h of None \<Rightarrow> owner | Some a \<Rightarrow> Some a)),
       bs_hop_count = length own, bs_rspo_hash = jsonb_text (ev_decoded e) ''rspoCertificateHash'',
       bs_plantation_id = jsonb_text (ev_decoded e) ''plantationId'', bs_production_date = production,
       bs_minted_at = map_option bm_timestamp (id_blocks d (ev_block_number e)),
       bs_last_hop_at = map_option hp_occurred_at latest\<rparr>)))"

definition batch_summary :: "IndexDb \<Rightarrow> BatchSummary list js" where
  "batch_summary d = bindE (custody_hops d) (\<lambda>hops. mapE (batch_row d hops) (filter (palm_event ''BatchMinted'') (id_events d)))"

subsection \<open>Lists\<close>

text \<open>Descending order; a missing value comes first.\<close>

definition descending :: "('a \<Rightarrow> int option) \<Rightarrow> 'a list \<Rightarrow> 'a list" where
  "descending f xs = filter (\<lambda>x. f x = None) xs @ sort_key (\<lambda>x. - the (f x)) (filter (\<lambda>x. f x \<noteq> None) xs)"

text \<open>A bound of the query is text from the URL, or the default number.\<close>

definition pg_bound :: "string option \<Rightarrow> nat \<Rightarrow> nat js" where
  "pg_bound t dflt = (case t of None \<Rightarrow> Inr dflt | Some s \<Rightarrow> bindE (pg_numeric (Some s)) (\<lambda>n. case n of
     None \<Rightarrow> Inr dflt | Some v \<Rightarrow> if v < 0 then Inl (PlainError ''must not be negative'') else Inr (nat v)))"

definition get_batches :: "IndexDb \<Rightarrow> string option \<Rightarrow> string option \<Rightarrow> BatchSummary list js" where
  "get_batches d limit offset =
     bindE (pg_bound limit 50) (\<lambda>l. bindE (pg_bound offset 0) (\<lambda>k. bindE (batch_summary d) (\<lambda>rows.
     Inr (take l (drop k (descending bs_minted_at rows))))))"

definition batch_rows :: "IndexDb \<Rightarrow> string \<Rightarrow> BatchSummary list js" where
  "batch_rows d batchId = bindE (pg_numeric (Some batchId)) (\<lambda>n. bindE (batch_summary d) (\<lambda>rows.
     Inr (filter (\<lambda>r. bs_batch_id r \<noteq> None \<and> bs_batch_id r = n) rows)))"

text \<open>\<open>None\<close> is the answer 404.\<close>

definition get_batch :: "IndexDb \<Rightarrow> string \<Rightarrow> BatchSummary option js" where
  "get_batch d batchId = bindE (batch_rows d batchId) (\<lambda>rows. Inr (if rows = [] then None else Some (hd rows)))"

definition get_hops :: "IndexDb \<Rightarrow> string \<Rightarrow> Hop list js" where
  "get_hops d batchId = bindE (pg_numeric (Some batchId)) (\<lambda>n. bindE (custody_hops d) (\<lambda>hops.
     Inr (by_position (filter (\<lambda>h. hp_batch_id h \<noteq> None \<and> hp_batch_id h = n) hops))))"

definition get_holder_batches :: "IndexDb \<Rightarrow> string \<Rightarrow> (string \<times> int option list) js" where
  "get_holder_batches d address = (let addr = to_lower address in
     bindE (custody_hops d) (\<lambda>hops.
     Inr (addr, take 100 (descending id (remdups (map hp_batch_id (filter (\<lambda>h. hp_from h = addr \<or> hp_to h = Some addr) hops)))))))"

subsection \<open>The graph\<close>

record TraceNode =
  tn_id :: string
  tn_firstSeenAt :: int
  tn_lastSeenAt :: int
  tn_received :: int
  tn_sent :: int

text \<open>\<open>ensure\<close>, followed by the update of the node it returns.\<close>

definition ensure_node :: "string \<Rightarrow> int \<Rightarrow> (TraceNode \<Rightarrow> TraceNode) \<Rightarrow> (string, TraceNode) jsmap \<Rightarrow> (string, TraceNode) jsmap" where
  "ensure_node addr ts f m = jsmap_set m addr (f (case jsmap_get m addr of
     Some n \<Rightarrow> n\<lparr>tn_lastSeenAt := ts\<rparr>
   | None \<Rightarrow> \<lparr>tn_id = addr, tn_firstSeenAt = ts, tn_lastSeenAt = ts, tn_received = 0, tn_sent = 0\<rparr>))"

text \<open>\<open>BigInt(null)\<close> throws; a missing receiver makes the labels throw.\<close>

definition add_hop :: "(string, TraceNode) jsmap \<Rightarrow> Hop \<Rightarrow> (string, TraceNode) jsmap js" where
  "add_hop m h = (case (hp_liters h, hp_to h) of
     (Some v, Some receiver) \<Rightarrow> Inr (ensure_node receiver (hp_occurred_at h) (\<lambda>n. n\<lparr>tn_received := tn_received n + v\<rparr>)
       (ensure_node (hp_from h) (hp_occurred_at h) (\<lambda>n. n\<lparr>tn_sent := tn_sent n + v\<rparr>) m))
   | _ \<Rightarrow> Inl TypeError)"

definition short_label :: "string \<Rightarrow> string" where
  "short_label a = take 6 a @ [CHR 0xE2, CHR 0x80, CHR 0xA6] @ drop (length a - 4) a"

record NodeDto =
  nd_id :: string
  nd_label :: string
  nd_hopIndex :: nat
  nd_firstSeenAt :: int
  nd_lastSeenAt :: int
  nd_receivedLiters :: num64
  nd_sentLiters :: num64
  nd_currentLiters :: num64
  nd_isFirstOwner :: bool
  nd_isCurrentHolder :: bool
  nd_isPassThrough :: bool

definition node_dto :: "BatchSummary option \<Rightarrow> nat \<Rightarrow> TraceNode \<Rightarrow> NodeDto" where
  "node_dto summary i n = (let cur = tn_received n - tn_sent n in
     \<lparr>nd_id = tn_id n, nd_label = short_label (tn_id n), nd_hopIndex = i, nd_firstSeenAt = tn_firstSeenAt n,
      nd_lastSeenAt = tn_lastSeenAt n, nd_receivedLiters = int64 (tn_received n), nd_sentLiters = int64 (tn_sent n),
      nd_currentLiters = int64 cur,
      nd_isFirstOwner = (map_option to_lower (Option.bind summary bs_first_owner) = Some (to_lower (tn_id n))),
      nd_isCurrentHolder = (cur > 0 \<and> tn_sent n = 0), nd_isPassThrough = (tn_sent n > 0 \<and> cur = 0)\<rparr>)"

record AggEdge =
  ag_from :: string
  ag_to :: string
  ag_totalLiters :: int
  ag_txCount :: nat
  ag_firstAt :: int
  ag_lastAt :: int
  ag_sampleTxHash :: string

definition agg_key :: "string \<Rightarrow> string \<Rightarrow> string" where "agg_key a b = a @ ''->'' @ b"

definition aggregate_hop :: "(string, AggEdge) jsmap \<Rightarrow> Hop \<Rightarrow> (string, AggEdge) jsmap js" where
  "aggregate_hop m h = (case (hp_liters h, hp_to h) of
     (Some v, Some receiver) \<Rightarrow> (let key = agg_key (hp_from h) receiver in
       Inr (jsmap_set m key (case jsmap_get m key of
         Some e \<Rightarrow> e\<lparr>ag_totalLiters := ag_totalLiters e + v, ag_txCount := ag_txCount e + 1,
             ag_lastAt := (if hp_occurred_at h > ag_lastAt e then hp_occurred_at h else ag_lastAt e)\<rparr>
       | None \<Rightarrow> \<lparr>ag_from = hp_from h, ag_to = receiver, ag_totalLiters = v, ag_txCount = 1, ag_firstAt = hp_occurred_at h,
             ag_lastAt = hp_occurred_at h, ag_sampleTxHash = hp_tx_hash h\<rparr>)))
   | _ \<Rightarrow> Inl TypeError)"

datatype EdgeDto =
    Agg_edge (edge_id: string) (edge_label: string) (edge_liters: num64) (edge_agg: AggEdge)
  | Hop_edge (edge_id: string) (edge_label: string) (edge_liters: num64) (edge_hop: Hop) (edge_order: nat)

definition agg_label :: "AggEdge \<Rightarrow> string" where
  "agg_label e = js_int (ag_totalLiters e) @ '' L'' @ (if ag_txCount e > 1 then '' ('' @ [CHR 0xC3, CHR 0x97] @ js_num (ag_txCount e) @ '')'' else [])"

definition agg_edges :: "(string, AggEdge) jsmap \<Rightarrow> EdgeDto list" where
  "agg_edges m = map (\<lambda>(i, e). Agg_edge (''agg-'' @ js_num i) (agg_label e) (int64 (ag_totalLiters e)) e) (enumerate 0 (map snd m))"

text \<open>\<open>Number(null)\<close> is 0.\<close>

definition hop_edges :: "Hop list \<Rightarrow> EdgeDto list" where
  "hop_edges hops = map (\<lambda>(i, h). Hop_edge (hp_tx_hash h @ ''-'' @ js_int (hp_log_index h))
     ((case hp_liters h of None \<Rightarrow> ''null'' | Some v \<Rightarrow> js_int v) @ '' L'')
     (case hp_liters h of None \<Rightarrow> Fin 0 | Some v \<Rightarrow> int64 v) h i) (enumerate 0 hops)"

record TraceGraph =
  gr_batch :: "BatchSummary option"
  gr_nodes :: "NodeDto list"
  gr_edges :: "EdgeDto list"
  gr_aggregated :: bool

definition trace_graph :: "BatchSummary option \<Rightarrow> Hop list \<Rightarrow> bool \<Rightarrow> TraceGraph js" where
  "trace_graph summary hops aggregate =
     bindE (foldE add_hop [] hops) (\<lambda>m.
     bindE (if aggregate then bindE (foldE aggregate_hop [] hops) (\<lambda>a. Inr (agg_edges a)) else Inr (hop_edges hops)) (\<lambda>edges.
     Inr \<lparr>gr_batch = summary, gr_nodes = map (\<lambda>(i, n). node_dto summary i n) (enumerate 0 (map snd m)),
       gr_edges = edges, gr_aggregated = aggregate\<rparr>))"

definition get_graph :: "IndexDb \<Rightarrow> string \<Rightarrow> string option \<Rightarrow> TraceGraph js" where
  "get_graph d batchId aggregate =
     bindE (get_batch d batchId) (\<lambda>summary.
     bindE (get_hops d batchId) (\<lambda>hops.
     trace_graph summary hops (aggregate = Some ''true'')))"

subsection \<open>What the graph shows\<close>

definition moved :: "(Hop \<Rightarrow> bool) \<Rightarrow> Hop list \<Rightarrow> int" where
  "moved P hops = sum_list (map (\<lambda>h. the (hp_liters h)) (filter P hops))"

lemma moved_simps [simp]: "moved P [] = 0" "moved P (hs @ [h]) = moved P hs + (if P h then the (hp_liters h) else 0)"
  by (simp_all add: moved_def)

text \<open>Balances over a map whose entries are updated one by one.\<close>

lemma sum_update:
  fixes g :: "'v \<Rightarrow> int"
  shows "sum_list (map (\<lambda>(k, n). g n) (AList.update k v m))
    = sum_list (map (\<lambda>(k, n). g n) m) - (case map_of m k of None \<Rightarrow> 0 | Some n \<Rightarrow> g n) + g v"
  by (induction m) auto

definition node_ok :: "Hop list \<Rightarrow> string \<Rightarrow> TraceNode option \<Rightarrow> bool" where
  "node_ok hs k x = (case x of None \<Rightarrow> \<forall>h\<in>set hs. hp_from h \<noteq> k \<and> hp_to h \<noteq> Some k
     | Some n \<Rightarrow> (\<exists>h\<in>set hs. hp_from h = k \<or> hp_to h = Some k) \<and> tn_id n = k
         \<and> tn_received n = moved (\<lambda>h. hp_to h = Some k) hs \<and> tn_sent n = moved (\<lambda>h. hp_from h = k) hs)"

definition nodes_ok :: "Hop list \<Rightarrow> (string, TraceNode) jsmap \<Rightarrow> bool" where
  "nodes_ok hs m \<longleftrightarrow> distinct (map fst m) \<and> sum_list (map (\<lambda>(k, n). tn_received n - tn_sent n) m) = 0
   \<and> (\<forall>k. node_ok hs k (map_of m k))"

lemma moved_none: "\<forall>h\<in>set hs. \<not> P h \<Longrightarrow> moved P hs = 0"
  by (simp add: moved_def filter_False)

lemma ensure_node_get: "map_of (ensure_node a ts f m) = (map_of m)(a \<mapsto> f (case map_of m a of Some n \<Rightarrow> n\<lparr>tn_lastSeenAt := ts\<rparr>
   | None \<Rightarrow> \<lparr>tn_id = a, tn_firstSeenAt = ts, tn_lastSeenAt = ts, tn_received = 0, tn_sent = 0\<rparr>))"
  by (simp add: ensure_node_def update_conv')

lemma nodes_ok_step:
  assumes "nodes_ok hs m" "add_hop m h = Inr m'"
  shows "nodes_ok (hs @ [h]) m'"
proof -
  obtain v b where h: "hp_liters h = Some v" "hp_to h = Some b"
    "m' = ensure_node b (hp_occurred_at h) (\<lambda>n. n\<lparr>tn_received := tn_received n + v\<rparr>)
       (ensure_node (hp_from h) (hp_occurred_at h) (\<lambda>n. n\<lparr>tn_sent := tn_sent n + v\<rparr>) m)"
    using assms(2) by (auto simp: add_hop_def split: option.splits)
  let ?m1 = "ensure_node (hp_from h) (hp_occurred_at h) (\<lambda>n. n\<lparr>tn_sent := tn_sent n + v\<rparr>) m"
  have "distinct (map fst m')"
    using assms(1) by (simp add: h(3) ensure_node_def nodes_ok_def distinct_update)
  moreover have "sum_list (map (\<lambda>(k, n). tn_received n - tn_sent n) ?m1) = - v"
    using assms(1) by (auto simp: ensure_node_def sum_update nodes_ok_def split: option.splits)
  then have "sum_list (map (\<lambda>(k, n). tn_received n - tn_sent n) m') = 0"
    unfolding h(3) by (subst ensure_node_def) (auto simp: sum_update split: option.splits)
  moreover have "node_ok (hs @ [h]) k (map_of m' k)" for k
  proof -
    have old: "node_ok hs k (map_of m k)" using assms(1) by (simp add: nodes_ok_def)
    show ?thesis
    proof (cases "map_of m k")
      case None
      with old have none: "\<forall>h\<in>set hs. hp_from h \<noteq> k \<and> hp_to h \<noteq> Some k" by (simp add: node_ok_def)
      then have "moved (\<lambda>h. hp_to h = Some k) hs = 0" "moved (\<lambda>h. hp_from h = k) hs = 0" by (auto intro: moved_none)
      with None h none show ?thesis by (auto simp: ensure_node_get node_ok_def)
    next
      case (Some n)
      with old h show ?thesis by (auto simp: ensure_node_get node_ok_def)
    qed
  qed
  ultimately show ?thesis by (simp only: nodes_ok_def simp_thms)
qed

lemma fold_snoc: "foldE f s (xs @ [x]) = Inr t \<longleftrightarrow> (\<exists>u. foldE f s xs = Inr u \<and> f u x = Inr t)"
  by (cases "foldE f s xs") (auto simp: foldE_append bindE_def split: sum.splits)

lemma nodes_ok_fold: "foldE add_hop [] hops = Inr m \<Longrightarrow> nodes_ok hops m"
proof (induction hops arbitrary: m rule: rev_induct)
  case (snoc h hs)
  then show ?case by (auto simp: fold_snoc intro: nodes_ok_step)
qed (simp add: nodes_ok_def node_ok_def)

definition edge_ok :: "Hop list \<Rightarrow> string \<Rightarrow> string \<Rightarrow> AggEdge option \<Rightarrow> bool" where
  "edge_ok hs a b x = (let P = (\<lambda>h. hp_from h = a \<and> hp_to h = Some b) in case x of None \<Rightarrow> filter P hs = []
     | Some e \<Rightarrow> filter P hs \<noteq> [] \<and> ag_from e = a \<and> ag_to e = b \<and> ag_totalLiters e = moved P hs \<and> ag_txCount e = length (filter P hs))"

definition edges_ok :: "Hop list \<Rightarrow> (string, AggEdge) jsmap \<Rightarrow> bool" where
  "edges_ok hs m \<longleftrightarrow> distinct (map fst m) \<and> sum_list (map (\<lambda>(k, e). int (ag_txCount e)) m) = int (length hs)
   \<and> (\<forall>(k, e)\<in>set m. k = agg_key (ag_from e) (ag_to e) \<and> CHR ''>'' \<notin> set (ag_from e))
   \<and> (\<forall>a b. CHR ''>'' \<notin> set a \<longrightarrow> edge_ok hs a b (map_of m (agg_key a b)))"

lemma agg_key_inject:
  assumes "CHR ''>'' \<notin> set a" "CHR ''>'' \<notin> set c"
  shows "agg_key a b = agg_key c d \<longleftrightarrow> a = c \<and> b = d"
  using append_sep_inject[of "CHR ''>''" "a @ ''-''" "c @ ''-''" b d] assms by (auto simp: agg_key_def)

lemma edges_ok_step:
  assumes "edges_ok hs m" "aggregate_hop m h = Inr m'" "CHR ''>'' \<notin> set (hp_from h)"
  shows "edges_ok (hs @ [h]) m'"
proof -
  obtain v r where h: "hp_liters h = Some v" "hp_to h = Some r"
    "m' = jsmap_set m (agg_key (hp_from h) r) (case jsmap_get m (agg_key (hp_from h) r) of
         Some e \<Rightarrow> e\<lparr>ag_totalLiters := ag_totalLiters e + v, ag_txCount := ag_txCount e + 1,
             ag_lastAt := (if hp_occurred_at h > ag_lastAt e then hp_occurred_at h else ag_lastAt e)\<rparr>
       | None \<Rightarrow> \<lparr>ag_from = hp_from h, ag_to = r, ag_totalLiters = v, ag_txCount = 1, ag_firstAt = hp_occurred_at h,
             ag_lastAt = hp_occurred_at h, ag_sampleTxHash = hp_tx_hash h\<rparr>)"
    using assms(2) by (auto simp: aggregate_hop_def Let_def split: option.splits)
  have "distinct (map fst m')" using assms(1) by (simp add: h(3) edges_ok_def distinct_update)
  moreover have "sum_list (map (\<lambda>(k, e). int (ag_txCount e)) m') = int (length (hs @ [h]))"
    using assms(1) by (auto simp: h(3) sum_update edges_ok_def split: option.splits)
  moreover have "edge_ok (hs @ [h]) a b (map_of m' (agg_key a b))" if "CHR ''>'' \<notin> set a" for a b
  proof (cases "a = hp_from h \<and> b = r")
    case True
    have "edge_ok hs a b (map_of m (agg_key a b))" using assms(1) that by (simp add: edges_ok_def)
    with True h show ?thesis
      by (auto simp: update_conv' edge_ok_def Let_def moved_def split: option.splits)
  next
    case False
    then have "map_of m' (agg_key a b) = map_of m (agg_key a b)" "\<not> (hp_from h = a \<and> hp_to h = Some b)"
      using agg_key_inject[OF assms(3) that, of r b] h by (auto simp: update_conv')
    moreover have "edge_ok hs a b (map_of m (agg_key a b))" using assms(1) that by (simp add: edges_ok_def)
    ultimately show ?thesis by (cases "map_of m (agg_key a b)") (auto simp: edge_ok_def Let_def)
  qed
  moreover have "k = agg_key (ag_from e) (ag_to e) \<and> CHR ''>'' \<notin> set (ag_from e)" if "(k, e) \<in> set m'" for k e
  proof -
    have old: "k = agg_key (ag_from e) (ag_to e) \<and> CHR ''>'' \<notin> set (ag_from e)" if "(k, e) \<in> set m" for k e
      using assms(1) that by (auto simp: edges_ok_def)
    have "map_of m' k = Some e" using that assms(1) by (simp add: h(3) edges_ok_def distinct_update)
    then show ?thesis
      using old h(3) assms(3) by (auto simp: update_conv' dest: map_of_SomeD split: if_splits option.splits)
  qed
  ultimately show ?thesis unfolding edges_ok_def by blast
qed

lemma edges_ok_fold:
  "foldE aggregate_hop [] hops = Inr m \<Longrightarrow> \<forall>h\<in>set hops. CHR ''>'' \<notin> set (hp_from h) \<Longrightarrow> edges_ok hops m"
proof (induction hops arbitrary: m rule: rev_induct)
  case (snoc h hs)
  then show ?case by (auto simp: fold_snoc intro: edges_ok_step)
qed (simp add: edges_ok_def edge_ok_def Let_def)

lemma node_dto_sel [simp]:
  "nd_id (node_dto summary i n) = tn_id n" "nd_receivedLiters (node_dto summary i n) = int64 (tn_received n)"
  "nd_sentLiters (node_dto summary i n) = int64 (tn_sent n)" "nd_currentLiters (node_dto summary i n) = int64 (tn_received n - tn_sent n)"
  "nd_isCurrentHolder (node_dto summary i n) \<longleftrightarrow> tn_received n > tn_sent n \<and> tn_sent n = 0"
  "nd_isPassThrough (node_dto summary i n) \<longleftrightarrow> tn_sent n > 0 \<and> tn_received n = tn_sent n"
  by (auto simp: node_dto_def Let_def)

lemma map_nodes:
  "(\<And>i n. f (node_dto summary i n) = q n) \<Longrightarrow> map (f \<circ> (\<lambda>(i, n). node_dto summary i n)) (enumerate k xs) = map q xs"
  by (rule nth_equalityI) (auto simp: nth_enumerate_eq)

text \<open>The volume an address received less the volume it sent.\<close>

definition balance :: "Hop list \<Rightarrow> string \<Rightarrow> int" where
  "balance hops k = moved (\<lambda>h. hp_to h = Some k) hops - moved (\<lambda>h. hp_from h = k) hops"

text \<open>C19: The custody graph balances.  Its nodes are exactly the addresses that sent or received, each once.  A node shows the
  volume it received and sent over all hops and their difference, each summed exactly and rounded once, to the nearest double;
  its marks as a holder that never sent on and as a pass-through compare the exact sums.  The exact differences add up to
  nothing, whatever the order of the hops, transfers of an address to itself included, and so do the shown ones
  as long as each is below \<open>2 ^ 53\<close>; above that the shown ones need not (\<open>large_volumes_do_not_balance\<close>).\<close>

theorem graph_balances:
  assumes "trace_graph summary hops aggregate = Inr g"
  shows "distinct (map nd_id (gr_nodes g))
    \<and> set (map nd_id (gr_nodes g)) = {k. \<exists>h\<in>set hops. hp_from h = k \<or> hp_to h = Some k}
    \<and> (\<forall>n\<in>set (gr_nodes g). let received = moved (\<lambda>h. hp_to h = Some (nd_id n)) hops; sent = moved (\<lambda>h. hp_from h = nd_id n) hops in
         nd_receivedLiters n = int64 received \<and> nd_sentLiters n = int64 sent \<and> nd_currentLiters n = int64 (received - sent)
         \<and> (nd_isCurrentHolder n \<longleftrightarrow> received > sent \<and> sent = 0) \<and> (nd_isPassThrough n \<longleftrightarrow> sent > 0 \<and> received = sent))
    \<and> sum_list (map (balance hops \<circ> nd_id) (gr_nodes g)) = 0
    \<and> ((\<forall>n\<in>set (gr_nodes g). \<bar>balance hops (nd_id n)\<bar> < 2 ^ 53) \<longrightarrow>
         (\<exists>shown. map nd_currentLiters (gr_nodes g) = map Fin shown \<and> sum_list shown = 0))"
proof -
  obtain m where m: "foldE add_hop [] hops = Inr m" "gr_nodes g = map (\<lambda>(i, n). node_dto summary i n) (enumerate 0 (map snd m))"
    using assms by (auto simp: trace_graph_def bindE_Inr_iff)
  note inv = nodes_ok_fold[OF m(1)]
  have get: "map_of m k = Some n \<longleftrightarrow> (k, n) \<in> set m" for k n using inv by (auto simp: nodes_ok_def)
  have node: "tn_id n = k \<and> tn_received n = moved (\<lambda>h. hp_to h = Some k) hops \<and> tn_sent n = moved (\<lambda>h. hp_from h = k) hops"
    if "(k, n) \<in> set m" for k n
  proof -
    have "node_ok hops k (Some n)" using inv that get by (metis nodes_ok_def)
    then show ?thesis by (simp add: node_ok_def)
  qed
  have ids: "map nd_id (gr_nodes g) = map fst m"
    using node by (simp add: m(2) map_nodes[where f = nd_id and q = tn_id])
  have "map (balance hops) (map fst m) = map (\<lambda>(k, n). tn_received n - tn_sent n) m"
    using node by (auto simp: balance_def)
  then have "map (balance hops \<circ> nd_id) (gr_nodes g) = map (\<lambda>(k, n). tn_received n - tn_sent n) m"
    unfolding ids[symmetric] by simp
  then have zero: "sum_list (map (balance hops \<circ> nd_id) (gr_nodes g)) = 0" using inv by (simp add: nodes_ok_def)
  have "k \<in> fst ` set m \<longleftrightarrow> (\<exists>h\<in>set hops. hp_from h = k \<or> hp_to h = Some k)" for k
  proof -
    have "node_ok hops k (map_of m k)" using inv by (simp add: nodes_ok_def)
    moreover have "k \<in> fst ` set m \<longleftrightarrow> map_of m k \<noteq> None" by (simp add: map_of_eq_None_iff)
    ultimately show ?thesis by (cases "map_of m k") (auto simp: node_ok_def)
  qed
  then have keys: "fst ` set m = {k. \<exists>h\<in>set hops. hp_from h = k \<or> hp_to h = Some k}" by blast
  have each: "\<exists>i n. d = node_dto summary i n \<and> tn_received n = moved (\<lambda>h. hp_to h = Some (nd_id d)) hops
      \<and> tn_sent n = moved (\<lambda>h. hp_from h = nd_id d) hops" if shown: "d \<in> set (gr_nodes g)" for d
  proof -
    obtain i n where d: "d = node_dto summary i n" "(i, n) \<in> set (enumerate 0 (map snd m))" using shown m(2) by auto
    then have i: "i < length m" "n = snd (m ! i)" by (auto simp: in_set_enumerate_eq)
    then have "(fst (m ! i), n) \<in> set m" using nth_mem[OF i(1)] by simp
    from node[OF this] d(1) show ?thesis by auto
  qed
  have small: "map nd_currentLiters (gr_nodes g) = map Fin (map of_int (map (balance hops \<circ> nd_id) (gr_nodes g)))"
    if "\<forall>n\<in>set (gr_nodes g). \<bar>balance hops (nd_id n)\<bar> < 2 ^ 53"
    using each that by (fastforce simp: balance_def int64_small)
  have "\<exists>shown. map nd_currentLiters (gr_nodes g) = map Fin shown \<and> sum_list shown = (0::rat)"
    if "\<forall>n\<in>set (gr_nodes g). \<bar>balance hops (nd_id n)\<bar> < 2 ^ 53"
    using small[OF that] zero sum_list_of_int by (metis of_int_0)
  moreover have "let received = moved (\<lambda>h. hp_to h = Some (nd_id d)) hops; sent = moved (\<lambda>h. hp_from h = nd_id d) hops in
         nd_receivedLiters d = int64 received \<and> nd_sentLiters d = int64 sent \<and> nd_currentLiters d = int64 (received - sent)
         \<and> (nd_isCurrentHolder d \<longleftrightarrow> received > sent \<and> sent = 0) \<and> (nd_isPassThrough d \<longleftrightarrow> sent > 0 \<and> received = sent)"
    if "d \<in> set (gr_nodes g)" for d
    using each[OF that] by (auto simp: Let_def)
  moreover have "distinct (map nd_id (gr_nodes g))" "set (map nd_id (gr_nodes g)) = {k. \<exists>h\<in>set hops. hp_from h = k \<or> hp_to h = Some k}"
    using inv keys unfolding ids by (simp_all add: nodes_ok_def)
  ultimately show ?thesis using zero by blast
qed

text \<open>C34: Aggregation loses nothing.  In the aggregated graph there is one edge for each pair of addresses with a
  transfer; it carries the sum of the volumes and the number of the transfers of this pair, and the
  numbers add up to the number of hops.\<close>

theorem aggregation_keeps_volume:
  assumes "trace_graph summary hops True = Inr g" "\<forall>h\<in>set hops. CHR ''>'' \<notin> set (hp_from h)"
  shows "distinct (map (\<lambda>e. (ag_from (edge_agg e), ag_to (edge_agg e))) (gr_edges g))
    \<and> (\<forall>e\<in>set (gr_edges g). let P = (\<lambda>h. hp_from h = ag_from (edge_agg e) \<and> hp_to h = Some (ag_to (edge_agg e))) in
         filter P hops \<noteq> [] \<and> ag_totalLiters (edge_agg e) = moved P hops \<and> ag_txCount (edge_agg e) = length (filter P hops))
    \<and> sum_list (map (\<lambda>e. ag_txCount (edge_agg e)) (gr_edges g)) = length hops"
proof -
  obtain m where m: "foldE aggregate_hop [] hops = Inr m" "gr_edges g = agg_edges m"
    using assms(1) by (auto simp: trace_graph_def bindE_Inr_iff)
  note inv = edges_ok_fold[OF m(1) assms(2)]
  have aggs: "map edge_agg (gr_edges g) = map snd m"
    by (rule nth_equalityI) (auto simp: m(2) agg_edges_def nth_enumerate_eq)
  have mem: "(k, e) \<in> set m \<Longrightarrow> map_of m (agg_key (ag_from e) (ag_to e)) = Some e \<and> CHR ''>'' \<notin> set (ag_from e)
      \<and> k = agg_key (ag_from e) (ag_to e)" for k e
    using inv by (auto simp: edges_ok_def)
  have edge: "edge_ok hops (ag_from e) (ag_to e) (Some e)" if "(k, e) \<in> set m" for k e
    using mem[OF that] inv by (metis edges_ok_def)
  have "distinct (map (\<lambda>e. (ag_from e, ag_to e)) (map snd m))"
  proof -
    have "map fst m = map (\<lambda>e. agg_key (ag_from e) (ag_to e)) (map snd m)" using mem by (auto simp: map_eq_conv)
    then have "distinct (map (\<lambda>e. agg_key (ag_from e) (ag_to e)) (map snd m))" using inv by (metis edges_ok_def)
    then have "distinct (map (\<lambda>(a, b). agg_key a b) (map (\<lambda>e. (ag_from e, ag_to e)) (map snd m)))" by (simp add: comp_def)
    then show ?thesis using distinct_map by blast
  qed
  then have one: "distinct (map (\<lambda>e. (ag_from (edge_agg e), ag_to (edge_agg e))) (gr_edges g))"
    unfolding aggs[symmetric] by (simp add: comp_def)
  have "sum_list (map ag_txCount (map snd m)) = length hops"
  proof -
    have "int (sum_list (map ag_txCount (map snd m))) = sum_list (map (\<lambda>(k, e). int (ag_txCount e)) m)" by (induction m) auto
    then show ?thesis using inv by (simp add: edges_ok_def)
  qed
  then have two: "sum_list (map (\<lambda>e. ag_txCount (edge_agg e)) (gr_edges g)) = length hops"
    unfolding aggs[symmetric] by (simp add: comp_def)
  have "edge_agg e \<in> snd ` set m" if "e \<in> set (gr_edges g)" for e
    using that aggs by (metis (no_types, lifting) image_eqI list.set_map)
  then have "let P = (\<lambda>h. hp_from h = ag_from (edge_agg e) \<and> hp_to h = Some (ag_to (edge_agg e))) in
         filter P hops \<noteq> [] \<and> ag_totalLiters (edge_agg e) = moved P hops \<and> ag_txCount (edge_agg e) = length (filter P hops)"
    if "e \<in> set (gr_edges g)" for e
    using that edge unfolding edge_ok_def Let_def by fastforce
  with one two show ?thesis by blast
qed

text \<open>A run: two transfers from one holder to a second, one on to a third.\<close>

definition toy_hop :: "string \<Rightarrow> string \<Rightarrow> int \<Rightarrow> int \<Rightarrow> Hop" where
  "toy_hop a b v t = \<lparr>hp_batch_id = Some 7, hp_liters = Some v, hp_from = a, hp_to = Some b, hp_operator = None,
     hp_tx_hash = ''0x01'', hp_block_number = t, hp_log_index = 0, hp_occurred_at = t\<rparr>"

definition toy_hops :: "Hop list" where
  "toy_hops = [toy_hop ''0xa'' ''0xb'' 5 1, toy_hop ''0xa'' ''0xb'' 2 2, toy_hop ''0xb'' ''0xc'' 7 3]"

lemma toy_graph: "\<exists>g. trace_graph None toy_hops True = Inr g \<and> length (gr_nodes g) = 3 \<and> length (gr_edges g) = 2"
  by (simp add: trace_graph_def toy_hops_def toy_hop_def add_hop_def ensure_node_def aggregate_hop_def agg_key_def agg_edges_def Let_def)

theorem graph_balances_witness:
  "\<exists>g shown. trace_graph None toy_hops True = Inr g \<and> length (gr_nodes g) = 3 \<and> map nd_currentLiters (gr_nodes g) = map Fin shown \<and> sum_list shown = 0"
proof -
  obtain g where g: "trace_graph None toy_hops True = Inr g" "length (gr_nodes g) = 3" using toy_graph by blast
  have "\<bar>balance toy_hops k\<bar> < 2 ^ 53" for k by (simp add: balance_def moved_def toy_hops_def toy_hop_def)
  with graph_balances[OF g(1)] g show ?thesis by blast
qed

text \<open>Volumes above \<open>2 ^ 53\<close> are shown rounded, and the shown differences need not balance: one address shows 2 to the
  53rd less and the others show that much and one more.\<close>

theorem large_volumes_do_not_balance:
  "\<exists>g. trace_graph None [toy_hop ''0xa'' ''0xb'' 9007199254740993 1, toy_hop ''0xb'' ''0xc'' 1 2] False = Inr g
    \<and> map nd_currentLiters (gr_nodes g) = [Fin (- 9007199254740992), Fin 9007199254740992, Fin 1]"
proof -
  have "int64 (- 9007199254740993) = Fin (- 9007199254740992)" "int64 9007199254740992 = Fin 9007199254740992" "int64 1 = Fin 1"
    by (simp_all add: int64_def eval64)
  then show ?thesis
    by (simp add: trace_graph_def toy_hop_def add_hop_def ensure_node_def node_dto_def Let_def)
qed

theorem aggregation_keeps_volume_witness:
  "\<exists>g. trace_graph None toy_hops True = Inr g \<and> length (gr_edges g) = 2 \<and> sum_list (map (\<lambda>e. ag_txCount (edge_agg e)) (gr_edges g)) = 3"
proof -
  obtain g where g: "trace_graph None toy_hops True = Inr g" "length (gr_edges g) = 2" using toy_graph by blast
  have "\<forall>h\<in>set toy_hops. CHR ''>'' \<notin> set (hp_from h)" by (simp add: toy_hops_def toy_hop_def)
  from aggregation_keeps_volume[OF g(1) this] g show ?thesis by (auto simp: toy_hops_def)
qed

text \<open>The look-up of a holder lowers the address; addresses that are stored with capitals, as viem's decoder
  writes them (EIP-55), are not found.\<close>

lemma holder_lookup_needs_lower_case:
  assumes "custody_hops d = Inr hops" "\<forall>h\<in>set hops. to_lower (hp_from h) \<noteq> hp_from h \<and> (\<forall>a. hp_to h = Some a \<longrightarrow> to_lower a \<noteq> a)"
  shows "get_holder_batches d address = Inr (to_lower address, [])"
proof -
  have "filter (\<lambda>h. hp_from h = to_lower address \<or> hp_to h = Some (to_lower address)) hops = []"
    using assms(2) by (auto simp: filter_empty_conv)
  then show ?thesis by (simp add: get_holder_batches_def assms(1) Let_def descending_def)
qed

end
