(* ===== verification/ConsoleProposals.thy ===== *)
theory ConsoleProposals
  imports JsData
begin

text \<open>
  The proposals of the operator console (\<open>console/server/src/contracts.ts\<close>, \<open>proposals.ts\<close>, \<open>audit.ts\<close>): from the
  parameters of a request, which are parsed JSON of any shape, to the shell commands an operator is asked to run.
  Nothing is executed here.  Interpolation into a template is \<open>String\<close>; integers are written in full, as JavaScript does
  below \<open>10 ^ 21\<close>.
\<close>

subsection \<open>Contracts\<close>

definition ADMIN :: string where "ADMIN = ''0x944b237097A03E1e8CdE8A0F46605506319EC329''"
definition FUNDER :: string where "FUNDER = ''0x70997970C51812dc3A010C7d01b50e0d17dc79C8''"
definition WRITE_RPC :: string where "WRITE_RPC = ''https://rpc.ledger.haratrust.io/write/''"

record ContractMeta =
  cm_address :: string
  cm_roles :: "string list"

definition CONTRACTS :: "(string \<times> ContractMeta) list" where
  "CONTRACTS = [
     (''HaraPalmOil'', \<lparr>cm_address = ''0xa513E6E4b8f2a923D98304ec87F64353C4D5C853'', cm_roles = [''MINTER_ROLE'', ''CERTIFIER_ROLE'', ''DEFAULT_ADMIN_ROLE'']\<rparr>),
     (''TraceabilityBatchRelay'', \<lparr>cm_address = ''0x2279B7A0a67DB372996a5FaB50D91eAA73d2eBe6'', cm_roles = [''DEFAULT_ADMIN_ROLE'']\<rparr>),
     (''PQAnchorRegistry'', \<lparr>cm_address = ''0x8A791620dd6260079BF849Dc5567aDC3F2FdC318'', cm_roles = [''ANCHOR_ROLE'', ''KEY_ROTATOR_ROLE'', ''DEFAULT_ADMIN_ROLE'']\<rparr>),
     (''ContractRegistry'', \<lparr>cm_address = ''0xe7f1725E7734CE288F8367e1Bb143E90bb3F0512'', cm_roles = [''REGISTRAR_ROLE'', ''DEFAULT_ADMIN_ROLE'']\<rparr>),
     (''GovernanceContract'', \<lparr>cm_address = ''0xCf7Ed3AccA5a467e9e704C703E8D87F634fB0Fc9'', cm_roles = [''GOVERNANCE_ROLE'', ''DEFAULT_ADMIN_ROLE'']\<rparr>),
     (''AnchorRegistry'', \<lparr>cm_address = ''0x9fE46736679d2D9a65F0992F2272dE9f3c7fa6e0'', cm_roles = [''ANCHOR_ROLE'', ''DEFAULT_ADMIN_ROLE'']\<rparr>)]"

definition roleHashExpr :: "string \<Rightarrow> string" where
  "roleHashExpr role = (if role = ''DEFAULT_ADMIN_ROLE'' then ''0x'' @ replicate 64 CHR ''0'' else ''$(cast keccak \"'' @ role @ ''\")'')"

definition isAddress :: "string \<Rightarrow> bool" where
  "isAddress s \<longleftrightarrow> starts_with ''0x'' s \<and> length s = 42 \<and> (\<forall>c\<in>set (drop 2 s). hex_val c \<noteq> None)"

subsection \<open>Values of any shape\<close>

text \<open>\<open>`${v}`\<close>, with undefined for a missing property.\<close>

definition tpl :: "json option \<Rightarrow> string" where
  "tpl v = (case v of None \<Rightarrow> ''undefined'' | Some x \<Rightarrow> js_String x)"

text \<open>The length in UTF-16 units of a text given by its UTF-8 bytes.\<close>

definition utf16_length :: "string \<Rightarrow> nat" where
  "utf16_length s = sum_list (map (\<lambda>c. let n = (of_char c :: nat) in if n < 128 then 1 else if n < 192 then 0 else if n < 240 then 1 else 2) s)"

definition js_length :: "json \<Rightarrow> json option" where
  "js_length v = (case v of JStr s \<Rightarrow> Some (JNum (int (utf16_length s))) | JArr xs \<Rightarrow> Some (JNum (int (length xs))) | _ \<Rightarrow> json_get v ''length'')"

definition at_most :: "json option \<Rightarrow> int \<Rightarrow> bool" where
  "at_most v n = (case v of Some (JNum k) \<Rightarrow> k \<le> n | Some JNull \<Rightarrow> 0 \<le> n | Some (JBool b) \<Rightarrow> (if b then 1 else 0) \<le> n
     | Some (JStr s) \<Rightarrow> (case js_Number s of None \<Rightarrow> False | Some k \<Rightarrow> k \<le> n) | _ \<Rightarrow> False)"

definition is_decimal :: "string \<Rightarrow> bool" where
  "is_decimal s = (let w = takeWhile is_digit s; r = dropWhile is_digit s in
     w \<noteq> [] \<and> (r = [] \<or> (hd r = CHR ''.'' \<and> tl r \<noteq> [] \<and> list_all is_digit (tl r))))"

subsection \<open>Proposals\<close>

datatype Risk = Risk_low | Risk_medium | Risk_high

record Proposal =
  pr_kind :: string
  pr_title :: string
  pr_summary :: string
  pr_risk :: Risk
  pr_commands :: "string list"
  pr_notes :: "string list"

definition COMMON :: string where "COMMON = ''--rpc-url '' @ WRITE_RPC @ '' --legacy --gas-price 0''"

definition need :: "bool \<Rightarrow> string \<Rightarrow> unit js" where
  "need cond msg = (if cond then Inr () else Inl (PlainError msg))"

lemma need_Inr [simp]: "need c m = Inr u \<longleftrightarrow> c"
  by (simp add: need_def)

definition quoted :: "string \<Rightarrow> string" where "quoted s = CHR 0x27 # s @ [CHR 0x27]"
definition em_dash :: string where "em_dash = [CHR 0xE2, CHR 0x80, CHR 0x94]"
definition arrow :: string where "arrow = [CHR 0xE2, CHR 0x86, CHR 0x92]"

definition buildFund :: "json option \<Rightarrow> json option \<Rightarrow> Proposal js" where
  "buildFund to amountEth =
     bindE (need (isAddress (tpl to)) (''invalid '' @ quoted ''to'' @ '' address'')) (\<lambda>_.
     bindE (need (is_decimal (tpl amountEth)) ''invalid amount'') (\<lambda>_.
     Inr \<lparr>pr_kind = ''fund'', pr_title = ''Fund account'',
       pr_summary = ''Send '' @ tpl amountEth @ '' HARA to '' @ tpl to @ '' from the genesis funder'', pr_risk = Risk_low,
       pr_commands = [''cast send '' @ tpl to @ '' --value '' @ tpl amountEth @ ''ether '' @ COMMON @ '' --private-key $HARA_FUNDER_KEY''],
       pr_notes = [''Funder = anvil-1 '' @ FUNDER @ '' (genesis, public key). Set $HARA_FUNDER_KEY in your shell.'',
         ''Gas is free, so a one-time balance is never consumed '' @ em_dash @ '' this fixes the zero-balance tx-skip.'',
         ''Verify after: cast balance <to> --rpc-url https://rpc.ledger.haratrust.io/read/'']\<rparr>))"

definition buildRegister :: "json option \<Rightarrow> json option \<Rightarrow> json option \<Rightarrow> Proposal js" where
  "buildRegister name version address =
     bindE (need (truthy_opt name \<and> at_most (Option.bind name js_length) 31) ''name required (<=31 bytes for bytes32)'') (\<lambda>_.
     bindE (need (case as_int version of None \<Rightarrow> False | Some n \<Rightarrow> 0 \<le> n) ''version must be a non-negative integer'') (\<lambda>_.
     bindE (need (isAddress (tpl address)) ''invalid contract address'') (\<lambda>_.
     Inr \<lparr>pr_kind = ''register'', pr_title = ''Register contract in ContractRegistry'',
       pr_summary = ''register(\"'' @ tpl name @ ''\", v'' @ tpl version @ '', '' @ tpl address @ '')'', pr_risk = Risk_medium,
       pr_commands = [''cast send '' @ cm_address (the (map_of CONTRACTS ''ContractRegistry'')) @ '' \"register(bytes32,uint64,address)\" $(cast keccak \"''
         @ tpl name @ ''\") '' @ tpl version @ '' '' @ tpl address @ '' '' @ COMMON @ '' --private-key $HARA_REGISTRAR_KEY''],
       pr_notes = [''Needs REGISTRAR_ROLE '' @ em_dash @ '' the platform admin '' @ ADMIN @ '' holds it ($HARA_REGISTRAR_KEY = admin or a delegated registrar).'',
         ''name is bytes32 = keccak256(utf8(name)) via `cast keccak` '' @ em_dash
           @ '' matches the deploy scripts and getActive(); confirm the version is new for this name.'']\<rparr>)))"

text \<open>The properties every object inherits are no contracts: they have no roles, and the test throws.\<close>

definition inherited :: "string list" where
  "inherited = [''constructor'', ''__proto__'', ''hasOwnProperty'', ''isPrototypeOf'', ''propertyIsEnumerable'', ''toLocaleString'',
     ''toString'', ''valueOf'', ''__defineGetter__'', ''__defineSetter__'', ''__lookupGetter__'', ''__lookupSetter__'']"

definition buildGrantRole :: "json option \<Rightarrow> json option \<Rightarrow> json option \<Rightarrow> json option \<Rightarrow> Proposal js" where
  "buildGrantRole contract role account revoke =
     (case map_of CONTRACTS (tpl contract) of
        None \<Rightarrow> if tpl contract \<in> set inherited then Inl TypeError else Inl (PlainError (''unknown contract '' @ quoted (tpl contract)))
      | Some meta \<Rightarrow>
          bindE (need (case role of Some (JStr r) \<Rightarrow> r \<in> set (cm_roles meta) | _ \<Rightarrow> False)
            (''role '' @ quoted (tpl role) @ '' not valid for '' @ tpl contract)) (\<lambda>_.
          bindE (need (isAddress (tpl account)) ''invalid account address'') (\<lambda>_.
          let revoking = truthy_opt revoke; fn = (if revoking then ''revokeRole'' else ''grantRole'') in
          Inr \<lparr>pr_kind = fn, pr_title = (if revoking then ''Revoke'' else ''Grant'') @ '' '' @ tpl role @ '' on '' @ tpl contract,
            pr_summary = fn @ ''('' @ tpl role @ '', '' @ tpl account @ '') @ '' @ cm_address meta, pr_risk = Risk_high,
            pr_commands = [''cast send '' @ cm_address meta @ '' \"'' @ fn @ ''(bytes32,address)\" '' @ roleHashExpr (tpl role) @ '' '' @ tpl account
              @ '' '' @ COMMON @ '' --private-key $HARA_ADMIN_KEY''],
            pr_notes = [''Uses the platform ADMIN key ('' @ ADMIN @ ''). HIGH RISK '' @ em_dash @ '' admin authority.'']
              @ (if revoking then [] else [''Follow the grant '' @ arrow @ '' use '' @ arrow @ '' revoke pattern: revoke the role once the task is done.''])
              @ [''Until the P2 Gnosis Safe multisig lands, admin actions are single-key '' @ em_dash @ '' double-check the account.'']\<rparr>)))"

text \<open>\<open>for (const r of p.roles ?? [])\<close>: an array is walked, a text by its characters, anything else cannot be.\<close>

definition role_list :: "json option \<Rightarrow> json list js" where
  "role_list v = (case v of None \<Rightarrow> Inr [] | Some JNull \<Rightarrow> Inr [] | Some (JArr xs) \<Rightarrow> Inr xs
     | Some (JStr s) \<Rightarrow> Inr (map (\<lambda>c. JStr [c]) s) | _ \<Rightarrow> Inl TypeError)"

definition onboard_role :: "json option \<Rightarrow> json \<Rightarrow> (string \<times> string) js" where
  "onboard_role address r = (if r = JNull then Inl TypeError
     else bindE (buildGrantRole (json_get r ''contract'') (json_get r ''role'') address None) (\<lambda>p.
       Inr (hd (pr_commands p), ''Grants '' @ tpl (json_get r ''role'') @ '' on '' @ tpl (json_get r ''contract'') @ '' (admin key; revoke when done).'')))"

definition buildOnboard :: "json \<Rightarrow> Proposal js" where
  "buildOnboard p = (let label = json_get p ''label''; address = json_get p ''address''; amountEth = json_get p ''amountEth'';
       register = json_get p ''register'' in
     bindE (need (truthy_opt label) ''label required'') (\<lambda>_.
     bindE (need (isAddress (tpl address)) ''invalid deployer address'') (\<lambda>_.
     bindE (buildFund address amountEth) (\<lambda>fund.
     bindE (role_list (json_get p ''roles'')) (\<lambda>roles.
     bindE (mapE (onboard_role address) roles) (\<lambda>grants.
     bindE (if truthy_opt register
            then bindE (buildRegister (json_get (the register) ''name'') (json_get (the register) ''version'') address) (\<lambda>r.
              Inr [(hd (pr_commands r), ''Registers \"'' @ tpl (json_get (the register) ''name'') @ ''\" v'' @ tpl (json_get (the register) ''version'')
                @ '' in ContractRegistry.'')])
            else Inr []) (\<lambda>regs.
     Inr \<lparr>pr_kind = ''onboard'', pr_title = ''Onboard partner: '' @ tpl label,
       pr_summary = ''fund '' @ tpl amountEth @ '' HARA'' @ (if roles = [] then [] else '' + '' @ js_num (length roles) @ '' role(s)'')
         @ (if truthy_opt register then '' + registry'' else []),
       pr_risk = (if roles = [] then Risk_low else Risk_high),
       pr_commands = hd (pr_commands fund) # map fst (grants @ regs),
       pr_notes = [''Onboarding \"'' @ tpl label @ ''\" (deployer '' @ tpl address @ '').'', ''Step 1 funds the deployer (avoids the zero-balance hang).'']
         @ map snd (grants @ regs)
         @ [''Hand the partner doc/hara-xchange-deploy-guide.md (template), pre-filled with their address.'']\<rparr>)))))))"

definition is_host :: "string \<Rightarrow> bool" where
  "is_host s \<longleftrightarrow> s \<noteq> [] \<and> list_all (\<lambda>c. is_alnum c \<or> c = CHR ''.'' \<or> c = CHR ''-'') s"

definition is_snapshot_unit :: "string \<Rightarrow> bool" where
  "is_snapshot_unit s \<longleftrightarrow> starts_with ''hara-'' s \<and> starts_with (rev ''-snapshot'') (rev s) \<and> length s > 14
     \<and> list_all (\<lambda>c. (is_alnum c \<and> \<not> is_digit c \<and> lower_char c = c) \<or> c = CHR ''-'') s"

text \<open>\<open>p.unit.includes("validator")\<close>, of a text or of an array; a missing unit is never a snapshot service.\<close>

definition mentions_validator :: "json \<Rightarrow> bool js" where
  "mentions_validator v = (case v of JStr u \<Rightarrow> Inr (is_part_of ''validator'' u) | JArr xs \<Rightarrow> Inr (JStr ''validator'' \<in> set xs) | _ \<Rightarrow> Inl TypeError)"

definition buildSnapshot :: "json option \<Rightarrow> json option \<Rightarrow> Proposal js" where
  "buildSnapshot host target =
     bindE (need (is_host (tpl host)) ''invalid host'') (\<lambda>_.
     bindE (need (is_snapshot_unit (tpl target)) ''unit must be a hara-*-snapshot service'') (\<lambda>_.
     bindE (mentions_validator (the target)) (\<lambda>isValidator.
     Inr \<lparr>pr_kind = ''snapshot'', pr_title = ''Trigger '' @ tpl target @ '' on '' @ tpl host, pr_summary = ''on-demand '' @ tpl target,
       pr_risk = (if isValidator then Risk_high else Risk_medium),
       pr_commands = [''ssh '' @ tpl host @ '' \"sudo systemctl start '' @ tpl target @ ''.service && journalctl -u '' @ tpl target @ ''.service -n 20 --no-pager\"''],
       pr_notes = (if isValidator
         then [[CHR 0xE2, CHR 0x9A, CHR 0xA0] @ '' The validator snapshot STOPS the validator while it archives. Run ONE at a time (QBFT needs 3/4).'']
         else [''Safe '' @ em_dash @ '' no service downtime (Postgres/Vault snapshots stream live).''])\<rparr>)))"

definition buildProposal :: "string \<Rightarrow> json \<Rightarrow> Proposal js" where
  "buildProposal kind params =
     (if kind = ''fund'' then buildFund (json_get params ''to'') (json_get params ''amountEth'')
      else if kind = ''register'' then buildRegister (json_get params ''name'') (json_get params ''version'') (json_get params ''address'')
      else if kind = ''grantRole'' then buildGrantRole (json_get params ''contract'') (json_get params ''role'') (json_get params ''account'') (json_get params ''revoke'')
      else if kind = ''revokeRole'' then buildGrantRole (json_get params ''contract'') (json_get params ''role'') (json_get params ''account'') (Some (JBool True))
      else if kind = ''onboard'' then buildOnboard params
      else if kind = ''snapshot'' then buildSnapshot (json_get params ''host'') (json_get params ''unit'')
      else Inl (PlainError (''unknown proposal kind '' @ quoted kind)))"

subsection \<open>The audit log\<close>

record AuditEntry =
  au_ts :: string
  au_actor :: string
  au_kind :: string
  au_summary :: string
  au_risk :: Risk
  au_params :: json
  au_commands :: "string list"

text \<open>\<open>lines.slice(-limit).reverse()\<close>; a limit of 0, or one that is no number, keeps every line, and a negative one drops lines from the front.\<close>

definition readAudit :: "int option \<Rightarrow> 'a list \<Rightarrow> 'a list" where
  "readAudit limit entries = rev (case limit of None \<Rightarrow> entries
     | Some n \<Rightarrow> if n = 0 then entries else if n < 0 then drop (nat (- n)) entries else drop (length entries - nat n) entries)"

lemma readAudit_newest: "0 < n \<Longrightarrow> readAudit (Some n) entries = take (nat n) (rev entries)"
  by (simp add: readAudit_def take_rev)

subsection \<open>What the commands contain\<close>

definition shell_safe :: "string \<Rightarrow> bool" where
  "shell_safe s \<longleftrightarrow> s \<noteq> [] \<and> (\<forall>c\<in>set s. is_alnum c \<or> c = CHR ''.'' \<or> c = CHR ''-'')"

end
