(* ===== verification/ConsoleUsers.thy ===== *)
theory ConsoleUsers
  imports ConsoleProposals TxPipeline
begin

text \<open>
  Users and sessions of the operator console (\<open>console/server/src/auth.ts\<close>, \<open>users.ts\<close>, \<open>db.ts\<close>, the routes of
  \<open>index.ts\<close> that concern them, proposals and the audit log) over the tables \<open>console.users\<close> and \<open>console.sessions\<close>.
  Clock, random bytes and failures of statements are streams; scrypt, SHA-256 and base64url are parameters.  A request runs to
  its end before the next one starts; what happens otherwise is the subject of a lemma in theory ConsoleClaims.  The log
  file of the audit is a list of entries.
\<close>

subsection \<open>Roles and passwords\<close>

record ConsoleCrypto =
  kk_scrypt :: "string \<Rightarrow> bytes \<Rightarrow> nat \<Rightarrow> bytes"
  kk_sha256 :: "string \<Rightarrow> string"
  kk_base64url :: "bytes \<Rightarrow> string"

definition ROLES :: "string list" where "ROLES = [''viewer'', ''operator'', ''approver'', ''owner'']"

definition RANK :: "(string \<times> nat) list" where "RANK = [(''viewer'', 1), (''operator'', 2), (''approver'', 3), (''owner'', 4)]"

definition isRole :: "string \<Rightarrow> bool" where "isRole r \<longleftrightarrow> r \<in> set ROLES"

definition rank :: "string \<Rightarrow> nat" where "rank r = default_to 0 (map_of RANK r)"

definition roleAtLeast :: "string \<Rightarrow> string \<Rightarrow> bool" where "roleAtLeast own least \<longleftrightarrow> rank own \<ge> rank least"

text \<open>\<open>Buffer.from\<close> never throws on hexadecimal text; an empty hash never verifies.\<close>

definition verifyPassword :: "ConsoleCrypto \<Rightarrow> string \<Rightarrow> string \<Rightarrow> bool" where
  "verifyPassword kk pw stored = (let parts = split_at_char CHR ''$'' stored in
     if length parts < 3 \<or> parts ! 0 \<noteq> ''scrypt'' \<or> parts ! 1 = [] \<or> parts ! 2 = [] then False
     else (let wanted = buffer_from_hex (parts ! 2);
               dk = kk_scrypt kk pw (buffer_from_hex (parts ! 1)) (if wanted = [] then 64 else length wanted)
           in length dk = length wanted \<and> dk = wanted))"

definition password_hash :: "ConsoleCrypto \<Rightarrow> string \<Rightarrow> bytes \<Rightarrow> string" where
  "password_hash kk pw salt = ''scrypt$'' @ hex_of salt @ ''$'' @ hex_of (kk_scrypt kk pw salt 64)"

subsection \<open>State\<close>

record ConsoleUser =
  cu_id :: int
  cu_username :: string
  cu_email :: "string option"
  cu_hash :: string
  cu_role :: string
  cu_status :: string
  cu_createdAt :: int
  cu_lastLoginAt :: "int option"
  cu_createdBy :: "string option"

record ConsoleSession =
  cs_tokenHash :: string
  cs_userId :: int
  cs_expiresAt :: int
  cs_userAgent :: string

record Console =
  co_users :: "ConsoleUser list"
  co_sessions :: "ConsoleSession list"
  co_nextId :: int
  co_audit :: "AuditEntry list"
  co_clock :: "int stream"
  co_random :: "bytes stream"
  co_sql :: "string option stream"

type_synonym 'a cop = "(Console, js_exn, 'a) xop"

definition co_query :: "(Console \<Rightarrow> 'a) \<Rightarrow> (Console \<Rightarrow> Console) \<Rightarrow> 'a cop" where
  "co_query f g s = (let s1 = s\<lparr>co_sql := stl (co_sql s)\<rparr> in
     case shd (co_sql s) of None \<Rightarrow> (Inr (f s1), g s1) | Some msg \<Rightarrow> (Inl (PlainError msg), s1))"

definition co_select :: "(Console \<Rightarrow> 'a) \<Rightarrow> 'a cop" where "co_select f = co_query f (\<lambda>s. s)"

definition co_update :: "(Console \<Rightarrow> Console) \<Rightarrow> unit cop" where "co_update g = co_query (\<lambda>s. ()) g"

definition co_now :: "int cop" where "co_now s = (Inr (shd (co_clock s)), s\<lparr>co_clock := stl (co_clock s)\<rparr>)"

definition co_randomBytes :: "bytes cop" where "co_randomBytes s = (Inr (shd (co_random s)), s\<lparr>co_random := stl (co_random s)\<rparr>)"

definition fail_with :: "string \<Rightarrow> 'a cop" where "fail_with msg = throw (PlainError msg)"

definition find_user :: "int \<Rightarrow> Console \<Rightarrow> ConsoleUser option" where
  "find_user i s = find (\<lambda>u. cu_id u = i) (co_users s)"

definition find_username :: "string \<Rightarrow> Console \<Rightarrow> ConsoleUser option" where
  "find_username n s = find (\<lambda>u. cu_username u = n) (co_users s)"

definition map_user :: "int \<Rightarrow> (ConsoleUser \<Rightarrow> ConsoleUser) \<Rightarrow> Console \<Rightarrow> Console" where
  "map_user i f s = s\<lparr>co_users := map (\<lambda>u. if cu_id u = i then f u else u) (co_users s)\<rparr>"

definition active_owner :: "ConsoleUser \<Rightarrow> bool" where
  "active_owner u \<longleftrightarrow> cu_role u = ''owner'' \<and> cu_status u = ''active''"

subsection \<open>Sessions\<close>

definition hashPassword :: "ConsoleCrypto \<Rightarrow> string \<Rightarrow> string cop" where
  "hashPassword kk pw = bindS co_randomBytes (\<lambda>salt. ret (password_hash kk pw salt))"

record ConsoleConfig =
  kc_ttlHours :: "int option"
  kc_bootstrapUser :: string
  kc_bootstrapPassword :: string
  kc_authEnabled :: bool

definition loadConsoleConfig :: "env \<Rightarrow> ConsoleConfig" where
  "loadConsoleConfig env =
     \<lparr>kc_ttlHours = (case env ''CONSOLE_SESSION_TTL_HOURS'' of None \<Rightarrow> Some 12 | Some v \<Rightarrow> js_Number v),
      kc_bootstrapUser = to_lower (default_to ''owner'' (env ''CONSOLE_BOOTSTRAP_USER'')),
      kc_bootstrapPassword = default_to [] (env ''CONSOLE_BOOTSTRAP_PASSWORD''),
      kc_authEnabled = ((case env ''CONSOLE_DATABASE_URL'' of Some v \<Rightarrow> v | None \<Rightarrow> default_to [] (env ''DATABASE_URL'')) \<noteq> [])\<rparr>"

text \<open>A session that ends at no valid time is refused by the database.\<close>

definition createSession :: "ConsoleCrypto \<Rightarrow> ConsoleConfig \<Rightarrow> int \<Rightarrow> string \<Rightarrow> string cop" where
  "createSession kk cfg userId agent =
     bindS co_randomBytes (\<lambda>raw. let token = kk_base64url kk raw in
     bindS co_now (\<lambda>time.
     case kc_ttlHours cfg of None \<Rightarrow> fail_with ''invalid input syntax for type timestamp with time zone''
     | Some ttl \<Rightarrow>
         bindS (co_select (\<lambda>s. (\<exists>x\<in>set (co_sessions s). cs_tokenHash x = kk_sha256 kk token) \<or> find_user userId s = None)) (\<lambda>clash.
         if clash then fail_with ''duplicate key or missing user''
         else (\<lambda>s. (Inr token, s\<lparr>co_sessions := co_sessions s @ [\<lparr>cs_tokenHash = kk_sha256 kk token, cs_userId = userId,
           cs_expiresAt = time + ttl * 3600 * 1000, cs_userAgent = take 300 agent\<rparr>]\<rparr>)))))"

record SessionUser =
  su_id :: int
  su_username :: string
  su_role :: string

definition resolveSession :: "ConsoleCrypto \<Rightarrow> ConsoleConfig \<Rightarrow> string option \<Rightarrow> SessionUser option cop" where
  "resolveSession kk cfg token =
     (if \<not> truthy_str token \<or> \<not> kc_authEnabled cfg then ret None
      else bindS co_now (\<lambda>time.
        bindS (co_select (\<lambda>s. case find (\<lambda>x. cs_tokenHash x = kk_sha256 kk (the token) \<and> cs_expiresAt x > time) (co_sessions s) of
            None \<Rightarrow> None | Some x \<Rightarrow> find_user (cs_userId x) s)) (\<lambda>row.
        ret (case row of None \<Rightarrow> None
          | Some r \<Rightarrow> if cu_status r \<noteq> ''active'' \<or> \<not> isRole (cu_role r) then None
              else Some \<lparr>su_id = cu_id r, su_username = cu_username r, su_role = cu_role r\<rparr>))))"

definition destroySession :: "ConsoleCrypto \<Rightarrow> ConsoleConfig \<Rightarrow> string option \<Rightarrow> unit cop" where
  "destroySession kk cfg token =
     (if \<not> truthy_str token \<or> \<not> kc_authEnabled cfg then ret ()
      else co_update (\<lambda>s. s\<lparr>co_sessions := filter (\<lambda>x. cs_tokenHash x \<noteq> kk_sha256 kk (the token)) (co_sessions s)\<rparr>))"

definition destroyUserSessions :: "int \<Rightarrow> unit cop" where
  "destroyUserSessions i = co_update (\<lambda>s. s\<lparr>co_sessions := filter (\<lambda>x. cs_userId x \<noteq> i) (co_sessions s)\<rparr>)"

text \<open>Failures of the pruning are swallowed.\<close>

definition pruneSessions :: "unit cop" where
  "pruneSessions = bindS co_now (\<lambda>time. tryS (co_update (\<lambda>s. s\<lparr>co_sessions := filter (\<lambda>x. \<not> cs_expiresAt x < time) (co_sessions s)\<rparr>)) (\<lambda>e. ret ()))"

subsection \<open>Users\<close>

definition MIN_PW :: nat where "MIN_PW = 10"

definition is_username :: "string \<Rightarrow> bool" where
  "is_username s \<longleftrightarrow> 3 \<le> length s \<and> length s \<le> 32
     \<and> list_all (\<lambda>c. (is_alnum c \<and> lower_char c = c) \<or> c \<in> set ''_.-'') s"

definition listUsers :: "ConsoleUser list cop" where
  "listUsers = co_select (\<lambda>s. sort_key cu_id (co_users s))"

definition en_dash :: string where "en_dash = [CHR 0xE2, CHR 0x80, CHR 0x93]"
definition at_least :: string where "at_least = [CHR 0xE2, CHR 0x89, CHR 0xA5]"

definition short_password :: string where "short_password = ''password must be '' @ at_least @ '' 10 characters''"

text \<open>\<open>email?.trim() || null\<close>.\<close>

definition clean_email :: "string option \<Rightarrow> string option" where
  "clean_email e = (case e of None \<Rightarrow> None | Some t \<Rightarrow> if js_trim t = [] then None else Some (js_trim t))"

definition insert_user :: "ConsoleUser \<Rightarrow> ConsoleUser cop" where
  "insert_user row = bindS (co_select (find_username (cu_username row))) (\<lambda>old.
     if old \<noteq> None then fail_with ''username already exists''
     else (\<lambda>s. let u = row\<lparr>cu_id := co_nextId s\<rparr> in (Inr u, s\<lparr>co_users := co_users s @ [u], co_nextId := co_nextId s + 1\<rparr>)))"

definition createUser :: "ConsoleCrypto \<Rightarrow> string \<Rightarrow> string \<Rightarrow> string \<Rightarrow> string option \<Rightarrow> string \<Rightarrow> ConsoleUser cop" where
  "createUser kk name pw role email createdBy = (let username = to_lower (js_trim name) in
     if \<not> is_username username then fail_with (''username must be 3'' @ en_dash @ ''32 chars of [a-z0-9_.-]'')
     else if pw = [] \<or> utf16_length pw < MIN_PW then fail_with short_password
     else if \<not> isRole role then fail_with ''invalid role (viewer|operator|approver|owner)''
     else bindS (hashPassword kk pw) (\<lambda>h.
       bindS co_now (\<lambda>time.
       insert_user \<lparr>cu_id = 0, cu_username = username, cu_email = clean_email email, cu_hash = h, cu_role = role, cu_status = ''active'',
         cu_createdAt = time, cu_lastLoginAt = None, cu_createdBy = Some createdBy\<rparr>)))"

definition assertNotLastOwner :: "ConsoleUser \<Rightarrow> unit cop" where
  "assertNotLastOwner target =
     (if \<not> active_owner target then ret ()
      else bindS (co_select (\<lambda>s. length (filter active_owner (co_users s)))) (\<lambda>n.
        if n \<le> 1 then fail_with ''cannot remove/demote/disable the last active owner'' else ret ()))"

text \<open>The fields of a patch are parsed JSON; one that is missing is not changed.  Each part gives the change of the row
  and whether the sessions of the user have to go.\<close>

type_synonym change = "(ConsoleUser \<Rightarrow> ConsoleUser) \<times> bool"

definition no_change :: "change option cop" where "no_change = ret None"

definition patch_role :: "ConsoleUser \<Rightarrow> json option \<Rightarrow> change option cop" where
  "patch_role target v = (case v of None \<Rightarrow> no_change | Some x \<Rightarrow>
     (case as_str v of None \<Rightarrow> fail_with ''invalid role''
      | Some r \<Rightarrow> if \<not> isRole r then fail_with ''invalid role''
          else bindS (if r \<noteq> ''owner'' then assertNotLastOwner target else ret ()) (\<lambda>_.
            ret (Some (\<lambda>u. u\<lparr>cu_role := r\<rparr>, True)))))"

definition patch_status :: "int \<Rightarrow> int \<Rightarrow> ConsoleUser \<Rightarrow> json option \<Rightarrow> change option cop" where
  "patch_status i actorId target v = (case v of None \<Rightarrow> no_change | Some x \<Rightarrow>
     (case as_str v of None \<Rightarrow> fail_with ''status must be active|disabled''
      | Some st \<Rightarrow> if st \<notin> {''active'', ''disabled''} then fail_with ''status must be active|disabled''
          else bindS (if st = ''disabled'' then (if i = actorId then fail_with ''you cannot disable your own account'' else assertNotLastOwner target)
            else ret ()) (\<lambda>_. ret (Some (\<lambda>u. u\<lparr>cu_status := st\<rparr>, st = ''disabled'')))))"

definition patch_email :: "json option \<Rightarrow> change option cop" where
  "patch_email v = (case v of None \<Rightarrow> no_change | Some x \<Rightarrow>
     (case as_str v of None \<Rightarrow> throw TypeError | Some e \<Rightarrow> ret (Some (\<lambda>u. u\<lparr>cu_email := clean_email (Some e)\<rparr>, False))))"

definition patch_password :: "ConsoleCrypto \<Rightarrow> json option \<Rightarrow> change option cop" where
  "patch_password kk v = (case v of None \<Rightarrow> no_change | Some x \<Rightarrow>
     (case as_str v of None \<Rightarrow> throw TypeError
      | Some pw \<Rightarrow> if utf16_length pw < MIN_PW then fail_with short_password
          else bindS (hashPassword kk pw) (\<lambda>h. ret (Some (\<lambda>u. u\<lparr>cu_hash := h\<rparr>, True)))))"

definition apply_changes :: "change option list \<Rightarrow> ConsoleUser \<Rightarrow> ConsoleUser" where
  "apply_changes cs u = fold (\<lambda>c u. case c of None \<Rightarrow> u | Some (f, _) \<Rightarrow> f u) cs u"

definition revoking :: "change option list \<Rightarrow> bool" where
  "revoking cs \<longleftrightarrow> (\<exists>f. Some (f, True) \<in> set cs)"

definition updateUser :: "ConsoleCrypto \<Rightarrow> int \<Rightarrow> json \<Rightarrow> int \<Rightarrow> ConsoleUser cop" where
  "updateUser kk i patch actorId =
     bindS (co_select (find_user i)) (\<lambda>row. case row of None \<Rightarrow> fail_with ''user not found''
     | Some target \<Rightarrow>
       bindS (patch_role target (json_get patch ''role'')) (\<lambda>c1.
       bindS (patch_status i actorId target (json_get patch ''status'')) (\<lambda>c2.
       bindS (patch_email (json_get patch ''email'')) (\<lambda>c3.
       bindS (patch_password kk (json_get patch ''password'')) (\<lambda>c4.
       let cs = [c1, c2, c3, c4] in
       if list_all (\<lambda>c. c = None) cs then fail_with ''no changes supplied''
       else
         bindS (co_update (map_user i (apply_changes cs))) (\<lambda>_.
         bindS (if revoking cs then destroyUserSessions i else ret ()) (\<lambda>_.
         (\<lambda>s. (case find_user i s of None \<Rightarrow> Inl TypeError | Some u \<Rightarrow> Inr u, s)))))))))"

text \<open>The sessions of a deleted user go with it.\<close>

definition remove_user :: "int \<Rightarrow> Console \<Rightarrow> Console" where
  "remove_user i s = s\<lparr>co_users := filter (\<lambda>u. cu_id u \<noteq> i) (co_users s), co_sessions := filter (\<lambda>x. cs_userId x \<noteq> i) (co_sessions s)\<rparr>"

definition deleteUser :: "int \<Rightarrow> int \<Rightarrow> unit cop" where
  "deleteUser i actorId =
     (if i = actorId then fail_with ''you cannot delete your own account''
      else bindS (co_select (find_user i)) (\<lambda>row. case row of None \<Rightarrow> fail_with ''user not found''
      | Some target \<Rightarrow> bindS (assertNotLastOwner target) (\<lambda>_. co_update (remove_user i))))"

definition changeOwnPassword :: "ConsoleCrypto \<Rightarrow> int \<Rightarrow> string \<Rightarrow> string \<Rightarrow> unit cop" where
  "changeOwnPassword kk i current next =
     (if utf16_length next < MIN_PW then fail_with short_password
      else bindS (co_select (find_user i)) (\<lambda>row. case row of None \<Rightarrow> fail_with ''current password is incorrect''
      | Some u \<Rightarrow> if \<not> verifyPassword kk current (cu_hash u) then fail_with ''current password is incorrect''
          else bindS (hashPassword kk next) (\<lambda>h. co_update (map_user i (\<lambda>u. u\<lparr>cu_hash := h\<rparr>)))))"

definition login :: "ConsoleCrypto \<Rightarrow> string \<Rightarrow> string \<Rightarrow> SessionUser option cop" where
  "login kk name pw =
     bindS (co_select (find_username (to_lower (js_trim name)))) (\<lambda>row. case row of None \<Rightarrow> ret None
     | Some r \<Rightarrow> if cu_status r \<noteq> ''active'' \<or> \<not> isRole (cu_role r) \<or> \<not> verifyPassword kk pw (cu_hash r) then ret None
         else bindS co_now (\<lambda>time.
           bindS (co_update (map_user (cu_id r) (\<lambda>u. u\<lparr>cu_lastLoginAt := Some time\<rparr>))) (\<lambda>_.
           ret (Some \<lparr>su_id = cu_id r, su_username = cu_username r, su_role = cu_role r\<rparr>))))"

definition ensureBootstrapOwner :: "ConsoleCrypto \<Rightarrow> ConsoleConfig \<Rightarrow> unit cop" where
  "ensureBootstrapOwner kk cfg =
     bindS (co_select (\<lambda>s. length (co_users s))) (\<lambda>n.
     if n > 0 then ret ()
     else bindS (if kc_bootstrapPassword cfg = [] then bindS co_randomBytes (\<lambda>raw. ret (kk_base64url kk raw)) else ret (kc_bootstrapPassword cfg)) (\<lambda>pw.
       bindS (createUser kk (kc_bootstrapUser cfg) pw ''owner'' None ''bootstrap'') (\<lambda>_. ret ())))"

end
