(* ===== verification/ConsoleRoutes.thy ===== *)
theory ConsoleRoutes
  imports ConsoleUsers
begin

text \<open>
  The requests of the operator console (\<open>console/server/src/index.ts\<close>): the gate before every handler, the role
  test, and the routes of authentication, user management, proposals and the audit log.  The other routes
  go to remote systems and are in ConsoleInsights.  Without a database (\<open>kc_authEnabled\<close> false) there are no sessions, every role test
  passes, and a statement is a \<open>TypeError\<close>.
\<close>

datatype ConsoleRoute =
    CR_healthz | CR_login | CR_me | CR_logout | CR_password | CR_list_users | CR_create_user
  | CR_patch_user string | CR_delete_user string | CR_propose string | CR_audit "string option"

record ConsoleRequest =
  cq_route :: ConsoleRoute
  cq_token :: "string option"
  cq_body :: "json option"
  cq_userAgent :: "string option"
  cq_actor :: "string option"

datatype ConsoleReply =
    CB_ok | CB_error string | CB_failed | CB_me "SessionUser option" bool | CB_session SessionUser string
  | CB_user ConsoleUser | CB_users "ConsoleUser list" | CB_proposal Proposal | CB_audit "AuditEntry list"

type_synonym reply = "nat \<times> ConsoleReply"

definition reply_error :: "nat \<Rightarrow> string \<Rightarrow> reply cop" where
  "reply_error code msg = ret (code, CB_error msg)"

text \<open>\<open>catch (e) { return reply.code(code).send({ error: e.message }) }\<close>.\<close>

definition caught :: "nat \<Rightarrow> reply cop \<Rightarrow> reply cop" where
  "caught code m = tryS m (\<lambda>e. reply_error code (exn_message e))"

text \<open>\<open>b.key ?? d\<close> where a text is expected; methods of texts throw on anything else.\<close>

definition text_or :: "string \<Rightarrow> json option \<Rightarrow> string js" where
  "text_or d v = (case v of None \<Rightarrow> Inr d | Some JNull \<Rightarrow> Inr d | Some (JStr s) \<Rightarrow> Inr s | _ \<Rightarrow> Inl TypeError)"

definition liftC :: "'a js \<Rightarrow> 'a cop" where "liftC m = (\<lambda>s. (m, s))"

definition requireRole :: "ConsoleConfig \<Rightarrow> SessionUser option \<Rightarrow> string \<Rightarrow> reply cop \<Rightarrow> reply cop" where
  "requireRole cfg user least m =
     (if \<not> kc_authEnabled cfg then m
      else case user of None \<Rightarrow> reply_error 403 (''requires '' @ least @ '' role'')
      | Some u \<Rightarrow> if roleAtLeast (su_role u) least then m else reply_error 403 (''requires '' @ least @ '' role''))"

definition actorOf :: "SessionUser option \<Rightarrow> ConsoleRequest \<Rightarrow> string" where
  "actorOf user req = (case user of Some u \<Rightarrow> su_username u | None \<Rightarrow> default_to ''anonymous'' (cq_actor req))"

text \<open>A statement when there is no pool.\<close>

definition with_pool :: "ConsoleConfig \<Rightarrow> 'a cop \<Rightarrow> 'a cop" where
  "with_pool cfg m = (if kc_authEnabled cfg then m else throw TypeError)"

definition post_login :: "ConsoleCrypto \<Rightarrow> ConsoleConfig \<Rightarrow> ConsoleRequest \<Rightarrow> reply cop" where
  "post_login kk cfg req =
     (if \<not> kc_authEnabled cfg then reply_error 404 ''auth not enabled''
      else if \<not> truthy_opt (body_prop (cq_body req) ''username'') \<or> \<not> truthy_opt (body_prop (cq_body req) ''password'')
      then reply_error 400 ''username and password required''
      else bindS (liftC (text_or [] (body_prop (cq_body req) ''username''))) (\<lambda>name.
        bindS (liftC (text_or [] (body_prop (cq_body req) ''password''))) (\<lambda>pw.
        bindS (login kk name pw) (\<lambda>u. case u of None \<Rightarrow> reply_error 401 ''invalid credentials''
        | Some u \<Rightarrow> bindS (createSession kk cfg (su_id u) (default_to [] (cq_userAgent req))) (\<lambda>token.
            ret (200, CB_session u token))))))"

definition post_logout :: "ConsoleCrypto \<Rightarrow> ConsoleConfig \<Rightarrow> ConsoleRequest \<Rightarrow> reply cop" where
  "post_logout kk cfg req = bindS (destroySession kk cfg (cq_token req)) (\<lambda>_. ret (200, CB_ok))"

definition post_password :: "ConsoleCrypto \<Rightarrow> SessionUser option \<Rightarrow> ConsoleRequest \<Rightarrow> reply cop" where
  "post_password kk user req = (case user of None \<Rightarrow> reply_error 401 ''unauthenticated''
     | Some u \<Rightarrow>
        if \<not> truthy_opt (body_prop (cq_body req) ''current'') \<or> \<not> truthy_opt (body_prop (cq_body req) ''next'')
        then reply_error 400 ''current and next required''
        else caught 400 (
          bindS (liftC (text_or [] (body_prop (cq_body req) ''current''))) (\<lambda>current.
          bindS (liftC (text_or [] (body_prop (cq_body req) ''next''))) (\<lambda>next.
          bindS (changeOwnPassword kk (su_id u) current next) (\<lambda>_. ret (200, CB_ok))))))"

definition get_users :: "ConsoleConfig \<Rightarrow> reply cop" where
  "get_users cfg = with_pool cfg (bindS listUsers (\<lambda>us. ret (200, CB_users us)))"

definition post_users :: "ConsoleCrypto \<Rightarrow> ConsoleConfig \<Rightarrow> SessionUser option \<Rightarrow> ConsoleRequest \<Rightarrow> reply cop" where
  "post_users kk cfg user req = (let b = body_prop (cq_body req) in caught 400 (
     bindS (liftC (text_or [] (b ''username''))) (\<lambda>name.
     bindS (liftC (text_or [] (b ''password''))) (\<lambda>pw.
     bindS (liftC (text_or ''viewer'' (b ''role''))) (\<lambda>role.
     bindS (liftC (case b ''email'' of None \<Rightarrow> Inr None | Some JNull \<Rightarrow> Inr None | Some (JStr e) \<Rightarrow> Inr (Some e) | _ \<Rightarrow> Inl TypeError)) (\<lambda>email.
     with_pool cfg (bindS (createUser kk name pw role email (actorOf user req)) (\<lambda>u. ret (200, CB_user u)))))))))"

definition user_id :: "string \<Rightarrow> int cop" where
  "user_id t = (case js_Number t of None \<Rightarrow> fail_with ''invalid input syntax for type bigint'' | Some n \<Rightarrow> ret n)"

definition patch_user :: "ConsoleCrypto \<Rightarrow> ConsoleConfig \<Rightarrow> SessionUser option \<Rightarrow> ConsoleRequest \<Rightarrow> string \<Rightarrow> reply cop" where
  "patch_user kk cfg user req i = caught 400 (case user of None \<Rightarrow> throw TypeError
     | Some u \<Rightarrow> bindS (user_id i) (\<lambda>n.
         bindS (updateUser kk n (default_to (JObj []) (cq_body req)) (su_id u)) (\<lambda>row. ret (200, CB_user row))))"

definition delete_user :: "SessionUser option \<Rightarrow> string \<Rightarrow> reply cop" where
  "delete_user user i = caught 400 (case user of None \<Rightarrow> throw TypeError
     | Some u \<Rightarrow> bindS (user_id i) (\<lambda>n. bindS (deleteUser n (su_id u)) (\<lambda>_. ret (200, CB_ok))))"

definition recordProposal :: "AuditEntry \<Rightarrow> unit cop" where
  "recordProposal entry = co_update (\<lambda>s. s\<lparr>co_audit := co_audit s @ [entry]\<rparr>)"

definition post_propose :: "SessionUser option \<Rightarrow> ConsoleRequest \<Rightarrow> string \<Rightarrow> reply cop" where
  "post_propose user req kind =
     (let params = (case cq_body req of None \<Rightarrow> JObj [] | Some JNull \<Rightarrow> JObj [] | Some v \<Rightarrow> v) in
      case buildProposal kind params of Inl e \<Rightarrow> reply_error 400 (exn_message e)
      | Inr p \<Rightarrow> bindS co_now (\<lambda>time.
          bindS (recordProposal \<lparr>au_ts = toISOString time, au_actor = actorOf user req, au_kind = pr_kind p, au_summary = pr_summary p,
            au_risk = pr_risk p, au_params = params, au_commands = pr_commands p\<rparr>) (\<lambda>_.
          ret (200, CB_proposal p))))"

definition get_audit :: "string option \<Rightarrow> reply cop" where
  "get_audit limit = (\<lambda>s. (Inr (200, CB_audit (readAudit (case limit of None \<Rightarrow> Some 100 | Some t \<Rightarrow> js_Number t) (co_audit s))), s))"

definition console_route :: "ConsoleCrypto \<Rightarrow> ConsoleConfig \<Rightarrow> ConsoleRequest \<Rightarrow> SessionUser option \<Rightarrow> reply cop" where
  "console_route kk cfg req user = (case cq_route req of
     CR_healthz \<Rightarrow> ret (200, CB_ok)
   | CR_login \<Rightarrow> post_login kk cfg req
   | CR_me \<Rightarrow> ret (200, CB_me user (kc_authEnabled cfg))
   | CR_logout \<Rightarrow> post_logout kk cfg req
   | CR_password \<Rightarrow> post_password kk user req
   | CR_list_users \<Rightarrow> requireRole cfg user ''owner'' (get_users cfg)
   | CR_create_user \<Rightarrow> requireRole cfg user ''owner'' (post_users kk cfg user req)
   | CR_patch_user i \<Rightarrow> requireRole cfg user ''owner'' (patch_user kk cfg user req i)
   | CR_delete_user i \<Rightarrow> requireRole cfg user ''owner'' (delete_user user i)
   | CR_propose kind \<Rightarrow> requireRole cfg user ''operator'' (post_propose user req kind)
   | CR_audit limit \<Rightarrow> get_audit limit)"

text \<open>The gate: every route but the health check and the login needs a session.  What a handler throws is answered 500.\<close>

definition console_gate :: "ConsoleCrypto \<Rightarrow> ConsoleConfig \<Rightarrow> ConsoleRequest \<Rightarrow> reply cop" where
  "console_gate kk cfg req =
     (if \<not> kc_authEnabled cfg \<or> cq_route req \<in> {CR_healthz, CR_login} then console_route kk cfg req None
      else bindS (resolveSession kk cfg (cq_token req)) (\<lambda>user.
        case user of None \<Rightarrow> reply_error 401 ''unauthenticated'' | Some u \<Rightarrow> console_route kk cfg req (Some u)))"

definition console_serve :: "ConsoleCrypto \<Rightarrow> ConsoleConfig \<Rightarrow> ConsoleRequest \<Rightarrow> Console \<Rightarrow> reply \<times> Console" where
  "console_serve kk cfg req s = (case console_gate kk cfg req s of
     (Inl e, s') \<Rightarrow> ((500, CB_failed), s') | (Inr r, s') \<Rightarrow> (r, s'))"

definition console_boot :: "ConsoleCrypto \<Rightarrow> ConsoleConfig \<Rightarrow> unit cop" where
  "console_boot kk cfg = (if \<not> kc_authEnabled cfg then ret ()
     else bindS (ensureBootstrapOwner kk cfg) (\<lambda>_. pruneSessions))"

end
