(* ===== verification/ConsoleClaims.thy ===== *)
theory ConsoleClaims
  imports ConsoleRoutes
begin

text \<open>
  Correctness of the console's users and sessions: the tables stay well formed, an active owner always remains, a change of
  users needs the session of an active owner, and a change of role, password or status ends the sessions of the
  user.  The last part is the interleaving in which two owners demote each other.
\<close>

subsection \<open>Statements\<close>

text \<open>The part of the state the invariants are about.\<close>

definition tables :: "Console \<Rightarrow> ConsoleUser list \<times> ConsoleSession list \<times> int" where
  "tables s = (co_users s, co_sessions s, co_nextId s)"

lemma wp_co_select [wp_simps]:
  "wp (co_select f) P s = (let s1 = s\<lparr>co_sql := stl (co_sql s)\<rparr> in
     case shd (co_sql s) of None \<Rightarrow> P (Inr (f s1)) s1 | Some msg \<Rightarrow> P (Inl (PlainError msg)) s1)"
  by (simp add: wp_def co_select_def co_query_def Let_def split: option.split)

lemma wp_co_update [wp_simps]:
  "wp (co_update g) P s = (let s1 = s\<lparr>co_sql := stl (co_sql s)\<rparr> in
     case shd (co_sql s) of None \<Rightarrow> P (Inr ()) (g s1) | Some msg \<Rightarrow> P (Inl (PlainError msg)) s1)"
  by (simp add: wp_def co_update_def co_query_def Let_def split: option.split)

lemma wp_co_now [wp_simps]: "wp co_now P s = P (Inr (shd (co_clock s))) (s\<lparr>co_clock := stl (co_clock s)\<rparr>)"
  by (simp add: wp_def co_now_def)

lemma wp_co_randomBytes [wp_simps]: "wp co_randomBytes P s = P (Inr (shd (co_random s))) (s\<lparr>co_random := stl (co_random s)\<rparr>)"
  by (simp add: wp_def co_randomBytes_def)

lemma wp_fail_with [wp_simps]: "wp (fail_with msg) P s = P (Inl (PlainError msg)) s"
  by (simp add: fail_with_def wp_simps)

lemma wp_liftC [wp_simps]: "wp (liftC m) P s = P m s"
  by (simp add: wp_def liftC_def)

lemma wp_hashPassword [wp_simps]:
  "wp (hashPassword kk pw) P s = P (Inr (password_hash kk pw (shd (co_random s)))) (s\<lparr>co_random := stl (co_random s)\<rparr>)"
  by (simp add: hashPassword_def wp_simps)

lemma tables_upd [simp]:
  "tables (s\<lparr>co_sql := a\<rparr>) = tables s" "tables (s\<lparr>co_clock := b\<rparr>) = tables s" "tables (s\<lparr>co_random := c\<rparr>) = tables s"
  "tables (s\<lparr>co_audit := d\<rparr>) = tables s"
  by (simp_all add: tables_def)

lemma find_user_upd [simp]:
  "find_user i (s\<lparr>co_sql := a\<rparr>) = find_user i s" "find_user i (s\<lparr>co_clock := b\<rparr>) = find_user i s"
  "find_user i (s\<lparr>co_random := c\<rparr>) = find_user i s" "find_username n (s\<lparr>co_sql := a\<rparr>) = find_username n s"
  "find_username n (s\<lparr>co_clock := b\<rparr>) = find_username n s" "find_username n (s\<lparr>co_random := c\<rparr>) = find_username n s"
  by (simp_all add: find_user_def find_username_def)

subsection \<open>Well-formed tables\<close>

definition user_ok :: "ConsoleUser \<Rightarrow> bool" where
  "user_ok u \<longleftrightarrow> isRole (cu_role u) \<and> cu_status u \<in> {''active'', ''disabled''} \<and> is_username (cu_username u)"

definition tables_ok :: "ConsoleUser list \<times> ConsoleSession list \<times> int \<Rightarrow> bool" where
  "tables_ok t = (case t of (us, xs, n) \<Rightarrow> distinct (map cu_id us) \<and> distinct (map cu_username us)
     \<and> (\<forall>u\<in>set us. user_ok u \<and> cu_id u < n) \<and> distinct (map cs_tokenHash xs) \<and> cs_userId ` set xs \<subseteq> cu_id ` set us)"

definition has_owner :: "ConsoleUser list \<Rightarrow> bool" where
  "has_owner us \<longleftrightarrow> (\<exists>u\<in>set us. active_owner u)"

lemma tables_okD:
  assumes "tables_ok (tables s)"
  shows "distinct (map cu_id (co_users s))" "distinct (map cu_username (co_users s))" "\<And>u. u \<in> set (co_users s) \<Longrightarrow> user_ok u"
    "\<And>u. u \<in> set (co_users s) \<Longrightarrow> cu_id u < co_nextId s" "distinct (map cs_tokenHash (co_sessions s))"
    "cs_userId ` set (co_sessions s) \<subseteq> cu_id ` set (co_users s)"
  using assms by (auto simp: tables_ok_def tables_def)

lemma find_user_Some: "find_user i s = Some u \<Longrightarrow> u \<in> set (co_users s) \<and> cu_id u = i"
  by (auto simp: find_user_def find_Some_iff)

text \<open>A change of one row that keeps identifier and name.\<close>

definition row_change :: "(ConsoleUser \<Rightarrow> ConsoleUser) \<Rightarrow> bool" where
  "row_change f \<longleftrightarrow> (\<forall>u. cu_id (f u) = cu_id u \<and> cu_username (f u) = cu_username u \<and> (user_ok u \<longrightarrow> user_ok (f u)))"

lemma map_user_ok:
  assumes "tables_ok (tables s)" "row_change f"
  shows "tables_ok (tables (map_user i f s))"
proof -
  let ?us = "co_users (map_user i f s)"
  have ids: "map cu_id ?us = map cu_id (co_users s)" and names: "map cu_username ?us = map cu_username (co_users s)"
    using assms(2) by (auto simp: row_change_def map_user_def)
  have "set (map cu_id ?us) = set (map cu_id (co_users s))" by (simp only: ids)
  then have img: "cu_id ` set ?us = cu_id ` set (co_users s)" by (simp only: set_map)
  have rows: "user_ok u \<and> cu_id u < co_nextId s" if "u \<in> set ?us" for u
    using that assms(2) tables_okD(3,4)[OF assms(1)] by (auto simp: row_change_def map_user_def)
  have rest: "co_sessions (map_user i f s) = co_sessions s" "co_nextId (map_user i f s) = co_nextId s"
    by (simp_all add: map_user_def)
  show ?thesis
    using tables_okD(1,2,5,6)[OF assms(1)] rows unfolding tables_ok_def tables_def prod.case ids names img rest by blast
qed

lemma map_user_sessions [simp]: "co_sessions (map_user i f s) = co_sessions s"
  by (simp add: map_user_def)

text \<open>Fewer sessions are no problem.\<close>

lemma fewer_sessions_ok: "tables_ok (us, xs, n) \<Longrightarrow> tables_ok (us, filter P xs, n)"
  by (auto simp: tables_ok_def distinct_map_filter)

lemma remove_user_ok: "tables_ok (tables s) \<Longrightarrow> tables_ok (tables (remove_user i s))"
  by (auto simp: tables_ok_def tables_def remove_user_def distinct_map_filter image_subset_iff) 

text \<open>The last owner: removing or changing one row keeps an active owner when the row is none, or there are two.\<close>

definition expendable :: "ConsoleUser \<Rightarrow> Console \<Rightarrow> bool" where
  "expendable target s \<longleftrightarrow> \<not> active_owner target \<or> 2 \<le> length (filter active_owner (co_users s))"

lemma other_owner:
  assumes "distinct (map cu_id us)" "has_owner us" "target \<in> set us" "\<not> active_owner target \<or> 2 \<le> length (filter active_owner us)"
  shows "\<exists>u\<in>set us. active_owner u \<and> cu_id u \<noteq> cu_id target"
proof (cases "active_owner target")
  case True
  with assms(4) have "2 \<le> card (set (filter active_owner us))"
    using distinct_card[of "filter active_owner us"] assms(1) by (simp add: distinct_map)
  moreover have "set (filter active_owner us) \<subseteq> {target}" if "\<And>u. u \<in> set us \<Longrightarrow> active_owner u \<Longrightarrow> cu_id u = cu_id target"
    using that assms(1,3) by (auto simp: distinct_map dest: inj_onD)
  then have "card (set (filter active_owner us)) \<le> 1" if "\<And>u. u \<in> set us \<Longrightarrow> active_owner u \<Longrightarrow> cu_id u = cu_id target"
    using that card_mono[of "{target}" "set (filter active_owner us)"] by simp
  ultimately show ?thesis by fastforce
next
  case False
  with assms(1-3) show ?thesis by (auto simp: has_owner_def distinct_map dest: inj_onD)
qed

lemma wp_assertNotLastOwner:
  "wp (assertNotLastOwner target) (\<lambda>r s'. tables s' = tables s \<and> (r = Inr () \<longrightarrow> expendable target s)) s"
  by (auto simp: assertNotLastOwner_def wp_simps expendable_def Let_def split: option.splits)

subsection \<open>Changes of a row\<close>

definition keeps_owner :: "(ConsoleUser \<Rightarrow> ConsoleUser) \<Rightarrow> bool" where
  "keeps_owner f \<longleftrightarrow> (\<forall>u. active_owner u \<longrightarrow> active_owner (f u))"

text \<open>What a part of a patch gives: a change that keeps rows well formed, that spares the last owner, and, where the sessions have to go
  (\<open>r\<close>), says so.\<close>

definition change_ok :: "ConsoleUser \<Rightarrow> Console \<Rightarrow> bool \<Rightarrow> change option \<Rightarrow> bool" where
  "change_ok target s r c \<longleftrightarrow> (case c of None \<Rightarrow> \<not> r
     | Some (f, b) \<Rightarrow> row_change f \<and> (expendable target s \<or> keeps_owner f) \<and> (r \<longrightarrow> b))"

definition patch_post :: "ConsoleUser \<Rightarrow> Console \<Rightarrow> bool \<Rightarrow> js_exn + change option \<Rightarrow> Console \<Rightarrow> bool" where
  "patch_post target s r x s' \<longleftrightarrow> tables s' = tables s \<and> (\<forall>c. x = Inr c \<longrightarrow> change_ok target s r c)"

lemma expendable_tables: "tables s' = tables s \<Longrightarrow> expendable t s' = expendable t s"
  by (simp add: expendable_def tables_def)

lemma wp_spare_owner:
  assumes "row_change f" "b \<or> keeps_owner f"
  shows "wp (bindS (if b then assertNotLastOwner target else ret ()) (\<lambda>_. ret (Some (f, r)))) (patch_post target s r) s"
proof (cases b)
  case True
  have "wp (bindS (assertNotLastOwner target) (\<lambda>_. ret (Some (f, r)))) (patch_post target s r) s"
    using assms(1) by (intro wp_seq[OF wp_assertNotLastOwner]) (auto simp: wp_simps patch_post_def change_ok_def)
  with True show ?thesis by (simp only: if_True)
next
  case False
  with assms show ?thesis by (simp add: wp_simps patch_post_def change_ok_def)
qed

lemma wp_patch_fail: "wp (fail_with msg) (patch_post target s r) s"
  by (simp add: wp_simps patch_post_def)

lemma patch_weaken: "wp m (patch_post target s r) s \<Longrightarrow> (r' \<longrightarrow> r) \<Longrightarrow> \<not> r' \<Longrightarrow> wp m (patch_post target s r') s"
  by (erule wp_mono) (auto simp: patch_post_def change_ok_def split: option.splits prod.splits)

lemma wp_patch_role: "wp (patch_role target v) (patch_post target s (v \<noteq> None)) s"
proof -
  have go: "wp (bindS (if r \<noteq> ''owner'' then assertNotLastOwner target else ret ()) (\<lambda>_. ret (Some (\<lambda>u. u\<lparr>cu_role := r\<rparr>, True))))
      (patch_post target s True) s" if "isRole r" for r
    by (rule wp_spare_owner)
      (use that in \<open>auto simp: row_change_def user_ok_def keeps_owner_def active_owner_def\<close>)
  show ?thesis
  proof (cases v)
    case None
    then show ?thesis by (simp add: patch_role_def no_change_def wp_simps patch_post_def change_ok_def)
  next
    case (Some x)
    show ?thesis
    proof (cases "as_str v")
      case None
      with Some show ?thesis by (simp add: patch_role_def wp_patch_fail)
    next
      case r: (Some r)
      show ?thesis
        using go[of r] r Some by (cases "isRole r") (simp_all only: patch_role_def option.case if_True if_False not_not not_True_eq_False
            not_False_eq_True wp_patch_fail option.simps)
    qed
  qed
qed

lemma wp_patch_status: "wp (patch_status i actor target v) (patch_post target s (v = Some (JStr ''disabled''))) s"
proof (cases "as_str v")
  case None
  then show ?thesis
    by (cases v) (simp_all add: patch_status_def no_change_def wp_simps patch_post_def change_ok_def as_str_def)
next
  case (Some st)
  then have v: "v = Some (JStr st)" by (auto simp: as_str_def split: option.splits json.splits)
  have go: "wp (bindS (if b then assertNotLastOwner target else ret ()) (\<lambda>_. ret (Some (\<lambda>u. u\<lparr>cu_status := st\<rparr>, st = ''disabled''))))
      (patch_post target s (st = ''disabled'')) s" if "st \<in> {''active'', ''disabled''}" "b \<or> st = ''active''" for b
    by (rule wp_spare_owner) (use that in \<open>auto simp: row_change_def user_ok_def keeps_owner_def active_owner_def\<close>)
  consider "st = ''active''" | "st = ''disabled''" "i = actor" | "st = ''disabled''" "i \<noteq> actor" | "st \<notin> {''active'', ''disabled''}"
    by blast
  then show ?thesis
  proof cases
    case 1
    then show ?thesis using go[of False] v by (simp add: patch_status_def as_str_def)
  next
    case 2
    then show ?thesis using v by (simp add: patch_status_def as_str_def fail_with_def wp_simps patch_post_def)
  next
    case 3
    have "wp (bindS (assertNotLastOwner target) (\<lambda>_. ret (Some (\<lambda>u. u\<lparr>cu_status := st\<rparr>, st = ''disabled''))))
      (patch_post target s (st = ''disabled'')) s"
      by (rule go[of True, unfolded if_True]) (simp_all add: 3)
    then show ?thesis using 3 v unfolding patch_status_def as_str_def by (simp only: option.case json.case if_not_P if_P simp_thms) simp
  next
    case 4
    then show ?thesis using v by (simp add: patch_status_def as_str_def wp_patch_fail)
  qed
qed

lemma wp_patch_email: "wp (patch_email v) (patch_post target s False) s"
  by (auto simp: patch_email_def no_change_def wp_simps patch_post_def change_ok_def row_change_def user_ok_def keeps_owner_def
      active_owner_def split: option.splits)

lemma wp_patch_password: "wp (patch_password kk v) (patch_post target s (v \<noteq> None)) s"
  by (auto simp: patch_password_def no_change_def wp_simps patch_post_def change_ok_def row_change_def user_ok_def keeps_owner_def
      active_owner_def split: option.splits)

lemma apply_changes_ok:
  assumes "list_all (\<lambda>c. \<exists>r. change_ok target s r c) cs"
  shows "row_change (apply_changes cs)" "expendable target s \<or> keeps_owner (apply_changes cs)"
proof -
  have "row_change (apply_changes cs) \<and> (expendable target s \<or> keeps_owner (apply_changes cs))"
    using assms
  proof (induction cs)
    case (Cons c cs)
    then show ?case
      by (cases c) (auto simp: apply_changes_def change_ok_def row_change_def keeps_owner_def)
  qed (simp add: apply_changes_def row_change_def keeps_owner_def)
  then show "row_change (apply_changes cs)" "expendable target s \<or> keeps_owner (apply_changes cs)" by auto
qed

text \<open>The tables after a change of one row.\<close>

definition tables_inv :: "ConsoleUser list \<times> ConsoleSession list \<times> int \<Rightarrow> bool" where
  "tables_inv t \<longleftrightarrow> tables_ok t \<and> has_owner (fst t)"

lemma map_user_inv:
  assumes "tables_inv (tables s)" "row_change f" "target \<in> set (co_users s)" "expendable target s \<or> keeps_owner f"
  shows "tables_inv (tables (map_user (cu_id target) f s))"
proof -
  have ok: "tables_ok (tables s)" and own: "has_owner (co_users s)" using assms(1) by (simp_all add: tables_inv_def tables_def)
  note d = tables_okD(1)[OF ok]
  have "has_owner (co_users (map_user (cu_id target) f s))"
  proof (cases "expendable target s")
    case True
    from other_owner[OF d own assms(3)] True obtain u where "u \<in> set (co_users s)" "active_owner u" "cu_id u \<noteq> cu_id target"
      by (auto simp: expendable_def)
    then show ?thesis by (force simp: has_owner_def map_user_def)
  next
    case False
    with assms(4) own show ?thesis by (auto simp: has_owner_def map_user_def keeps_owner_def)
  qed
  with map_user_ok[OF ok assms(2)] show ?thesis by (simp add: tables_inv_def tables_def)
qed

lemma remove_user_inv:
  assumes "tables_inv (tables s)" "target \<in> set (co_users s)" "expendable target s"
  shows "tables_inv (tables (remove_user (cu_id target) s))"
proof -
  have ok: "tables_ok (tables s)" and own: "has_owner (co_users s)" using assms(1) by (simp_all add: tables_inv_def tables_def)
  from other_owner[OF tables_okD(1)[OF ok] own assms(2)] assms(3) have "has_owner (co_users (remove_user (cu_id target) s))"
    by (auto simp: expendable_def has_owner_def remove_user_def)
  with remove_user_ok[OF ok] show ?thesis by (simp add: tables_inv_def tables_def)
qed

subsection \<open>The operations of the tables\<close>

text \<open>What any invariant of the tables needs so that every operation keeps it.\<close>

locale table_invariant =
  fixes T :: "ConsoleUser list \<times> ConsoleSession list \<times> int \<Rightarrow> bool"
  assumes sessions_dropped: "T (us, xs, n) \<Longrightarrow> T (us, filter P xs, n)"
    and session_added: "T (us, xs, n) \<Longrightarrow> cs_tokenHash x \<notin> cs_tokenHash ` set xs \<Longrightarrow> cs_userId x \<in> cu_id ` set us \<Longrightarrow> T (us, xs @ [x], n)"
    and row_changed: "T (tables s) \<Longrightarrow> row_change f \<Longrightarrow> find_user i s = Some target \<Longrightarrow> expendable target s \<or> keeps_owner f
      \<Longrightarrow> T (tables (map_user i f s))"
    and user_removed: "T (tables s) \<Longrightarrow> find_user i s = Some target \<Longrightarrow> expendable target s \<Longrightarrow> T (tables (remove_user i s))"
    and user_added: "T (us, xs, n) \<Longrightarrow> user_ok u \<Longrightarrow> cu_username u \<notin> cu_username ` set us \<Longrightarrow> cu_id u = n \<Longrightarrow> T (us @ [u], xs, n + 1)"

definition keeps :: "(ConsoleUser list \<times> ConsoleSession list \<times> int \<Rightarrow> bool) \<Rightarrow> 'a cop \<Rightarrow> bool" where
  "keeps T m \<longleftrightarrow> (\<forall>s. T (tables s) \<longrightarrow> T (tables (snd (m s))))"

lemma keepsI: "(\<And>s. T (tables s) \<Longrightarrow> wp m (\<lambda>r s'. T (tables s')) s) \<Longrightarrow> keeps T m"
  by (simp add: keeps_def wp_def case_prod_unfold)

lemma keeps_wp: "keeps T m \<Longrightarrow> T (tables s) \<Longrightarrow> wp m (\<lambda>r s'. T (tables s')) s"
  by (simp add: keeps_def wp_def case_prod_unfold)

named_theorems keeps_intros

lemma keeps_bind [keeps_intros]: "keeps T m \<Longrightarrow> (\<And>x. keeps T (k x)) \<Longrightarrow> keeps T (bindS m k)"
  by (auto simp: keeps_def bindS_apply split: prod.splits sum.splits)

lemma keeps_try [keeps_intros]: "keeps T m \<Longrightarrow> (\<And>e. keeps T (h e)) \<Longrightarrow> keeps T (tryS m h)"
  by (auto simp: keeps_def tryS_def split: prod.splits sum.splits)

lemma keeps_cases [keeps_intros]:
  "(b \<Longrightarrow> keeps T m) \<Longrightarrow> (\<not> b \<Longrightarrow> keeps T m') \<Longrightarrow> keeps T (if b then m else m')"
  "(v = None \<Longrightarrow> keeps T m) \<Longrightarrow> (\<And>x. v = Some x \<Longrightarrow> keeps T (k x)) \<Longrightarrow> keeps T (case v of None \<Rightarrow> m | Some x \<Rightarrow> k x)"
  "(\<And>e. w = Inl e \<Longrightarrow> keeps T (f e)) \<Longrightarrow> (\<And>y. w = Inr y \<Longrightarrow> keeps T (g y)) \<Longrightarrow> keeps T (case w of Inl e \<Rightarrow> f e | Inr y \<Rightarrow> g y)"
  by (simp_all split: option.split sum.split)

lemma keeps_base [keeps_intros]:
  "keeps T (ret x)" "keeps T (throw e)" "keeps T (fail_with msg)" "keeps T co_now" "keeps T co_randomBytes"
  "keeps T (co_select f)" "keeps T (liftC v)" "keeps T (hashPassword kk pw)" "keeps T (reply_error code msg)"
  by (rule keepsI, simp add: wp_simps Let_def reply_error_def split: option.split)+

lemma wp_read: "wp (\<lambda>s. (g s, s)) P s = P (g s) s"
  by (simp add: wp_def)

text \<open>The effect of an accepted patch.\<close>

definition ends_sessions :: "json \<Rightarrow> bool" where
  "ends_sessions patch \<longleftrightarrow> json_get patch ''role'' \<noteq> None \<or> json_get patch ''password'' \<noteq> None
     \<or> json_get patch ''status'' = Some (JStr ''disabled'')"

definition patched :: "int \<Rightarrow> Console \<Rightarrow> Console \<Rightarrow> bool" where
  "patched i s s' \<longleftrightarrow> (\<exists>target f. find_user i s = Some target \<and> row_change f \<and> (expendable target s \<or> keeps_owner f)
     \<and> (tables s' = tables (map_user i f s)
        \<or> tables s' = (co_users (map_user i f s), filter (\<lambda>x. cs_userId x \<noteq> i) (co_sessions s), co_nextId s)))"

definition update_post :: "int \<Rightarrow> bool \<Rightarrow> Console \<Rightarrow> js_exn + ConsoleUser \<Rightarrow> Console \<Rightarrow> bool" where
  "update_post i r s x s' \<longleftrightarrow> (tables s' = tables s \<or> patched i s s')
     \<and> (\<forall>u. x = Inr u \<and> r \<longrightarrow> i \<notin> cs_userId ` set (co_sessions s'))"

lemma update_post_same: "tables s' = tables s \<Longrightarrow> update_post i r s (Inl e) s'"
  by (simp add: update_post_def)

lemma map_user_tables: "tables s1 = tables s \<Longrightarrow> tables (map_user i f s1) = tables (map_user i f s)"
  by (simp add: tables_def map_user_def)

lemma wp_apply_patch:
  assumes "tables s1 = tables s" "find_user i s = Some target" "row_change f" "expendable target s \<or> keeps_owner f"
  shows "wp (bindS (co_update (map_user i f)) (\<lambda>_. bindS (if r then destroyUserSessions i else ret ()) (\<lambda>_.
      (\<lambda>s. (case find_user i s of None \<Rightarrow> Inl TypeError | Some u \<Rightarrow> Inr u, s))))) (update_post i r s) s1"
proof -
  let ?A = "tables (map_user i f s)"
  let ?B = "(co_users (map_user i f s), filter (\<lambda>x. cs_userId x \<noteq> i) (co_sessions s), co_nextId s)"
  have p: "patched i s s'" if "tables s' = ?A \<or> tables s' = ?B" for s'
    using that assms unfolding patched_def by blast
  have first: "wp (co_update (map_user i f)) (\<lambda>x s'. (\<forall>e. x = Inl e \<longrightarrow> tables s' = tables s) \<and> (x = Inr () \<longrightarrow> tables s' = ?A)) s1"
    using assms(1) map_user_tables[of "s1\<lparr>co_sql := stl (co_sql s1)\<rparr>" s i f] by (auto simp: wp_simps Let_def split: option.split)
  have second: "wp (if r then destroyUserSessions i else ret ()) (\<lambda>x s'. (tables s' = ?A \<or> tables s' = ?B) \<and> (r \<and> x = Inr () \<longrightarrow> tables s' = ?B)) s2"
    if "tables s2 = ?A" for s2
    using that by (cases r) (auto simp: wp_simps destroyUserSessions_def Let_def tables_def map_user_def split: option.split)
  show ?thesis
    by (rule wp_seq[OF first], simp add: update_post_def, rule wp_seq[OF second], simp)
      (auto simp: update_post_def p wp_read tables_def split: option.splits)
qed

lemma patch_post_tables:
  assumes "tables s = tables s0"
  shows "patch_post target s r = patch_post target s0 r"
  using assms expendable_tables[OF assms] by (auto simp: patch_post_def change_ok_def fun_eq_iff split: option.splits)

lemma wp_patch_step:
  assumes "wp m (patch_post target s1 r) s1" "tables s1 = tables s"
    "\<And>c s'. tables s' = tables s \<Longrightarrow> change_ok target s r c \<Longrightarrow> wp (k c) (update_post i r' s) s'"
  shows "wp (bindS m k) (update_post i r' s) s1"
  using assms(1) unfolding patch_post_tables[OF assms(2)]
  by (rule wp_seq) (auto simp: patch_post_def update_post_same assms(3))

lemma change_ok_revokes: "change_ok target s r c \<Longrightarrow> r \<Longrightarrow> \<exists>f. c = Some (f, True)"
  by (auto simp: change_ok_def split: option.splits)

text \<open>Every operation on one user reads the row first.\<close>

lemma wp_on_user:
  assumes "\<And>e s'. tables s' = tables s \<Longrightarrow> Q (Inl e) s'"
    "\<And>target s1. find_user i s = Some target \<Longrightarrow> tables s1 = tables s \<Longrightarrow> wp (k target) Q s1"
  shows "wp (bindS (co_select (find_user i)) (\<lambda>row. case row of None \<Rightarrow> fail_with msg | Some target \<Rightarrow> k target)) Q s"
proof -
  have read: "wp (co_select (find_user i)) (\<lambda>x s'. tables s' = tables s \<and> (\<forall>row. x = Inr row \<longrightarrow> row = find_user i s)) s"
    by (auto simp: wp_simps Let_def split: option.split)
  show ?thesis
  proof (rule wp_seq[OF read], goal_cases)
    case (2 row s1)
    then show ?case by (cases "find_user i s") (auto simp: wp_fail_with intro: assms)
  qed (simp add: assms)
qed

lemma wp_updateUser: "wp (updateUser kk i patch actor) (update_post i (ends_sessions patch) s) s"
proof -
  have stop: "update_post i r s (Inl e) s'" if "tables s' = tables s" for r e s' using that by (rule update_post_same)
  have fin: "wp (let cs = [c1, c2, c3, c4] in if list_all (\<lambda>c. c = None) cs then fail_with ''no changes supplied''
       else bindS (co_update (map_user i (apply_changes cs))) (\<lambda>_.
         bindS (if revoking cs then destroyUserSessions i else ret ()) (\<lambda>_.
         (\<lambda>s. (case find_user i s of None \<Rightarrow> Inl TypeError | Some u \<Rightarrow> Inr u, s))))) (update_post i (ends_sessions patch) s) s1"
    if t: "find_user i s = Some target" "tables s1 = tables s" and c: "change_ok target s (json_get patch ''role'' \<noteq> None) c1"
      "change_ok target s (json_get patch ''status'' = Some (JStr ''disabled'')) c2" "change_ok target s False c3"
      "change_ok target s (json_get patch ''password'' \<noteq> None) c4" for target s1 c1 c2 c3 c4
  proof -
    let ?cs = "[c1, c2, c3, c4]"
    have all: "list_all (\<lambda>c. \<exists>r. change_ok target s r c) ?cs" using c by auto
    have rev: "ends_sessions patch \<longrightarrow> revoking ?cs"
      using change_ok_revokes[OF c(1)] change_ok_revokes[OF c(2)] change_ok_revokes[OF c(4)] by (auto simp: ends_sessions_def revoking_def)
    have "wp (bindS (co_update (map_user i (apply_changes ?cs))) (\<lambda>_. bindS (if revoking ?cs then destroyUserSessions i else ret ()) (\<lambda>_.
         (\<lambda>s. (case find_user i s of None \<Rightarrow> Inl TypeError | Some u \<Rightarrow> Inr u, s))))) (update_post i (ends_sessions patch) s) s1"
      by (rule wp_mono[OF wp_apply_patch[OF t(2,1) apply_changes_ok[OF all]]]) (use rev in \<open>auto simp: update_post_def\<close>)
    then show ?thesis
      using stop[OF t(2)] unfolding Let_def by (cases "list_all (\<lambda>c. c = None) ?cs") (simp_all only: if_True if_False wp_fail_with)
  qed
  have go: "wp (bindS (patch_role target (json_get patch ''role'')) (\<lambda>c1.
       bindS (patch_status i actor target (json_get patch ''status'')) (\<lambda>c2.
       bindS (patch_email (json_get patch ''email'')) (\<lambda>c3.
       bindS (patch_password kk (json_get patch ''password'')) (\<lambda>c4.
       let cs = [c1, c2, c3, c4] in if list_all (\<lambda>c. c = None) cs then fail_with ''no changes supplied''
       else bindS (co_update (map_user i (apply_changes cs))) (\<lambda>_.
         bindS (if revoking cs then destroyUserSessions i else ret ()) (\<lambda>_.
         (\<lambda>s. (case find_user i s of None \<Rightarrow> Inl TypeError | Some u \<Rightarrow> Inr u, s))))))))) (update_post i (ends_sessions patch) s) s1"
    if "find_user i s = Some target" "tables s1 = tables s" for target s1
    by (rule wp_patch_step[OF wp_patch_role that(2)], rule wp_patch_step[OF wp_patch_status], assumption,
        rule wp_patch_step[OF wp_patch_email], assumption, rule wp_patch_step[OF wp_patch_password], assumption,
        rule fin[OF that(1)])
  show ?thesis unfolding updateUser_def by (rule wp_on_user[OF stop go])
qed

lemma wp_deleteUser:
  "wp (deleteUser i actor) (\<lambda>x s'. tables s' = tables s \<or> (\<exists>target. find_user i s = Some target \<and> expendable target s
     \<and> tables s' = tables (remove_user i s))) s"
proof -
  have tail: "wp (bindS (assertNotLastOwner target) (\<lambda>_. co_update (remove_user i))) (\<lambda>x s'. tables s' = tables s
      \<or> (expendable target s \<and> tables s' = tables (remove_user i s))) s1" if "tables s1 = tables s" for target s1
    by (rule wp_seq[OF wp_assertNotLastOwner])
      (use that expendable_tables[OF that] in
       \<open>auto simp: wp_simps Let_def tables_def remove_user_def expendable_def split: option.splits\<close>)
  have go: "wp (bindS (co_select (find_user i)) (\<lambda>row. case row of None \<Rightarrow> fail_with msg
      | Some target \<Rightarrow> bindS (assertNotLastOwner target) (\<lambda>_. co_update (remove_user i))))
     (\<lambda>x s'. tables s' = tables s \<or> (\<exists>target. find_user i s = Some target \<and> expendable target s \<and> tables s' = tables (remove_user i s))) s" for msg
    by (rule wp_on_user, simp, rule wp_mono[OF tail]) auto
  show ?thesis unfolding deleteUser_def using go by (cases "i = actor") (simp_all only: if_True if_False wp_fail_with simp_thms)
qed

context table_invariant begin

lemma keeps_sessions_dropped: "keeps T (co_update (\<lambda>s. s\<lparr>co_sessions := filter P (co_sessions s)\<rparr>))"
  using sessions_dropped by (intro keepsI) (auto simp: wp_simps Let_def tables_def split: option.split)

lemma keeps_destroy [keeps_intros]: "keeps T (destroySession kk cfg token)" "keeps T (destroyUserSessions i)" "keeps T pruneSessions"
    apply (simp add: destroySession_def keeps_sessions_dropped keeps_intros)
   apply (simp add: destroyUserSessions_def keeps_sessions_dropped)
  unfolding pruneSessions_def by (fast intro: keeps_intros keeps_sessions_dropped)

lemma keeps_row_change:
  assumes "row_change f" "keeps_owner f"
  shows "keeps T (co_update (map_user i f))"
proof (rule keepsI)
  fix s assume T: "T (tables s)"
  have "T (tables (map_user i f s1))" if t: "tables s1 = tables s" for s1
  proof (cases "find_user i s1")
    case None
    then have "map_user i f s1 = s1" by (simp add: find_user_def find_None_iff map_user_def cong: map_cong)
    with T t show ?thesis by simp
  next
    case (Some target)
    with assms T t show ?thesis by (intro row_changed) auto
  qed
  with T show "wp (co_update (map_user i f)) (\<lambda>r s'. T (tables s')) s" by (auto simp: wp_simps Let_def split: option.split)
qed

lemma keeps_login [keeps_intros]: "keeps T (login kk name pw)"
proof -
  have "row_change (\<lambda>u. u\<lparr>cu_lastLoginAt := t\<rparr>)" "keeps_owner (\<lambda>u. u\<lparr>cu_lastLoginAt := t\<rparr>)" for t
    by (auto simp: row_change_def keeps_owner_def user_ok_def active_owner_def)
  then show ?thesis
    unfolding login_def by (intro keeps_intros keeps_row_change)
qed

lemma keeps_changeOwnPassword [keeps_intros]: "keeps T (changeOwnPassword kk i current next)"
proof -
  have "row_change (\<lambda>u. u\<lparr>cu_hash := h\<rparr>)" "keeps_owner (\<lambda>u. u\<lparr>cu_hash := h\<rparr>)" for h
    by (auto simp: row_change_def keeps_owner_def user_ok_def active_owner_def)
  then show ?thesis
    unfolding changeOwnPassword_def by (intro keeps_intros keeps_row_change)
qed

lemma keeps_updateUser [keeps_intros]: "keeps T (updateUser kk i patch actor)"
proof (rule keepsI, rule wp_mono[OF wp_updateUser])
  fix s r s' assume T: "T (tables s)" and "update_post i (ends_sessions patch) s r s'"
  then consider "tables s' = tables s" | "patched i s s'" by (auto simp: update_post_def)
  then show "T (tables s')"
  proof cases
    case 2
    then obtain target f where f: "find_user i s = Some target" "row_change f" "expendable target s \<or> keeps_owner f"
      "tables s' = tables (map_user i f s) \<or> tables s' = (co_users (map_user i f s), filter (\<lambda>x. cs_userId x \<noteq> i) (co_sessions s), co_nextId s)"
      unfolding patched_def by blast
    have "T (tables (map_user i f s))" by (rule row_changed[OF T f(2,1,3)])
    then show ?thesis using f(4) sessions_dropped by (auto simp: tables_def map_user_def)
  qed (use T in simp)
qed

lemma keeps_deleteUser [keeps_intros]: "keeps T (deleteUser i actor)"
proof (rule keepsI, rule wp_mono[OF wp_deleteUser])
  fix s s' assume "T (tables s)" "tables s' = tables s \<or> (\<exists>target. find_user i s = Some target \<and> expendable target s \<and> tables s' = tables (remove_user i s))"
  then show "T (tables s')" using user_removed by auto
qed

lemma keeps_createSession [keeps_intros]: "keeps T (createSession kk cfg userId agent)"
proof (rule keepsI)
  fix s assume T: "T (tables s)"
  show "wp (createSession kk cfg userId agent) (\<lambda>r s'. T (tables s')) s"
  proof (cases "kc_ttlHours cfg")
    case None
    with T show ?thesis by (simp add: createSession_def wp_simps Let_def)
  next
    case (Some ttl)
    have user: "userId \<in> cu_id ` set us" if "find (\<lambda>u. cu_id u = userId) us = Some u" for us and u :: ConsoleUser
      using that by (auto simp: find_Some_iff)
    show ?thesis
      using T Some
      by (auto simp: createSession_def wp_simps Let_def tables_def wp_def find_user_def bindS_apply co_select_def co_query_def co_now_def fail_with_def
          co_randomBytes_def intro!: session_added user split: option.splits)
  qed
qed

lemma keeps_insert_user:
  assumes "user_ok row"
  shows "keeps T (insert_user row)"
proof (rule keepsI)
  fix s assume T: "T (tables s)"
  have "user_ok (row\<lparr>cu_id := n\<rparr>)" for n using assms by (simp add: user_ok_def)
  with T show "wp (insert_user row) (\<lambda>r s'. T (tables s')) s"
    by (auto simp: insert_user_def wp_simps Let_def tables_def find_username_def wp_def bindS_apply co_select_def co_query_def fail_with_def
        find_None_iff intro!: user_added split: option.splits)
qed

lemma keeps_createUser [keeps_intros]: "keeps T (createUser kk name pw role email by_whom)"
  unfolding createUser_def Let_def
  by (auto intro!: keeps_intros keeps_insert_user simp: user_ok_def)

lemma keeps_bootstrap [keeps_intros]: "keeps T (ensureBootstrapOwner kk cfg)"
  unfolding ensureBootstrapOwner_def by (intro keeps_intros)

lemma keeps_boot: "keeps T (console_boot kk cfg)"
  unfolding console_boot_def by (intro keeps_intros)

lemma keeps_routes [keeps_intros]:
  "keeps T (post_login kk cfg req)" "keeps T (post_logout kk cfg req)" "keeps T (post_password kk user req)" "keeps T (get_users cfg)"
  "keeps T (post_users kk cfg user req)" "keeps T (patch_user kk cfg user req i)" "keeps T (delete_user user i)"
  "keeps T (post_propose user req kind)" "keeps T (get_audit limit)"
  unfolding post_login_def post_logout_def post_password_def get_users_def post_users_def patch_user_def delete_user_def post_propose_def
    caught_def with_pool_def user_id_def listUsers_def recordProposal_def Let_def
          apply (intro keeps_intros)+
   apply (simp add: keeps_def co_update_def co_query_def Let_def tables_def split: option.split)
  by (simp add: keeps_def get_audit_def)

lemma keeps_gate: "keeps T (console_gate kk cfg req)"
proof -
  have "keeps T (console_route kk cfg req user)" for user
    unfolding console_route_def requireRole_def by (cases "cq_route req") (simp_all only: ConsoleRoute.case, (intro keeps_intros)+)
  then show ?thesis unfolding console_gate_def resolveSession_def by (intro keeps_intros)
qed

end

interpretation formed: table_invariant tables_ok
proof
  show "tables_ok (us, xs @ [x], n)" if "tables_ok (us, xs, n)" "cs_tokenHash x \<notin> cs_tokenHash ` set xs" "cs_userId x \<in> cu_id ` set us" for us xs n x
    using that by (auto simp: tables_ok_def)
  show "tables_ok (us @ [u], xs, n + 1)" if "tables_ok (us, xs, n)" "user_ok u" "cu_username u \<notin> cu_username ` set us" "cu_id u = n" for us xs n u
    using that by (fastforce simp: tables_ok_def)
qed (simp_all add: fewer_sessions_ok map_user_ok remove_user_ok)

interpretation owned: table_invariant tables_inv
proof
  show "tables_inv (tables (map_user i f s))" if "tables_inv (tables s)" "row_change f" "find_user i s = Some target" "expendable target s \<or> keeps_owner f"
    for s f i target using map_user_inv[OF that(1,2) _ that(4)] find_user_Some[OF that(3)] by auto
  show "tables_inv (tables (remove_user i s))" if "tables_inv (tables s)" "find_user i s = Some target" "expendable target s"
    for s i target using remove_user_inv[OF that(1) _ that(3)] find_user_Some[OF that(2)] by auto
qed (auto simp: tables_inv_def has_owner_def intro: fewer_sessions_ok formed.session_added formed.user_added)

subsection \<open>The console over time\<close>

datatype ConsoleEvent = Boots | Serves ConsoleRequest

definition console_event :: "ConsoleCrypto \<Rightarrow> ConsoleConfig \<times> ConsoleEvent \<Rightarrow> Console \<Rightarrow> Console" where
  "console_event kk e s = (case snd e of Boots \<Rightarrow> snd (console_boot kk (fst e) s) | Serves req \<Rightarrow> snd (console_serve kk (fst e) req s))"

definition console_run :: "ConsoleCrypto \<Rightarrow> (ConsoleConfig \<times> ConsoleEvent) list \<Rightarrow> Console \<Rightarrow> Console" where
  "console_run kk evs s = fold (console_event kk) evs s"

definition empty_console :: "int stream \<Rightarrow> bytes stream \<Rightarrow> string option stream \<Rightarrow> Console" where
  "empty_console clock random faults = \<lparr>co_users = [], co_sessions = [], co_nextId = 1, co_audit = [], co_clock = clock, co_random = random, co_sql = faults\<rparr>"

context table_invariant begin

lemma T_event: "T (tables s) \<Longrightarrow> T (tables (console_event kk e s))"
  using keeps_boot keeps_gate
  by (auto simp: console_event_def console_serve_def keeps_def case_prod_unfold split: ConsoleEvent.splits sum.splits)

lemma T_run: "T (tables s) \<Longrightarrow> T (tables (console_run kk evs s))"
  unfolding console_run_def by (induction evs arbitrary: s) (auto intro: T_event)

end

text \<open>C35: Starting from an empty database, after any sequence of starts and requests (under any configuration, with any failures of
  statements, clocks and random bytes) the tables are well formed: user identifiers, user names and session tokens are
  unique, every user has a role and a status of the types, a valid user name and an identifier below the next one, and every session belongs to a user.\<close>

theorem console_tables_well_formed: "tables_ok (tables (console_run kk evs (empty_console clock random faults)))"
  by (rule formed.T_run) (simp add: tables_ok_def tables_def empty_console_def)

subsection \<open>An owner remains\<close>

lemma wp_insert_user: "wp (insert_user row) (\<lambda>r s'. \<forall>u. r = Inr u \<longrightarrow> (\<exists>n. u = row\<lparr>cu_id := n\<rparr>) \<and> u \<in> set (co_users s')) s"
  by (auto simp: insert_user_def wp_def bindS_apply co_select_def co_query_def fail_with_def Let_def split: option.split)

lemma wp_first_owner:
  assumes "co_users s = []" "tables_ok (tables s)"
  shows "wp (ensureBootstrapOwner kk cfg) (\<lambda>r s'. r = Inr () \<longrightarrow> has_owner (co_users s')) s"
proof -
  have create: "wp (createUser kk name pw ''owner'' email by_whom) (\<lambda>r s'. \<forall>u. r = Inr u \<longrightarrow> has_owner (co_users s')) s1" for name pw email by_whom s1
    by (simp add: createUser_def wp_simps Let_def) (force intro!: wp_mono[OF wp_insert_user] simp: has_owner_def active_owner_def)
  show ?thesis
    using assms(1)
    by (auto simp: ensureBootstrapOwner_def wp_simps Let_def intro!: wp_mono[OF create] split: option.split sum.split)
qed

lemma owner_after_boot:
  assumes "kc_authEnabled cfg" "fst (console_boot kk cfg (empty_console clock random faults)) = Inr ()"
  shows "tables_inv (tables (snd (console_boot kk cfg (empty_console clock random faults))))"
proof -
  let ?s = "empty_console clock random faults"
  have e: "co_users ?s = []" "tables_ok (tables ?s)" by (simp_all add: tables_ok_def tables_def empty_console_def)
  have ok: "wp (ensureBootstrapOwner kk cfg) (\<lambda>r s'. tables_ok (tables s') \<and> (r = Inr () \<longrightarrow> has_owner (co_users s'))) ?s"
    by (rule wp_conj[OF keeps_wp[OF formed.keeps_bootstrap e(2)] wp_first_owner[OF e]])
  have "wp (console_boot kk cfg) (\<lambda>r s'. r = Inr () \<longrightarrow> tables_inv (tables s')) ?s"
    unfolding console_boot_def using assms(1)
    by (simp, intro wp_seq[OF ok]) (auto simp: tables_inv_def tables_def intro: wp_mono[OF keeps_wp[OF owned.keeps_destroy(3)]])
  then show ?thesis using assms(2) by (simp add: wp_def case_prod_unfold)
qed

text \<open>C15: Once the console has started with an empty database (the first start creates the owner), an active
  owner exists after every further sequence of starts and requests, whatever requests are sent, by whom, and wherever statements fail: the last owner cannot
  be demoted, disabled or deleted.\<close>

theorem owner_always_remains:
  assumes "kc_authEnabled cfg" "fst (console_boot kk cfg (empty_console clock random faults)) = Inr ()"
  shows "\<exists>u\<in>set (co_users (console_run kk evs (snd (console_boot kk cfg (empty_console clock random faults))))). active_owner u"
  using owned.T_run[OF owner_after_boot[OF assms]] by (auto simp: tables_inv_def has_owner_def tables_def)

definition toy_kk :: ConsoleCrypto where
  "toy_kk = \<lparr>kk_scrypt = (\<lambda>pw salt n. replicate n (of_nat (length pw))), kk_sha256 = (\<lambda>t. ''h'' @ t), kk_base64url = (\<lambda>b. hex_of b)\<rparr>"

definition toy_kc :: ConsoleConfig where
  "toy_kc = \<lparr>kc_ttlHours = Some 12, kc_bootstrapUser = ''owner'', kc_bootstrapPassword = ''0123456789'', kc_authEnabled = True\<rparr>"

definition toy_console :: Console where "toy_console = empty_console (sconst 5) (sconst [7]) (sconst None)"

lemma toy_boot: "fst (console_boot toy_kk toy_kc toy_console) = Inr ()"
proof -
  have n: "is_username (to_lower (js_trim ''owner''))" by code_simp
  have l: "utf16_length ''0123456789'' = 10" by code_simp
  have r: "isRole ''owner''" by code_simp
  show ?thesis
    by (simp add: console_boot_def toy_kc_def ensureBootstrapOwner_def bindS_apply co_select_def co_query_def Let_def toy_console_def empty_console_def
        createUser_def n l r MIN_PW_def hashPassword_def co_randomBytes_def co_now_def insert_user_def find_username_def pruneSessions_def
        tryS_def co_update_def ret_def)
qed

lemma owner_always_remains_witness:
  "\<exists>u\<in>set (co_users (console_run toy_kk [(toy_kc, Boots)] (snd (console_boot toy_kk toy_kc (empty_console (sconst 5) (sconst [7]) (sconst None)))))). active_owner u"
  by (rule owner_always_remains) (use toy_boot in \<open>simp_all add: toy_console_def toy_kc_def\<close>)

subsection \<open>Sessions end\<close>

lemma wp_resolveSession:
  "wp (resolveSession kk cfg token) (\<lambda>r s'. tables s' = tables s \<and> (\<forall>v. r = Inr (Some v) \<longrightarrow>
     (\<exists>x\<in>set (co_sessions s). \<exists>u. cs_tokenHash x = kk_sha256 kk (the token) \<and> cs_expiresAt x > shd (co_clock s) \<and> find_user (cs_userId x) s = Some u
       \<and> cu_status u = ''active'' \<and> isRole (cu_role u) \<and> v = \<lparr>su_id = cu_id u, su_username = cu_username u, su_role = cu_role u\<rparr>))) s"
  by (auto simp: resolveSession_def wp_simps Let_def find_Some_iff split: option.split)

text \<open>C35: When a change of a user's role or password, or disabling the user, has succeeded, no session resolves to that user any more:
  every token of the user is refused until a new login.\<close>

theorem patch_ends_sessions:
  assumes "updateUser kk i patch actor s = (Inr u, s')" "ends_sessions patch" "resolveSession kk cfg token s' = (Inr (Some v), s'')"
  shows "su_id v \<noteq> i"
proof -
  have gone: "i \<notin> cs_userId ` set (co_sessions s')"
    using wpD[OF wp_updateUser assms(1)] assms(2) by (simp add: update_post_def)
  from wpD[OF wp_resolveSession assms(3)] obtain x w where "x \<in> set (co_sessions s')" "find_user (cs_userId x) s' = Some w" "su_id v = cu_id w"
    by auto
  with gone find_user_Some show ?thesis by fastforce
qed

text \<open>The user's own change of the password keeps all sessions, the one of a stolen token too.\<close>

lemma own_change_keeps_sessions:
  "wp (changeOwnPassword kk i current next) (\<lambda>r s'. co_sessions s' = co_sessions s) s"
proof -
  have e: "co_sessions s' = co_sessions s" if "tables s' = tables s" for s' using that by (simp add: tables_def)
  have go: "wp (if \<not> verifyPassword kk current (cu_hash u) then fail_with msg
      else bindS (hashPassword kk next) (\<lambda>h. co_update (map_user i (\<lambda>u. u\<lparr>cu_hash := h\<rparr>)))) (\<lambda>r s'. co_sessions s' = co_sessions s) s1"
    if "tables s1 = tables s" for u s1 msg
    using e[OF that] by (auto simp: wp_simps Let_def split: option.split)
  show ?thesis
    unfolding changeOwnPassword_def
    by (cases "utf16_length next < MIN_PW") (simp_all only: if_True if_False wp_fail_with, rule wp_on_user[OF e go])
qed

subsection \<open>Only owners change users\<close>

definition user_core :: "ConsoleUser \<Rightarrow> int \<times> string \<times> string option \<times> string \<times> string" where
  "user_core u = (cu_id u, cu_username u, cu_email u, cu_role u, cu_status u)"

definition calm :: "(int \<times> string \<times> string option \<times> string \<times> string) list \<Rightarrow> ConsoleUser list \<times> ConsoleSession list \<times> int \<Rightarrow> bool" where
  "calm cs t \<longleftrightarrow> map user_core (fst t) = cs"

lemma calm_row: "(\<And>u. user_core (f u) = user_core u) \<Longrightarrow> keeps (calm cs) (co_update (map_user i f))"
  by (rule keepsI) (auto simp: wp_simps Let_def calm_def tables_def map_user_def split: option.split)

lemma calm_rest: "(\<And>s. co_users (g s) = co_users s) \<Longrightarrow> keeps (calm cs) (co_update g)"
  by (rule keepsI) (auto simp: wp_simps Let_def calm_def tables_def split: option.split)

lemma calm_createSession: "keeps (calm cs) (createSession kk cfg userId agent)"
  by (rule keepsI, cases "kc_ttlHours cfg")
    (auto simp: createSession_def wp_simps Let_def calm_def tables_def wp_def bindS_apply co_select_def co_query_def co_now_def fail_with_def
       co_randomBytes_def split: option.splits)

lemma calm_operations:
  "keeps (calm cs) (login kk name pw)" "keeps (calm cs) (changeOwnPassword kk i current next)"
  "keeps (calm cs) (destroySession kk cfg token)" "keeps (calm cs) (recordProposal entry)" "keeps (calm cs) (get_audit limit)"
proof -
  show "keeps (calm cs) (login kk name pw)"
    unfolding login_def by (intro keeps_intros calm_row) (simp add: user_core_def)
  show "keeps (calm cs) (changeOwnPassword kk i current next)"
    unfolding changeOwnPassword_def by (intro keeps_intros calm_row) (simp add: user_core_def)
  show "keeps (calm cs) (destroySession kk cfg token)"
    unfolding destroySession_def by (intro keeps_intros calm_rest) simp
  show "keeps (calm cs) (recordProposal entry)" unfolding recordProposal_def by (rule calm_rest) simp
  show "keeps (calm cs) (get_audit limit)" by (simp add: keeps_def get_audit_def)
qed

lemma calm_routes:
  "keeps (calm cs) (post_login kk cfg req)" "keeps (calm cs) (post_logout kk cfg req)" "keeps (calm cs) (post_password kk user req)"
  "keeps (calm cs) (post_propose user req kind)"
  unfolding post_login_def post_logout_def post_password_def post_propose_def caught_def Let_def
  by (intro keeps_intros calm_createSession calm_operations)+

definition owner_session :: "ConsoleCrypto \<Rightarrow> string option \<Rightarrow> Console \<Rightarrow> bool" where
  "owner_session kk token s \<longleftrightarrow> (\<exists>x\<in>set (co_sessions s). \<exists>u. cs_tokenHash x = kk_sha256 kk (the token) \<and> cs_expiresAt x > shd (co_clock s)
     \<and> find_user (cs_userId x) s = Some u \<and> active_owner u)"

lemma owner_rank: "isRole r \<Longrightarrow> roleAtLeast r ''owner'' \<Longrightarrow> r = ''owner''"
  by (auto simp: isRole_def ROLES_def roleAtLeast_def rank_def RANK_def default_to_def)

lemma calm_route:
  assumes "kc_authEnabled cfg" "\<not> roleAtLeast (su_role v) ''owner''"
  shows "keeps (calm cs) (console_route kk cfg req (Some v))"
  using assms unfolding console_route_def requireRole_def
  by (cases "cq_route req") (simp_all only: ConsoleRoute.case option.case if_False if_True simp_thms, (intro keeps_intros calm_routes calm_operations)+)

lemma wp_gate_owner:
  assumes "kc_authEnabled cfg"
  shows "wp (console_gate kk cfg req) (\<lambda>r s'. calm (map user_core (co_users s)) (tables s') \<or> owner_session kk (cq_token req) s) s"
proof (cases "cq_route req \<in> {CR_healthz, CR_login}")
  case True
  then have "keeps (calm cs) (console_route kk cfg req None)" for cs
    by (auto simp: console_route_def intro!: keeps_intros calm_routes calm_operations)
  then show ?thesis
    using True unfolding console_gate_def by (auto intro!: wp_mono[OF keeps_wp] simp: calm_def tables_def)
next
  case False
  let ?C = "map user_core (co_users s)"
  have other: "wp (console_route kk cfg req (Some v)) (\<lambda>r s'. calm ?C (tables s') \<or> owner_session kk (cq_token req) s) s1"
    if "\<not> roleAtLeast (su_role v) ''owner''" "tables s1 = tables s" for v s1
    by (rule wp_mono[OF keeps_wp[OF calm_route[OF assms that(1)]]]) (use that in \<open>auto simp: calm_def tables_def\<close>)
  have owner: "owner_session kk (cq_token req) s \<Longrightarrow> wp m (\<lambda>r s'. calm ?C (tables s') \<or> owner_session kk (cq_token req) s) s1" for m s1
    by (simp add: wp_def case_prod_unfold)
  show ?thesis
    using False assms unfolding console_gate_def
  proof (simp, intro wp_seq[OF wp_resolveSession], goal_cases)
    case (2 user s1)
    show ?case
    proof (cases user)
      case None
      with 2 show ?thesis by (simp add: reply_error_def wp_simps calm_def tables_def)
    next
      case (Some v)
      with 2 obtain x u where t: "tables s1 = tables s" and x: "x \<in> set (co_sessions s)" "cs_tokenHash x = kk_sha256 kk (the (cq_token req))"
        "cs_expiresAt x > shd (co_clock s)" "find_user (cs_userId x) s = Some u" "cu_status u = ''active''" "isRole (cu_role u)" "su_role v = cu_role u"
        by auto
      have r: "owner_session kk (cq_token req) s" if "roleAtLeast (su_role v) ''owner''"
        unfolding owner_session_def active_owner_def using x owner_rank[OF x(6)] that by auto
      show ?thesis unfolding Some option.case
      proof (cases "roleAtLeast (su_role v) ''owner''")
        case True
        then show "wp (console_route kk cfg req (Some v)) (\<lambda>r s'. calm ?C (tables s') \<or> owner_session kk (cq_token req) s) s1"
          by (intro owner r)
      next
        case False
        then show "wp (console_route kk cfg req (Some v)) (\<lambda>r s'. calm ?C (tables s') \<or> owner_session kk (cq_token req) s) s1"
          by (intro other t)
      qed
    qed
  qed (simp add: calm_def tables_def)
qed

text \<open>C16: With authentication on, a request after which the users (identifier, name, email, role or status) are not what they were carried the token of a session
  that had not expired and belongs to an active owner.\<close>

theorem only_owners_change_users:
  assumes "kc_authEnabled cfg" "console_serve kk cfg req s = (rep, s')" "map user_core (co_users s') \<noteq> map user_core (co_users s)"
  shows "\<exists>x\<in>set (co_sessions s). \<exists>u. cs_tokenHash x = kk_sha256 kk (the (cq_token req)) \<and> cs_expiresAt x > shd (co_clock s)
     \<and> find_user (cs_userId x) s = Some u \<and> active_owner u"
proof -
  obtain r where "console_gate kk cfg req s = (r, s')"
    using assms(2) by (auto simp: console_serve_def split: prod.splits sum.splits)
  from wpD[OF wp_gate_owner[OF assms(1)] this] assms(3) show ?thesis by (auto simp: calm_def tables_def owner_session_def)
qed

definition toy_owner :: ConsoleUser where
  "toy_owner = \<lparr>cu_id = 1, cu_username = ''owner'', cu_email = None, cu_hash = [], cu_role = ''owner'', cu_status = ''active'',
     cu_createdAt = 0, cu_lastLoginAt = None, cu_createdBy = None\<rparr>"

definition toy_session :: ConsoleSession where
  "toy_session = \<lparr>cs_tokenHash = ''htok'', cs_userId = 1, cs_expiresAt = 9, cs_userAgent = []\<rparr>"

definition toy_two :: Console where
  "toy_two = toy_console\<lparr>co_users := [toy_owner, toy_owner\<lparr>cu_id := 2, cu_username := ''second''\<rparr>], co_sessions := [toy_session]\<rparr>"

definition toy_disable :: json where "toy_disable = JObj [(''status'', JStr ''disabled'')]"

lemma toy_disabled:
  "fst (updateUser toy_kk 2 toy_disable 1 toy_two) = Inr (toy_owner\<lparr>cu_id := 2, cu_username := ''second'', cu_status := ''disabled''\<rparr>)"
  "map user_core (co_users (snd (updateUser toy_kk 2 toy_disable 1 toy_two))) \<noteq> map user_core (co_users toy_two)"
  "shd (co_clock (snd (updateUser toy_kk 2 toy_disable 1 toy_two))) = 5" "co_sessions (snd (updateUser toy_kk 2 toy_disable 1 toy_two)) = [toy_session]"
  by (simp_all add: updateUser_def bindS_apply co_select_def co_query_def Let_def toy_two_def toy_console_def empty_console_def find_user_def
      toy_owner_def toy_disable_def patch_role_def patch_status_def patch_email_def patch_password_def no_change_def as_str_def ret_def
      assertNotLastOwner_def active_owner_def co_update_def map_user_def apply_changes_def revoking_def destroyUserSessions_def user_core_def
      toy_session_def)

lemma toy_resolved:
  "\<exists>v s. resolveSession toy_kk toy_kc (Some ''tok'') (snd (updateUser toy_kk 2 toy_disable 1 toy_two)) = (Inr (Some v), s)"
  by (simp add: updateUser_def bindS_apply co_select_def co_query_def Let_def toy_two_def toy_console_def empty_console_def find_user_def
      toy_owner_def toy_disable_def patch_role_def patch_status_def patch_email_def patch_password_def no_change_def as_str_def ret_def
      assertNotLastOwner_def active_owner_def co_update_def map_user_def apply_changes_def revoking_def destroyUserSessions_def
      toy_session_def resolveSession_def truthy_str_def toy_kc_def toy_kk_def co_now_def isRole_def ROLES_def)

lemma patch_ends_sessions_witness:
  "\<exists>u s' v s''. updateUser toy_kk 2 toy_disable 1 toy_two = (Inr u, s') \<and> resolveSession toy_kk toy_kc (Some ''tok'') s' = (Inr (Some v), s'') \<and> su_id v \<noteq> 2"
proof -
  obtain u s' where u: "updateUser toy_kk 2 toy_disable 1 toy_two = (Inr u, s')"
    using toy_disabled(1) by (cases "updateUser toy_kk 2 toy_disable 1 toy_two") auto
  from toy_resolved obtain v s'' where v: "resolveSession toy_kk toy_kc (Some ''tok'') s' = (Inr (Some v), s'')" using u by auto
  have "ends_sessions toy_disable" by (simp add: ends_sessions_def toy_disable_def)
  from patch_ends_sessions[OF u this v] u v show ?thesis by blast
qed

definition toy_disable_request :: ConsoleRequest where
  "toy_disable_request = \<lparr>cq_route = CR_patch_user ''2'', cq_token = Some ''tok'', cq_body = Some toy_disable, cq_userAgent = None, cq_actor = None\<rparr>"

lemma toy_served:
  "map user_core (co_users (snd (console_serve toy_kk toy_kc toy_disable_request toy_two))) \<noteq> map user_core (co_users toy_two)"
proof -
  have n: "js_Number ''2'' = Some 2" by code_simp
  show ?thesis
    by (simp add: console_serve_def console_gate_def toy_disable_request_def console_route_def requireRole_def patch_user_def caught_def user_id_def n
        default_to_def roleAtLeast_def rank_def RANK_def tryS_def
        updateUser_def bindS_apply co_select_def co_query_def Let_def toy_two_def toy_console_def empty_console_def find_user_def
        toy_owner_def toy_disable_def patch_role_def patch_status_def patch_email_def patch_password_def no_change_def as_str_def ret_def
        assertNotLastOwner_def active_owner_def co_update_def map_user_def apply_changes_def revoking_def destroyUserSessions_def
        toy_session_def resolveSession_def truthy_str_def toy_kc_def toy_kk_def co_now_def isRole_def ROLES_def user_core_def)
qed

lemma only_owners_change_users_witness:
  "\<exists>x\<in>set (co_sessions toy_two). \<exists>u. cs_tokenHash x = kk_sha256 toy_kk (the (cq_token toy_disable_request)) \<and> cs_expiresAt x > shd (co_clock toy_two)
     \<and> find_user (cs_userId x) toy_two = Some u \<and> active_owner u"
  by (rule only_owners_change_users[of toy_kc, OF _ surjective_pairing toy_served]) (simp add: toy_kc_def)

subsection \<open>Two requests at once\<close>

text \<open>C36: The protection of the last owner is a test followed by a separate statement.  When two requests demote the only two active owners and both
  have counted before either has written, both are accepted and no active owner is left.\<close>

theorem concurrent_demotions_leave_no_owner:
  assumes "filter active_owner (co_users s) = [a, b]" "co_sql s = sconst None"
  shows "\<exists>c1 c2 s1 s2 s3 s4. patch_role a (Some (JStr ''viewer'')) s = (Inr c1, s1) \<and> patch_role b (Some (JStr ''viewer'')) s1 = (Inr c2, s2)
     \<and> co_update (map_user (cu_id a) (apply_changes [c1])) s2 = (Inr (), s3)
     \<and> co_update (map_user (cu_id b) (apply_changes [c2])) s3 = (Inr (), s4) \<and> \<not> (\<exists>u\<in>set (co_users s4). active_owner u)"
proof -
  let ?demote = "\<lambda>u. u\<lparr>cu_role := ''viewer''\<rparr>"
  have owners: "{u \<in> set (co_users s). active_owner u} = {a, b}" using arg_cong[OF assms(1), of set] by simp
  then have ab: "active_owner a" "active_owner b" by blast+
  have only: "u = a \<or> u = b" if "u \<in> set (co_users s)" "active_owner u" for u using that owners by blast
  have role: "isRole ''viewer''" by code_simp
  have run: "patch_role t (Some (JStr ''viewer'')) s' = (Inr (Some (?demote, True)), s')"
    if "active_owner t" "filter active_owner (co_users s') = [a, b]" "co_sql s' = sconst None" for t s'
    using that role by (cases s') (simp add: patch_role_def as_str_def assertNotLastOwner_def bindS_apply co_select_def co_query_def Let_def ret_def)
  have wrote: "co_update g s' = (Inr (), g s')" if "co_sql s' = sconst None" for g s'
    using that by (cases s') (simp add: co_update_def co_query_def Let_def)
  have none: "\<not> (\<exists>u\<in>set (co_users (map_user (cu_id b) ?demote (map_user (cu_id a) ?demote s))). active_owner u)"
    using only by (auto simp: map_user_def active_owner_def)
  have ch: "apply_changes [Some (?demote, True)] = ?demote" by (simp add: apply_changes_def fun_eq_iff)
  let ?s3 = "map_user (cu_id a) ?demote s"
  have w1: "co_update (map_user (cu_id a) (apply_changes [Some (?demote, True)])) s = (Inr (), ?s3)"
    unfolding ch by (rule wrote[OF assms(2)])
  have w2: "co_update (map_user (cu_id b) (apply_changes [Some (?demote, True)])) ?s3 = (Inr (), map_user (cu_id b) ?demote ?s3)"
    unfolding ch by (rule wrote) (simp add: map_user_def assms(2))
  show ?thesis using run[OF ab(1) assms] run[OF ab(2) assms] w1 w2 none by blast
qed

lemma concurrent_demotions_leave_no_owner_witness:
  "\<exists>c1 c2 s1 s2 s3 s4. patch_role toy_owner (Some (JStr ''viewer'')) toy_two = (Inr c1, s1)
     \<and> patch_role (toy_owner\<lparr>cu_id := 2, cu_username := ''second''\<rparr>) (Some (JStr ''viewer'')) s1 = (Inr c2, s2)
     \<and> co_update (map_user (cu_id toy_owner) (apply_changes [c1])) s2 = (Inr (), s3)
     \<and> co_update (map_user (cu_id (toy_owner\<lparr>cu_id := 2, cu_username := ''second''\<rparr>)) (apply_changes [c2])) s3 = (Inr (), s4)
     \<and> \<not> (\<exists>u\<in>set (co_users s4). active_owner u)"
  by (rule concurrent_demotions_leave_no_owner) (simp_all add: toy_two_def toy_console_def empty_console_def active_owner_def toy_owner_def)

subsection \<open>Passwords\<close>

lemma no_dollar: "CHR ''$'' \<notin> set (hex_of bs)"
proof -
  have all: "\<forall>n\<in>set [0..<16]. hex_digit n \<noteq> CHR ''$''" by code_simp
  have "hex_digit (unat b div 16) \<noteq> CHR ''$'' \<and> hex_digit (unat b mod 16) \<noteq> CHR ''$''" for b :: "8 word"
    using all unsigned_less[of b, where ?'a = nat] by (simp only: set_upt atLeastLessThan_iff Ball_def) (simp add: less_mult_imp_div_less)
  then show ?thesis by (induction bs) (auto dest: sym)
qed

text \<open>A password verifies against the stored form of a password exactly when scrypt gives the two the same key of 64 bytes under the stored salt; so
  the right password always verifies and, as far as scrypt keeps passwords apart, no other does.\<close>

theorem verifyPassword_stored:
  assumes "salt \<noteq> []" "\<And>p. length (kk_scrypt kk p salt 64) = 64"
  shows "verifyPassword kk pw' (password_hash kk pw salt) \<longleftrightarrow> kk_scrypt kk pw' salt 64 = kk_scrypt kk pw salt 64"
proof -
  have "password_hash kk pw salt = join [CHR ''$''] [''scrypt'', hex_of salt, hex_of (kk_scrypt kk pw salt 64)]"
    by (simp add: password_hash_def)
  then have parts: "split_at_char CHR ''$'' (password_hash kk pw salt) = [''scrypt'', hex_of salt, hex_of (kk_scrypt kk pw salt 64)]"
    using no_dollar by (simp only:) (rule split_join, auto)
  have "hex_of x \<noteq> []" if "x \<noteq> []" for x using that by (cases x) auto
  moreover have "kk_scrypt kk pw salt 64 \<noteq> []" using assms(2)[of pw] by force
  ultimately show ?thesis using assms parts by (auto simp: verifyPassword_def Let_def)
qed

lemma verifyPassword_stored_witness:
  "verifyPassword toy_kk ''0123456789'' (password_hash toy_kk ''0123456789'' [7]) \<longleftrightarrow> kk_scrypt toy_kk ''0123456789'' [7] 64 = kk_scrypt toy_kk ''0123456789'' [7] 64"
  by (rule verifyPassword_stored) (simp_all add: toy_kk_def)

end
