(* ===== verification/ConsoleSources.thy ===== *)
theory ConsoleSources
  imports JsDouble ConsoleProposals TxPipeline Store "HOL-Library.Product_Lexorder" "HOL-Library.List_Lexorder" "HOL-Library.Char_ord"
begin

text \<open>
  What the operator console reads from the systems around it (\<open>console/server/src/rpc.ts\<close>, \<open>sources.ts\<close>): chain, validators,
  accounts, RPC tier, indexer, Vault, alerts, backups and hosts, and the overview that puts them
  together.  A remote system answers each call with whatever it likes, given the call and its position in the sequence
  of calls, or fails.  \<open>Promise.all\<close> starts all its calls; when several fail, the state says which failure
  comes first.  Answers in JSON are of any shape; only the console's own backup agents answer in their declared type.
\<close>

subsection \<open>Calls\<close>

record FetchCall =
  fc_method :: string
  fc_url :: string
  fc_body :: "json option"

record RemoteReply =
  rr_status :: int
  rr_text :: string
  rr_json :: "json option"

record BackupTimerRaw =
  bt_unit :: string
  bt_service :: "string option"
  bt_nextRun :: "string option"
  bt_lastRun :: "string option"
  bt_result :: "string option"
  bt_exitStatus :: "string option"
  bt_durationSec :: "int option"
  bt_activeState :: "string option"
  bt_artifactBytes :: "int option"
  bt_artifactAt :: "string option"

record DrillResult =
  dr_drill :: string
  dr_status :: "string option"
  dr_at :: "string option"
  dr_durationSec :: "int option"

record BackupHost =
  bh_host :: string
  bh_generatedAt :: string
  bh_timers :: "BackupTimerRaw list"
  bh_drills :: "DrillResult list"

record Remote =
  rm_answer :: "nat \<Rightarrow> FetchCall \<Rightarrow> js_exn + RemoteReply"
  rm_agent :: "nat \<Rightarrow> string \<Rightarrow> js_exn + (int \<times> BackupHost option)"
  rm_race :: "nat \<Rightarrow> nat"
  rm_calls :: "FetchCall list"
  rm_id :: int
  rm_clock :: "int stream"

type_synonym 'a rop = "(Remote, js_exn, 'a) xop"

text \<open>\<open>fetchT\<close>; a call that is aborted by its timer is one that fails.\<close>

definition fetchT :: "FetchCall \<Rightarrow> RemoteReply rop" where
  "fetchT c = (\<lambda>s. (rm_answer s (length (rm_calls s)) c, s\<lparr>rm_calls := rm_calls s @ [c]\<rparr>))"

definition get_call :: "string \<Rightarrow> FetchCall" where
  "get_call url = \<lparr>fc_method = ''GET'', fc_url = url, fc_body = None\<rparr>"

definition fetch_agent :: "string \<Rightarrow> (int \<times> BackupHost option) rop" where
  "fetch_agent url = (\<lambda>s. (rm_agent s (length (rm_calls s)) url, s\<lparr>rm_calls := rm_calls s @ [get_call url]\<rparr>))"

definition ok_status :: "int \<Rightarrow> bool" where "ok_status n \<longleftrightarrow> 200 \<le> n \<and> n \<le> 299"

definition liftR :: "'a js \<Rightarrow> 'a rop" where "liftR m = (\<lambda>s. (m, s))"

definition body_json :: "RemoteReply \<Rightarrow> json rop" where
  "body_json r = liftR (case rr_json r of None \<Rightarrow> Inl (PlainError ''Unexpected token in JSON'') | Some j \<Rightarrow> Inr j)"

definition rm_now :: "int rop" where
  "rm_now = (\<lambda>s. (Inr (shd (rm_clock s)), s\<lparr>rm_clock := stl (rm_clock s)\<rparr>))"

text \<open>\<open>Promise.allSettled\<close> and \<open>Promise.all\<close>.\<close>

fun settle_all :: "'a rop list \<Rightarrow> Remote \<Rightarrow> (js_exn + 'a) list \<times> Remote" where
  "settle_all [] s = ([], s)"
| "settle_all (m # ms) s = (case m s of (r, s') \<Rightarrow> case settle_all ms s' of (rs, s'') \<Rightarrow> (r # rs, s''))"

definition fulfilled :: "(js_exn + 'a) list \<Rightarrow> 'a list" where
  "fulfilled rs = List.map_filter (\<lambda>r. case r of Inl e \<Rightarrow> None | Inr x \<Rightarrow> Some x) rs"

definition rejected :: "(js_exn + 'a) list \<Rightarrow> js_exn list" where
  "rejected rs = List.map_filter (\<lambda>r. case r of Inl e \<Rightarrow> Some e | Inr x \<Rightarrow> None) rs"

definition promise_all :: "'a rop list \<Rightarrow> 'a list rop" where
  "promise_all ms = (\<lambda>s. case settle_all ms s of (rs, s') \<Rightarrow>
     (if rejected rs = [] then Inr (fulfilled rs)
      else Inl (rejected rs ! (rm_race s' (length (rm_calls s')) mod length (rejected rs))), s'))"

subsection \<open>Values of any shape\<close>

text \<open>\<open>v.key\<close>, \<open>v?.key\<close> and \<open>v ?? d\<close>.\<close>

definition get_prop :: "json option \<Rightarrow> string \<Rightarrow> json option js" where
  "get_prop v k = (case v of None \<Rightarrow> Inl TypeError | Some JNull \<Rightarrow> Inl TypeError | Some x \<Rightarrow> Inr (json_get x k))"

definition opt_prop :: "json option \<Rightarrow> string \<Rightarrow> json option" where
  "opt_prop v k = (case v of None \<Rightarrow> None | Some JNull \<Rightarrow> None | Some x \<Rightarrow> json_get x k)"

definition nullish :: "json option \<Rightarrow> bool" where "nullish v \<longleftrightarrow> v = None \<or> v = Some JNull"

text \<open>Values whose methods are called: an array's \<open>map\<close>, a text's \<open>toLowerCase\<close> or \<open>startsWith\<close>.\<close>

definition array_of :: "json option \<Rightarrow> json list js" where
  "array_of v = (case v of Some (JArr xs) \<Rightarrow> Inr xs | _ \<Rightarrow> Inl TypeError)"

definition text_of :: "json option \<Rightarrow> string js" where
  "text_of v = (case v of Some (JStr s) \<Rightarrow> Inr s | _ \<Rightarrow> Inl TypeError)"

text \<open>\<open>v[i]\<close> for a small index; a text gives one of its characters.\<close>

definition json_index :: "json option \<Rightarrow> nat \<Rightarrow> json option js" where
  "json_index v i = (case v of None \<Rightarrow> Inl TypeError | Some JNull \<Rightarrow> Inl TypeError
     | Some (JArr xs) \<Rightarrow> Inr (if i < length xs then Some (xs ! i) else None)
     | Some (JStr s) \<Rightarrow> Inr (if i < length s then Some (JStr [s ! i]) else None)
     | Some x \<Rightarrow> Inr (json_get x (js_num i)))"

definition hexToNum :: "json option \<Rightarrow> num64" where
  "hexToNum v = (case parseInt16 (tpl v) of None \<Rightarrow> NaN | Some n \<Rightarrow> int64 n)"

text \<open>\<open>parseInt(s, 10)\<close>.\<close>

definition parse_digits :: "string \<Rightarrow> num64" where
  "parse_digits s = (case radix_digits 10 (takeWhile is_digit s) of None \<Rightarrow> NaN | Some n \<Rightarrow> int64 n)"

definition parseInt10 :: "string \<Rightarrow> num64" where
  "parseInt10 s = (case dropWhile is_js_space s of [] \<Rightarrow> NaN
     | c # s' \<Rightarrow> if c = CHR ''-'' then neg64 (parse_digits s') else if c = CHR ''+'' then parse_digits s' else parse_digits (c # s'))"

definition num :: "json option \<Rightarrow> num64 js" where
  "num v = (case v of Some (JNum n) \<Rightarrow> Inr (int64 n) | Some (JFrac s) \<Rightarrow> Inr (number_text s)
     | _ \<Rightarrow> bindE (text_of v) (\<lambda>s. Inr (if starts_with ''0x'' s then (case parseInt16 s of None \<Rightarrow> NaN | Some n \<Rightarrow> int64 n) else parseInt10 s)))"

definition hexToBig :: "json option \<Rightarrow> int js" where
  "hexToBig v = (case v of None \<Rightarrow> Inl TypeError | Some JNull \<Rightarrow> Inl TypeError
     | Some (JBool b) \<Rightarrow> Inr (if b then 1 else 0) | Some (JNum n) \<Rightarrow> Inr n | Some (JFrac s) \<Rightarrow> Inl RangeError
     | Some x \<Rightarrow> (case BigInt (js_String x) of None \<Rightarrow> Inl (PlainError (''Cannot convert '' @ js_String x @ '' to a BigInt'')) | Some n \<Rightarrow> Inr n))"

text \<open>Division of \<open>bigint\<close> cuts towards zero.\<close>

definition weiToEth :: "int \<Rightarrow> string" where
  "weiToEth wei = (let whole = sgn wei * (\<bar>wei\<bar> div 10 ^ 18); rest = sgn wei * (\<bar>wei\<bar> mod 10 ^ 18) in
     js_int whole @ ''.'' @ take 4 (padStart 18 CHR ''0'' (js_int rest)))"

subsection \<open>The chain\<close>

record StandbyConfig =
  sb_host :: string
  sb_healthUrl :: string
  sb_rpoMinutes :: num64

record SourceConfig =
  sc_rpcUrl :: string
  sc_prometheusUrl :: string
  sc_alertmanagerUrl :: string
  sc_vaultAddr :: string
  sc_haproxyStatsUrl :: string
  sc_indexerMetricsUrl :: string
  sc_backupsAgentUrls :: "string list"
  sc_fetchTimeoutMs :: num64
  sc_standby :: StandbyConfig
  sc_watchAccounts :: "json list"

text \<open>\<open>parse\<close> is \<open>JSON.parse\<close>, \<open>None\<close> where it throws.\<close>

definition parseWatch :: "(string \<Rightarrow> json option) \<Rightarrow> string option \<Rightarrow> json list option" where
  "parseWatch parse raw = (if \<not> truthy_str raw then None
     else (case parse (the raw) of Some (JArr xs) \<Rightarrow> Some xs | _ \<Rightarrow> None))"

definition watch_account :: "string \<Rightarrow> string \<Rightarrow> json" where
  "watch_account label address = JObj [(''label'', JStr label), (''address'', JStr address)]"

definition loadSourceConfig :: "(string \<Rightarrow> json option) \<Rightarrow> env \<Rightarrow> SourceConfig" where
  "loadSourceConfig parse env =
     \<lparr>sc_rpcUrl = default_to ''https://rpc.ledger.haratrust.io/read/'' (env ''RPC_URL''),
      sc_prometheusUrl = default_to ''http://10.43.0.25:9090'' (env ''PROMETHEUS_URL''),
      sc_alertmanagerUrl = default_to ''http://10.43.0.25:9093'' (env ''ALERTMANAGER_URL''),
      sc_vaultAddr = default_to ''http://10.43.0.40:8200'' (env ''VAULT_ADDR''),
      sc_haproxyStatsUrl = default_to ''http://10.43.0.21:8404/stats;csv'' (env ''HAPROXY_STATS_URL''),
      sc_indexerMetricsUrl = default_to ''http://10.43.0.25:9100/metrics'' (env ''INDEXER_METRICS_URL''),
      sc_backupsAgentUrls = filter (\<lambda>s. s \<noteq> []) (map js_trim (split_at_char CHR '','' (default_to [] (env ''BACKUPS_AGENT_URLS'')))),
      sc_fetchTimeoutMs = (case env ''CONSOLE_FETCH_TIMEOUT_MS'' of None \<Rightarrow> Fin 4000 | Some v \<Rightarrow> number_text v),
      sc_standby = \<lparr>sb_host = default_to [] (env ''STANDBY_HOST''), sb_healthUrl = default_to [] (env ''STANDBY_HEALTH_URL''),
        sb_rpoMinutes = (case env ''STANDBY_RPO_MINUTES'' of None \<Rightarrow> Fin 10 | Some v \<Rightarrow> number_text v)\<rparr>,
      sc_watchAccounts = (case parseWatch parse (env ''WATCH_ACCOUNTS'') of Some xs \<Rightarrow> xs
        | None \<Rightarrow> [watch_account ''platform admin'' ''0x944b237097A03E1e8CdE8A0F46605506319EC329'',
            watch_account ''loadtest-deployer'' ''0xc9064736be2715060e79472795d759907b408bf5'',
            watch_account ''hara-xchange'' ''0xFB146120F459E041a9d450300cd34661a6aEAF4e'',
            watch_account ''anvil-1 funder'' ''0x70997970C51812dc3A010C7d01b50e0d17dc79C8''])\<rparr>"

text \<open>A JSON-RPC call; the counter of identifiers is a variable of the module.\<close>

definition rpc :: "SourceConfig \<Rightarrow> string \<Rightarrow> json list \<Rightarrow> json option rop" where
  "rpc cfg verb params =
     bindS (\<lambda>s. (Inr (rm_id s + 1), s\<lparr>rm_id := rm_id s + 1\<rparr>)) (\<lambda>id.
     bindS (fetchT \<lparr>fc_method = ''POST'', fc_url = sc_rpcUrl cfg, fc_body = Some (JObj [(''jsonrpc'', JStr ''2.0''), (''id'', JNum id),
       (''method'', JStr verb), (''params'', JArr params)])\<rparr>) (\<lambda>res.
     if \<not> ok_status (rr_status res) then throw (PlainError (''RPC HTTP '' @ js_int (rr_status res)))
     else bindS (body_json res) (\<lambda>j.
       bindS (liftR (get_prop (Some j) ''error'')) (\<lambda>err.
       if truthy_opt err
       then bindS (liftR (get_prop err ''message'')) (\<lambda>m. throw (PlainError (case m of None \<Rightarrow> [] | Some v \<Rightarrow> js_String v)))
       else liftR (get_prop (Some j) ''result'')))))"

record ChainInfo =
  ci_chainId :: num64
  ci_block :: num64
  ci_blockTimeSec :: "num64 option"
  ci_gasPrice :: string

text \<open>\<open>n.toString(16)\<close> of a whole number.\<close>

definition hex_block :: "num64 \<Rightarrow> string" where
  "hex_block n = (case n of Fin q \<Rightarrow> (if q < 0 then CHR ''-'' # toString16 (nat \<lfloor>- q\<rfloor>) else toString16 (nat \<lfloor>q\<rfloor>)) | v \<Rightarrow> num_text v)"

definition getChain :: "SourceConfig \<Rightarrow> ChainInfo rop" where
  "getChain cfg =
     bindS (promise_all [rpc cfg ''eth_chainId'' [], rpc cfg ''eth_getBlockByNumber'' [JStr ''latest'', JBool False], rpc cfg ''eth_gasPrice'' []]) (\<lambda>rs.
     bindS (liftR (get_prop (rs ! 1) ''number'')) (\<lambda>number.
     let blockNum = hexToNum number in
     bindS (if less64 (Fin 1) blockNum
       then bindS (rpc cfg ''eth_getBlockByNumber'' [JStr (''0x'' @ hex_block (sub64 blockNum (Fin 1))), JBool False]) (\<lambda>prev.
         if truthy_opt prev
         then bindS (liftR (get_prop (rs ! 1) ''timestamp'')) (\<lambda>t1. bindS (liftR (get_prop prev ''timestamp'')) (\<lambda>t0. ret (Some (sub64 (hexToNum t1) (hexToNum t0)))))
         else ret None)
       else ret None) (\<lambda>blockTimeSec.
     bindS (liftR (hexToBig (rs ! 2))) (\<lambda>gas.
     ret \<lparr>ci_chainId = hexToNum (rs ! 0), ci_block = blockNum, ci_blockTimeSec = blockTimeSec, ci_gasPrice = js_int gas\<rparr>))))"

record ValidatorInfo =
  vi_address :: string
  vi_proposedBlockCount :: "num64 option"
  vi_lastProposedBlock :: "num64 option"
  vi_recentlyProposed :: bool

record ValidatorSet =
  vs_count :: int
  vs_head :: num64
  vs_validators :: "ValidatorInfo list"

definition signer_entry :: "json \<Rightarrow> (string \<times> json) js" where
  "signer_entry m = bindE (get_prop (Some m) ''address'') (\<lambda>a. bindE (text_of a) (\<lambda>t. Inr (to_lower t, m)))"

definition validator_info :: "(string, json) jsmap \<Rightarrow> num64 \<Rightarrow> nat \<Rightarrow> json \<Rightarrow> ValidatorInfo js" where
  "validator_info byAddr head n addr = bindE (text_of (Some addr)) (\<lambda>a. case jsmap_get byAddr (to_lower a) of
       None \<Rightarrow> Inr \<lparr>vi_address = a, vi_proposedBlockCount = None, vi_lastProposedBlock = None, vi_recentlyProposed = False\<rparr>
     | Some m \<Rightarrow> bindE (num (json_get m ''lastProposedBlockNumber'')) (\<lambda>last'.
         bindE (num (json_get m ''proposedBlockCount'')) (\<lambda>count.
         Inr \<lparr>vi_address = a, vi_proposedBlockCount = Some count, vi_lastProposedBlock = Some last',
           vi_recentlyProposed = le64 (sub64 head last') (int64 (int n * 2))\<rparr>)))"

definition getValidators :: "SourceConfig \<Rightarrow> ValidatorSet rop" where
  "getValidators cfg =
     bindS (promise_all [rpc cfg ''qbft_getValidatorsByBlockNumber'' [JStr ''latest''],
       tryS (rpc cfg ''qbft_getSignerMetrics'' []) (\<lambda>_. ret (Some (JArr []))), rpc cfg ''eth_blockNumber'' []]) (\<lambda>rs.
     let head = hexToNum (rs ! 2) in
     bindS (liftR (array_of (rs ! 1))) (\<lambda>metricsRaw.
     bindS (liftR (mapE signer_entry metricsRaw)) (\<lambda>entries.
     bindS (liftR (array_of (rs ! 0))) (\<lambda>addrs.
     bindS (liftR (mapE (validator_info (fold (\<lambda>(k, v) m. jsmap_set m k v) entries []) head (length addrs)) addrs)) (\<lambda>vs.
     ret \<lparr>vs_count = int (length addrs), vs_head = head, vs_validators = vs\<rparr>)))))"

record AccountInfo =
  ac_label :: "json option"
  ac_address :: "json option"
  ac_balanceEth :: string
  ac_nonce :: num64
  ac_zeroBalance :: bool

text \<open>An undefined parameter is \<open>null\<close> in the text of the call.\<close>

definition account_info :: "SourceConfig \<Rightarrow> json \<Rightarrow> AccountInfo rop" where
  "account_info cfg a =
     bindS (liftR (get_prop (Some a) ''address'')) (\<lambda>address.
     bindS (promise_all [rpc cfg ''eth_getBalance'' [or_json address JNull, JStr ''latest''],
       rpc cfg ''eth_getTransactionCount'' [or_json address JNull, JStr ''latest'']]) (\<lambda>rs.
     bindS (liftR (hexToBig (rs ! 0))) (\<lambda>bal.
     ret \<lparr>ac_label = json_get a ''label'', ac_address = address, ac_balanceEth = weiToEth bal, ac_nonce = hexToNum (rs ! 1), ac_zeroBalance = (bal = 0)\<rparr>)))"

definition getAccounts :: "SourceConfig \<Rightarrow> AccountInfo list rop" where
  "getAccounts cfg = promise_all (map (account_info cfg) (sc_watchAccounts cfg))"

record RpcTierInfo =
  rt_endpoint :: string
  rt_up :: bool
  rt_block :: num64
  rt_peers :: "num64 option"
  rt_syncing :: bool

definition getRpcTier :: "SourceConfig \<Rightarrow> RpcTierInfo rop" where
  "getRpcTier cfg =
     bindS (promise_all [rpc cfg ''eth_blockNumber'' [], tryS (rpc cfg ''net_peerCount'' []) (\<lambda>_. ret (Some JNull)),
       tryS (rpc cfg ''eth_syncing'' []) (\<lambda>_. ret (Some (JBool False)))]) (\<lambda>rs.
     ret \<lparr>rt_endpoint = sc_rpcUrl cfg, rt_up = True, rt_block = hexToNum (rs ! 0),
       rt_peers = (if truthy_opt (rs ! 1) then Some (hexToNum (rs ! 1)) else None), rt_syncing = (rs ! 2 \<noteq> Some (JBool False))\<rparr>)"

end
