(* ===== verification/ConsoleBackups.thy ===== *)
theory ConsoleBackups
  imports ConsoleSources "HOL-Library.Multiset"
begin

text \<open>
  The backups report of the operator console (\<open>getBackups\<close> and \<open>getBackupsReport\<close> of \<open>console/server/src/sources.ts\<close>): what the
  agents of the hosts report about their timers, the health of each job, and the summary.  Two
  parameters stand for the engine: \<open>dp\<close> parses a date, \<open>None\<close> is an invalid one, and \<open>ck\<close> orders texts as \<open>localeCompare\<close> does.
\<close>

subsection \<open>Agents\<close>

record BackupsInfo =
  bi_hosts :: "BackupHost list"
  bi_unreachable :: int

definition agent_host :: "string \<Rightarrow> BackupHost rop" where
  "agent_host url = bindS (fetch_agent url) (\<lambda>(status, h).
     if \<not> ok_status status then throw (PlainError (''agent HTTP '' @ js_int status))
     else (case h of None \<Rightarrow> throw (PlainError ''Unexpected token in JSON'') | Some h \<Rightarrow> ret h))"

definition getBackups :: "SourceConfig \<Rightarrow> BackupsInfo rop" where
  "getBackups cfg =
     (if sc_backupsAgentUrls cfg = [] then throw (PlainError ''no backups-status agents configured (set BACKUPS_AGENT_URLS)'')
      else (\<lambda>s. case settle_all (map agent_host (sc_backupsAgentUrls cfg)) s of (settled, s') \<Rightarrow>
        (let hosts = fulfilled settled; unreachable = int (length settled) - int (length hosts) in
         if hosts = [] then (Inl (PlainError (''no backups agents reachable ('' @ js_int unreachable @ '' configured)'')), s')
         else (Inr \<lparr>bi_hosts = hosts, bi_unreachable = unreachable\<rparr>, s'))))"

subsection \<open>Health of a job\<close>

text \<open>The names of units are no names that every object inherits.\<close>

definition EXPECTED_INTERVAL_HOURS :: "(string \<times> num64) list" where
  "EXPECTED_INTERVAL_HOURS = [(''hara-postgres-wal-snapshot'', div64 (Fin 10) (Fin 60)), (''hara-postgres-snapshot'', Fin 24),
     (''hara-postgres-basebackup-snapshot'', Fin 24), (''hara-redis-snapshot'', Fin 24), (''hara-minio-snapshot'', Fin 24),
     (''hara-vault-snapshot'', Fin 24), (''hara-validator-snapshot'', Fin 24)]"

definition OVERDUE_GRACE :: num64 where "OVERDUE_GRACE = round64 (13 / 10)"

datatype BackupHealth = BH_ok | BH_failed | BH_overdue | BH_never | BH_unknown

datatype DrCategory = Cat_backup | Cat_snapshot | Cat_replication

definition CATEGORY :: "(string \<times> DrCategory) list" where
  "CATEGORY = [(''hara-postgres-snapshot'', Cat_backup), (''hara-redis-snapshot'', Cat_backup), (''hara-minio-snapshot'', Cat_backup),
     (''hara-vault-snapshot'', Cat_backup), (''hara-postgres-basebackup-snapshot'', Cat_snapshot),
     (''hara-validator-snapshot'', Cat_snapshot), (''hara-postgres-wal-snapshot'', Cat_replication)]"

definition unit_base :: "string \<Rightarrow> string" where
  "unit_base u = (let n = length u - 6 in if 6 \<le> length u \<and> drop n u = ''.timer'' then take n u else u)"

definition date64 :: "(string \<Rightarrow> int option) \<Rightarrow> string \<Rightarrow> num64" where
  "date64 dp t = (case dp t of None \<Rightarrow> NaN | Some n \<Rightarrow> int64 n)"

text \<open>\<open>d ? (nowMs - new Date(d).getTime()) / 3.6e6 : null\<close>.\<close>

definition age_hours :: "(string \<Rightarrow> int option) \<Rightarrow> int \<Rightarrow> string option \<Rightarrow> num64 option" where
  "age_hours dp nowMs d = (if truthy_str d then Some (div64 (sub64 (int64 nowMs) (date64 dp (the d))) (Fin 3600000)) else None)"

definition job_failed :: "BackupTimerRaw \<Rightarrow> bool" where
  "job_failed t \<longleftrightarrow> truthy_str (bt_result t) \<and> bt_result t \<noteq> Some ''success''"

definition classify :: "(string \<Rightarrow> int option) \<Rightarrow> BackupTimerRaw \<Rightarrow> int \<Rightarrow> num64 option \<times> num64 option \<times> bool \<times> BackupHealth" where
  "classify dp t nowMs =
     (let expected = map_of EXPECTED_INTERVAL_HOURS (unit_base (bt_unit t)); ageHours = age_hours dp nowMs (bt_lastRun t);
          overdue = (case (expected, ageHours) of (Some e, Some a) \<Rightarrow> less64 (mul64 e OVERDUE_GRACE) a | _ \<Rightarrow> False) \<and> \<not> job_failed t;
          health = (if \<not> truthy_str (bt_lastRun t) then BH_never else if job_failed t then BH_failed else if overdue then BH_overdue
            else if bt_result t = Some ''success'' then BH_ok else BH_unknown)
      in (ageHours, expected, overdue, health))"

record BackupJob =
  bj_timer :: BackupTimerRaw
  bj_host :: string
  bj_base :: string
  bj_category :: DrCategory
  bj_expectedIntervalHours :: "num64 option"
  bj_ageHours :: "num64 option"
  bj_overdue :: bool
  bj_health :: BackupHealth

definition one_decimal :: "num64 \<Rightarrow> num64" where "one_decimal a = div64 (math_round (mul64 a (Fin 10))) (Fin 10)"

definition job_of :: "(string \<Rightarrow> int option) \<Rightarrow> int \<Rightarrow> string \<Rightarrow> BackupTimerRaw \<Rightarrow> BackupJob" where
  "job_of dp nowMs host t = (case classify dp t nowMs of (ageHours, expected, overdue, health) \<Rightarrow>
     \<lparr>bj_timer = t, bj_host = host, bj_base = unit_base (bt_unit t), bj_category = default_to Cat_backup (map_of CATEGORY (unit_base (bt_unit t))),
      bj_expectedIntervalHours = expected, bj_ageHours = map_option one_decimal ageHours, bj_overdue = overdue, bj_health = health\<rparr>)"

definition is_drill :: "BackupTimerRaw \<Rightarrow> bool" where "is_drill t \<longleftrightarrow> unit_base (bt_unit t) = ''hara-drill-snapshot''"

definition host_jobs :: "(string \<Rightarrow> int option) \<Rightarrow> int \<Rightarrow> BackupHost \<Rightarrow> BackupJob list" where
  "host_jobs dp nowMs h = map (job_of dp nowMs (bh_host h)) (filter (\<lambda>t. \<not> is_drill t) (bh_timers h))"

record DrillRow =
  dl_drill :: DrillResult
  dl_host :: string
  dl_ageHours :: "num64 option"

definition host_drills :: "(string \<Rightarrow> int option) \<Rightarrow> int \<Rightarrow> BackupHost \<Rightarrow> DrillRow list" where
  "host_drills dp nowMs h = map (\<lambda>d. \<lparr>dl_drill = d, dl_host = bh_host h, dl_ageHours = map_option one_decimal (age_hours dp nowMs (dr_at d))\<rparr>) (bh_drills h)"

fun health_rank :: "BackupHealth \<Rightarrow> nat" where
  "health_rank BH_failed = 0" | "health_rank BH_overdue = 1" | "health_rank BH_never = 2" | "health_rank BH_unknown = 3" | "health_rank BH_ok = 4"

definition sort_jobs :: "(string \<Rightarrow> rat) \<Rightarrow> BackupJob list \<Rightarrow> BackupJob list" where
  "sort_jobs ck = sort_key (\<lambda>j. (health_rank (bj_health j), ck (bj_host j), ck (bj_base j)))"

subsection \<open>The report\<close>

record DrReplication =
  rp_walLastShipAt :: "string option"
  rp_walLagMinutes :: "num64 option"
  rp_healthy :: bool
  rp_rpoMinutes :: num64

record DrFailover =
  fo_configured :: bool
  fo_standbyHost :: "string option"
  fo_standbyAwake :: "bool option"
  fo_note :: string

record DrRecovery =
  rv_scheduled :: bool
  rv_drills :: "DrillRow list"
  rv_lastPass :: "string option"
  rv_anyFail :: bool

record BackupsSummary =
  sm_total :: int
  sm_ok :: int
  sm_failed :: int
  sm_overdue :: int
  sm_never :: int
  sm_oldestSuccessAgeHours :: "num64 option"

record BackupsReport =
  br_generatedAt :: string
  br_hosts :: int
  br_unreachable :: int
  br_jobs :: "BackupJob list"
  br_summary :: BackupsSummary
  br_replication :: DrReplication
  br_failover :: DrFailover
  br_recovery :: DrRecovery

definition probeStandby :: "SourceConfig \<Rightarrow> bool option rop" where
  "probeStandby cfg = (if sb_healthUrl (sc_standby cfg) = [] then ret None
     else tryS (bindS (fetchT (get_call (sb_healthUrl (sc_standby cfg)))) (\<lambda>res. ret (Some (ok_status (rr_status res))))) (\<lambda>_. ret (Some False)))"

definition replication_of :: "SourceConfig \<Rightarrow> BackupJob list \<Rightarrow> DrReplication" where
  "replication_of cfg jobs = (let wal = find (\<lambda>j. bj_base j = ''hara-postgres-wal-snapshot'') jobs in
     \<lparr>rp_walLastShipAt = Option.bind wal (\<lambda>j. bt_lastRun (bj_timer j)),
      rp_walLagMinutes = Option.bind wal (\<lambda>j. map_option (\<lambda>a. math_round (mul64 a (Fin 60))) (bj_ageHours j)),
      rp_healthy = (map_option bj_health wal = Some BH_ok), rp_rpoMinutes = sb_rpoMinutes (sc_standby cfg)\<rparr>)"

definition failover_of :: "SourceConfig \<Rightarrow> bool option \<Rightarrow> DrFailover" where
  "failover_of cfg awake = (let host = sb_host (sc_standby cfg) in
     \<lparr>fo_configured = (host \<noteq> []), fo_standbyHost = (if host = [] then None else Some host), fo_standbyAwake = awake,
      fo_note = (if host \<noteq> [] then ''Standby provisioned; wakes on emergency and replays from S3 (RPO '' @ [CHR 0xE2, CHR 0x89, CHR 0x88] @ '' WAL cadence).''
        else ''No standby VPS provisioned yet '' @ em_dash @ '' failover is a manual restore-from-S3 to a new host.'')\<rparr>)"

definition recovery_of :: "bool \<Rightarrow> DrillRow list \<Rightarrow> DrRecovery" where
  "recovery_of scheduled drills =
     (let passes = sort (map (\<lambda>d. the (dr_at (dl_drill d))) (filter (\<lambda>d. dr_status (dl_drill d) = Some ''pass'' \<and> truthy_str (dr_at (dl_drill d))) drills)) in
     \<lparr>rv_scheduled = scheduled, rv_drills = drills, rv_lastPass = (if passes = [] then None else Some (last passes)),
      rv_anyFail = list_ex (\<lambda>d. dr_status (dl_drill d) = Some ''fail'') drills\<rparr>)"

definition count_health :: "BackupHealth \<Rightarrow> BackupJob list \<Rightarrow> int" where
  "count_health h jobs = int (length (filter (\<lambda>j. bj_health j = h) jobs))"

definition summary_of :: "BackupJob list \<Rightarrow> BackupsSummary" where
  "summary_of jobs = (let okAges = List.map_filter bj_ageHours (filter (\<lambda>j. bj_health j = BH_ok) jobs) in
     \<lparr>sm_total = int (length jobs), sm_ok = count_health BH_ok jobs, sm_failed = count_health BH_failed jobs,
      sm_overdue = count_health BH_overdue jobs, sm_never = count_health BH_never jobs,
      sm_oldestSuccessAgeHours = (if okAges = [] then None else Some (maximum64 okAges))\<rparr>)"

definition getBackupsReport :: "(string \<Rightarrow> int option) \<Rightarrow> (string \<Rightarrow> rat) \<Rightarrow> SourceConfig \<Rightarrow> int \<Rightarrow> BackupsReport rop" where
  "getBackupsReport dp ck cfg nowMs =
     bindS (getBackups cfg) (\<lambda>b.
     let jobs = sort_jobs ck (concat (map (host_jobs dp nowMs) (bi_hosts b)));
         scheduled = list_ex (\<lambda>h. list_ex is_drill (bh_timers h)) (bi_hosts b);
         drills = concat (map (host_drills dp nowMs) (bi_hosts b)) in
     bindS (probeStandby cfg) (\<lambda>awake.
     ret \<lparr>br_generatedAt = toISOString nowMs, br_hosts = int (length (bi_hosts b)), br_unreachable = bi_unreachable b, br_jobs = jobs,
       br_summary = summary_of jobs, br_replication = replication_of cfg jobs, br_failover = failover_of cfg awake,
       br_recovery = recovery_of scheduled drills\<rparr>))"

subsection \<open>What the report says\<close>

text \<open>The health of a job on every branch.\<close>

lemma job_health:
  "bj_health (job_of dp nowMs h t) =
     (if \<not> truthy_str (bt_lastRun t) then BH_never else if job_failed t then BH_failed
      else if bj_overdue (job_of dp nowMs h t) then BH_overdue
      else if bt_result t = Some ''success'' then BH_ok else BH_unknown)"
  by (simp add: job_of_def classify_def Let_def)

lemma overdue_job:
  "bj_overdue (job_of dp nowMs h t) \<longleftrightarrow> \<not> job_failed t \<and> (\<exists>e a. map_of EXPECTED_INTERVAL_HOURS (unit_base (bt_unit t)) = Some e
     \<and> age_hours dp nowMs (bt_lastRun t) = Some a \<and> less64 (mul64 e OVERDUE_GRACE) a)"
  by (auto simp: job_of_def classify_def Let_def split: option.splits)

text \<open>A date that cannot be read has no age: a job with it is never overdue.\<close>

lemma unreadable_date_is_not_overdue:
  "dp d = None \<Longrightarrow> bt_lastRun t = Some d \<Longrightarrow> \<not> bj_overdue (job_of dp nowMs h t)"
  by (auto simp: overdue_job age_hours_def date64_def sub64_def split: if_splits)

lemma sort_jobs_perm [simp]: "mset (sort_jobs ck js) = mset js" "set (sort_jobs ck js) = set js"
  by (simp_all add: sort_jobs_def)

lemma sort_jobs_ranked: "sorted (map (\<lambda>j. health_rank (bj_health j)) (sort_jobs ck js))"
proof -
  let ?k = "\<lambda>j. (health_rank (bj_health j), ck (bj_host j), ck (bj_base j))"
  have "sorted (map ?k (sort_jobs ck js))" by (simp add: sort_jobs_def)
  then have "sorted_wrt (\<lambda>i j. ?k i \<le> ?k j) (sort_jobs ck js)" by (simp add: sorted_map)
  then have "sorted_wrt (\<lambda>i j. health_rank (bj_health i) \<le> health_rank (bj_health j)) (sort_jobs ck js)"
    by (rule sorted_wrt_mono_rel [rotated]) (auto simp: less_eq_prod_def)
  then show ?thesis by (simp add: sorted_map)
qed

lemma count_health_mset: "mset js = mset js' \<Longrightarrow> count_health h js = count_health h js'"
  unfolding count_health_def by (metis mset_filter size_mset)

lemma count_health_total:
  "int (length js) = count_health BH_ok js + count_health BH_failed js + count_health BH_overdue js + count_health BH_never js + count_health BH_unknown js"
proof (induction js)
  case (Cons j js)
  then show ?case by (cases "bj_health j") (simp_all add: count_health_def)
qed (simp add: count_health_def)

text \<open>The reachable agents.\<close>

lemma settle_all_length: "settle_all ms s = (rs, s') \<Longrightarrow> length rs = length ms"
  by (induction ms arbitrary: s rs s') (auto split: prod.splits)

lemma fulfilled_length: "length (fulfilled rs) \<le> length rs"
  by (induction rs) (auto simp: fulfilled_def List.map_filter_simps split: sum.splits)

lemma probeStandby_total: "\<exists>r s'. probeStandby cfg s = (Inr r, s')"
  by (cases "rm_answer s (length (rm_calls s)) (get_call (sb_healthUrl (sc_standby cfg)))")
    (simp_all add: probeStandby_def tryS_def fetchT_def bindS_apply)

lemma getBackups_Inr:
  assumes "getBackups cfg s = (Inr b, s')"
  shows "\<exists>settled. settle_all (map agent_host (sc_backupsAgentUrls cfg)) s = (settled, s') \<and> bi_hosts b = fulfilled settled
     \<and> bi_unreachable b = int (length (sc_backupsAgentUrls cfg)) - int (length (bi_hosts b)) \<and> bi_hosts b \<noteq> []"
  using assms settle_all_length [of "map agent_host (sc_backupsAgentUrls cfg)" s]
  by (auto simp: getBackups_def throw_def Let_def split: if_splits prod.splits)

lemma getBackupsReport_Inr:
  assumes "getBackupsReport dp ck cfg nowMs s = (Inr rep, s')"
  obtains b s1 where "getBackups cfg s = (Inr b, s1)" "br_jobs rep = sort_jobs ck (concat (map (host_jobs dp nowMs) (bi_hosts b)))"
    "br_summary rep = summary_of (br_jobs rep)" "br_unreachable rep = bi_unreachable b" "br_hosts rep = int (length (bi_hosts b))"
  using assms by (auto simp: getBackupsReport_def bindS_apply Let_def split: prod.splits sum.splits)

text \<open>The report has one job for every timer of a reachable host that is no drill, the worst first, and its counts add up to the total
  except for the jobs of unknown health, which no count shows.\<close>

lemma backups_report_complete:
  assumes "getBackupsReport dp ck cfg nowMs s = (Inr rep, s')"
  shows "\<exists>settled s1. settle_all (map agent_host (sc_backupsAgentUrls cfg)) s = (settled, s1)
    \<and> mset (br_jobs rep) = mset (concat (map (host_jobs dp nowMs) (fulfilled settled)))
    \<and> sorted (map (\<lambda>j. health_rank (bj_health j)) (br_jobs rep))
    \<and> sm_total (br_summary rep) = sm_ok (br_summary rep) + sm_failed (br_summary rep) + sm_overdue (br_summary rep) + sm_never (br_summary rep)
        + count_health BH_unknown (br_jobs rep)
    \<and> br_hosts rep + br_unreachable rep = int (length (sc_backupsAgentUrls cfg))"
proof -
  from getBackupsReport_Inr [OF assms] obtain b s1 where b: "getBackups cfg s = (Inr b, s1)"
    "br_jobs rep = sort_jobs ck (concat (map (host_jobs dp nowMs) (bi_hosts b)))" "br_summary rep = summary_of (br_jobs rep)"
    "br_unreachable rep = bi_unreachable b" "br_hosts rep = int (length (bi_hosts b))" .
  from getBackups_Inr [OF b(1)] b show ?thesis
    by (auto simp: sort_jobs_ranked summary_of_def Let_def count_health_total [of "sort_jobs _ _"])
qed

end
