(* ===== verification/ConsoleMonitor.thy ===== *)
theory ConsoleMonitor
  imports ConsoleBackups
begin

text \<open>
  The rest of \<open>console/server/src/sources.ts\<close> (indexer, Vault, alerts, hosts), the series and anomalies of
  \<open>metrics.ts\<close> and the silences of \<open>alerts.ts\<close>.  The label \<open>host\<close> of a metric is a text or missing.
\<close>

subsection \<open>Indexer, Vault and alerts\<close>

text \<open>\<open>^metric\s+([0-9.eE+-]+)\<close> with the flag \<open>m\<close>; lines end at the one-byte terminators.\<close>

definition number_chars :: "char \<Rightarrow> bool" where
  "number_chars c \<longleftrightarrow> is_digit c \<or> c \<in> set ''.eE+-''"

definition metric_here :: "string \<Rightarrow> string \<Rightarrow> string option" where
  "metric_here metric s = (let r = drop (length metric) s; v = takeWhile number_chars (dropWhile is_js_space r) in
     if starts_with metric s \<and> r \<noteq> [] \<and> is_js_space (hd r) \<and> v \<noteq> [] then Some v else None)"

fun find_metric :: "string \<Rightarrow> bool \<Rightarrow> string \<Rightarrow> string option" where
  "find_metric metric start [] = None"
| "find_metric metric start (c # s) = (case (if start then metric_here metric (c # s) else None) of Some v \<Rightarrow> Some v
     | None \<Rightarrow> find_metric metric (of_char c = (10 :: nat) \<or> of_char c = (13 :: nat)) s)"

definition pick_metric :: "string \<Rightarrow> string \<Rightarrow> num64 option" where
  "pick_metric t metric = map_option number_text (find_metric metric True t)"

record ServicesInfo =
  si_indexerLag :: "num64 option"
  si_indexedBlock :: "num64 option"
  si_chainHead :: "num64 option"

definition getServices :: "SourceConfig \<Rightarrow> ServicesInfo rop" where
  "getServices cfg = bindS (fetchT (get_call (sc_indexerMetricsUrl cfg))) (\<lambda>res.
     if \<not> ok_status (rr_status res) then throw (PlainError (''indexer metrics HTTP '' @ js_int (rr_status res)))
     else (let indexed = pick_metric (rr_text res) ''hara_indexer_last_indexed_block''; head = pick_metric (rr_text res) ''hara_indexer_chain_head_block'' in
       ret \<lparr>si_indexerLag = (case (indexed, head) of (Some i, Some h) \<Rightarrow> Some (sub64 h i) | _ \<Rightarrow> None), si_indexedBlock = indexed, si_chainHead = head\<rparr>))"

record SealStatus =
  ss_sealed :: "json option"
  ss_threshold :: "json option"
  ss_shares :: "json option"
  ss_progress :: "json option"
  ss_version :: "json option"

definition getVault :: "SourceConfig \<Rightarrow> SealStatus rop" where
  "getVault cfg = bindS (fetchT (get_call (sc_vaultAddr cfg @ ''/v1/sys/seal-status''))) (\<lambda>res.
     if \<not> ok_status (rr_status res) then throw (PlainError (''Vault HTTP '' @ js_int (rr_status res)))
     else bindS (body_json res) (\<lambda>j. if j = JNull then throw TypeError
       else ret \<lparr>ss_sealed = json_get j ''sealed'', ss_threshold = json_get j ''t'', ss_shares = json_get j ''n'',
         ss_progress = json_get j ''progress'', ss_version = json_get j ''version''\<rparr>))"

record AlertInfo =
  al_name :: json
  al_severity :: json
  al_state :: json
  al_startsAt :: "json option"

definition alert_info :: "json \<Rightarrow> AlertInfo js" where
  "alert_info a = bindE (get_prop (Some a) ''labels'') (\<lambda>labels.
     bindE (get_prop labels ''alertname'') (\<lambda>name. bindE (get_prop labels ''severity'') (\<lambda>severity.
     Inr \<lparr>al_name = or_json name (JStr ''(unnamed)''), al_severity = or_json severity (JStr ''none''),
       al_state = or_json (opt_prop (json_get a ''status'') ''state'') (JStr ''unknown''), al_startsAt = json_get a ''startsAt''\<rparr>)))"

definition getAlerts :: "SourceConfig \<Rightarrow> AlertInfo list rop" where
  "getAlerts cfg = bindS (fetchT (get_call (sc_alertmanagerUrl cfg @ ''/api/v2/alerts''))) (\<lambda>res.
     if \<not> ok_status (rr_status res) then throw (PlainError (''Alertmanager HTTP '' @ js_int (rr_status res)))
     else bindS (body_json res) (\<lambda>j. bindS (liftR (array_of (Some j))) (\<lambda>arr. liftR (mapE alert_info arr))))"

subsection \<open>Hosts\<close>

record HostInfo =
  hi_host :: string
  hi_up :: bool
  hi_diskPct :: "num64 option"
  hi_diskMount :: "string option"
  hi_diskFreeGb :: "num64 option"
  hi_memPct :: "num64 option"
  hi_cpuPct :: "num64 option"

text \<open>A row of an instant query; its labels are an object, or missing.\<close>

record PromRow =
  pv_metric :: "json option"
  pv_value :: num64

definition prom_row :: "json \<Rightarrow> PromRow js" where
  "prom_row r = bindE (get_prop (Some r) ''metric'') (\<lambda>m. bindE (json_index (json_get r ''value'') 1) (\<lambda>v.
     Inr \<lparr>pv_metric = m, pv_value = (case v of None \<Rightarrow> NaN | Some x \<Rightarrow> number_json x)\<rparr>))"

definition prom_url :: "SourceConfig \<Rightarrow> string \<Rightarrow> string" where
  "prom_url cfg expr = sc_prometheusUrl cfg @ ''/api/v1/query?query='' @ encodeURIComponent expr"

definition promVector :: "SourceConfig \<Rightarrow> string \<Rightarrow> PromRow list rop" where
  "promVector cfg expr = tryS
     (bindS (fetchT (get_call (prom_url cfg expr))) (\<lambda>res.
        if \<not> ok_status (rr_status res) then ret []
        else bindS (body_json res) (\<lambda>j. bindS (liftR (get_prop (Some j) ''data'')) (\<lambda>d.
          bindS (liftR (array_of (Some (or_json (opt_prop d ''result'') (JArr []))))) (\<lambda>rows. liftR (mapE prom_row rows))))))
     (\<lambda>_. ret [])"

definition row_label :: "string \<Rightarrow> PromRow \<Rightarrow> string option js" where
  "row_label k r = bindE (get_prop (pv_metric r) k) (\<lambda>v. Inr (as_str v))"

definition FS_SEL :: string where "FS_SEL = ''fstype!~\"tmpfs|overlay|squashfs|ramfs|fuse.*\"''"

text \<open>\<open>pick\<close>: the rows of one host.\<close>

definition rows_of :: "string \<Rightarrow> PromRow list \<Rightarrow> PromRow list js" where
  "rows_of h rows = bindE (mapE (row_label ''host'') rows) (\<lambda>ls. Inr (map fst (filter (\<lambda>(r, l). l = Some h) (zip rows ls))))"

definition worst_mount :: "PromRow list \<Rightarrow> (num64 \<times> string) option" where
  "worst_mount rows = fold (\<lambda>r w. case w of
       None \<Rightarrow> Some (pv_value r, default_to ''?'' (as_str (opt_prop (pv_metric r) ''mountpoint'')))
     | Some (p, m) \<Rightarrow> if less64 p (pv_value r) then Some (pv_value r, default_to ''?'' (as_str (opt_prop (pv_metric r) ''mountpoint''))) else w) rows None"

definition rounded_first :: "PromRow list \<Rightarrow> num64 option" where
  "rounded_first rows = (case rows of [] \<Rightarrow> None | r # _ \<Rightarrow> Some (math_round (pv_value r)))"

definition host_info :: "PromRow list \<Rightarrow> PromRow list \<Rightarrow> PromRow list \<Rightarrow> PromRow list \<Rightarrow> PromRow list \<Rightarrow> string \<Rightarrow> HostInfo js" where
  "host_info up diskPct diskFree mem cpu h =
     bindE (rows_of h diskPct) (\<lambda>ds. let worst = worst_mount ds in
     bindE (if worst = None then Inr [] else rows_of h diskFree) (\<lambda>fs.
     let free = Option.bind worst (\<lambda>(p, m). map_option pv_value (find (\<lambda>r. as_str (opt_prop (pv_metric r) ''mountpoint'') = Some m) fs)) in
     bindE (rows_of h up) (\<lambda>us. bindE (rows_of h mem) (\<lambda>ms. bindE (rows_of h cpu) (\<lambda>cs.
     Inr \<lparr>hi_host = h, hi_up = (case us of [] \<Rightarrow> False | u # _ \<Rightarrow> pv_value u = Fin 1),
       hi_diskPct = map_option (\<lambda>(p, m). math_round p) worst, hi_diskMount = map_option snd worst,
       hi_diskFreeGb = map_option (\<lambda>f. one_decimal (div64 f (Fin 1000000000))) free,
       hi_memPct = rounded_first ms, hi_cpuPct = rounded_first cs\<rparr>)))))"

definition getHosts :: "SourceConfig \<Rightarrow> HostInfo list rop" where
  "getHosts cfg = bindS (promise_all [promVector cfg ''up{job=\"node\"}'',
       promVector cfg (''100*(1-node_filesystem_avail_bytes{'' @ FS_SEL @ ''}/node_filesystem_size_bytes{'' @ FS_SEL @ ''})''),
       promVector cfg (''node_filesystem_avail_bytes{'' @ FS_SEL @ ''}''),
       promVector cfg ''100*(1-node_memory_MemAvailable_bytes/node_memory_MemTotal_bytes)'',
       promVector cfg ''100*(1-avg by(host)(rate(node_cpu_seconds_total{mode=\"idle\"}[2m])))'']) (\<lambda>rs.
     if rs ! 0 = [] then throw (PlainError ''no node_exporter targets (host metrics unavailable)'')
     else bindS (liftR (mapE (row_label ''host'') (rs ! 0))) (\<lambda>labels.
       let hosts = sort (remdups (filter (\<lambda>h. h \<noteq> []) (List.map_filter id labels))) in
       liftR (mapE (host_info (rs ! 0) (rs ! 1) (rs ! 2) (rs ! 3) (rs ! 4)) hosts)))"

subsection \<open>Overview\<close>

datatype 'a Section = Available 'a | Unavailable string

definition safe :: "'a rop \<Rightarrow> 'a Section rop" where
  "safe m = tryS (bindS m (\<lambda>d. ret (Available d))) (\<lambda>e. ret (Unavailable (exn_message e)))"

record Overview =
  ov_generatedAt :: string
  ov_chain :: "ChainInfo Section"
  ov_validators :: "ValidatorSet Section"
  ov_accounts :: "AccountInfo list Section"
  ov_rpcTier :: "RpcTierInfo Section"
  ov_services :: "ServicesInfo Section"
  ov_vault :: "SealStatus Section"
  ov_alerts :: "AlertInfo list Section"
  ov_backups :: "BackupsInfo Section"
  ov_hosts :: "HostInfo list Section"

definition overview :: "SourceConfig \<Rightarrow> Overview rop" where
  "overview cfg =
     bindS (safe (getChain cfg)) (\<lambda>chain. bindS (safe (getValidators cfg)) (\<lambda>validators. bindS (safe (getAccounts cfg)) (\<lambda>accounts.
     bindS (safe (getRpcTier cfg)) (\<lambda>rpcTier. bindS (safe (getServices cfg)) (\<lambda>services. bindS (safe (getVault cfg)) (\<lambda>vault.
     bindS (safe (getAlerts cfg)) (\<lambda>alerts. bindS (safe (getBackups cfg)) (\<lambda>backups. bindS (safe (getHosts cfg)) (\<lambda>hosts.
     bindS rm_now (\<lambda>time.
     ret \<lparr>ov_generatedAt = toISOString time, ov_chain = chain, ov_validators = validators, ov_accounts = accounts, ov_rpcTier = rpcTier,
       ov_services = services, ov_vault = vault, ov_alerts = alerts, ov_backups = backups, ov_hosts = hosts\<rparr>))))))))))"

text \<open>No source can make the overview fail.\<close>

lemma safe_total: "\<exists>r s'. safe m s = (Inr r, s')"
proof (cases "m s")
  case (Pair r s')
  then show ?thesis by (cases r) (simp_all add: safe_def tryS_def bindS_apply)
qed

lemma bind_total:
  assumes "\<exists>r s'. m s = (Inr r, s')" "\<And>x s. \<exists>r s'. f x s = (Inr r, s')"
  shows "\<exists>r s'. bindS m f s = (Inr r, s')"
  using assms by (auto simp: bindS_apply)

lemma overview_total: "\<exists>r s'. overview cfg s = (Inr r, s')"
  unfolding overview_def by (intro bind_total safe_total) (simp_all add: rm_now_def)

subsection \<open>Series\<close>

record SeriesDef =
  sr_promql :: string
  sr_unit :: string
  sr_label :: string

definition series_def :: "string \<Rightarrow> string \<Rightarrow> string \<Rightarrow> SeriesDef" where
  "series_def q u l = \<lparr>sr_promql = q, sr_unit = u, sr_label = l\<rparr>"

definition SERIES :: "(string \<times> SeriesDef) list" where
  "SERIES = [
     (''chainHeight'', series_def ''hara_indexer_chain_head_block'' ''block'' ''Chain height''),
     (''blockRate'', series_def ''rate(hara_indexer_chain_head_block[2m])'' ''blk/s'' ''Block rate''),
     (''indexerLag'', series_def ''hara_indexer_lag_blocks'' ''blocks'' ''Indexer lag''),
     (''eventRate'', series_def ''rate(hara_indexer_events_indexed_total[2m])'' ''ev/s'' ''Event throughput''),
     (''batchMs'', series_def ''hara_indexer_batch_duration_ms'' ''ms'' ''Indexer batch duration''),
     (''errorRate'', series_def ''rate(hara_indexer_errors_total[5m])'' ''err/s'' ''Indexer error rate''),
     (''indexerMem'', series_def ''hara_indexer_process_resident_memory_bytes'' ''bytes'' ''Indexer memory''),
     (''eventloopP90'', series_def ''hara_indexer_nodejs_eventloop_lag_p90_seconds'' ''s'' ''Event-loop lag p90''),
     (''alertsFiring'', series_def ''count(ALERTS{alertstate=\"firing\"})'' ''count'' ''Firing alerts''),
     (''validatorPeers'', series_def ''avg(ethereum_peer_count{role=\"validator\"})'' ''peers'' ''Validator peers (avg)''),
     (''validatorHeight'', series_def ''max(ethereum_blockchain_height{role=\"validator\"})'' ''block'' ''Validator chain height''),
     (''validatorInSync'', series_def ''min(besu_synchronizer_in_sync{role=\"validator\"})'' ''1=synced'' ''Validators in-sync (min)''),
     (''txpool'', series_def ''max(besu_transaction_pool_number_of_transactions)'' ''txs'' ''Tx-pool size''),
     (''rpcReqRate'', series_def ''sum(rate(haproxy_backend_http_requests_total[2m]))'' ''req/s'' ''RPC request rate''),
     (''rpcSessions'', series_def ''sum(haproxy_backend_current_sessions)'' ''sessions'' ''RPC active sessions''),
     (''rpc5xx'', series_def ''sum(rate(haproxy_backend_http_responses_total{code=\"5xx\"}[5m]))'' ''5xx/s'' ''RPC 5xx rate''),
     (''rpcPeers'', series_def ''avg(ethereum_peer_count{role=\"rpc\"})'' ''peers'' ''RPC node peers (avg)'')]"

text \<open>\<open>SERIES[name]\<close>; a name every object inherits gives something without the three properties.\<close>

definition series_lookup :: "string \<Rightarrow> SeriesDef option option" where
  "series_lookup name = (case map_of SERIES name of Some d \<Rightarrow> Some (Some d) | None \<Rightarrow> if name \<in> set inherited then Some None else None)"

record RangeWindow =
  wd_start :: num64
  wd_end :: num64
  wd_step :: num64

definition range_window :: "num64 \<Rightarrow> int \<Rightarrow> RangeWindow" where
  "range_window minutes nowMs =
     (let e = math_floor (div64 (int64 nowMs) (Fin 1000));
          st = sub64 e (mul64 (max64 (Fin 5) (min64 (Fin 1440) minutes)) (Fin 60)) in
      \<lparr>wd_start = st, wd_end = e, wd_step = max64 (Fin 15) (math_round (div64 (sub64 e st) (Fin 200)))\<rparr>)"

definition range_url :: "SourceConfig \<Rightarrow> string \<Rightarrow> RangeWindow \<Rightarrow> string" where
  "range_url cfg q w = sc_prometheusUrl cfg @ ''/api/v1/query_range?query='' @ encodeURIComponent q @ ''&start='' @ num_text (wd_start w)
     @ ''&end='' @ num_text (wd_end w) @ ''&step='' @ num_text (wd_step w)"

record RangePoint =
  rg_t :: "json option"
  rg_v :: num64

record RangeAnswer =
  ra_name :: string
  ra_def :: "SeriesDef option"
  ra_points :: "RangePoint list"

text \<open>\<open>const [t, v] = p\<close> takes apart an array or a text.\<close>

definition pair_of :: "json \<Rightarrow> (json option \<times> num64) js" where
  "pair_of p = (case p of JArr xs \<Rightarrow> Inr (case xs of [] \<Rightarrow> (None, NaN) | [t] \<Rightarrow> (Some t, NaN) | t # v # _ \<Rightarrow> (Some t, number_json v))
     | JStr s \<Rightarrow> Inr (case s of [] \<Rightarrow> (None, NaN) | [t] \<Rightarrow> (Some (JStr [t]), NaN) | t # v # _ \<Rightarrow> (Some (JStr [t]), number_text [v]))
     | _ \<Rightarrow> Inl TypeError)"

definition range_points :: "json \<Rightarrow> RangePoint list js" where
  "range_points j = bindE (get_prop (Some j) ''data'') (\<lambda>d.
     bindE (case opt_prop d ''result'' of None \<Rightarrow> Inr None | Some JNull \<Rightarrow> Inr None | Some v \<Rightarrow> json_index (Some v) 0) (\<lambda>first.
     bindE (array_of (Some (or_json (opt_prop first ''values'') (JArr [])))) (\<lambda>values.
     bindE (mapE pair_of values) (\<lambda>ps. Inr (map (\<lambda>(t, v). \<lparr>rg_t = t, rg_v = v\<rparr>) ps)))))"

definition getRange :: "SourceConfig \<Rightarrow> string \<Rightarrow> num64 \<Rightarrow> int \<Rightarrow> RangeAnswer rop" where
  "getRange cfg name minutes nowMs = (case series_lookup name of
       None \<Rightarrow> throw (PlainError (''unknown series '' @ quoted name))
     | Some d \<Rightarrow> bindS (fetchT (get_call (range_url cfg (case d of None \<Rightarrow> ''undefined'' | Some sd \<Rightarrow> sr_promql sd) (range_window minutes nowMs)))) (\<lambda>res.
         if \<not> ok_status (rr_status res) then throw (PlainError (''Prometheus HTTP '' @ js_int (rr_status res)))
         else bindS (body_json res) (\<lambda>j. bindS (liftR (range_points j)) (\<lambda>ps.
           ret \<lparr>ra_name = name, ra_def = d, ra_points = ps\<rparr>))))"

end
