(* ===== verification/ConsoleSignals.thy ===== *)
theory ConsoleSignals
  imports ConsoleMonitor ConsoleRoutes
begin

text \<open>
  What the console derives from its sources: anomalies and host series (\<open>metrics.ts\<close>), silences (\<open>alerts.ts\<close>) and insights
  (\<open>insights.ts\<close>), with the routes of \<open>index.ts\<close> that serve them behind the gate of theory ConsoleRoutes.
\<close>

subsection \<open>Instant queries\<close>

definition prom :: "SourceConfig \<Rightarrow> string \<Rightarrow> num64 option rop" where
  "prom cfg expr = tryS
     (bindS (fetchT (get_call (prom_url cfg expr))) (\<lambda>res.
        if \<not> ok_status (rr_status res) then ret None
        else bindS (body_json res) (\<lambda>j. bindS (liftR (get_prop (Some j) ''data'')) (\<lambda>d.
          let result = opt_prop d ''result'' in
          bindS (liftR (if nullish result then Inr None else json_index result 0)) (\<lambda>first.
          let value = opt_prop first ''value'' in
          bindS (liftR (if nullish value then Inr None else json_index value 1)) (\<lambda>v.
          ret (if nullish v then None else Some (number_json (the v)))))))))
     (\<lambda>_. ret None)"

lemma prom_total: "\<exists>r s'. prom cfg expr s = (Inr r, s')"
  by (simp add: prom_def tryS_def split: prod.splits sum.splits)

text \<open>\<open>v != null && v > b\<close> and the like.\<close>

definition above :: "num64 \<Rightarrow> num64 option \<Rightarrow> bool" where "above b v \<longleftrightarrow> (case v of None \<Rightarrow> False | Some x \<Rightarrow> less64 b x)"
definition at_least :: "num64 \<Rightarrow> num64 option \<Rightarrow> bool" where "at_least b v \<longleftrightarrow> (case v of None \<Rightarrow> False | Some x \<Rightarrow> le64 b x)"
definition below :: "num64 \<Rightarrow> num64 option \<Rightarrow> bool" where "below b v \<longleftrightarrow> (case v of None \<Rightarrow> False | Some x \<Rightarrow> less64 x b)"

text \<open>A number or null in a template.\<close>

definition show64 :: "num64 option \<Rightarrow> string" where "show64 v = (case v of None \<Rightarrow> ''null'' | Some x \<Rightarrow> num_text x)"

subsection \<open>Anomalies\<close>

datatype Level = Lv_info | Lv_warn | Lv_critical

record AnomalyRow =
  an_area :: string
  an_level :: Level
  an_message :: string

definition anomaly :: "string \<Rightarrow> Level \<Rightarrow> string \<Rightarrow> AnomalyRow" where
  "anomaly a l m = \<lparr>an_area = a, an_level = l, an_message = m\<rparr>"

definition approx :: string where "approx = [CHR 0xE2, CHR 0x89, CHR 0x88]"

definition metric_anomalies :: "num64 option \<Rightarrow> num64 option \<Rightarrow> num64 option \<Rightarrow> num64 option \<Rightarrow> AnomalyRow list" where
  "metric_anomalies lag blockRate errRate firing =
     (if below (round64 (5 / 100)) blockRate then [anomaly ''chain'' Lv_critical (''Chain not advancing (block rate '' @ approx @ '' 0) '' @ em_dash @ '' possible stall.'')] else [])
     @ (if above (Fin 100) lag then [anomaly ''services'' Lv_critical (''Indexer lag '' @ show64 lag @ '' blocks (>100).'')]
        else if above (Fin 25) lag then [anomaly ''services'' Lv_warn (''Indexer lag '' @ show64 lag @ '' blocks (>25).'')] else [])
     @ (if above (Fin 0) errRate then [anomaly ''services'' Lv_warn ''Indexer is logging errors.''] else [])
     @ (if above (Fin 0) firing then [anomaly ''alerts'' Lv_info (show64 firing @ '' alert(s) firing in Alertmanager.'')] else [])"

text \<open>\<open>new Date(d).toISOString()\<close> throws on an invalid date.\<close>

definition iso_minute :: "(string \<Rightarrow> int option) \<Rightarrow> string option \<Rightarrow> string js" where
  "iso_minute dp d = (if \<not> truthy_str d then Inr ''?''
     else (case dp (the d) of None \<Rightarrow> Inl RangeError
       | Some t \<Rightarrow> (let s = toISOString t in Inr (take 16 (takeWhile (\<lambda>c. c \<noteq> CHR ''T'') s @ '' '' @ drop 1 (dropWhile (\<lambda>c. c \<noteq> CHR ''T'') s)) @ ''Z''))))"

definition expected_text :: "num64 option \<Rightarrow> string" where
  "expected_text e = (case e of None \<Rightarrow> ''?'' | Some x \<Rightarrow> if less64 x (Fin 1) then num_text (math_round (mul64 x (Fin 60))) @ ''m'' else num_text x @ ''h'')"

definition quoted_or_null :: "string option \<Rightarrow> string" where "quoted_or_null v = default_to ''null'' v"

definition job_anomaly :: "(string \<Rightarrow> int option) \<Rightarrow> BackupJob \<Rightarrow> AnomalyRow list js" where
  "job_anomaly dp j = (case bj_health j of
       BH_failed \<Rightarrow> bindE (iso_minute dp (bt_lastRun (bj_timer j))) (\<lambda>w.
         Inr [anomaly ''backups'' Lv_critical (bj_base j @ '' on '' @ bj_host j @ '' FAILED (result: '' @ quoted_or_null (bt_result (bj_timer j))
           @ '', last run '' @ w @ ''). Off-host copy may be stale.'')])
     | BH_overdue \<Rightarrow> Inr [anomaly ''backups'' Lv_warn (bj_base j @ '' on '' @ bj_host j @ '' is overdue '' @ em_dash @ '' last success ''
         @ show64 (bj_ageHours j) @ ''h ago (expected every '' @ expected_text (bj_expectedIntervalHours j) @ ''). Timer may have stopped.'')]
     | BH_never \<Rightarrow> Inr [anomaly ''backups'' Lv_info (bj_base j @ '' on '' @ bj_host j @ '' has never run since install.'')]
     | _ \<Rightarrow> Inr [])"

text \<open>The loop over the jobs fills the list that is answered: what it has added stays when a later job throws.\<close>

fun job_anomalies :: "(string \<Rightarrow> int option) \<Rightarrow> BackupJob list \<Rightarrow> AnomalyRow list \<times> bool" where
  "job_anomalies dp [] = ([], True)"
| "job_anomalies dp (j # js) = (case job_anomaly dp j of Inl e \<Rightarrow> ([], False)
     | Inr rows \<Rightarrow> (case job_anomalies dp js of (rest, fin) \<Rightarrow> (rows @ rest, fin)))"

definition backup_anomalies :: "(string \<Rightarrow> int option) \<Rightarrow> BackupsReport \<Rightarrow> AnomalyRow list" where
  "backup_anomalies dp rep = (case job_anomalies dp (br_jobs rep) of (rows, fin) \<Rightarrow>
     rows @ (if fin \<and> br_unreachable rep > 0
       then [anomaly ''backups'' Lv_warn (js_int (br_unreachable rep) @ '' backup agent(s) unreachable '' @ em_dash @ '' backup status for those hosts is unknown.'')] else []))"

definition validator_anomalies :: "ValidatorSet \<Rightarrow> AnomalyRow list" where
  "validator_anomalies v = (let n = length (filter (\<lambda>x. \<not> vi_recentlyProposed x) (vs_validators v)) in
     if n = 0 then [] else [anomaly ''validators'' (if 2 \<le> n then Lv_critical else Lv_warn) (js_num n @ '' validator(s) not recently proposing.'')])"

definition host_anomalies :: "HostInfo \<Rightarrow> AnomalyRow list" where
  "host_anomalies h =
     (if \<not> hi_up h then [anomaly ''host'' Lv_critical (hi_host h @ '' host metrics unreachable '' @ em_dash @ '' host or node_exporter down.'')]
      else (let full = hi_host h @ '' '' @ quoted_or_null (hi_diskMount h) @ '' disk '' @ show64 (hi_diskPct h) @ ''% full ('' @ show64 (hi_diskFreeGb h) @ ''GB free).'' in
        (if at_least (Fin 90) (hi_diskPct h) then [anomaly ''host'' Lv_critical full]
         else if at_least (Fin 80) (hi_diskPct h) then [anomaly ''host'' Lv_warn full] else [])
        @ (if at_least (Fin 90) (hi_memPct h) then [anomaly ''host'' Lv_warn (hi_host h @ '' memory '' @ show64 (hi_memPct h) @ ''% used.'')] else [])))"

text \<open>\<open>try { ... } catch { }\<close> around a source.\<close>

definition signals_of :: "'a rop \<Rightarrow> ('a \<Rightarrow> AnomalyRow list) \<Rightarrow> AnomalyRow list rop" where
  "signals_of m f = tryS (bindS m (\<lambda>x. ret (f x))) (\<lambda>_. ret [])"

record Anomalies =
  as_at :: string
  as_rows :: "AnomalyRow list"

definition anomaly_metrics :: "SourceConfig \<Rightarrow> num64 option list rop" where
  "anomaly_metrics cfg = promise_all [prom cfg ''hara_indexer_lag_blocks'', prom cfg ''rate(hara_indexer_chain_head_block[2m])'',
     prom cfg ''rate(hara_indexer_errors_total[5m])'', prom cfg ''count(ALERTS{alertstate=\"firing\"})'']"

definition getAnomalies :: "(string \<Rightarrow> int option) \<Rightarrow> (string \<Rightarrow> rat) \<Rightarrow> SourceConfig \<Rightarrow> int \<Rightarrow> Anomalies rop" where
  "getAnomalies dp ck cfg nowMs =
     bindS (anomaly_metrics cfg) (\<lambda>ms.
     bindS (signals_of (getBackupsReport dp ck cfg nowMs) (backup_anomalies dp)) (\<lambda>backups.
     bindS (signals_of (getValidators cfg) validator_anomalies) (\<lambda>validators.
     bindS (signals_of (getHosts cfg) (\<lambda>hs. concat (map host_anomalies hs))) (\<lambda>hosts.
     ret \<lparr>as_at = toISOString nowMs, as_rows = metric_anomalies (ms ! 0) (ms ! 1) (ms ! 2) (ms ! 3) @ backups @ validators @ hosts\<rparr>))))"

subsection \<open>Series of all hosts\<close>

definition HOST_FS :: string where "HOST_FS = ''fstype!~\"tmpfs|overlay|squashfs|ramfs|fuse.*\"''"

definition HOST_SERIES :: "(string \<times> SeriesDef \<times> num64) list" where
  "HOST_SERIES = [
     (''disk'', series_def (''max by (host) (100*(1-node_filesystem_avail_bytes{'' @ HOST_FS @ ''}/node_filesystem_size_bytes{'' @ HOST_FS @ ''}))'') ''%'' ''Disk used (worst mount)'', Fin 1440),
     (''mem'', series_def ''100*(1-node_memory_MemAvailable_bytes/node_memory_MemTotal_bytes)'' ''%'' ''Memory used'', Fin 360),
     (''cpu'', series_def ''100*(1-avg by(host)(rate(node_cpu_seconds_total{mode=\"idle\"}[2m])))'' ''%'' ''CPU busy'', Fin 60)]"

text \<open>A row is an object with the time under \<open>t\<close> and a value per host; Prometheus gives times as numbers.\<close>

type_synonym host_row = "(string, num64) jsmap"

definition put_point :: "string \<Rightarrow> num64 \<times> num64 \<Rightarrow> (num64, host_row) jsmap \<Rightarrow> (num64, host_row) jsmap" where
  "put_point host p m = (case p of (t, v) \<Rightarrow>
     jsmap_set m t (jsmap_set (default_to [(''t'', t)] (jsmap_get m t)) host (one_decimal v)))"

definition num_key :: "num64 \<Rightarrow> rat" where "num_key v = (case v of Fin q \<Rightarrow> q | _ \<Rightarrow> 0)"

record HostRange =
  hr_metric :: string
  hr_def :: "(SeriesDef \<times> num64) option"
  hr_hosts :: "string list"
  hr_rows :: "host_row list"

text \<open>The series of an answer: the label \<open>host\<close>, and the points.\<close>

definition series_points :: "json \<Rightarrow> (string option \<times> (num64 \<times> num64) list) js" where
  "series_points s = bindE (get_prop (Some s) ''metric'') (\<lambda>m. bindE (get_prop m ''host'') (\<lambda>h.
     bindE (if truthy_str (as_str h) then bindE (array_of (Some (or_json (json_get s ''values'') (JArr [])))) (mapE pair_of) else Inr []) (\<lambda>ps.
     Inr (as_str h, map (\<lambda>(t, v). (case t of None \<Rightarrow> NaN | Some x \<Rightarrow> number_json x, v)) ps))))"

definition host_rows :: "(string option \<times> (num64 \<times> num64) list) list \<Rightarrow> (num64, host_row) jsmap" where
  "host_rows ss = fold (\<lambda>(h, ps) m. if truthy_str h then fold (put_point (the h)) ps m else m) ss []"

definition getHostRange :: "SourceConfig \<Rightarrow> string \<Rightarrow> num64 \<Rightarrow> int \<Rightarrow> HostRange rop" where
  "getHostRange cfg metric minutes nowMs = (case (case map_of HOST_SERIES metric of Some d \<Rightarrow> Some (Some d) | None \<Rightarrow> if metric \<in> set inherited then Some None else None) of
       None \<Rightarrow> throw (PlainError (''unknown host metric '' @ quoted metric @ '' (disk|mem|cpu)''))
     | Some d \<Rightarrow> bindS (fetchT (get_call (range_url cfg (case d of None \<Rightarrow> ''undefined'' | Some x \<Rightarrow> sr_promql (fst x)) (range_window minutes nowMs)))) (\<lambda>res.
         if \<not> ok_status (rr_status res) then throw (PlainError (''Prometheus HTTP '' @ js_int (rr_status res)))
         else bindS (body_json res) (\<lambda>j. bindS (liftR (get_prop (Some j) ''data'')) (\<lambda>data.
           bindS (liftR (array_of (Some (or_json (opt_prop data ''result'') (JArr []))))) (\<lambda>series.
           bindS (liftR (mapE series_points series)) (\<lambda>ss.
           ret \<lparr>hr_metric = metric, hr_def = d, hr_hosts = sort (filter (\<lambda>h. h \<noteq> []) (List.map_filter fst ss)),
             hr_rows = sort_key (\<lambda>row. num_key (default_to NaN (jsmap_get row ''t''))) (map snd (host_rows ss))\<rparr>))))))"

subsection \<open>Silences\<close>

definition toISO64 :: "num64 \<Rightarrow> string js" where
  "toISO64 t = (case t of Fin q \<Rightarrow> (let n = (if q < 0 then - \<lfloor>- q\<rfloor> else \<lfloor>q\<rfloor>) in if \<bar>n\<bar> \<le> 8640000000000000 then Inr (toISOString n) else Inl RangeError)
     | _ \<Rightarrow> Inl RangeError)"

definition silence_hours :: "num64 \<Rightarrow> num64" where "silence_hours h = max64 (Fin (1 / 4)) (min64 (Fin 720) h)"

definition createSilence :: "SourceConfig \<Rightarrow> string \<Rightarrow> num64 \<Rightarrow> string \<Rightarrow> string \<Rightarrow> json rop" where
  "createSilence cfg alertname hours0 createdBy comment =
     (let hours = silence_hours hours0 in
     bindS rm_now (\<lambda>time0. bindS rm_now (\<lambda>time.
     bindS (liftR (toISO64 (add64 (int64 time) (mul64 (mul64 hours (Fin 3600)) (Fin 1000))))) (\<lambda>endsAt.
     bindS (fetchT \<lparr>fc_method = ''POST'', fc_url = sc_alertmanagerUrl cfg @ ''/api/v2/silences'', fc_body = Some (JObj [
       (''matchers'', JArr [JObj [(''name'', JStr ''alertname''), (''value'', JStr alertname), (''isRegex'', JBool False), (''isEqual'', JBool True)]]),
       (''startsAt'', JStr (toISOString time0)), (''endsAt'', JStr endsAt),
       (''createdBy'', JStr (if createdBy = [] then ''strata-console'' else createdBy)),
       (''comment'', JStr (if comment = [] then ''silenced via console for '' @ num_text hours @ ''h'' else comment))])\<rparr>) (\<lambda>res.
     if \<not> ok_status (rr_status res) then throw (PlainError (''Alertmanager HTTP '' @ js_int (rr_status res) @ '': '' @ take 120 (rr_text res)))
     else body_json res)))))"

record Silence =
  sl_id :: "json option"
  sl_alertname :: json
  sl_startsAt :: "json option"
  sl_endsAt :: "json option"
  sl_createdBy :: "json option"
  sl_comment :: "json option"
  sl_state :: json

definition matcher_value :: "json list \<Rightarrow> json js" where
  "matcher_value ms = bindE (foldE (\<lambda>acc m. case acc of Some x \<Rightarrow> Inr acc
       | None \<Rightarrow> bindE (get_prop (Some m) ''name'') (\<lambda>n. Inr (if n = Some (JStr ''alertname'') then Some m else None))) None ms) (\<lambda>hit.
     Inr (or_json (opt_prop hit ''value'') (JStr ''(any)'')))"

definition live_silence :: "json \<Rightarrow> bool js" where
  "live_silence s = bindE (get_prop (Some s) ''status'') (\<lambda>st. Inr (opt_prop st ''state'' \<noteq> Some (JStr ''expired'')))"

definition silence_of :: "json \<Rightarrow> Silence js" where
  "silence_of s = bindE (array_of (json_get s ''matchers'')) (\<lambda>ms. bindE (matcher_value ms) (\<lambda>name.
     Inr \<lparr>sl_id = json_get s ''id'', sl_alertname = name, sl_startsAt = json_get s ''startsAt'', sl_endsAt = json_get s ''endsAt'',
       sl_createdBy = json_get s ''createdBy'', sl_comment = json_get s ''comment'',
       sl_state = or_json (opt_prop (json_get s ''status'') ''state'') (JStr ''unknown'')\<rparr>))"

definition listSilences :: "SourceConfig \<Rightarrow> Silence list rop" where
  "listSilences cfg = bindS (fetchT (get_call (sc_alertmanagerUrl cfg @ ''/api/v2/silences''))) (\<lambda>res.
     if \<not> ok_status (rr_status res) then throw (PlainError (''Alertmanager HTTP '' @ js_int (rr_status res)))
     else bindS (body_json res) (\<lambda>j. bindS (liftR (array_of (Some j))) (\<lambda>arr.
       bindS (liftR (mapE (\<lambda>s. bindE (live_silence s) (\<lambda>b. Inr (b, s))) arr)) (\<lambda>marked.
       liftR (mapE silence_of (map snd (filter fst marked)))))))"

definition deleteSilence :: "SourceConfig \<Rightarrow> string \<Rightarrow> unit rop" where
  "deleteSilence cfg i = bindS (fetchT \<lparr>fc_method = ''DELETE'', fc_url = sc_alertmanagerUrl cfg @ ''/api/v2/silence/'' @ encodeURIComponent i, fc_body = None\<rparr>) (\<lambda>res.
     if \<not> ok_status (rr_status res) then throw (PlainError (''Alertmanager HTTP '' @ js_int (rr_status res))) else ret ())"

end
