(* ===== verification/ConsoleInsights.thy ===== *)
theory ConsoleInsights
  imports ConsoleSignals
begin

text \<open>
  The console's insights (\<open>console/server/src/insights.ts\<close>): baselines, forecasts, freshness of backups, error budget, fairness
  of the validators, capacity, and the recommendations drawn from them.  Then the routes of \<open>index.ts\<close> that serve
  monitoring data, behind the gate that users and sessions of theory ConsoleUsers provide.
\<close>

subsection \<open>Baselines and forecasts\<close>

datatype BaselineStatus = Bs_normal | Bs_elevated | Bs_anomalous

record Baseline =
  bl_key :: string
  bl_label :: string
  bl_unit :: string
  bl_current :: "num64 option"
  bl_mean :: "num64 option"
  bl_z :: "num64 option"
  bl_status :: BaselineStatus

definition BASELINE_SERIES :: "(string \<times> string \<times> string \<times> string) list" where
  "BASELINE_SERIES = [(''indexerLag'', ''Indexer lag'', ''blocks'', ''hara_indexer_lag_blocks''),
     (''batchMs'', ''Indexer batch duration'', ''ms'', ''hara_indexer_batch_duration_ms''),
     (''rpcSessions'', ''RPC active sessions'', ''sessions'', ''sum(haproxy_backend_current_sessions)''),
     (''validatorPeers'', ''Validator peers'', ''peers'', ''avg(ethereum_peer_count{role=\"validator\"})''),
     (''txpool'', ''Tx-pool size'', ''txs'', ''max(besu_transaction_pool_number_of_transactions)'')]"

definition z_score :: "num64 option \<Rightarrow> num64 option \<Rightarrow> num64 option \<Rightarrow> num64 option" where
  "z_score current mean stdev = (case (current, mean, stdev) of
       (Some c, Some m, Some d) \<Rightarrow> if less64 (round64 (1 / 1000000)) d then Some (div64 (sub64 c m) d) else None
     | _ \<Rightarrow> None)"

definition baseline_status :: "num64 option \<Rightarrow> BaselineStatus" where
  "baseline_status z = (case z of None \<Rightarrow> Bs_normal
     | Some v \<Rightarrow> if le64 (Fin 3) (abs64 v) then Bs_anomalous else if le64 (Fin 2) (abs64 v) then Bs_elevated else Bs_normal)"

definition baseline :: "SourceConfig \<Rightarrow> string \<times> string \<times> string \<times> string \<Rightarrow> Baseline rop" where
  "baseline cfg s = (case s of (key, label, unt, metric) \<Rightarrow>
     bindS (promise_all [prom cfg metric, prom cfg (''avg_over_time(('' @ metric @ '')[2h:1m])''), prom cfg (''stddev_over_time(('' @ metric @ '')[2h:1m])'')]) (\<lambda>rs.
     let z = z_score (rs ! 0) (rs ! 1) (rs ! 2) in
     ret \<lparr>bl_key = key, bl_label = label, bl_unit = unt, bl_current = rs ! 0, bl_mean = rs ! 1, bl_z = z, bl_status = baseline_status z\<rparr>))"

record Forecast =
  fc_label :: string
  fc_current :: "num64 option"
  fc_predicted1h :: "num64 option"
  fc_threshold :: num64
  fc_willBreach :: bool

definition forecast_of :: "string \<Rightarrow> num64 option \<Rightarrow> num64 option \<Rightarrow> num64 \<Rightarrow> Forecast" where
  "forecast_of label current predicted threshold =
     \<lparr>fc_label = label, fc_current = current, fc_predicted1h = predicted, fc_threshold = threshold,
      fc_willBreach = less64 threshold (default_to (Fin 0) predicted)\<rparr>"

record Recommendation =
  rc_area :: string
  rc_severity :: Level
  rc_text :: string

definition recommend :: "bool \<Rightarrow> string \<Rightarrow> Level \<Rightarrow> string \<Rightarrow> Recommendation list" where
  "recommend cond area sev message = (if cond then [\<lparr>rc_area = area, rc_severity = sev, rc_text = message\<rparr>] else [])"

text \<open>\<open>${v?.toFixed(d)}\<close>.\<close>

definition fixed_opt :: "nat \<Rightarrow> num64 option \<Rightarrow> string" where
  "fixed_opt d v = (case v of None \<Rightarrow> ''undefined'' | Some x \<Rightarrow> toFixed d x)"

definition baseline_recs :: "Baseline \<Rightarrow> Recommendation list" where
  "baseline_recs b = recommend (bl_status b = Bs_anomalous) (bl_key b) Lv_warn
     (bl_label b @ '' is statistically anomalous ('' @ fixed_opt 1 (bl_current b) @ '' vs ~'' @ fixed_opt 1 (bl_mean b) @ '' baseline, z=''
       @ fixed_opt 1 (bl_z b) @ ''). Investigate before it trips a hard alert.'')"

definition lag_recs :: "Forecast \<Rightarrow> Recommendation list" where
  "lag_recs f = recommend (fc_willBreach f) ''services'' Lv_warn (''Indexer lag is trending up '' @ em_dash @ '' projected ~'' @ fixed_opt 0 (fc_predicted1h f)
     @ '' blocks within the hour (threshold 25). Check indexer throughput / RPC.'')"

subsection \<open>Backups, error budget and cache\<close>

record BackupFreshness =
  bf_unit :: string
  bf_host :: string
  bf_ageHours :: "num64 option"
  bf_result :: "string option"
  bf_overdue :: bool

definition freshness :: "(string \<Rightarrow> int option) \<Rightarrow> int \<Rightarrow> string \<Rightarrow> BackupTimerRaw \<Rightarrow> BackupFreshness" where
  "freshness dp nowMs host t = (let ageHours = age_hours dp nowMs (bt_lastRun t) in
     \<lparr>bf_unit = bt_unit t, bf_host = host, bf_ageHours = ageHours, bf_result = bt_result t,
      bf_overdue = (bt_result t \<noteq> Some ''success'' \<or> above (Fin 26) ageHours)\<rparr>)"

definition all_freshness :: "(string \<Rightarrow> int option) \<Rightarrow> int \<Rightarrow> BackupsInfo \<Rightarrow> BackupFreshness list" where
  "all_freshness dp nowMs b = concat (map (\<lambda>h. map (freshness dp nowMs (bh_host h)) (bh_timers h)) (bi_hosts b))"

definition freshness_recs :: "BackupFreshness \<Rightarrow> Recommendation list" where
  "freshness_recs f = recommend (bf_overdue f) ''backups'' Lv_warn
     (bf_unit f @ '' on '' @ bf_host f @ '' hasn'' @ [CHR 0x27] @ ''t had a successful run in ''
       @ (case bf_ageHours f of None \<Rightarrow> ''a while'' | Some a \<Rightarrow> if a = NaN \<or> a = Fin 0 then ''a while'' else toFixed 0 a @ ''h'')
       @ '' (last result: '' @ quoted_or_null (bf_result f) @ ''). Verify the nightly backup.'')"

record Slo =
  sq_successPct :: "num64 option"
  sq_total :: "num64 option"
  sq_errors5xx :: "num64 option"
  sq_recent5xxPerMin :: "num64 option"

definition slo_of :: "num64 option \<Rightarrow> num64 option \<Rightarrow> num64 option \<Rightarrow> Slo" where
  "slo_of nonErr responses recent5xx =
     \<lparr>sq_successPct = (case (nonErr, responses) of (Some n, Some t) \<Rightarrow> if t = Fin 0 \<or> t = NaN then None else Some (div64 (mul64 (Fin 100) n) t) | _ \<Rightarrow> None),
      sq_total = responses, sq_errors5xx = (case (responses, nonErr) of (Some t, Some n) \<Rightarrow> Some (sub64 t n) | _ \<Rightarrow> None), sq_recent5xxPerMin = recent5xx\<rparr>"

definition slo_recs :: "Slo \<Rightarrow> Recommendation list" where
  "slo_recs s = recommend (below (round64 (999 / 10)) (sq_successPct s)) ''rpc'' Lv_warn
     (''RPC success rate '' @ fixed_opt 3 (sq_successPct s) @ ''% is below the 99.9% target '' @ em_dash @ '' investigate 5xx sources.'')"

definition cache_recs :: "num64 option \<Rightarrow> Recommendation list" where
  "cache_recs p = recommend (below (Fin 70) p) ''rpc'' Lv_info (''RPC cache hit-rate is '' @ fixed_opt 0 p @ ''% '' @ em_dash
     @ '' consider longer TTLs or caching more read methods to cut validator load.'')"

subsection \<open>Fairness and capacity\<close>

record Fairness =
  fn_shares :: "(string \<times> num64 \<times> bool) list"
  fn_spreadPct :: "num64 option"
  fn_verdict :: string

definition block_count :: "ValidatorInfo \<Rightarrow> num64" where "block_count x = default_to (Fin 0) (vi_proposedBlockCount x)"

definition no_fairness :: Fairness where "no_fairness = \<lparr>fn_shares = [], fn_spreadPct = None, fn_verdict = ''no data''\<rparr>"

definition fairness_of :: "ValidatorSet \<Rightarrow> Fairness \<times> Recommendation list" where
  "fairness_of v = (let sm = foldl add64 (Fin 0) (map block_count (vs_validators v)) in
     if \<not> less64 (Fin 0) sm then (no_fairness, [])
     else (let shares = map (\<lambda>x. (vi_address x, div64 (mul64 (Fin 100) (block_count x)) sm, vi_recentlyProposed x)) (vs_validators v);
               pcts = map (\<lambda>(a, p, r). p) shares;
               spread = sub64 (maximum64 pcts) (minimum64 pcts);
               ideal = div64 (Fin 100) (int64 (int (length shares)));
               verdict = (if less64 spread (mul64 ideal (Fin (1 / 2))) then ''balanced'' else if less64 spread ideal then ''slightly uneven''
                 else ''uneven '' @ em_dash @ '' investigate the lagging validator(s)'')
       in (\<lparr>fn_shares = shares, fn_spreadPct = Some spread, fn_verdict = verdict\<rparr>,
           recommend (le64 ideal spread) ''validators'' Lv_info (''Validator proposing share is uneven (spread '' @ toFixed 0 spread
             @ ''pp). A node may be slow/peering poorly '' @ em_dash @ '' check the lowest-share validator.''))))"

record Capacity =
  cp_currentTps :: "num64 option"
  cp_capacityTps :: num64
  cp_headroomPct :: "num64 option"
  cp_blocksPerDay :: "num64 option"
  cp_chainHeight :: "num64 option"
  cp_totalEvents :: "num64 option"
  cp_horizonMonths :: int
  cp_targetBatches :: int
  cp_targetTransfers :: int
  cp_requiredAvgTps :: num64
  cp_notes :: "string list"

definition requiredAvgTps :: num64 where "requiredAvgTps = div64 (Fin (25000 * 7000)) (Fin (45 * 30 * 86400))"

definition capacity_of :: "num64 option \<Rightarrow> num64 option \<Rightarrow> num64 option \<Rightarrow> num64 option \<Rightarrow> Capacity" where
  "capacity_of currentTps blocksPerDay chainHeight totalEvents =
     \<lparr>cp_currentTps = currentTps, cp_capacityTps = Fin 361,
      cp_headroomPct = map_option (\<lambda>c. max64 (Fin 0) (mul64 (Fin 100) (sub64 (Fin 1) (div64 c (Fin 361))))) currentTps,
      cp_blocksPerDay = blocksPerDay, cp_chainHeight = chainHeight, cp_totalEvents = totalEvents, cp_horizonMonths = 45, cp_targetBatches = 25000,
      cp_targetTransfers = 25000 * 7000, cp_requiredAvgTps = requiredAvgTps,
      cp_notes = [''Projection needs ~'' @ toFixed 1 requiredAvgTps @ '' TPS sustained; measured ceiling is 361 TPS (''
          @ toFixed 0 (mul64 (sub64 (Fin 1) (div64 requiredAvgTps (Fin 361))) (Fin 100)) @ ''% headroom at projected average).'',
        ''Precise disk-fill date needs host (node_exporter) metrics, which aren'' @ [CHR 0x27] @ ''t scraped yet '' @ em_dash @ '' track chain growth as a proxy.'']\<rparr>"

definition capacity_recs :: "num64 option \<Rightarrow> Recommendation list" where
  "capacity_recs tps = recommend (above (mul64 (round64 (8 / 10)) (Fin 361)) tps) ''capacity'' Lv_warn
     (''Throughput '' @ fixed_opt 0 tps @ '' TPS is within 20% of the measured 361 TPS ceiling '' @ em_dash @ '' plan to scale the RPC/validator tier.'')"

definition batch_recs :: "Baseline list \<Rightarrow> Recommendation list" where
  "batch_recs bs = (let cur = Option.bind (find (\<lambda>b. bl_key b = ''batchMs'') bs) bl_current in
     recommend (above (Fin 250) cur) ''services'' Lv_info (''Indexer batch duration ~'' @ fixed_opt 0 cur @ ''ms is high '' @ em_dash
       @ '' consider a smaller batch size or more concurrency to keep lag low.''))"

subsection \<open>Insights\<close>

record Insights =
  in_generatedAt :: string
  in_baselines :: "Baseline list"
  in_forecasts :: "Forecast list"
  in_backups :: "BackupFreshness list"
  in_slo :: Slo
  in_cacheHitPct :: "num64 option"
  in_fairness :: Fairness
  in_capacity :: Capacity
  in_recommendations :: "Recommendation list"

definition quiet :: "Recommendation list \<Rightarrow> Recommendation list" where
  "quiet recs = (if recs = [] then recommend True ''all'' Lv_info
     (''No optimisation or reliability concerns detected '' @ em_dash @ '' baselines normal, forecasts within bounds, SLO healthy.'') else recs)"

definition getInsights :: "(string \<Rightarrow> int option) \<Rightarrow> SourceConfig \<Rightarrow> int \<Rightarrow> Insights rop" where
  "getInsights dp cfg nowMs =
     bindS (promise_all (map (baseline cfg) BASELINE_SERIES)) (\<lambda>baselines.
     bindS (promise_all [prom cfg ''hara_indexer_lag_blocks'', prom cfg ''predict_linear(hara_indexer_lag_blocks[30m], 3600)'',
       prom cfg ''hara_indexer_process_resident_memory_bytes'', prom cfg ''predict_linear(hara_indexer_process_resident_memory_bytes[1h], 3600)'']) (\<lambda>fs.
     let lag = forecast_of ''Indexer lag (+1h)'' (fs ! 0) (fs ! 1) (Fin 25); mem = forecast_of ''Indexer memory (+1h)'' (fs ! 2) (fs ! 3) (Fin (2 * 1024 ^ 3)) in
     bindS (tryS (bindS (getBackups cfg) (\<lambda>b. ret (all_freshness dp nowMs b))) (\<lambda>_. ret [])) (\<lambda>backups.
     bindS (promise_all [prom cfg ''sum(haproxy_backend_http_responses_total{code!=\"5xx\"})'', prom cfg ''sum(haproxy_backend_http_responses_total)'',
       prom cfg ''sum(rate(haproxy_backend_http_responses_total{code=\"5xx\"}[5m])) * 60'']) (\<lambda>ss.
     let slo = slo_of (ss ! 0) (ss ! 1) (ss ! 2) in
     bindS (prom cfg ''sum(guava_cache_hit_total) / clamp_min(sum(guava_cache_requests_total), 1)'') (\<lambda>cacheHit.
     let cacheHitPct = map_option (\<lambda>c. mul64 c (Fin 100)) cacheHit in
     bindS (tryS (bindS (getValidators cfg) (\<lambda>v. ret (fairness_of v))) (\<lambda>_. ret (no_fairness, []))) (\<lambda>(fair, fair_recs).
     bindS (promise_all [prom cfg ''sum(rate(hara_indexer_events_indexed_total[10m]))'', prom cfg ''rate(ethereum_blockchain_height[1h]) * 86400'',
       prom cfg ''max(ethereum_blockchain_height)'', prom cfg ''sum(hara_indexer_events_indexed_total)'']) (\<lambda>cs.
     ret \<lparr>in_generatedAt = toISOString nowMs, in_baselines = baselines, in_forecasts = [lag, mem], in_backups = backups, in_slo = slo,
       in_cacheHitPct = cacheHitPct, in_fairness = fair, in_capacity = capacity_of (cs ! 0) (cs ! 1) (cs ! 2) (cs ! 3),
       in_recommendations = quiet (concat (map baseline_recs baselines) @ lag_recs lag @ concat (map freshness_recs backups) @ slo_recs slo
         @ cache_recs cacheHitPct @ fair_recs @ capacity_recs (cs ! 0) @ batch_recs baselines)\<rparr>)))))))"

subsection \<open>Routes\<close>

datatype MonitorRoute = MR_overview | MR_backups | MR_series | MR_range "string option" "string option" | MR_host_range "string option" "string option"
  | MR_anomalies | MR_insights | MR_silences | MR_post_silence | MR_delete_silence string

datatype MonitorReply = MB_error string | MB_failed | MB_overview Overview | MB_backups BackupsReport | MB_series "(string \<times> string \<times> string) list"
  | MB_range RangeAnswer | MB_host_range HostRange | MB_anomalies string Anomalies | MB_insights Insights | MB_silences "Silence list" | MB_silence json | MB_ok

definition m_error :: "nat \<Rightarrow> string \<Rightarrow> (nat \<times> MonitorReply) rop" where "m_error code msg = ret (code, MB_error msg)"

definition m_caught :: "nat \<Rightarrow> (nat \<times> MonitorReply) rop \<Rightarrow> (nat \<times> MonitorReply) rop" where
  "m_caught code m = tryS m (\<lambda>e. m_error code (exn_message e))"

definition m_require :: "ConsoleConfig \<Rightarrow> SessionUser option \<Rightarrow> string \<Rightarrow> (nat \<times> MonitorReply) rop \<Rightarrow> (nat \<times> MonitorReply) rop" where
  "m_require kc user least m =
     (if \<not> kc_authEnabled kc \<or> (case user of None \<Rightarrow> False | Some u \<Rightarrow> roleAtLeast (su_role u) least) then m
      else m_error 403 (''requires '' @ least @ '' role''))"

definition minutes_of :: "string option \<Rightarrow> num64" where
  "minutes_of q = (case q of None \<Rightarrow> Fin 60 | Some t \<Rightarrow> number_text t)"

definition get_range :: "SourceConfig \<Rightarrow> string option \<Rightarrow> string option \<Rightarrow> (nat \<times> MonitorReply) rop" where
  "get_range cfg series minutes = (if \<not> truthy_str series then m_error 400 ''series required''
     else m_caught 400 (bindS rm_now (\<lambda>time. bindS (getRange cfg (the series) (minutes_of minutes) time) (\<lambda>r. ret (200, MB_range r)))))"

definition get_host_range :: "SourceConfig \<Rightarrow> string option \<Rightarrow> string option \<Rightarrow> (nat \<times> MonitorReply) rop" where
  "get_host_range cfg metric minutes = (if \<not> truthy_str metric then m_error 400 ''metric required (disk|mem|cpu)''
     else m_caught 400 (bindS rm_now (\<lambda>time. bindS (getHostRange cfg (the metric) (minutes_of minutes) time) (\<lambda>r. ret (200, MB_host_range r)))))"

text \<open>The name of an alert and the comment are texts.\<close>

definition post_silence :: "SourceConfig \<Rightarrow> SessionUser option \<Rightarrow> ConsoleRequest \<Rightarrow> (nat \<times> MonitorReply) rop" where
  "post_silence cfg user req = (let b = body_prop (cq_body req) in
     if \<not> truthy_opt (b ''alertname'') then m_error 400 ''alertname required''
     else m_caught 502 (bindS (liftR (text_of (b ''alertname''))) (\<lambda>name. bindS (liftR (text_or [] (b ''comment''))) (\<lambda>comment.
       bindS (createSilence cfg name (number_json (or_json (b ''hours'') (JNum 1))) (actorOf user req) comment) (\<lambda>j. ret (200, MB_silence j))))))"

definition monitor_route :: "(string \<Rightarrow> int option) \<Rightarrow> (string \<Rightarrow> rat) \<Rightarrow> ConsoleConfig \<Rightarrow> SourceConfig \<Rightarrow> MonitorRoute \<Rightarrow> ConsoleRequest
    \<Rightarrow> SessionUser option \<Rightarrow> (nat \<times> MonitorReply) rop" where
  "monitor_route dp ck kc cfg route req user = (case route of
     MR_overview \<Rightarrow> bindS (overview cfg) (\<lambda>o'. ret (200, MB_overview o'))
   | MR_backups \<Rightarrow> m_caught 502 (bindS rm_now (\<lambda>time. bindS (getBackupsReport dp ck cfg time) (\<lambda>r. ret (200, MB_backups r))))
   | MR_series \<Rightarrow> ret (200, MB_series (map (\<lambda>(name, d). (name, sr_unit d, sr_label d)) SERIES))
   | MR_range series minutes \<Rightarrow> get_range cfg series minutes
   | MR_host_range metric minutes \<Rightarrow> get_host_range cfg metric minutes
   | MR_anomalies \<Rightarrow> bindS rm_now (\<lambda>time0. bindS rm_now (\<lambda>time. bindS (getAnomalies dp ck cfg time) (\<lambda>a. ret (200, MB_anomalies (toISOString time0) a))))
   | MR_insights \<Rightarrow> bindS rm_now (\<lambda>time. bindS (getInsights dp cfg time) (\<lambda>i. ret (200, MB_insights i)))
   | MR_silences \<Rightarrow> bindS (listSilences cfg) (\<lambda>l. ret (200, MB_silences l))
   | MR_post_silence \<Rightarrow> m_require kc user ''operator'' (post_silence cfg user req)
   | MR_delete_silence i \<Rightarrow> m_require kc user ''operator'' (m_caught 502 (bindS (deleteSilence cfg i) (\<lambda>_. ret (200, MB_ok)))))"

text \<open>A request: the gate reads the session from the console's own tables, then the handler talks to the remote systems; an
  error no handler catches is answered 500.\<close>

definition monitor_serve :: "ConsoleCrypto \<Rightarrow> (string \<Rightarrow> int option) \<Rightarrow> (string \<Rightarrow> rat) \<Rightarrow> ConsoleConfig \<Rightarrow> SourceConfig \<Rightarrow> MonitorRoute \<Rightarrow> ConsoleRequest
    \<Rightarrow> Console \<times> Remote \<Rightarrow> (nat \<times> MonitorReply) \<times> (Console \<times> Remote)" where
  "monitor_serve kk dp ck kc cfg route req cr =
     (case (if kc_authEnabled kc then resolveSession kk kc (cq_token req) (fst cr) else (Inr None, fst cr)) of
        (Inl e, c) \<Rightarrow> ((500, MB_failed), (c, snd cr))
      | (Inr user, c) \<Rightarrow>
          if kc_authEnabled kc \<and> user = None then ((401, MB_error ''unauthenticated''), (c, snd cr))
          else (case monitor_route dp ck kc cfg route req user (snd cr) of
              (Inl e, r) \<Rightarrow> ((500, MB_failed), (c, r)) | (Inr reply, r) \<Rightarrow> (reply, (c, r))))"

end
