(* ===== verification/MonitorClaims.thy ===== *)
theory MonitorClaims
  imports ConsoleInsights
begin

text \<open>
  What the console's monitoring guarantees: which calls it makes to the systems around it, and that a backup that is
  not well is reported whatever the other sources do.
\<close>

subsection \<open>Calls of an operation\<close>

text \<open>Every call an operation makes satisfies \<open>P\<close>; earlier calls stay on record.\<close>

definition calls_only :: "(FetchCall \<Rightarrow> bool) \<Rightarrow> 'a rop \<Rightarrow> bool" where
  "calls_only P m \<longleftrightarrow> (\<forall>s r s'. m s = (r, s') \<longrightarrow> (\<exists>cs. rm_calls s' = rm_calls s @ cs \<and> list_all P cs))"

named_theorems calls_intro \<open>calls of an operation\<close>

lemma calls_onlyI: "(\<And>s r s'. m s = (r, s') \<Longrightarrow> \<exists>cs. rm_calls s' = rm_calls s @ cs \<and> list_all P cs) \<Longrightarrow> calls_only P m"
  by (simp add: calls_only_def)

lemma calls_onlyD: "calls_only P m \<Longrightarrow> m s = (r, s') \<Longrightarrow> \<exists>cs. rm_calls s' = rm_calls s @ cs \<and> list_all P cs"
  by (simp add: calls_only_def)

lemma calls_only_weaken: "calls_only P m \<Longrightarrow> (\<And>c. P c \<Longrightarrow> Q c) \<Longrightarrow> calls_only Q m"
  unfolding calls_only_def by (metis list.pred_mono_strong)

lemma calls_nothing [calls_intro]: "calls_only P (ret x)" "calls_only P (throw e)" "calls_only P (liftR v)" "calls_only P rm_now"
  by (auto simp: calls_only_def ret_def throw_def liftR_def rm_now_def)

lemma calls_fetch [calls_intro]: "P c \<Longrightarrow> calls_only P (fetchT c)"
  by (auto simp: calls_only_def fetchT_def)

lemma calls_agent [calls_intro]: "P (get_call url) \<Longrightarrow> calls_only P (fetch_agent url)"
  by (auto simp: calls_only_def fetch_agent_def)

lemma calls_bind [calls_intro]:
  assumes m: "calls_only P m" and f: "\<And>x. calls_only P (f x)"
  shows "calls_only P (bindS m f)"
proof (rule calls_onlyI)
  fix s r s' assume run: "bindS m f s = (r, s')"
  obtain q s1 where q: "m s = (q, s1)" by force
  from calls_onlyD [OF m q] obtain cs where cs: "rm_calls s1 = rm_calls s @ cs" "list_all P cs" by auto
  show "\<exists>cs. rm_calls s' = rm_calls s @ cs \<and> list_all P cs"
  proof (cases q)
    case (Inl e)
    with run q cs show ?thesis by (auto simp: bindS_apply)
  next
    case (Inr x)
    with run q have "f x s1 = (r, s')" by (simp add: bindS_apply)
    from calls_onlyD [OF f this] cs show ?thesis by auto
  qed
qed

lemma calls_try [calls_intro]:
  assumes "calls_only P m" "\<And>e. calls_only P (h e)"
  shows "calls_only P (tryS m h)"
proof -
  have "tryS m h = bindS (\<lambda>s. case m s of (r, s') \<Rightarrow> (Inr r, s')) (\<lambda>r. case r of Inl e \<Rightarrow> h e | Inr x \<Rightarrow> ret x)"
    by (auto simp: fun_eq_iff tryS_def bindS_apply ret_def split: prod.splits sum.splits)
  moreover have "calls_only P (\<lambda>s. case m s of (r, s') \<Rightarrow> (Inr r, s'))"
    using assms(1) by (fastforce simp: calls_only_def split: prod.splits)
  ultimately show ?thesis
    using assms(2) by (auto intro!: calls_bind calls_nothing split: sum.splits)
qed

lemma calls_settle:
  "\<forall>m\<in>set ms. calls_only P m \<Longrightarrow> settle_all ms s = (rs, s') \<Longrightarrow> \<exists>cs. rm_calls s' = rm_calls s @ cs \<and> list_all P cs"
proof (induction ms arbitrary: s rs s')
  case (Cons m ms)
  obtain q s1 where q: "m s = (q, s1)" by force
  with Cons.prems obtain qs where "settle_all ms s1 = (qs, s')" by (auto split: prod.splits)
  with Cons.IH [of s1 qs s'] Cons.prems(1) obtain c2 where "rm_calls s' = rm_calls s1 @ c2" "list_all P c2" by auto
  moreover have "calls_only P m" using Cons.prems(1) by simp
  from calls_onlyD [OF this q] obtain c1 where "rm_calls s1 = rm_calls s @ c1" "list_all P c1" by auto
  ultimately show ?case by auto
qed simp

lemma calls_all [calls_intro]: "\<forall>m\<in>set ms. calls_only P m \<Longrightarrow> calls_only P (promise_all ms)"
  by (auto simp: promise_all_def split: prod.splits intro!: calls_onlyI dest: calls_settle)

lemma calls_if [calls_intro]: "(b \<Longrightarrow> calls_only P m) \<Longrightarrow> (\<not> b \<Longrightarrow> calls_only P n) \<Longrightarrow> calls_only P (if b then m else n)"
  by simp

subsection \<open>Reading\<close>

text \<open>A call that changes nothing outside: a \<open>GET\<close>, or a call of the node.\<close>

definition reads :: "SourceConfig \<Rightarrow> FetchCall \<Rightarrow> bool" where
  "reads cfg c \<longleftrightarrow> fc_method c = ''GET'' \<or> fc_url c = sc_rpcUrl cfg"

lemma reads_get [simp]: "reads cfg (get_call url)"
  by (simp add: reads_def get_call_def)

lemma calls_body_json [calls_intro]: "calls_only P (body_json r)"
  unfolding body_json_def by (rule calls_nothing)

lemma calls_rpc [calls_intro]: "calls_only (reads cfg) (rpc cfg verb params)"
proof -
  have "calls_only P (\<lambda>s. (Inr (rm_id s + 1), s\<lparr>rm_id := rm_id s + 1\<rparr>))" for P
    by (auto simp: calls_only_def)
  then show ?thesis unfolding rpc_def by (intro calls_intro) (simp_all add: reads_def)
qed

lemma calls_getChain [calls_intro]: "calls_only (reads cfg) (getChain cfg)"
  unfolding getChain_def Let_def by (intro calls_intro ballI) (auto intro!: calls_intro)

lemma calls_getValidators [calls_intro]: "calls_only (reads cfg) (getValidators cfg)"
  unfolding getValidators_def Let_def by (intro calls_intro ballI) (auto intro!: calls_intro)

lemma calls_account_info [calls_intro]: "calls_only (reads cfg) (account_info cfg a)"
  unfolding account_info_def by (intro calls_intro ballI) (auto intro!: calls_intro)

lemma calls_getAccounts [calls_intro]: "calls_only (reads cfg) (getAccounts cfg)"
  unfolding getAccounts_def by (intro calls_intro ballI) (auto intro!: calls_intro)

lemma calls_getRpcTier [calls_intro]: "calls_only (reads cfg) (getRpcTier cfg)"
  unfolding getRpcTier_def by (intro calls_intro ballI) (auto intro!: calls_intro)

lemma calls_getServices [calls_intro]: "calls_only (reads cfg) (getServices cfg)"
  unfolding getServices_def Let_def by (intro calls_intro) simp

lemma calls_getVault [calls_intro]: "calls_only (reads cfg) (getVault cfg)"
  unfolding getVault_def by (intro calls_intro) simp

lemma calls_getAlerts [calls_intro]: "calls_only (reads cfg) (getAlerts cfg)"
  unfolding getAlerts_def by (intro calls_intro) simp

lemma calls_agent_host [calls_intro]: "calls_only (reads cfg) (agent_host url)"
  unfolding agent_host_def by (auto intro!: calls_intro split: option.splits)

lemma calls_getBackups [calls_intro]: "calls_only (reads cfg) (getBackups cfg)"
proof (rule calls_onlyI)
  fix s r s' assume run: "getBackups cfg s = (r, s')"
  show "\<exists>cs. rm_calls s' = rm_calls s @ cs \<and> list_all (reads cfg) cs"
  proof (cases "sc_backupsAgentUrls cfg = []")
    case True
    with run show ?thesis by (simp add: getBackups_def throw_def)
  next
    case False
    with run have "\<exists>rs. settle_all (map agent_host (sc_backupsAgentUrls cfg)) s = (rs, s')"
      by (auto simp: getBackups_def Let_def split: prod.splits if_splits)
    then show ?thesis by (auto dest!: calls_settle [rotated] intro: calls_agent_host)
  qed
qed

lemma calls_probeStandby [calls_intro]: "calls_only (reads cfg) (probeStandby cfg)"
  unfolding probeStandby_def by (intro calls_intro) simp

lemma calls_getBackupsReport [calls_intro]: "calls_only (reads cfg) (getBackupsReport dp ck cfg t)"
  unfolding getBackupsReport_def Let_def by (intro calls_intro)

lemma calls_promVector [calls_intro]: "calls_only (reads cfg) (promVector cfg e)"
  unfolding promVector_def by (intro calls_intro) simp

lemma calls_prom [calls_intro]: "calls_only (reads cfg) (prom cfg e)"
  unfolding prom_def Let_def by (intro calls_intro) simp

lemma calls_getHosts [calls_intro]: "calls_only (reads cfg) (getHosts cfg)"
  unfolding getHosts_def Let_def by (intro calls_intro ballI) (auto intro!: calls_intro)

lemma calls_safe [calls_intro]: "calls_only P m \<Longrightarrow> calls_only P (safe m)"
  unfolding safe_def by (intro calls_intro)

lemma calls_signals_of [calls_intro]: "calls_only P m \<Longrightarrow> calls_only P (signals_of m f)"
  unfolding signals_of_def by (intro calls_intro)

lemma calls_overview [calls_intro]: "calls_only (reads cfg) (overview cfg)"
  unfolding overview_def by (intro calls_intro)

lemma calls_getRange [calls_intro]: "calls_only (reads cfg) (getRange cfg n m t)"
  unfolding getRange_def by (auto split: option.splits intro!: calls_intro)

lemma calls_getHostRange [calls_intro]: "calls_only (reads cfg) (getHostRange cfg n m t)"
  unfolding getHostRange_def by (auto split: option.splits intro!: calls_intro)

lemma calls_getAnomalies [calls_intro]: "calls_only (reads cfg) (getAnomalies dp ck cfg t)"
  unfolding getAnomalies_def anomaly_metrics_def by (intro calls_intro ballI) (auto intro!: calls_intro)

lemma calls_baseline [calls_intro]: "calls_only (reads cfg) (baseline cfg b)"
  unfolding baseline_def Let_def by (cases b) (auto intro!: calls_intro)

lemma calls_getInsights [calls_intro]: "calls_only (reads cfg) (getInsights dp cfg t)"
  unfolding getInsights_def Let_def by (auto split: prod.splits intro!: calls_intro)

lemma calls_listSilences [calls_intro]: "calls_only (reads cfg) (listSilences cfg)"
  unfolding listSilences_def by (intro calls_intro) simp

lemma calls_m_error [calls_intro]: "calls_only P (m_error c m)"
  unfolding m_error_def by (rule calls_nothing)

lemma calls_m_caught [calls_intro]: "calls_only P m \<Longrightarrow> calls_only P (m_caught c m)"
  unfolding m_caught_def by (intro calls_intro)

lemma calls_range_routes [calls_intro]:
  "calls_only (reads cfg) (get_range cfg a b)" "calls_only (reads cfg) (get_host_range cfg a b)"
  unfolding get_range_def get_host_range_def by (intro calls_intro)+

text \<open>The routes that need the role of an operator.\<close>

definition operator_route :: "MonitorRoute \<Rightarrow> bool" where
  "operator_route r \<longleftrightarrow> (case r of MR_post_silence \<Rightarrow> True | MR_delete_silence i \<Rightarrow> True | _ \<Rightarrow> False)"

lemma reading_routes: "\<not> operator_route route \<Longrightarrow> calls_only (reads cfg) (monitor_route dp ck kc cfg route req user)"
  by (cases route) (auto simp: monitor_route_def operator_route_def intro!: calls_intro)

subsection \<open>Backups that are not well\<close>

definition worry_level :: "BackupHealth \<Rightarrow> Level option" where
  "worry_level h = (case h of BH_failed \<Rightarrow> Some Lv_critical | BH_overdue \<Rightarrow> Some Lv_warn | BH_never \<Rightarrow> Some Lv_info | _ \<Rightarrow> None)"

definition about_job :: "BackupJob \<Rightarrow> AnomalyRow \<Rightarrow> bool" where
  "about_job j row \<longleftrightarrow> an_area row = ''backups'' \<and> Some (an_level row) = worry_level (bj_health j)
     \<and> (\<exists>rest. an_message row = bj_base j @ '' on '' @ bj_host j @ rest)"

text \<open>A failed run of a job whose date can be read.\<close>

definition readable_failure :: "(string \<Rightarrow> int option) \<Rightarrow> BackupTimerRaw \<Rightarrow> bool" where
  "readable_failure dp t \<longleftrightarrow> \<not> job_failed t \<or> \<not> truthy_str (bt_lastRun t) \<or> dp (the (bt_lastRun t)) \<noteq> None"

lemma job_of_fields [simp]:
  "bj_timer (job_of dp n h t) = t" "bj_host (job_of dp n h t) = h" "bj_base (job_of dp n h t) = unit_base (bt_unit t)"
  by (simp_all add: job_of_def split: prod.splits)

lemma job_anomaly_readable:
  assumes "readable_failure dp t"
  shows "\<exists>rows. job_anomaly dp (job_of dp n h t) = Inr rows
    \<and> (worry_level (bj_health (job_of dp n h t)) \<noteq> None \<longrightarrow> (\<exists>row\<in>set rows. about_job (job_of dp n h t) row))"
proof (cases "bj_health (job_of dp n h t)")
  case BH_failed
  then have "truthy_str (bt_lastRun t)" "job_failed t" by (auto simp: job_health split: if_splits)
  with assms obtain d where "dp (the (bt_lastRun t)) = Some d" by (auto simp: readable_failure_def)
  with BH_failed \<open>truthy_str (bt_lastRun t)\<close> show ?thesis
    by (simp add: job_anomaly_def iso_minute_def about_job_def worry_level_def anomaly_def Let_def)
qed (simp_all add: job_anomaly_def about_job_def worry_level_def anomaly_def)

lemma job_anomalies_complete:
  assumes "\<forall>j\<in>set js. \<exists>n h t. j = job_of dp n h t \<and> readable_failure dp t"
  shows "snd (job_anomalies dp js) \<and> (\<forall>j\<in>set js. worry_level (bj_health j) \<noteq> None \<longrightarrow> (\<exists>row\<in>set (fst (job_anomalies dp js)). about_job j row))"
  using assms
proof (induction js)
  case (Cons j js)
  then obtain n h t where j: "j = job_of dp n h t" "readable_failure dp t" by auto
  from job_anomaly_readable [OF j(2), of n h] j(1) obtain rows where r: "job_anomaly dp j = Inr rows"
    "worry_level (bj_health j) \<noteq> None \<longrightarrow> (\<exists>row\<in>set rows. about_job j row)" by auto
  have IH: "snd (job_anomalies dp js)" "\<forall>j\<in>set js. worry_level (bj_health j) \<noteq> None \<longrightarrow> (\<exists>row\<in>set (fst (job_anomalies dp js)). about_job j row)"
    using Cons by auto
  have all: "job_anomalies dp (j # js) = (rows @ fst (job_anomalies dp js), snd (job_anomalies dp js))"
    by (simp add: r(1) split: prod.splits)
  from r(2) IH show ?case unfolding all by auto
qed simp

text \<open>One failure whose date cannot be read ends the loop: of the jobs behind it, and of hosts that cannot be reached, nothing is
  reported.\<close>

lemma unreadable_failure_hides_the_rest:
  assumes "br_jobs rep = job_of dp n h t # js" "job_failed t" "truthy_str (bt_lastRun t)" "dp (the (bt_lastRun t)) = None"
  shows "backup_anomalies dp rep = []"
proof -
  have "bj_health (job_of dp n h t) = BH_failed" using assms(2,3) by (simp add: job_health)
  with assms show ?thesis by (simp add: backup_anomalies_def job_anomaly_def iso_minute_def)
qed

lemma settle_all_total:
  "\<forall>m\<in>set ms. \<forall>s. \<exists>r s'. m s = (Inr r, s') \<Longrightarrow> \<exists>rs s'. settle_all ms s = (map Inr rs, s') \<and> length rs = length ms"
proof (induction ms arbitrary: s)
  case (Cons m ms)
  from Cons.prems obtain r s1 where r: "m s = (Inr r, s1)" by force
  from Cons.prems have "\<forall>m\<in>set ms. \<forall>s. \<exists>r s'. m s = (Inr r, s')" by auto
  with Cons.IH [of s1] obtain rs s' where "settle_all ms s1 = (map Inr rs, s')" "length rs = length ms" by auto
  with r show ?case by (intro exI [of _ "r # rs"] exI [of _ s']) simp
qed simp

lemma settled_values [simp]: "rejected (map Inr rs) = []" "fulfilled (map Inr rs) = rs"
  by (induction rs) (simp_all add: rejected_def fulfilled_def List.map_filter_simps)

lemma promise_all_total:
  "\<forall>m\<in>set ms. \<forall>s. \<exists>r s'. m s = (Inr r, s') \<Longrightarrow> \<exists>rs s'. promise_all ms s = (Inr rs, s') \<and> length rs = length ms"
  using settle_all_total [of ms s] by (auto simp: promise_all_def)

lemma anomaly_metrics_total: "\<exists>ms s'. anomaly_metrics cfg s = (Inr ms, s')"
proof -
  have "\<exists>rs s'. promise_all [prom cfg a, prom cfg b, prom cfg c, prom cfg d] s = (Inr rs, s') \<and> length rs = length [a, b, c, d]" for a b c d
    using promise_all_total [of "[prom cfg a, prom cfg b, prom cfg c, prom cfg d]" s] by (simp add: prom_total)
  then show ?thesis unfolding anomaly_metrics_def by blast
qed

lemma signals_total: "\<exists>rows s'. signals_of m f s = (Inr rows, s')"
proof (cases "m s")
  case (Pair r s')
  then show ?thesis by (cases r) (simp_all add: signals_of_def tryS_def bindS_apply)
qed

lemma getAnomalies_total:
  assumes "anomaly_metrics cfg s = (Inr ms, s1)" "signals_of (getBackupsReport dp ck cfg t) (backup_anomalies dp) s1 = (Inr rows, s2)"
  shows "\<exists>a s'. getAnomalies dp ck cfg t s = (Inr a, s') \<and> set rows \<subseteq> set (as_rows a)"
proof -
  obtain v s3 where v: "signals_of (getValidators cfg) validator_anomalies s2 = (Inr v, s3)" using signals_total by blast
  obtain h s4 where h: "signals_of (getHosts cfg) (\<lambda>hs. concat (map host_anomalies hs)) s3 = (Inr h, s4)" using signals_total by blast
  from assms v h show ?thesis by (auto simp: getAnomalies_def bindS_apply)
qed

lemma backups_signals:
  assumes "settle_all (map agent_host (sc_backupsAgentUrls cfg)) s = (settled, s2)" "fulfilled settled \<noteq> []"
    and readable: "\<forall>h\<in>set (fulfilled settled). \<forall>t\<in>set (bh_timers h). readable_failure dp t"
  shows "\<exists>rows s'. signals_of (getBackupsReport dp ck cfg nw) (backup_anomalies dp) s = (Inr rows, s')
    \<and> (\<forall>h\<in>set (fulfilled settled). \<forall>j\<in>set (host_jobs dp nw h). worry_level (bj_health j) \<noteq> None \<longrightarrow> (\<exists>row\<in>set rows. about_job j row))"
proof -
  let ?u = "int (length settled) - int (length (fulfilled settled))"
  have "sc_backupsAgentUrls cfg \<noteq> []" using assms(1,2) by (auto simp: fulfilled_def)
  then have b: "getBackups cfg s = (Inr \<lparr>bi_hosts = fulfilled settled, bi_unreachable = ?u\<rparr>, s2)"
    using assms(1,2) by (simp add: getBackups_def Let_def)
  obtain aw s3 where "probeStandby cfg s2 = (Inr aw, s3)" using probeStandby_total by blast
  with b obtain rep where rep: "getBackupsReport dp ck cfg nw s = (Inr rep, s3)"
    "br_jobs rep = sort_jobs ck (concat (map (host_jobs dp nw) (fulfilled settled)))"
    by (auto simp: getBackupsReport_def bindS_apply Let_def)
  have "\<forall>j\<in>set (br_jobs rep). \<exists>n h t. j = job_of dp n h t \<and> readable_failure dp t"
    using readable by (auto simp: rep(2) host_jobs_def) blast
  note rows = job_anomalies_complete [OF this]
  have "set (fst (job_anomalies dp (br_jobs rep))) \<subseteq> set (backup_anomalies dp rep)"
    by (cases "job_anomalies dp (br_jobs rep)") (simp add: backup_anomalies_def)
  with rows have "\<forall>j\<in>set (br_jobs rep). worry_level (bj_health j) \<noteq> None \<longrightarrow> (\<exists>row\<in>set (backup_anomalies dp rep). about_job j row)"
    by blast
  then show ?thesis using rep by (auto simp: signals_of_def tryS_def bindS_apply)
qed

text \<open>C17: A backup that is not well is reported.  The anomaly list is always answered, whatever the sources, the agents and the
  clock do.  For every agent that answers and every timer of its host that is no drill: when the health of the job is failed,
  overdue or never run, the list has a row about the job on this host, critical, a warning or an information in this order, provided
  the dates of the failed runs of the hosts that answered are readable (a failure with another date ends the loop over the jobs).\<close>

theorem unhealthy_backups_are_reported:
  "\<exists>a s'. getAnomalies dp ck cfg nw s = (Inr a, s')
    \<and> (\<forall>settled s2 h t l. settle_all (map agent_host (sc_backupsAgentUrls cfg)) (snd (anomaly_metrics cfg s)) = (settled, s2)
         \<longrightarrow> (\<forall>h\<in>set (fulfilled settled). \<forall>t\<in>set (bh_timers h). readable_failure dp t)
         \<longrightarrow> h \<in> set (fulfilled settled) \<longrightarrow> t \<in> set (bh_timers h) \<longrightarrow> \<not> is_drill t
         \<longrightarrow> worry_level (bj_health (job_of dp nw (bh_host h) t)) = Some l
         \<longrightarrow> (\<exists>row\<in>set (as_rows a). an_area row = ''backups'' \<and> an_level row = l
            \<and> (\<exists>rest. an_message row = unit_base (bt_unit t) @ '' on '' @ bh_host h @ rest)))"
proof -
  obtain ms s1 where ms: "anomaly_metrics cfg s = (Inr ms, s1)" using anomaly_metrics_total by blast
  obtain rows s3 where rows: "signals_of (getBackupsReport dp ck cfg nw) (backup_anomalies dp) s1 = (Inr rows, s3)"
    using signals_total by blast
  from getAnomalies_total [OF ms rows] obtain a s' where a: "getAnomalies dp ck cfg nw s = (Inr a, s')" "set rows \<subseteq> set (as_rows a)" by blast
  have "\<exists>row\<in>set (as_rows a). an_area row = ''backups'' \<and> an_level row = l
      \<and> (\<exists>rest. an_message row = unit_base (bt_unit t) @ '' on '' @ bh_host h @ rest)"
    if s: "settle_all (map agent_host (sc_backupsAgentUrls cfg)) (snd (anomaly_metrics cfg s)) = (settled, s2)"
      "\<forall>h\<in>set (fulfilled settled). \<forall>t\<in>set (bh_timers h). readable_failure dp t"
      "h \<in> set (fulfilled settled)" "t \<in> set (bh_timers h)" "\<not> is_drill t"
      "worry_level (bj_health (job_of dp nw (bh_host h) t)) = Some l" for settled s2 h t l
  proof -
    have "fulfilled settled \<noteq> []" using s(3) by auto
    from backups_signals [OF s(1) this s(2), of ck nw] ms rows s(3)
    have "\<forall>j\<in>set (host_jobs dp nw h). worry_level (bj_health j) \<noteq> None \<longrightarrow> (\<exists>row\<in>set rows. about_job j row)" by auto
    moreover have "job_of dp nw (bh_host h) t \<in> set (host_jobs dp nw h)" using s(4,5) by (simp add: host_jobs_def)
    ultimately obtain row where "row \<in> set rows" "about_job (job_of dp nw (bh_host h) t) row" using s(6) by auto
    with s(6) a(2) show ?thesis by (intro bexI [of _ row]) (auto simp: about_job_def)
  qed
  with a(1) show ?thesis by blast
qed

definition toy_sources :: SourceConfig where
  "toy_sources = \<lparr>sc_rpcUrl = ''r'', sc_prometheusUrl = ''p'', sc_alertmanagerUrl = ''a'', sc_vaultAddr = ''v'', sc_haproxyStatsUrl = ''q'', sc_indexerMetricsUrl = ''i'',
     sc_backupsAgentUrls = [''u''], sc_fetchTimeoutMs = Fin 4000, sc_standby = \<lparr>sb_host = [], sb_healthUrl = [], sb_rpoMinutes = Fin 10\<rparr>, sc_watchAccounts = []\<rparr>"

definition toy_timer :: BackupTimerRaw where
  "toy_timer = \<lparr>bt_unit = ''hara-redis-snapshot.timer'', bt_service = None, bt_nextRun = None, bt_lastRun = Some ''d'', bt_result = Some ''exit-code'',
     bt_exitStatus = None, bt_durationSec = None, bt_activeState = None, bt_artifactBytes = None, bt_artifactAt = None\<rparr>"

definition toy_host :: BackupHost where
  "toy_host = \<lparr>bh_host = ''h1'', bh_generatedAt = [], bh_timers = [toy_timer], bh_drills = []\<rparr>"

text \<open>Every other source is down.\<close>

definition toy_remote :: Remote where
  "toy_remote = \<lparr>rm_answer = (\<lambda>n c. Inl TypeError), rm_agent = (\<lambda>n u. Inr (200, Some toy_host)), rm_race = (\<lambda>n. 0), rm_calls = [], rm_id = 0, rm_clock = sconst 0\<rparr>"

lemma toy_prom: "prom cfg e (toy_remote\<lparr>rm_calls := cs\<rparr>) = (Inr None, toy_remote\<lparr>rm_calls := cs @ [get_call (prom_url cfg e)]\<rparr>)"
  by (simp add: prom_def tryS_def bindS_apply fetchT_def toy_remote_def ret_def)

lemma toy_metrics_from: "\<exists>cs'. snd (anomaly_metrics cfg (toy_remote\<lparr>rm_calls := cs\<rparr>)) = toy_remote\<lparr>rm_calls := cs'\<rparr>"
  by (simp add: anomaly_metrics_def promise_all_def toy_prom rejected_def fulfilled_def List.map_filter_simps) blast

lemma toy_metrics: "\<exists>cs. snd (anomaly_metrics cfg toy_remote) = toy_remote\<lparr>rm_calls := cs\<rparr>"
proof -
  have "toy_remote\<lparr>rm_calls := []\<rparr> = toy_remote" by (simp add: toy_remote_def)
  from toy_metrics_from [of cfg "[]", unfolded this] show ?thesis .
qed

lemma toy_agent: "agent_host ''u'' (toy_remote\<lparr>rm_calls := cs\<rparr>) = (Inr toy_host, toy_remote\<lparr>rm_calls := cs @ [get_call ''u'']\<rparr>)"
  by (simp add: agent_host_def fetch_agent_def bindS_apply toy_remote_def ok_status_def ret_def)

lemma unhealthy_backups_are_reported_witness:
  "\<exists>a s'. getAnomalies (\<lambda>d. Some 0) (\<lambda>_. 0) toy_sources 0 toy_remote = (Inr a, s')
     \<and> (\<exists>row\<in>set (as_rows a). an_area row = ''backups'' \<and> an_level row = Lv_critical \<and> (\<exists>rest. an_message row = ''hara-redis-snapshot on h1'' @ rest))"
proof -
  obtain cs where cs: "snd (anomaly_metrics toy_sources toy_remote) = toy_remote\<lparr>rm_calls := cs\<rparr>" using toy_metrics by blast
  have 1: "settle_all (map agent_host (sc_backupsAgentUrls toy_sources)) (snd (anomaly_metrics toy_sources toy_remote))
    = ([Inr toy_host], toy_remote\<lparr>rm_calls := cs @ [get_call ''u'']\<rparr>)"
    unfolding cs by (simp add: toy_sources_def toy_agent)
  have base: "unit_base (bt_unit toy_timer) = ''hara-redis-snapshot''" by (simp add: toy_timer_def unit_base_def)
  have l: "worry_level (bj_health (job_of (\<lambda>d. Some 0) 0 (bh_host toy_host) toy_timer)) = Some Lv_critical"
    by (simp add: job_health worry_level_def job_failed_def toy_timer_def)
  obtain a s' where a: "getAnomalies (\<lambda>d. Some 0) (\<lambda>_. 0) toy_sources 0 toy_remote = (Inr a, s')"
    "\<And>settled s2 h t l. settle_all (map agent_host (sc_backupsAgentUrls toy_sources)) (snd (anomaly_metrics toy_sources toy_remote)) = (settled, s2)
       \<Longrightarrow> \<forall>h\<in>set (fulfilled settled). \<forall>t\<in>set (bh_timers h). readable_failure (\<lambda>d. Some 0) t
       \<Longrightarrow> h \<in> set (fulfilled settled) \<Longrightarrow> t \<in> set (bh_timers h) \<Longrightarrow> \<not> is_drill t
       \<Longrightarrow> worry_level (bj_health (job_of (\<lambda>d. Some 0) 0 (bh_host h) t)) = Some l
       \<Longrightarrow> \<exists>row\<in>set (as_rows a). an_area row = ''backups'' \<and> an_level row = l \<and> (\<exists>rest. an_message row = unit_base (bt_unit t) @ '' on '' @ bh_host h @ rest)"
    using unhealthy_backups_are_reported [of "\<lambda>d. Some 0" "\<lambda>_. 0" toy_sources 0 toy_remote] by blast
  have "\<not> is_drill toy_timer" by (simp add: is_drill_def base)
  with a(2) [OF 1 _ _ _ _ l] show ?thesis
    unfolding a(1) by (simp add: fulfilled_def List.map_filter_simps toy_host_def readable_failure_def base)
qed

subsection \<open>The gate\<close>

lemma calls_silence_routes [calls_intro]:
  "calls_only (\<lambda>_. True) (post_silence cfg user req)" "calls_only (\<lambda>_. True) (deleteSilence cfg i)"
  unfolding post_silence_def createSilence_def deleteSilence_def Let_def by (intro calls_intro; simp)+

definition may_call :: "SourceConfig \<Rightarrow> SessionUser option \<Rightarrow> FetchCall \<Rightarrow> bool" where
  "may_call cfg user call \<longleftrightarrow> reads cfg call \<or> (\<exists>u. user = Some u \<and> roleAtLeast (su_role u) ''operator'')"

lemma calls_monitor_route:
  assumes "kc_authEnabled kc"
  shows "calls_only (may_call cfg user) (monitor_route dp ck kc cfg route req user)"
proof (cases "operator_route route \<and> (\<exists>u. user = Some u \<and> roleAtLeast (su_role u) ''operator'')")
  case True
  then have "may_call cfg user = (\<lambda>_. True)" by (auto simp: may_call_def fun_eq_iff)
  with True show ?thesis
    by (cases route) (auto simp: operator_route_def monitor_route_def m_require_def intro!: calls_intro)
next
  case False
  show ?thesis
  proof (cases "operator_route route")
    case True
    with False assms show ?thesis
      by (cases route) (auto simp: operator_route_def monitor_route_def m_require_def split: option.splits intro!: calls_intro)
  next
    case False
    from reading_routes [OF this] show ?thesis by (rule calls_only_weaken) (simp add: may_call_def)
  qed
qed

text \<open>C40: Who may make the console change something outside.  With user management on, a monitoring request makes calls only when its token
  resolves to a user, and a call that is neither a \<open>GET\<close> nor a call of the node is made only when this user has at least the role of an operator.\<close>

theorem monitoring_writes_need_operator:
  assumes "kc_authEnabled kc" "monitor_serve kk dp ck kc cfg route req (c, r) = (reply, (c', r'))"
  shows "\<exists>cs. rm_calls r' = rm_calls r @ cs \<and> (\<forall>call\<in>set cs. \<exists>u. fst (resolveSession kk kc (cq_token req) c) = Inr (Some u)
    \<and> (fc_method call \<noteq> ''GET'' \<and> fc_url call \<noteq> sc_rpcUrl cfg \<longrightarrow> roleAtLeast (su_role u) ''operator''))"
proof -
  obtain q c1 where q: "resolveSession kk kc (cq_token req) c = (q, c1)" by force
  show ?thesis
  proof (cases "\<exists>u. q = Inr (Some u)")
    case False
    with assms q have "r' = r" by (auto simp: monitor_serve_def split: sum.splits option.splits)
    then show ?thesis by simp
  next
    case True
    then obtain u where u: "q = Inr (Some u)" by auto
    obtain x r1 where x: "monitor_route dp ck kc cfg route req (Some u) r = (x, r1)" by force
    with assms q u have "r' = r1" by (auto simp: monitor_serve_def split: sum.splits)
    with calls_onlyD [OF calls_monitor_route [OF assms(1)] x] show ?thesis
      using q u by (auto simp: may_call_def reads_def list_all_iff)
  qed
qed

definition toy_operator :: ConsoleUser where
  "toy_operator = \<lparr>cu_id = 1, cu_username = ''op'', cu_email = None, cu_hash = [], cu_role = ''operator'', cu_status = ''active'',
     cu_createdAt = 0, cu_lastLoginAt = None, cu_createdBy = None\<rparr>"

definition op_console :: Console where
  "op_console = \<lparr>co_users = [toy_operator], co_sessions = [\<lparr>cs_tokenHash = ''htok'', cs_userId = 1, cs_expiresAt = 9, cs_userAgent = []\<rparr>],
     co_nextId = 2, co_audit = [], co_clock = sconst 5, co_random = sconst [7], co_sql = sconst None\<rparr>"

definition op_crypto :: ConsoleCrypto where
  "op_crypto = \<lparr>kk_scrypt = (\<lambda>pw salt n. []), kk_sha256 = (\<lambda>t. ''h'' @ t), kk_base64url = (\<lambda>b. [])\<rparr>"

definition op_config :: ConsoleConfig where
  "op_config = \<lparr>kc_ttlHours = Some 12, kc_bootstrapUser = [], kc_bootstrapPassword = [], kc_authEnabled = True\<rparr>"

definition op_request :: ConsoleRequest where
  "op_request = \<lparr>cq_route = CR_me, cq_token = Some ''tok'', cq_body = None, cq_userAgent = None, cq_actor = None\<rparr>"

lemma op_resolved: "fst (resolveSession op_crypto op_config (Some ''tok'') op_console) = Inr (Some \<lparr>su_id = 1, su_username = ''op'', su_role = ''operator''\<rparr>)"
  by (simp add: resolveSession_def bindS_apply co_now_def co_select_def co_query_def Let_def op_console_def op_crypto_def op_config_def
      find_user_def toy_operator_def isRole_def ROLES_def truthy_str_def ret_def)

lemma op_deletes:
  "\<exists>reply c' r'. monitor_serve op_crypto (\<lambda>d. None) (\<lambda>_. 0) op_config toy_sources (MR_delete_silence ''x'') op_request (op_console, toy_remote) = (reply, (c', r'))
    \<and> map fc_method (rm_calls r') = [''DELETE'']"
proof -
  obtain c1 where "resolveSession op_crypto op_config (Some ''tok'') op_console = (Inr (Some \<lparr>su_id = 1, su_username = ''op'', su_role = ''operator''\<rparr>), c1)"
    using op_resolved by (cases "resolveSession op_crypto op_config (Some ''tok'') op_console") auto
  then show ?thesis
    by (simp add: monitor_serve_def op_config_def op_request_def monitor_route_def m_require_def roleAtLeast_def rank_def RANK_def default_to_def
        m_caught_def tryS_def bindS_apply deleteSilence_def fetchT_def toy_remote_def m_error_def ret_def)
qed

lemma monitoring_writes_need_operator_witness:
  "\<exists>reply c' r' call. monitor_serve op_crypto (\<lambda>d. None) (\<lambda>_. 0) op_config toy_sources (MR_delete_silence ''x'') op_request (op_console, toy_remote) = (reply, (c', r'))
    \<and> call \<in> set (rm_calls r') \<and> fc_method call = ''DELETE'' \<and> (\<exists>u. fst (resolveSession op_crypto op_config (Some ''tok'') op_console) = Inr (Some u))"
proof -
  obtain reply c' r' where run: "monitor_serve op_crypto (\<lambda>d. None) (\<lambda>_. 0) op_config toy_sources (MR_delete_silence ''x'') op_request (op_console, toy_remote)
      = (reply, (c', r'))" "map fc_method (rm_calls r') = [''DELETE'']" using op_deletes by (elim exE conjE) (rule that)
  then obtain call where call: "rm_calls r' = [call]" "fc_method call = ''DELETE''" by auto
  have "kc_authEnabled op_config" by (simp add: op_config_def)
  from monitoring_writes_need_operator [OF this run(1)] call(1) obtain u
    where "fst (resolveSession op_crypto op_config (cq_token op_request) op_console) = Inr (Some u)" by (auto simp: toy_remote_def)
  with run call show ?thesis by (auto simp: op_request_def)
qed

end
