(* ===== verification/ConsoleCopilot.thy ===== *)
theory ConsoleCopilot
  imports ConsoleInsights
begin

text \<open>
  The console's copilot (\<open>console/server/src/copilot.ts\<close>): a question of an operator is sent to a language model together with
  the live state.  It reads the sources and makes one call, and changes nothing.  Of the headers of a call nothing is kept.
\<close>

subsection \<open>Numbers in JSON\<close>

text \<open>NaN and the infinities are written as \<open>null\<close>.\<close>

definition num_json :: "num64 \<Rightarrow> json" where
  "num_json v = (case v of Fin q \<Rightarrow> if q = of_int \<lfloor>q\<rfloor> \<and> \<bar>q\<bar> < 10 ^ 21 then JNum \<lfloor>q\<rfloor> else JFrac (num_text v) | _ \<Rightarrow> JNull)"

definition num_or_null :: "num64 option \<Rightarrow> json" where
  "num_or_null v = (case v of None \<Rightarrow> JNull | Some x \<Rightarrow> num_json x)"

definition str_or_null :: "string option \<Rightarrow> json" where
  "str_or_null v = (case v of None \<Rightarrow> JNull | Some x \<Rightarrow> JStr x)"

text \<open>A property that is undefined is left out.\<close>

definition field :: "string \<Rightarrow> json option \<Rightarrow> (string \<times> json) list" where
  "field k v = (case v of None \<Rightarrow> [] | Some x \<Rightarrow> [(k, x)])"

definition or_null :: "('a \<Rightarrow> json) \<Rightarrow> 'a option \<Rightarrow> json" where
  "or_null f v = (case v of None \<Rightarrow> JNull | Some x \<Rightarrow> f x)"

subsection \<open>The live state\<close>

definition chain_json :: "ChainInfo \<Rightarrow> json" where
  "chain_json c = JObj [(''chainId'', num_json (ci_chainId c)), (''block'', num_json (ci_block c)), (''blockTimeSec'', num_or_null (ci_blockTimeSec c)),
     (''gasPrice'', JStr (ci_gasPrice c))]"

definition validators_json :: "ValidatorSet \<Rightarrow> json" where
  "validators_json v = JObj [(''count'', JNum (vs_count v)), (''head'', num_json (vs_head v)),
     (''nodes'', JArr (map (\<lambda>x. JObj [(''recentlyProposed'', JBool (vi_recentlyProposed x)), (''proposed'', num_or_null (vi_proposedBlockCount x))]) (vs_validators v)))]"

definition vault_json :: "SealStatus \<Rightarrow> json" where
  "vault_json v = JObj (field ''sealed'' (ss_sealed v) @ field ''threshold'' (ss_threshold v) @ field ''shares'' (ss_shares v)
     @ field ''progress'' (ss_progress v) @ field ''version'' (ss_version v))"

definition backups_json :: "BackupsInfo \<Rightarrow> json" where
  "backups_json b = JArr (concat (map (\<lambda>h. map (\<lambda>t. JObj [(''host'', JStr (bh_host h)), (''unit'', JStr (bt_unit t)), (''result'', str_or_null (bt_result t)),
     (''lastRun'', str_or_null (bt_lastRun t))]) (bh_timers h)) (bi_hosts b)))"

fun level_text :: "Level \<Rightarrow> string" where
  "level_text Lv_info = ''info''" | "level_text Lv_warn = ''warn''" | "level_text Lv_critical = ''critical''"

fun baseline_text :: "BaselineStatus \<Rightarrow> string" where
  "baseline_text Bs_normal = ''normal''" | "baseline_text Bs_elevated = ''elevated''" | "baseline_text Bs_anomalous = ''anomalous''"

definition capacity_json :: "Capacity \<Rightarrow> json" where
  "capacity_json c = JObj [(''currentTps'', num_or_null (cp_currentTps c)), (''capacityTps'', num_json (cp_capacityTps c)), (''headroomPct'', num_or_null (cp_headroomPct c)),
     (''blocksPerDay'', num_or_null (cp_blocksPerDay c)), (''chainHeight'', num_or_null (cp_chainHeight c)), (''totalEvents'', num_or_null (cp_totalEvents c)),
     (''horizonMonths'', JNum (cp_horizonMonths c)), (''targetBatches'', JNum (cp_targetBatches c)), (''targetTransfers'', JNum (cp_targetTransfers c)),
     (''requiredAvgTps'', num_json (cp_requiredAvgTps c)), (''notes'', JArr (map JStr (cp_notes c)))]"

definition insights_json :: "Insights \<Rightarrow> json" where
  "insights_json i = JObj [
     (''recommendations'', JArr (map (\<lambda>r. JObj [(''area'', JStr (rc_area r)), (''severity'', JStr (level_text (rc_severity r))), (''text'', JStr (rc_text r))]) (in_recommendations i))),
     (''baselines'', JArr (map (\<lambda>b. JObj [(''label'', JStr (bl_label b)), (''current'', num_or_null (bl_current b)), (''status'', JStr (baseline_text (bl_status b))),
        (''z'', num_or_null (bl_z b))]) (in_baselines i))),
     (''slo'', JObj [(''successPct'', num_or_null (sq_successPct (in_slo i))), (''total'', num_or_null (sq_total (in_slo i))),
        (''errors5xx'', num_or_null (sq_errors5xx (in_slo i))), (''recent5xxPerMin'', num_or_null (sq_recent5xxPerMin (in_slo i)))]),
     (''cacheHitPct'', num_or_null (in_cacheHitPct i)),
     (''fairness'', JObj [(''verdict'', JStr (fn_verdict (in_fairness i))), (''spreadPct'', num_or_null (fn_spreadPct (in_fairness i)))]),
     (''capacity'', capacity_json (in_capacity i))]"

definition live_state :: "Insights option \<Rightarrow> ChainInfo option \<Rightarrow> ValidatorSet option \<Rightarrow> BackupsInfo option \<Rightarrow> SealStatus option \<Rightarrow> json" where
  "live_state insights chain validators backups vault =
     JObj ([(''chain'', or_null chain_json chain), (''validators'', or_null validators_json validators), (''vault'', or_null vault_json vault)]
       @ field ''backups'' (map_option backups_json backups) @ [(''insights'', or_null insights_json insights)])"

subsection \<open>The question\<close>

definition SYSTEM :: string where
  "SYSTEM = concat [
     ''You are \"Strata\", the read-only operations copilot for the Hara Registry platform '' @ em_dash @ [CHR 0x0A],
     ''a permissioned Hyperledger Besu (QBFT) blockchain for palm-oil supply-chain traceability with'' @ [CHR 0x0A],
     ''post-quantum anchoring. Components: 4 QBFT validators (need 3/4), a dedicated RPC tier (HAProxy +'' @ [CHR 0x0A],
     ''rpc-write + 2 rpc-read) behind a load balancer, an indexer that feeds Postgres/Blockscout, HashiCorp'' @ [CHR 0x0A],
     ''Vault (sealed after restart), nightly age-encrypted off-host backups, and a WireGuard mesh.'' @ [CHR 0x0A],
     [CHR 0x0A],
     ''Rules:'' @ [CHR 0x0A],
     ''- Answer concisely and in PLAIN LANGUAGE for an operator. Use short paragraphs or bullets.'' @ [CHR 0x0A],
     ''- Base your answer ONLY on the LIVE STATE JSON provided. If the data needed isn'' @ [CHR 0x27] @ ''t there, say so '' @ em_dash @ [CHR 0x0A],
     ''  do NOT invent numbers.'' @ [CHR 0x0A],
     ''- You are READ-ONLY. You cannot run anything. When an action is warranted, tell the operator exactly'' @ [CHR 0x0A],
     ''  what to do in the Console'' @ [CHR 0x27] @ ''s \"Operations\" tab (which builds the command for them to run) or which'' @ [CHR 0x0A],
     ''  screen to check. Never say you executed, fixed, or changed anything.'' @ [CHR 0x0A],
     ''- Be honest about uncertainty and severity (is this urgent or just worth noting?).'']"

record CopilotConfig =
  cc_key :: "string option"
  cc_model :: string
  cc_baseUrl :: string

definition loadCopilotConfig :: "env \<Rightarrow> CopilotConfig" where
  "loadCopilotConfig env =
     (let chosen = (\<lambda>k d. if truthy_str (env k) then the (env k) else d); base = chosen ''COPILOT_BASE_URL'' ''https://api.moonshot.ai/v1'' in
      \<lparr>cc_key = env ''COPILOT_API_KEY'', cc_model = chosen ''COPILOT_MODEL'' ''kimi-k2.6'',
       cc_baseUrl = (if base \<noteq> [] \<and> last base = CHR ''/'' then butlast base else base)\<rparr>)"

record CopilotAnswer =
  ca_answer :: string
  ca_model :: string

text \<open>\<open>m.catch(() => null)\<close>.\<close>

definition or_nothing :: "'a rop \<Rightarrow> 'a option rop" where
  "or_nothing m = tryS (bindS m (\<lambda>x. ret (Some x))) (\<lambda>_. ret None)"

definition copilot_body :: "CopilotConfig \<Rightarrow> json \<Rightarrow> string \<Rightarrow> json" where
  "copilot_body cc live question = JObj [(''model'', JStr (cc_model cc)), (''max_tokens'', JNum 4000), (''messages'', JArr [
     JObj [(''role'', JStr ''system''), (''content'', JStr SYSTEM)],
     JObj [(''role'', JStr ''user''), (''content'', JStr (''LIVE STATE (JSON):'' @ [CHR 0x0A] @ json_text live @ [CHR 0x0A, CHR 0x0A] @ ''OPERATOR QUESTION: '' @ question))]])]"

definition first_choice :: "json \<Rightarrow> json option js" where
  "first_choice j = bindE (get_prop (Some j) ''choices'') (\<lambda>cs. bindE (if nullish cs then Inr None else json_index cs 0) (\<lambda>c.
     Inr (opt_prop (opt_prop c ''message'') ''content'')))"

definition askCopilot :: "(string \<Rightarrow> int option) \<Rightarrow> SourceConfig \<Rightarrow> CopilotConfig \<Rightarrow> string \<Rightarrow> int \<Rightarrow> CopilotAnswer rop" where
  "askCopilot dp cfg cc question nowMs =
     (if \<not> truthy_str (cc_key cc) then throw (PlainError (''copilot not configured '' @ em_dash @ '' set COPILOT_API_KEY on the console API''))
      else bindS (or_nothing (getInsights dp cfg nowMs)) (\<lambda>insights. bindS (or_nothing (getChain cfg)) (\<lambda>chain.
        bindS (or_nothing (getValidators cfg)) (\<lambda>validators. bindS (or_nothing (getBackups cfg)) (\<lambda>backups. bindS (or_nothing (getVault cfg)) (\<lambda>vault.
        bindS (fetchT \<lparr>fc_method = ''POST'', fc_url = cc_baseUrl cc @ ''/chat/completions'',
          fc_body = Some (copilot_body cc (live_state insights chain validators backups vault) question)\<rparr>) (\<lambda>res.
        if \<not> ok_status (rr_status res) then throw (PlainError (''LLM HTTP '' @ js_int (rr_status res) @ '': '' @ take 200 (rr_text res)))
        else bindS (body_json res) (\<lambda>j. bindS (liftR (first_choice j)) (\<lambda>content. bindS (liftR (text_of (Some (or_json content (JStr []))))) (\<lambda>t.
          ret \<lparr>ca_answer = (if js_trim t = [] then ''(no answer)'' else js_trim t), ca_model = cc_model cc\<rparr>))))))))))"

text \<open>The route.\<close>

definition post_copilot :: "(string \<Rightarrow> int option) \<Rightarrow> SourceConfig \<Rightarrow> CopilotConfig \<Rightarrow> json option \<Rightarrow> (nat \<times> (string + CopilotAnswer)) rop" where
  "post_copilot dp cfg cc body = (let q = body_prop body ''question'' in
     if \<not> truthy_opt q then ret (400, Inl ''question required'')
     else bindS (liftR (text_of q)) (\<lambda>t. if js_trim t = [] then ret (400, Inl ''question required'')
       else bindS rm_now (\<lambda>time. tryS (bindS (askCopilot dp cfg cc (js_trim t) time) (\<lambda>a. ret (200, Inr a)))
         (\<lambda>e. ret (if is_part_of ''not configured'' (exn_message e) then 503 else 502, Inl (exn_message e))))))"

text \<open>Without a key nothing is asked and nothing leaves the console.\<close>

lemma copilot_without_key:
  assumes "\<not> truthy_str (cc_key cc)" "body_prop body ''question'' = Some (JStr q)" "js_trim q \<noteq> []"
  shows "\<exists>msg s'. post_copilot dp cfg cc body s = ((Inr (503, Inl msg)), s') \<and> rm_calls s' = rm_calls s"
proof -
  have "is_part_of ''not configured'' (''copilot not configured '' @ em_dash @ '' set COPILOT_API_KEY on the console API'')"
    unfolding is_part_of_iff by (rule exI [of _ "''copilot ''"], simp)
  moreover have "q \<noteq> []" using assms(3) by (auto simp: js_trim_def)
  ultimately show ?thesis
    using assms by (simp add: post_copilot_def truthy_opt_def text_of_def liftR_def bindS_apply rm_now_def tryS_def askCopilot_def throw_def
        exn_message_def ret_def Let_def)
qed

end
