(* ===== verification/SdkClient.thy ===== *)
theory SdkClient
  imports GapuraRoutes Store
begin

text \<open>
  The HTTP clients of the three TypeScript SDKs: \<open>sdk/aurum/typescript\<close> (\<open>client.ts\<close>, \<open>auth.ts\<close>, \<open>errors.ts\<close>),
  \<open>sdk/gapura/typescript\<close> (the same files) and the trace client of \<open>sdk/typescript\<close> (\<open>trace.ts\<close>).  \<open>fetch\<close> and the token source of
  the caller are parameters that act on a world of any type.  The parsed body of an answer has any type; a
  URL is a text and a list of query parameters, as \<open>URL\<close> keeps it; a base URL is in normal form, without dot segments.  \<open>Retry-After\<close> is read as a whole number of seconds or a date
  (RFC 9110).  The state also records what was sent and how long the client slept.
\<close>

subsection \<open>Percent encoding\<close>

fun decodeURIComponent :: "string \<Rightarrow> string" where
  "decodeURIComponent [] = []"
| "decodeURIComponent (c # s) = (if c = CHR ''%'' then (case s of a # b # r \<Rightarrow>
       (case (hex_val a, hex_val b) of (Some x, Some y) \<Rightarrow> char_of (16 * x + y) # decodeURIComponent r | _ \<Rightarrow> c # decodeURIComponent s)
     | _ \<Rightarrow> c # decodeURIComponent s) else c # decodeURIComponent s)"

subsection \<open>Requests and answers\<close>

record Wire =
  wr_method :: string
  wr_url :: string
  wr_query :: "(string \<times> string) list"
  wr_headers :: "(string, string) jsmap"
  wr_body :: "json option"

text \<open>An answer carries its text and what \<open>JSON.parse\<close> makes of it.\<close>

record 'b Response =
  rs_status :: nat
  rs_statusText :: string
  rs_retryAfter :: "string option"
  rs_contentType :: "string option"
  rs_text :: string
  rs_parsed :: "'b option"

definition rs_ok :: "'b Response \<Rightarrow> bool" where "rs_ok res \<longleftrightarrow> 200 \<le> rs_status res \<and> rs_status res < 300"

datatype 'b SdkProblem = Status_problem nat | Parsed_problem nat 'b | Text_problem nat string "string option"

datatype 'b SdkError = Sdk_thrown string | Sdk_syntax | Sdk_problem "'b SdkProblem"

type_synonym ('w, 'b) fetcher = "Wire \<Rightarrow> 'w \<Rightarrow> (string + 'b Response) \<times> 'w"
type_synonym 'w provider = "Scope list option \<Rightarrow> 'w \<Rightarrow> (string + (string \<times> string) list) \<times> 'w"

record ('w, 'b) SdkClient =
  ck_baseUrl :: string
  ck_auth :: "'w provider option"
  ck_fetch :: "('w, 'b) fetcher"
  ck_maxRetries :: int
  ck_retryBaseMs :: int
  ck_defaultScopes :: "Scope list option"
  ck_dateParse :: "string \<Rightarrow> int option"

record 'w Sdk =
  sd_world :: 'w
  sd_sent :: "Wire list"
  sd_slept :: "int list"
  sd_clock :: "int stream"
  sd_uuids :: "string stream"

record InternalRequest =
  iq_method :: string
  iq_path :: string
  iq_query :: "(string \<times> string option) list"
  iq_body :: "json option"
  iq_auth :: bool
  iq_scopes :: "Scope list option"
  iq_idempotencyKey :: "string option"
  iq_allowNotModified :: bool

text \<open>\<open>baseUrl.replace(/\/+$/, '')\<close>.\<close>

definition trim_slashes :: "string \<Rightarrow> string" where
  "trim_slashes s = rev (dropWhile (\<lambda>c. c = CHR ''/'') (rev s))"

definition new_client :: "string \<Rightarrow> 'w provider option \<Rightarrow> ('w, 'b) fetcher \<Rightarrow> int option \<Rightarrow> int option \<Rightarrow> Scope list option
    \<Rightarrow> (string \<Rightarrow> int option) \<Rightarrow> ('w, 'b) SdkClient" where
  "new_client baseUrl auth fetch maxRetries retryBaseMs scopes dp =
     \<lparr>ck_baseUrl = trim_slashes baseUrl, ck_auth = auth, ck_fetch = fetch, ck_maxRetries = default_to 3 maxRetries,
      ck_retryBaseMs = default_to 250 retryBaseMs, ck_defaultScopes = scopes, ck_dateParse = dp\<rparr>"

definition set_headers :: "(string, string) jsmap \<Rightarrow> (string \<times> string) list \<Rightarrow> (string, string) jsmap" where
  "set_headers m hs = fold (\<lambda>(k, v) m. jsmap_set m k v) hs m"

definition query_of :: "(string \<times> string option) list \<Rightarrow> (string \<times> string) list" where
  "query_of q = fold (\<lambda>(k, v) m. case v of None \<Rightarrow> m | Some t \<Rightarrow> jsmap_set m k t) q []"

text \<open>\<open>new URL(baseUrl + path)\<close> resolves the segments \<open>.\<close> and \<open>..\<close> of the path, which \<open>encodeURIComponent\<close> leaves as they are.  The paths of
  the clients never climb above the base URL.\<close>

fun dot_segments :: "string list \<Rightarrow> string list \<Rightarrow> string list" where
  "dot_segments out [] = rev out"
| "dot_segments out (x # xs) =
     (if x = ''..'' then (if xs = [] then rev ([] # tl out) else dot_segments (tl out) xs)
      else if x = ''.'' then (if xs = [] then rev ([] # out) else dot_segments out xs)
      else dot_segments (x # out) xs)"

definition url_path :: "string \<Rightarrow> string" where
  "url_path p = (case p of [] \<Rightarrow> [] | c # s \<Rightarrow> c # join ''/'' (dot_segments [] (split_at_char CHR ''/'' s)))"

text \<open>The headers of one attempt: the token is asked for again each time.\<close>

definition auth_headers :: "('w, 'b) SdkClient \<Rightarrow> InternalRequest \<Rightarrow> 'w Sdk \<Rightarrow> ('b SdkError + (string \<times> string) list) \<times> 'w Sdk" where
  "auth_headers cl req s =
     (if \<not> iq_auth req then (Inr [], s)
      else case ck_auth cl of
        None \<Rightarrow> (Inl (Sdk_thrown (iq_method req @ '' '' @ iq_path req @ '' requires a Numira token '' @ [CHR 0xE2, CHR 0x80, CHR 0x94] @ '' construct RegistryLedger with { token }.'')), s)
      | Some p \<Rightarrow> (case p (iq_scopes req) (sd_world s) of
          (Inl msg, w) \<Rightarrow> (Inl (Sdk_thrown msg), s\<lparr>sd_world := w\<rparr>)
        | (Inr hs, w) \<Rightarrow> (Inr hs, s\<lparr>sd_world := w\<rparr>)))"

definition wire_of :: "('w, 'b) SdkClient \<Rightarrow> InternalRequest \<Rightarrow> (string \<times> string) list \<Rightarrow> Wire" where
  "wire_of cl req hs =
     \<lparr>wr_method = iq_method req, wr_url = ck_baseUrl cl @ url_path (iq_path req), wr_query = query_of (iq_query req),
      wr_headers = set_headers (set_headers [(''Accept'', ''application/json'')] hs)
        ((if truthy_str (iq_idempotencyKey req) then [(''Idempotency-Key'', the (iq_idempotencyKey req))] else [])
         @ (if iq_body req \<noteq> None then [(''Content-Type'', ''application/json'')] else [])),
      wr_body = iq_body req\<rparr>"

definition do_fetch :: "('w, 'b) SdkClient \<Rightarrow> Wire \<Rightarrow> 'w Sdk \<Rightarrow> ('b SdkError + 'b Response) \<times> 'w Sdk" where
  "do_fetch cl w s = (case ck_fetch cl w (sd_world s) of
     (Inl msg, x) \<Rightarrow> (Inl (Sdk_thrown msg), s\<lparr>sd_world := x, sd_sent := sd_sent s @ [w]\<rparr>)
   | (Inr res, x) \<Rightarrow> (Inr res, s\<lparr>sd_world := x, sd_sent := sd_sent s @ [w]\<rparr>))"

definition retryDelayMs :: "('w, 'b) SdkClient \<Rightarrow> 'b Response \<Rightarrow> int \<Rightarrow> 'w Sdk \<Rightarrow> int \<times> 'w Sdk" where
  "retryDelayMs cl res attempt s = (let backoff = ck_retryBaseMs cl * 2 ^ nat attempt in
     case rs_retryAfter res of None \<Rightarrow> (backoff, s)
     | Some t \<Rightarrow> if t = [] then (backoff, s)
         else case js_Number t of Some seconds \<Rightarrow> (max 0 (seconds * 1000), s)
         | None \<Rightarrow> (case ck_dateParse cl t of
             Some date \<Rightarrow> (max 0 (date - shd (sd_clock s)), s\<lparr>sd_clock := stl (sd_clock s)\<rparr>)
           | None \<Rightarrow> (backoff, s)))"

definition toProblemError :: "'b Response \<Rightarrow> 'b SdkProblem" where
  "toProblemError res = (let contentType = default_to [] (rs_contentType res) in
     if is_part_of ''application/problem+json'' contentType \<or> is_part_of ''json'' contentType
     then (case rs_parsed res of Some p \<Rightarrow> Parsed_problem (rs_status res) p | None \<Rightarrow> Status_problem (rs_status res))
     else Text_problem (rs_status res) (rs_statusText res) (if rs_text res = [] then None else Some (rs_text res)))"

text \<open>What the client makes of the answer it keeps; \<open>None\<close> is \<open>undefined\<close>.\<close>

definition read_answer :: "InternalRequest \<Rightarrow> 'b Response \<Rightarrow> 'b SdkError + 'b option" where
  "read_answer req res =
     (if rs_status res = 304 \<and> iq_allowNotModified req then Inr None
      else if \<not> rs_ok res then Inl (Sdk_problem (toProblemError res))
      else if rs_status res = 204 \<or> rs_text res = [] then Inr None
      else case rs_parsed res of None \<Rightarrow> Inl Sdk_syntax | Some v \<Rightarrow> Inr (Some v))"

function send_loop :: "('w, 'b) SdkClient \<Rightarrow> InternalRequest \<Rightarrow> int \<Rightarrow> 'w Sdk \<Rightarrow> ('b SdkError + 'b option) \<times> 'w Sdk" where
  "send_loop cl req attempt s = (case auth_headers cl req s of
     (Inl e, s1) \<Rightarrow> (Inl e, s1)
   | (Inr hs, s1) \<Rightarrow> (case do_fetch cl (wire_of cl req hs) s1 of
       (Inl e, s2) \<Rightarrow> (Inl e, s2)
     | (Inr res, s2) \<Rightarrow>
         if (rs_status res = 429 \<or> rs_status res = 503) \<and> attempt < ck_maxRetries cl
         then (case retryDelayMs cl res attempt s2 of (delay, s3) \<Rightarrow> send_loop cl req (attempt + 1) (s3\<lparr>sd_slept := sd_slept s3 @ [delay]\<rparr>))
         else (read_answer req res, s2)))"
  by pat_completeness auto
termination by (relation "measure (\<lambda>(cl, req, attempt, s). nat (ck_maxRetries cl - attempt))") auto

declare send_loop.simps [simp del]

definition sdk_request :: "('w, 'b) SdkClient \<Rightarrow> InternalRequest \<Rightarrow> 'w Sdk \<Rightarrow> ('b SdkError + 'b option) \<times> 'w Sdk" where
  "sdk_request cl req s = send_loop cl req 0 s"

subsection \<open>The Registry Ledger client\<close>

text \<open>Reads are public, writes carry the token.\<close>

definition iq_read :: "string \<Rightarrow> (string \<times> string option) list \<Rightarrow> InternalRequest" where
  "iq_read p query = \<lparr>iq_method = ''GET'', iq_path = p, iq_query = query, iq_body = None, iq_auth = False, iq_scopes = None,
     iq_idempotencyKey = None, iq_allowNotModified = False\<rparr>"

definition iq_write :: "string \<Rightarrow> string \<Rightarrow> json option \<Rightarrow> InternalRequest" where
  "iq_write verb p body = \<lparr>iq_method = verb, iq_path = p, iq_query = [], iq_body = body, iq_auth = True, iq_scopes = None,
     iq_idempotencyKey = None, iq_allowNotModified = False\<rparr>"

text \<open>\<open>crypto.randomUUID()\<close> when the caller gives no key; the key is fixed before the first attempt.\<close>

definition with_idempotency_key :: "string option \<Rightarrow> (string \<Rightarrow> InternalRequest) \<Rightarrow> ('w, 'b) SdkClient \<Rightarrow> 'w Sdk
    \<Rightarrow> ('b SdkError + 'b option) \<times> 'w Sdk" where
  "with_idempotency_key key req cl s = (case key of
     Some k \<Rightarrow> sdk_request cl (req k) s
   | None \<Rightarrow> sdk_request cl (req (shd (sd_uuids s))) (s\<lparr>sd_uuids := stl (sd_uuids s)\<rparr>))"

definition sdk_anchor :: "json \<Rightarrow> string option \<Rightarrow> ('w, 'b) SdkClient \<Rightarrow> 'w Sdk \<Rightarrow> ('b SdkError + 'b option) \<times> 'w Sdk" where
  "sdk_anchor body key = with_idempotency_key key (\<lambda>k. iq_write ''POST'' ''/attestations'' (Some body)\<lparr>iq_idempotencyKey := Some k\<rparr>)"

definition sdk_getAttestation :: "string \<Rightarrow> ('w, 'b) SdkClient \<Rightarrow> 'w Sdk \<Rightarrow> ('b SdkError + 'b option) \<times> 'w Sdk" where
  "sdk_getAttestation registryId cl = sdk_request cl (iq_read (''/attestations/'' @ encodeURIComponent registryId) [])"

definition sdk_getProof :: "string \<Rightarrow> int option \<Rightarrow> ('w, 'b) SdkClient \<Rightarrow> 'w Sdk \<Rightarrow> ('b SdkError + 'b option) \<times> 'w Sdk" where
  "sdk_getProof registryId forSize cl =
     sdk_request cl (iq_read (''/attestations/'' @ encodeURIComponent registryId @ ''/proof'') [(''tree_size'', map_option js_int forSize)])"

definition sdk_getStatus :: "string \<Rightarrow> ('w, 'b) SdkClient \<Rightarrow> 'w Sdk \<Rightarrow> ('b SdkError + 'b option) \<times> 'w Sdk" where
  "sdk_getStatus registryId cl = sdk_request cl (iq_read (''/attestations/'' @ encodeURIComponent registryId @ ''/status'') [])"

definition sdk_setStatus :: "string \<Rightarrow> string \<Rightarrow> string \<Rightarrow> string option \<Rightarrow> ('w, 'b) SdkClient \<Rightarrow> 'w Sdk \<Rightarrow> ('b SdkError + 'b option) \<times> 'w Sdk" where
  "sdk_setStatus registryId action reason supersededBy cl =
     sdk_request cl (iq_write ''POST'' (''/attestations/'' @ encodeURIComponent registryId @ ''/revoke'')
       (Some (JObj ([(''action'', JStr action), (''reason'', JStr reason)]
         @ (case supersededBy of None \<Rightarrow> [] | Some d \<Rightarrow> [(''supersededBy'', JStr d)])))))"

definition sdk_submitCheckpoint :: "json \<Rightarrow> ('w, 'b) SdkClient \<Rightarrow> 'w Sdk \<Rightarrow> ('b SdkError + 'b option) \<times> 'w Sdk" where
  "sdk_submitCheckpoint body cl = sdk_request cl (iq_write ''POST'' ''/anchors'' (Some body))"

definition sdk_getConsistency :: "string \<Rightarrow> int \<Rightarrow> int \<Rightarrow> ('w, 'b) SdkClient \<Rightarrow> 'w Sdk \<Rightarrow> ('b SdkError + 'b option) \<times> 'w Sdk" where
  "sdk_getConsistency logId from to cl = sdk_request cl (iq_read ''/anchors/consistency''
     [(''log_id'', Some logId), (''from'', Some (js_int from)), (''to'', Some (js_int to))])"

definition sdk_registerEvidence :: "json \<Rightarrow> ('w, 'b) SdkClient \<Rightarrow> 'w Sdk \<Rightarrow> ('b SdkError + 'b option) \<times> 'w Sdk" where
  "sdk_registerEvidence body cl = sdk_request cl (iq_write ''POST'' ''/evidence'' (Some body))"

definition sdk_getEvidence :: "string \<Rightarrow> ('w, 'b) SdkClient \<Rightarrow> 'w Sdk \<Rightarrow> ('b SdkError + 'b option) \<times> 'w Sdk" where
  "sdk_getEvidence evidenceId cl = sdk_request cl (iq_read (''/evidence/'' @ encodeURIComponent evidenceId) [])"

definition sdk_updateRetention :: "string \<Rightarrow> json \<Rightarrow> ('w, 'b) SdkClient \<Rightarrow> 'w Sdk \<Rightarrow> ('b SdkError + 'b option) \<times> 'w Sdk" where
  "sdk_updateRetention evidenceId change cl = sdk_request cl (iq_write ''PATCH'' (''/evidence/'' @ encodeURIComponent evidenceId) (Some change))"

definition sdk_deleteEvidence :: "string \<Rightarrow> ('w, 'b) SdkClient \<Rightarrow> 'w Sdk \<Rightarrow> ('b SdkError + 'b option) \<times> 'w Sdk" where
  "sdk_deleteEvidence evidenceId cl = sdk_request cl (iq_write ''DELETE'' (''/evidence/'' @ encodeURIComponent evidenceId) None)"

definition sdk_verifyBundle :: "string \<Rightarrow> ('w, 'b) SdkClient \<Rightarrow> 'w Sdk \<Rightarrow> ('b SdkError + 'b option) \<times> 'w Sdk" where
  "sdk_verifyBundle subjectDid cl = sdk_request cl (iq_read ''/verify'' [(''subject'', Some subjectDid)])"

text \<open>The token provider: a fixed token or a getter that may fail.\<close>

definition token_auth :: "('w \<Rightarrow> (string + string) \<times> 'w) \<Rightarrow> 'w provider" where
  "token_auth source scopes w = (case source w of
     (Inl msg, w') \<Rightarrow> (Inl msg, w')
   | (Inr token, w') \<Rightarrow> if token = [] then (Inl ''TokenAuth: empty Numira token'', w')
       else (Inr [(''Authorization'', ''Bearer '' @ token)], w'))"

subsection \<open>The Gapura client\<close>

text \<open>Every request is authenticated; the scopes of a call, or else the default ones, go to the provider.\<close>

definition gapura_request :: "('w, 'b) SdkClient \<Rightarrow> InternalRequest \<Rightarrow> 'w Sdk \<Rightarrow> ('b SdkError + 'b option) \<times> 'w Sdk" where
  "gapura_request cl req = sdk_request cl (req\<lparr>iq_auth := True,
     iq_scopes := (case iq_scopes req of None \<Rightarrow> ck_defaultScopes cl | Some v \<Rightarrow> Some v)\<rparr>)"

definition iq_scoped :: "string \<Rightarrow> string \<Rightarrow> (string \<times> string option) list \<Rightarrow> json option \<Rightarrow> Scope \<Rightarrow> InternalRequest" where
  "iq_scoped verb p query body scope = \<lparr>iq_method = verb, iq_path = p, iq_query = query, iq_body = body, iq_auth = True,
     iq_scopes = Some [scope], iq_idempotencyKey = None, iq_allowNotModified = False\<rparr>"

datatype GapuraCall =
    Anchors_create json "string option" | Anchors_get string | Anchors_verify string "string option" | Anchors_status string
  | Identity_resolve string | Identity_register json | Identity_operation string | Identity_bindingBySubject string
  | Identity_createBinding string json
  | Metering_usage string string string "string option" "string option" | Metering_quotas string

fun gapura_call_request :: "string \<Rightarrow> GapuraCall \<Rightarrow> InternalRequest" where
  "gapura_call_request uuid (Anchors_create body key) =
     iq_scoped ''POST'' ''/anchors'' [] (Some body) Anchor_write\<lparr>iq_idempotencyKey := Some (default_to uuid key)\<rparr>"
| "gapura_call_request uuid (Anchors_get i) = iq_scoped ''GET'' (''/anchors/'' @ encodeURIComponent i) [] None Anchor_read"
| "gapura_call_request uuid (Anchors_verify digest alg) = iq_scoped ''POST'' ''/verify'' []
     (Some (JObj ((''digest'', JStr digest) # (case alg of None \<Rightarrow> [] | Some a \<Rightarrow> [(''hashAlg'', JStr a)])))) Anchor_read"
| "gapura_call_request uuid (Anchors_status i) = iq_scoped ''GET'' (''/anchors/'' @ encodeURIComponent i @ ''/status'') [] None Anchor_read"
| "gapura_call_request uuid (Identity_resolve did) = iq_scoped ''GET'' (''/did/'' @ encodeURIComponent did) [] None Identity_read"
| "gapura_call_request uuid (Identity_register body) = iq_scoped ''POST'' ''/identities'' [] (Some body) Identity_write"
| "gapura_call_request uuid (Identity_operation i) =
     iq_scoped ''GET'' (''/identities/operations/'' @ encodeURIComponent i) [] None Identity_read"
| "gapura_call_request uuid (Identity_bindingBySubject sub) =
     iq_scoped ''GET'' (''/identities/by-subject/'' @ encodeURIComponent sub) [] None Identity_read"
| "gapura_call_request uuid (Identity_createBinding did body) =
     iq_scoped ''POST'' (''/identities/'' @ encodeURIComponent did @ ''/bindings'') [] (Some body) Identity_write"
| "gapura_call_request uuid (Metering_usage tenant from to granularity metric) = iq_scoped ''GET'' ''/metering/usage''
     [(''tenant'', Some tenant), (''from'', Some from), (''to'', Some to), (''granularity'', granularity), (''metric'', metric)] None Metering_read"
| "gapura_call_request uuid (Metering_quotas tenant) = iq_scoped ''GET'' ''/metering/quotas'' [(''tenant'', Some tenant)] None Metering_read"

definition gapura_call :: "GapuraCall \<Rightarrow> ('w, 'b) SdkClient \<Rightarrow> 'w Sdk \<Rightarrow> ('b SdkError + 'b option) \<times> 'w Sdk" where
  "gapura_call c cl s = (case c of
     Anchors_create body None \<Rightarrow> gapura_request cl (gapura_call_request (shd (sd_uuids s)) c) (s\<lparr>sd_uuids := stl (sd_uuids s)\<rparr>)
   | _ \<Rightarrow> gapura_request cl (gapura_call_request [] c) s)"

subsection \<open>Client credentials\<close>

text \<open>Calls come one after the other, so no refresh is under way when one starts and the shared promise of a
  running refresh plays no part.  The token endpoint is a parameter; the lifetime it gives is a whole number of seconds.\<close>

record TokenReply =
  to_access_token :: "string option"
  to_expires_in :: "int option"

record CcConfig =
  cc_tokenUrl :: string
  cc_clientId :: string
  cc_clientSecret :: string
  cc_scopes :: "string list"
  cc_refreshSkewMs :: int

record CcState =
  cc_cachedToken :: "string option"
  cc_expiresAtMs :: int
  cc_clock :: "int stream"
  cc_posted :: "(string \<times> (string \<times> string) list) list"
  cc_replies :: "(string + TokenReply) stream"

definition new_client_credentials :: "string \<Rightarrow> string \<Rightarrow> string \<Rightarrow> string list \<Rightarrow> int option \<Rightarrow> CcConfig" where
  "new_client_credentials tokenUrl clientId secret scopes skew = \<lparr>cc_tokenUrl = tokenUrl, cc_clientId = clientId, cc_clientSecret = secret,
     cc_scopes = scopes, cc_refreshSkewMs = default_to 30 skew * 1000\<rparr>"

text \<open>A reply is an error message (no answer, or a status that is not 2xx) or the parsed token response.\<close>

definition requestToken :: "CcConfig \<Rightarrow> CcState \<Rightarrow> (string + string) \<times> CcState" where
  "requestToken cfg s = (let body = [(''grant_type'', ''client_credentials''), (''client_id'', cc_clientId cfg), (''client_secret'', cc_clientSecret cfg)]
        @ (if cc_scopes cfg = [] then [] else [(''scope'', join '' '' (cc_scopes cfg))]);
      s1 = s\<lparr>cc_posted := cc_posted s @ [(cc_tokenUrl cfg, body)], cc_replies := stl (cc_replies s)\<rparr>
    in case shd (cc_replies s) of Inl msg \<Rightarrow> (Inl msg, s1)
       | Inr r \<Rightarrow> if \<not> truthy_str (to_access_token r) then (Inl ''Authentik token response missing access_token'', s1)
           else (Inr (the (to_access_token r)), s1\<lparr>cc_cachedToken := to_access_token r, cc_clock := stl (cc_clock s1),
             cc_expiresAtMs := shd (cc_clock s1) + default_to 300 (to_expires_in r) * 1000\<rparr>))"

definition getToken :: "CcConfig \<Rightarrow> CcState \<Rightarrow> (string + string) \<times> CcState" where
  "getToken cfg s =
     (if truthy_str (cc_cachedToken s)
      then (let s1 = s\<lparr>cc_clock := stl (cc_clock s)\<rparr> in
        if shd (cc_clock s) < cc_expiresAtMs s - cc_refreshSkewMs cfg then (Inr (the (cc_cachedToken s)), s1) else requestToken cfg s1)
      else requestToken cfg s)"

definition cc_getAuthHeaders :: "CcConfig \<Rightarrow> Scope list option \<Rightarrow> CcState \<Rightarrow> (string + (string \<times> string) list) \<times> CcState" where
  "cc_getAuthHeaders cfg scopes s = (case getToken cfg s of
     (Inl msg, s') \<Rightarrow> (Inl msg, s') | (Inr token, s') \<Rightarrow> (Inr [(''Authorization'', ''Bearer '' @ token)], s'))"

subsection \<open>The trace client\<close>

datatype 'b TraceError = TraceApiError nat string string | Trace_thrown string | Trace_syntax

record ('w, 'b) TraceClient =
  tc_baseUrl :: string
  tc_authHeader :: "string option"
  tc_fetch :: "('w, 'b) fetcher"

text \<open>\<open>base64\<close> is a parameter.\<close>

definition new_trace_client :: "(string \<Rightarrow> string) \<Rightarrow> string option \<Rightarrow> string option \<Rightarrow> string option \<Rightarrow> ('w, 'b) fetcher \<Rightarrow> ('w, 'b) TraceClient" where
  "new_trace_client base64 baseUrl user pass fetch =
     \<lparr>tc_baseUrl = trim_slashes (default_to ''https://trace.ledger.haratrust.io/'' baseUrl),
      tc_authHeader = (if user = None \<and> pass = None then None
        else Some (''Basic '' @ base64 (default_to [] user @ '':'' @ default_to [] pass))),
      tc_fetch = fetch\<rparr>"

definition trace_get :: "('w, 'b) TraceClient \<Rightarrow> string \<Rightarrow> (string \<times> string) list \<Rightarrow> 'w \<Rightarrow> ('b TraceError + 'b) \<times> 'w" where
  "trace_get cl p query w =
     (case tc_fetch cl \<lparr>wr_method = ''GET'', wr_url = tc_baseUrl cl @ url_path p, wr_query = query,
         wr_headers = set_headers [(''Accept'', ''application/json'')] (case tc_authHeader cl of None \<Rightarrow> [] | Some h \<Rightarrow> [(''Authorization'', h)]),
         wr_body = None\<rparr> w of
       (Inl msg, w') \<Rightarrow> (Inl (Trace_thrown msg), w')
     | (Inr res, w') \<Rightarrow> ((if \<not> rs_ok res then Inl (TraceApiError (rs_status res) p (rs_text res))
         else case rs_parsed res of None \<Rightarrow> Inl Trace_syntax | Some v \<Rightarrow> Inr v), w'))"

text \<open>Two calls hand out one field of the parsed reply, \<open>items\<close> and \<open>hops\<close>.\<close>

definition reply_field :: "('b \<Rightarrow> 'c) \<Rightarrow> ('b TraceError + 'b) \<times> 'w \<Rightarrow> ('b TraceError + 'c) \<times> 'w" where
  "reply_field f r = (map_sum id f (fst r), snd r)"

definition trace_listBatches :: "('b \<Rightarrow> 'c) \<Rightarrow> int option \<Rightarrow> int option \<Rightarrow> ('w, 'b) TraceClient \<Rightarrow> 'w \<Rightarrow> ('b TraceError + 'c) \<times> 'w" where
  "trace_listBatches items limit offset cl w = reply_field items (trace_get cl ''/v1/batches''
     [(''limit'', js_int (default_to 50 limit)), (''offset'', js_int (default_to 0 offset))] w)"

definition trace_getBatch :: "string \<Rightarrow> ('w, 'b) TraceClient \<Rightarrow> 'w \<Rightarrow> ('b TraceError + 'b) \<times> 'w" where
  "trace_getBatch batchId cl = trace_get cl (''/v1/batches/'' @ batchId) []"

definition trace_getHops :: "('b \<Rightarrow> 'c) \<Rightarrow> string \<Rightarrow> ('w, 'b) TraceClient \<Rightarrow> 'w \<Rightarrow> ('b TraceError + 'c) \<times> 'w" where
  "trace_getHops hops batchId cl w = reply_field hops (trace_get cl (''/v1/batches/'' @ batchId @ ''/hops'') [] w)"

definition trace_getGraph :: "string \<Rightarrow> bool option \<Rightarrow> ('w, 'b) TraceClient \<Rightarrow> 'w \<Rightarrow> ('b TraceError + 'b) \<times> 'w" where
  "trace_getGraph batchId aggregate cl = trace_get cl (''/v1/batches/'' @ batchId @ ''/graph'')
     [(''aggregate'', if default_to False aggregate then ''true'' else ''false'')]"

definition trace_holderBatches :: "string \<Rightarrow> ('w, 'b) TraceClient \<Rightarrow> 'w \<Rightarrow> ('b TraceError + 'b) \<times> 'w" where
  "trace_holderBatches address cl = trace_get cl (''/v1/holders/'' @ address @ ''/batches'') []"

end
