(* ===== verification/SdkClaims.thy ===== *)
theory SdkClaims
  imports SdkClient LedgerClaims Routes GapuraClaims
begin

text \<open>
  What the SDK clients guarantee: the retry loop ends and repeats the same request, an attestation that the ledger client hands out
  verifies offline, and every call of the Gapura client reaches its route with the scope this route asks for.
\<close>

subsection \<open>Percent encoding loses nothing\<close>

definition is_unreserved :: "char \<Rightarrow> bool" where
  "is_unreserved c \<longleftrightarrow> is_alnum c \<or> c \<in> set ''-_.!~*()'' \<or> of_char c = (39 :: nat)"

lemma hex_upper_table: "\<forall>n\<in>set [0..<16]. hex_val (hex_upper n) = Some n \<and> hex_upper n \<noteq> CHR ''/'' \<and> hex_upper n \<noteq> CHR ''%''"
  by code_simp

lemma hex_upper_val: "n < 16 \<Longrightarrow> hex_val (hex_upper n) = Some n" "n < 16 \<Longrightarrow> hex_upper n \<noteq> CHR ''/''"
  using hex_upper_table by auto

lemma unreserved_plain: "is_unreserved c \<Longrightarrow> c \<noteq> CHR ''%''" "is_unreserved c \<Longrightarrow> c \<noteq> CHR ''/''"
proof -
  have "\<not> is_unreserved CHR ''%''" "\<not> is_unreserved CHR ''/''" by code_simp+
  then show "is_unreserved c \<Longrightarrow> c \<noteq> CHR ''%''" "is_unreserved c \<Longrightarrow> c \<noteq> CHR ''/''" by auto
qed

lemma encode_Cons: "encodeURIComponent (c # s) = (if is_unreserved c then [c]
    else CHR ''%'' # [hex_upper ((of_char c :: nat) div 16), hex_upper ((of_char c :: nat) mod 16)]) @ encodeURIComponent s"
  by (simp add: encodeURIComponent_def is_unreserved_def)

lemma nibbles: "(of_char c :: nat) div 16 < 16" "(of_char c :: nat) mod 16 < 16"
  using of_char_less[of c] by (simp_all add: less_mult_imp_div_less)

lemma decode_encode [simp]: "decodeURIComponent (encodeURIComponent s) = s"
proof (induction s)
  case (Cons c s)
  have "16 * ((of_char c :: nat) div 16) + (of_char c :: nat) mod 16 = of_char c" by simp
  then show ?case
    using Cons hex_upper_val(1)[OF nibbles(1)[of c]] hex_upper_val(1)[OF nibbles(2)[of c]] unreserved_plain(1)[of c]
    by (simp add: encode_Cons del: mult_div_mod_eq)
qed (simp add: encodeURIComponent_def)

lemma encode_no_slash: "CHR ''/'' \<notin> set (encodeURIComponent s)"
proof (induction s)
  case (Cons c s)
  then show ?case
    using hex_upper_val(2)[OF nibbles(1)[of c]] hex_upper_val(2)[OF nibbles(2)[of c]] unreserved_plain(2)[of c]
    by (auto simp: encode_Cons)
qed (simp add: encodeURIComponent_def)

definition url_segments :: "string \<Rightarrow> string list" where
  "url_segments p = map decodeURIComponent (split_at_char CHR ''/'' p)"

lemma split_at_char_append: "c \<notin> set x \<Longrightarrow> split_at_char c (x @ c # s) = x # split_at_char c s"
  by (induction x) auto

lemma split_at_char_last: "c \<notin> set x \<Longrightarrow> split_at_char c x = [x]"
  by (induction x) auto

subsection \<open>Paths without dot segments are kept\<close>

definition is_dots :: "string \<Rightarrow> bool" where "is_dots s \<longleftrightarrow> s = ''.'' \<or> s = ''..''"

lemma dot_segments_plain: "\<forall>x\<in>set xs. \<not> is_dots x \<Longrightarrow> dot_segments out xs = rev out @ xs"
  by (induction xs arbitrary: out) (auto simp: is_dots_def)

lemma join_head: "join [c] ((x # w) # ws) = x # join [c] (w # ws)"
  by (cases ws) simp_all

lemma join_split: "join [c] (split_at_char c s) = s"
proof (induction s)
  case (Cons x s)
  then show ?case
    by (cases "split_at_char c s"; cases "x = c") (simp_all add: split_at_char_ne join_head)
qed simp

lemma long_no_dots [simp]: "\<not> is_dots (a # b # c # r)"
  by (simp add: is_dots_def)

lemma url_path_plain: "\<forall>x\<in>set (split_at_char CHR ''/'' s). \<not> is_dots x \<Longrightarrow> url_path (c # s) = c # s"
  by (simp add: url_path_def dot_segments_plain join_split)

lemma is_dots_encode [simp]: "is_dots (encodeURIComponent s) = is_dots s"
proof -
  have keep: "encodeURIComponent ''.'' = ''.''" "encodeURIComponent ''..'' = ''..''" by code_simp+
  have "encodeURIComponent s = ''.'' \<longleftrightarrow> s = ''.''" "encodeURIComponent s = ''..'' \<longleftrightarrow> s = ''..''"
    using decode_encode[of s] decode_encode[of "''.''"] decode_encode[of "''..''"] keep by metis+
  then show ?thesis by (simp add: is_dots_def)
qed

text \<open>The paths of the calls: constant ones, and those with one argument.\<close>

lemma url_path_constant:
  "url_path ''/attestations'' = ''/attestations''" "url_path ''/anchors'' = ''/anchors''" "url_path ''/verify'' = ''/verify''"
  "url_path ''/identities'' = ''/identities''"
  "url_path ''/metering/usage'' = ''/metering/usage''" "url_path ''/metering/quotas'' = ''/metering/quotas''"
  by code_simp+

lemma url_path_arg:
  assumes "\<not> is_dots i"
  shows "url_path (''/anchors/'' @ encodeURIComponent i) = ''/anchors/'' @ encodeURIComponent i"
  "url_path (''/anchors/'' @ encodeURIComponent i @ ''/status'') = ''/anchors/'' @ encodeURIComponent i @ ''/status''"
  "url_path (''/did/'' @ encodeURIComponent i) = ''/did/'' @ encodeURIComponent i"
  "url_path (''/identities/operations/'' @ encodeURIComponent i) = ''/identities/operations/'' @ encodeURIComponent i"
  "url_path (''/identities/by-subject/'' @ encodeURIComponent i) = ''/identities/by-subject/'' @ encodeURIComponent i"
  "url_path (''/identities/'' @ encodeURIComponent i @ ''/bindings'') = ''/identities/'' @ encodeURIComponent i @ ''/bindings''"
  "url_path (''/attestations/'' @ encodeURIComponent i) = ''/attestations/'' @ encodeURIComponent i"
  using assms
  by (simp_all add: split_at_char_append[OF encode_no_slash] split_at_char_last[OF encode_no_slash] url_path_plain)

subsection \<open>The retry loop\<close>

lemma auth_headers_state: "auth_headers cl req s = (r, s') \<Longrightarrow> \<exists>w. s' = s\<lparr>sd_world := w\<rparr>"
  by (auto simp: auth_headers_def split: if_splits option.splits prod.splits sum.splits intro: exI[of _ "sd_world s"])

lemma do_fetch_state: "do_fetch cl x s = (r, s') \<Longrightarrow> \<exists>w. s' = s\<lparr>sd_world := w, sd_sent := sd_sent s @ [x]\<rparr>"
  by (auto simp: do_fetch_def split: prod.splits sum.splits)

lemma retryDelayMs_state: "retryDelayMs cl res a s = (d, s') \<Longrightarrow> \<exists>c. s' = s\<lparr>sd_clock := c\<rparr>"
  by (auto simp: retryDelayMs_def Let_def split: option.splits if_splits intro: exI[of _ "sd_clock s"])

text \<open>One request and what it repeats: the same request, with headers the provider gave.\<close>

definition repeats :: "('w, 'b) SdkClient \<Rightarrow> InternalRequest \<Rightarrow> Wire \<Rightarrow> bool" where
  "repeats cl req w \<longleftrightarrow> (\<exists>hs x y. auth_headers cl req x = (Inr hs, y) \<and> w = wire_of cl req hs)"

lemma send_loop_sent:
  "send_loop cl req attempt s = (r, s') \<Longrightarrow>
   \<exists>ws. sd_sent s' = sd_sent s @ ws \<and> list_all (repeats cl req) ws \<and> length ws \<le> nat (ck_maxRetries cl - attempt) + 1
     \<and> length (sd_slept s') \<le> length (sd_slept s) + nat (ck_maxRetries cl - attempt) \<and> sd_uuids s' = sd_uuids s
     \<and> (ws = [] \<longrightarrow> (\<exists>e. r = Inl e))"
proof (induction cl req attempt s rule: send_loop.induct)
  case (1 cl req attempt s)
  show ?case
  proof (cases "auth_headers cl req s")
    case (Pair a s1)
    note au = Pair
    obtain w1 where s1: "s1 = s\<lparr>sd_world := w1\<rparr>" using auth_headers_state[OF au] by blast
    show ?thesis
    proof (cases a)
      case (Inl e)
      then show ?thesis using 1(2) au s1 by (auto simp: send_loop.simps)
    next
      case (Inr hs)
      obtain b s2 where f: "do_fetch cl (wire_of cl req hs) s1 = (b, s2)" by fastforce
      obtain w2 where s2: "s2 = s1\<lparr>sd_world := w2, sd_sent := sd_sent s1 @ [wire_of cl req hs]\<rparr>" using do_fetch_state[OF f] by blast
      have one: "repeats cl req (wire_of cl req hs)" by (use au Inr in \<open>auto simp: repeats_def\<close>)
      show ?thesis
      proof (cases b)
        case (Inl e)
        then show ?thesis using 1(2) au s1 s2 f Inr one by (auto simp: send_loop.simps)
      next
        case b: (Inr res)
        show ?thesis
        proof (cases "(rs_status res = 429 \<or> rs_status res = 503) \<and> attempt < ck_maxRetries cl")
          case True
          obtain d s3 where d: "retryDelayMs cl res attempt s2 = (d, s3)" by fastforce
          obtain c where s3: "s3 = s2\<lparr>sd_clock := c\<rparr>" using retryDelayMs_state[OF d] by blast
          have run: "send_loop cl req (attempt + 1) (s3\<lparr>sd_slept := sd_slept s3 @ [d]\<rparr>) = (r, s')"
            using 1(2) au f Inr b True d by (simp add: send_loop.simps[of cl req attempt s])
          from 1(1)[OF au[symmetric] Inr f[symmetric] b True d[symmetric] run] obtain ws where
            ws: "sd_sent s' = sd_sent s @ wire_of cl req hs # ws" "list_all (repeats cl req) ws"
              "length ws \<le> nat (ck_maxRetries cl - (attempt + 1)) + 1"
              "length (sd_slept s') \<le> Suc (length (sd_slept s)) + nat (ck_maxRetries cl - (attempt + 1))" "sd_uuids s' = sd_uuids s"
            by (auto simp: s1 s2 s3)
          have "nat (ck_maxRetries cl - attempt) = Suc (nat (ck_maxRetries cl - (attempt + 1)))" using True by linarith
          with ws one show ?thesis by (intro exI[of _ "wire_of cl req hs # ws"]) auto
        next
          case False
          then have "sd_sent s' = sd_sent s @ [wire_of cl req hs]" "sd_slept s' = sd_slept s" "sd_uuids s' = sd_uuids s"
            using 1(2) au f Inr b by (auto simp: send_loop.simps[of cl req attempt s] s1 s2)
          with one show ?thesis by auto
        qed
      qed
    qed
  qed
qed

lemma header_set_other: "k \<notin> fst ` set hs \<Longrightarrow> map_of (set_headers m hs) k = map_of m k"
  by (induction hs arbitrary: m) (auto simp: set_headers_def update_conv')

lemma set_headers_last: "map_of (set_headers m (hs @ [(k, v)])) k = Some v"
  by (simp add: set_headers_def update_conv')

lemma wire_idempotency:
  assumes "iq_idempotencyKey req = Some k" "k \<noteq> []"
  shows "jsmap_get (wr_headers (wire_of cl req hs)) ''Idempotency-Key'' = Some k"
  using assms by (simp add: wire_of_def truthy_str_def set_headers_def update_conv')

text \<open>C39: The retries of the ledger client end, and all of them are the same request.  Anchoring sends at most \<open>maxRetries + 1\<close> requests
  and sleeps at most \<open>maxRetries\<close> times, whatever the server answers; all of them are the same POST with the same body and the same
  idempotency key, which is the key of the caller or, without one, a single identifier that \<open>crypto.randomUUID()\<close> drew before the first
  attempt.\<close>

theorem anchor_retries_are_bounded:
  assumes "default_to (shd (sd_uuids s)) key \<noteq> []" "sdk_anchor body key cl s = (r, s')"
  shows "\<exists>ws. sd_sent s' = sd_sent s @ ws \<and> length ws \<le> nat (ck_maxRetries cl) + 1
     \<and> length (sd_slept s') \<le> length (sd_slept s) + nat (ck_maxRetries cl)
     \<and> list_all (\<lambda>w. wr_method w = ''POST'' \<and> wr_url w = ck_baseUrl cl @ ''/attestations'' \<and> wr_body w = Some body
         \<and> jsmap_get (wr_headers w) ''Idempotency-Key'' = Some (default_to (shd (sd_uuids s)) key)) ws
     \<and> sd_uuids s' = (if key = None then stl (sd_uuids s) else sd_uuids s)"
proof -
  let ?k = "default_to (shd (sd_uuids s)) key" and ?s = "if key = None then s\<lparr>sd_uuids := stl (sd_uuids s)\<rparr> else s"
  let ?req = "iq_write ''POST'' ''/attestations'' (Some body)\<lparr>iq_idempotencyKey := Some ?k\<rparr>"
  have run: "send_loop cl ?req 0 ?s = (r, s')"
    using assms(2) by (cases key) (simp_all add: sdk_anchor_def with_idempotency_key_def sdk_request_def default_to_def)
  have same: "wr_method w = ''POST'' \<and> wr_url w = ck_baseUrl cl @ ''/attestations'' \<and> wr_body w = Some body
      \<and> jsmap_get (wr_headers w) ''Idempotency-Key'' = Some ?k" if "repeats cl ?req w" for w
    using that wire_idempotency[of ?req ?k cl] assms(1) url_path_constant(1) by (auto simp: repeats_def wire_of_def iq_write_def)
  from send_loop_sent[OF run] obtain ws where "sd_sent s' = sd_sent ?s @ ws" "list_all (repeats cl ?req) ws"
    "length ws \<le> nat (ck_maxRetries cl) + 1" "length (sd_slept s') \<le> length (sd_slept ?s) + nat (ck_maxRetries cl)"
    "sd_uuids s' = sd_uuids ?s"
    by auto
  with same show ?thesis by (auto simp: list_all_iff)
qed

text \<open>A server that is always busy: all four attempts are made.\<close>

definition busy :: "unit Response" where
  "busy = \<lparr>rs_status = 503, rs_statusText = [], rs_retryAfter = None, rs_contentType = None, rs_text = [], rs_parsed = None\<rparr>"

definition busy_client :: "(unit, unit) SdkClient" where
  "busy_client = new_client ''https://ledger/v1/'' (Some (token_auth (\<lambda>w. (Inr ''t'', w)))) (\<lambda>w x. (Inr busy, x)) None None None (\<lambda>_. None)"

definition idle :: "'w \<Rightarrow> 'w Sdk" where
  "idle w = \<lparr>sd_world = w, sd_sent = [], sd_slept = [], sd_clock = sconst 0, sd_uuids = sconst ''u''\<rparr>"

lemma anchor_retries_are_bounded_witness:
  "\<exists>ws. sd_sent (snd (sdk_anchor JNull None busy_client (idle ()))) = sd_sent (idle ()) @ ws \<and> length ws \<le> nat (ck_maxRetries busy_client) + 1
     \<and> length (sd_slept (snd (sdk_anchor JNull None busy_client (idle ())))) \<le> length (sd_slept (idle ())) + nat (ck_maxRetries busy_client)
     \<and> list_all (\<lambda>w. wr_method w = ''POST'' \<and> wr_url w = ck_baseUrl busy_client @ ''/attestations'' \<and> wr_body w = Some JNull
         \<and> jsmap_get (wr_headers w) ''Idempotency-Key'' = Some ''u'') ws"
proof -
  have k: "default_to (shd (sd_uuids (idle ()))) None = ''u''" by (simp add: default_to_def idle_def)
  then have "default_to (shd (sd_uuids (idle ()))) None \<noteq> []" by simp
  from anchor_retries_are_bounded[OF this surjective_pairing, of JNull busy_client] show ?thesis unfolding k by blast
qed

lemma busy_client_waits: "sd_slept (snd (sdk_anchor JNull (Some ''k'') busy_client (idle ()))) = [250, 500, 1000]"
  by (simp add: sdk_anchor_def with_idempotency_key_def sdk_request_def send_loop.simps auth_headers_def do_fetch_def retryDelayMs_def
      busy_client_def new_client_def default_to_def iq_write_def token_auth_def busy_def idle_def)

subsection \<open>The calls of the Gapura client\<close>

fun gapura_call_route :: "GapuraCall \<Rightarrow> gapura_route" where
  "gapura_call_route (Anchors_create body key) = GR_post_anchors"
| "gapura_call_route (Anchors_get i) = GR_anchor i"
| "gapura_call_route (Anchors_verify d a) = GR_post_verify"
| "gapura_call_route (Anchors_status i) = GR_status i"
| "gapura_call_route (Identity_resolve d) = GR_did d"
| "gapura_call_route (Identity_register body) = GR_post_identities"
| "gapura_call_route (Identity_operation i) = GR_operation i"
| "gapura_call_route (Identity_bindingBySubject i) = GR_by_subject i"
| "gapura_call_route (Identity_createBinding d body) = GR_bindings d"
| "gapura_call_route (Metering_usage t f t' g m) = GR_usage"
| "gapura_call_route (Metering_quotas t) = GR_quotas"

text \<open>The argument that becomes a segment of the path.\<close>

fun path_argument :: "GapuraCall \<Rightarrow> string" where
  "path_argument (Anchors_get i) = i"
| "path_argument (Anchors_status i) = i"
| "path_argument (Identity_resolve d) = d"
| "path_argument (Identity_operation i) = i"
| "path_argument (Identity_bindingBySubject i) = i"
| "path_argument (Identity_createBinding d body) = d"
| "path_argument _ = []"

text \<open>What the gateway is to receive besides the path: the body, the query parameters and the idempotency key.\<close>

fun call_inputs :: "string \<Rightarrow> GapuraCall \<Rightarrow> json option \<times> (string \<rightharpoonup> string) \<times> string option" where
  "call_inputs u (Anchors_create body key) = (Some body, Map.empty, (let k = default_to u key in if k = [] then None else Some k))"
| "call_inputs u (Anchors_verify d a) =
     (Some (JObj ((''digest'', JStr d) # (case a of None \<Rightarrow> [] | Some h \<Rightarrow> [(''hashAlg'', JStr h)]))), Map.empty, None)"
| "call_inputs u (Identity_register body) = (Some body, Map.empty, None)"
| "call_inputs u (Identity_createBinding d body) = (Some body, Map.empty, None)"
| "call_inputs u (Metering_usage t f t' g m) =
     (None, [''tenant'' \<mapsto> t, ''from'' \<mapsto> f, ''to'' \<mapsto> t'](''granularity'' := g, ''metric'' := m), None)"
| "call_inputs u (Metering_quotas t) = (None, [''tenant'' \<mapsto> t], None)"
| "call_inputs u c = (None, Map.empty, None)"

text \<open>What the gateway is to do.\<close>

fun performed :: "Crypto \<Rightarrow> 's GapuraStore \<Rightarrow> GapuraService \<Rightarrow> GapuraCall \<Rightarrow> GapuraRequest \<Rightarrow> string \<Rightarrow> ('s, gapura_reply) gop" where
  "performed cy S sv (Anchors_create body key) q tenant = gapura_post_anchors cy S sv q tenant"
| "performed cy S sv (Anchors_get i) q tenant = gapura_get_anchor S sv i"
| "performed cy S sv (Anchors_verify d a) q tenant = gapura_post_verify S sv q"
| "performed cy S sv (Anchors_status i) q tenant = gapura_get_status S i"
| "performed cy S sv (Identity_resolve d) q tenant = get_did (gc_haradidResolverUrl (gv_config sv)) q d"
| "performed cy S sv (Identity_register body) q tenant = post_identities (gc_haradidResolverUrl (gv_config sv)) q"
| "performed cy S sv (Identity_operation i) q tenant = get_operation (gc_haradidResolverUrl (gv_config sv)) i"
| "performed cy S sv (Identity_bindingBySubject i) q tenant = get_by_subject S i"
| "performed cy S sv (Identity_createBinding d body) q tenant = post_bindings S q d"
| "performed cy S sv (Metering_usage t f t' g m) q tenant = get_usage q"
| "performed cy S sv (Metering_quotas t) q tenant = get_quotas q"

text \<open>A request on the wire as the gateway reads it.\<close>

definition gapura_request_of :: "string \<Rightarrow> string \<Rightarrow> Wire \<Rightarrow> GapuraRequest" where
  "gapura_request_of origin rid w = \<lparr>gq_verb = wr_method w, gq_path = url_segments (drop (length origin + 1) (wr_url w)),
     gq_url = drop (length origin) (wr_url w), gq_id = rid, gq_query = map_of (wr_query w),
     gq_authorization = jsmap_get (wr_headers w) ''Authorization'', gq_idempotencyKey = jsmap_get (wr_headers w) ''Idempotency-Key'',
     gq_body = wr_body w\<rparr>"

text \<open>A token provider delivers what it is asked for: a token that the gateway accepts and that carries the scopes.\<close>

definition delivers :: "gapura_jwt_verify \<Rightarrow> GapuraConfig \<Rightarrow> 'w provider \<Rightarrow> bool" where
  "delivers jv cfg p \<longleftrightarrow> (\<forall>asked x hs y. p (Some asked) x = (Inr hs, y) \<longrightarrow>
     (\<exists>t claims. hs = [(''Authorization'', ''Bearer '' @ t)] \<and> jv (js_trim t) (the (gc_issuer cfg)) (the (gc_audience cfg)) = Inr claims
        \<and> (\<forall>sc\<in>set asked. scope_text sc \<in> set (scopesFrom claims))))"

lemma segments_of:
  "url_segments (''v1/anchors'') = [''v1'', ''anchors'']" "url_segments (''v1/verify'') = [''v1'', ''verify'']"
  "url_segments (''v1/identities'') = [''v1'', ''identities'']"
  "url_segments (''v1/metering/usage'') = [''v1'', ''metering'', ''usage'']" "url_segments (''v1/metering/quotas'') = [''v1'', ''metering'', ''quotas'']"
  by code_simp+

lemma segments_arg:
  "url_segments (''v1/anchors/'' @ encodeURIComponent i) = [''v1'', ''anchors'', i]"
  "url_segments (''v1/anchors/'' @ encodeURIComponent i @ ''/status'') = [''v1'', ''anchors'', i, ''status'']"
  "url_segments (''v1/did/'' @ encodeURIComponent i) = [''v1'', ''did'', i]"
  "url_segments (''v1/identities/operations/'' @ encodeURIComponent i) = [''v1'', ''identities'', ''operations'', i]"
  "url_segments (''v1/identities/by-subject/'' @ encodeURIComponent i) = [''v1'', ''identities'', ''by-subject'', i]"
  "url_segments (''v1/identities/'' @ encodeURIComponent i @ ''/bindings'') = [''v1'', ''identities'', i, ''bindings'']"
  "url_segments (''v1/attestations/'' @ encodeURIComponent i) = [''v1'', ''attestations'', i]"
  by (simp_all add: url_segments_def split_at_char_append[OF encode_no_slash] split_at_char_last[OF encode_no_slash])

lemma call_segments:
  assumes "\<not> is_dots (path_argument c)"
  shows "gapura_route_of (iq_method (gapura_call_request u c)) (url_segments (''v1'' @ url_path (iq_path (gapura_call_request u c)))) = gapura_call_route c"
  using assms
  by (cases c) (simp_all add: iq_scoped_def segments_of segments_arg[simplified] url_path_constant url_path_arg[simplified] gapura_route_of_def Let_def)

lemma call_scope: "\<exists>scope. required_scope (gapura_call_route c) = Some scope \<and> iq_scopes (gapura_call_request u c) = Some [scope]"
  by (cases c) (simp_all add: iq_scoped_def)

lemma call_query: "map_of (query_of (iq_query (gapura_call_request u c))) = fst (snd (call_inputs u c))"
proof (cases c)
  case (Metering_usage t f t' g m)
  then show ?thesis by (cases g; cases m) (auto simp: iq_scoped_def query_of_def fun_eq_iff)
qed (auto simp: iq_scoped_def query_of_def)

lemma call_body: "iq_body (gapura_call_request u c) = fst (call_inputs u c)"
  by (cases c) (simp_all add: iq_scoped_def split: option.split)

lemma call_key:
  "snd (snd (call_inputs u c)) = (if truthy_str (iq_idempotencyKey (gapura_call_request u c)) then iq_idempotencyKey (gapura_call_request u c) else None)"
  by (cases c) (simp_all add: iq_scoped_def truthy_str_def Let_def)

lemma trim_v1 [simp]: "trim_slashes (origin @ ''/v1'') = origin @ ''/v1''"
  by (simp add: trim_slashes_def)

lemma request_on_wire:
  assumes "ck_baseUrl cl = origin @ ''/v1''"
  shows "gq_verb (gapura_request_of origin rid (wire_of cl req [(''Authorization'', v)])) = iq_method req"
  "gq_path (gapura_request_of origin rid (wire_of cl req [(''Authorization'', v)])) = url_segments (''v1'' @ url_path (iq_path req))"
  "gq_query (gapura_request_of origin rid (wire_of cl req [(''Authorization'', v)])) = map_of (query_of (iq_query req))"
  "gq_body (gapura_request_of origin rid (wire_of cl req [(''Authorization'', v)])) = iq_body req"
  "gq_authorization (gapura_request_of origin rid (wire_of cl req [(''Authorization'', v)])) = Some v"
  "gq_idempotencyKey (gapura_request_of origin rid (wire_of cl req [(''Authorization'', v)]))
     = (if truthy_str (iq_idempotencyKey req) then iq_idempotencyKey req else None)"
  using assms by (auto simp: gapura_request_of_def wire_of_def set_headers_def truthy_str_def split: option.splits)

lemma handled_as:
  assumes "gapura_route_of (gq_verb q) (gq_path q) = gapura_call_route c"
    and "requireScope (gv_config sv) jv (the (required_scope (gapura_call_route c))) q = Inr tenant"
  shows "gapura_handle cy S sv jv q = performed cy S sv c q tenant"
  using assms by (cases c) (simp_all add: gapura_handle_def gapura_dispatch_def Let_def)

lemma gapura_call_once:
  assumes "gapura_call c cl s = (r, s')"
  shows "\<exists>s0. sd_sent s0 = sd_sent s \<and> send_loop cl (gapura_call_request (shd (sd_uuids s)) c\<lparr>iq_auth := True\<rparr>) 0 s0 = (r, s')"
proof -
  let ?r = "\<lambda>u. gapura_call_request u c"
  have scopes: "iq_scopes (?r u) \<noteq> None" for u using call_scope[of c u] by auto
  have same: "gapura_request cl (?r u) t = send_loop cl (?r u\<lparr>iq_auth := True\<rparr>) 0 t" for u t
  proof -
    obtain v where v: "iq_scopes (?r u) = Some v" using scopes[of u] by blast
    have "?r u\<lparr>iq_auth := True, iq_scopes := Some v\<rparr> = ?r u\<lparr>iq_auth := True\<rparr>"
      using v by (intro InternalRequest.equality) simp_all
    then show ?thesis unfolding gapura_request_def sdk_request_def v option.case by (rule arg_cong)
  qed
  show ?thesis
  proof (cases "\<exists>body. c = Anchors_create body None")
    case True
    with assms have "gapura_request cl (?r (shd (sd_uuids s))) (s\<lparr>sd_uuids := stl (sd_uuids s)\<rparr>) = (r, s')"
      by (auto simp: gapura_call_def)
    then show ?thesis unfolding same by (intro exI[of _ "s\<lparr>sd_uuids := stl (sd_uuids s)\<rparr>"]) simp
  next
    case False
    then have "?r u = ?r []" for u by (cases c) (auto simp: default_to_def split: option.splits)
    moreover from False have "gapura_call c cl s = gapura_request cl (?r []) s"
      by (cases c) (auto simp: gapura_call_def split: option.splits)
    ultimately show ?thesis using assms same by metis
  qed
qed


definition all_scopes :: string where
  "all_scopes = ''anchor:write anchor:read identity:read identity:write metering:read''"

definition toy_provider :: "unit provider" where
  "toy_provider = token_auth (\<lambda>w. (Inr ''t'', w))"

definition toy_verify :: gapura_jwt_verify where
  "toy_verify t issuer audience = (if t = ''t'' then Inr [(''scope'', JStr all_scopes), (''tenant'', JStr ''aurum'')] else Inl ''bad signature'')"

lemma toy_delivers: "delivers toy_verify cfg toy_provider"
proof -
  let ?all = "set (scopesFrom [(''scope'', JStr all_scopes), (''tenant'', JStr ''aurum'')])"
  have "scope_text Anchor_write \<in> ?all" "scope_text Anchor_read \<in> ?all" "scope_text Identity_read \<in> ?all"
    "scope_text Identity_write \<in> ?all" "scope_text Metering_read \<in> ?all" by code_simp+
  then have "scope_text sc \<in> ?all" for sc by (cases sc) simp_all
  moreover have "js_trim ''t'' = ''t''" by code_simp
  ultimately show ?thesis by (auto simp: delivers_def toy_provider_def token_auth_def toy_verify_def)
qed

definition toy_gapura_client :: "(unit, unit) SdkClient" where
  "toy_gapura_client = new_client (''https://gapura'' @ ''/v1'') (Some toy_provider) (\<lambda>w x. (Inr (busy\<lparr>rs_status := 204\<rparr>), x)) None None None (\<lambda>_. None)"

lemma toy_call: "fst (gapura_call (Anchors_get ''a/b'') toy_gapura_client (idle ())) = Inr None"
  by (simp add: gapura_call_def gapura_request_def sdk_request_def send_loop.simps auth_headers_def do_fetch_def read_answer_def rs_ok_def
      toy_gapura_client_def new_client_def default_to_def iq_scoped_def toy_provider_def token_auth_def busy_def idle_def)


text \<open>The exception is real: \<open>anchors.get('..')\<close> asks for \<open>/v1/\<close>, which is no route, and \<open>anchors.status('..')\<close> for \<open>/v1/status\<close>.\<close>

lemma dots_leave_the_route:
  "url_segments (''v1'' @ url_path (iq_path (gapura_call_request u (Anchors_get ''..'')))) = [''v1'', []]"
  "gapura_route_of ''GET'' [''v1'', []] = GR_none"
  "url_segments (''v1'' @ url_path (iq_path (gapura_call_request u (Anchors_status ''..'')))) = [''v1'', ''status'']"
  "gapura_route_of ''GET'' [''v1'', ''status''] = GR_none"
proof -
  have e: "encodeURIComponent ''..'' = ''..''" by code_simp
  have "url_path (''/anchors/'' @ ''..'') = ''/''" "url_path (''/anchors/'' @ ''..'' @ ''/status'') = ''/status''" by code_simp+
  moreover have "url_segments ''v1/'' = [''v1'', []]" "url_segments ''v1/status'' = [''v1'', ''status'']" by code_simp+
  ultimately show "url_segments (''v1'' @ url_path (iq_path (gapura_call_request u (Anchors_get ''..'')))) = [''v1'', []]"
    "url_segments (''v1'' @ url_path (iq_path (gapura_call_request u (Anchors_status ''..'')))) = [''v1'', ''status'']"
    by (simp_all add: iq_scoped_def e)
  show "gapura_route_of ''GET'' [''v1'', []] = GR_none" "gapura_route_of ''GET'' [''v1'', ''status''] = GR_none" by code_simp+
qed

subsection \<open>The ledger client against the ledger\<close>

text \<open>The service as the \<open>fetch\<close> of a client: the router splits the path and decodes its segments, and a reply is serialized.  A request
  identifier \<open>rid\<close> and the serializer are arbitrary.\<close>

definition response_of :: "(payload + Problem \<Rightarrow> string) \<Rightarrow> reply \<Rightarrow> (payload + Problem) Response" where
  "response_of ser r = (case r of
     Sent c P_empty \<Rightarrow> \<lparr>rs_status = c, rs_statusText = [], rs_retryAfter = None, rs_contentType = None, rs_text = [], rs_parsed = None\<rparr>
   | Sent c p \<Rightarrow> \<lparr>rs_status = c, rs_statusText = [], rs_retryAfter = None, rs_contentType = Some ''application/json'',
       rs_text = ser (Inl p), rs_parsed = Some (Inl p)\<rparr>
   | Problem_reply c p \<Rightarrow> \<lparr>rs_status = c, rs_statusText = [], rs_retryAfter = None, rs_contentType = Some ''application/problem+json'',
       rs_text = ser (Inr p), rs_parsed = Some (Inr p)\<rparr>)"

definition ledger_request :: "string \<Rightarrow> string \<Rightarrow> Wire \<Rightarrow> Request" where
  "ledger_request origin rid w = \<lparr>hr_verb = wr_method w, hr_path = url_segments (drop (length origin + 1) (wr_url w)),
     hr_url = drop (length origin) (wr_url w), hr_id = rid, hr_query = map_of (wr_query w),
     hr_authorization = jsmap_get (wr_headers w) ''Authorization'', hr_body = wr_body w\<rparr>"

definition ledger_fetch :: "(bytes \<Rightarrow> bytes) \<Rightarrow> Crypto \<Rightarrow> AnchorService \<Rightarrow> jwt_verify \<Rightarrow> string \<Rightarrow> string \<Rightarrow> (payload + Problem \<Rightarrow> string)
    \<Rightarrow> (MemoryStore LedgerState, payload + Problem) fetcher" where
  "ledger_fetch H cy sv jv origin rid ser w s =
     (case serve H memory_store (anchorSTH cy sv) sv jv (ledger_request origin rid w) s of (r, s') \<Rightarrow> (Inr (response_of ser r), s'))"

text \<open>What the client hands out is an answer the server gave in some state the requests led to.\<close>

lemma send_loop_answer:
  assumes "\<And>x. I x \<Longrightarrow> I (snd (ck_fetch cl (wire_of cl req []) x))" "\<not> iq_auth req"
  shows "send_loop cl req attempt s = (Inr (Some v), s') \<Longrightarrow> I (sd_world s) \<Longrightarrow>
    \<exists>x x' res. I x \<and> ck_fetch cl (wire_of cl req []) x = (Inr res, x') \<and> read_answer req res = Inr (Some v)"
  using assms
proof (induction cl req attempt s rule: send_loop.induct)
  case (1 cl req attempt s)
  have au: "auth_headers cl req s = (Inr [], s)" using 1(5) by (simp add: auth_headers_def)
  obtain b x' where f: "ck_fetch cl (wire_of cl req []) (sd_world s) = (b, x')" by fastforce
  have I': "I x'" using 1(4)[of "sd_world s"] 1(3) f by simp
  show ?case
  proof (cases b)
    case (Inl e)
    then show ?thesis using 1(2) au f by (simp add: send_loop.simps[of cl req attempt s] do_fetch_def)
  next
    case (Inr res)
    let ?s2 = "s\<lparr>sd_world := x', sd_sent := sd_sent s @ [wire_of cl req []]\<rparr>"
    have f': "do_fetch cl (wire_of cl req []) s = (Inr res, ?s2)" using f Inr by (simp add: do_fetch_def)
    show ?thesis
    proof (cases "(rs_status res = 429 \<or> rs_status res = 503) \<and> attempt < ck_maxRetries cl")
      case True
      obtain d s3 where d: "retryDelayMs cl res attempt ?s2 = (d, s3)" by fastforce
      then obtain c where s3: "s3 = ?s2\<lparr>sd_clock := c\<rparr>" using retryDelayMs_state by blast
      have run: "send_loop cl req (attempt + 1) (s3\<lparr>sd_slept := sd_slept s3 @ [d]\<rparr>) = (Inr (Some v), s')"
        using 1(2) au f' True d by (simp add: send_loop.simps[of cl req attempt s])
      show ?thesis
        by (rule 1(1)[OF au[symmetric] refl f'[symmetric] refl True d[symmetric] run _ 1(4,5)]) (simp add: s3 I')
    next
      case False
      then have "read_answer req res = Inr (Some v)" using 1(2) au f' by (auto simp: send_loop.simps[of cl req attempt s])
      with 1(3) f Inr show ?thesis by blast
    qed
  qed
qed

lemma read_answer_Some: "read_answer req res = Inr (Some v) \<Longrightarrow> 200 \<le> rs_status res \<and> rs_status res < 300 \<and> rs_parsed res = Some v"
  by (auto simp: read_answer_def rs_ok_def split: if_splits option.splits)

lemma response_payload: "rs_parsed (response_of ser r) = Some (Inl p) \<Longrightarrow> \<exists>c. r = Sent c p"
  by (auto simp: response_of_def split: reply.splits payload.splits)

definition get_wire :: "string \<Rightarrow> string \<Rightarrow> Wire" where
  "get_wire origin i = \<lparr>wr_method = ''GET'', wr_url = (origin @ ''/v1'') @ url_path (''/attestations/'' @ encodeURIComponent i), wr_query = [],
     wr_headers = [(''Accept'', ''application/json'')], wr_body = None\<rparr>"

text \<open>The identifier \<open>.\<close> asks for the empty one, and \<open>..\<close> for no route.\<close>

definition asked :: "string \<Rightarrow> string" where "asked i = (if i = ''.'' then [] else i)"

lemma ledger_request_get:
  "hr_verb (ledger_request origin rid (get_wire origin i)) = ''GET''"
  "hr_path (ledger_request origin rid (get_wire origin i)) = (if i = ''..'' then [''v1'', []] else [''v1'', ''attestations'', asked i])"
proof -
  have e: "encodeURIComponent ''.'' = ''.''" "encodeURIComponent ''..'' = ''..''" by code_simp+
  have dots: "url_segments (''v1'' @ url_path (''/attestations/'' @ ''.'')) = [''v1'', ''attestations'', []]"
    "url_segments (''v1'' @ url_path (''/attestations/'' @ ''..'')) = [''v1'', []]" by code_simp+
  have "url_segments (''v1'' @ url_path (''/attestations/'' @ encodeURIComponent i)) = [''v1'', ''attestations'', i]" if "\<not> is_dots i"
    unfolding url_path_arg(7)[OF that] using segments_arg(7)[of i] by simp
  then have "url_segments (''v1'' @ url_path (''/attestations/'' @ encodeURIComponent i))
      = (if i = ''..'' then [''v1'', []] else [''v1'', ''attestations'', asked i])"
    using dots by (cases "is_dots i") (auto simp: is_dots_def asked_def e)
  then show "hr_path (ledger_request origin rid (get_wire origin i)) = (if i = ''..'' then [''v1'', []] else [''v1'', ''attestations'', asked i])"
    by (simp add: ledger_request_def get_wire_def)
qed (simp add: ledger_request_def get_wire_def)

lemma served_get:
  "i \<noteq> ''..'' \<Longrightarrow> serve H memory_store A sv jv (ledger_request origin rid (get_wire origin i)) s =
    (case getAttestation H memory_store A (asked i) s of (Inr d, s') \<Rightarrow> (Sent 200 (P_attestation d), s')
     | (Inl e, s') \<Rightarrow> (case errorHandler (Some (hr_url (ledger_request origin rid (get_wire origin i)))) (Some (hr_id (ledger_request origin rid (get_wire origin i)))) (Thrown e) of
         (c, p) \<Rightarrow> (Problem_reply c p, s')))"
  by (simp add: serve_def handle_def Let_def ledger_request_get route_of_def get_attestation_def bindS_apply ret_def split: prod.splits sum.splits)

lemma served_dots: "\<exists>c p. serve H memory_store A sv jv (ledger_request origin rid (get_wire origin ''..'')) s = (Problem_reply c p, s)"
  by (simp add: serve_def handle_def Let_def ledger_request_get route_of_def ret_def split: prod.split)

text \<open>C6: End to end.  A client of the Aurum SDK whose base URL is that of a ledger service in a reachable state asks for an attestation
  by its identifier, of any characters.  Whatever retries it takes, if it is handed an attestation then the SDK's own offline verifier
  accepts its leaf hash, proof and root.\<close>

theorem client_attestation_verifies:
  assumes "reachable H cy sv (sd_world c)"
    and "sdk_getAttestation i (new_client (origin @ ''/v1'') auth (ledger_fetch H cy sv jv origin rid ser) retries base scopes dp) c
      = (Inr (Some (Inl (P_attestation d))), c')"
    and "sth_tree_size (at_sth d) \<le> 2 ^ 30"
  shows "sdk_verifyInclusion H (HexIn (lr_leaf_hash (at_log d))) (at_inclusion_proof d) (HexIn (sth_root_hash (at_sth d)))"
proof -
  let ?A = "anchorSTH cy sv"
  let ?cl = "new_client (origin @ ''/v1'') auth (ledger_fetch H cy sv jv origin rid ser) retries base scopes dp"
  let ?req = "iq_read (''/attestations/'' @ encodeURIComponent i) []"
  have wire: "wire_of ?cl ?req [] = get_wire origin i"
    by (simp add: wire_of_def new_client_def iq_read_def get_wire_def query_of_def set_headers_def truthy_str_def)
  have noauth: "\<not> iq_auth ?req" by (simp add: iq_read_def)
  have keep: "reachable H cy sv (snd (ck_fetch ?cl (wire_of ?cl ?req []) x))" if "reachable H cy sv x" for x
  proof (cases "i = ''..''")
    case True
    with that served_dots[of H ?A sv jv origin rid x] show ?thesis
      unfolding wire by (auto simp: new_client_def ledger_fetch_def)
  next
    case False
    have "reachable H cy sv (snd (getAttestation H memory_store ?A (asked i) x))"
      by (rule reachable_step[OF that], rule r_into_rtranclp, rule ledger_step.get[OF prod.collapse[symmetric]])
    with False show ?thesis
      unfolding wire by (auto simp: new_client_def ledger_fetch_def served_get split: prod.splits sum.splits)
  qed
  obtain x x' res where x: "reachable H cy sv x" "ck_fetch ?cl (wire_of ?cl ?req []) x = (Inr res, x')"
    "read_answer ?req res = Inr (Some (Inl (P_attestation d)))"
    using send_loop_answer[of "reachable H cy sv" ?cl ?req 0 c] keep noauth assms(1,2)
    unfolding sdk_getAttestation_def sdk_request_def by blast
  obtain r where r: "serve H memory_store ?A sv jv (ledger_request origin rid (get_wire origin i)) x = (r, x')" "res = response_of ser r"
    using x(2) unfolding wire by (auto simp: new_client_def ledger_fetch_def split: prod.splits)
  obtain k where k: "r = Sent k (P_attestation d)" using read_answer_Some[OF x(3)] response_payload[of ser r] r(2) by blast
  with r(1) served_dots[of H ?A sv jv origin rid x] have "i \<noteq> ''..''" by auto
  with r(1) k obtain s' where "getAttestation H memory_store ?A (asked i) x = (Inr d, s')"
    by (auto simp: served_get split: prod.splits sum.splits)
  from attestation_accepted[OF x(1) this assms(3)] show ?thesis by blast
qed

definition toy_ledger_client :: "(MemoryStore LedgerState, payload + Problem) SdkClient" where
  "toy_ledger_client = new_client (''https://ledger'' @ ''/v1'') None
     (ledger_fetch pad32 toy_crypto dev_service (\<lambda>_ _ _. Inr []) ''https://ledger'' ''1'' (\<lambda>_. ''{}'')) None None None (\<lambda>_. None)"

lemma request_once:
  assumes "\<not> iq_auth req" "ck_fetch cl (wire_of cl req []) (sd_world s) = (Inr res, x)" "rs_status res = 200"
  shows "\<exists>s'. sdk_request cl req s = (read_answer req res, s')"
  using assms by (simp add: sdk_request_def send_loop.simps auth_headers_def do_fetch_def)

lemma bindS_ends: "bindS m f s = (Inr x, s') \<Longrightarrow> \<exists>y t. m s = (Inr y, t) \<and> f y t = (Inr x, s')"
  by (auto simp: bindS_apply split: prod.splits sum.splits)

lemma new_registry_id:
  assumes "anchorAttestation H S A req tenant s = (Inr (a, False), s')"
  shows "\<exists>b. at_registry_id a = ''reg:att:'' @ b"
  using assms unfolding anchorAttestation_def randId_def
  by (auto simp: Let_def ret_def split: option.splits dest!: bindS_ends)

lemma dev_id: "\<not> is_dots (at_registry_id dev_att)"
  using new_registry_id[OF dev_one(1)] by (auto simp: is_dots_def)

lemma client_attestation_verifies_witness:
  "\<exists>d c'. sdk_getAttestation (at_registry_id dev_att) toy_ledger_client (idle dev_one) = (Inr (Some (Inl (P_attestation d))), c')
     \<and> sdk_verifyInclusion pad32 (HexIn (lr_leaf_hash (at_log d))) (at_inclusion_proof d) (HexIn (sth_root_hash (at_sth d)))"
proof -
  obtain d s' where d: "getAttestation pad32 memory_store dev_anchor (at_registry_id dev_att) dev_one = (Inr d, s')"
    "sth_tree_size (at_sth d) \<le> 2 ^ 30" by (rule dev_get)
  let ?i = "at_registry_id dev_att" and ?req = "iq_read (''/attestations/'' @ encodeURIComponent (at_registry_id dev_att)) []"
  have wire: "wire_of toy_ledger_client ?req [] = get_wire ''https://ledger'' ?i"
    unfolding toy_ledger_client_def
    by (simp add: wire_of_def new_client_def iq_read_def get_wire_def query_of_def set_headers_def truthy_str_def del: append_Cons append.simps)
  have fetch: "ck_fetch toy_ledger_client = ledger_fetch pad32 toy_crypto dev_service (\<lambda>_ _ _. Inr []) ''https://ledger'' ''1'' (\<lambda>_. ''{}'')"
    by (simp add: toy_ledger_client_def new_client_def)
  have "ck_fetch toy_ledger_client (get_wire ''https://ledger'' ?i) dev_one = (Inr (response_of (\<lambda>_. ''{}'') (Sent 200 (P_attestation d))), s')"
    unfolding fetch using dev_id by (simp add: ledger_fetch_def served_get d(1) is_dots_def asked_def)
  then have run: "ck_fetch toy_ledger_client (wire_of toy_ledger_client ?req []) (sd_world (idle dev_one))
      = (Inr (response_of (\<lambda>_. ''{}'') (Sent 200 (P_attestation d))), s')"
    unfolding wire by (simp add: idle_def)
  have "read_answer ?req (response_of (\<lambda>_. ''{}'') (Sent 200 (P_attestation d))) = Inr (Some (Inl (P_attestation d)))"
    by (simp add: iq_read_def response_of_def read_answer_def rs_ok_def)
  with request_once[OF _ run] have "\<exists>c'. sdk_getAttestation ?i toy_ledger_client (idle dev_one) = (Inr (Some (Inl (P_attestation d))), c')"
    unfolding sdk_getAttestation_def by (simp add: iq_read_def response_of_def)
  then obtain c' where c: "sdk_getAttestation ?i toy_ledger_client (idle dev_one) = (Inr (Some (Inl (P_attestation d))), c')" by blast
  have r: "reachable pad32 toy_crypto dev_service (sd_world (idle dev_one))" by (simp add: idle_def dev_one(2))
  from client_attestation_verifies[OF r c[unfolded toy_ledger_client_def] d(2)] c show ?thesis by blast
qed

end
