(* ===== verification/SdkChain.thy ===== *)
theory SdkChain
  imports JsData
begin

text \<open>
  The chain side of the registry SDK (\<open>sdk/typescript\<close>: \<open>config.ts\<close>, \<open>chain.ts\<close>, \<open>contracts.ts\<close>, \<open>anchor.ts\<close>).  What viem does (encoding of
  calls, the wallet, reads, receipts, keccak) are parameters; the calls act on a world of any type.
\<close>

subsection \<open>Constants\<close>

definition CHAIN_ID :: int where "CHAIN_ID = 131216"
definition GAS_PRICE :: int where "GAS_PRICE = 0"

record SdkEndpoints =
  ep_read :: string
  ep_write :: string

definition ENDPOINTS :: SdkEndpoints where
  "ENDPOINTS = \<lparr>ep_read = ''https://rpc.ledger.haratrust.io/read/'', ep_write = ''https://rpc.ledger.haratrust.io/write/''\<rparr>"

datatype SdkContract = C_HaraPalmOil | C_TraceabilityBatchRelay | C_PQAnchorRegistry | C_ContractRegistry

fun ADDRESSES :: "SdkContract \<Rightarrow> string" where
  "ADDRESSES C_HaraPalmOil = ''0xa513E6E4b8f2a923D98304ec87F64353C4D5C853''"
| "ADDRESSES C_TraceabilityBatchRelay = ''0x2279B7A0a67DB372996a5FaB50D91eAA73d2eBe6''"
| "ADDRESSES C_PQAnchorRegistry = ''0x8A791620dd6260079BF849Dc5567aDC3F2FdC318''"
| "ADDRESSES C_ContractRegistry = ''0xe7f1725E7734CE288F8367e1Bb143E90bb3F0512''"

subsection \<open>The client\<close>

datatype AbiValue = Abi_address string | Abi_uint int | Abi_bytes string | Abi_bool bool | Abi_addresses "string list" | Abi_uints "int list"

record LegacyRequest =
  lq_account :: string
  lq_to :: string
  lq_data :: "string option"
  lq_value :: int
  lq_gas :: "int option"
  lq_type :: string
  lq_gasPrice :: int
  lq_chainId :: int

record ChainReceipt =
  cr_status :: string
  cr_blockNumber :: int
  cr_gasUsed :: int

record ReadCall =
  rc_address :: string
  rc_function :: string
  rc_args :: "AbiValue list"

record 'w Viem =
  vi_encode :: "SdkContract \<Rightarrow> string \<Rightarrow> AbiValue list \<Rightarrow> string + string"
  vi_send :: "string \<Rightarrow> LegacyRequest \<Rightarrow> 'w \<Rightarrow> (string + string) \<times> 'w"
  vi_read :: "string \<Rightarrow> ReadCall \<Rightarrow> 'w \<Rightarrow> (string + AbiValue) \<times> 'w"
  vi_balance :: "string \<Rightarrow> string \<Rightarrow> 'w \<Rightarrow> (string + int) \<times> 'w"
  vi_wait :: "string \<Rightarrow> string \<Rightarrow> int \<Rightarrow> int \<Rightarrow> 'w \<Rightarrow> (string + ChainReceipt) \<times> 'w"
  vi_keccak :: "string \<Rightarrow> string"

record HaraChainClient =
  hc_readUrl :: string
  hc_writeUrl :: string
  hc_account :: "string option"

definition new_HaraChainClient :: "string option \<Rightarrow> string option \<Rightarrow> string option \<Rightarrow> HaraChainClient" where
  "new_HaraChainClient account readUrl writeUrl =
     \<lparr>hc_readUrl = default_to (ep_read ENDPOINTS) readUrl, hc_writeUrl = default_to (ep_write ENDPOINTS) writeUrl, hc_account = account\<rparr>"

text \<open>The second result tells whether the warning about an unfunded address is printed.\<close>

definition ensureFunded :: "'w Viem \<Rightarrow> HaraChainClient \<Rightarrow> string \<Rightarrow> 'w \<Rightarrow> (string + (int \<times> bool)) \<times> 'w" where
  "ensureFunded vi cl address w = (case vi_balance vi (hc_readUrl cl) address w of
     (Inl msg, w') \<Rightarrow> (Inl msg, w') | (Inr balance, w') \<Rightarrow> (Inr (balance, balance = 0), w'))"

definition sendLegacyTx :: "'w Viem \<Rightarrow> HaraChainClient \<Rightarrow> string \<Rightarrow> string option \<Rightarrow> int option \<Rightarrow> int option \<Rightarrow> 'w \<Rightarrow> (string + string) \<times> 'w" where
  "sendLegacyTx vi cl to data' value' gas w = (case hc_account cl of
     None \<Rightarrow> (Inl (''sendLegacyTx requires an account '' @ [CHR 0xE2, CHR 0x80, CHR 0x94] @ '' construct HaraChainClient({ account }).''), w)
   | Some account \<Rightarrow> vi_send vi (hc_writeUrl cl) \<lparr>lq_account = account, lq_to = to, lq_data = data', lq_value = default_to 0 value', lq_gas = gas,
       lq_type = ''legacy'', lq_gasPrice = GAS_PRICE, lq_chainId = CHAIN_ID\<rparr> w)"

definition waitForReceipt :: "'w Viem \<Rightarrow> HaraChainClient \<Rightarrow> string \<Rightarrow> int option \<Rightarrow> int option \<Rightarrow> 'w \<Rightarrow> (string + ChainReceipt) \<times> 'w" where
  "waitForReceipt vi cl hash timeoutMs pollingIntervalMs w =
     (case vi_wait vi (hc_readUrl cl) hash (default_to 60000 timeoutMs) (default_to 1000 pollingIntervalMs) w of
        (Inl msg, w') \<Rightarrow> (Inl msg, w')
      | (Inr receipt, w') \<Rightarrow>
          if cr_status receipt \<noteq> ''success''
          then (Inl (''Transaction '' @ hash @ '' reverted (status='' @ cr_status receipt @ '') in block '' @ js_int (cr_blockNumber receipt)
            @ ''. Gas used: '' @ js_int (cr_gasUsed receipt) @ ''.''), w')
          else (Inr receipt, w'))"

subsection \<open>The contracts\<close>

record RecordAnchorParams =
  ra_merkle :: string
  ra_sha3 :: string
  ra_from :: int
  ra_to :: int
  ra_events :: int
  ra_chainTag :: string
  ra_pqHash :: string

definition anchor_args :: "RecordAnchorParams \<Rightarrow> AbiValue list" where
  "anchor_args p = [Abi_bytes (ra_merkle p), Abi_bytes (ra_sha3 p), Abi_uint (ra_from p), Abi_uint (ra_to p), Abi_uint (ra_events p),
     Abi_bytes (ra_chainTag p), Abi_bytes (ra_pqHash p)]"

definition nameToKey :: "'w Viem \<Rightarrow> string \<Rightarrow> AbiValue" where
  "nameToKey vi name = Abi_bytes (vi_keccak vi name)"

text \<open>The transactions of the four wrappers, as function and arguments.\<close>

datatype PalmWrite = SetApprovalForAll string bool | MintBatch int string int string string int

fun palm_call :: "PalmWrite \<Rightarrow> string \<times> AbiValue list" where
  "palm_call (SetApprovalForAll operator approved) = (''setApprovalForAll'', [Abi_address operator, Abi_bool approved])"
| "palm_call (MintBatch batchId firstOwner liters rspo plantation date) = (''mintBatch'', [Abi_uint batchId, Abi_address firstOwner,
     Abi_uint liters, Abi_bytes rspo, Abi_bytes plantation, Abi_uint date])"

datatype RelayWrite =
    ExecuteChain string int int "string list"
  | ExecuteChainVariable string int "string list" "int list"
  | ExecuteHops string int "string list" "string list" "int list"

fun relay_call :: "RelayWrite \<Rightarrow> string \<times> AbiValue list" where
  "relay_call (ExecuteChain token batchId amount holders) = (''executeChain'', [Abi_address token, Abi_uint batchId, Abi_uint amount, Abi_addresses holders])"
| "relay_call (ExecuteChainVariable token batchId holders amounts) =
     (''executeChainVariable'', [Abi_address token, Abi_uint batchId, Abi_addresses holders, Abi_uints amounts])"
| "relay_call (ExecuteHops token batchId froms tos amounts) =
     (''executeHops'', [Abi_address token, Abi_uint batchId, Abi_addresses froms, Abi_addresses tos, Abi_uints amounts])"

datatype RegistryWrite = Register string int string | SetActiveVersion string int | Deactivate string int

fun registry_call :: "'w Viem \<Rightarrow> RegistryWrite \<Rightarrow> string \<times> AbiValue list" where
  "registry_call vi (Register name version addr) = (''register'', [nameToKey vi name, Abi_uint version, Abi_address addr])"
| "registry_call vi (SetActiveVersion name version) = (''setActiveVersion'', [nameToKey vi name, Abi_uint version])"
| "registry_call vi (Deactivate name version) = (''deactivate'', [nameToKey vi name, Abi_uint version])"

datatype PqWrite = RecordAnchor RecordAnchorParams | ConfirmExternalAnchor int string

fun pq_call :: "PqWrite \<Rightarrow> string \<times> AbiValue list" where
  "pq_call (RecordAnchor p) = (''recordAnchor'', anchor_args p)"
| "pq_call (ConfirmExternalAnchor anchorId anchorTxHash) = (''confirmExternalAnchor'', [Abi_uint anchorId, Abi_bytes anchorTxHash])"

text \<open>A wrapper holds the address of its contract, the deployed one unless the caller gives another.  Encoding comes before sending.\<close>

definition contract_write :: "'w Viem \<Rightarrow> HaraChainClient \<Rightarrow> SdkContract \<Rightarrow> string option \<Rightarrow> string \<times> AbiValue list \<Rightarrow> 'w \<Rightarrow> (string + string) \<times> 'w" where
  "contract_write vi cl target address c w =
     (case vi_encode vi target (fst c) (snd c) of
        Inl msg \<Rightarrow> (Inl msg, w)
      | Inr data' \<Rightarrow> sendLegacyTx vi cl (default_to (ADDRESSES target) address) (Some data') None None w)"

definition palm_write :: "'w Viem \<Rightarrow> HaraChainClient \<Rightarrow> string option \<Rightarrow> PalmWrite \<Rightarrow> 'w \<Rightarrow> (string + string) \<times> 'w" where
  "palm_write vi cl address c = contract_write vi cl C_HaraPalmOil address (palm_call c)"

definition relay_write :: "'w Viem \<Rightarrow> HaraChainClient \<Rightarrow> string option \<Rightarrow> RelayWrite \<Rightarrow> 'w \<Rightarrow> (string + string) \<times> 'w" where
  "relay_write vi cl address c = contract_write vi cl C_TraceabilityBatchRelay address (relay_call c)"

definition registry_write :: "'w Viem \<Rightarrow> HaraChainClient \<Rightarrow> string option \<Rightarrow> RegistryWrite \<Rightarrow> 'w \<Rightarrow> (string + string) \<times> 'w" where
  "registry_write vi cl address c = contract_write vi cl C_ContractRegistry address (registry_call vi c)"

definition pq_write :: "'w Viem \<Rightarrow> HaraChainClient \<Rightarrow> string option \<Rightarrow> PqWrite \<Rightarrow> 'w \<Rightarrow> (string + string) \<times> 'w" where
  "pq_write vi cl address c = contract_write vi cl C_PQAnchorRegistry address (pq_call c)"

datatype ContractRead =
    BalanceOf string int | IsApprovedForAll string string | GetActive string | CurrentPQKeyHash | CurrentPQAlgorithm

fun read_target :: "ContractRead \<Rightarrow> SdkContract" where
  "read_target (BalanceOf a i) = C_HaraPalmOil"
| "read_target (IsApprovedForAll a op') = C_HaraPalmOil"
| "read_target (GetActive n) = C_ContractRegistry"
| "read_target CurrentPQKeyHash = C_PQAnchorRegistry"
| "read_target CurrentPQAlgorithm = C_PQAnchorRegistry"

fun read_call :: "'w Viem \<Rightarrow> ContractRead \<Rightarrow> string \<times> AbiValue list" where
  "read_call vi (BalanceOf account batchId) = (''balanceOf'', [Abi_address account, Abi_uint batchId])"
| "read_call vi (IsApprovedForAll account operator) = (''isApprovedForAll'', [Abi_address account, Abi_address operator])"
| "read_call vi (GetActive name) = (''getActive'', [nameToKey vi name])"
| "read_call vi CurrentPQKeyHash = (''currentPQKeyHash'', [])"
| "read_call vi CurrentPQAlgorithm = (''currentPQAlgorithm'', [])"

definition contract_read :: "'w Viem \<Rightarrow> HaraChainClient \<Rightarrow> string option \<Rightarrow> ContractRead \<Rightarrow> 'w \<Rightarrow> (string + AbiValue) \<times> 'w" where
  "contract_read vi cl address c w = (case read_call vi c of (fn, args) \<Rightarrow>
     vi_read vi (hc_readUrl cl) \<lparr>rc_address = default_to (ADDRESSES (read_target c)) address, rc_function = fn, rc_args = args\<rparr> w)"

subsection \<open>Anchors\<close>

definition buildRecordAnchorCalldata :: "'w Viem \<Rightarrow> RecordAnchorParams \<Rightarrow> string + string" where
  "buildRecordAnchorCalldata vi p = (let dash = '' '' @ [CHR 0xE2, CHR 0x80, CHR 0x94] @ '' '' in
     if ra_pqHash p = ''0x'' @ replicate 64 CHR ''0''
     then Inl (''pqSignatureHash is zero'' @ dash @ ''PQAnchorRegistry.recordAnchor reverts MissingPQCommitment(). ''
       @ ''Sign the Merkle root with ML-DSA-65 and pass keccak256(signature).'')
     else if ra_to p < ra_from p then Inl (''blockTo < blockFrom'' @ dash @ ''recordAnchor reverts EmptyRange().'')
     else vi_encode vi C_PQAnchorRegistry ''recordAnchor'' (anchor_args p))"

text \<open>The guarded builder and the wrapper encode the same call, but the wrapper has no guard.\<close>

lemma guarded_anchor_call:
  "buildRecordAnchorCalldata vi p = Inr data' \<Longrightarrow>
    pq_write vi cl address (RecordAnchor p) w
      = sendLegacyTx vi cl (default_to (ADDRESSES C_PQAnchorRegistry) address) (Some data') None None w"
  by (simp add: buildRecordAnchorCalldata_def pq_write_def contract_write_def Let_def split: if_splits)

text \<open>A receipt that is handed out is one of success.\<close>

lemma waitForReceipt_success: "waitForReceipt vi cl hash t p w = (Inr r, w') \<Longrightarrow> cr_status r = ''success''"
  by (auto simp: waitForReceipt_def split: prod.splits sum.splits if_splits)

text \<open>Whatever is written is a free legacy transaction of this chain, from the account of the client to the contract of the call.\<close>

lemma writes_are_free_legacy:
  assumes "contract_write vi cl target None c w = (Inr hash, w')"
  shows "\<exists>account data'. hc_account cl = Some account
     \<and> vi_send vi (hc_writeUrl cl) \<lparr>lq_account = account, lq_to = ADDRESSES target, lq_data = Some data', lq_value = 0, lq_gas = None,
         lq_type = ''legacy'', lq_gasPrice = 0, lq_chainId = 131216\<rparr> w = (Inr hash, w')"
  using assms
  by (auto simp: contract_write_def sendLegacyTx_def GAS_PRICE_def CHAIN_ID_def default_to_def split: prod.splits sum.splits option.splits)

end
