(* ===== verification/Migrations.thy ===== *)
theory Migrations
  imports TxPipeline
begin

text \<open>
  The migration runner (\<open>services/migrate/src/index.ts\<close>).  The content of the database apart from the table \<open>_migrations\<close> has any
  type.  What PostgreSQL does with the text of a file is a parameter: \<open>exec\<close> its effect, and \<open>own\<close> whether the text ends the
  transaction it runs in with a \<open>COMMIT\<close> of its own, as all five files under \<open>services/migrations\<close> do.  Inside a transaction a
  second \<open>BEGIN\<close> does nothing, and outside one a \<open>COMMIT\<close> or \<open>ROLLBACK\<close> does nothing.  Every call may fail, without effect or, when
  only the answer is lost, after its effect.  File names are compared by their bytes, which is JavaScript's order for names of
  the basic plane.
\<close>

subsection \<open>The runner\<close>

text \<open>\<open>mg_saved\<close> is what a rollback goes back to, while a transaction is open.  A fault says whether the call took effect.\<close>

record 'd Migrations =
  mg_data :: 'd
  mg_names :: "string list option"
  mg_saved :: "('d \<times> string list option) option"
  mg_faults :: "(string \<times> bool) option stream"

type_synonym ('d, 'a) mgop = "('d Migrations, js_exn, 'a) xop"

definition mg_query :: "('d Migrations \<Rightarrow> string + ('a \<times> 'd Migrations)) \<Rightarrow> ('d, 'a) mgop" where
  "mg_query g s = (let s1 = s\<lparr>mg_faults := stl (mg_faults s)\<rparr> in
     case shd (mg_faults s) of
       Some (msg, took) \<Rightarrow> (Inl (PlainError msg), if took then (case g s1 of Inl _ \<Rightarrow> s1 | Inr (x, s2) \<Rightarrow> s2) else s1)
     | None \<Rightarrow> (case g s1 of Inl msg \<Rightarrow> (Inl (PlainError msg), s1) | Inr (x, s2) \<Rightarrow> (Inr x, s2)))"

definition mg_begin :: "('d, unit) mgop" where
  "mg_begin = mg_query (\<lambda>s. Inr ((), if mg_saved s = None then s\<lparr>mg_saved := Some (mg_data s, mg_names s)\<rparr> else s))"

definition mg_commit :: "('d, unit) mgop" where
  "mg_commit = mg_query (\<lambda>s. Inr ((), s\<lparr>mg_saved := None\<rparr>))"

definition rolled_back :: "'d Migrations \<Rightarrow> 'd Migrations" where
  "rolled_back s = (case mg_saved s of None \<Rightarrow> s | Some (d, ns) \<Rightarrow> s\<lparr>mg_data := d, mg_names := ns, mg_saved := None\<rparr>)"

text \<open>When the ROLLBACK fails the process ends, and the server rolls back what its connection left open.\<close>

definition mg_rollback :: "('d, unit) mgop" where
  "mg_rollback s = (case mg_query (\<lambda>s. Inr ((), rolled_back s)) s of (q, s') \<Rightarrow> (q, rolled_back s'))"

definition ensureMigrationsTable :: "('d, unit) mgop" where
  "ensureMigrationsTable = mg_query (\<lambda>s. Inr ((), s\<lparr>mg_names := Some (default_to [] (mg_names s))\<rparr>))"

definition appliedMigrations :: "('d, string list) mgop" where
  "appliedMigrations = mg_query (\<lambda>s. case mg_names s of None \<Rightarrow> Inl ''relation _migrations does not exist'' | Some ns \<Rightarrow> Inr (ns, s))"

fun name_le :: "string \<Rightarrow> string \<Rightarrow> bool" where
  "name_le [] t = True"
| "name_le (c # s) [] = False"
| "name_le (c # s) (d # t) = ((of_char c :: nat) < of_char d \<or> (c = d \<and> name_le s t))"

fun insert_name :: "string \<Rightarrow> string list \<Rightarrow> string list" where
  "insert_name x [] = [x]"
| "insert_name x (y # ys) = (if name_le x y then x # y # ys else y # insert_name x ys)"

definition sort_names :: "string list \<Rightarrow> string list" where
  "sort_names xs = foldr insert_name xs []"

definition sql_files :: "string list \<Rightarrow> string list" where
  "sql_files dir = sort_names (filter (\<lambda>f. starts_with (rev ''.sql'') (rev f)) dir)"

text \<open>One file: BEGIN, its text, the row of its name, COMMIT.\<close>

definition apply_migration :: "(string \<Rightarrow> 'd \<Rightarrow> string + 'd) \<Rightarrow> (string \<Rightarrow> bool) \<Rightarrow> string \<Rightarrow> string \<Rightarrow> ('d, unit) mgop" where
  "apply_migration exec own file text =
     tryS (bindS mg_begin (\<lambda>_.
           bindS (mg_query (\<lambda>s. case exec text (mg_data s) of Inl msg \<Rightarrow> Inl msg
               | Inr d \<Rightarrow> Inr ((), s\<lparr>mg_data := d, mg_saved := (if own text then None else mg_saved s)\<rparr>))) (\<lambda>_.
           bindS (mg_query (\<lambda>s. case mg_names s of None \<Rightarrow> Inl ''relation _migrations does not exist''
               | Some ns \<Rightarrow> if file \<in> set ns then Inl ''duplicate key value'' else Inr ((), s\<lparr>mg_names := Some (ns @ [file])\<rparr>))) (\<lambda>_.
           mg_commit))))
       (\<lambda>e s. case mg_rollback s of (Inl e', s') \<Rightarrow> (Inl e', s') | (Inr _, s') \<Rightarrow> (Inl e, s'))"

fun migrate_loop ::
  "(string \<Rightarrow> 'd \<Rightarrow> string + 'd) \<Rightarrow> (string \<Rightarrow> bool) \<Rightarrow> (string \<Rightarrow> string + string) \<Rightarrow> string list \<Rightarrow> string list \<Rightarrow> ('d, unit) mgop" where
  "migrate_loop exec own readFile applied [] = ret ()"
| "migrate_loop exec own readFile applied (file # files) =
     (if file \<in> set applied then migrate_loop exec own readFile applied files
      else case readFile file of Inl msg \<Rightarrow> throw (PlainError msg)
      | Inr text \<Rightarrow> bindS (mg_query (\<lambda>s. Inr ((), s))) (\<lambda>_.
          bindS (apply_migration exec own file text) (\<lambda>_. migrate_loop exec own readFile applied files)))"

definition migrate_run ::
  "(string \<Rightarrow> 'd \<Rightarrow> string + 'd) \<Rightarrow> (string \<Rightarrow> bool) \<Rightarrow> (string \<Rightarrow> string + string) \<Rightarrow> (string + string list) \<Rightarrow> ('d, unit) mgop" where
  "migrate_run exec own readFile dir =
     bindS ensureMigrationsTable (\<lambda>_.
     bindS appliedMigrations (\<lambda>applied.
     case dir of Inl msg \<Rightarrow> throw (PlainError msg) | Inr names \<Rightarrow> migrate_loop exec own readFile applied (sql_files names)))"

subsection \<open>What a run does\<close>

lemma sort_names_set [simp]: "set (sort_names xs) = set xs"
proof -
  have "set (insert_name x ys) = insert x (set ys)" for x ys by (induction ys) auto
  then show ?thesis unfolding sort_names_def by (induction xs) auto
qed

lemma name_le_total: "name_le s t \<or> name_le t s"
proof (induction s t rule: name_le.induct)
  case (3 c s d t)
  then show ?case by (cases "(of_char c :: nat) < of_char d"; cases "(of_char d :: nat) < of_char c")
    (auto dest: of_char_eq_iff[THEN iffD1] simp: not_less)
qed auto

lemma name_le_trans: "name_le s t \<Longrightarrow> name_le t u \<Longrightarrow> name_le s u"
proof (induction s t arbitrary: u rule: name_le.induct)
  case (3 c s d t)
  then show ?case by (cases u) auto
qed auto

lemma sorted_insert_name: "sorted_wrt name_le ys \<Longrightarrow> sorted_wrt name_le (insert_name x ys)"
proof (induction ys)
  case (Cons y ys)
  have "set (insert_name x ys) = insert x (set ys)" by (induction ys) auto
  then show ?case using Cons name_le_total[of x y] name_le_trans by (auto; blast)
qed simp

lemma sorted_sql_files: "sorted_wrt name_le (sql_files dir)"
proof -
  have "sorted_wrt name_le (foldr insert_name xs [])" for xs by (induction xs) (auto intro: sorted_insert_name)
  then show ?thesis by (simp add: sql_files_def sort_names_def)
qed

lemma distinct_sql_files: "distinct dir \<Longrightarrow> distinct (sql_files dir)"
proof -
  have i: "set (insert_name x ys) = insert x (set ys)" for x ys by (induction ys) auto
  have d: "x \<notin> set ys \<Longrightarrow> distinct ys \<Longrightarrow> distinct (insert_name x ys)" for x ys by (induction ys) (auto simp: i)
  have "set (foldr insert_name xs []) = set xs" for xs by (induction xs) (auto simp: i)
  then have "distinct xs \<Longrightarrow> distinct (foldr insert_name xs [])" for xs by (induction xs) (auto intro: d)
  then show "distinct dir \<Longrightarrow> distinct (sql_files dir)" by (simp add: sql_files_def sort_names_def)
qed

text \<open>The files one after the other, without faults.\<close>

fun execute_all :: "(string \<Rightarrow> 'd \<Rightarrow> string + 'd) \<Rightarrow> (string \<Rightarrow> string + string) \<Rightarrow> string list \<Rightarrow> 'd \<Rightarrow> 'd option" where
  "execute_all exec readFile [] d = Some d"
| "execute_all exec readFile (f # fs) d = (case readFile f of Inl msg \<Rightarrow> None
     | Inr text \<Rightarrow> (case exec text d of Inl msg \<Rightarrow> None | Inr d' \<Rightarrow> execute_all exec readFile fs d'))"

text \<open>Between two calls of the loop no transaction is open.\<close>

definition settled :: "'d Migrations \<Rightarrow> 'd \<Rightarrow> string list \<Rightarrow> bool" where
  "settled s d ns \<longleftrightarrow> mg_saved s = None \<and> mg_data s = d \<and> mg_names s = Some ns"

text \<open>A file is applied and recorded, or left out; one that ends the transaction itself may also be applied without being recorded.\<close>

definition one_migration ::
  "(string \<Rightarrow> 'd \<Rightarrow> string + 'd) \<Rightarrow> (string \<Rightarrow> bool) \<Rightarrow> string \<Rightarrow> string \<Rightarrow> 'd \<Rightarrow> string list \<Rightarrow> js_exn + unit \<Rightarrow> 'd Migrations \<Rightarrow> bool" where
  "one_migration exec own file text d ns r s' \<longleftrightarrow>
     (\<exists>d'. exec text d = Inr d' \<and> settled s' d' (ns @ [file])) \<or> (r \<noteq> Inr () \<and> settled s' d ns)
     \<or> (r \<noteq> Inr () \<and> own text \<and> (\<exists>d'. exec text d = Inr d' \<and> settled s' d' ns))"

text \<open>In a transaction: the data and names so far, and what a rollback goes back to.\<close>

definition in_transaction :: "'d Migrations \<Rightarrow> 'd \<Rightarrow> string list \<Rightarrow> 'd \<Rightarrow> string list \<Rightarrow> bool" where
  "in_transaction s d0 ns0 d ns \<longleftrightarrow> mg_saved s = Some (d0, Some ns0) \<and> mg_data s = d \<and> mg_names s = Some ns"

definition falls_back :: "'d Migrations \<Rightarrow> 'd \<Rightarrow> string list \<Rightarrow> bool" where
  "falls_back s d ns \<longleftrightarrow> settled (rolled_back s) d ns"

lemma falls_back_intros: "settled s d ns \<Longrightarrow> falls_back s d ns" "in_transaction s d ns d' ns' \<Longrightarrow> falls_back s d ns"
  by (simp_all add: falls_back_def settled_def in_transaction_def rolled_back_def)

lemma mg_queryD:
  assumes "mg_query g s = (q, s')"
  obtains (ok) x where "q = Inr x" "g (s\<lparr>mg_faults := stl (mg_faults s)\<rparr>) = Inr (x, s')"
  | (failed) e where "q = Inl e" "s' = s\<lparr>mg_faults := stl (mg_faults s)\<rparr>"
  | (lost) e x where "q = Inl e" "g (s\<lparr>mg_faults := stl (mg_faults s)\<rparr>) = Inr (x, s')"
  using assms by (auto simp: mg_query_def Let_def split: option.splits sum.splits prod.splits if_splits)

lemma settled_faults [simp]: "settled (s\<lparr>mg_faults := f\<rparr>) = settled s" "in_transaction (s\<lparr>mg_faults := f\<rparr>) = in_transaction s"
  "falls_back (s\<lparr>mg_faults := f\<rparr>) = falls_back s"
  by (auto simp: fun_eq_iff settled_def in_transaction_def falls_back_def rolled_back_def split: option.split)

lemma wp_mg_begin:
  assumes "settled s d ns"
  shows "wp mg_begin (\<lambda>q s'. case q of Inr _ \<Rightarrow> in_transaction s' d ns d ns | Inl _ \<Rightarrow> falls_back s' d ns) s"
proof -
  obtain q s' where q: "mg_begin s = (q, s')" by fastforce
  from q[unfolded mg_begin_def] have "case q of Inr _ \<Rightarrow> in_transaction s' d ns d ns | Inl _ \<Rightarrow> falls_back s' d ns"
    by (cases rule: mg_queryD) (use assms in \<open>auto simp: falls_back_intros settled_def in_transaction_def falls_back_def rolled_back_def\<close>)
  with q show ?thesis by (simp add: wp_def)
qed

lemma wp_mg_text:
  assumes "in_transaction s d ns d ns"
  shows "wp (mg_query (\<lambda>s. case exec text (mg_data s) of Inl msg \<Rightarrow> Inl msg
      | Inr x \<Rightarrow> Inr ((), s\<lparr>mg_data := x, mg_saved := (if own text then None else mg_saved s)\<rparr>)))
    (\<lambda>q s'. case q of
       Inr _ \<Rightarrow> \<exists>d'. exec text d = Inr d' \<and> (if own text then settled s' d' ns else in_transaction s' d ns d' ns)
     | Inl _ \<Rightarrow> falls_back s' d ns \<or> (own text \<and> (\<exists>d'. exec text d = Inr d' \<and> falls_back s' d' ns))) s"
    (is "wp (mg_query ?g) ?P s")
proof -
  obtain q s' where q: "mg_query ?g s = (q, s')" by fastforce
  then have "?P q s'"
    by (cases rule: mg_queryD)
      (use assms in \<open>auto simp: settled_def in_transaction_def falls_back_def rolled_back_def split: sum.splits if_splits\<close>)
  with q show ?thesis by (simp add: wp_def)
qed

lemma wp_mg_insert:
  assumes "if own then settled s d' ns else in_transaction s d ns d' ns"
  shows "wp (mg_query (\<lambda>s. case mg_names s of None \<Rightarrow> Inl ''relation _migrations does not exist''
      | Some xs \<Rightarrow> if file \<in> set xs then Inl ''duplicate key value'' else Inr ((), s\<lparr>mg_names := Some (xs @ [file])\<rparr>)))
    (\<lambda>q s'. case q of
       Inr _ \<Rightarrow> if own then settled s' d' (ns @ [file]) else in_transaction s' d ns d' (ns @ [file])
     | Inl _ \<Rightarrow> if own then falls_back s' d' ns \<or> falls_back s' d' (ns @ [file]) else falls_back s' d ns) s"
    (is "wp (mg_query ?g) ?P s")
proof -
  obtain q s' where q: "mg_query ?g s = (q, s')" by fastforce
  then have "?P q s'"
    by (cases rule: mg_queryD)
      (use assms in \<open>auto simp: settled_def in_transaction_def falls_back_def rolled_back_def split: option.splits if_splits\<close>)
  with q show ?thesis by (simp add: wp_def)
qed

lemma wp_mg_commit:
  assumes "if own then settled s d' ns' else in_transaction s d ns d' ns'"
  shows "wp mg_commit (\<lambda>q s'. case q of Inr _ \<Rightarrow> settled s' d' ns'
     | Inl _ \<Rightarrow> falls_back s' d' ns' \<or> (\<not> own \<and> falls_back s' d ns)) s"
proof -
  obtain q s' where q: "mg_commit s = (q, s')" by fastforce
  from q[unfolded mg_commit_def] have "case q of Inr _ \<Rightarrow> settled s' d' ns' | Inl _ \<Rightarrow> falls_back s' d' ns' \<or> (\<not> own \<and> falls_back s' d ns)"
    by (cases rule: mg_queryD) (use assms in \<open>auto simp: settled_def in_transaction_def falls_back_def rolled_back_def split: if_splits\<close>)
  with q show ?thesis by (simp add: wp_def)
qed

lemma rollback_settles: "falls_back s d ns \<Longrightarrow> mg_rollback s = (q, s') \<Longrightarrow> settled s' d ns"
  by (auto simp: mg_rollback_def mg_query_def Let_def falls_back_def settled_def rolled_back_def
      split: prod.splits option.splits if_splits)

lemma apply_migration_one:
  assumes "settled s d ns" "apply_migration exec own file text s = (r, s')"
  shows "one_migration exec own file text d ns r s'"
proof -
  let ?last = "\<lambda>q s'. case q of Inr _ \<Rightarrow> (\<exists>d'. exec text d = Inr d' \<and> settled s' d' (ns @ [file]))
     | Inl _ \<Rightarrow> falls_back s' d ns \<or> (\<exists>d'. exec text d = Inr d' \<and> (falls_back s' d' (ns @ [file]) \<or> own text \<and> falls_back s' d' ns))"
  have "wp (apply_migration exec own file text) (one_migration exec own file text d ns) s"
    unfolding apply_migration_def wp_tryS
  proof (rule wp_mono[where P = ?last])
    show "wp (bindS mg_begin (\<lambda>_. bindS (mg_query (\<lambda>s. case exec text (mg_data s) of Inl msg \<Rightarrow> Inl msg
               | Inr d \<Rightarrow> Inr ((), s\<lparr>mg_data := d, mg_saved := (if own text then None else mg_saved s)\<rparr>))) (\<lambda>_.
           bindS (mg_query (\<lambda>s. case mg_names s of None \<Rightarrow> Inl ''relation _migrations does not exist''
               | Some ns \<Rightarrow> if file \<in> set ns then Inl ''duplicate key value'' else Inr ((), s\<lparr>mg_names := Some (ns @ [file])\<rparr>))) (\<lambda>_.
           mg_commit)))) ?last s"
    proof (rule wp_seq[OF wp_mg_begin[OF assms(1)]], goal_cases)
      case (2 u s1)
      then have s1: "in_transaction s1 d ns d ns" by simp
      show ?case
      proof (rule wp_seq[OF wp_mg_text[OF s1]], goal_cases)
        case (2 u s2)
        then obtain d' where d': "exec text d = Inr d'" "if own text then settled s2 d' ns else in_transaction s2 d ns d' ns" by auto
        show ?case
        proof (rule wp_seq[OF wp_mg_insert[OF d'(2)]], goal_cases)
          case (2 u s3)
          then have s3: "if own text then settled s3 d' (ns @ [file]) else in_transaction s3 d ns d' (ns @ [file])" by simp
          show ?case by (rule wp_mono[OF wp_mg_commit[OF s3]]) (use d'(1) in \<open>auto split: sum.splits\<close>)
        qed (use d'(1) in \<open>auto split: if_splits\<close>)
      qed auto
    qed auto
  qed (auto simp: wp_def one_migration_def split: sum.splits prod.splits dest!: rollback_settles)
  with assms(2) show ?thesis by (simp add: wp_def)
qed

text \<open>What is done is a prefix of what is left to do, and at most the next file without its record.\<close>

definition prefix_done ::
  "(string \<Rightarrow> 'd \<Rightarrow> string + 'd) \<Rightarrow> (string \<Rightarrow> bool) \<Rightarrow> (string \<Rightarrow> string + string) \<Rightarrow> string list \<Rightarrow> 'd \<Rightarrow> string list
    \<Rightarrow> js_exn + unit \<Rightarrow> 'd Migrations \<Rightarrow> bool" where
  "prefix_done exec own readFile todo d ns r s' \<longleftrightarrow> (\<exists>ds rest d1 d2. todo = ds @ rest \<and> execute_all exec readFile ds d = Some d1
     \<and> settled s' d2 (ns @ ds)
     \<and> (d2 = d1 \<or> r \<noteq> Inr () \<and> (\<exists>f fs text. rest = f # fs \<and> readFile f = Inr text \<and> own text \<and> exec text d1 = Inr d2))
     \<and> (r = Inr () \<longrightarrow> rest = []))"

lemma prefix_none: "settled s' d ns \<Longrightarrow> r \<noteq> Inr () \<Longrightarrow> prefix_done exec own readFile todo d ns r s'"
  unfolding prefix_done_def by (intro exI[of _ "[]"] exI[of _ todo] exI[of _ d]) simp

lemma prefix_unrecorded:
  "settled s' d' ns \<Longrightarrow> r \<noteq> Inr () \<Longrightarrow> readFile f = Inr text \<Longrightarrow> own text \<Longrightarrow> exec text d = Inr d'
    \<Longrightarrow> prefix_done exec own readFile (f # todo) d ns r s'"
  unfolding prefix_done_def by (intro exI[of _ "[]"] exI[of _ "f # todo"] exI[of _ d] exI[of _ d']) simp

lemma prefix_step:
  assumes "readFile f = Inr text" "exec text d = Inr d'" "prefix_done exec own readFile todo d' (ns @ [f]) r s'"
  shows "prefix_done exec own readFile (f # todo) d ns r s'"
proof -
  from assms(3) obtain ds rest d1 d2 where "todo = ds @ rest" "execute_all exec readFile ds d' = Some d1" "settled s' d2 ((ns @ [f]) @ ds)"
    "d2 = d1 \<or> r \<noteq> Inr () \<and> (\<exists>f fs text. rest = f # fs \<and> readFile f = Inr text \<and> own text \<and> exec text d1 = Inr d2)"
    "r = Inr () \<longrightarrow> rest = []" unfolding prefix_done_def by blast
  with assms(1,2) show ?thesis
    unfolding prefix_done_def by (intro exI[of _ "f # ds"] exI[of _ rest] exI[of _ d1] exI[of _ d2]) simp
qed

lemma migrate_loop_prefix:
  assumes "settled s d ns" "migrate_loop exec own readFile applied files s = (r, s')"
  shows "prefix_done exec own readFile (filter (\<lambda>f. f \<notin> set applied) files) d ns r s'"
  using assms
proof (induction files arbitrary: s d ns)
  case Nil
  then show ?case unfolding prefix_done_def by (intro exI[of _ "[]"]) (simp add: ret_def)
next
  case (Cons f files)
  show ?case
  proof (cases "f \<in> set applied")
    case True
    with Cons show ?thesis by simp
  next
    case False
    note new = this
    show ?thesis
    proof (cases "readFile f")
      case (Inl msg)
      then show ?thesis using Cons.prems new by (auto simp: throw_def intro: prefix_none)
    next
      case (Inr content)
      let ?s1 = "s\<lparr>mg_faults := stl (mg_faults s)\<rparr>"
      have s1: "settled ?s1 d ns" using Cons.prems(1) by (simp add: settled_def)
      show ?thesis
      proof (cases "shd (mg_faults s)")
        case (Some x)
        then show ?thesis using Cons.prems(2) new Inr s1
          by (cases x) (auto simp: bindS_apply mg_query_def Let_def intro!: prefix_none)
      next
        case None
        obtain q s2 where a: "apply_migration exec own f content ?s1 = (q, s2)" by fastforce
        note one = apply_migration_one[OF s1 a]
        show ?thesis
        proof (cases q)
          case (Inl e)
          then have "r = q" "s' = s2" using Cons.prems(2) new Inr None a by (auto simp: bindS_apply mg_query_def Let_def)
          with Inl one new Inr show ?thesis
            by (auto simp: one_migration_def intro: prefix_none prefix_unrecorded prefix_step)
        next
          case q: (Inr u)
          have run: "migrate_loop exec own readFile applied files s2 = (r, s')"
            using Cons.prems(2) new Inr None a q by (simp add: bindS_apply mg_query_def Let_def)
          obtain d' where "exec content d = Inr d'" "settled s2 d' (ns @ [f])" using one q by (auto simp: one_migration_def)
          from prefix_step[OF Inr this(1) Cons.IH[OF this(2) run]] new show ?thesis by simp
        qed
      qed
    qed
  qed
qed

definition run_prefix ::
  "(string \<Rightarrow> 'd \<Rightarrow> string + 'd) \<Rightarrow> (string \<Rightarrow> bool) \<Rightarrow> (string \<Rightarrow> string + string) \<Rightarrow> string list \<Rightarrow> 'd Migrations \<Rightarrow> js_exn + unit
    \<Rightarrow> 'd Migrations \<Rightarrow> bool" where
  "run_prefix exec own readFile dir s r s' \<longleftrightarrow> (\<exists>ds rest d1. filter (\<lambda>f. f \<notin> set (default_to [] (mg_names s))) (sql_files dir) = ds @ rest
     \<and> execute_all exec readFile ds (mg_data s) = Some d1 \<and> mg_saved s' = None \<and> default_to [] (mg_names s') = default_to [] (mg_names s) @ ds
     \<and> (mg_data s' = d1 \<or> r \<noteq> Inr () \<and> (\<exists>f fs text. rest = f # fs \<and> readFile f = Inr text \<and> own text \<and> exec text d1 = Inr (mg_data s')))
     \<and> (r = Inr () \<longrightarrow> rest = []))"

lemma migrate_run_prefix:
  assumes "mg_saved t = None" "migrate_run exec own readFile (Inr dir) t = (q, t')"
  shows "run_prefix exec own readFile dir t q t'"
proof (cases "shd (mg_faults t) = None \<and> shd (stl (mg_faults t)) = None")
  case True
  let ?t2 = "t\<lparr>mg_names := Some (default_to [] (mg_names t)), mg_faults := stl (stl (mg_faults t))\<rparr>"
  have "migrate_loop exec own readFile (default_to [] (mg_names t)) (sql_files dir) ?t2 = (q, t')"
    using assms(2) True by (simp add: migrate_run_def ensureMigrationsTable_def appliedMigrations_def bindS_apply mg_query_def Let_def)
  moreover have "settled ?t2 (mg_data t) (default_to [] (mg_names t))" using assms(1) by (simp add: settled_def)
  ultimately have "prefix_done exec own readFile (filter (\<lambda>f. f \<notin> set (default_to [] (mg_names t))) (sql_files dir))
      (mg_data t) (default_to [] (mg_names t)) q t'" by (rule migrate_loop_prefix[rotated])
  then obtain ds rest d1 d2 where d: "filter (\<lambda>f. f \<notin> set (default_to [] (mg_names t))) (sql_files dir) = ds @ rest"
    "execute_all exec readFile ds (mg_data t) = Some d1" "settled t' d2 (default_to [] (mg_names t) @ ds)"
    "d2 = d1 \<or> q \<noteq> Inr () \<and> (\<exists>f fs text. rest = f # fs \<and> readFile f = Inr text \<and> own text \<and> exec text d1 = Inr d2)"
    "q = Inr () \<longrightarrow> rest = []" unfolding prefix_done_def by blast
  from d(3) have "mg_data t' = d2" "mg_saved t' = None" "default_to [] (mg_names t') = default_to [] (mg_names t) @ ds"
    by (simp_all add: settled_def default_to_def)
  with d show ?thesis unfolding run_prefix_def by (intro exI[of _ ds] exI[of _ rest] exI[of _ d1]) simp
next
  case False
  then have "mg_data t' = mg_data t \<and> default_to [] (mg_names t') = default_to [] (mg_names t) \<and> mg_saved t' = None \<and> q \<noteq> Inr ()"
    using assms
    by (auto simp: migrate_run_def ensureMigrationsTable_def appliedMigrations_def bindS_apply mg_query_def Let_def default_to_def
        split: option.splits if_splits prod.splits)
  then show ?thesis unfolding run_prefix_def
    by (intro exI[of _ "[]"] exI[of _ "filter (\<lambda>f. f \<notin> set (default_to [] (mg_names t))) (sql_files dir)"]) simp
qed

text \<open>C37: Migrations are applied in order, and what is recorded was applied.  However a run ends (a file that cannot be read, a call that
  fails at any point, with or without its effect), the files it recorded are an initial part of the \<open>.sql\<close> files in name order that
  were not recorded before, and the data are the result of executing exactly these one after the other, each as a whole, except
  that a failing run may also have executed the one file that comes next, when this file ends the runner's transaction with
  its own COMMIT; without such files there is no exception.  A run that succeeds has recorded and executed all of them once, and a run after
  it changes nothing.\<close>

theorem migrations_apply_a_prefix:
  assumes "mg_saved s = None" "migrate_run exec own readFile (Inr dir) s = (r, s')"
  shows "\<exists>ds rest d1. filter (\<lambda>f. f \<notin> set (default_to [] (mg_names s))) (sql_files dir) = ds @ rest
      \<and> sorted_wrt name_le (ds @ rest) \<and> default_to [] (mg_names s') = default_to [] (mg_names s) @ ds
      \<and> execute_all exec readFile ds (mg_data s) = Some d1
      \<and> (mg_data s' = d1 \<or> r \<noteq> Inr () \<and> (\<exists>f fs text. rest = f # fs \<and> readFile f = Inr text \<and> own text \<and> exec text d1 = Inr (mg_data s')))
      \<and> (r = Inr () \<longrightarrow> rest = [])
      \<and> (r = Inr () \<longrightarrow> (\<forall>s2 r2. migrate_run exec own readFile (Inr dir) s' = (r2, s2) \<longrightarrow>
            mg_data s2 = mg_data s' \<and> default_to [] (mg_names s2) = default_to [] (mg_names s')))"
proof -
  let ?todo = "\<lambda>t. filter (\<lambda>f. f \<notin> set (default_to [] (mg_names t))) (sql_files dir)"
  from migrate_run_prefix[OF assms] obtain ds rest d1 where d: "?todo s = ds @ rest" "execute_all exec readFile ds (mg_data s) = Some d1"
    "default_to [] (mg_names s') = default_to [] (mg_names s) @ ds" "r = Inr () \<longrightarrow> rest = []" "mg_saved s' = None"
    "mg_data s' = d1 \<or> r \<noteq> Inr () \<and> (\<exists>f fs text. rest = f # fs \<and> readFile f = Inr text \<and> own text \<and> exec text d1 = Inr (mg_data s'))"
    unfolding run_prefix_def by blast
  have "sorted_wrt name_le (ds @ rest)" unfolding d(1)[symmetric] by (rule sorted_wrt_filter[OF sorted_sql_files])
  moreover have "mg_data s2 = mg_data s' \<and> default_to [] (mg_names s2) = default_to [] (mg_names s')"
    if "r = Inr ()" "migrate_run exec own readFile (Inr dir) s' = (r2, s2)" for r2 s2
  proof -
    have "set (sql_files dir) \<subseteq> set (default_to [] (mg_names s')) "
      using arg_cong[OF d(1), of set] d(3,4) that(1) by auto
    then have "?todo s' = []" by (auto simp: filter_empty_conv)
    with migrate_run_prefix[OF d(5) that(2)] show ?thesis by (auto simp: run_prefix_def)
  qed
  ultimately show ?thesis using d by blast
qed

definition toy_migrations :: "nat Migrations" where
  "toy_migrations = \<lparr>mg_data = 0, mg_names = None, mg_saved = None, mg_faults = sconst None\<rparr>"

lemma migrations_apply_a_prefix_witness:
  "\<exists>ds rest d1. filter (\<lambda>f. f \<notin> set (default_to [] (mg_names toy_migrations))) (sql_files [''b.sql'', ''a.sql'']) = ds @ rest
      \<and> execute_all (\<lambda>t d. Inr (2 * d + length t)) Inr ds (mg_data toy_migrations) = Some d1
      \<and> (fst (migrate_run (\<lambda>t d. Inr (2 * d + length t)) (\<lambda>_. True) Inr (Inr [''b.sql'', ''a.sql'']) toy_migrations) = Inr () \<longrightarrow>
          mg_data (snd (migrate_run (\<lambda>t d. Inr (2 * d + length t)) (\<lambda>_. True) Inr (Inr [''b.sql'', ''a.sql'']) toy_migrations)) = d1)"
proof -
  have "mg_saved toy_migrations = None" by (simp add: toy_migrations_def)
  from migrations_apply_a_prefix[OF this, of "\<lambda>t d. Inr (2 * d + length t)" "\<lambda>_. True" Inr "[''b.sql'', ''a.sql'']", OF surjective_pairing]
  show ?thesis by blast
qed

text \<open>A file that ends the transaction itself can be executed twice: when the row of its name fails after it, the ROLLBACK has
  nothing to undo, and the next run starts with the same file again.\<close>

definition broken_insert :: "nat Migrations" where
  "broken_insert = toy_migrations\<lparr>mg_faults := None ## None ## None ## None ## None ## Some (''terminated'', False) ## sconst None\<rparr>"

definition after_break :: "nat Migrations" where
  "after_break = toy_migrations\<lparr>mg_data := 1, mg_names := Some []\<rparr>"

lemma toy_files: "sql_files [''a.sql''] = [''a.sql'']"
  by (simp add: sql_files_def sort_names_def starts_with_def)

lemma broken_run:
  "migrate_run (\<lambda>t d. Inr (Suc d)) (\<lambda>_. True) Inr (Inr [''a.sql'']) broken_insert
    = (Inl (PlainError ''terminated''), after_break)"
  by (simp add: migrate_run_def ensureMigrationsTable_def appliedMigrations_def bindS_apply mg_query_def mg_begin_def
      mg_rollback_def rolled_back_def apply_migration_def tryS_def toy_migrations_def broken_insert_def after_break_def toy_files Let_def default_to_def
      siterate.simps)

lemma second_run:
  "migrate_run (\<lambda>t d. Inr (Suc d)) (\<lambda>_. True) Inr (Inr [''a.sql'']) (after_break)
    = (Inr (), toy_migrations\<lparr>mg_data := 2, mg_names := Some [''a.sql'']\<rparr>)"
  by (simp add: migrate_run_def ensureMigrationsTable_def appliedMigrations_def bindS_apply mg_query_def mg_begin_def mg_commit_def
      apply_migration_def tryS_def toy_migrations_def after_break_def toy_files Let_def default_to_def ret_def)

theorem migration_executed_twice:
  "\<exists>e s1 s2. migrate_run (\<lambda>t d. Inr (Suc d)) (\<lambda>_. True) Inr (Inr [''a.sql'']) broken_insert = (Inl e, s1)
    \<and> mg_data s1 = 1 \<and> mg_names s1 = Some []
    \<and> migrate_run (\<lambda>t d. Inr (Suc d)) (\<lambda>_. True) Inr (Inr [''a.sql'']) s1 = (Inr (), s2) \<and> mg_data s2 = 2 \<and> mg_names s2 = Some [''a.sql'']"
  by (simp add: broken_run second_run) (simp add: after_break_def)

end
