(* ===== verification/Spec2Isabelle.thy ===== *)
theory Spec2Isabelle
  imports AurumVerifier LedgerClaims EvidenceClaims RouteClaims PostgresStore WorkerClaims VaultKeys
    GapuraClaims TxClaims RpcCache AnchoringClaims TraceApi ConsoleClaims MonitorClaims ConsoleCopilot
    SdkClaims SdkChain Migrations
begin

text \<open>
  A verification development for the HARA registry services.

  The program.  HARA is a private chain for supply-chain traceability with services around it.  The
  Registry Ledger keeps one append-only RFC 6962 Merkle log per tenant, records attestations and evidence
  as leaves of these logs, publishes signed tree heads that it anchors on the chain, and hands out inclusion
  and consistency proofs, which the Aurum SDK verifies offline.  The indexer copies contract events of the
  chain into a table; the anchor worker hashes this table slice by slice into Merkle trees and anchors
  their roots; the trace API answers custody questions from the same table.  The Gapura gateway anchors
  digests for clients and forwards identity requests.  Signer and broadcaster bring transactions to
  the chain over a shared table.  The operator console manages users and proposes commands.  Three SDKs
  call these services and the chain.

  Shared theories:
  \<^item> Prelude: byte strings, JavaScript's 32-bit operators and text functions, hexadecimal text, exceptions
    as values.  JsData: parsed JSON of any shape, \<open>Number\<close>, \<open>String\<close>, URI and JSON text.  JsDouble: the
    floating-point numbers of the console's statistics and of the volumes of the trace API.
  \<^item> LedgerTypes: types.ts and errors.ts of the ledger; the state and exception monad with its weakest
    precondition calculus (\<open>wp_simps\<close>), which all stateful theories use.

  Registry Ledger (services/registry-ledger/src):
  \<^item> Merkle_Spec: RFC 6962 and 9162 as a specification, with completeness and soundness of both proofs.
    TransparencyLog: transparency-log.ts; its recursions are shown equal to the specification's.
  \<^item> Store: store/index.ts and store/memory.ts on a heap of shared records; locale \<open>store_contract\<close>,
    extended by \<open>total_store\<close>, is interpreted on the in-memory store.  PostgresStore: store/postgres.ts; locale
    \<open>leaf_store\<close>, which every \<open>store_contract\<close> is by \<open>sublocale\<close>, is interpreted on its tables.
  \<^item> AnchorService: config.ts, services/pq.ts, services/anchor.ts; locale \<open>anchor_contract\<close>, interpreted on \<open>anchorSTH\<close>.
  \<^item> Ledger: services/ledger.ts over any store and any anchor operation.  LedgerInv, LedgerOps, LedgerEvidence
    prove, in the locale \<open>ledger\<close>, the invariant that ties records to leaves and the answer of every
    operation on every branch; LedgerSafety closes them under the step relation \<open>ledger_step\<close> and interprets
    the locale on the in-memory store and \<open>anchorSTH\<close>; LedgerLive adds progress (\<open>live_ledger\<close>).  LedgerClaims and
    EvidenceClaims state the properties.
  \<^item> Routes: auth.ts, routes/*.ts and server.ts; RouteClaims: a read request leaves the records alone, and a
    write request is refused or is exactly the ledger operation of its route for the tenant of its token.

  Other services (services/*/src):
  \<^item> WorkerMerkle, AnchorWorker, WorkerClaims: anchor-worker; records are backed by stored blobs, a cycle commits
    what it read, and what the LIMIT of the query loses.  VaultKeys: vaultKey.ts and shared/src/vault.ts.
  \<^item> Indexer, IndexerClaims: indexer; the event table holds events of the chain up to the cursor in order,
    and all of them as long as no RPC node answers behind the head (\<open>pool_keeps_up\<close>); the read pool of deploy/rpc/lb
    does not promise this, and \<open>lagging_node_loses_logs\<close> shows what is lost otherwise.  AnchoringClaims: indexer and
    worker running together skip no event, under the same condition.  TraceApi: trace-api.ts over the
    views of migration 003; its numbers are doubles, so balances are shown exactly only below \<open>2 ^ 53\<close>.
  \<^item> GapuraTypes, GapuraStore, GapuraAnchors, GapuraRoutes, GapuraClaims: gapura-gateway; locale \<open>gapura_store\<close> is
    interpreted on both stores, and the claims hold for any sequence of requests.
  \<^item> TxPipeline, TxClaims: signer and broadcaster; the nonce ledger is refined to an abstract allocator.
  \<^item> RpcCache: rpc-cache.  Migrations: migrate, with transactions, faults before and after the effect of a call, and
    files that end the runner's transaction with a COMMIT of their own, as those under services/migrations do.

  Console and SDKs:
  \<^item> ConsoleProposals, ConsoleUsers, ConsoleRoutes, ConsoleClaims (console/server/src): contracts, proposals, audit,
    users, sessions and routes; locale \<open>table_invariant\<close> is interpreted twice, on well-formed tables and on
    the presence of an active owner.
  \<^item> ConsoleSources, ConsoleBackups, ConsoleMonitor, ConsoleSignals, ConsoleInsights, ConsoleCopilot: the same server's
    rpc.ts, sources.ts, metrics.ts, alerts.ts, insights.ts and copilot.ts, over remote systems that answer
    each call with anything or fail.  JSON answers are of any shape.  MonitorClaims: a calculus of the calls an
    operation makes (\<open>calls_only\<close>), the role needed to change anything outside, and that a backup which
    is not well is reported.
  \<^item> AurumVerifier: sdk/aurum/typescript/src/verifier.ts, compared with the verifiers of the ledger.  SdkClient: the
    HTTP clients of the Aurum and Gapura SDKs and the trace client; SdkClaims composes them with the
    services' routes; a path goes through \<open>new URL\<close>, which resolves the segments . and ..  SdkChain:
    chain client, contract wrappers and anchor builder of sdk/typescript.

  Parameters.  SHA-256, keccak, scrypt, ML-DSA-65, the signing and decoding functions of viem and the check of
  tokens by jose are functions the definitions take.  Chain, databases, Redis, object store, Vault, the DID
  resolver and clocks answer from streams in the state, and every call to them may fail.  Soundness
  theorems assume that no two of an explicit finite list of hashed texts collide; no injectivity on
  all texts is assumed.

  Loops and bounds.  The split-point loop of the log, a shift loop of its verifier and the polling loop of the
  broadcaster are partial functions in the option type: the first really runs forever above \<open>2 ^ 30\<close> because its shift has 32 bits, and a run
  that does not end is the error value \<open>Diverges\<close>; a claim shows for which sizes it ends.  All other loops are total:
  structural, or by a measure (the retry loop counts its attempts, the shift loops halve).  No fuel is
  used.  Bit operations act on 32-bit words; other numbers are exact integers, which agree with JavaScript's
  below \<open>2 ^ 53\<close>.  A JavaScript text is the list of the bytes of its UTF-8 form, so lengths and slices agree with
  JavaScript's on ASCII texts only.  \<open>serve\<close> answers a handler that does not end as one that throws, with 500, where the
  real one never answers.

  What is taken as the code has it.  The anchor worker looks at no receipt status: where its claims
  say anchored or committed, a receipt was handed out, which may be one of a reverted transaction.  The ledger's anchor service and
  the Gapura gateway insist on success.
  \<open>w_sent\<close> of the worker also lists submissions the node rejects, so bounds on it are bounds on what was tried.
  The JSON of the backup agents has the fields of its TypeScript type; a \<open>method\<close> of a JSON-RPC call that is an array
  is not coerced to a key.  Request headers other than those of authentication and idempotency are not kept.

  Not modelled:
  \<^item> The console's web interface (console/src, api-console): rendering.
  \<^item> Load tests, simulations and deployment scripts (ops, deploy, chain), which generate traffic or start processes.
  \<^item> The Solidity contracts and the Go and Python SDKs, which are other languages.
  \<^item> Telemetry, logging, connection pools, HTTP transport and process start-up, which configure third-party
    packages.
  \<^item> Concurrency inside one process, except where a theorem is about an interleaving (two
    demotions in the console, indexer and worker side by side); a handler runs to its end.
\<close>

end
